(* ===== verification/Prelude.thy ===== *)
theory Prelude
  imports Main "HOL-Library.Product_Lexorder" "HOL-Library.Sublist"
begin

text \<open>
  The shared layer of the development: time units, the operations on ASCII strings that the
  code takes from Go's \<open>strings\<close> and \<open>strconv\<close> packages, loops that return from their body,
  and database tables as lists of rows with the lemmas every component uses about them.

  Time is an \<open>int\<close> count of nanoseconds, as in Go's \<open>time.Duration\<close> and \<open>time.Time\<close>; strings
  are byte strings (\<open>char list\<close>), as in Go, and the case and white space functions are those of
  Go on ASCII. An operation of a service is a function from the state to the new state and
  either an error (\<open>Inl\<close>) or a result (\<open>Inr\<close>).
\<close>

named_theorems row_simps \<open>equations about tables of rows\<close>

type_synonym time = int
type_synonym ('s, 'e, 'a) outcome = "'s \<times> ('e + 'a)"

subsection \<open>Durations (package time)\<close>

abbreviation second :: int where "second \<equiv> 1000000000"
abbreviation minute :: int where "minute \<equiv> 60000000000"
abbreviation hour :: int where "hour \<equiv> 3600000000000"
abbreviation day :: int where "day \<equiv> 86400000000000"

subsection \<open>Strings\<close>

text \<open>\<open>unicode.IsSpace\<close> on ASCII: tab, line feed, vertical tab, form feed, return, space.\<close>

definition is_space :: "char \<Rightarrow> bool" where
  "is_space c \<longleftrightarrow> c = CHR '' '' \<or> c \<in> {CHR 0x09, CHR 0x0A, CHR 0x0B, CHR 0x0C, CHR 0x0D}"

definition is_digit :: "char \<Rightarrow> bool" where
  "is_digit c \<longleftrightarrow> 48 \<le> (of_char c :: nat) \<and> (of_char c :: nat) \<le> 57"

definition lower_char :: "char \<Rightarrow> char" where
  "lower_char c = (let n = (of_char c :: nat) in if 65 \<le> n \<and> n \<le> 90 then char_of (n + 32) else c)"

definition upper_char :: "char \<Rightarrow> char" where
  "upper_char c = (let n = (of_char c :: nat) in if 97 \<le> n \<and> n \<le> 122 then char_of (n - 32) else c)"

definition to_lower :: "string \<Rightarrow> string" where "to_lower = map lower_char"
definition to_upper :: "string \<Rightarrow> string" where "to_upper = map upper_char"

text \<open>\<open>strings.TrimLeft\<close>, \<open>strings.TrimRight\<close> and \<open>strings.TrimSpace\<close>.\<close>

definition trim_left :: "(char \<Rightarrow> bool) \<Rightarrow> string \<Rightarrow> string" where "trim_left P s = dropWhile P s"
definition trim_right :: "(char \<Rightarrow> bool) \<Rightarrow> string \<Rightarrow> string" where
  "trim_right P s = rev (dropWhile P (rev s))"
definition trim_space :: "string \<Rightarrow> string" where
  "trim_space s = trim_right is_space (trim_left is_space s)"

fun starts_with :: "string \<Rightarrow> string \<Rightarrow> bool" where
  "starts_with [] s = True"
| "starts_with (p # ps) [] = False"
| "starts_with (p # ps) (c # cs) = (p = c \<and> starts_with ps cs)"

definition ends_with :: "string \<Rightarrow> string \<Rightarrow> bool" where
  "ends_with p s = starts_with (rev p) (rev s)"

definition trim_prefix :: "string \<Rightarrow> string \<Rightarrow> string" where
  "trim_prefix p s = (if starts_with p s then drop (length p) s else s)"

definition trim_suffix :: "string \<Rightarrow> string \<Rightarrow> string" where
  "trim_suffix p s = (if ends_with p s then take (length s - length p) s else s)"

fun contains_str :: "string \<Rightarrow> string \<Rightarrow> bool" where
  "contains_str p [] = (p = [])"
| "contains_str p (c # cs) = (starts_with p (c # cs) \<or> contains_str p cs)"

definition contains_any :: "char list \<Rightarrow> string \<Rightarrow> bool" where
  "contains_any cs s \<longleftrightarrow> list_ex (\<lambda>c. c \<in> set cs) s"

text \<open>\<open>strings.Cut\<close> and \<open>strings.Split\<close> at a one-character separator.\<close>

fun cut :: "char \<Rightarrow> string \<Rightarrow> (string \<times> string) option" where
  "cut d [] = None"
| "cut d (c # cs) =
     (if c = d then Some ([], cs)
      else case cut d cs of None \<Rightarrow> None | Some (a, b) \<Rightarrow> Some (c # a, b))"

fun split_char :: "char \<Rightarrow> string \<Rightarrow> string list" where
  "split_char d [] = [[]]"
| "split_char d (c # cs) =
     (if c = d then [] # split_char d cs
      else case split_char d cs of [] \<Rightarrow> [[c]] | w # ws \<Rightarrow> (c # w) # ws)"

fun join :: "string \<Rightarrow> string list \<Rightarrow> string" where
  "join sep [] = []"
| "join sep [w] = w"
| "join sep (w # v # ws) = w @ sep @ join sep (v # ws)"

text \<open>\<open>strconv.Atoi\<close>: an optional sign, then decimal digits, within 64 bits.\<close>

definition digit_val :: "char \<Rightarrow> int" where "digit_val c = int (of_char c) - 48"

fun digits_val :: "int \<Rightarrow> string \<Rightarrow> int" where
  "digits_val acc [] = acc"
| "digits_val acc (c # cs) = digits_val (10 * acc + digit_val c) cs"

definition atoi_nat :: "string \<Rightarrow> int option" where
  "atoi_nat s = (if s \<noteq> [] \<and> list_all is_digit s then Some (digits_val 0 s) else None)"

definition atoi :: "string \<Rightarrow> int option" where
  "atoi s =
     (let v = (case s of
                 [] \<Rightarrow> None
               | c # cs \<Rightarrow> if c = CHR ''-'' then map_option uminus (atoi_nat cs)
                           else if c = CHR ''+'' then atoi_nat cs else atoi_nat s)
      in case v of None \<Rightarrow> None
         | Some n \<Rightarrow> if - (2 ^ 63) \<le> n \<and> n < 2 ^ 63 then Some n else None)"

text \<open>Decimal printing (\<open>strconv.Itoa\<close>, \<open>%d\<close>).\<close>

fun show_nat :: "nat \<Rightarrow> string" where
  "show_nat n = (if n < 10 then [char_of (48 + n)] else show_nat (n div 10) @ [char_of (48 + n mod 10)])"

declare show_nat.simps [simp del]

definition show_int :: "int \<Rightarrow> string" where
  "show_int i = (if i < 0 then CHR ''-'' # show_nat (nat (- i)) else show_nat (nat i))"

lemma digits_val_append: "digits_val acc (u @ v) = digits_val (digits_val acc u) v"
  by (induction u arbitrary: acc) simp_all

lemma digit_char [simp]:
  assumes "d < 10"
  shows "is_digit (char_of (48 + d))" and "digit_val (char_of (48 + d)) = int d"
proof -
  have "48 + d < 256" using assms by simp
  then have c: "(of_char (char_of (48 + d)) :: nat) = 48 + d" by simp
  then show "is_digit (char_of (48 + d))" using assms by (simp add: is_digit_def)
  show "digit_val (char_of (48 + d)) = int d" by (simp only: digit_val_def c)
qed

lemma show_nat_digits: "list_all is_digit (show_nat n)" and show_nat_nonempty: "show_nat n \<noteq> []"
  and digits_val_show_nat: "digits_val 0 (show_nat n) = int n"
proof (induction n rule: less_induct)
  case (less n)
  have "n mod 10 < 10" by simp
  note d = digit_char [OF this]
  { case 1 show ?case
    proof (cases "n < 10")
      case False
      then have "n div 10 < n" by simp
      from less(1) [OF this] d(1) False show ?thesis by (subst show_nat.simps) simp
    qed (subst show_nat.simps, simp) }
  { case 2 show ?case by (subst show_nat.simps) simp }
  { case 3 show ?case
    proof (cases "n < 10")
      case False
      then have "n div 10 < n" by simp
      from less(3) [OF this] d(2) False show ?thesis
        by (subst show_nat.simps) (simp add: digits_val_append zdiv_int zmod_int)
    qed (subst show_nat.simps, simp) }
qed

lemma atoi_nat_show_nat [simp]: "atoi_nat (show_nat n) = Some (int n)"
  by (simp add: atoi_nat_def show_nat_digits show_nat_nonempty digits_val_show_nat)

text \<open>Cutting a string to at most \<open>n\<close> bytes (the \<open>clip\<close> helper of several packages).\<close>

definition clip :: "string \<Rightarrow> nat \<Rightarrow> string" where
  "clip v n = (if length v > n then take n v else v)"

lemma length_clip: "length (clip v n) \<le> n"
  by (simp add: clip_def)

lemma clip_id [simp]: "length v \<le> n \<Longrightarrow> clip v n = v"
  by (simp add: clip_def)

lemma trim_space_Nil [simp]: "trim_space [] = []"
  by (simp add: trim_space_def trim_left_def trim_right_def)

lemma to_lower_idem [simp]: "to_lower (to_lower s) = to_lower s"
proof -
  have "lower_char (lower_char c) = lower_char c" for c
    by (auto simp: lower_char_def Let_def)
  then show ?thesis by (simp add: to_lower_def)
qed

lemma length_to_lower [simp]: "length (to_lower s) = length s"
  by (simp add: to_lower_def)

lemma starts_with_append [simp]: "starts_with p (p @ s)"
  by (induction p) auto

lemma starts_with_iff: "starts_with p s \<longleftrightarrow> (\<exists>t. s = p @ t)"
  by (induction p s rule: starts_with.induct) auto

lemma split_char_nonempty [simp]: "split_char d s \<noteq> []"
  by (induction s) (auto split: list.splits)

lemma split_char_parts: "w \<in> set (split_char d s) \<Longrightarrow> d \<notin> set w"
proof (induction s arbitrary: w)
  case Nil
  then show ?case by simp
next
  case (Cons c cs)
  then show ?case
    by (cases "split_char d cs") (auto split: if_splits)
qed

lemma split_char_one: "d \<notin> set u \<Longrightarrow> split_char d u = [u]"
  by (induction u) auto

lemma split_char_append: "d \<notin> set u \<Longrightarrow> split_char d (u @ d # v) = u # split_char d v"
  by (induction u) auto

lemma split_char_prefix:
  "d \<notin> set u \<Longrightarrow> split_char d (u @ v) = (u @ hd (split_char d v)) # tl (split_char d v)"
  by (induction u) (cases "split_char d v"; auto)+

lemma join_split_char: "join [d] (split_char d s) = s"
proof (induction s)
  case Nil
  then show ?case by simp
next
  case (Cons c cs)
  obtain w ws where w: "split_char d cs = w # ws"
    by (cases "split_char d cs") auto
  with Cons show ?case
    by (cases ws) auto
qed

subsection \<open>Loops\<close>

text \<open>A \<open>for\<close> loop that returns from its body at the first element that gives a result.\<close>

fun first_some :: "('a \<Rightarrow> 'b option) \<Rightarrow> 'a list \<Rightarrow> 'b option" where
  "first_some f [] = None"
| "first_some f (x # xs) = (case f x of None \<Rightarrow> first_some f xs | Some y \<Rightarrow> Some y)"

lemma first_some_None [simp]: "first_some f xs = None \<longleftrightarrow> (\<forall>x\<in>set xs. f x = None)"
  by (induction xs) (auto split: option.splits)

lemma first_some_Some: "first_some f xs = Some y \<Longrightarrow> \<exists>x\<in>set xs. f x = Some y"
  by (induction xs) (auto split: option.splits)

lemma first_some_split:
  "first_some f xs = Some y \<Longrightarrow>
     \<exists>us x vs. xs = us @ x # vs \<and> (\<forall>u\<in>set us. f u = None) \<and> f x = Some y"
proof (induction xs)
  case Nil
  then show ?case by simp
next
  case (Cons a xs)
  show ?case
  proof (cases "f a")
    case None
    with Cons obtain us x vs where "xs = us @ x # vs" "\<forall>u\<in>set us. f u = None" "f x = Some y"
      by auto
    with None have "a # xs = (a # us) @ x # vs \<and> (\<forall>u\<in>set (a # us). f u = None) \<and> f x = Some y"
      by simp
    then show ?thesis by blast
  next
    case (Some z)
    with Cons.prems have "a # xs = [] @ a # xs \<and> (\<forall>u\<in>set []. f u = None) \<and> f a = Some y" by simp
    then show ?thesis by blast
  qed
qed

text \<open>Over the counter of \<open>for k := i; k <= j; k++\<close> the first hit is the least one.\<close>

lemma first_some_upto:
  "first_some f [i..j] = Some y \<Longrightarrow>
     \<exists>k. i \<le> k \<and> k \<le> j \<and> f k = Some y \<and> (\<forall>m. i \<le> m \<and> m < k \<longrightarrow> f m = None)"
proof (induction i j rule: upto.induct)
  case (1 i j)
  show ?case
  proof (cases "f i")
    case None
    with "1.prems" have le: "i \<le> j" and "first_some f [i + 1..j] = Some y"
      by (auto simp: upto.simps [of i j] split: if_splits)
    with "1.IH" obtain k where k: "i + 1 \<le> k" "k \<le> j" "f k = Some y"
      and before: "\<forall>m. i + 1 \<le> m \<and> m < k \<longrightarrow> f m = None" by blast
    have "f m = None" if "i \<le> m" "m < k" for m
      using that before None by (cases "m = i") auto
    with k show ?thesis by (intro exI [of _ k]) auto
  next
    case (Some z)
    with "1.prems" show ?thesis
      by (intro exI [of _ i]) (auto simp: upto.simps [of i j] split: if_splits)
  qed
qed

lemma distinct_remdups_adj: "sorted xs \<Longrightarrow> distinct (remdups_adj xs)"
  by (induction xs rule: remdups_adj.induct) (auto simp: order_class.le_less)

subsection \<open>Tables of rows\<close>

text \<open>
  A table is the list of its rows in insertion order. \<open>find_row\<close> is \<open>SELECT \<dots> WHERE key = i\<close>,
  \<open>upd_rows\<close> is \<open>UPDATE \<dots> WHERE P\<close>, \<open>del_rows\<close> is \<open>DELETE \<dots> WHERE P\<close> and \<open>count_rows\<close> is
  \<open>SELECT count(*) \<dots> WHERE P\<close>.
\<close>

definition find_row :: "('r \<Rightarrow> 'k) \<Rightarrow> 'k \<Rightarrow> 'r list \<Rightarrow> 'r option" where
  "find_row key i rs = List.find (\<lambda>r. key r = i) rs"

definition upd_rows :: "('r \<Rightarrow> bool) \<Rightarrow> ('r \<Rightarrow> 'r) \<Rightarrow> 'r list \<Rightarrow> 'r list" where
  "upd_rows P f rs = map (\<lambda>r. if P r then f r else r) rs"

definition del_rows :: "('r \<Rightarrow> bool) \<Rightarrow> 'r list \<Rightarrow> 'r list" where
  "del_rows P rs = filter (\<lambda>r. \<not> P r) rs"

definition count_rows :: "('r \<Rightarrow> bool) \<Rightarrow> 'r list \<Rightarrow> nat" where
  "count_rows P rs = length (filter P rs)"

lemma find_row_Nil [row_simps, simp]: "find_row key i [] = None"
  by (simp add: find_row_def)

lemma find_row_Cons [row_simps]:
  "find_row key i (r # rs) = (if key r = i then Some r else find_row key i rs)"
  by (simp add: find_row_def)

lemma find_row_Some: "find_row key i rs = Some r \<Longrightarrow> r \<in> set rs \<and> key r = i"
  by (auto simp: find_row_def find_Some_iff)

lemma find_row_None: "find_row key i rs = None \<longleftrightarrow> i \<notin> key ` set rs"
  by (auto simp: find_row_def find_None_iff)

lemma find_row_append:
  "find_row key i (rs @ qs) = (case find_row key i rs of None \<Rightarrow> find_row key i qs | Some r \<Rightarrow> Some r)"
  by (induction rs) (auto simp: find_row_Cons)

lemma find_row_distinct:
  assumes "distinct (map key rs)" and "r \<in> set rs"
  shows "find_row key (key r) rs = Some r"
proof (cases "find_row key (key r) rs")
  case None
  with assms(2) show ?thesis by (auto simp: find_row_None)
next
  case (Some q)
  then have "q \<in> set rs" and "key q = key r" by (auto dest: find_row_Some)
  with assms have "q = r" by (auto simp: distinct_map inj_on_def)
  with Some show ?thesis by simp
qed

lemma upd_rows_Nil [row_simps, simp]: "upd_rows P f [] = []"
  by (simp add: upd_rows_def)

lemma upd_rows_Cons [row_simps]: "upd_rows P f (r # rs) = (if P r then f r else r) # upd_rows P f rs"
  by (simp add: upd_rows_def)

lemma length_upd_rows [row_simps, simp]: "length (upd_rows P f rs) = length rs"
  by (simp add: upd_rows_def)

lemma set_upd_rows: "set (upd_rows P f rs) = (\<lambda>r. if P r then f r else r) ` set rs"
  by (simp add: upd_rows_def)

lemma ex_upd_rows: "(\<exists>a\<in>set (upd_rows P f rs). Q a) \<longleftrightarrow> (\<exists>a\<in>set rs. Q (if P a then f a else a))"
  by (simp only: set_upd_rows bex_simps(7))

lemma upd_rows_none: "(\<And>r. r \<in> set rs \<Longrightarrow> \<not> P r) \<Longrightarrow> upd_rows P f rs = rs"
  by (induction rs) (auto simp: upd_rows_Cons)

lemma set_del_rows [row_simps, simp]: "set (del_rows P rs) = {r \<in> set rs. \<not> P r}"
  by (simp add: del_rows_def)

lemma count_rows_Nil [row_simps, simp]: "count_rows P [] = 0"
  by (simp add: count_rows_def)

lemma count_rows_Cons [row_simps]: "count_rows P (r # rs) = (if P r then Suc (count_rows P rs) else count_rows P rs)"
  by (simp add: count_rows_def)

lemma count_rows_append [row_simps]: "count_rows P (rs @ qs) = count_rows P rs + count_rows P qs"
  by (simp add: count_rows_def)

lemma count_rows_le: "count_rows P rs \<le> length rs"
  by (simp add: count_rows_def)

lemma count_rows_0: "count_rows P rs = 0 \<longleftrightarrow> (\<forall>r\<in>set rs. \<not> P r)"
  by (auto simp: count_rows_def filter_empty_conv)

text \<open>
  A unique index on \<open>k\<close>, of the rows whose value satisfies \<open>P\<close>, over a table with primary key
  \<open>key\<close>: rows with the same value are the same row.
\<close>

definition unique_on :: "('r \<Rightarrow> 'k) \<Rightarrow> ('r \<Rightarrow> 'a) \<Rightarrow> ('a \<Rightarrow> bool) \<Rightarrow> 'r list \<Rightarrow> bool" where
  "unique_on key k P rs \<longleftrightarrow> (\<forall>r\<in>set rs. \<forall>q\<in>set rs. P (k r) \<and> k r = k q \<longrightarrow> key r = key q)"

lemma unique_onI:
  "(\<And>r q. r \<in> set rs \<Longrightarrow> q \<in> set rs \<Longrightarrow> P (k r) \<Longrightarrow> k r = k q \<Longrightarrow> key r = key q) \<Longrightarrow> unique_on key k P rs"
  unfolding unique_on_def by blast

lemma unique_onD:
  "unique_on key k P rs \<Longrightarrow> r \<in> set rs \<Longrightarrow> q \<in> set rs \<Longrightarrow> P (k r) \<Longrightarrow> k r = k q \<Longrightarrow> key r = key q"
  unfolding unique_on_def by blast

lemma unique_on_Nil [row_simps, simp]: "unique_on key k P []"
  by (simp add: unique_on_def)

lemma unique_on_subset: "unique_on key k P rs \<Longrightarrow> set qs \<subseteq> set rs \<Longrightarrow> unique_on key k P qs"
  unfolding unique_on_def by blast

lemma unique_on_snoc:
  assumes "unique_on key k P rs" and "\<And>q. P (k r) \<Longrightarrow> q \<in> set rs \<Longrightarrow> k q \<noteq> k r"
  shows "unique_on key k P (rs @ [r])"
proof (rule unique_onI)
  fix x y
  assume "x \<in> set (rs @ [r])" "y \<in> set (rs @ [r])" and P: "P (k x)" and eq: "k x = k y"
  then consider "x \<in> set rs" "y \<in> set rs" | "x \<in> set rs" "y = r" | "x = r" "y \<in> set rs" | "x = r" "y = r" by auto
  then show "key x = key y"
    using assms P eq by cases (metis unique_onD)+
qed

text \<open>
  The contract of an update that keeps the key of its row: looking the row up again gives the
  updated row, every other row is found as before, and the keys of the table do not change.
\<close>

locale keyed_update =
  fixes key :: "'r \<Rightarrow> 'k" and f :: "'r \<Rightarrow> 'r"
  assumes key_kept: "key (f r) = key r"
begin

lemma map_key_upd: "map key (upd_rows P f rs) = map key rs"
  by (induction rs) (auto simp: upd_rows_Cons key_kept)

lemma find_upd: "find_row key i (upd_rows P f rs) = map_option (\<lambda>r. if P r then f r else r) (find_row key i rs)"
  by (induction rs) (auto simp: upd_rows_Cons find_row_Cons key_kept)

lemma find_upd_same: "find_row key i (upd_rows (\<lambda>r. key r = i) f rs) = map_option f (find_row key i rs)"
  by (induction rs) (auto simp: upd_rows_Cons find_row_Cons key_kept)

lemma distinct_key_upd: "distinct (map key (upd_rows P f rs)) = distinct (map key rs)"
  by (simp only: map_key_upd)

lemma unique_key_upd:
  assumes "unique_on key k P rs" and "\<And>r. k (f r) = v" and "\<And>q. P v \<Longrightarrow> q \<in> set rs \<Longrightarrow> key q \<noteq> i \<Longrightarrow> k q \<noteq> v"
  shows "unique_on key k P (upd_rows (\<lambda>r. key r = i) f rs)"
proof (rule unique_onI)
  fix r q
  assume "r \<in> set (upd_rows (\<lambda>r. key r = i) f rs)" and "q \<in> set (upd_rows (\<lambda>r. key r = i) f rs)"
    and P: "P (k r)" and eq: "k r = k q"
  then obtain r0 q0 where r0: "r0 \<in> set rs" "r = (if key r0 = i then f r0 else r0)"
    and q0: "q0 \<in> set rs" "q = (if key q0 = i then f q0 else q0)"
    by (auto simp: set_upd_rows)
  consider "key r0 = i" "key q0 = i" | "key r0 = i" "key q0 \<noteq> i" | "key r0 \<noteq> i" "key q0 = i"
    | "key r0 \<noteq> i" "key q0 \<noteq> i" by blast
  then show "key r = key q"
  proof cases
    case 1
    with r0 q0 show ?thesis by (simp add: key_kept)
  next
    case 2
    with r0 q0 P eq assms(2,3) show ?thesis by metis
  next
    case 3
    with r0 q0 P eq assms(2,3) show ?thesis by metis
  next
    case 4
    with r0 q0 P eq have "key r0 = key q0" by (intro unique_onD [OF assms(1)]) simp_all
    with 4 r0 q0 show ?thesis by simp
  qed
qed

lemma key_upd: "key (if b then f r else r) = key r"
  by (simp add: key_kept)

lemma unique_kept_upd:
  assumes "unique_on key k P rs" and kept: "\<And>r. k (f r) = k r"
  shows "unique_on key k P (upd_rows Q f rs)"
proof (rule unique_onI)
  fix r q
  assume "r \<in> set (upd_rows Q f rs)" and "q \<in> set (upd_rows Q f rs)" and P: "P (k r)" and eq: "k r = k q"
  then obtain r0 q0 where r0: "r0 \<in> set rs" "r = (if Q r0 then f r0 else r0)"
    and q0: "q0 \<in> set rs" "q = (if Q q0 then f q0 else q0)"
    by (auto simp: set_upd_rows)
  have "k r = k r0" "k q = k q0" by (simp_all add: r0(2) q0(2) kept)
  with r0(1) q0(1) P eq have "key r0 = key q0" by (intro unique_onD [OF assms(1)]) simp_all
  then show "key r = key q" by (simp only: r0(2) q0(2) key_upd)
qed

lemma find_upd_other: "i \<noteq> j \<Longrightarrow> find_row key i (upd_rows (\<lambda>r. key r = j) f rs) = find_row key i rs"
  by (induction rs) (auto simp: upd_rows_Cons find_row_Cons key_kept)

end

end
