(* ===== verification/License.thy ===== *)
theory License
  imports Prelude
begin

text \<open>
  License enforcement (\<open>internal/license/guard.go\<close>, \<open>internal/license/manager.go\<close>): the guard
  that answers entitlement questions against a clock that never runs backwards, and the manager
  that stores the license and talks to the license server.

  The license format is a package outside this repository (\<open>taktaplus-lic/pkg/licformat\<close>). The
  functions and fields of it that the code uses are the fields of \<open>licapi\<close>, a parameter \<open>L\<close> of
  the definitions; \<open>'l\<close> is its \<open>License\<close> type. Nothing is assumed about them.
\<close>

record 'l licapi =
  parse_license :: "string \<Rightarrow> string + 'l"
  bound_to :: "'l \<Rightarrow> string \<Rightarrow> string option"
  issued_at :: "'l \<Rightarrow> time"
  not_after :: "'l \<Rightarrow> time"
  license_id :: "'l \<Rightarrow> string"
  online :: "'l \<Rightarrow> (string \<times> int) option"
  lic_device_status :: "'l \<Rightarrow> string \<Rightarrow> time \<Rightarrow> string"
  lic_otp_capacity :: "'l \<Rightarrow> time \<Rightarrow> int"
  status_operational :: "string \<Rightarrow> bool"
  status_unlicensed :: string

datatype lerror =
    NoLicense | ParseError string | NotBound string | Expired | NewerInstalled
  | NoServer | OfflineOnly | ServerError int string | Unreachable string | BadReply string
  | SignError string | UsageError string

subsection \<open>Guard\<close>

record 'l guard =
  g_public :: string
  g_lic :: "'l option"
  g_floor :: time

text \<open>\<open>time.Time{}\<close>, the first of January of the year 1.\<close>

definition zero_time :: time where "zero_time = - 62135596800 * second"

definition new_guard :: "string \<Rightarrow> 'l guard" where
  "new_guard pub = \<lparr>g_public = pub, g_lic = None, g_floor = zero_time\<rparr>"

definition set_clock_floor :: "time \<Rightarrow> 'l guard \<Rightarrow> 'l guard" where
  "set_clock_floor t g = (if t > g_floor g then g\<lparr>g_floor := t\<rparr> else g)"

text \<open>\<open>clk\<close> is the value of the system clock, \<open>g.now()\<close>.\<close>

definition guard_now :: "'l guard \<Rightarrow> time \<Rightarrow> time" where
  "guard_now g clk = (if clk > g_floor g then clk else g_floor g)"

definition clock_rolled_back :: "'l guard \<Rightarrow> time \<Rightarrow> bool" where
  "clock_rolled_back g clk \<longleftrightarrow> clk < g_floor g - hour"

definition guard_clear :: "'l guard \<Rightarrow> 'l guard" where
  "guard_clear g = g\<lparr>g_lic := None\<rparr>"

definition guard_install :: "'l licapi \<Rightarrow> time \<Rightarrow> string \<Rightarrow> 'l guard \<Rightarrow> ('l guard, lerror, 'l) outcome" where
  "guard_install L clk token g =
     (case parse_license L token of
        Inl e \<Rightarrow> (g, Inl (ParseError e))
      | Inr lic \<Rightarrow>
          (case bound_to L lic (g_public g) of
             Some e \<Rightarrow> (g, Inl (NotBound e))
           | None \<Rightarrow>
               if \<not> guard_now g clk < not_after L lic then (g, Inl Expired)
               else (case g_lic g of
                       Some cur \<Rightarrow>
                         if issued_at L lic < issued_at L cur then (g, Inl NewerInstalled)
                         else (g\<lparr>g_lic := Some lic\<rparr>, Inr lic)
                     | None \<Rightarrow> (g\<lparr>g_lic := Some lic\<rparr>, Inr lic))))"

definition guard_license :: "'l guard \<Rightarrow> lerror + 'l" where
  "guard_license g = (case g_lic g of None \<Rightarrow> Inl NoLicense | Some lic \<Rightarrow> Inr lic)"

definition guard_device_status :: "'l licapi \<Rightarrow> time \<Rightarrow> 'l guard \<Rightarrow> string \<Rightarrow> string" where
  "guard_device_status L clk g serial =
     (case guard_license g of
        Inl _ \<Rightarrow> status_unlicensed L
      | Inr lic \<Rightarrow> lic_device_status L lic serial (guard_now g clk))"

definition guard_otp_capacity :: "'l licapi \<Rightarrow> time \<Rightarrow> 'l guard \<Rightarrow> int" where
  "guard_otp_capacity L clk g =
     (case guard_license g of
        Inl _ \<Rightarrow> 0
      | Inr lic \<Rightarrow> lic_otp_capacity L lic (guard_now g clk))"

text \<open>
  Activation and refresh requests. The fingerprint, the usage, the product version and the nonce
  are values the code only passes on; signing is a function of the license package.
\<close>

datatype request_type = RequestActivate | RequestRefresh

record request =
  rq_type :: request_type
  rq_key :: string
  rq_license_id :: string
  rq_public :: string
  rq_fingerprint :: string
  rq_version :: string
  rq_created :: time
  rq_nonce :: string
  rq_usage :: "string list"

record reqenv =
  re_fingerprint :: string
  re_version :: string
  re_nonce :: string
  re_sign :: "request \<Rightarrow> string + string"

definition guard_request ::
  "reqenv \<Rightarrow> time \<Rightarrow> 'l guard \<Rightarrow> request_type \<Rightarrow> string \<Rightarrow> string \<Rightarrow> string list \<Rightarrow> lerror + string" where
  "guard_request E clk g typ key lid usage =
     (case re_sign E \<lparr>rq_type = typ, rq_key = key, rq_license_id = lid, rq_public = g_public g,
          rq_fingerprint = re_fingerprint E, rq_version = re_version E, rq_created = clk div second * second,
          rq_nonce = re_nonce E, rq_usage = usage\<rparr> of
        Inl e \<Rightarrow> Inl (SignError e) | Inr t \<Rightarrow> Inr t)"

definition activation_request :: "reqenv \<Rightarrow> time \<Rightarrow> 'l guard \<Rightarrow> string \<Rightarrow> string list \<Rightarrow> lerror + string" where
  "activation_request E clk g key usage = guard_request E clk g RequestActivate (trim_space key) [] usage"

definition refresh_request :: "'l licapi \<Rightarrow> reqenv \<Rightarrow> time \<Rightarrow> 'l guard \<Rightarrow> string list \<Rightarrow> lerror + string" where
  "refresh_request L E clk g usage =
     (case guard_license g of
        Inl e \<Rightarrow> Inl e
      | Inr lic \<Rightarrow> guard_request E clk g RequestRefresh [] (license_id L lic) usage)"

subsection \<open>Manager\<close>

text \<open>The row of \<open>license_state\<close>, the guard and the configured server address.\<close>

record 'l manager =
  m_guard :: "'l guard"
  m_server :: string
  m_token :: "string option"
  m_installed_at :: "time option"
  m_heartbeat_at :: "time option"
  m_heartbeat_status :: string
  m_last_error :: string
  m_max_seen :: "time option"

definition touch_clock :: "time \<Rightarrow> 'l manager \<Rightarrow> 'l manager" where
  "touch_clock clk m =
     m\<lparr>m_guard := set_clock_floor clk (m_guard m),
       m_max_seen := Some (max (case m_max_seen m of None \<Rightarrow> clk | Some t \<Rightarrow> t) clk)\<rparr>"

definition load :: "'l licapi \<Rightarrow> time \<Rightarrow> 'l manager \<Rightarrow> 'l manager" where
  "load L clk m =
     (let m1 = (case m_max_seen m of None \<Rightarrow> m | Some t \<Rightarrow> m\<lparr>m_guard := set_clock_floor t (m_guard m)\<rparr>)
      in case m_token m of
           None \<Rightarrow> m1
         | Some tok \<Rightarrow> touch_clock clk (m1\<lparr>m_guard := fst (guard_install L clk tok (m_guard m1))\<rparr>))"

definition manager_install :: "'l licapi \<Rightarrow> time \<Rightarrow> string \<Rightarrow> 'l manager \<Rightarrow> ('l manager, lerror, 'l) outcome" where
  "manager_install L clk token0 m =
     (let token = trim_space token0 in
      case guard_install L clk token (m_guard m) of
        (g, Inl e) \<Rightarrow> (m\<lparr>m_guard := g\<rparr>, Inl e)
      | (g, Inr lic) \<Rightarrow>
          (m\<lparr>m_guard := g, m_token := Some token, m_installed_at := Some clk, m_last_error := []\<rparr>, Inr lic))"

definition offline_request ::
  "'l licapi \<Rightarrow> reqenv \<Rightarrow> (string + string list) \<Rightarrow> time \<Rightarrow> string \<Rightarrow> 'l manager \<Rightarrow> lerror + string" where
  "offline_request L E usage clk key m =
     (case usage of
        Inl e \<Rightarrow> Inl (UsageError e)
      | Inr u \<Rightarrow>
          if trim_space key = [] then refresh_request L E clk (m_guard m) u
          else activation_request E clk (m_guard m) key u)"

text \<open>
  An HTTP exchange: the transport fails, the body cannot be read, or a reply with its status
  code, status text, the \<open>error\<close> field of its JSON body (empty when absent) and its decoding.
\<close>

datatype 'b reply = NoReply string | ReadError int string | Reply int string string "string + 'b"

fun post_result :: "'b reply \<Rightarrow> lerror + 'b" where
  "post_result (NoReply e) = Inl (Unreachable e)"
| "post_result (ReadError code e) = Inl (BadReply e)"
| "post_result (Reply code status err body) =
     (if code \<ge> 400 \<and> code \<noteq> 410
      then Inl (ServerError code (if err = [] then status else err))
      else case body of Inl e \<Rightarrow> Inl (BadReply e) | Inr b \<Rightarrow> Inr b)"

definition activate_online ::
  "'l licapi \<Rightarrow> reqenv \<Rightarrow> (string + string list) \<Rightarrow> (string \<Rightarrow> string \<Rightarrow> string reply) \<Rightarrow> time \<Rightarrow> string
     \<Rightarrow> 'l manager \<Rightarrow> ('l manager, lerror, 'l) outcome" where
  "activate_online L E usage net clk key m =
     (if m_server m = [] then (m, Inl NoServer)
      else case offline_request L E usage clk key m of
             Inl e \<Rightarrow> (m, Inl e)
           | Inr tok \<Rightarrow>
               (case post_result (net (m_server m @ ''/api/v1/activate'') tok) of
                  Inl e \<Rightarrow> (m, Inl e)
                | Inr lic \<Rightarrow> manager_install L clk lic m))"

text \<open>
  A heartbeat. The reply carries a status and a license. \<open>msg\<close> is the text of an error. Errors
  before the request is sent leave the stored row alone; every later outcome is recorded.
\<close>

definition record_heartbeat :: "(lerror \<Rightarrow> string) \<Rightarrow> time \<Rightarrow> string \<Rightarrow> lerror option \<Rightarrow> 'l manager \<Rightarrow> 'l manager" where
  "record_heartbeat msg clk status err m =
     m\<lparr>m_heartbeat_at := Some clk, m_heartbeat_status := status,
       m_last_error := (case err of None \<Rightarrow> [] | Some e \<Rightarrow> msg e)\<rparr>"

definition heartbeat_reply ::
  "'l licapi \<Rightarrow> time \<Rightarrow> (lerror + string \<times> string) \<Rightarrow> 'l manager \<Rightarrow> 'l manager \<times> string \<times> lerror option" where
  "heartbeat_reply L clk res m =
     (case res of
        Inl e \<Rightarrow> (m, ''error'', Some e)
      | Inr (status, lic) \<Rightarrow>
          if status = ''updated'' then
            (case manager_install L clk lic m of
               (m', Inl e) \<Rightarrow> (m', ''error'', Some e)
             | (m', Inr _) \<Rightarrow> (m', status, None))
          else if status = ''revoked'' then
            (m\<lparr>m_guard := guard_clear (m_guard m), m_token := None\<rparr>, status, None)
          else (m, status, None))"

definition heartbeat ::
  "'l licapi \<Rightarrow> reqenv \<Rightarrow> (lerror \<Rightarrow> string) \<Rightarrow> (string + string list) \<Rightarrow> (string \<Rightarrow> string \<Rightarrow> (string \<times> string) reply)
     \<Rightarrow> time \<Rightarrow> 'l manager \<Rightarrow> 'l manager \<times> string \<times> lerror option" where
  "heartbeat L E msg usage net clk m =
     (case guard_license (m_guard m) of
        Inl e \<Rightarrow> (m, [], Some e)
      | Inr lic \<Rightarrow>
          (case online L lic of
             None \<Rightarrow> (m, [], Some OfflineOnly)
           | Some (url, _) \<Rightarrow>
               (case usage of
                  Inl e \<Rightarrow> (m, [], Some (UsageError e))
                | Inr u \<Rightarrow>
                    (case refresh_request L E clk (m_guard m) u of
                       Inl e \<Rightarrow> (m, [], Some e)
                     | Inr tok \<Rightarrow>
                         (case heartbeat_reply L clk (post_result (net url tok)) m of
                            (m', status, err) \<Rightarrow> (record_heartbeat msg clk status err m', status, err))))))"

text \<open>The delay until the next heartbeat in the \<open>Run\<close> loop.\<close>

definition beat_interval :: "'l licapi \<Rightarrow> 'l guard \<Rightarrow> lerror option \<Rightarrow> time" where
  "beat_interval L g err =
     (case guard_license g of
        Inl _ \<Rightarrow> 24 * hour
      | Inr lic \<Rightarrow>
          (case online L lic of
             None \<Rightarrow> 24 * hour
           | Some (_, hours) \<Rightarrow>
               if err \<noteq> None then hour
               else if hours > 0 then hours * hour else 24 * hour))"

definition server_url :: "'l licapi \<Rightarrow> 'l manager \<Rightarrow> string" where
  "server_url L m =
     (if m_server m \<noteq> [] then m_server m
      else case guard_license (m_guard m) of
             Inl _ \<Rightarrow> []
           | Inr lic \<Rightarrow>
               (case online L lic of
                  None \<Rightarrow> []
                | Some (url, _) \<Rightarrow> trim_suffix ''/api/v1/heartbeat'' (trim_right (\<lambda>c. c = CHR ''/'') url)))"

subsection \<open>The clock\<close>

lemma guard_now_max: "guard_now g clk = max (g_floor g) clk"
  by (simp add: guard_now_def max_def)

lemma set_clock_floor_max [simp]: "g_floor (set_clock_floor t g) = max (g_floor g) t"
  by (simp add: set_clock_floor_def)

lemma set_clock_floor_lic [simp]:
  "g_lic (set_clock_floor t g) = g_lic g" "g_public (set_clock_floor t g) = g_public g"
  by (simp_all add: set_clock_floor_def)

lemma guard_clear_simps [simp]:
  "g_lic (guard_clear g) = None" "g_floor (guard_clear g) = g_floor g" "g_public (guard_clear g) = g_public g"
  by (simp_all add: guard_clear_def)

lemma guard_install_frame [simp]:
  "g_floor (fst (guard_install L clk tok g)) = g_floor g"
  "g_public (fst (guard_install L clk tok g)) = g_public g"
  by (auto simp: guard_install_def split: sum.splits option.splits)

lemmas manager_defs = touch_clock_def load_def manager_install_def activate_online_def heartbeat_def
  heartbeat_reply_def record_heartbeat_def

lemma manager_install_fields [simp]:
  "m_guard (fst (manager_install L clk tok m)) = fst (guard_install L clk (trim_space tok) (m_guard m))"
  "m_max_seen (fst (manager_install L clk tok m)) = m_max_seen m"
  "m_server (fst (manager_install L clk tok m)) = m_server m"
  by (auto simp: manager_install_def Let_def split: prod.splits sum.splits)

text \<open>
  The operations of a running installation, as steps of the manager: the clock value of a step
  is whatever the system clock shows then.
\<close>

datatype mstep =
    Touch time | Install time string | Activate time string | Beat time

definition mstep_apply ::
  "'l licapi \<Rightarrow> reqenv \<Rightarrow> (lerror \<Rightarrow> string) \<Rightarrow> (string + string list) \<Rightarrow> (string \<Rightarrow> string \<Rightarrow> string reply)
     \<Rightarrow> (string \<Rightarrow> string \<Rightarrow> (string \<times> string) reply) \<Rightarrow> mstep \<Rightarrow> 'l manager \<Rightarrow> 'l manager" where
  "mstep_apply L E msg usage act net s m =
     (case s of
        Touch clk \<Rightarrow> touch_clock clk m
      | Install clk tok \<Rightarrow> fst (manager_install L clk tok m)
      | Activate clk key \<Rightarrow> fst (activate_online L E usage act clk key m)
      | Beat clk \<Rightarrow> fst (heartbeat L E msg usage net clk m))"

lemma heartbeat_reply_frame:
  "g_floor (m_guard (fst (heartbeat_reply L clk res m))) = g_floor (m_guard m)"
  "m_max_seen (fst (heartbeat_reply L clk res m)) = m_max_seen m"
proof -
  obtain m' r where mi: "manager_install L clk (snd (projr res)) m = (m', r)" by fastforce
  then have "m' = fst (manager_install L clk (snd (projr res)) m)" by simp
  then have "g_floor (m_guard m') = g_floor (m_guard m)" "m_max_seen m' = m_max_seen m" by simp_all
  with mi show "g_floor (m_guard (fst (heartbeat_reply L clk res m))) = g_floor (m_guard m)"
    "m_max_seen (fst (heartbeat_reply L clk res m)) = m_max_seen m"
    by (auto simp: heartbeat_reply_def split: sum.splits)
qed

lemma heartbeat_frame [simp]:
  "g_floor (m_guard (fst (heartbeat L E msg usage net clk m))) = g_floor (m_guard m)"
  "m_max_seen (fst (heartbeat L E msg usage net clk m)) = m_max_seen m"
proof -
  note hb = heartbeat_reply_frame [of L clk _ m]
  show "g_floor (m_guard (fst (heartbeat L E msg usage net clk m))) = g_floor (m_guard m)"
    "m_max_seen (fst (heartbeat L E msg usage net clk m)) = m_max_seen m"
    using hb by (auto simp: heartbeat_def record_heartbeat_def split: sum.splits option.splits prod.splits)
      (metis fst_conv)+
qed

lemma activate_frame [simp]:
  "g_floor (m_guard (fst (activate_online L E usage act clk key m))) = g_floor (m_guard m)"
  "m_max_seen (fst (activate_online L E usage act clk key m)) = m_max_seen m"
  by (auto simp: activate_online_def split: sum.splits)

lemma mstep_floor: "g_floor (m_guard m) \<le> g_floor (m_guard (mstep_apply L E msg usage act net s m))"
  by (cases s) (simp_all add: mstep_apply_def touch_clock_def)

lemma mstep_fold_floor:
  "g_floor (m_guard m) \<le> g_floor (m_guard (fold (mstep_apply L E msg usage act net) ss m))"
  by (induction ss arbitrary: m) (auto intro: order_trans [OF mstep_floor])

definition sample_lic :: "string licapi" where
  "sample_lic = \<lparr>parse_license = (\<lambda>t. if t = [] then Inl ''empty'' else Inr t), bound_to = (\<lambda>_ _. None), issued_at = (\<lambda>_. 0),
     not_after = (\<lambda>_. 1000 * day), license_id = (\<lambda>l. l), online = (\<lambda>_. Some (''https://lic/api/v1/heartbeat'', 24)),
     lic_device_status = (\<lambda>_ s _. if s = ''FGT1'' then ''active'' else ''unlicensed''), lic_otp_capacity = (\<lambda>_ _. 5),
     status_operational = (\<lambda>s. s = ''active'' \<or> s = ''grace''), status_unlicensed = ''unlicensed''\<rparr>"

subsection \<open>Properties\<close>

lemma touch_floor: "Touch t \<in> set ss \<Longrightarrow> t \<le> g_floor (m_guard (fold (mstep_apply L E msg usage act net) ss m))"
proof (induction ss arbitrary: m)
  case (Cons s ss)
  show ?case
  proof (cases "s = Touch t")
    case True
    have "t \<le> g_floor (m_guard (mstep_apply L E msg usage act net s m))"
      by (simp add: True mstep_apply_def touch_clock_def)
    also have "\<dots> \<le> g_floor (m_guard (fold (mstep_apply L E msg usage act net) (s # ss) m))"
      using mstep_fold_floor by simp
    finally show ?thesis .
  next
    case False
    with Cons show ?thesis by simp
  qed
qed simp


definition sample_manager :: "string manager" where
  "sample_manager = \<lparr>m_guard = new_guard ''pk'', m_server = ''https://lic'', m_token = None, m_installed_at = None,
     m_heartbeat_at = None, m_heartbeat_status = [], m_last_error = [], m_max_seen = None\<rparr>"

definition sample_reqenv :: reqenv where
  "sample_reqenv = \<lparr>re_fingerprint = ''fp'', re_version = ''1.0'', re_nonce = ''n'', re_sign = (\<lambda>r. Inr (rq_license_id r))\<rparr>"


text \<open>
  A token is installed exactly when it parses, is bound to this installation, has not
  expired on the guard's clock and is not older than the license in force; then it is the
  license in force, and otherwise the guard is unchanged.
\<close>

lemma guard_install_iff:
  "(guard_install L clk tok g = (g', Inr lic) \<longleftrightarrow>
      parse_license L tok = Inr lic \<and> bound_to L lic (g_public g) = None \<and> guard_now g clk < not_after L lic \<and>
      (case g_lic g of None \<Rightarrow> True | Some cur \<Rightarrow> issued_at L cur \<le> issued_at L lic) \<and> g' = g\<lparr>g_lic := Some lic\<rparr>) \<and>
   (\<exists>r. guard_install L clk tok g = (g, Inl r) \<or> snd (guard_install L clk tok g) \<in> range Inr)"
  by (auto simp: guard_install_def split: sum.splits option.splits if_splits)

lemma revoked_reply:
  "heartbeat_reply L clk (Inr (''revoked'', l)) m = (m\<lparr>m_guard := guard_clear (m_guard m), m_token := None\<rparr>, ''revoked'', None)"
  by (simp add: heartbeat_reply_def)

text \<open>
  A heartbeat answered with \<open>revoked\<close> ends every entitlement and outlives a restart: the stored
  token is gone, and both at once and after the process starts again with an empty guard and
  loads its state, every device is unlicensed and no OTP user is allowed.
\<close>

lemma revoked_heartbeat_final:
  assumes "guard_license (m_guard m) = Inr lic" and "online L lic = Some (url, h)"
    and "refresh_request L E clk (m_guard m) u = Inr tok"
    and "net url tok = Reply code st err (Inr (''revoked'', l))" and "code < 400"
  shows "let m' = fst (heartbeat L E msg (Inr u) net clk m); again = load L clk' (m'\<lparr>m_guard := new_guard pub\<rparr>)
     in m_token m' = None \<and> m_heartbeat_status m' = ''revoked'' \<and>
        guard_device_status L now' (m_guard m') serial = status_unlicensed L \<and> guard_otp_capacity L now' (m_guard m') = 0 \<and>
        guard_device_status L now' (m_guard again) serial = status_unlicensed L \<and>
        guard_otp_capacity L now' (m_guard again) = 0"
proof -
  have "heartbeat L E msg (Inr u) net clk m =
      (record_heartbeat msg clk ''revoked'' None (m\<lparr>m_guard := guard_clear (m_guard m), m_token := None\<rparr>), ''revoked'', None)"
    using assms by (simp add: heartbeat_def revoked_reply)
  then show ?thesis
    by (simp add: Let_def record_heartbeat_def guard_device_status_def guard_otp_capacity_def guard_license_def load_def
        new_guard_def split: option.splits)
qed

lemma revoked_heartbeat_final_example:
  "let m = fst (manager_install sample_lic 0 ''tok'' sample_manager);
       m' = fst (heartbeat sample_lic sample_reqenv (\<lambda>_. ''e'') (Inr []) (\<lambda>_ _. Reply 200 ''OK'' [] (Inr (''revoked'', []))) 5 m);
       again = load sample_lic 6 (m'\<lparr>m_guard := new_guard ''pk''\<rparr>)
   in m_token m' = None \<and> m_heartbeat_status m' = ''revoked'' \<and>
      guard_device_status sample_lic 7 (m_guard m') ''FGT1'' = status_unlicensed sample_lic \<and>
      guard_otp_capacity sample_lic 7 (m_guard m') = 0 \<and>
      guard_device_status sample_lic 7 (m_guard again) ''FGT1'' = status_unlicensed sample_lic \<and>
      guard_otp_capacity sample_lic 7 (m_guard again) = 0"
proof -
  have inst: "m_guard (fst (manager_install sample_lic 0 ''tok'' sample_manager)) = (new_guard ''pk'')\<lparr>g_lic := Some ''tok''\<rparr>"
    by (simp add: guard_install_def sample_lic_def sample_manager_def new_guard_def guard_now_def zero_time_def
        trim_space_def trim_left_def trim_right_def is_space_def)
  have gl: "guard_license (m_guard (fst (manager_install sample_lic 0 ''tok'' sample_manager))) = Inr ''tok''"
    unfolding inst guard_license_def by simp
  have rf: "refresh_request sample_lic sample_reqenv clk (m_guard (fst (manager_install sample_lic 0 ''tok'' sample_manager))) us
      = Inr ''tok''" for clk us
    unfolding refresh_request_def gl by (simp add: guard_request_def sample_reqenv_def sample_lic_def)
  show ?thesis unfolding Let_def
    by (rule revoked_heartbeat_final [unfolded Let_def, where lic = "''tok''"
          and url = "''https://lic/api/v1/heartbeat''" and h = 24 and tok = "''tok''"])
      (simp_all only: gl rf, simp_all add: sample_lic_def)
qed

text \<open>
  An installed license survives a restart: a process that starts with an empty guard of the
  same installation and loads the stored state has the same license in force, as long as it has
  not expired on the later of the clock and the latest time ever seen.
\<close>

lemma install_load_roundtrip:
  assumes "manager_install L clk tok m = (m', Inr lic)" and "pub = g_public (m_guard m)"
    and "max zero_time (max (case m_max_seen m of None \<Rightarrow> zero_time | Some t \<Rightarrow> t) clk') < not_after L lic"
  shows "guard_license (m_guard (load L clk' (m'\<lparr>m_guard := new_guard pub\<rparr>))) = Inr lic"
proof -
  from assms(1) have tok: "m_token m' = Some (trim_space tok)" and ms: "m_max_seen m' = m_max_seen m"
    and parse: "parse_license L (trim_space tok) = Inr lic" and bound: "bound_to L lic pub = None"
    by (auto simp: manager_install_def Let_def guard_install_def assms(2)
        split: sum.splits option.splits if_splits prod.splits)
  have "guard_now (g::'a guard) clk' < not_after L lic" if "g_floor g = (case m_max_seen m of None \<Rightarrow> zero_time | Some t \<Rightarrow> max zero_time t)" for g
    using assms(3) that by (auto simp: guard_now_max split: option.splits)
  then show ?thesis
    using parse bound
    by (auto simp: load_def tok ms Let_def guard_install_def new_guard_def touch_clock_def guard_license_def
        set_clock_floor_def split: option.splits)
qed

lemma install_load_roundtrip_example:
  "let m' = fst (manager_install sample_lic 0 ''tok'' sample_manager)
   in guard_license (m_guard (load sample_lic (3 * day) (m'\<lparr>m_guard := new_guard ''pk''\<rparr>))) = Inr ''tok''"
proof -
  have inst: "manager_install sample_lic 0 ''tok'' sample_manager =
      (fst (manager_install sample_lic 0 ''tok'' sample_manager), Inr ''tok'')"
    by (simp add: manager_install_def Let_def guard_install_def sample_lic_def sample_manager_def new_guard_def
        guard_now_def zero_time_def trim_space_def trim_left_def trim_right_def is_space_def)
  show ?thesis unfolding Let_def
    by (rule install_load_roundtrip [OF inst]) (simp_all add: sample_manager_def new_guard_def zero_time_def sample_lic_def)
qed

end
