(* ===== verification/Windows.thy ===== *)
theory Windows
  imports Prelude
begin

text \<open>
  Maintenance windows (\<open>internal/changes/windows.go\<close>): validation, the clock of a window, the
  occurrence that contains a point in time, the next occurrence, and the test whether a device
  may be changed now.

  Go's calendar is used through \<open>AddDate\<close>, \<open>Date\<close> and \<open>Weekday\<close> in the server's location. The
  location is a fixed offset \<open>off\<close> from UTC in nanoseconds (a parameter); a location that changes
  its offset is not modelled. A date is its day number since 1970-01-01, a Thursday.
\<close>

datatype cerror =
    NotFound | StateError | OwnChange | InvalidInput string | OtherError string

record window =
  w_id :: int
  w_name :: string
  w_group :: "int option"
  w_weekdays :: "int list"
  w_start_time :: string
  w_minutes :: int
  w_enabled :: bool

subsection \<open>Calendar\<close>

definition day_of :: "int \<Rightarrow> time \<Rightarrow> int" where
  "day_of off t = (t + off) div day"

definition date_at :: "int \<Rightarrow> int \<Rightarrow> int \<Rightarrow> int \<Rightarrow> time" where
  "date_at off d hh mm = d * day + hh * hour + mm * minute - off"

definition weekday_of :: "int \<Rightarrow> int" where
  "weekday_of d = (d + 4) mod 7"

subsection \<open>Validation\<close>

definition clock :: "window \<Rightarrow> (int \<times> int) option" where
  "clock w =
     (case cut (CHR '':'') (w_start_time w) of
        None \<Rightarrow> None
      | Some (h, m) \<Rightarrow>
          (case (atoi h, atoi m) of
             (Some hh, Some mm) \<Rightarrow>
               if hh < 0 \<or> hh > 23 \<or> mm < 0 \<or> mm > 59 then None else Some (hh, mm)
           | _ \<Rightarrow> None))"

definition validate_window :: "window \<Rightarrow> cerror + window" where
  "validate_window w0 =
     (let w = w0\<lparr>w_name := trim_space (w_name w0)\<rparr>
      in if w_name w = [] then Inl (InvalidInput ''window name is required'')
         else if w_weekdays w = [] then Inl (InvalidInput ''choose at least one weekday'')
         else if list_ex (\<lambda>d. d < 0 \<or> d > 6) (w_weekdays w)
           then Inl (InvalidInput ''weekdays are 0 (Sunday) to 6 (Saturday)'')
         else if clock w = None then Inl (InvalidInput ''start time must be HH:MM'')
         else if w_minutes w < 15 \<or> w_minutes w > 1440
           then Inl (InvalidInput ''duration must be between 15 minutes and 24 hours'')
         else Inr (w\<lparr>w_weekdays := remdups_adj (sort (w_weekdays w))\<rparr>))"

subsection \<open>Occurrences\<close>

definition open_try :: "int \<Rightarrow> window \<Rightarrow> int \<Rightarrow> int \<Rightarrow> time \<Rightarrow> int \<Rightarrow> time option" where
  "open_try off w hh mm t back =
     (let d = day_of off t - back; start = date_at off d hh mm
      in if weekday_of d \<notin> set (w_weekdays w) then None
         else if start \<le> t \<and> t < start + w_minutes w * minute then Some start
         else None)"

definition open_at :: "int \<Rightarrow> window \<Rightarrow> time \<Rightarrow> time option" where
  "open_at off w t =
     (case clock w of
        None \<Rightarrow> None
      | Some (hh, mm) \<Rightarrow>
          if \<not> w_enabled w then None else first_some (open_try off w hh mm t) [0..1])"

definition next_try :: "int \<Rightarrow> window \<Rightarrow> int \<Rightarrow> int \<Rightarrow> time \<Rightarrow> int \<Rightarrow> time option" where
  "next_try off w hh mm t ahead =
     (let d = day_of off t + ahead; start = date_at off d hh mm
      in if start > t \<and> weekday_of d \<in> set (w_weekdays w) then Some start else None)"

definition next_start :: "int \<Rightarrow> window \<Rightarrow> time \<Rightarrow> time option" where
  "next_start off w t =
     (case open_at off w t of
        Some s \<Rightarrow> Some s
      | None \<Rightarrow>
          (case clock w of
             None \<Rightarrow> None
           | Some (hh, mm) \<Rightarrow>
               if \<not> w_enabled w then None
               else first_some (next_try off w hh mm t) [0..7]))"

definition covers :: "window \<Rightarrow> int option \<Rightarrow> bool" where
  "covers w g \<longleftrightarrow> w_group w = None \<or> (g \<noteq> None \<and> g = w_group w)"

fun in_window_loop :: "int \<Rightarrow> int option \<Rightarrow> time \<Rightarrow> bool \<Rightarrow> window list \<Rightarrow> bool" where
  "in_window_loop off g t covered [] = (\<not> covered)"
| "in_window_loop off g t covered (w # ws) =
     (if \<not> w_enabled w \<or> \<not> covers w g then in_window_loop off g t covered ws
      else if open_at off w t \<noteq> None then True
      else in_window_loop off g t True ws)"

definition in_window :: "int \<Rightarrow> window list \<Rightarrow> int option \<Rightarrow> time \<Rightarrow> bool" where
  "in_window off ws g t = in_window_loop off g t False ws"

subsection \<open>Specification: the set of occurrences\<close>

text \<open>
  An occurrence of a window is a start on one of its weekdays at its clock time; the window is
  open from the start for its duration.
\<close>

definition occurrence :: "int \<Rightarrow> window \<Rightarrow> time \<Rightarrow> bool" where
  "occurrence off w s \<longleftrightarrow>
     w_enabled w \<and>
     (\<exists>hh mm d. clock w = Some (hh, mm) \<and> weekday_of d \<in> set (w_weekdays w) \<and> s = date_at off d hh mm)"

lemma clock_bounds: "clock w = Some (hh, mm) \<Longrightarrow> 0 \<le> hh \<and> hh \<le> 23 \<and> 0 \<le> mm \<and> mm \<le> 59"
  by (auto simp: clock_def split: option.splits prod.splits if_splits)

lemma clock_offset: "clock w = Some (hh, mm) \<Longrightarrow> 0 \<le> hh * hour + mm * minute \<and> hh * hour + mm * minute < day"
  using clock_bounds [of w hh mm] by linarith

lemma day_of_bounds: "day_of off t * day \<le> t + off \<and> t + off < day_of off t * day + day"
proof -
  have "(t + off) div day * day + (t + off) mod day = t + off" by (rule div_mult_mod_eq)
  moreover have "0 \<le> (t + off) mod day \<and> (t + off) mod day < day" by simp
  ultimately show ?thesis unfolding day_of_def by linarith
qed

lemma upto_0_1 [simp]: "[0..1] = [0, 1 :: int]"
  by (simp add: upto.simps)

lemma open_at_occurrence:
  "open_at off w t = Some s \<Longrightarrow> occurrence off w s \<and> s \<le> t \<and> t < s + w_minutes w * minute"
  unfolding open_at_def occurrence_def
  by (auto simp: open_try_def Let_def split: option.splits if_splits prod.splits)

lemma date_at_day: "clock w = Some (hh, mm) \<Longrightarrow> d * day \<le> date_at off d hh mm + off \<and> date_at off d hh mm + off < d * day + day"
  using clock_offset [of w hh mm] by (simp add: date_at_def)

lemma date_at_mono: "d < e \<Longrightarrow> date_at off d hh mm + day \<le> date_at off e hh mm"
proof -
  assume "d < e"
  then have "(d + 1) * day \<le> e * day" by simp
  then show ?thesis by (simp add: date_at_def algebra_simps)
qed

text \<open>
  A point within a day of an occurrence lies on the day of its start or on the next one, which
  is why looking back one day is enough.
\<close>

lemma day_of_within:
  assumes "clock w = Some (hh, mm)" and "s = date_at off d hh mm" and "s \<le> t" and "t < s + day"
  shows "day_of off t = d \<or> day_of off t = d + 1"
proof -
  have s: "d * day \<le> s + off" "s + off < d * day + day"
    using date_at_day [OF assms(1)] assms(2) by auto
  have t: "day_of off t * day \<le> t + off" "t + off < day_of off t * day + day"
    using day_of_bounds by auto
  from s t assms(3,4) have "d * day < (day_of off t + 1) * day" and "day_of off t * day < (d + 2) * day"
    by (auto simp: algebra_simps)
  then have "d < day_of off t + 1" and "day_of off t < d + 2" by simp_all
  then show ?thesis by linarith
qed

lemma open_at_complete:
  assumes occ: "occurrence off w s" and "s \<le> t" and "t < s + w_minutes w * minute" and "w_minutes w \<le> 1440"
  shows "open_at off w t = Some s"
proof -
  obtain hh mm d where cl: "clock w = Some (hh, mm)" and wd: "weekday_of d \<in> set (w_weekdays w)"
    and s: "s = date_at off d hh mm" and en: "w_enabled w"
    using occ by (auto simp: occurrence_def)
  have tday: "t < s + day" using assms(3,4) by linarith
  then have "day_of off t = d \<or> day_of off t = d + 1"
    using day_of_within [OF cl s assms(2)] by blast
  then show ?thesis
  proof
    assume "day_of off t = d"
    then show ?thesis using cl en wd assms(2,3) s by (simp add: open_at_def open_try_def Let_def)
  next
    assume d1: "day_of off t = d + 1"
    have "t < date_at off (d + 1) hh mm"
      using date_at_mono [of d "d + 1" off hh mm] s tday by simp
    with d1 show ?thesis using cl en wd assms(2,3) s by (simp add: open_at_def open_try_def Let_def)
  qed
qed

lemma weekday_soon: "0 \<le> wd \<Longrightarrow> wd < 7 \<Longrightarrow> \<exists>a\<in>{1..7}. weekday_of (d + a) = wd"
proof -
  assume wd: "0 \<le> wd" "wd < 7"
  let ?a = "(wd - d - 5) mod 7 + 1"
  have "weekday_of (d + ?a) = (d + 5 + (wd - d - 5) mod 7) mod 7"
    by (simp add: weekday_of_def algebra_simps)
  also have "\<dots> = wd mod 7" by (simp add: mod_simps)
  also have "\<dots> = wd" using wd by simp
  finally have "weekday_of (d + ?a) = wd" .
  moreover have "?a \<in> {1..7}"
    using pos_mod_bound [of 7 "wd - d - 5"] pos_mod_sign [of 7 "wd - d - 5"] by auto
  ultimately show ?thesis by blast
qed

lemma occurrenceI:
  "w_enabled w \<Longrightarrow> clock w = Some (hh, mm) \<Longrightarrow> weekday_of d \<in> set (w_weekdays w) \<Longrightarrow>
   occurrence off w (date_at off d hh mm)"
  by (auto simp: occurrence_def)

lemma next_start_closed:
  assumes closed: "open_at off w t = None" and nx: "next_start off w t = Some s"
  shows "occurrence off w s \<and> t < s \<and> (\<forall>s'. occurrence off w s' \<and> t < s' \<longrightarrow> s \<le> s')"
proof -
  obtain hh mm where cl: "clock w = Some (hh, mm)" and en: "w_enabled w"
    and fs: "first_some (next_try off w hh mm t) [0..7] = Some s"
    using assms by (auto simp: next_start_def split: option.splits if_splits prod.splits)
  obtain k where k: "0 \<le> k" "next_try off w hh mm t k = Some s"
    and before: "\<forall>m. 0 \<le> m \<and> m < k \<longrightarrow> next_try off w hh mm t m = None"
    using first_some_upto [OF fs] by blast
  then have s: "s = date_at off (day_of off t + k) hh mm" "t < s" "weekday_of (day_of off t + k) \<in> set (w_weekdays w)"
    by (auto simp: next_try_def Let_def split: if_splits)
  have least: "s \<le> s'" if occ: "occurrence off w s'" and after: "t < s'" for s'
  proof (rule ccontr)
    assume "\<not> s \<le> s'"
    then have lt: "s' < s" by simp
    obtain d where wd: "weekday_of d \<in> set (w_weekdays w)" and s': "s' = date_at off d hh mm"
      using occ cl by (auto simp: occurrence_def)
    have "d < day_of off t + k"
    proof (rule ccontr)
      assume "\<not> d < day_of off t + k"
      then have "s \<le> s'" using s(1) s' date_at_mono [of "day_of off t + k" d off hh mm]
        by (cases "d = day_of off t + k") auto
      with lt show False by simp
    qed
    moreover have "day_of off t \<le> d"
    proof -
      have "s' + off < d * day + day" using date_at_day [OF cl] s' by auto
      with after day_of_bounds [of off t] have "day_of off t * day < (d + 1) * day"
        by (simp add: algebra_simps)
      then have "day_of off t < d + 1" by simp
      then show ?thesis by simp
    qed
    ultimately have "next_try off w hh mm t (d - day_of off t) = None"
      using before by auto
    then show False using s' after wd by (simp add: next_try_def Let_def)
  qed
  from s cl en least show ?thesis by (auto intro: occurrenceI)
qed

lemma next_start_exists:
  assumes "w_enabled w" and cl: "clock w = Some (hh, mm)" and "wd \<in> set (w_weekdays w)" and "0 \<le> wd" and "wd < 7"
  shows "next_start off w t \<noteq> None"
proof (cases "open_at off w t")
  case None
  obtain a where a: "a \<in> {1..7}" "weekday_of (day_of off t + a) = wd"
    using weekday_soon assms(4,5) by blast
  have "t + off < day_of off t * day + day" using day_of_bounds by auto
  also have "\<dots> \<le> (day_of off t + a) * day" using a(1) by (auto simp: algebra_simps)
  also have "\<dots> \<le> date_at off (day_of off t + a) hh mm + off"
    using date_at_day [OF cl, of "day_of off t + a" off] by blast
  finally have "next_try off w hh mm t a \<noteq> None"
    using a(2) assms(3) by (simp add: next_try_def Let_def)
  moreover have "a \<in> set [0..7]" using a(1) by simp
  ultimately have "first_some (next_try off w hh mm t) [0..7] \<noteq> None"
    by (metis first_some_None)
  with None assms(1) cl show ?thesis by (simp add: next_start_def)
next
  case (Some s)
  then show ?thesis by (simp add: next_start_def)
qed

lemma next_start_occurrence: "next_start off w t = Some s \<Longrightarrow> occurrence off w s"
proof (cases "open_at off w t")
  case None
  assume "next_start off w t = Some s"
  from next_start_closed [OF None this] show ?thesis by blast
next
  case (Some s')
  assume "next_start off w t = Some s"
  with Some have "open_at off w t = Some s" by (simp add: next_start_def)
  then show ?thesis using open_at_occurrence by blast
qed

lemma in_window_loop_iff:
  "in_window_loop off g t covered ws \<longleftrightarrow>
     (\<exists>w\<in>set ws. w_enabled w \<and> covers w g \<and> open_at off w t \<noteq> None) \<or>
     (\<not> covered \<and> (\<forall>w\<in>set ws. \<not> (w_enabled w \<and> covers w g)))"
  by (induction ws arbitrary: covered) auto

subsection \<open>Properties\<close>

text \<open>
  For a window of at most 24 hours, \<open>openAt\<close> returns a start exactly when it is an occurrence
  of the window (an allowed weekday, the clock time) whose duration contains the time: looking
  at today and yesterday misses no occurrence and finds no other.
\<close>

lemma open_at_iff:
  assumes "w_minutes w \<le> 1440"
  shows "open_at off w t = Some s \<longleftrightarrow> occurrence off w s \<and> s \<le> t \<and> t < s + w_minutes w * minute"
  using open_at_occurrence open_at_complete [OF _ _ _ assms] by blast

definition sample_window :: window where
  "sample_window = \<lparr>w_id = 1, w_name = ''night'', w_group = None, w_weekdays = [6], w_start_time = ''23:30'',
     w_minutes = 120, w_enabled = True\<rparr>"

lemma sample_clock: "clock sample_window = Some (23, 30)"
  by (simp add: sample_window_def clock_def atoi_def atoi_nat_def is_digit_def digit_val_def)

lemma open_at_iff_example:
  "open_at 0 sample_window (3 * day + minute) = Some (2 * day + 23 * hour + 30 * minute) \<longleftrightarrow>
     occurrence 0 sample_window (2 * day + 23 * hour + 30 * minute) \<and>
     2 * day + 23 * hour + 30 * minute \<le> (3 * day + minute :: int) \<and>
     3 * day + minute < 2 * day + 23 * hour + 30 * minute + w_minutes sample_window * minute"
  by (rule open_at_iff) (simp add: sample_window_def)

text \<open>
  \<open>next\<close> outside an occurrence returns an occurrence that starts after the given time and no
  later than any other that does, and it always finds one for an enabled window with a valid
  clock and weekday (the search over eight days is enough); inside an occurrence it returns the
  start of that occurrence.
\<close>

lemma next_start_least:
  assumes "w_enabled w" and "clock w \<noteq> None" and "set (w_weekdays w) \<inter> {0..6} \<noteq> {}"
  shows "\<exists>s. next_start off w t = Some s \<and> occurrence off w s \<and>
     (case open_at off w t of
        Some s' \<Rightarrow> s = s'
      | None \<Rightarrow> t < s \<and> (\<forall>s'. occurrence off w s' \<and> t < s' \<longrightarrow> s \<le> s'))"
proof -
  obtain hh mm wd where "clock w = Some (hh, mm)" "wd \<in> set (w_weekdays w)" "0 \<le> wd" "wd < 7"
    using assms(2,3) by force
  with assms(1) next_start_exists obtain s where s: "next_start off w t = Some s" by blast
  show ?thesis
  proof (cases "open_at off w t")
    case None
    with next_start_closed [OF None s] s show ?thesis by auto
  next
    case (Some s')
    then have "s = s'" using s by (simp add: next_start_def)
    with Some s open_at_occurrence show ?thesis by auto
  qed
qed

lemma next_start_least_example:
  "\<exists>s. next_start 0 sample_window 0 = Some s \<and> occurrence 0 sample_window s \<and>
     (case open_at 0 sample_window 0 of
        Some s' \<Rightarrow> s = s'
      | None \<Rightarrow> 0 < s \<and> (\<forall>s'. occurrence 0 sample_window s' \<and> 0 < s' \<longrightarrow> s \<le> s'))"
proof (rule next_start_least)
  show "w_enabled sample_window" by (simp add: sample_window_def)
  show "clock sample_window \<noteq> None" by (simp add: sample_clock)
  show "set (w_weekdays sample_window) \<inter> {0..6} \<noteq> {}" by (simp add: sample_window_def)
qed

text \<open>
  A device may be changed at a time exactly when no enabled window covers its group, or one
  of the enabled windows that cover it is open then.
\<close>

lemma in_window_iff:
  "in_window off ws g t \<longleftrightarrow>
     (\<forall>w\<in>set ws. \<not> (w_enabled w \<and> covers w g)) \<or>
     (\<exists>w\<in>set ws. w_enabled w \<and> covers w g \<and> open_at off w t \<noteq> None)"
  by (auto simp: in_window_def in_window_loop_iff)

lemma in_window_iff_example: "\<not> in_window 0 [sample_window] None (4 * day)"
proof -
  have "w_enabled sample_window" and "covers sample_window None" by (simp_all add: sample_window_def covers_def)
  moreover have "open_at 0 sample_window (4 * day) = None" by code_simp
  ultimately show ?thesis using in_window_iff [of 0 "[sample_window]" None "4 * day"] by simp
qed

text \<open>
  A window that passes validation has weekdays in order without repetitions, all between 0
  and 6 and the same as given, a readable clock and a duration between 15 minutes and 24 hours;
  validating it again changes nothing.
\<close>

lemma validate_window_ok:
  assumes "validate_window w0 = Inr w"
  shows "sorted (w_weekdays w) \<and> distinct (w_weekdays w) \<and> set (w_weekdays w) = set (w_weekdays w0) \<and>
     w_weekdays w \<noteq> [] \<and> set (w_weekdays w) \<subseteq> {0..6} \<and> clock w \<noteq> None \<and> 15 \<le> w_minutes w \<and> w_minutes w \<le> 1440"
proof -
  let ?v = "w0\<lparr>w_name := trim_space (w_name w0)\<rparr>"
  have w: "w = ?v\<lparr>w_weekdays := remdups_adj (sort (w_weekdays w0))\<rparr>"
    and ok: "w_weekdays w0 \<noteq> []" "\<not> list_ex (\<lambda>d. d < 0 \<or> d > 6) (w_weekdays w0)" "clock ?v \<noteq> None"
      "15 \<le> w_minutes w0" "w_minutes w0 \<le> 1440"
    using assms by (auto simp: validate_window_def Let_def split: if_splits)
  have "clock w = clock ?v" by (simp add: w clock_def)
  moreover have "set (w_weekdays w0) \<subseteq> {0..6}" using ok(2) by (auto simp: list_ex_iff)
  moreover have "distinct (remdups_adj (sort (w_weekdays w0)))" by (simp add: distinct_remdups_adj)
  moreover have "remdups_adj (sort (w_weekdays w0)) \<noteq> []"
    using ok(1) by (metis set_empty set_sort remdups_adj_set)
  ultimately show ?thesis using ok w by (auto intro: sorted_remdups_adj)
qed

lemma validate_window_ok_example:
  "validate_window (sample_window\<lparr>w_weekdays := [5, 1, 5]\<rparr>) = Inr (sample_window\<lparr>w_weekdays := [1, 5]\<rparr>) \<and>
   sorted (w_weekdays (sample_window\<lparr>w_weekdays := [1, 5]\<rparr>))"
proof -
  have "validate_window (sample_window\<lparr>w_weekdays := [5, 1, 5]\<rparr>) = Inr (sample_window\<lparr>w_weekdays := [1, 5]\<rparr>)"
    by (simp add: sample_window_def validate_window_def Let_def clock_def atoi_def atoi_nat_def is_digit_def
        digit_val_def trim_space_def trim_left_def trim_right_def is_space_def)
  with validate_window_ok [OF this] show ?thesis by blast
qed

end
