(* ===== verification/Device.thy ===== *)
theory Device
  imports Complex_Main Prelude
begin

text \<open>
  Device access (\<open>internal/device/driver.go\<close>, \<open>cli.go\<close>, and the parsing of CLI output in
  \<open>ssh.go\<close>): the errors of the transports, the driver chosen for a device's configuration, the
  combination of two transports, and the optional interfaces a driver offers.

  What a transport answers is not code of this package: the operations of one REST or SSH
  session are the fields of \<open>dops\<close>, and the constructors of the three transports are parameters
  of \<open>new_driver\<close>.
\<close>

subsection \<open>Errors\<close>

datatype derror =
    HTTPError int string | CertMismatch string | HostKeyMismatch string | Unsupported | NoTransportError
  | CLIError "string list" | PlainError string | Wrapped string derror | Joined derror derror

text \<open>\<open>errors.As\<close> and \<open>errors.Is\<close> search the tree of wrapped and joined errors.\<close>

fun err_exists :: "(derror \<Rightarrow> bool) \<Rightarrow> derror \<Rightarrow> bool" where
  "err_exists P (Wrapped m e) = (P (Wrapped m e) \<or> err_exists P e)"
| "err_exists P (Joined a b) = (P (Joined a b) \<or> err_exists P a \<or> err_exists P b)"
| "err_exists P e = P e"

definition is_unsupported :: "derror \<Rightarrow> bool" where
  "is_unsupported = err_exists (\<lambda>e. e = Unsupported)"

fun is_http :: "derror \<Rightarrow> bool" where "is_http (HTTPError _ _) = True" | "is_http _ = False"
fun is_cert :: "derror \<Rightarrow> bool" where "is_cert (CertMismatch _) = True" | "is_cert _ = False"
fun is_hostkey :: "derror \<Rightarrow> bool" where "is_hostkey (HostKeyMismatch _) = True" | "is_hostkey _ = False"

definition http_text :: "int \<Rightarrow> string \<Rightarrow> string" where
  "http_text status body =
     (if status = 401 then ''device API: authentication failed (check the API token and trusted hosts)''
      else if status = 403 then ''device API: permission denied (the API profile needs read access, and write access for restore)''
      else if status = 404 then ''device API: endpoint not found on this firmware''
      else ''device API: HTTP '' @ show_int status @ '' '' @ trim_space body)"

fun err_text :: "derror \<Rightarrow> string" where
  "err_text (HTTPError status body) = http_text status body"
| "err_text (CertMismatch got) = ''device certificate does not match the pinned fingerprint (got '' @ got @ '')''"
| "err_text (HostKeyMismatch got) = ''SSH host key does not match the pinned key (got '' @ got @ '')''"
| "err_text Unsupported = ''operation not supported by this device or transport''"
| "err_text NoTransportError = ''no API token or SSH credentials configured''"
| "err_text (CLIError ls) = ''device reported errors: '' @ join ''; '' ls"
| "err_text (PlainError m) = m"
| "err_text (Wrapped m e) = m @ err_text e"
| "err_text (Joined a b) = err_text a @ [CHR 0x0A] @ err_text b"

subsection \<open>Data\<close>

text \<open>The values of \<open>Kind\<close> and \<open>Order\<close> are strings, as in the code.\<close>

abbreviation KindFortiGate :: string where "KindFortiGate \<equiv> ''fortigate''"
abbreviation KindFortiWeb :: string where "KindFortiWeb \<equiv> ''fortiweb''"
abbreviation APIFirst :: string where "APIFirst \<equiv> ''api_first''"
abbreviation SSHFirst :: string where "SSHFirst \<equiv> ''ssh_first''"
abbreviation APIOnly :: string where "APIOnly \<equiv> ''api_only''"
abbreviation SSHOnly :: string where "SSHOnly \<equiv> ''ssh_only''"

record info =
  in_serial :: string
  in_model :: string
  in_firmware :: string
  in_build :: string
  in_hostname :: string
  in_ha_mode :: string
  in_ha_peers :: "string list"
  in_vdoms :: "string list"
  in_fortimanager :: bool

record iface =
  if_name :: string
  if_alias :: string
  if_ip :: string
  if_up :: bool
  if_speed :: int
  if_rx :: int
  if_tx :: int

text \<open>The \<open>float64\<close> percentages are rationals.\<close>

record health =
  h_cpu :: rat
  h_mem :: rat
  h_disk :: rat
  h_sessions :: int
  h_uptime :: int
  h_interfaces :: "iface list"

record signature =
  sg_name :: string
  sg_version :: string

record contract =
  ct_name :: string
  ct_status :: string
  ct_expires :: "time option"

record local_user =
  lu_name :: string
  lu_two_factor :: string
  lu_phone :: string
  lu_enabled :: bool

record config =
  cf_kind :: string
  cf_host :: string
  cf_https_port :: int
  cf_ssh_port :: int
  cf_order :: string
  cf_api_token :: string
  cf_api_user :: string
  cf_api_pass :: string
  cf_pin :: string
  cf_ssh_user :: string
  cf_ssh_password :: string
  cf_ssh_key :: string
  cf_ssh_host_key :: string

subsection \<open>Drivers\<close>

text \<open>What the methods of \<open>Driver\<close> return when they are called on a transport.\<close>

record dops =
  op_probe :: "derror + info"
  op_health :: "derror + health"
  op_signatures :: "derror + signature list \<times> contract list"
  op_backup :: "derror + string"
  op_restore :: "string \<Rightarrow> derror option"

text \<open>
  The driver types: the REST drivers of the two device families, the SSH driver, a fallback
  pair and \<open>noTransport\<close>. Both REST drivers also install packages (by type, name and content)
  and the FortiGate one lists local users; the SSH driver runs scripts, returning output together with an error.
\<close>

type_synonym installer = "string \<Rightarrow> string \<Rightarrow> string \<Rightarrow> derror option"
type_synonym cli = "string \<Rightarrow> string \<times> derror option"

datatype driver =
    FortiGateAPI dops installer "derror + local_user list"
  | FortiWebAPI dops installer
  | SSHDriver dops cli
  | Fallback driver driver
  | NoTransport

definition try_op :: "derror + 'a \<Rightarrow> derror + 'a \<Rightarrow> derror + 'a" where
  "try_op a b =
     (case a of
        Inr v \<Rightarrow> Inr v
      | Inl err \<Rightarrow>
          (case b of
             Inr v2 \<Rightarrow> Inr v2
           | Inl err2 \<Rightarrow> if is_unsupported err2 then Inl err else Inl (Joined err err2)))"

fun driver_probe :: "driver \<Rightarrow> derror + info" where
  "driver_probe (FortiGateAPI d _ _) = op_probe d"
| "driver_probe (FortiWebAPI d _) = op_probe d"
| "driver_probe (SSHDriver d _) = op_probe d"
| "driver_probe (Fallback p s) = try_op (driver_probe p) (driver_probe s)"
| "driver_probe NoTransport = Inl NoTransportError"

fun driver_health :: "driver \<Rightarrow> derror + health" where
  "driver_health (FortiGateAPI d _ _) = op_health d"
| "driver_health (FortiWebAPI d _) = op_health d"
| "driver_health (SSHDriver d _) = op_health d"
| "driver_health (Fallback p s) = try_op (driver_health p) (driver_health s)"
| "driver_health NoTransport = Inl NoTransportError"

fun driver_backup :: "driver \<Rightarrow> derror + string" where
  "driver_backup (FortiGateAPI d _ _) = op_backup d"
| "driver_backup (FortiWebAPI d _) = op_backup d"
| "driver_backup (SSHDriver d _) = op_backup d"
| "driver_backup (Fallback p s) = try_op (driver_backup p) (driver_backup s)"
| "driver_backup NoTransport = Inl NoTransportError"

fun driver_signatures :: "driver \<Rightarrow> derror + signature list \<times> contract list" where
  "driver_signatures (FortiGateAPI d _ _) = op_signatures d"
| "driver_signatures (FortiWebAPI d _) = op_signatures d"
| "driver_signatures (SSHDriver d _) = op_signatures d"
| "driver_signatures (Fallback p s) =
     (case driver_signatures p of
        Inr r \<Rightarrow> Inr r
      | Inl err \<Rightarrow>
          (case driver_signatures s of Inr r2 \<Rightarrow> Inr r2 | Inl err2 \<Rightarrow> Inl (Joined err err2)))"
| "driver_signatures NoTransport = Inl NoTransportError"

fun driver_restore :: "driver \<Rightarrow> string \<Rightarrow> derror option" where
  "driver_restore (FortiGateAPI d _ _) c = op_restore d c"
| "driver_restore (FortiWebAPI d _) c = op_restore d c"
| "driver_restore (SSHDriver d _) c = op_restore d c"
| "driver_restore (Fallback p s) c =
     (case driver_restore p c of
        None \<Rightarrow> None
      | Some err \<Rightarrow>
          (case driver_restore s c of
             None \<Rightarrow> None
           | Some err2 \<Rightarrow> if \<not> is_unsupported err2 then Some (Joined err err2) else Some err))"
| "driver_restore NoTransport c = Some NoTransportError"

fun as_cli :: "driver \<Rightarrow> cli option" where
  "as_cli (Fallback p s) = (case as_cli p of Some c \<Rightarrow> Some c | None \<Rightarrow> as_cli s)"
| "as_cli (SSHDriver _ run) = Some run"
| "as_cli _ = None"

fun as_installer :: "driver \<Rightarrow> installer option" where
  "as_installer (Fallback p s) = (case as_installer p of Some c \<Rightarrow> Some c | None \<Rightarrow> as_installer s)"
| "as_installer (FortiGateAPI _ ins _) = Some ins"
| "as_installer (FortiWebAPI _ ins) = Some ins"
| "as_installer _ = None"

fun as_user_lister :: "driver \<Rightarrow> (derror + local_user list) option" where
  "as_user_lister (Fallback p s) = (case as_user_lister p of Some c \<Rightarrow> Some c | None \<Rightarrow> as_user_lister s)"
| "as_user_lister (FortiGateAPI _ _ us) = Some us"
| "as_user_lister _ = None"

text \<open>The constructors of the transports, as a parameter.\<close>

record transports =
  new_gate :: "config \<Rightarrow> driver"
  new_web :: "config \<Rightarrow> driver"
  new_ssh :: "config \<Rightarrow> driver"

definition new_driver :: "transports \<Rightarrow> config \<Rightarrow> driver" where
  "new_driver T c =
     (let api = (if (cf_api_token c \<noteq> [] \<or> cf_api_user c \<noteq> []) \<and> cf_order c \<noteq> SSHOnly
                 then (if cf_kind c = KindFortiGate then Some (new_gate T c)
                       else if cf_kind c = KindFortiWeb then Some (new_web T c) else None)
                 else None);
          ssh = (if cf_ssh_user c \<noteq> [] \<and> cf_order c \<noteq> APIOnly then Some (new_ssh T c) else None)
      in case (api, ssh) of
           (Some a, Some s) \<Rightarrow> if cf_order c = SSHFirst then Fallback s a else Fallback a s
         | (Some a, None) \<Rightarrow> a
         | (None, Some s) \<Rightarrow> s
         | (None, None) \<Rightarrow> NoTransport)"

subsection \<open>CLI output\<close>

text \<open>\<open>kv\<close>: the \<open>Key: value\<close> lines of CLI output; the first line of a key wins.\<close>

fun kv_lines :: "(string \<rightharpoonup> string) \<Rightarrow> string list \<Rightarrow> (string \<rightharpoonup> string)" where
  "kv_lines m [] = m"
| "kv_lines m (l # ls) =
     (case cut (CHR '':'') l of
        None \<Rightarrow> kv_lines m ls
      | Some (k0, v) \<Rightarrow>
          let k = to_lower (trim_space k0)
          in if m k \<noteq> None then kv_lines m ls else kv_lines (m(k \<mapsto> trim_space v)) ls)"

definition kv :: "string \<Rightarrow> (string \<rightharpoonup> string)" where
  "kv out = kv_lines Map.empty (split_char (CHR 0x0A) out)"

text \<open>A missing key reads as the empty string.\<close>

definition kv_get :: "(string \<rightharpoonup> string) \<Rightarrow> string \<Rightarrow> string" where
  "kv_get m k = (case m k of None \<Rightarrow> [] | Some v \<Rightarrow> v)"

definition ha_mode_of :: "string \<Rightarrow> string" where
  "ha_mode_of ha =
     (if ha \<noteq> [] \<and> ha \<noteq> ''standalone'' then
        if contains_str ''a-p'' ha \<or> contains_str ''active-passive'' ha then ''a-p''
        else if contains_str ''a-a'' ha \<or> contains_str ''active-active'' ha then ''a-a''
        else ha
      else ''standalone'')"

text \<open>
  \<open>version_match\<close> is the submatches of the regular expression \<open>cliVersion\<close>, a parameter: the
  model, its suffix (empty when absent), the firmware version and the build.
\<close>

definition parse_system_status ::
  "(string \<Rightarrow> (string \<times> string \<times> string \<times> string) option) \<Rightarrow> string \<Rightarrow> info" where
  "parse_system_status version_match out =
     (let m = kv out;
          serial = (if kv_get m ''serial-number'' = [] then kv_get m ''serial number'' else kv_get m ''serial-number'');
          (md, fw, bd) = (case version_match (kv_get m ''version'') of
                            None \<Rightarrow> ([], [], [])
                          | Some (v1, v2, v3, v4) \<Rightarrow> (if v2 \<noteq> [] then v1 @ ''-'' @ v2 else v1, v3, v4))
      in \<lparr>in_serial = serial, in_model = md, in_firmware = fw, in_build = bd,
          in_hostname = kv_get m ''hostname'',
          in_ha_mode = ha_mode_of (to_lower (kv_get m ''current ha mode'')),
          in_ha_peers = [], in_vdoms = [], in_fortimanager = False\<rparr>)"

text \<open>\<open>looksLikeConfig\<close> (\<open>fortigate.go\<close>).\<close>

definition looks_like_config :: "string \<Rightarrow> bool" where
  "looks_like_config d =
     (let s = trim_space (take 4096 d)
      in starts_with ''#config-version='' s \<or> starts_with ''config '' s)"

subsection \<open>Laws of the combination\<close>

lemma try_op_ok: "try_op a b = Inr v \<longleftrightarrow> a = Inr v \<or> ((\<exists>e. a = Inl e) \<and> b = Inr v)"
  by (auto simp: try_op_def split: sum.splits)

lemma try_op_err: "(\<exists>e. try_op a b = Inl e) \<longleftrightarrow> (\<exists>e. a = Inl e) \<and> (\<exists>e. b = Inl e)"
  by (auto simp: try_op_def split: sum.splits)

text \<open>The value of a key is the one on its first line.\<close>

definition line_value :: "string \<Rightarrow> string \<Rightarrow> string option" where
  "line_value k l =
     (case cut (CHR '':'') l of
        None \<Rightarrow> None
      | Some (k0, v) \<Rightarrow> if to_lower (trim_space k0) = k then Some (trim_space v) else None)"

lemma kv_lines_lookup:
  "kv_lines m ls k = (case m k of Some v \<Rightarrow> Some v | None \<Rightarrow> first_some (line_value k) ls)"
proof (induction ls arbitrary: m)
  case Nil
  then show ?case by (simp split: option.splits)
next
  case (Cons l ls)
  then show ?case
    by (auto simp: line_value_def [of k l] Let_def split: option.splits)
qed

lemma as_cli_fallback: "as_cli (Fallback p s) = None \<longleftrightarrow> as_cli p = None \<and> as_cli s = None"
  by (auto split: option.splits)

end
