(* ===== verification/Inventory.thy ===== *)
theory Inventory
  imports Device License "HOL-Library.List_Lexorder" "HOL-Library.Char_ord"
begin

text \<open>
  The device inventory (\<open>internal/inventory/inventory.go\<close>, \<open>status.go\<close>): input validation, stored
  credentials, the device table with its unique indexes, discovery and probing, contact status,
  health and signature snapshots, and device groups.

  Parameters: the license package, sealing of credentials (JSON and the secret box), the IP
  address parser, the connection used for pinning, and the transports. Text is compared in
  the order of its bytes (\<open>ORDER BY lower(name)\<close> in the C collation).
\<close>

datatype ierror =
    InvInput string | InvNotFound | InvCredentials int string | InvConnect string string derror | InvDevice derror
  | InvDatabase string

fun ierror_text :: "ierror \<Rightarrow> string" where
  "ierror_text (InvInput m) = m"
| "ierror_text InvNotFound = ''not found''"
| "ierror_text (InvCredentials i e) = ''device '' @ show_int i @ '': credentials: '' @ e"
| "ierror_text (InvConnect proto host e) = proto @ '' connection to '' @ host @ '' failed: '' @ err_text e"
| "ierror_text (InvDevice e) = err_text e"
| "ierror_text (InvDatabase code) = ''SQLSTATE '' @ code"

record credentials =
  cr_api_token :: string
  cr_api_user :: string
  cr_api_pass :: string
  cr_ssh_user :: string
  cr_ssh_password :: string
  cr_ssh_key :: string

text \<open>The row of \<open>devices\<close>.\<close>

record drow =
  d_id :: int
  d_name :: string
  d_kind :: string
  d_host :: string
  d_https_port :: int
  d_ssh_port :: int
  d_order :: string
  d_group :: "int option"
  d_tags :: "string list"
  d_sealed :: string
  d_tls_pin :: string
  d_ssh_host_key :: string
  d_serial :: string
  d_model :: string
  d_firmware :: string
  d_build :: string
  d_hostname :: string
  d_ha_mode :: string
  d_ha_peers :: "string list"
  d_vdoms :: "string list"
  d_fortimanager :: bool
  d_status :: string
  d_last_error :: string
  d_last_seen :: "time option"
  d_last_probe :: "time option"
  d_offline_since :: "time option"
  d_created :: time

text \<open>A \<open>Device\<close>: the row with what \<open>scan\<close> adds to it.\<close>

record device = drow +
  v_group_name :: string
  v_has_api :: bool
  v_has_ssh :: bool
  v_peers :: "(string \<times> string) list"
  v_license :: string
  v_creds :: credentials

record input =
  i_name :: string
  i_kind :: string
  i_host :: string
  i_https_port :: int
  i_ssh_port :: int
  i_order :: string
  i_group :: "int option"
  i_tags :: "string list"
  i_creds :: "credentials option"
  i_tls_pin :: string
  i_ssh_host_key :: string

record group =
  gr_id :: int
  gr_name :: string
  gr_description :: string

record snapshot =
  sn_device :: int
  sn_at :: time
  sn_cpu :: rat
  sn_mem :: rat
  sn_disk :: rat
  sn_sessions :: int
  sn_uptime :: int
  sn_interfaces :: "iface list"
  sn_signatures :: "signature list"
  sn_contracts :: "contract list"
  sn_signatures_at :: "time option"

record metric =
  mt_device :: int
  mt_at :: time
  mt_cpu :: rat
  mt_mem :: rat
  mt_disk :: rat
  mt_sessions :: int

record inv =
  devices :: "drow list"
  device_groups :: "group list"
  device_status :: "snapshot list"
  device_metrics :: "metric list"
  next_device :: int
  next_group :: int

record invenv =
  iv_seal :: "credentials \<Rightarrow> string"
  iv_open :: "string \<Rightarrow> string + credentials"
  iv_is_ip :: "string \<Rightarrow> bool"
  iv_fetch_cert :: "string \<Rightarrow> int \<Rightarrow> derror + string"
  iv_fetch_host_key :: "string \<Rightarrow> int \<Rightarrow> derror + string"
  iv_transports :: transports

subsection \<open>Input\<close>

fun normal_tags :: "string list \<Rightarrow> string list \<Rightarrow> string list" where
  "normal_tags acc [] = acc"
| "normal_tags acc (t # ts) =
     (let u = trim_space t in if u \<noteq> [] \<and> u \<notin> set acc then normal_tags (acc @ [u]) ts else normal_tags acc ts)"

definition creds_have_api :: "string \<Rightarrow> credentials \<Rightarrow> bool" where
  "creds_have_api kind c \<longleftrightarrow> cr_api_token c \<noteq> [] \<or> (kind = KindFortiWeb \<and> cr_api_user c \<noteq> [])"

definition creds_have_ssh :: "credentials \<Rightarrow> bool" where
  "creds_have_ssh c \<longleftrightarrow> cr_ssh_user c \<noteq> [] \<and> (cr_ssh_password c \<noteq> [] \<or> cr_ssh_key c \<noteq> [])"

definition check_creds :: "bool \<Rightarrow> input \<Rightarrow> ierror + input" where
  "check_creds require i =
     (case i_creds i of
        None \<Rightarrow> if require then Inl (InvInput ''credentials are required'') else Inr i
      | Some c \<Rightarrow>
          let api = creds_have_api (i_kind i) c; ssh = creds_have_ssh c
          in if \<not> api \<and> \<not> ssh then Inl (InvInput ''enter an API token or SSH credentials'')
             else if i_order i = APIOnly \<and> \<not> api then Inl (InvInput ''API-only devices need API credentials'')
             else if i_order i = SSHOnly \<and> \<not> ssh then Inl (InvInput ''SSH-only devices need SSH credentials'')
             else Inr i)"

definition trim_input :: "input \<Rightarrow> input" where
  "trim_input i =
     i\<lparr>i_name := trim_space (i_name i), i_host := trim_space (i_host i),
       i_tls_pin := to_lower (filter (\<lambda>c. c \<noteq> CHR '':'') (trim_space (i_tls_pin i))),
       i_ssh_host_key := trim_space (i_ssh_host_key i)\<rparr>"

definition default_ports :: "input \<Rightarrow> input" where
  "default_ports i =
     i\<lparr>i_https_port := (if i_https_port i = 0 then 443 else i_https_port i),
       i_ssh_port := (if i_ssh_port i = 0 then 22 else i_ssh_port i)\<rparr>"

definition default_order :: "input \<Rightarrow> input" where
  "default_order i = i\<lparr>i_order := (if i_order i = [] then APIFirst else i_order i)\<rparr>"

definition normalize :: "invenv \<Rightarrow> bool \<Rightarrow> input \<Rightarrow> ierror + input" where
  "normalize V require i0 =
     (let i1 = trim_input i0; i2 = default_ports i1; i3 = default_order i2
      in if i_name i1 = [] \<or> length (i_name i1) > 100
           then Inl (InvInput ''name is required (at most 100 characters)'')
         else if i_kind i1 \<noteq> KindFortiGate \<and> i_kind i1 \<noteq> KindFortiWeb
           then Inl (InvInput ''kind must be fortigate or fortiweb'')
         else if i_host i1 = [] \<or> contains_any '' /:@'' (i_host i1) \<and> \<not> iv_is_ip V (i_host i1)
           then Inl (InvInput ''host must be an IP address or host name'')
         else if i_https_port i2 < 1 \<or> i_https_port i2 > 65535 \<or> i_ssh_port i2 < 1 \<or> i_ssh_port i2 > 65535
           then Inl (InvInput ''ports must be between 1 and 65535'')
         else if i_order i3 \<notin> set [APIFirst, SSHFirst, APIOnly, SSHOnly]
           then Inl (InvInput ''invalid transport order'')
         else check_creds require (i3\<lparr>i_tags := normal_tags [] (i_tags i3)\<rparr>))"

definition keep :: "string \<Rightarrow> string \<Rightarrow> string" where
  "keep v prev = (if v = [] then prev else v)"

definition merge_credentials :: "credentials \<Rightarrow> credentials option \<Rightarrow> credentials" where
  "merge_credentials old upd =
     (case upd of
        None \<Rightarrow> old
      | Some n \<Rightarrow> n\<lparr>cr_api_token := keep (cr_api_token n) (cr_api_token old),
                   cr_api_pass := keep (cr_api_pass n) (cr_api_pass old),
                   cr_ssh_password := keep (cr_ssh_password n) (cr_ssh_password old),
                   cr_ssh_key := keep (cr_ssh_key n) (cr_ssh_key old)\<rparr>)"

subsection \<open>Devices\<close>

definition device_config :: "drow \<Rightarrow> credentials \<Rightarrow> config" where
  "device_config d c =
     \<lparr>cf_kind = d_kind d, cf_host = d_host d, cf_https_port = d_https_port d, cf_ssh_port = d_ssh_port d,
      cf_order = d_order d, cf_api_token = cr_api_token c, cf_api_user = cr_api_user c, cf_api_pass = cr_api_pass c,
      cf_pin = d_tls_pin d, cf_ssh_user = cr_ssh_user c, cf_ssh_password = cr_ssh_password c,
      cf_ssh_key = cr_ssh_key c, cf_ssh_host_key = d_ssh_host_key d\<rparr>"

definition serial_status :: "'l licapi \<Rightarrow> time \<Rightarrow> 'l guard \<Rightarrow> string \<Rightarrow> string" where
  "serial_status L clk g serial = (if serial = [] then status_unlicensed L else guard_device_status L clk g serial)"

definition peer_list :: "'l licapi \<Rightarrow> time \<Rightarrow> 'l guard \<Rightarrow> string list \<Rightarrow> (string \<times> string) list" where
  "peer_list L clk g serials = map (\<lambda>p. (p, serial_status L clk g p)) serials"

definition operational :: "'l licapi \<Rightarrow> device \<Rightarrow> bool" where
  "operational L d \<longleftrightarrow> status_operational L (v_license d)"

definition group_name :: "group list \<Rightarrow> int option \<Rightarrow> string" where
  "group_name gs g =
     (case g of None \<Rightarrow> []
      | Some i \<Rightarrow> (case find_row gr_id i gs of None \<Rightarrow> [] | Some r \<Rightarrow> gr_name r))"

definition scan :: "'l licapi \<Rightarrow> invenv \<Rightarrow> time \<Rightarrow> 'l guard \<Rightarrow> inv \<Rightarrow> drow \<Rightarrow> ierror + device" where
  "scan L V clk g st r =
     (case iv_open V (d_sealed r) of
        Inl e \<Rightarrow> Inl (InvCredentials (d_id r) e)
      | Inr c \<Rightarrow>
          Inr (drow.extend r
            \<lparr>v_group_name = group_name (device_groups st) (d_group r),
             v_has_api = (cr_api_token c \<noteq> [] \<or> cr_api_user c \<noteq> []), v_has_ssh = (cr_ssh_user c \<noteq> []),
             v_peers = peer_list L clk g (d_ha_peers r), v_license = serial_status L clk g (d_serial r), v_creds = c\<rparr>))"

definition get_device :: "'l licapi \<Rightarrow> invenv \<Rightarrow> time \<Rightarrow> 'l guard \<Rightarrow> inv \<Rightarrow> int \<Rightarrow> ierror + device" where
  "get_device L V clk g st i =
     (case find_row d_id i (devices st) of None \<Rightarrow> Inl InvNotFound | Some r \<Rightarrow> scan L V clk g st r)"

text \<open>\<open>LIKE\<close>: \<open>%\<close> any text, \<open>_\<close> any character, a backslash quotes the next character.\<close>

fun like :: "string \<Rightarrow> string \<Rightarrow> bool" where
  "like [] s = (s = [])"
| "like (p # ps) s =
     (if p = CHR ''%'' then like ps s \<or> (case s of [] \<Rightarrow> False | c # cs \<Rightarrow> like (p # ps) cs)
      else if p = CHR 0x5C then (case (ps, s) of (q # qs, c # cs) \<Rightarrow> c = q \<and> like qs cs | _ \<Rightarrow> False)
      else (case s of [] \<Rightarrow> False | c # cs \<Rightarrow> (p = CHR ''_'' \<or> p = c) \<and> like ps cs))"

definition ilike_part :: "string \<Rightarrow> string \<Rightarrow> bool" where
  "ilike_part s q = like (''%'' @ to_lower q @ ''%'') (to_lower s)"

definition in_filter :: "int option \<Rightarrow> string \<Rightarrow> drow \<Rightarrow> bool" where
  "in_filter grp q0 r =
     (let q = trim_space q0
      in (grp = None \<or> d_group r = grp) \<and>
         (q = [] \<or> ilike_part (d_name r) q \<or> ilike_part (d_host r) q \<or> ilike_part (d_serial r) q \<or> ilike_part (d_model r) q))"

fun collect :: "('r \<Rightarrow> 'e + 'a) \<Rightarrow> 'r list \<Rightarrow> 'e + 'a list" where
  "collect f [] = Inr []"
| "collect f (r # rs) =
     (case f r of Inl e \<Rightarrow> Inl e
      | Inr x \<Rightarrow> (case collect f rs of Inl e \<Rightarrow> Inl e | Inr xs \<Rightarrow> Inr (x # xs)))"

definition list_devices ::
  "'l licapi \<Rightarrow> invenv \<Rightarrow> time \<Rightarrow> 'l guard \<Rightarrow> inv \<Rightarrow> int option \<Rightarrow> string \<Rightarrow> ierror + device list" where
  "list_devices L V clk g st grp q =
     collect (scan L V clk g st) (sort_key (\<lambda>r. to_lower (d_name r)) (filter (in_filter grp q) (devices st)))"

subsection \<open>Constraints of the tables\<close>

definition name_taken :: "int \<Rightarrow> string \<Rightarrow> inv \<Rightarrow> bool" where
  "name_taken i name st \<longleftrightarrow> list_ex (\<lambda>r. d_id r \<noteq> i \<and> to_lower (d_name r) = to_lower name) (devices st)"

definition serial_taken :: "int \<Rightarrow> string \<Rightarrow> inv \<Rightarrow> bool" where
  "serial_taken i serial st \<longleftrightarrow> serial \<noteq> [] \<and> list_ex (\<lambda>r. d_id r \<noteq> i \<and> d_serial r = serial) (devices st)"

definition group_missing :: "int option \<Rightarrow> inv \<Rightarrow> bool" where
  "group_missing g st \<longleftrightarrow> (case g of None \<Rightarrow> False | Some i \<Rightarrow> i \<notin> gr_id ` set (device_groups st))"

text \<open>What a write of the name and the group of device \<open>i\<close> (0: a new one) violates, if anything.\<close>

definition device_conflict :: "int \<Rightarrow> string \<Rightarrow> int option \<Rightarrow> inv \<Rightarrow> ierror option" where
  "device_conflict i name g st =
     (if name_taken i name st then Some (InvInput ''a device with this name already exists'')
      else if group_missing g st then Some (InvInput ''the selected group does not exist'')
      else None)"

subsection \<open>Create, update, delete\<close>

definition new_row :: "invenv \<Rightarrow> time \<Rightarrow> int \<Rightarrow> input \<Rightarrow> credentials \<Rightarrow> drow" where
  "new_row V clk did i c =
     \<lparr>d_id = did, d_name = i_name i, d_kind = i_kind i, d_host = i_host i, d_https_port = i_https_port i,
      d_ssh_port = i_ssh_port i, d_order = i_order i, d_group = i_group i, d_tags = i_tags i, d_sealed = iv_seal V c,
      d_tls_pin = i_tls_pin i, d_ssh_host_key = i_ssh_host_key i, d_serial = [], d_model = [], d_firmware = [],
      d_build = [], d_hostname = [], d_ha_mode = [], d_ha_peers = [], d_vdoms = [], d_fortimanager = False,
      d_status = ''unknown'', d_last_error = [], d_last_seen = None, d_last_probe = None, d_offline_since = None,
      d_created = clk\<rparr>"

definition create_device :: "invenv \<Rightarrow> time \<Rightarrow> input \<Rightarrow> inv \<Rightarrow> (inv, ierror, int) outcome" where
  "create_device V clk i0 st =
     (case normalize V True i0 of
        Inl e \<Rightarrow> (st, Inl e)
      | Inr i \<Rightarrow>
          (case i_creds i of
             None \<Rightarrow> (st, Inl (InvInput ''credentials are required''))
           | Some c \<Rightarrow>
               (case device_conflict 0 (i_name i) (i_group i) st of
                  Some e \<Rightarrow> (st, Inl e)
                | None \<Rightarrow>
                    (st\<lparr>devices := devices st @ [new_row V clk (next_device st) i c],
                       next_device := next_device st + 1\<rparr>,
                     Inr (next_device st)))))"

definition set_device :: "int \<Rightarrow> (drow \<Rightarrow> drow) \<Rightarrow> inv \<Rightarrow> inv" where
  "set_device i f st = st\<lparr>devices := upd_rows (\<lambda>r. d_id r = i) f (devices st)\<rparr>"

definition update_row :: "invenv \<Rightarrow> input \<Rightarrow> credentials \<Rightarrow> drow \<Rightarrow> drow" where
  "update_row V i c r =
     r\<lparr>d_name := i_name i, d_kind := i_kind i, d_host := i_host i, d_https_port := i_https_port i,
       d_ssh_port := i_ssh_port i, d_order := i_order i, d_group := i_group i, d_tags := i_tags i,
       d_sealed := iv_seal V c, d_tls_pin := i_tls_pin i, d_ssh_host_key := i_ssh_host_key i\<rparr>"

definition update_device ::
  "'l licapi \<Rightarrow> invenv \<Rightarrow> time \<Rightarrow> 'l guard \<Rightarrow> int \<Rightarrow> input \<Rightarrow> inv \<Rightarrow> (inv, ierror, unit) outcome" where
  "update_device L V clk g did i0 st =
     (case normalize V False i0 of
        Inl e \<Rightarrow> (st, Inl e)
      | Inr i \<Rightarrow>
          (case get_device L V clk g st did of
             Inl e \<Rightarrow> (st, Inl e)
           | Inr cur \<Rightarrow>
               (case device_conflict did (i_name i) (i_group i) st of
                  Some e \<Rightarrow> (st, Inl e)
                | None \<Rightarrow> (set_device did (update_row V i (merge_credentials (v_creds cur) (i_creds i))) st, Inr ()))))"

definition delete_device :: "int \<Rightarrow> inv \<Rightarrow> (inv, ierror, unit) outcome" where
  "delete_device did st =
     (if find_row d_id did (devices st) = None then (st, Inl InvNotFound)
      else (st\<lparr>devices := del_rows (\<lambda>r. d_id r = did) (devices st),
              device_status := del_rows (\<lambda>r. sn_device r = did) (device_status st),
              device_metrics := del_rows (\<lambda>r. mt_device r = did) (device_metrics st)\<rparr>, Inr ()))"

subsection \<open>Discovery and probing\<close>

record discover_result =
  ds_info :: info
  ds_pin :: string
  ds_host_key :: string
  ds_license :: string
  ds_peers :: "(string \<times> string) list"

definition discover_pin :: "invenv \<Rightarrow> input \<Rightarrow> credentials \<Rightarrow> ierror + string" where
  "discover_pin V i c =
     (if i_tls_pin i = [] \<and> i_order i \<noteq> SSHOnly \<and> (cr_api_token c \<noteq> [] \<or> cr_api_user c \<noteq> [])
      then (case iv_fetch_cert V (i_host i) (i_https_port i) of
              Inl e \<Rightarrow> Inl (InvConnect ''HTTPS'' (i_host i) e) | Inr pin \<Rightarrow> Inr pin)
      else Inr (i_tls_pin i))"

definition discover_host_key :: "invenv \<Rightarrow> input \<Rightarrow> credentials \<Rightarrow> ierror + string" where
  "discover_host_key V i c =
     (if i_ssh_host_key i = [] \<and> i_order i \<noteq> APIOnly \<and> cr_ssh_user c \<noteq> []
      then (case iv_fetch_host_key V (i_host i) (i_ssh_port i) of
              Inr hk \<Rightarrow> Inr hk
            | Inl e \<Rightarrow> if i_order i = SSHOnly then Inl (InvConnect ''SSH'' (i_host i) e) else Inr [])
      else Inr (i_ssh_host_key i))"

definition discover_probe ::
  "'l licapi \<Rightarrow> invenv \<Rightarrow> time \<Rightarrow> 'l guard \<Rightarrow> input \<Rightarrow> credentials \<Rightarrow> ierror + discover_result" where
  "discover_probe L V clk g i c =
     (case discover_pin V i c of
        Inl e \<Rightarrow> Inl e
      | Inr pin \<Rightarrow>
          (case discover_host_key V i c of
             Inl e \<Rightarrow> Inl e
           | Inr hk \<Rightarrow>
               (case driver_probe (new_driver (iv_transports V)
                       \<lparr>cf_kind = i_kind i, cf_host = i_host i, cf_https_port = i_https_port i,
                        cf_ssh_port = i_ssh_port i, cf_order = i_order i, cf_api_token = cr_api_token c,
                        cf_api_user = cr_api_user c, cf_api_pass = cr_api_pass c, cf_pin = pin,
                        cf_ssh_user = cr_ssh_user c, cf_ssh_password = cr_ssh_password c,
                        cf_ssh_key = cr_ssh_key c, cf_ssh_host_key = hk\<rparr>) of
                  Inl e \<Rightarrow> Inl (InvDevice e)
                | Inr nfo \<Rightarrow>
                    Inr \<lparr>ds_info = nfo, ds_pin = pin, ds_host_key = hk,
                         ds_license = serial_status L clk g (in_serial nfo),
                         ds_peers = peer_list L clk g (in_ha_peers nfo)\<rparr>)))"

definition discover ::
  "'l licapi \<Rightarrow> invenv \<Rightarrow> time \<Rightarrow> 'l guard \<Rightarrow> int \<Rightarrow> input \<Rightarrow> inv \<Rightarrow> ierror + discover_result" where
  "discover L V clk g existing i0 st =
     (let merged = (if existing \<noteq> 0
                    then (case get_device L V clk g st existing of
                            Inl e \<Rightarrow> Inl e
                          | Inr cur \<Rightarrow> Inr (i0\<lparr>i_creds := Some (merge_credentials (v_creds cur) (i_creds i0))\<rparr>))
                    else Inr i0)
      in case merged of
           Inl e \<Rightarrow> Inl e
         | Inr i1 \<Rightarrow>
             (case normalize V True i1 of
                Inl e \<Rightarrow> Inl e
              | Inr i \<Rightarrow>
                  (case i_creds i of
                     None \<Rightarrow> Inl (InvInput ''credentials are required'')
                   | Some c \<Rightarrow> discover_probe L V clk g i c)))"

definition inv_driver :: "invenv \<Rightarrow> device \<Rightarrow> driver" where
  "inv_driver V d = new_driver (iv_transports V) (device_config (drow.truncate d) (v_creds d))"

text \<open>
  \<open>MarkUnreachable\<close>: a refused or untrusted connection is an error, everything else is offline.
\<close>

definition unreachable_status :: "derror \<Rightarrow> string" where
  "unreachable_status cause =
     (if err_exists is_cert cause \<or> err_exists is_hostkey cause \<or> err_exists is_http cause
      then ''error'' else ''offline'')"

definition unreachable_row :: "time \<Rightarrow> derror \<Rightarrow> drow \<Rightarrow> drow" where
  "unreachable_row clk cause r =
     r\<lparr>d_status := unreachable_status cause, d_last_error := clip (err_text cause) 500,
       d_offline_since := (if unreachable_status cause = ''offline''
                           then Some (case d_offline_since r of Some t \<Rightarrow> t | None \<Rightarrow> clk) else None)\<rparr>"

definition mark_unreachable :: "time \<Rightarrow> int \<Rightarrow> derror \<Rightarrow> inv \<Rightarrow> inv" where
  "mark_unreachable clk did cause st = set_device did (unreachable_row clk cause) st"

definition seen_row :: "time \<Rightarrow> drow \<Rightarrow> drow" where
  "seen_row clk r = r\<lparr>d_status := ''online'', d_last_error := [], d_last_seen := Some clk, d_offline_since := None\<rparr>"

definition mark_seen :: "time \<Rightarrow> int \<Rightarrow> inv \<Rightarrow> inv" where
  "mark_seen clk did st = set_device did (seen_row clk) st"

definition probed_row :: "time \<Rightarrow> info \<Rightarrow> drow \<Rightarrow> drow" where
  "probed_row clk nfo r =
     (seen_row clk r)\<lparr>d_serial := in_serial nfo, d_model := in_model nfo, d_firmware := in_firmware nfo,
       d_build := in_build nfo, d_hostname := in_hostname nfo, d_ha_mode := in_ha_mode nfo,
       d_ha_peers := in_ha_peers nfo, d_vdoms := in_vdoms nfo, d_fortimanager := in_fortimanager nfo,
       d_last_probe := Some clk\<rparr>"

definition probe ::
  "'l licapi \<Rightarrow> invenv \<Rightarrow> time \<Rightarrow> 'l guard \<Rightarrow> int \<Rightarrow> inv \<Rightarrow> (inv, ierror, device) outcome" where
  "probe L V clk g did st =
     (case get_device L V clk g st did of
        Inl e \<Rightarrow> (st, Inl e)
      | Inr d \<Rightarrow>
          (case driver_probe (inv_driver V d) of
             Inl perr \<Rightarrow> (mark_unreachable clk did perr st, Inl (InvDevice perr))
           | Inr nfo \<Rightarrow>
               if serial_taken did (in_serial nfo) st
               then (st, Inl (InvInput ''a device with this serial number is already registered''))
               else let st' = set_device did (probed_row clk nfo) st
                    in (st', get_device L V clk g st' did)))"

subsection \<open>Snapshots\<close>

definition health_row :: "time \<Rightarrow> health \<Rightarrow> snapshot \<Rightarrow> snapshot" where
  "health_row clk h s =
     s\<lparr>sn_at := clk, sn_cpu := h_cpu h, sn_mem := h_mem h, sn_disk := h_disk h, sn_sessions := h_sessions h,
       sn_uptime := h_uptime h, sn_interfaces := h_interfaces h\<rparr>"

definition empty_snapshot :: "int \<Rightarrow> time \<Rightarrow> snapshot" where
  "empty_snapshot did clk =
     \<lparr>sn_device = did, sn_at = clk, sn_cpu = 0, sn_mem = 0, sn_disk = 0, sn_sessions = 0, sn_uptime = 0,
      sn_interfaces = [], sn_signatures = [], sn_contracts = [], sn_signatures_at = None\<rparr>"

text \<open>\<open>INSERT \<dots> ON CONFLICT (device_id) DO UPDATE\<close>: the foreign key needs the device.\<close>

definition upsert_snapshot :: "int \<Rightarrow> time \<Rightarrow> (snapshot \<Rightarrow> snapshot) \<Rightarrow> snapshot list \<Rightarrow> snapshot list" where
  "upsert_snapshot did clk f ss =
     (if find_row sn_device did ss = None then ss @ [f (empty_snapshot did clk)]
      else upd_rows (\<lambda>s. sn_device s = did) f ss)"

definition save_health :: "time \<Rightarrow> int \<Rightarrow> health \<Rightarrow> inv \<Rightarrow> (inv, ierror, unit) outcome" where
  "save_health clk did h st =
     (if find_row d_id did (devices st) = None then (st, Inl (InvDatabase ''23503''))
      else
        (set_device did (seen_row clk)
           (st\<lparr>device_status := upsert_snapshot did clk (health_row clk h) (device_status st),
              device_metrics := (if list_ex (\<lambda>m. mt_device m = did \<and> mt_at m = clk) (device_metrics st)
                then device_metrics st
                else device_metrics st @ [\<lparr>mt_device = did, mt_at = clk, mt_cpu = h_cpu h, mt_mem = h_mem h,
                       mt_disk = h_disk h, mt_sessions = h_sessions h\<rparr>])\<rparr>), Inr ()))"

definition save_signatures ::
  "time \<Rightarrow> int \<Rightarrow> signature list \<Rightarrow> contract list \<Rightarrow> inv \<Rightarrow> (inv, ierror, unit) outcome" where
  "save_signatures clk did sigs cts st =
     (if find_row d_id did (devices st) = None then (st, Inl (InvDatabase ''23503''))
      else (st\<lparr>device_status := upsert_snapshot did clk
              (\<lambda>s. s\<lparr>sn_signatures := sigs, sn_contracts := cts, sn_signatures_at := Some clk\<rparr>) (device_status st)\<rparr>, Inr ()))"

definition status_of :: "int \<Rightarrow> inv \<Rightarrow> snapshot option" where
  "status_of did st = find_row sn_device did (device_status st)"

definition prune_metrics :: "time \<Rightarrow> time \<Rightarrow> inv \<Rightarrow> inv" where
  "prune_metrics clk keep_for st = st\<lparr>device_metrics := del_rows (\<lambda>m. mt_at m < clk - keep_for) (device_metrics st)\<rparr>"

text \<open>The serials of the managed devices and their HA peers, sorted, each once (\<open>UNION\<close>).\<close>

definition usage :: "inv \<Rightarrow> string list" where
  "usage st = remdups_adj (sort (filter (\<lambda>s. s \<noteq> []) (map d_serial (devices st)) @ concat (map d_ha_peers (devices st))))"

text \<open>The bulk read for the list of devices leaves out interfaces and signatures.\<close>

definition statuses :: "inv \<Rightarrow> int \<Rightarrow> snapshot option" where
  "statuses st did = map_option (\<lambda>s. s\<lparr>sn_interfaces := [], sn_signatures := [], sn_signatures_at := None\<rparr>) (status_of did st)"

subsection \<open>The health series\<close>

text \<open>
  \<open>Metrics\<close>: the rows since a time, averaged into buckets of at least a minute that start at multiples of
  their width; \<open>::bigint\<close> rounds the average of the sessions. The averages of the code are floats.
\<close>

definition bucket_width :: "time \<Rightarrow> time \<Rightarrow> time" where "bucket_width now since = max ((now - since) div 300) minute"

definition bucket_start :: "time \<Rightarrow> time \<Rightarrow> time" where "bucket_start w t = t div w * w"

definition average :: "rat list \<Rightarrow> rat" where "average xs = sum_list xs / of_nat (length xs)"

definition bucket_point :: "int \<Rightarrow> time \<Rightarrow> metric list \<Rightarrow> metric" where
  "bucket_point i b ms = \<lparr>mt_device = i, mt_at = b, mt_cpu = average (map mt_cpu ms), mt_mem = average (map mt_mem ms),
     mt_disk = average (map mt_disk ms), mt_sessions = \<lfloor>average (map (of_int \<circ> mt_sessions) ms) + 1 / 2\<rfloor>\<rparr>"

definition metrics :: "time \<Rightarrow> int \<Rightarrow> time \<Rightarrow> inv \<Rightarrow> metric list" where
  "metrics now i since st =
     (let w = bucket_width now since; ms = filter (\<lambda>m. mt_device m = i \<and> since \<le> mt_at m) (device_metrics st)
      in map (\<lambda>b. bucket_point i b (filter (\<lambda>m. bucket_start w (mt_at m) = b) ms)) (sort (remdups (map (bucket_start w \<circ> mt_at) ms))))"

lemma bucket_in: 
  assumes "bucket_width now since = w" "since \<le> t" "t \<le> now"
  shows "\<exists>k. bucket_start w t = k * w \<and> since div w \<le> k \<and> k \<le> since div w + 301"
proof -
  have w: "minute \<le> w" "(now - since) div 300 \<le> w" using assms(1) by (auto simp: bucket_width_def)
  have "now - since = 300 * ((now - since) div 300) + (now - since) mod 300" "(now - since) mod 300 < 300" by simp_all
  then have "t - since \<le> 300 * w + 299" using w(2) assms(3) by linarith
  then have "t \<le> since + 301 * w" using w(1) by simp
  then have "t div w \<le> (since + 301 * w) div w" using w(1) by (intro zdiv_mono1) simp_all
  then have "t div w \<le> since div w + 301" using w(1) by simp
  moreover have "since div w \<le> t div w" using w(1) assms(2) by (intro zdiv_mono1) simp_all
  ultimately show ?thesis by (auto simp: bucket_start_def)
qed

text \<open>The series is in the order of time, without repetitions, and has at most 302 points.\<close>

lemma metrics_bounded:
  assumes "list_all (\<lambda>m. mt_at m \<le> now) (device_metrics st)"
  shows "length (metrics now i since st) \<le> 302" and "sorted (map mt_at (metrics now i since st))" and "distinct (map mt_at (metrics now i since st))"
proof -
  let ?w = "bucket_width now since"
  let ?ms = "filter (\<lambda>m. mt_device m = i \<and> since \<le> mt_at m) (device_metrics st)"
  let ?bs = "map (bucket_start ?w \<circ> mt_at) ?ms"
  have "set ?bs \<subseteq> (\<lambda>k. k * ?w) ` {since div ?w .. since div ?w + 301}"
  proof
    fix b assume "b \<in> set ?bs"
    then obtain m where b: "b = bucket_start ?w (mt_at m)" and mem: "m \<in> set ?ms" by auto
    then have m: "since \<le> mt_at m" "mt_at m \<le> now" using assms by (auto simp: list_all_iff)
    from bucket_in [OF refl m] b show "b \<in> (\<lambda>k. k * ?w) ` {since div ?w .. since div ?w + 301}" by auto
  qed
  then have "card (set ?bs) \<le> card ((\<lambda>k. k * ?w) ` {since div ?w .. since div ?w + 301})" by (intro card_mono) simp_all
  also have "\<dots> \<le> card {since div ?w .. since div ?w + 301}" by (rule card_image_le) simp
  finally show "length (metrics now i since st) \<le> 302" by (simp add: metrics_def Let_def length_remdups_card_conv)
  have at: "map mt_at (metrics now i since st) = sort (remdups ?bs)"
    by (simp add: metrics_def Let_def bucket_point_def comp_def)
  show "sorted (map mt_at (metrics now i since st))" "distinct (map mt_at (metrics now i since st))" unfolding at by simp_all
qed

subsection \<open>Groups\<close>

definition list_groups :: "inv \<Rightarrow> (group \<times> nat) list" where
  "list_groups st =
     map (\<lambda>g. (g, count_rows (\<lambda>d. d_group d = Some (gr_id g)) (devices st)))
       (sort_key (\<lambda>g. to_lower (gr_name g)) (device_groups st))"

definition group_name_taken :: "int \<Rightarrow> string \<Rightarrow> inv \<Rightarrow> bool" where
  "group_name_taken i name st \<longleftrightarrow> list_ex (\<lambda>r. gr_id r \<noteq> i \<and> to_lower (gr_name r) = to_lower name) (device_groups st)"

definition save_group :: "int \<Rightarrow> string \<Rightarrow> string \<Rightarrow> inv \<Rightarrow> (inv, ierror, int) outcome" where
  "save_group did name0 description st =
     (let name = trim_space name0 in
      if name = [] \<or> length name > 100
      then (st, Inl (InvInput ''group name is required (at most 100 characters)''))
      else if did = 0 then
        (if group_name_taken 0 name st then (st, Inl (InvInput ''a group with this name already exists''))
         else (st\<lparr>device_groups := device_groups st @ [\<lparr>gr_id = next_group st, gr_name = name, gr_description = description\<rparr>],
                 next_group := next_group st + 1\<rparr>, Inr (next_group st)))
      else if find_row gr_id did (device_groups st) = None then (st, Inl InvNotFound)
      else if group_name_taken did name st then (st, Inl (InvInput ''a group with this name already exists''))
      else (st\<lparr>device_groups := upd_rows (\<lambda>g. gr_id g = did) (\<lambda>g. g\<lparr>gr_name := name, gr_description := description\<rparr>)
                (device_groups st)\<rparr>, Inr did))"

definition delete_group :: "int \<Rightarrow> inv \<Rightarrow> (inv, ierror, unit) outcome" where
  "delete_group did st =
     (if find_row gr_id did (device_groups st) = None then (st, Inl InvNotFound)
      else (st\<lparr>device_groups := del_rows (\<lambda>g. gr_id g = did) (device_groups st),
              devices := upd_rows (\<lambda>r. d_group r = Some did) (\<lambda>r. r\<lparr>d_group := None\<rparr>) (devices st)\<rparr>, Inr ()))"


subsection \<open>Reachable states\<close>

definition empty_inv :: inv where
  "empty_inv = \<lparr>devices = [], device_groups = [], device_status = [], device_metrics = [], next_device = 1, next_group = 1\<rparr>"

text \<open>
  One operation of the inventory. The clock, the license guard, the environment and so the
  answers of the devices are arbitrary at each step.
\<close>

inductive inv_step :: "'l licapi \<Rightarrow> inv \<Rightarrow> inv \<Rightarrow> bool" for L where
  "create_device V clk i st = (st', r) \<Longrightarrow> inv_step L st st'"
| "update_device L V clk g did i st = (st', r') \<Longrightarrow> inv_step L st st'"
| "delete_device did st = (st', r') \<Longrightarrow> inv_step L st st'"
| "probe L V clk g did st = (st', d) \<Longrightarrow> inv_step L st st'"
| "inv_step L st (mark_unreachable clk did cause st)"
| "inv_step L st (mark_seen clk did st)"
| "save_health clk did h st = (st', r') \<Longrightarrow> inv_step L st st'"
| "save_signatures clk did sigs cts st = (st', r') \<Longrightarrow> inv_step L st st'"
| "inv_step L st (prune_metrics clk keep_for st)"
| "save_group gid name descr st = (st', r) \<Longrightarrow> inv_step L st st'"
| "delete_group gid st = (st', r') \<Longrightarrow> inv_step L st st'"

definition inv_ok :: "inv \<Rightarrow> bool" where
  "inv_ok st \<longleftrightarrow>
     distinct (map d_id (devices st)) \<and> (\<forall>r\<in>set (devices st). 0 < d_id r \<and> d_id r < next_device st) \<and> 0 < next_device st \<and>
     unique_on d_id (\<lambda>r. to_lower (d_name r)) (\<lambda>_. True) (devices st) \<and>
     unique_on d_id d_serial (\<lambda>s. s \<noteq> []) (devices st) \<and>
     distinct (map gr_id (device_groups st)) \<and> (\<forall>r\<in>set (device_groups st). 0 < gr_id r \<and> gr_id r < next_group st) \<and> 0 < next_group st \<and>
     unique_on gr_id (\<lambda>r. to_lower (gr_name r)) (\<lambda>_. True) (device_groups st) \<and>
     (\<forall>r\<in>set (devices st). \<not> group_missing (d_group r) st) \<and>
     distinct (map sn_device (device_status st)) \<and>
     sn_device ` set (device_status st) \<subseteq> d_id ` set (devices st) \<and>
     mt_device ` set (device_metrics st) \<subseteq> d_id ` set (devices st)"

interpretation update_rows: keyed_update d_id "update_row V i c" for V i c
  by unfold_locales (simp add: update_row_def)

interpretation unreachable_rows: keyed_update d_id "unreachable_row clk cause" for clk cause
  by unfold_locales (simp add: unreachable_row_def)

interpretation seen_rows: keyed_update d_id "seen_row clk" for clk
  by unfold_locales (simp add: seen_row_def)

interpretation probed_rows: keyed_update d_id "probed_row clk nfo" for clk nfo
  by unfold_locales (simp add: probed_row_def seen_row_def)

interpretation ungroup_rows: keyed_update d_id "\<lambda>r. r\<lparr>d_group := None\<rparr>"
  by unfold_locales simp

interpretation group_rows: keyed_update gr_id "\<lambda>g. g\<lparr>gr_name := name, gr_description := descr\<rparr>" for name descr
  by unfold_locales simp

subsection \<open>The invariant of the tables\<close>

lemma group_missing_upd [simp]: "group_missing g (set_device i f st) = group_missing g st"
  by (simp add: group_missing_def set_device_def split: option.splits)

lemma set_device_simps [simp]:
  "devices (set_device i f st) = upd_rows (\<lambda>r. d_id r = i) f (devices st)"
  "device_groups (set_device i f st) = device_groups st"
  "device_status (set_device i f st) = device_status st"
  "device_metrics (set_device i f st) = device_metrics st"
  "next_device (set_device i f st) = next_device st"
  "next_group (set_device i f st) = next_group st"
  by (simp_all add: set_device_def)

lemma inv_okD:
  assumes "inv_ok st"
  shows "distinct (map d_id (devices st))"
    and "r \<in> set (devices st) \<Longrightarrow> 0 < d_id r \<and> d_id r < next_device st"
    and "unique_on d_id (\<lambda>r. to_lower (d_name r)) (\<lambda>_. True) (devices st)"
    and "unique_on d_id d_serial (\<lambda>s. s \<noteq> []) (devices st)"
    and "r \<in> set (devices st) \<Longrightarrow> d_group r = Some g \<Longrightarrow> g \<in> gr_id ` set (device_groups st)"
    and "sn_device ` set (device_status st) \<subseteq> d_id ` set (devices st)"
    and "mt_device ` set (device_metrics st) \<subseteq> d_id ` set (devices st)"
    and "distinct (map sn_device (device_status st))"
proof -
  show "d_group r = Some g \<Longrightarrow> r \<in> set (devices st) \<Longrightarrow> g \<in> gr_id ` set (device_groups st)"
    using assms unfolding inv_ok_def group_missing_def by (metis option.simps(5))
qed (use assms in \<open>simp_all add: inv_ok_def\<close>)

lemma inv_ok_set_device:
  assumes ok: "inv_ok st" and kept: "keyed_update d_id f"
    and names: "unique_on d_id (\<lambda>r. to_lower (d_name r)) (\<lambda>_. True) (devices (set_device i f st))"
    and serials: "unique_on d_id d_serial (\<lambda>s. s \<noteq> []) (devices (set_device i f st))"
    and groups: "\<And>r. r \<in> set (devices st) \<Longrightarrow> \<not> group_missing (d_group (f r)) st"
  shows "inv_ok (set_device i f st)"
proof -
  have ids: "map d_id (devices (set_device i f st)) = map d_id (devices st)"
    using kept by (simp add: keyed_update.map_key_upd)
  then have img: "d_id ` set (devices (set_device i f st)) = d_id ` set (devices st)"
    by (metis list.set_map)
  have "0 < d_id r \<and> d_id r < next_device st" if "r \<in> set (devices (set_device i f st))" for r
  proof -
    have "d_id r \<in> d_id ` set (devices st)" using that img by blast
    then show ?thesis using ok by (auto simp: inv_ok_def)
  qed
  moreover have "\<not> group_missing (d_group r) st" if "r \<in> set (devices (set_device i f st))" for r
    using that ok groups by (auto simp: set_upd_rows inv_ok_def)
  ultimately show ?thesis
    using ok ids img names serials by (simp add: inv_ok_def)
qed

lemma inv_ok_set_device_plain:
  assumes ok: "inv_ok st" and kept: "keyed_update d_id f"
    and same: "\<And>r. d_name (f r) = d_name r" "\<And>r. d_serial (f r) = d_serial r" "\<And>r. d_group (f r) = d_group r"
  shows "inv_ok (set_device i f st)"
proof (rule inv_ok_set_device [OF ok kept])
  show "unique_on d_id (\<lambda>r. to_lower (d_name r)) (\<lambda>_. True) (devices (set_device i f st))"
    using ok by (simp add: keyed_update.unique_kept_upd [OF kept] same inv_ok_def)
  show "unique_on d_id d_serial (\<lambda>s. s \<noteq> []) (devices (set_device i f st))"
    using ok by (simp add: keyed_update.unique_kept_upd [OF kept] same inv_ok_def)
  show "\<not> group_missing (d_group (f r)) st" if "r \<in> set (devices st)" for r
    using ok that by (simp add: same inv_ok_def)
qed

lemma mark_unreachable_ok: "inv_ok st \<Longrightarrow> inv_ok (mark_unreachable clk i cause st)"
  unfolding mark_unreachable_def
  by (rule inv_ok_set_device_plain) (simp_all add: unreachable_rows.keyed_update_axioms unreachable_row_def)

lemma mark_seen_ok: "inv_ok st \<Longrightarrow> inv_ok (set_device i (seen_row clk) st)"
  by (rule inv_ok_set_device_plain) (simp_all add: seen_rows.keyed_update_axioms seen_row_def)

lemma name_freeD: "\<not> name_taken i name st \<Longrightarrow> q \<in> set (devices st) \<Longrightarrow> d_id q \<noteq> i \<Longrightarrow> to_lower (d_name q) \<noteq> to_lower name"
  by (auto simp: name_taken_def list_ex_iff)

lemma update_ok:
  assumes "inv_ok st" and "device_conflict i (i_name x) (i_group x) st = None"
  shows "inv_ok (set_device i (update_row V x c) st)"
proof (rule inv_ok_set_device [OF assms(1) update_rows.keyed_update_axioms])
  from assms(2) have free: "\<not> name_taken i (i_name x) st" and grp: "\<not> group_missing (i_group x) st"
    by (auto simp: device_conflict_def split: if_splits)
  show "unique_on d_id (\<lambda>r. to_lower (d_name r)) (\<lambda>_. True) (devices (set_device i (update_row V x c) st))"
    unfolding set_device_simps
  proof (rule update_rows.unique_key_upd [where v = "to_lower (i_name x)"])
    show "unique_on d_id (\<lambda>r. to_lower (d_name r)) (\<lambda>_. True) (devices st)" using assms(1) by (simp add: inv_ok_def)
    show "to_lower (d_name (update_row V x c r)) = to_lower (i_name x)" for r by (simp add: update_row_def)
    show "to_lower (d_name q) \<noteq> to_lower (i_name x)" if "q \<in> set (devices st)" "d_id q \<noteq> i" for q
      using name_freeD [OF free] that by blast
  qed
  show "unique_on d_id d_serial (\<lambda>s. s \<noteq> []) (devices (set_device i (update_row V x c) st))"
    using assms(1) by (simp add: update_rows.unique_kept_upd update_row_def inv_ok_def)
  show "\<not> group_missing (d_group (update_row V x c r)) st" for r using grp by (simp add: update_row_def)
qed

lemma probed_ok:
  assumes "inv_ok st" and "\<not> serial_taken i (in_serial nfo) st"
  shows "inv_ok (set_device i (probed_row clk nfo) st)"
proof (rule inv_ok_set_device [OF assms(1) probed_rows.keyed_update_axioms])
  show "unique_on d_id (\<lambda>r. to_lower (d_name r)) (\<lambda>_. True) (devices (set_device i (probed_row clk nfo) st))"
    using assms(1) by (simp add: probed_rows.unique_kept_upd probed_row_def seen_row_def inv_ok_def)
  show "unique_on d_id d_serial (\<lambda>s. s \<noteq> []) (devices (set_device i (probed_row clk nfo) st))"
    unfolding set_device_simps
  proof (rule probed_rows.unique_key_upd [where v = "in_serial nfo"])
    show "unique_on d_id d_serial (\<lambda>s. s \<noteq> []) (devices st)" using assms(1) by (simp add: inv_ok_def)
    show "d_serial (probed_row clk nfo r) = in_serial nfo" for r by (simp add: probed_row_def)
    show "d_serial q \<noteq> in_serial nfo" if "in_serial nfo \<noteq> []" "q \<in> set (devices st)" "d_id q \<noteq> i" for q
      using assms(2) that by (auto simp: serial_taken_def list_ex_iff)
  qed
  show "\<not> group_missing (d_group (probed_row clk nfo r)) st" if "r \<in> set (devices st)" for r
    using assms(1) that by (simp add: probed_row_def seen_row_def inv_ok_def)
qed

lemma append_row_ok:
  assumes ok: "inv_ok st" and row: "device_conflict 0 (d_name row) (d_group row) st = None"
    "d_id row = next_device st" "d_serial row = []"
  shows "inv_ok (st\<lparr>devices := devices st @ [row], next_device := next_device st + 1\<rparr>)" (is "inv_ok ?st'")
proof -
  have free: "\<not> name_taken 0 (d_name row) st" and grp: "\<not> group_missing (d_group row) st"
    using row(1) by (auto simp: device_conflict_def split: if_splits)
  have ids: "\<forall>q\<in>set (devices st). 0 < d_id q \<and> d_id q < next_device st" using ok by (simp add: inv_ok_def)
  have gm: "group_missing g ?st' = group_missing g st" for g
    by (simp add: group_missing_def split: option.splits)
  have "unique_on d_id (\<lambda>r. to_lower (d_name r)) (\<lambda>_. True) (devices st @ [row])"
  proof (rule unique_on_snoc)
    show "to_lower (d_name q) \<noteq> to_lower (d_name row)" if "q \<in> set (devices st)" for q
      using name_freeD [OF free that] ids that by fastforce
  qed (use ok in \<open>simp add: inv_ok_def\<close>)
  moreover have "unique_on d_id d_serial (\<lambda>s. s \<noteq> []) (devices st @ [row])"
    by (rule unique_on_snoc) (use ok row(3) in \<open>simp_all add: inv_ok_def\<close>)
  moreover have "next_device st \<notin> d_id ` set (devices st)" using ids by fastforce
  moreover have "\<forall>q\<in>set (devices st). 0 < d_id q \<and> d_id q < next_device st + 1" using ids by fastforce
  ultimately show ?thesis
    using ok grp row(2) gm by (simp add: inv_ok_def subset_insertI2)
qed

lemma create_ok:
  assumes "inv_ok st" and "create_device V clk i0 st = (st', r)"
  shows "inv_ok st'"
proof (cases "st' = st")
  case True
  with assms(1) show ?thesis by simp
next
  case False
  then obtain i c where "device_conflict 0 (i_name i) (i_group i) st = None"
    and st': "st' = st\<lparr>devices := devices st @ [new_row V clk (next_device st) i c], next_device := next_device st + 1\<rparr>"
    using assms(2) by (auto simp: create_device_def split: sum.splits option.splits)
  then show ?thesis
    using append_row_ok [OF assms(1), of "new_row V clk (next_device st) i c"] by (simp add: new_row_def)
qed

lemma set_del_image: "key ` set (del_rows P rs) \<subseteq> key ` set rs"
  by auto

lemma distinct_del_rows: "distinct (map key rs) \<Longrightarrow> distinct (map key (del_rows P rs))"
  by (simp add: del_rows_def distinct_map_filter)

lemma image_key_diff: "key ` {r \<in> S. key r \<noteq> i} = key ` S - {i}"
  by auto

lemma delete_device_ok:
  assumes ok: "inv_ok st" and run: "delete_device i st = (st', r)"
  shows "inv_ok st'"
proof -
  have gm: "group_missing g st' = group_missing g st" for g
    using run by (auto simp: delete_device_def group_missing_def split: option.splits if_splits)
  show ?thesis
    using run ok gm
    by (auto simp: delete_device_def inv_ok_def distinct_del_rows image_key_diff split: if_splits
        elim!: unique_on_subset) blast+
qed

lemma upsert_snapshot_ids:
  assumes "\<And>s. sn_device (f s) = sn_device s"
  shows "sn_device ` set (upsert_snapshot i clk f ss) \<subseteq> insert i (sn_device ` set ss)"
    and "distinct (map sn_device ss) \<Longrightarrow> distinct (map sn_device (upsert_snapshot i clk f ss))"
proof -
  note keyed = keyed_update.map_key_upd [of sn_device f "\<lambda>s. sn_device s = i" ss]
  show "sn_device ` set (upsert_snapshot i clk f ss) \<subseteq> insert i (sn_device ` set ss)"
    using assms by (auto simp: upsert_snapshot_def empty_snapshot_def set_upd_rows)
  have "keyed_update sn_device f" by unfold_locales (rule assms)
  with keyed have "map sn_device (upd_rows (\<lambda>s. sn_device s = i) f ss) = map sn_device ss" by blast
  then show "distinct (map sn_device ss) \<Longrightarrow> distinct (map sn_device (upsert_snapshot i clk f ss))"
    using assms by (auto simp: upsert_snapshot_def empty_snapshot_def find_row_None)
qed

lemma snapshots_ok:
  assumes ok: "inv_ok st" and dev: "find_row d_id i (devices st) \<noteq> None"
    and kept: "\<And>s. sn_device (f s) = sn_device s"
  shows "inv_ok (st\<lparr>device_status := upsert_snapshot i clk f (device_status st)\<rparr>)"
proof -
  have "i \<in> d_id ` set (devices st)" using dev by (simp add: find_row_None)
  moreover have "group_missing g (st\<lparr>device_status := ss\<rparr>) = group_missing g st" for g ss
    by (simp add: group_missing_def split: option.splits)
  moreover note upsert_snapshot_ids [where f = f and i = i and clk = clk and ss = "device_status st", OF kept]
  moreover have "sn_device ` set (device_status st) \<subseteq> d_id ` set (devices st)"
    using ok by (simp add: inv_ok_def)
  ultimately have "sn_device ` set (upsert_snapshot i clk f (device_status st)) \<subseteq> d_id ` set (devices st)"
    and "distinct (map sn_device (device_status st)) \<Longrightarrow> distinct (map sn_device (upsert_snapshot i clk f (device_status st)))"
    and "\<And>g ss. group_missing g (st\<lparr>device_status := ss\<rparr>) = group_missing g st"
    by fast+
  then show ?thesis using ok by (simp add: inv_ok_def)
qed

lemma metrics_ok:
  assumes "inv_ok st" and "mt_device ` set ms \<subseteq> d_id ` set (devices st)"
  shows "inv_ok (st\<lparr>device_metrics := ms\<rparr>)"
proof -
  have "group_missing g (st\<lparr>device_metrics := ms\<rparr>) = group_missing g st" for g
    by (simp add: group_missing_def split: option.splits)
  with assms show ?thesis by (simp add: inv_ok_def)
qed

lemma save_health_ok:
  assumes ok: "inv_ok st" and run: "save_health clk i h st = (st', r)"
  shows "inv_ok st'"
proof (cases "find_row d_id i (devices st)")
  case None
  with run ok show ?thesis by (simp add: save_health_def)
next
  case (Some d)
  let ?s = "st\<lparr>device_status := upsert_snapshot i clk (health_row clk h) (device_status st)\<rparr>"
  let ?m = "if list_ex (\<lambda>m. mt_device m = i \<and> mt_at m = clk) (device_metrics st) then device_metrics st
      else device_metrics st @ [\<lparr>mt_device = i, mt_at = clk, mt_cpu = h_cpu h, mt_mem = h_mem h, mt_disk = h_disk h,
        mt_sessions = h_sessions h\<rparr>]"
  have dev: "i \<in> d_id ` set (devices st)" using Some by (metis find_row_None option.distinct(1))
  have "inv_ok ?s"
    by (rule snapshots_ok [OF ok]) (simp_all add: Some health_row_def)
  moreover have "mt_device ` set ?m \<subseteq> d_id ` set (devices ?s)"
  proof (cases "list_ex (\<lambda>m. mt_device m = i \<and> mt_at m = clk) (device_metrics st)")
    case True
    then have "?m = device_metrics st" by (rule if_P)
    then show ?thesis using inv_okD(7) [OF ok] by simp
  next
    case False
    then have m: "?m = device_metrics st @ [\<lparr>mt_device = i, mt_at = clk, mt_cpu = h_cpu h, mt_mem = h_mem h,
        mt_disk = h_disk h, mt_sessions = h_sessions h\<rparr>]" by (rule if_not_P)
    show ?thesis unfolding m using inv_okD(7) [OF ok] dev by simp
  qed
  ultimately have "inv_ok (?s\<lparr>device_metrics := ?m\<rparr>)" by (rule metrics_ok)
  then have "inv_ok (set_device i (seen_row clk) (?s\<lparr>device_metrics := ?m\<rparr>))" by (rule mark_seen_ok)
  with run Some show ?thesis by (simp add: save_health_def)
qed

lemma save_signatures_ok:
  assumes ok: "inv_ok st" and run: "save_signatures clk i sigs cts st = (st', r)"
  shows "inv_ok st'"
proof (cases "find_row d_id i (devices st)")
  case None
  with run ok show ?thesis by (simp add: save_signatures_def)
next
  case (Some d)
  have "inv_ok (st\<lparr>device_status := upsert_snapshot i clk
      (\<lambda>s. s\<lparr>sn_signatures := sigs, sn_contracts := cts, sn_signatures_at := Some clk\<rparr>) (device_status st)\<rparr>)"
    by (rule snapshots_ok [OF ok]) (simp_all add: Some)
  with run Some show ?thesis by (simp add: save_signatures_def)
qed

lemma prune_ok: "inv_ok st \<Longrightarrow> inv_ok (prune_metrics clk d st)"
  unfolding prune_metrics_def by (rule metrics_ok) (auto simp: inv_ok_def)

lemma groups_ok:
  assumes ok: "inv_ok st" and gs: "distinct (map gr_id gs)" "\<forall>r\<in>set gs. 0 < gr_id r \<and> gr_id r < n"
    "next_group st \<le> n" "unique_on gr_id (\<lambda>r. to_lower (gr_name r)) (\<lambda>_. True) gs"
    "gr_id ` set (device_groups st) \<subseteq> gr_id ` set gs"
  shows "inv_ok (st\<lparr>device_groups := gs, next_group := n\<rparr>)"
proof -
  have gm: "group_missing g (st\<lparr>device_groups := gs, next_group := n\<rparr>) \<Longrightarrow> group_missing g st" for g
    using gs(5) by (cases g) (auto simp: group_missing_def)
  have "\<forall>r\<in>set (devices st). \<not> group_missing (d_group r) st"
    using ok by (simp add: inv_ok_def)
  then have "\<forall>r\<in>set (devices st). \<not> group_missing (d_group r) (st\<lparr>device_groups := gs, next_group := n\<rparr>)"
    using gm by blast
  moreover have "0 < n" using ok gs(3) by (simp add: inv_ok_def)
  ultimately show ?thesis using ok gs by (simp add: inv_ok_def)
qed

lemma group_name_freeD:
  "\<not> group_name_taken i name st \<Longrightarrow> q \<in> set (device_groups st) \<Longrightarrow> gr_id q \<noteq> i \<Longrightarrow> to_lower (gr_name q) \<noteq> to_lower name"
  by (auto simp: group_name_taken_def list_ex_iff)

lemma new_group_ok:
  assumes ok: "inv_ok st" and free: "\<not> group_name_taken 0 name st"
  shows "inv_ok (st\<lparr>device_groups := device_groups st @ [\<lparr>gr_id = next_group st, gr_name = name, gr_description = d\<rparr>],
     next_group := next_group st + 1\<rparr>)"
proof (rule groups_ok [OF ok])
  have ids: "\<forall>q\<in>set (device_groups st). 0 < gr_id q \<and> gr_id q < next_group st" using ok by (simp add: inv_ok_def)
  then have "next_group st \<notin> gr_id ` set (device_groups st)" by fastforce
  then show "distinct (map gr_id (device_groups st @ [\<lparr>gr_id = next_group st, gr_name = name, gr_description = d\<rparr>]))"
    using ok by (simp add: inv_ok_def)
  show "\<forall>r\<in>set (device_groups st @ [\<lparr>gr_id = next_group st, gr_name = name, gr_description = d\<rparr>]).
      0 < gr_id r \<and> gr_id r < next_group st + 1"
    using ids ok by (fastforce simp: inv_ok_def)
  show "unique_on gr_id (\<lambda>r. to_lower (gr_name r)) (\<lambda>_. True)
      (device_groups st @ [\<lparr>gr_id = next_group st, gr_name = name, gr_description = d\<rparr>])"
  proof (rule unique_on_snoc)
    show "to_lower (gr_name q) \<noteq> to_lower (gr_name \<lparr>gr_id = next_group st, gr_name = name, gr_description = d\<rparr>)"
      if "q \<in> set (device_groups st)" for q
      using group_name_freeD [OF free that] ids that by fastforce
  qed (use ok in \<open>simp add: inv_ok_def\<close>)
qed auto

lemma rename_group_ok:
  assumes ok: "inv_ok st" and free: "\<not> group_name_taken i name st"
  shows "inv_ok (st\<lparr>device_groups := upd_rows (\<lambda>g. gr_id g = i) (\<lambda>g. g\<lparr>gr_name := name, gr_description := d\<rparr>)
     (device_groups st)\<rparr>)"
proof -
  let ?gs = "upd_rows (\<lambda>g. gr_id g = i) (\<lambda>g. g\<lparr>gr_name := name, gr_description := d\<rparr>) (device_groups st)"
  have ids: "map gr_id ?gs = map gr_id (device_groups st)" by (rule group_rows.map_key_upd)
  then have img: "gr_id ` set ?gs = gr_id ` set (device_groups st)" by (metis list.set_map)
  have "inv_ok (st\<lparr>device_groups := ?gs, next_group := next_group st\<rparr>)"
  proof (rule groups_ok [OF ok])
    show "distinct (map gr_id ?gs)" using ok by (simp add: ids inv_ok_def)
    show "\<forall>r\<in>set ?gs. 0 < gr_id r \<and> gr_id r < next_group st"
      using ok by (auto simp: inv_ok_def set_upd_rows)
    show "unique_on gr_id (\<lambda>r. to_lower (gr_name r)) (\<lambda>_. True) ?gs"
    proof (rule group_rows.unique_key_upd [where v = "to_lower name"])
      show "unique_on gr_id (\<lambda>r. to_lower (gr_name r)) (\<lambda>_. True) (device_groups st)" using ok by (simp add: inv_ok_def)
      show "to_lower (gr_name q) \<noteq> to_lower name" if "q \<in> set (device_groups st)" "gr_id q \<noteq> i" for q
        using group_name_freeD [OF free] that by blast
    qed simp
  qed (simp_all add: img)
  then show ?thesis by simp
qed

lemma save_group_ok:
  assumes "inv_ok st" and "save_group i name d st = (st', r)"
  shows "inv_ok st'"
  using assms new_group_ok [OF assms(1)] rename_group_ok [OF assms(1)]
  by (auto simp: save_group_def Let_def split: if_splits)

lemma delete_group_ok:
  assumes ok: "inv_ok st" and run: "delete_group i st = (st', r)"
  shows "inv_ok st'"
proof (cases "st' = st")
  case True
  with ok show ?thesis by simp
next
  case False
  let ?rs = "upd_rows (\<lambda>r. d_group r = Some i) (\<lambda>r. r\<lparr>d_group := None\<rparr>) (devices st)"
  have st': "st' = st\<lparr>device_groups := del_rows (\<lambda>g. gr_id g = i) (device_groups st), devices := ?rs\<rparr>"
    using run False by (auto simp: delete_group_def split: if_splits)
  have ids: "map d_id ?rs = map d_id (devices st)" by (rule ungroup_rows.map_key_upd)
  then have img: "d_id ` set ?rs = d_id ` set (devices st)" by (metis list.set_map)
  have "\<not> group_missing (d_group r) st'" if "r \<in> set ?rs" for r
  proof (cases "d_group r")
    case None
    then show ?thesis by (simp add: group_missing_def)
  next
    case (Some g)
    then have "r \<in> set (devices st)" and "g \<noteq> i" using that by (auto simp: set_upd_rows split: if_splits)
    with inv_okD(5) [OF ok] Some show ?thesis by (fastforce simp: st' group_missing_def)
  qed
  moreover have "\<forall>r\<in>set ?rs. 0 < d_id r \<and> d_id r < next_device st"
    using ok by (auto simp: set_upd_rows inv_ok_def)
  moreover have "unique_on d_id (\<lambda>r. to_lower (d_name r)) (\<lambda>_. True) ?rs" "unique_on d_id d_serial (\<lambda>s. s \<noteq> []) ?rs"
    using ok by (auto simp: inv_ok_def intro!: ungroup_rows.unique_kept_upd)
  ultimately show ?thesis
    using ok ids img unique_on_subset [of gr_id "\<lambda>r. to_lower (gr_name r)" "\<lambda>_. True" "device_groups st"]
    by (simp add: st' inv_ok_def distinct_del_rows)
qed

lemma probe_ok:
  assumes ok: "inv_ok st" and run: "probe L V clk g i st = (st', r)"
  shows "inv_ok st'"
proof (cases "get_device L V clk g st i")
  case (Inl e)
  with run ok show ?thesis by (simp add: probe_def)
next
  case (Inr d)
  then show ?thesis
    using run mark_unreachable_ok [OF ok] probed_ok [OF ok] ok
    by (auto simp: probe_def Let_def split: sum.splits if_splits)
qed

lemma update_device_ok:
  assumes ok: "inv_ok st" and run: "update_device L V clk g i x st = (st', r)"
  shows "inv_ok st'"
proof (cases "st' = st")
  case True
  with ok show ?thesis by simp
next
  case False
  then obtain x' c where "device_conflict i (i_name x') (i_group x') st = None" "st' = set_device i (update_row V x' c) st"
    using run by (auto simp: update_device_def split: sum.splits option.splits)
  then show ?thesis using update_ok [OF ok] by simp
qed

lemmas inv_preserved = create_ok update_device_ok delete_device_ok probe_ok mark_unreachable_ok
  mark_seen_ok [folded mark_seen_def] save_health_ok save_signatures_ok prune_ok save_group_ok delete_group_ok

inductive_cases inv_stepE: "inv_step L st st'"

lemma inv_step_ok: "inv_step L st st' \<Longrightarrow> inv_ok st \<Longrightarrow> inv_ok st'"
  by (induction rule: inv_step.induct) (rule inv_preserved; assumption)+

subsection \<open>Stored credentials\<close>

lemma scan_set_device [simp]: "scan L V clk g (set_device i f st) = scan L V clk g st"
  by (rule ext) (simp add: scan_def split: sum.splits)

lemma find_update:
  "find_row d_id i (devices (set_device i (update_row V x c) st)) = map_option (update_row V x c) (find_row d_id i (devices st))"
  by (simp add: update_rows.find_upd_same)

lemma get_device_row:
  "get_device L V clk g st i = Inr d \<Longrightarrow> \<exists>r. find_row d_id i (devices st) = Some r \<and> scan L V clk g st r = Inr d"
  by (auto simp: get_device_def split: option.splits)

definition no_creds :: credentials where
  "no_creds = \<lparr>cr_api_token = [], cr_api_user = [], cr_api_pass = [], cr_ssh_user = [], cr_ssh_password = [], cr_ssh_key = []\<rparr>"

definition sample_ops :: dops where
  "sample_ops = \<lparr>op_probe = Inr \<lparr>in_serial = ''FGT1'', in_model = ''FG100F'', in_firmware = ''7.4.4'', in_build = ''2662'',
       in_hostname = ''fw'', in_ha_mode = ''standalone'', in_ha_peers = [], in_vdoms = [], in_fortimanager = False\<rparr>,
     op_health = Inl Unsupported, op_signatures = Inr ([], []), op_backup = Inr ''config system'', op_restore = (\<lambda>_. None)\<rparr>"

text \<open>A plain encoding of the credentials, for the examples: each field is quoted and terminated.\<close>

fun put_text :: "string \<Rightarrow> string \<Rightarrow> string" where
  "put_text [] rest = CHR ''.'' # rest"
| "put_text (c # cs) rest = CHR ''+'' # c # put_text cs rest"

fun get_text :: "string \<Rightarrow> string \<times> string" where
  "get_text (m # c # cs) =
     (if m = CHR ''.'' then ([], c # cs) else (case get_text cs of (a, rest) \<Rightarrow> (c # a, rest)))"
| "get_text _ = ([], [])"

definition plain_seal :: "credentials \<Rightarrow> string" where
  "plain_seal c = put_text (cr_api_token c) (put_text (cr_api_user c) (put_text (cr_api_pass c)
     (put_text (cr_ssh_user c) (put_text (cr_ssh_password c) (put_text (cr_ssh_key c) ''.'')))))"

definition plain_open :: "string \<Rightarrow> credentials" where
  "plain_open s0 =
     (let (a, s1) = get_text s0; (b, s2) = get_text s1; (c, s3) = get_text s2; (d, s4) = get_text s3;
          (e, s5) = get_text s4; (f, _) = get_text s5
      in \<lparr>cr_api_token = a, cr_api_user = b, cr_api_pass = c, cr_ssh_user = d, cr_ssh_password = e, cr_ssh_key = f\<rparr>)"

lemma get_put: "get_text (put_text cs (r # rest)) = (cs, r # rest)"
  by (induction cs) auto

lemma put_text_Cons: "\<exists>a b. put_text cs rest = a # b"
  by (cases cs) auto

lemma plain_open_seal: "plain_open (plain_seal c) = c"
proof -
  have gp: "get_text (put_text cs (put_text ds rest)) = (cs, put_text ds rest)" for cs ds rest
    using put_text_Cons [of ds rest] get_put by metis
  show ?thesis by (simp add: plain_seal_def plain_open_def gp get_put)
qed

definition sample_env :: invenv where
  "sample_env = \<lparr>iv_seal = plain_seal, iv_open = (\<lambda>s. Inr (plain_open s)),
     iv_is_ip = (\<lambda>_. False), iv_fetch_cert = (\<lambda>_ _. Inr ''aa''), iv_fetch_host_key = (\<lambda>_ _. Inr ''ssh-rsa''),
     iv_transports = \<lparr>new_gate = (\<lambda>_. FortiGateAPI sample_ops (\<lambda>_ _ _. None) (Inr [])),
       new_web = (\<lambda>_. FortiWebAPI sample_ops (\<lambda>_ _ _. None)), new_ssh = (\<lambda>_. SSHDriver sample_ops (\<lambda>_. ([], None)))\<rparr>\<rparr>"

definition sample_input :: input where
  "sample_input = \<lparr>i_name = ''fw1'', i_kind = KindFortiGate, i_host = ''10.0.0.1'', i_https_port = 0, i_ssh_port = 0,
     i_order = [], i_group = None, i_tags = [''dc'', ''dc ''], i_creds = Some (no_creds\<lparr>cr_api_token := ''tok''\<rparr>),
     i_tls_pin = [], i_ssh_host_key = []\<rparr>"

subsection \<open>Properties\<close>

text \<open>
  C37: whatever operations run and whatever the devices answer, the tables stay consistent:
  identifiers are unique and below the next one, no two devices have the same name (up to case)
  or the same serial number, every group a device refers to exists, and every snapshot and
  metric belongs to a device.
\<close>

theorem inventory_reachable_ok:
  assumes "rtranclp (inv_step L) empty_inv st"
  shows "inv_ok st"
  using assms
proof (induction rule: rtranclp_induct)
  case base
  then show ?case by (simp add: empty_inv_def inv_ok_def)
next
  case (step y z)
  then show ?case using inv_step_ok by blast
qed

definition sample_inv :: inv where
  "sample_inv = fst (create_device sample_env 7 sample_input empty_inv)"

theorem inventory_reachable_ok_witness: "inv_ok sample_inv"
proof (rule inventory_reachable_ok)
  have "create_device sample_env 7 sample_input empty_inv = (sample_inv, snd (create_device sample_env 7 sample_input empty_inv))"
    by (simp add: sample_inv_def)
  then have "inv_step sample_lic empty_inv sample_inv" by (rule inv_step.intros)
  then show "rtranclp (inv_step sample_lic) empty_inv sample_inv" by blast
qed

lemma input_stages [simp]:
  "i_kind (trim_input i) = i_kind i" "i_kind (default_ports i) = i_kind i" "i_kind (default_order i) = i_kind i"
  "i_creds (trim_input i) = i_creds i" "i_creds (default_ports i) = i_creds i" "i_creds (default_order i) = i_creds i"
  by (simp_all add: trim_input_def default_ports_def default_order_def)

lemma check_creds_same: "check_creds require i = Inr j \<Longrightarrow> j = i"
  by (auto simp: check_creds_def Let_def split: option.splits if_splits)

lemma normalize_result:
  assumes "normalize V require i0 = Inr i"
  shows "i_kind i = i_kind i0" and "i_creds i = i_creds i0" and "i_kind i = KindFortiGate \<or> i_kind i = KindFortiWeb"
    and "i_order i \<in> set [APIFirst, SSHFirst, APIOnly, SSHOnly]" and "check_creds require i = Inr i"
proof -
  let ?i3 = "default_order (default_ports (trim_input i0))"
  have kind: "i_kind i0 = KindFortiGate \<or> i_kind i0 = KindFortiWeb"
    and order: "i_order ?i3 \<in> set [APIFirst, SSHFirst, APIOnly, SSHOnly]"
    and cc: "check_creds require (?i3\<lparr>i_tags := normal_tags [] (i_tags ?i3)\<rparr>) = Inr i"
    using assms unfolding normalize_def Let_def input_stages
    by (metis (no_types, lifting) Inl_Inr_False)+
  note i = check_creds_same [OF cc]
  show "i_kind i = i_kind i0" and "i_creds i = i_creds i0" by (simp_all add: i)
  show "i_kind i = KindFortiGate \<or> i_kind i = KindFortiWeb" using kind by (simp add: i)
  show "i_order i \<in> set [APIFirst, SSHFirst, APIOnly, SSHOnly]" using order by (simp add: i)
  show "check_creds require i = Inr i" using cc by (simp only: i)
qed

text \<open>
  Input that passes validation always names a usable transport: with credentials the driver
  built for it is the REST driver of its kind, the SSH driver or both with a fallback, never the
  driver without a transport, and an API-only or SSH-only device gets exactly that transport.
\<close>

lemma normalized_has_transport:
  assumes "normalize V require i0 = Inr i" and "i_creds i = Some c"
  shows "let cfg = device_config (new_row V clk did i c) c; T = iv_transports V;
             api = (if i_kind i = KindFortiGate then new_gate T cfg else new_web T cfg); D = new_driver T cfg
         in D \<in> {api, new_ssh T cfg, Fallback api (new_ssh T cfg), Fallback (new_ssh T cfg) api} \<and>
            (i_order i = APIOnly \<longrightarrow> D = api) \<and> (i_order i = SSHOnly \<longrightarrow> D = new_ssh T cfg)"
proof -
  note res = normalize_result [OF assms(1)]
  have some: "creds_have_api (i_kind i) c \<or> creds_have_ssh c" and api: "i_order i = APIOnly \<Longrightarrow> creds_have_api (i_kind i) c"
    and ssh: "i_order i = SSHOnly \<Longrightarrow> creds_have_ssh c"
    using res(5) assms(2) by (auto simp: check_creds_def Let_def split: if_splits)
  have api_token: "creds_have_api (i_kind i) c \<Longrightarrow> cr_api_token c \<noteq> [] \<or> cr_api_user c \<noteq> []"
    and ssh_user: "creds_have_ssh c \<Longrightarrow> cr_ssh_user c \<noteq> []"
    by (auto simp: creds_have_api_def creds_have_ssh_def)
  let ?cfg = "device_config (new_row V clk did i c) c"
  have cfg: "cf_kind ?cfg = i_kind i" "cf_order ?cfg = i_order i" "cf_api_token ?cfg = cr_api_token c"
    "cf_api_user ?cfg = cr_api_user c" "cf_ssh_user ?cfg = cr_ssh_user c"
    by (simp_all add: device_config_def new_row_def)
  from res(4) consider "i_order i = APIFirst" | "i_order i = SSHFirst" | "i_order i = APIOnly" | "i_order i = SSHOnly"
    by auto
  then show ?thesis
  proof cases
    case 3
    with api api_token res(3) show ?thesis by (auto simp: new_driver_def Let_def cfg split: if_splits)
  next
    case 4
    with ssh ssh_user show ?thesis by (simp add: new_driver_def Let_def cfg)
  qed (use some api_token ssh_user res(3) in \<open>simp_all add: new_driver_def Let_def cfg split: if_splits, blast+\<close>)
qed

lemma normalized_has_transport_example:
  "i_order (projr (normalize sample_env True (sample_input\<lparr>i_order := APIOnly\<rparr>))) = APIOnly \<and>
   new_driver (iv_transports sample_env)
     (device_config (new_row sample_env 0 1 (projr (normalize sample_env True (sample_input\<lparr>i_order := APIOnly\<rparr>)))
        (no_creds\<lparr>cr_api_token := ''tok''\<rparr>)) (no_creds\<lparr>cr_api_token := ''tok''\<rparr>)) =
   FortiGateAPI sample_ops (\<lambda>_ _ _. None) (Inr [])"
proof -
  let ?i = "sample_input\<lparr>i_https_port := 443, i_ssh_port := 22, i_order := APIOnly, i_tags := [''dc'']\<rparr>"
  have n: "normalize sample_env True (sample_input\<lparr>i_order := APIOnly\<rparr>) = Inr ?i"
    by (simp add: normalize_def trim_input_def default_ports_def default_order_def check_creds_def creds_have_api_def
        sample_input_def Let_def trim_space_def trim_left_def
        trim_right_def is_space_def to_lower_def contains_any_def no_creds_def)
  have c: "i_creds ?i = Some (no_creds\<lparr>cr_api_token := ''tok''\<rparr>)" by (simp add: sample_input_def)
  from normalized_has_transport [OF n c, of 0 1] n show ?thesis
    by (simp add: Let_def sample_env_def sample_input_def)
qed


lemma sample_create:
  "create_device sample_env 7 sample_input empty_inv =
     (empty_inv\<lparr>devices := [new_row sample_env 7 1
        (sample_input\<lparr>i_https_port := 443, i_ssh_port := 22, i_order := APIFirst, i_tags := [''dc'']\<rparr>)
        (no_creds\<lparr>cr_api_token := ''tok''\<rparr>)], next_device := 2\<rparr>, Inr 1)"
  by (simp add: create_device_def normalize_def trim_input_def default_ports_def default_order_def check_creds_def
      creds_have_api_def sample_input_def Let_def trim_space_def trim_left_def trim_right_def is_space_def to_lower_def
      contains_any_def no_creds_def device_conflict_def name_taken_def group_missing_def empty_inv_def)

lemma sample_inv_eq:
  "sample_inv = empty_inv\<lparr>devices := [new_row sample_env 7 1
      (sample_input\<lparr>i_https_port := 443, i_ssh_port := 22, i_order := APIFirst, i_tags := [''dc'']\<rparr>)
      (no_creds\<lparr>cr_api_token := ''tok''\<rparr>)], next_device := 2\<rparr>"
  by (simp add: sample_inv_def sample_create)

lemma sample_env_open [simp]: "iv_open sample_env (iv_seal sample_env c) = Inr c"
  by (simp add: sample_env_def plain_open_seal)

lemma sample_get:
  "\<exists>d. get_device sample_lic sample_env clk g sample_inv 1 = Inr d \<and> v_creds d = no_creds\<lparr>cr_api_token := ''tok''\<rparr>"
  by (simp add: sample_inv_eq get_device_def find_row_Cons new_row_def scan_def drow.defs)

lemma sample_update:
  "snd (update_device sample_lic sample_env 9 g 1 (sample_input\<lparr>i_name := ''fw2'', i_creds := None\<rparr>) sample_inv) = Inr ()"
proof -
  have "normalize sample_env False (sample_input\<lparr>i_name := ''fw2'', i_creds := None\<rparr>) =
      Inr (sample_input\<lparr>i_name := ''fw2'', i_creds := None, i_https_port := 443, i_ssh_port := 22,
        i_order := APIFirst, i_tags := [''dc'']\<rparr>)"
    by (simp add: normalize_def trim_input_def default_ports_def default_order_def check_creds_def
        sample_input_def Let_def trim_space_def trim_left_def trim_right_def is_space_def to_lower_def contains_any_def)
  moreover have "device_conflict 1 ''fw2'' None sample_inv = None"
    by (simp add: sample_inv_eq device_conflict_def name_taken_def group_missing_def new_row_def empty_inv_def)
  moreover obtain d where "get_device sample_lic sample_env 9 g sample_inv 1 = Inr d" using sample_get by blast
  ultimately show ?thesis by (simp add: update_device_def sample_input_def)
qed


text \<open>
  The check runs on the credentials as sent, not on the merged ones: an update of a FortiGate
  that resends no secret but changes a user name is refused whatever is stored, although empty
  secrets are meant to keep the stored ones.
\<close>

lemma update_without_secret_refused:
  assumes "i_kind x = KindFortiGate" and "i_creds x = Some c"
    and "cr_api_token c = []" and "cr_ssh_password c = []" and "cr_ssh_key c = []"
  shows "\<exists>m. update_device L V clk g i x st = (st, Inl (InvInput m))"
proof (cases "normalize V False x")
  case (Inl e)
  have "\<exists>m. e = InvInput m"
    using Inl by (auto simp: normalize_def check_creds_def Let_def split: if_splits option.splits)
  with Inl show ?thesis by (auto simp: update_device_def)
next
  case (Inr n)
  have "\<not> creds_have_api (i_kind n) c" and "\<not> creds_have_ssh c"
    using assms normalize_result(1) [OF Inr] by (simp_all add: creds_have_api_def creds_have_ssh_def)
  then show ?thesis
    using normalize_result(2,5) [OF Inr] assms(2) by (simp add: check_creds_def)
qed

lemma update_without_secret_refused_example:
  "\<exists>m. update_device sample_lic sample_env 9 (new_guard ''pk'') 1
     (sample_input\<lparr>i_creds := Some (no_creds\<lparr>cr_ssh_user := ''ops''\<rparr>)\<rparr>) sample_inv = (sample_inv, Inl (InvInput m))"
  by (rule update_without_secret_refused [where c = "no_creds\<lparr>cr_ssh_user := ''ops''\<rparr>"])
    (simp_all add: sample_input_def no_creds_def)

end
