(* ===== verification/Changes.thy ===== *)
theory Changes
  imports Windows Inventory
begin

text \<open>
  The change workflow (\<open>internal/changes/changes.go\<close>, and the tables of \<open>windows.go\<close>): draft,
  approval by other users, cancellation, maintenance windows and approval policies, with the
  rows of \<open>changes\<close>, \<open>change_targets\<close> and \<open>change_approvals\<close> and the audit log they write.

  A runner's preview and the inventory's \<open>Get\<close> are arguments of the operations. A transaction
  that fails returns the state it started from.
\<close>

datatype cstatus =
    ChDraft | ChPending | ChApproved | ChRunning | ChSucceeded | ChFailed | ChPartial | ChCancelled | ChRejected

datatype tstatus = TgPending | TgRunning | TgSucceeded | TgFailed | TgSkipped

datatype decision = Approve | Reject

record actor =
  ac_user :: int
  ac_name :: string
  ac_ip :: string

record change =
  ch_id :: int
  ch_kind :: string
  ch_title :: string
  ch_description :: string
  ch_spec :: string
  ch_status :: cstatus
  ch_run_mode :: string
  ch_run_at :: "time option"
  ch_urgent :: string
  ch_concurrency :: int
  ch_canary :: int
  ch_max_failures :: int
  ch_backup_first :: bool
  ch_required :: int
  ch_created_by :: "int option"
  ch_creator :: string
  ch_created :: time
  ch_submitted :: "time option"
  ch_started :: "time option"
  ch_finished :: "time option"

record target =
  tg_id :: int
  tg_change :: int
  tg_device :: int
  tg_position :: int
  tg_status :: tstatus
  tg_preview :: string
  tg_output :: string
  tg_error :: string
  tg_pre_backup :: "int option"
  tg_started :: "time option"
  tg_finished :: "time option"

record approval =
  ap_change :: int
  ap_user :: int
  ap_name :: string
  ap_decision :: decision
  ap_comment :: string
  ap_at :: time

record centry =
  ce_source :: string
  ce_actor :: "int option"
  ce_name :: string
  ce_ip :: string
  ce_action :: string
  ce_object :: int
  ce_details :: "(string \<times> string) list"

record policy =
  po_id :: int
  po_group :: "int option"
  po_required :: int

record chg =
  changes :: "change list"
  targets :: "target list"
  approvals :: "approval list"
  audit :: "centry list"
  windows :: "window list"
  policies :: "policy list"
  next_change :: int
  next_target :: int
  next_window :: int
  next_policy :: int

text \<open>What \<open>List\<close> and \<open>Get\<close> add to the row.\<close>

record change_view =
  cv_change :: change
  cv_targets :: nat
  cv_succeeded :: nat
  cv_failed :: nat
  cv_approvals :: nat

record create_input =
  ci_kind :: string
  ci_title :: string
  ci_description :: string
  ci_spec :: string
  ci_devices :: "int list"
  ci_run_mode :: string
  ci_run_at :: "time option"
  ci_urgent :: string
  ci_concurrency :: int
  ci_canary :: int
  ci_max_failures :: int
  ci_backup_first :: "bool option"

subsection \<open>Windows and policies\<close>

definition save_window :: "(int \<Rightarrow> bool) \<Rightarrow> window \<Rightarrow> chg \<Rightarrow> (chg, cerror, int) outcome" where
  "save_window group_exists w0 st =
     (case validate_window w0 of
        Inl e \<Rightarrow> (st, Inl e)
      | Inr w \<Rightarrow>
          let bad_group = (case w_group w of None \<Rightarrow> False | Some g \<Rightarrow> \<not> group_exists g) in
          if w_id w = 0 then
            (if bad_group then (st, Inl (OtherError ''23503''))
             else (st\<lparr>windows := windows st @ [w\<lparr>w_id := next_window st\<rparr>], next_window := next_window st + 1\<rparr>,
                   Inr (next_window st)))
          else if find_row w_id (w_id w) (windows st) = None then (st, Inl NotFound)
          else if bad_group then (st, Inl (OtherError ''23503''))
          else (st\<lparr>windows := upd_rows (\<lambda>r. w_id r = w_id w) (\<lambda>_. w) (windows st)\<rparr>, Inr (w_id w)))"

definition delete_window :: "int \<Rightarrow> chg \<Rightarrow> (chg, cerror, unit) outcome" where
  "delete_window i st =
     (if find_row w_id i (windows st) = None then (st, Inl NotFound)
      else (st\<lparr>windows := del_rows (\<lambda>r. w_id r = i) (windows st)\<rparr>, Inr ()))"

definition coalesce0 :: "int option \<Rightarrow> int" where
  "coalesce0 g = (case g of None \<Rightarrow> 0 | Some i \<Rightarrow> i)"

definition set_policy :: "(int \<Rightarrow> bool) \<Rightarrow> int option \<Rightarrow> int \<Rightarrow> chg \<Rightarrow> (chg, cerror, unit) outcome" where
  "set_policy group_exists g required st =
     (if required < 0 \<or> required > 2 then (st, Inl (InvalidInput ''required approvals must be 0, 1 or 2''))
      else if (case g of None \<Rightarrow> False | Some i \<Rightarrow> \<not> group_exists i) then (st, Inl (OtherError ''23503''))
      else if list_ex (\<lambda>p. coalesce0 (po_group p) = coalesce0 g) (policies st)
        then (st\<lparr>policies := upd_rows (\<lambda>p. coalesce0 (po_group p) = coalesce0 g) (\<lambda>p. p\<lparr>po_required := required\<rparr>)
                 (policies st)\<rparr>, Inr ())
      else (st\<lparr>policies := policies st @ [\<lparr>po_id = next_policy st, po_group = g, po_required = required\<rparr>],
              next_policy := next_policy st + 1\<rparr>, Inr ()))"

definition delete_policy :: "int \<Rightarrow> chg \<Rightarrow> chg" where
  "delete_policy g st = st\<lparr>policies := del_rows (\<lambda>p. po_group p = Some g) (policies st)\<rparr>"

definition list_policies :: "chg \<Rightarrow> policy list" where
  "list_policies st = sort_key (\<lambda>p. coalesce0 (po_group p)) (policies st)"

fun read_policies :: "int \<Rightarrow> (int \<rightharpoonup> int) \<Rightarrow> policy list \<Rightarrow> int \<times> (int \<rightharpoonup> int)" where
  "read_policies dflt by [] = (dflt, by)"
| "read_policies dflt by (p # ps) =
     (case po_group p of
        None \<Rightarrow> read_policies (po_required p) by ps
      | Some g \<Rightarrow> read_policies dflt (by(g \<mapsto> po_required p)) ps)"

definition group_need :: "int \<Rightarrow> (int \<rightharpoonup> int) \<Rightarrow> int option \<Rightarrow> int" where
  "group_need dflt by g =
     (case g of None \<Rightarrow> dflt | Some i \<Rightarrow> (case by i of None \<Rightarrow> dflt | Some v \<Rightarrow> v))"

fun max_need :: "(int option \<Rightarrow> int) \<Rightarrow> int \<Rightarrow> int option list \<Rightarrow> int" where
  "max_need r need [] = need"
| "max_need r need (g # gs) = max_need r (max need (r g)) gs"

definition required_for :: "chg \<Rightarrow> int option list \<Rightarrow> int" where
  "required_for st groups =
     (case read_policies 1 Map.empty (list_policies st) of (dflt, by) \<Rightarrow> max_need (group_need dflt by) 0 groups)"

subsection \<open>Input\<close>

fun keep_order :: "int list \<Rightarrow> int list \<Rightarrow> int list" where
  "keep_order ids [] = ids"
| "keep_order ids (i # js) = keep_order (if i \<in> set ids then ids else ids @ [i]) js"

definition normal_run :: "time \<Rightarrow> create_input \<Rightarrow> cerror + create_input" where
  "normal_run now i =
     (if ci_run_mode i = ''window'' then Inr (i\<lparr>ci_run_at := None\<rparr>)
      else if ci_run_mode i = ''at'' then
        (case ci_run_at i of
           None \<Rightarrow> Inl (InvalidInput ''choose a run time in the future'')
         | Some t \<Rightarrow> if t < now - minute then Inl (InvalidInput ''choose a run time in the future'') else Inr i)
      else if ci_run_mode i = ''now'' then
        (if trim_space (ci_urgent i) = [] then Inl (InvalidInput ''running outside the maintenance window needs a reason'')
         else Inr i)
      else Inl (InvalidInput ''run mode must be window, at or now''))"

definition normal_input :: "time \<Rightarrow> create_input \<Rightarrow> cerror + create_input" where
  "normal_input now i0 =
     (let i1 = i0\<lparr>ci_title := trim_space (ci_title i0)\<rparr>;
          i2 = i1\<lparr>ci_devices := keep_order [] (ci_devices i1)\<rparr>
      in if ci_title i1 = [] \<or> length (ci_title i1) > 200
           then Inl (InvalidInput ''title is required (at most 200 characters)'')
         else if ci_devices i2 = [] then Inl (InvalidInput ''choose at least one device'')
         else case normal_run now (i2\<lparr>ci_run_mode := (if ci_run_mode i2 = [] then ''window'' else ci_run_mode i2)\<rparr>) of
                Inl e \<Rightarrow> Inl e
              | Inr i3 \<Rightarrow>
                  let i4 = i3\<lparr>ci_concurrency := (if ci_concurrency i3 = 0 then 4 else ci_concurrency i3)\<rparr>
                  in if ci_concurrency i4 < 1 \<or> ci_concurrency i4 > 50 \<or> ci_canary i4 < 0 \<or> ci_max_failures i4 < 0
                     then Inl (InvalidInput (''concurrency must be 1'' @ [CHR 0xE2, CHR 0x80, CHR 0x93] @
                            ''50; canary and failure limits cannot be negative''))
                     else Inr i4)"

subsection \<open>Create\<close>

type_synonym preview = "string \<Rightarrow> device \<Rightarrow> cerror + string"

text \<open>
  The loop over the devices: an unknown device or an error of another kind ends it; an
  unlicensed device and a refused spec are collected as problems.
\<close>

fun plan_devices ::
  "'l licapi \<Rightarrow> (int \<Rightarrow> ierror + device) \<Rightarrow> preview \<Rightarrow> string \<Rightarrow> int list \<Rightarrow> (device \<times> string) list \<Rightarrow> string list
     \<Rightarrow> cerror + (device \<times> string) list \<times> string list" where
  "plan_devices L get pv spec [] plans problems = Inr (plans, problems)"
| "plan_devices L get pv spec (i # is) plans problems =
     (case get i of
        Inl e \<Rightarrow>
          if e = InvNotFound then Inl (InvalidInput (''device '' @ show_int i @ '' does not exist''))
          else Inl (OtherError (ierror_text e))
      | Inr d \<Rightarrow>
          if \<not> operational L d
          then plan_devices L get pv spec is plans (problems @ [d_name d @ '': the device's license is not active''])
          else (case pv spec d of
                  Inr p \<Rightarrow> plan_devices L get pv spec is (plans @ [(d, p)]) problems
                | Inl (InvalidInput m) \<Rightarrow> plan_devices L get pv spec is plans (problems @ [d_name d @ '': '' @ m])
                | Inl e \<Rightarrow> Inl e))"

definition null_id :: "int \<Rightarrow> int option" where
  "null_id i = (if i = 0 then None else Some i)"

definition log_entry :: "actor \<Rightarrow> string \<Rightarrow> int \<Rightarrow> (string \<times> string) list \<Rightarrow> centry" where
  "log_entry by action i details =
     \<lparr>ce_source = (if ac_user by = 0 then ''system'' else ''panel''), ce_actor = null_id (ac_user by), ce_name = ac_name by,
      ce_ip = ac_ip by, ce_action = action, ce_object = i, ce_details = details\<rparr>"

definition log_change :: "actor \<Rightarrow> string \<Rightarrow> int \<Rightarrow> (string \<times> string) list \<Rightarrow> chg \<Rightarrow> chg" where
  "log_change by action i details st = st\<lparr>audit := audit st @ [log_entry by action i details]\<rparr>"

definition new_change :: "time \<Rightarrow> int \<Rightarrow> int \<Rightarrow> create_input \<Rightarrow> actor \<Rightarrow> change" where
  "new_change now cid required i by =
     \<lparr>ch_id = cid, ch_kind = ci_kind i, ch_title = ci_title i, ch_description = ci_description i,
      ch_spec = (if ci_spec i = [] then ''{}'' else ci_spec i), ch_status = ChDraft, ch_run_mode = ci_run_mode i,
      ch_run_at = ci_run_at i, ch_urgent = trim_space (ci_urgent i), ch_concurrency = ci_concurrency i,
      ch_canary = ci_canary i, ch_max_failures = ci_max_failures i,
      ch_backup_first = (case ci_backup_first i of None \<Rightarrow> True | Some b \<Rightarrow> b), ch_required = required,
      ch_created_by = null_id (ac_user by), ch_creator = ac_name by, ch_created = now, ch_submitted = None,
      ch_started = None, ch_finished = None\<rparr>"

fun new_targets :: "int \<Rightarrow> int \<Rightarrow> int \<Rightarrow> (device \<times> string) list \<Rightarrow> target list" where
  "new_targets cid tid pos [] = []"
| "new_targets cid tid pos ((d, p) # ps) =
     \<lparr>tg_id = tid, tg_change = cid, tg_device = d_id d, tg_position = pos, tg_status = TgPending, tg_preview = p,
      tg_output = [], tg_error = [], tg_pre_backup = None, tg_started = None, tg_finished = None\<rparr>
     # new_targets cid (tid + 1) (pos + 1) ps"

definition create_change ::
  "'l licapi \<Rightarrow> (int \<Rightarrow> ierror + device) \<Rightarrow> (string \<rightharpoonup> preview) \<Rightarrow> time \<Rightarrow> create_input \<Rightarrow> actor \<Rightarrow> chg \<Rightarrow> (chg, cerror, int) outcome" where
  "create_change L get runners now i0 by st =
     (case runners (ci_kind i0) of
        None \<Rightarrow> (st, Inl (InvalidInput (''unknown change kind '' @ [CHR 0x22] @ ci_kind i0 @ [CHR 0x22])))
      | Some pv \<Rightarrow>
          (case normal_input now i0 of
             Inl e \<Rightarrow> (st, Inl e)
           | Inr i \<Rightarrow>
               (case plan_devices L get pv (ci_spec i) (ci_devices i) [] [] of
                  Inl e \<Rightarrow> (st, Inl e)
                | Inr (plans, problems) \<Rightarrow>
                    if problems \<noteq> [] then (st, Inl (InvalidInput (join ''; '' problems)))
                    else
                      let cid = next_change st; required = required_for st (map (\<lambda>p. d_group (fst p)) plans)
                      in (log_change by ''change.create'' cid
                            [(''kind'', ci_kind i), (''title'', ci_title i), (''devices'', show_int (int (length plans)))]
                            (st\<lparr>changes := changes st @ [new_change now cid required i by],
                               targets := targets st @ new_targets cid (next_target st) 0 plans,
                               next_change := cid + 1, next_target := next_target st + int (length plans)\<rparr>),
                          Inr cid))))"

subsection \<open>Reading\<close>

definition approve_count :: "chg \<Rightarrow> int \<Rightarrow> nat" where
  "approve_count st i = count_rows (\<lambda>a. ap_change a = i \<and> ap_decision a = Approve) (approvals st)"

definition scan_change :: "chg \<Rightarrow> change \<Rightarrow> change_view" where
  "scan_change st c =
     \<lparr>cv_change = c, cv_targets = count_rows (\<lambda>t. tg_change t = ch_id c) (targets st),
      cv_succeeded = count_rows (\<lambda>t. tg_change t = ch_id c \<and> tg_status t = TgSucceeded) (targets st),
      cv_failed = count_rows (\<lambda>t. tg_change t = ch_id c \<and> tg_status t = TgFailed) (targets st),
      cv_approvals = approve_count st (ch_id c)\<rparr>"

text \<open>Newest first, at most 200; rows created at the same instant keep their order.\<close>

definition list_changes :: "string \<Rightarrow> cstatus option \<Rightarrow> chg \<Rightarrow> change_view list" where
  "list_changes kind status st =
     map (scan_change st) (take 200 (sort_key (\<lambda>c. - ch_created c)
       (filter (\<lambda>c. (kind = [] \<or> ch_kind c = kind) \<and> (status = None \<or> status = Some (ch_status c))) (changes st))))"

definition get_change :: "int \<Rightarrow> chg \<Rightarrow> cerror + change_view" where
  "get_change i st = (case find_row ch_id i (changes st) of None \<Rightarrow> Inl NotFound | Some c \<Rightarrow> Inr (scan_change st c))"

definition targets_of :: "int \<Rightarrow> chg \<Rightarrow> target list" where
  "targets_of i st = sort_key tg_position (filter (\<lambda>t. tg_change t = i) (targets st))"

definition approvals_of :: "int \<Rightarrow> chg \<Rightarrow> approval list" where
  "approvals_of i st = sort_key ap_at (filter (\<lambda>a. ap_change a = i) (approvals st))"

subsection \<open>Submit, decide, cancel, run now\<close>

definition set_change :: "(change \<Rightarrow> bool) \<Rightarrow> (change \<Rightarrow> change) \<Rightarrow> chg \<Rightarrow> chg" where
  "set_change P f st = st\<lparr>changes := upd_rows P f (changes st)\<rparr>"

definition set_targets :: "(target \<Rightarrow> bool) \<Rightarrow> (target \<Rightarrow> target) \<Rightarrow> chg \<Rightarrow> chg" where
  "set_targets P f st = st\<lparr>targets := upd_rows P f (targets st)\<rparr>"

definition transition :: "int \<Rightarrow> cstatus \<Rightarrow> cstatus list \<Rightarrow> chg \<Rightarrow> cerror + chg" where
  "transition i to from st =
     (if list_ex (\<lambda>c. ch_id c = i \<and> ch_status c \<in> set from) (changes st)
      then Inr (set_change (\<lambda>c. ch_id c = i \<and> ch_status c \<in> set from) (\<lambda>c. c\<lparr>ch_status := to\<rparr>) st)
      else if find_row ch_id i (changes st) = None then Inl NotFound
      else Inl StateError)"

definition in_tx :: "(chg \<Rightarrow> cerror + chg) \<Rightarrow> chg \<Rightarrow> (chg, cerror, unit) outcome" where
  "in_tx f st = (case f st of Inl e \<Rightarrow> (st, Inl e) | Inr st' \<Rightarrow> (st', Inr ()))"

definition submit :: "time \<Rightarrow> int \<Rightarrow> actor \<Rightarrow> chg \<Rightarrow> (chg, cerror, unit) outcome" where
  "submit now i by = in_tx (\<lambda>st.
     case transition i ChPending [ChDraft] st of
       Inl e \<Rightarrow> Inl e
     | Inr st1 \<Rightarrow>
         Inr (log_change by ''change.submit'' i []
           (set_change (\<lambda>c. ch_id c = i)
              (\<lambda>c. c\<lparr>ch_submitted := Some now, ch_status := (if ch_required c = 0 then ChApproved else ch_status c)\<rparr>) st1)))"

definition add_decision :: "time \<Rightarrow> int \<Rightarrow> actor \<Rightarrow> bool \<Rightarrow> string \<Rightarrow> chg \<Rightarrow> chg" where
  "add_decision now i by ok comment st =
     st\<lparr>approvals := approvals st @ [\<lparr>ap_change = i, ap_user = ac_user by, ap_name = ac_name by,
          ap_decision = (if ok then Approve else Reject), ap_comment = trim_space comment, ap_at = now\<rparr>]\<rparr>"

definition apply_decision :: "int \<Rightarrow> bool \<Rightarrow> chg \<Rightarrow> cerror + chg" where
  "apply_decision i ok st =
     (if ok
      then Inr (set_change (\<lambda>c. ch_id c = i \<and> ch_required c \<le> int (approve_count st i)) (\<lambda>c. c\<lparr>ch_status := ChApproved\<rparr>) st)
      else transition i ChRejected [ChPending] st)"

definition decide_tx :: "time \<Rightarrow> int \<Rightarrow> actor \<Rightarrow> bool \<Rightarrow> string \<Rightarrow> chg \<Rightarrow> cerror + chg" where
  "decide_tx now i by ok comment st =
     (case find_row ch_id i (changes st) of
        None \<Rightarrow> Inl NotFound
      | Some c \<Rightarrow>
          if ch_status c \<noteq> ChPending then Inl StateError
          else if ch_created_by c = Some (ac_user by) then Inl OwnChange
          else if list_ex (\<lambda>a. ap_change a = i \<and> ap_user a = ac_user by) (approvals st)
            then Inl (InvalidInput ''you have already decided on this change'')
          else (case apply_decision i ok (add_decision now i by ok comment st) of
                  Inl e \<Rightarrow> Inl e
                | Inr st2 \<Rightarrow>
                    Inr (log_change by (if ok then ''change.approve'' else ''change.reject'') i [(''comment'', comment)] st2)))"

definition decide :: "time \<Rightarrow> int \<Rightarrow> actor \<Rightarrow> bool \<Rightarrow> string \<Rightarrow> chg \<Rightarrow> (chg, cerror, unit) outcome" where
  "decide now i by ok comment = in_tx (decide_tx now i by ok comment)"

text \<open>
  \<open>Cancel\<close> also takes the set of running changes asked to stop (\<open>s.cancel\<close>) and returns it.
\<close>

definition cancel_tx :: "int \<Rightarrow> actor \<Rightarrow> chg \<Rightarrow> cerror + chg" where
  "cancel_tx i by st =
     (case transition i ChCancelled [ChDraft, ChPending, ChApproved] st of
        Inl e \<Rightarrow> Inl e
      | Inr st1 \<Rightarrow>
          Inr (log_change by ''change.cancel'' i []
            (set_targets (\<lambda>t. tg_change t = i \<and> tg_status t = TgPending) (\<lambda>t. t\<lparr>tg_status := TgSkipped\<rparr>) st1)))"

definition cancel :: "int \<Rightarrow> actor \<Rightarrow> chg \<times> int set \<Rightarrow> (chg \<times> int set, cerror, unit) outcome" where
  "cancel i by s =
     (case s of (st, stops) \<Rightarrow>
        (case cancel_tx i by st of
           Inr st' \<Rightarrow> ((st', stops), Inr ())
         | Inl e \<Rightarrow>
             (case find_row ch_id i (changes st) of
                Some c \<Rightarrow>
                  if e = StateError \<and> ch_status c = ChRunning
                  then ((log_change by ''change.cancel'' i [(''while'', ''running'')] st, insert i stops), Inr ())
                  else ((st, stops), Inl e)
              | None \<Rightarrow> ((st, stops), Inl e))))"

definition run_now :: "int \<Rightarrow> actor \<Rightarrow> string \<Rightarrow> chg \<Rightarrow> (chg, cerror, unit) outcome" where
  "run_now i by reason0 st =
     (let reason = trim_space reason0 in
      if reason = [] then (st, Inl (InvalidInput ''running outside the maintenance window needs a reason''))
      else in_tx (\<lambda>st.
        if list_ex (\<lambda>c. ch_id c = i \<and> ch_status c \<in> {ChApproved, ChPending, ChDraft}) (changes st)
        then Inr (log_change by ''change.run_now'' i [(''reason'', reason)]
               (set_change (\<lambda>c. ch_id c = i \<and> ch_status c \<in> {ChApproved, ChPending, ChDraft})
                  (\<lambda>c. c\<lparr>ch_run_mode := ''now'', ch_urgent := reason\<rparr>) st))
        else Inl StateError) st)"

subsection \<open>The updates of the engine\<close>

text \<open>
  The statements that \<open>Tick\<close>, \<open>runTarget\<close>, \<open>execute\<close> and \<open>Run\<close> of \<open>engine.go\<close> send, and the cascade
  of a deleted device.
\<close>

definition start_change :: "time \<Rightarrow> int \<Rightarrow> chg \<Rightarrow> chg" where
  "start_change now i =
     set_change (\<lambda>c. ch_id c = i \<and> ch_status c = ChApproved) (\<lambda>c. c\<lparr>ch_status := ChRunning, ch_started := Some now\<rparr>)"

definition start_target :: "time \<Rightarrow> int \<Rightarrow> chg \<Rightarrow> chg" where
  "start_target now t = set_targets (\<lambda>r. tg_id r = t) (\<lambda>r. r\<lparr>tg_status := TgRunning, tg_started := Some now\<rparr>)"

definition finish_target :: "time \<Rightarrow> int \<Rightarrow> bool \<Rightarrow> string \<Rightarrow> string \<Rightarrow> int option \<Rightarrow> chg \<Rightarrow> chg" where
  "finish_target now t ok out msg pre =
     set_targets (\<lambda>r. tg_id r = t)
       (\<lambda>r. r\<lparr>tg_status := (if ok then TgSucceeded else TgFailed), tg_output := out, tg_error := clip msg 2000,
              tg_pre_backup := pre, tg_finished := Some now\<rparr>)"

definition skip_pending :: "int \<Rightarrow> bool \<Rightarrow> chg \<Rightarrow> chg" where
  "skip_pending i cancelled =
     set_targets (\<lambda>t. tg_change t = i \<and> tg_status t = TgPending)
       (\<lambda>t. t\<lparr>tg_status := TgSkipped, tg_error := (if cancelled then ''cancelled'' else ''not run: too many failures'')\<rparr>)"

definition ok_count :: "chg \<Rightarrow> int \<Rightarrow> nat" where
  "ok_count st i = count_rows (\<lambda>t. tg_change t = i \<and> tg_status t = TgSucceeded) (targets st)"

definition bad_count :: "chg \<Rightarrow> int \<Rightarrow> nat" where
  "bad_count st i = count_rows (\<lambda>t. tg_change t = i \<and> tg_status t \<in> {TgFailed, TgSkipped}) (targets st)"

definition final_status :: "bool \<Rightarrow> nat \<Rightarrow> nat \<Rightarrow> cstatus" where
  "final_status cancelled good bad =
     (if cancelled then ChCancelled else if good = 0 then ChFailed else if bad > 0 then ChPartial else ChSucceeded)"

fun status_text :: "cstatus \<Rightarrow> string" where
  "status_text ChDraft = ''draft''" | "status_text ChPending = ''pending''" | "status_text ChApproved = ''approved''"
| "status_text ChRunning = ''running''" | "status_text ChSucceeded = ''succeeded''" | "status_text ChFailed = ''failed''"
| "status_text ChPartial = ''partial''" | "status_text ChCancelled = ''cancelled''" | "status_text ChRejected = ''rejected''"

text \<open>The end of \<open>execute\<close>: skip, count, set the final status and log it.\<close>

definition finish_change :: "time \<Rightarrow> int \<Rightarrow> bool \<Rightarrow> chg \<Rightarrow> chg" where
  "finish_change now i cancelled st =
     (let st1 = skip_pending i cancelled st; good = ok_count st1 i; bad = bad_count st1 i; status = final_status cancelled good bad
      in log_change \<lparr>ac_user = 0, ac_name = ''system'', ac_ip = []\<rparr> ''change.finish'' i
           [(''status'', status_text status), (''succeeded'', show_int (int good)), (''failed'', show_int (int bad))]
           (set_change (\<lambda>c. ch_id c = i) (\<lambda>c. c\<lparr>ch_status := status, ch_finished := Some now\<rparr>) st1))"

definition recover :: "time \<Rightarrow> chg \<Rightarrow> chg" where
  "recover now st =
     (let msg = ''interrupted by a TaktaPlus restart'';
          st1 = set_targets (\<lambda>t. tg_status t = TgRunning)
                  (\<lambda>t. t\<lparr>tg_status := TgFailed, tg_error := msg, tg_finished := Some now\<rparr>) st;
          st2 = set_targets (\<lambda>t. tg_status t = TgPending \<and>
                    list_ex (\<lambda>c. ch_id c = tg_change t \<and> ch_status c = ChRunning) (changes st1))
                  (\<lambda>t. t\<lparr>tg_status := TgSkipped, tg_error := msg\<rparr>) st1
      in set_change (\<lambda>c. ch_status c = ChRunning) (\<lambda>c. c\<lparr>ch_status := ChFailed, ch_finished := Some now\<rparr>) st2)"

definition forget_device :: "int \<Rightarrow> chg \<Rightarrow> chg" where
  "forget_device d st = st\<lparr>targets := del_rows (\<lambda>t. tg_device t = d) (targets st)\<rparr>"

subsection \<open>Reachable states of the workflow\<close>

definition empty_chg :: chg where
  "empty_chg = \<lparr>changes = [], targets = [], approvals = [], audit = [], windows = [],
     policies = [\<lparr>po_id = 1, po_group = None, po_required = 1\<rparr>], next_change = 1, next_target = 1, next_window = 1,
     next_policy = 2\<rparr>"

text \<open>
  One operation on the tables, by a user or by the engine. The engine only finishes a change that
  is running (\<open>Engine\<close> shows that it does).
\<close>

inductive chg_step :: "'l licapi \<Rightarrow> chg \<Rightarrow> chg \<Rightarrow> bool" for L where
  create: "create_change L get runners now i by st = (st', r) \<Longrightarrow> chg_step L st st'"
| submit: "submit now i by st = (st', u) \<Longrightarrow> chg_step L st st'"
| decide: "decide now i by ok comment st = (st', u) \<Longrightarrow> chg_step L st st'"
| cancel: "cancel i by (st, stops) = ((st', stops'), u) \<Longrightarrow> chg_step L st st'"
| run_now: "run_now i by reason st = (st', u) \<Longrightarrow> chg_step L st st'"
| save_window: "save_window group_exists w st = (st', r) \<Longrightarrow> chg_step L st st'"
| delete_window: "delete_window i st = (st', u) \<Longrightarrow> chg_step L st st'"
| set_policy: "set_policy group_exists g required st = (st', u) \<Longrightarrow> chg_step L st st'"
| delete_policy: "chg_step L st (delete_policy i st)"
| start_change: "chg_step L st (start_change now i st)"
| start_target: "chg_step L st (start_target now t st)"
| finish_target: "chg_step L st (finish_target now t ok out msg pre st)"
| finish_change: "find_row ch_id i (changes st) = Some c \<Longrightarrow> ch_status c = ChRunning \<Longrightarrow> chg_step L st (finish_change now i stopped st)"
| recover: "chg_step L st (recover now st)"
| forget_device: "chg_step L st (forget_device d st)"

text \<open>The statuses that a change only reaches after its approval.\<close>

definition cleared :: "cstatus set" where
  "cleared = {ChApproved, ChRunning, ChSucceeded, ChFailed, ChPartial}"

definition chg_ok :: "chg \<Rightarrow> bool" where
  "chg_ok st \<longleftrightarrow>
     distinct (map ch_id (changes st)) \<and> (\<forall>c\<in>set (changes st). ch_id c < next_change st) \<and>
     (\<forall>a\<in>set (approvals st). ap_change a < next_change st) \<and>
     distinct (map (\<lambda>a. (ap_change a, ap_user a)) (approvals st)) \<and>
     (\<forall>c\<in>set (changes st). \<forall>a\<in>set (approvals st). ap_change a = ch_id c \<longrightarrow> ch_created_by c \<noteq> Some (ap_user a)) \<and>
     (\<forall>c\<in>set (changes st). ch_status c \<in> cleared \<longrightarrow> ch_required c \<le> int (approve_count st (ch_id c)))"

lemma chg_okD:
  assumes "chg_ok st"
  shows "distinct (map ch_id (changes st))" and "c \<in> set (changes st) \<Longrightarrow> ch_id c < next_change st"
    and "a \<in> set (approvals st) \<Longrightarrow> ap_change a < next_change st"
    and "distinct (map (\<lambda>a. (ap_change a, ap_user a)) (approvals st))"
    and "c \<in> set (changes st) \<Longrightarrow> a \<in> set (approvals st) \<Longrightarrow> ap_change a = ch_id c \<Longrightarrow> ch_created_by c \<noteq> Some (ap_user a)"
    and "c \<in> set (changes st) \<Longrightarrow> ch_status c \<in> cleared \<Longrightarrow> ch_required c \<le> int (approve_count st (ch_id c))"
  using assms by (simp_all add: chg_ok_def)

lemma chg_okI:
  assumes "distinct (map ch_id (changes st))" and "\<And>c. c \<in> set (changes st) \<Longrightarrow> ch_id c < next_change st"
    and "\<And>a. a \<in> set (approvals st) \<Longrightarrow> ap_change a < next_change st"
    and "distinct (map (\<lambda>a. (ap_change a, ap_user a)) (approvals st))"
    and "\<And>c a. c \<in> set (changes st) \<Longrightarrow> a \<in> set (approvals st) \<Longrightarrow> ap_change a = ch_id c \<Longrightarrow> ch_created_by c \<noteq> Some (ap_user a)"
    and "\<And>c. c \<in> set (changes st) \<Longrightarrow> ch_status c \<in> cleared \<Longrightarrow> ch_required c \<le> int (approve_count st (ch_id c))"
  shows "chg_ok st"
  using assms by (simp add: chg_ok_def)

text \<open>The invariant reads three fields of the state only.\<close>

lemma chg_ok_cong:
  "changes st' = changes st \<Longrightarrow> approvals st' = approvals st \<Longrightarrow> next_change st' = next_change st \<Longrightarrow>
   chg_ok st' = chg_ok st"
  by (simp add: chg_ok_def approve_count_def)

lemma chg_fields [simp]:
  "changes (log_change by a i d st) = changes st" "approvals (log_change by a i d st) = approvals st"
  "next_change (log_change by a i d st) = next_change st" "targets (log_change by a i d st) = targets st"
  "changes (set_targets P f st) = changes st" "approvals (set_targets P f st) = approvals st"
  "next_change (set_targets P f st) = next_change st" "targets (set_targets P f st) = upd_rows P f (targets st)"
  "changes (set_change Q h st) = upd_rows Q h (changes st)" "approvals (set_change Q h st) = approvals st"
  "next_change (set_change Q h st) = next_change st" "targets (set_change Q h st) = targets st"
  by (simp_all add: log_change_def set_targets_def set_change_def)

lemma approve_count_fields [simp]:
  "approve_count (log_change by a i d st) = approve_count st" "approve_count (set_targets P f st) = approve_count st"
  "approve_count (set_change Q h st) = approve_count st"
  by (rule ext; simp add: approve_count_def)+

lemma chg_ok_log [simp]: "chg_ok (log_change by a i d st) = chg_ok st"
  by (rule chg_ok_cong) simp_all

lemma chg_ok_set_targets [simp]: "chg_ok (set_targets P f st) = chg_ok st"
  by (rule chg_ok_cong) simp_all

lemma chg_ok_set_change:
  assumes ok: "chg_ok st"
    and kept: "\<And>c. ch_id (f c) = ch_id c" "\<And>c. ch_created_by (f c) = ch_created_by c" "\<And>c. ch_required (f c) = ch_required c"
    and clear: "\<And>c. c \<in> set (changes st) \<Longrightarrow> P c \<Longrightarrow> ch_status (f c) \<in> cleared \<Longrightarrow>
      ch_status c \<in> cleared \<or> ch_required c \<le> int (approve_count st (ch_id c))"
  shows "chg_ok (set_change P f st)"
proof (rule chg_okI)
  show "distinct (map ch_id (changes (set_change P f st)))"
    using chg_okD(1) [OF ok] keyed_update.map_key_upd [of ch_id f] kept(1) by (simp add: keyed_update_def)
next
  fix c
  assume "c \<in> set (changes (set_change P f st))"
  then obtain c0 where c0: "c0 \<in> set (changes st)" "c = (if P c0 then f c0 else c0)" by (auto simp: set_upd_rows)
  then have ids: "ch_id c = ch_id c0" "ch_created_by c = ch_created_by c0" "ch_required c = ch_required c0"
    by (simp_all add: kept)
  show "ch_id c < next_change (set_change P f st)" using chg_okD(2) [OF ok c0(1)] ids by simp
  show "ch_created_by c \<noteq> Some (ap_user a)"
    if "a \<in> set (approvals (set_change P f st))" "ap_change a = ch_id c" for a
    using chg_okD(5) [OF ok c0(1), of a] that ids by simp
  show "ch_required c \<le> int (approve_count (set_change P f st) (ch_id c))" if "ch_status c \<in> cleared"
    using chg_okD(6) [OF ok c0(1)] clear [OF c0(1)] that ids c0(2) by (auto split: if_splits)
next
  show "ap_change a < next_change (set_change P f st)" if "a \<in> set (approvals (set_change P f st))" for a
    using chg_okD(3) [OF ok] that by simp
  show "distinct (map (\<lambda>a. (ap_change a, ap_user a)) (approvals (set_change P f st)))"
    using chg_okD(4) [OF ok] by simp
qed

lemma transition_ok:
  assumes "chg_ok st" and "transition i to from st = Inr st'" and "to \<in> cleared \<Longrightarrow> set from \<subseteq> cleared"
  shows "chg_ok st'"
proof -
  have "st' = set_change (\<lambda>c. ch_id c = i \<and> ch_status c \<in> set from) (\<lambda>c. c\<lparr>ch_status := to\<rparr>) st"
    using assms(2) by (simp add: transition_def split: if_splits)
  with assms(1,3) show ?thesis by (auto intro!: chg_ok_set_change)
qed

lemma create_change_ok:
  assumes ok: "chg_ok st" and run: "create_change L get runners now i by st = (st', r)"
  shows "chg_ok st'"
proof (cases "st' = st")
  case True
  with ok show ?thesis by simp
next
  case False
  then obtain c where st': "changes st' = changes st @ [c]" "approvals st' = approvals st" "next_change st' = next_change st + 1"
    and c: "ch_id c = next_change st" "ch_status c = ChDraft"
    using run by (auto simp: create_change_def Let_def new_change_def split: option.splits sum.splits if_splits)
  have fresh: "ch_id c' \<noteq> ch_id c" if "c' \<in> set (changes st)" for c' using chg_okD(2) [OF ok that] c by simp
  have count: "approve_count st' = approve_count st" by (rule ext) (simp add: approve_count_def st')
  show ?thesis
  proof (rule chg_okI)
    show "distinct (map ch_id (changes st'))"
      using chg_okD(1) [OF ok] fresh by (fastforce simp: st')
    show "ch_id d < next_change st'" if "d \<in> set (changes st')" for d
      using that chg_okD(2) [OF ok, of d] c by (auto simp: st')
    show "ap_change a < next_change st'" if "a \<in> set (approvals st')" for a
      using that chg_okD(3) [OF ok, of a] by (simp add: st')
    show "distinct (map (\<lambda>a. (ap_change a, ap_user a)) (approvals st'))"
      using chg_okD(4) [OF ok] by (simp add: st')
    show "ch_created_by d \<noteq> Some (ap_user a)"
      if "d \<in> set (changes st')" "a \<in> set (approvals st')" "ap_change a = ch_id d" for d a
      using that chg_okD(5) [OF ok, of d a] chg_okD(3) [OF ok, of a] c by (auto simp: st')
    show "ch_required d \<le> int (approve_count st' (ch_id d))" if "d \<in> set (changes st')" "ch_status d \<in> cleared" for d
      using that chg_okD(6) [OF ok, of d] c by (auto simp: st' count cleared_def)
  qed
qed

lemma in_tx_ok: "chg_ok st \<Longrightarrow> in_tx f st = (st', u) \<Longrightarrow> (\<And>s. f st = Inr s \<Longrightarrow> chg_ok s) \<Longrightarrow> chg_ok st'"
  by (auto simp: in_tx_def split: sum.splits)

lemma submit_ok:
  assumes ok: "chg_ok st" and run: "submit now i by st = (st', u)"
  shows "chg_ok st'"
proof (rule in_tx_ok [OF ok run [unfolded submit_def]])
  fix s
  assume "(case transition i ChPending [ChDraft] st of Inl e \<Rightarrow> Inl e
     | Inr st1 \<Rightarrow> Inr (log_change by ''change.submit'' i []
           (set_change (\<lambda>c. ch_id c = i)
              (\<lambda>c. c\<lparr>ch_submitted := Some now, ch_status := (if ch_required c = 0 then ChApproved else ch_status c)\<rparr>) st1))) = Inr s"
  then obtain st1 where t: "transition i ChPending [ChDraft] st = Inr st1"
    and s: "s = log_change by ''change.submit'' i []
           (set_change (\<lambda>c. ch_id c = i)
              (\<lambda>c. c\<lparr>ch_submitted := Some now, ch_status := (if ch_required c = 0 then ChApproved else ch_status c)\<rparr>) st1)"
    by (auto split: sum.splits)
  have "chg_ok st1" by (rule transition_ok [OF ok t]) (simp add: cleared_def)
  then show "chg_ok s" unfolding s chg_ok_log by (rule chg_ok_set_change) (auto split: if_splits)
qed

lemma approve_count_snoc:
  "approvals st1 = approvals st @ [a] \<Longrightarrow>
   approve_count st1 i = approve_count st i + (if ap_change a = i \<and> ap_decision a = Approve then 1 else 0)"
  by (simp add: approve_count_def count_rows_append count_rows_Cons)

lemma decision_added_ok:
  assumes ok: "chg_ok st" and c: "find_row ch_id i (changes st) = Some c" "ch_created_by c \<noteq> Some (ap_user a)"
    and a: "ap_change a = i" "\<not> list_ex (\<lambda>b. ap_change b = i \<and> ap_user b = ap_user a) (approvals st)"
  shows "chg_ok (st\<lparr>approvals := approvals st @ [a]\<rparr>)" (is "chg_ok ?st1")
proof (rule chg_okI)
  have cin: "c \<in> set (changes st)" "ch_id c = i" using find_row_Some [OF c(1)] by auto
  have same: "d = c" if "d \<in> set (changes st)" "ch_id d = i" for d
    using find_row_distinct [OF chg_okD(1) [OF ok] that(1)] that(2) c(1) by simp
  show "distinct (map ch_id (changes ?st1))" using chg_okD(1) [OF ok] by simp
  show "ch_id d < next_change ?st1" if "d \<in> set (changes ?st1)" for d using that chg_okD(2) [OF ok] by simp
  show "ap_change b < next_change ?st1" if "b \<in> set (approvals ?st1)" for b
    using that chg_okD(3) [OF ok] chg_okD(2) [OF ok cin(1)] a(1) cin(2) by auto
  show "distinct (map (\<lambda>a. (ap_change a, ap_user a)) (approvals ?st1))"
    using chg_okD(4) [OF ok] a by (auto simp: list_ex_iff)
  show "ch_created_by d \<noteq> Some (ap_user b)"
    if "d \<in> set (changes ?st1)" "b \<in> set (approvals ?st1)" "ap_change b = ch_id d" for d b
    using that chg_okD(5) [OF ok, of d b] same [of d] a(1) c(2) by auto
  show "ch_required d \<le> int (approve_count ?st1 (ch_id d))" if "d \<in> set (changes ?st1)" "ch_status d \<in> cleared" for d
  proof -
    have "approve_count st (ch_id d) \<le> approve_count ?st1 (ch_id d)" by (simp add: approve_count_snoc [of ?st1 st a])
    moreover have "ch_required d \<le> int (approve_count st (ch_id d))" using chg_okD(6) [OF ok] that by simp
    ultimately show ?thesis by linarith
  qed
qed

lemma decide_txE:
  assumes "decide_tx now i by good comment st = Inr s"
  obtains c st2 a d where "find_row ch_id i (changes st) = Some c" and "ch_status c = ChPending"
    and "ch_created_by c \<noteq> Some (ac_user by)" and "\<not> list_ex (\<lambda>b. ap_change b = i \<and> ap_user b = ac_user by) (approvals st)"
    and "apply_decision i good (add_decision now i by good comment st) = Inr st2" and "s = log_change by a i d st2"
  using assms unfolding decide_tx_def by (auto split: option.splits if_splits sum.splits)

lemma decide_ok:
  assumes ok: "chg_ok st" and run: "decide now i by good comment st = (st', u)"
  shows "chg_ok st'"
proof (rule in_tx_ok [OF ok run [unfolded decide_def]])
  fix s
  assume "decide_tx now i by good comment st = Inr s"
  then show "chg_ok s"
  proof (rule decide_txE)
    fix c st2 a d
    let ?st1 = "add_decision now i by good comment st"
    assume c: "find_row ch_id i (changes st) = Some c" "ch_created_by c \<noteq> Some (ac_user by)"
        "\<not> list_ex (\<lambda>b. ap_change b = i \<and> ap_user b = ac_user by) (approvals st)"
      and st2: "apply_decision i good ?st1 = Inr st2" and s: "s = log_change by a i d st2"
    have ok1: "chg_ok ?st1" unfolding add_decision_def by (rule decision_added_ok [OF ok c(1)]) (use c in simp_all)
    have "chg_ok st2"
    proof (cases good)
      case True
      with st2 have st2': "st2 = set_change (\<lambda>c. ch_id c = i \<and> ch_required c \<le> int (approve_count ?st1 i))
                             (\<lambda>c. c\<lparr>ch_status := ChApproved\<rparr>) ?st1" by (simp add: apply_decision_def)
      show ?thesis unfolding st2' by (rule chg_ok_set_change [OF ok1]) auto
    next
      case False
      with st2 have "transition i ChRejected [ChPending] ?st1 = Inr st2" by (simp add: apply_decision_def)
      then show ?thesis by (rule transition_ok [OF ok1]) (simp add: cleared_def)
    qed
    then show "chg_ok s" by (simp add: s)
  qed
qed

lemma cancel_ok:
  assumes ok: "chg_ok st" and run: "cancel i by (st, stops) = ((st', stops'), u)"
  shows "chg_ok st'"
proof (cases "cancel_tx i by st")
  case (Inl e)
  with run ok show ?thesis by (auto simp: cancel_def split: option.splits if_splits)
next
  case (Inr s)
  then obtain st1 P f a d where t: "transition i ChCancelled [ChDraft, ChPending, ChApproved] st = Inr st1"
    and s: "s = log_change by a i d (set_targets P f st1)"
    by (auto simp: cancel_tx_def split: sum.splits)
  have "chg_ok st1" by (rule transition_ok [OF ok t]) (simp add: cleared_def)
  then have "chg_ok s" by (simp add: s)
  moreover have "st' = s" using Inr run by (simp add: cancel_def)
  ultimately show ?thesis by simp
qed

lemma run_now_ok:
  assumes ok: "chg_ok st" and run: "run_now i by reason st = (st', u)"
  shows "chg_ok st'"
proof (cases "st' = st")
  case True
  with ok show ?thesis by simp
next
  case False
  let ?f = "\<lambda>c. c\<lparr>ch_run_mode := ''now'', ch_urgent := trim_space reason\<rparr>"
  obtain a d where "st' = log_change by a i d (set_change (\<lambda>c. ch_id c = i \<and> ch_status c \<in> {ChApproved, ChPending, ChDraft}) ?f st)"
    using run False by (auto simp: run_now_def Let_def in_tx_def split: if_splits sum.splits)
  moreover have "chg_ok (set_change (\<lambda>c. ch_id c = i \<and> ch_status c \<in> {ChApproved, ChPending, ChDraft}) ?f st)"
    by (rule chg_ok_set_change [OF ok]) auto
  ultimately show ?thesis by simp
qed

lemma settings_ok:
  assumes "chg_ok st"
  shows "save_window ge w st = (st', r) \<Longrightarrow> chg_ok st'" and "delete_window i st = (st', u) \<Longrightarrow> chg_ok st'"
    and "set_policy ge g n st = (st', u) \<Longrightarrow> chg_ok st'" and "chg_ok (delete_policy i st)" and "chg_ok (forget_device d st)"
proof -
  have same: "chg_ok s" if "changes s = changes st" "approvals s = approvals st" "next_change s = next_change st" for s
    using chg_ok_cong [OF that] assms by simp
  show "save_window ge w st = (st', r) \<Longrightarrow> chg_ok st'"
    by (rule same) (auto simp: save_window_def Let_def split: sum.splits if_splits)
  show "delete_window i st = (st', u) \<Longrightarrow> chg_ok st'" by (rule same) (auto simp: delete_window_def split: if_splits)
  show "set_policy ge g n st = (st', u) \<Longrightarrow> chg_ok st'" by (rule same) (auto simp: set_policy_def split: if_splits)
  show "chg_ok (delete_policy i st)" by (rule same) (simp_all add: delete_policy_def)
  show "chg_ok (forget_device d st)" by (rule same) (simp_all add: forget_device_def)
qed

lemma engine_updates_ok:
  assumes "chg_ok st"
  shows "chg_ok (start_change now i st)" and "chg_ok (start_target now t st)"
    and "chg_ok (finish_target now t ok out msg pre st)" and "chg_ok (recover now st)"
proof -
  show "chg_ok (start_change now i st)" unfolding start_change_def
    by (rule chg_ok_set_change [OF assms]) (auto simp: cleared_def)
  show "chg_ok (start_target now t st)" and "chg_ok (finish_target now t ok out msg pre st)"
    using assms by (simp_all add: start_target_def finish_target_def)
  show "chg_ok (recover now st)" unfolding recover_def Let_def
    by (rule chg_ok_set_change) (auto simp: assms cleared_def)
qed

lemma finish_change_ok:
  assumes ok: "chg_ok st" and c: "find_row ch_id i (changes st) = Some c" "ch_status c = ChRunning"
  shows "chg_ok (finish_change now i stopped st)"
proof -
  have "chg_ok (set_change (\<lambda>c. ch_id c = i) (\<lambda>c. c\<lparr>ch_status := s, ch_finished := Some now\<rparr>) (skip_pending i stopped st))" for s
  proof (rule chg_ok_set_change)
    show "chg_ok (skip_pending i stopped st)" using ok by (simp add: skip_pending_def)
  next
    fix d
    assume "d \<in> set (changes (skip_pending i stopped st))" and "ch_id d = i"
    then have "d = c" using find_row_distinct [OF chg_okD(1) [OF ok], of d] c(1) by (simp add: skip_pending_def)
    then show "ch_status d \<in> cleared \<or> ch_required d \<le> int (approve_count (skip_pending i stopped st) (ch_id d))"
      using c(2) by (simp add: cleared_def)
  qed simp_all
  then show ?thesis by (simp add: finish_change_def Let_def)
qed

lemmas chg_preserved = create_change_ok submit_ok decide_ok cancel_ok run_now_ok settings_ok engine_updates_ok finish_change_ok

lemma chg_step_ok: "chg_step L st st' \<Longrightarrow> chg_ok st \<Longrightarrow> chg_ok st'"
  by (induction rule: chg_step.induct) (erule chg_preserved; assumption)+

lemma chg_reachable_ok: "rtranclp (chg_step L) empty_chg st \<Longrightarrow> chg_ok st"
proof (induction rule: rtranclp_induct)
  case base
  show ?case by (simp add: chg_ok_def empty_chg_def)
qed (rule chg_step_ok)

subsection \<open>The status machine\<close>

inductive edge :: "cstatus \<Rightarrow> cstatus \<Rightarrow> bool" where
  "edge ChDraft ChPending"
| "edge ChDraft ChApproved"
| "edge ChPending ChApproved"
| "edge ChPending ChRejected"
| "s \<in> {ChDraft, ChPending, ChApproved, ChRunning} \<Longrightarrow> edge s ChCancelled"
| "edge ChApproved ChRunning"
| "s \<in> {ChSucceeded, ChFailed, ChPartial} \<Longrightarrow> edge ChRunning s"

inductive_simps edge_simps: "edge s t"

definition advances :: "chg \<Rightarrow> chg \<Rightarrow> bool" where
  "advances st st' \<longleftrightarrow>
     (\<forall>i c. find_row ch_id i (changes st) = Some c \<longrightarrow>
        (\<exists>c'. find_row ch_id i (changes st') = Some c' \<and> (ch_status c' = ch_status c \<or> edge (ch_status c) (ch_status c'))))"

lemma advancesI:
  "(\<And>i c. find_row ch_id i (changes st) = Some c \<Longrightarrow>
      \<exists>c'. find_row ch_id i (changes st') = Some c' \<and> (ch_status c' = ch_status c \<or> edge (ch_status c) (ch_status c'))) \<Longrightarrow>
   advances st st'"
  by (simp add: advances_def)

lemma advances_same: "changes st' = changes st \<Longrightarrow> advances st st'"
  by (simp add: advances_def)

lemma advances_log [simp]: "advances st (log_change by a i d st') = advances st st'"
  by (simp add: advances_def)

lemma advances_targets [simp]: "advances st (set_targets P f st') = advances st st'"
  by (simp add: advances_def)

lemma find_set_change:
  "(\<And>c. ch_id (f c) = ch_id c) \<Longrightarrow>
   find_row ch_id i (changes (set_change P f st)) = map_option (\<lambda>r. if P r then f r else r) (find_row ch_id i (changes st))"
  by (simp add: keyed_update.find_upd keyed_update_def)

lemma advances_set_change:
  assumes "\<And>c. ch_id (f c) = ch_id c"
    and "\<And>c. c \<in> set (changes st) \<Longrightarrow> P c \<Longrightarrow> ch_status (f c) = ch_status c \<or> edge (ch_status c) (ch_status (f c))"
  shows "advances st (set_change P f st)"
proof (rule advancesI)
  fix i c
  assume c: "find_row ch_id i (changes st) = Some c"
  with find_row_Some [OF this] assms(2) [of c]
  show "\<exists>c'. find_row ch_id i (changes (set_change P f st)) = Some c' \<and> (ch_status c' = ch_status c \<or> edge (ch_status c) (ch_status c'))"
    by (simp only: find_set_change [OF assms(1)]) auto
qed

lemma advances_transition:
  "transition i to from st = Inr st' \<Longrightarrow> (\<And>s. s \<in> set from \<Longrightarrow> edge s to) \<Longrightarrow> advances st st'"
  by (auto simp: transition_def split: if_splits intro!: advances_set_change)

lemma advances_refl [simp]: "advances st st"
  by (simp add: advances_same)

lemma advances_in_tx: "in_tx f st = (st', u) \<Longrightarrow> (\<And>s. f st = Inr s \<Longrightarrow> advances st s) \<Longrightarrow> advances st st'"
  by (auto simp: in_tx_def split: sum.splits)

lemma create_advances: "create_change L get runners now i0 by st = (st', r) \<Longrightarrow> advances st st'"
  by (auto simp: create_change_def Let_def advances_def find_row_append split: option.splits sum.splits if_splits)

text \<open>With unique identifiers, the row an update by identifier and status finds is the row of that identifier.\<close>

lemma found_status:
  assumes "chg_ok st" and "list_ex (\<lambda>c. ch_id c = i \<and> ch_status c \<in> S) (changes st)" and "find_row ch_id i (changes st) = Some c"
  shows "ch_status c \<in> S"
proof -
  obtain d where d: "d \<in> set (changes st)" "ch_id d = i" "ch_status d \<in> S" using assms(2) by (auto simp: list_ex_iff)
  then have "c = d" using find_row_distinct [OF chg_okD(1) [OF assms(1)] d(1)] assms(3) by simp
  with d show ?thesis by simp
qed

lemma submit_advances:
  assumes ok: "chg_ok st" and run: "submit now i by st = (st', u)"
  shows "advances st st'"
proof (rule advances_in_tx [OF run [unfolded submit_def]])
  fix s
  let ?f = "\<lambda>c. c\<lparr>ch_submitted := Some now, ch_status := (if ch_required c = 0 then ChApproved else ch_status c)\<rparr>"
  let ?t = "set_change (\<lambda>c. ch_id c = i \<and> ch_status c \<in> set [ChDraft]) (\<lambda>c. c\<lparr>ch_status := ChPending\<rparr>) st"
  assume "(case transition i ChPending [ChDraft] st of Inl e \<Rightarrow> Inl e
     | Inr st1 \<Rightarrow> Inr (log_change by ''change.submit'' i [] (set_change (\<lambda>c. ch_id c = i) ?f st1))) = Inr s"
  then have ex: "list_ex (\<lambda>c. ch_id c = i \<and> ch_status c \<in> set [ChDraft]) (changes st)"
    and s: "s = log_change by ''change.submit'' i [] (set_change (\<lambda>c. ch_id c = i) ?f ?t)"
    by (auto simp: transition_def split: sum.splits if_splits)
  have two: "find_row ch_id j (changes (set_change (\<lambda>c. ch_id c = i) ?f ?t)) =
      map_option (\<lambda>c. if ch_id c = i then ?f c else c)
        (map_option (\<lambda>c. if ch_id c = i \<and> ch_status c \<in> set [ChDraft] then c\<lparr>ch_status := ChPending\<rparr> else c)
          (find_row ch_id j (changes st)))" for j
    by (subst find_set_change, simp, subst find_set_change, simp, rule refl)
  show "advances st s"
    unfolding s advances_log
  proof (rule advancesI)
    fix j c
    assume c: "find_row ch_id j (changes st) = Some c"
    have "ch_status c = ChDraft" if "ch_id c = i"
      using found_status [OF ok ex] c that find_row_Some [OF c] by simp
    then show "\<exists>c'. find_row ch_id j (changes (set_change (\<lambda>c. ch_id c = i) ?f ?t)) = Some c' \<and>
        (ch_status c' = ch_status c \<or> edge (ch_status c) (ch_status c'))"
      unfolding two c by (cases "ch_id c = i") (simp_all add: edge_simps)
  qed
qed

lemma decide_advances:
  assumes ok: "chg_ok st" and run: "decide now i by good comment st = (st', u)"
  shows "advances st st'"
proof (rule advances_in_tx [OF run [unfolded decide_def]])
  fix s
  assume "decide_tx now i by good comment st = Inr s"
  then show "advances st s"
  proof (rule decide_txE)
    fix c st2 a d
    let ?st1 = "add_decision now i by good comment st"
    assume c: "find_row ch_id i (changes st) = Some c" "ch_status c = ChPending"
      and st2: "apply_decision i good ?st1 = Inr st2" and s: "s = log_change by a i d st2"
    have st1: "changes ?st1 = changes st" by (simp add: add_decision_def)
    have pend: "ch_status d = ChPending" if "d \<in> set (changes st)" "ch_id d = i" for d
      using find_row_distinct [OF chg_okD(1) [OF ok] that(1)] that(2) c by simp
    have "advances ?st1 st2"
    proof (cases good)
      case True
      then have "st2 = set_change (\<lambda>c. ch_id c = i \<and> ch_required c \<le> int (approve_count ?st1 i))
                             (\<lambda>c. c\<lparr>ch_status := ChApproved\<rparr>) ?st1" using st2 by (simp add: apply_decision_def)
      then show ?thesis using pend st1 by (auto simp: edge_simps intro!: advances_set_change)
    next
      case False
      with st2 have "transition i ChRejected [ChPending] ?st1 = Inr st2" by (simp add: apply_decision_def)
      then show ?thesis by (rule advances_transition) (simp add: edge_simps)
    qed
    then show "advances st s" by (simp add: s advances_def st1)
  qed
qed

lemma cancel_advances:
  assumes run: "cancel i by (st, stops) = ((st', stops'), u)"
  shows "advances st st'"
proof (cases "cancel_tx i by st")
  case (Inl e)
  with run show ?thesis by (auto simp: cancel_def split: option.splits if_splits)
next
  case (Inr s)
  then obtain st1 P f a d where t: "transition i ChCancelled [ChDraft, ChPending, ChApproved] st = Inr st1"
    and s: "s = log_change by a i d (set_targets P f st1)"
    by (auto simp: cancel_tx_def split: sum.splits)
  have "advances st st1" by (rule advances_transition [OF t]) (auto simp: edge_simps)
  then have "advances st s" by (simp add: s)
  moreover have "st' = s" using Inr run by (simp add: cancel_def)
  ultimately show ?thesis by simp
qed

lemma run_now_advances: "run_now i by reason st = (st', u) \<Longrightarrow> advances st st'"
  by (auto simp: run_now_def Let_def in_tx_def split: if_splits intro!: advances_set_change)

lemma settings_advances:
  shows "save_window ge w st = (st', r) \<Longrightarrow> advances st st'" and "delete_window i st = (st', u) \<Longrightarrow> advances st st'"
    and "set_policy ge g n st = (st', u) \<Longrightarrow> advances st st'" and "advances st (delete_policy i st)"
    and "advances st (forget_device d st)"
  by (rule advances_same, auto simp: save_window_def delete_window_def set_policy_def delete_policy_def forget_device_def Let_def
      split: sum.splits if_splits)+

lemma engine_advances:
  shows "advances st (start_change now i st)" and "advances st (start_target now t st)"
    and "advances st (finish_target now t ok out msg pre st)"
  by (auto simp: start_change_def start_target_def finish_target_def edge_simps intro!: advances_set_change)

lemma recover_advances: "advances st (recover now st)"
proof -
  have "advances s (set_change (\<lambda>c. ch_status c = ChRunning) (\<lambda>c. c\<lparr>ch_status := ChFailed, ch_finished := Some now\<rparr>) s)" for s
    by (rule advances_set_change) (simp_all add: edge_simps)
  then show ?thesis unfolding recover_def Let_def advances_def by simp
qed

lemma finish_advances:
  assumes ok: "chg_ok st" and c: "find_row ch_id i (changes st) = Some c" "ch_status c = ChRunning"
  shows "advances st (finish_change now i stopped st)"
proof -
  have run: "ch_status d = ChRunning" if "d \<in> set (changes (skip_pending i stopped st))" "ch_id d = i" for d
    using find_row_distinct [OF chg_okD(1) [OF ok], of d] that c by (simp add: skip_pending_def)
  have "advances (skip_pending i stopped st)
      (set_change (\<lambda>c. ch_id c = i) (\<lambda>c. c\<lparr>ch_status := final_status a g b, ch_finished := Some now\<rparr>) (skip_pending i stopped st))" for a g b
    by (rule advances_set_change) (auto simp: run edge_simps final_status_def)
  then show ?thesis
    unfolding finish_change_def Let_def advances_log by (simp add: advances_def skip_pending_def)
qed

lemmas advances_rules = create_advances submit_advances decide_advances cancel_advances run_now_advances settings_advances
  engine_advances recover_advances finish_advances

lemma chg_step_advances: "chg_step L st st' \<Longrightarrow> chg_ok st \<Longrightarrow> advances st st'"
proof (induction rule: chg_step.induct)
  case (submit now i who st st' u)
  then show ?case by (blast intro: submit_advances)
next
  case (decide now i who ok comment st st' u)
  then show ?case by (blast intro: decide_advances)
next
  case (finish_change i st c now stopped)
  then show ?case by (blast intro: finish_advances)
qed (rule advances_rules; assumption)+

subsection \<open>Planning\<close>

lemma keep_order_first: "keep_order ids xs = ids @ filter (\<lambda>x. x \<notin> set ids) (rev (remdups (rev xs)))"
proof (induction ids xs rule: keep_order.induct)
  case (2 ids i js)
  have "rev (remdups (rev (i # js))) = i # filter (\<lambda>x. x \<noteq> i) (rev (remdups (rev js)))"
  proof -
    have "remdups (ys @ [i]) = filter (\<lambda>x. x \<noteq> i) (remdups ys) @ [i]" for ys :: "int list"
      by (induction ys) auto
    then show ?thesis by (simp add: rev_filter)
  qed
  with 2 show ?case by (auto intro: filter_cong)
qed simp

lemma keep_order_nil: "keep_order [] xs = rev (remdups (rev xs))"
  by (simp add: keep_order_first)

lemma plan_devices_result:
  "plan_devices L get pv spec is plans problems = Inr (plans', []) \<Longrightarrow>
   problems = [] \<and> (\<exists>new. plans' = plans @ new \<and> length new = length is \<and>
     list_all2 (\<lambda>i p. get i = Inr (fst p) \<and> operational L (fst p) \<and> pv spec (fst p) = Inr (snd p)) is new)"
proof (induction L get pv spec "is" plans problems rule: plan_devices.induct)
  case (1 L get pv spec plans problems)
  then show ?case by simp
next
  case (2 L get pv spec i "is" plans problems)
  obtain d where d: "get i = Inr d" using "2.prems" by (cases "get i") (auto split: if_splits)
  have opd: "operational L d"
  proof (rule ccontr)
    assume no: "\<not> operational L d"
    with "2.prems" d "2.IH"(1) [OF d no] show False by auto
  qed
  show ?case
  proof (cases "pv spec d")
    case (Inl e)
    then show ?thesis using "2.prems" d opd "2.IH" by (cases e) auto
  next
    case (Inr p)
    then have "plan_devices L get pv spec is (plans @ [(d, p)]) problems = Inr (plans', [])"
      using "2.prems" d opd by simp
    then obtain new where "problems = []" "plans' = (plans @ [(d, p)]) @ new" "length new = length is"
      "list_all2 (\<lambda>i p. get i = Inr (fst p) \<and> operational L (fst p) \<and> pv spec (fst p) = Inr (snd p)) is new"
      using "2.IH" d opd Inr by blast
    with d opd Inr show ?thesis by (intro conjI exI [of _ "(d, p) # new"]) simp_all
  qed
qed

lemma max_need_bound: "need \<le> max_need r need gs \<and> (\<forall>g\<in>set gs. r g \<le> max_need r need gs) \<and>
  (max_need r need gs = need \<or> (\<exists>g\<in>set gs. max_need r need gs = r g))"
proof (induction gs arbitrary: need)
  case (Cons g gs)
  from Cons [of "max need (r g)"] show ?case by (auto simp: max_def split: if_splits)
qed simp

text \<open>The policy that applies to a group: its own, else the default one, else one approval.\<close>

definition policy_need :: "policy list \<Rightarrow> int option \<Rightarrow> int" where
  "policy_need ps g =
     (let dflt = (case List.find (\<lambda>p. po_group p = None) ps of None \<Rightarrow> 1 | Some p \<Rightarrow> po_required p)
      in case g of
           None \<Rightarrow> dflt
         | Some i \<Rightarrow> (case List.find (\<lambda>p. po_group p = Some i) ps of None \<Rightarrow> dflt | Some p \<Rightarrow> po_required p))"

lemma find_upd_key:
  "distinct (map po_group (p # ps)) \<Longrightarrow> po_group p = g \<Longrightarrow> List.find (\<lambda>q. po_group q = g) ps = None"
  unfolding find_None_iff by (metis distinct.simps(2) image_eqI list.simps(9) list.set_map)

lemma read_policies_spec:
  assumes "distinct (map po_group ps)"
  shows "fst (read_policies d m ps) = (case List.find (\<lambda>p. po_group p = None) ps of None \<Rightarrow> d | Some p \<Rightarrow> po_required p)"
    and "snd (read_policies d m ps) i =
      (case List.find (\<lambda>p. po_group p = Some i) ps of None \<Rightarrow> m i | Some p \<Rightarrow> Some (po_required p))"
  using assms
proof (induction ps arbitrary: d m)
  case (Cons p ps)
  case 1
  with Cons.IH(1) find_upd_key [OF 1] show ?case by (auto split: option.splits)
next
  case (Cons p ps)
  case 2
  with Cons.IH(2) find_upd_key [OF 2] show ?case by (auto split: option.splits)
qed simp_all

lemma find_sort_key:
  assumes "distinct (map k xs)" and "\<And>x. P x \<longleftrightarrow> k x = v"
  shows "List.find P (sort_key f xs) = List.find P xs"
proof (cases "\<exists>x\<in>set xs. P x")
  case False
  then have "List.find P (sort_key f xs) = None" and "List.find P xs = None" by (auto simp: find_None_iff)
  then show ?thesis by simp
next
  case True
  then obtain x where x: "x \<in> set xs" "P x" by blast
  have uniq: "y = x" if "y \<in> set xs" "P y" for y
    using assms that x by (auto simp: distinct_map inj_on_def)
  have "List.find P zs = Some x" if "set zs = set xs" for zs
  proof (cases "List.find P zs")
    case None
    with x that show ?thesis by (auto simp: find_None_iff)
  next
    case (Some y)
    then have "y \<in> set zs" "P y" by (auto simp: find_Some_iff)
    with uniq that Some show ?thesis by simp
  qed
  from this [of "sort_key f xs"] this [of xs] show ?thesis by simp
qed

lemma group_need_policy:
  assumes "distinct (map po_group (policies st))"
  shows "(case read_policies 1 Map.empty (list_policies st) of (dflt, by) \<Rightarrow> group_need dflt by) = policy_need (policies st)"
proof
  fix g
  have dist: "distinct (map po_group (list_policies st))"
    using assms by (simp add: list_policies_def distinct_map)
  have fs: "List.find (\<lambda>p. po_group p = h) (list_policies st) = List.find (\<lambda>p. po_group p = h) (policies st)" for h
    unfolding list_policies_def by (rule find_sort_key [OF assms]) simp
  note rp = read_policies_spec [OF dist, of 1 Map.empty]
  show "(case read_policies 1 Map.empty (list_policies st) of (dflt, by) \<Rightarrow> group_need dflt by) g = policy_need (policies st) g"
    using rp by (cases g) (auto simp: group_need_def policy_need_def Let_def case_prod_beta fs split: option.splits)
qed

lemma map_new_targets:
  "map tg_device (new_targets cid tid pos ps) = map (\<lambda>p. d_id (fst p)) ps"
  "\<forall>t\<in>set (new_targets cid tid pos ps). tg_change t = cid \<and> tg_status t = TgPending"
  by (induction cid tid pos ps rule: new_targets.induct) auto

text \<open>What \<open>Get\<close> of the inventory promises: the device it returns has the identifier asked for.\<close>

lemma get_device_id: "get_device L V clk g iv i = Inr d \<Longrightarrow> d_id d = i"
  by (auto simp: get_device_def scan_def drow.defs split: option.splits sum.splits dest!: find_row_Some)

subsection \<open>Properties\<close>

lemma count_card:
  assumes "distinct (map (\<lambda>a. (ap_change a, ap_user a)) as)"
  shows "count_rows (\<lambda>a. ap_change a = i \<and> ap_decision a = Approve) as =
     card {ap_user a | a. a \<in> set as \<and> ap_change a = i \<and> ap_decision a = Approve}"
proof -
  let ?P = "\<lambda>a. ap_change a = i \<and> ap_decision a = Approve"
  have "distinct as" using assms by (simp add: distinct_map)
  then have "count_rows ?P as = card (set (filter ?P as))"
    unfolding count_rows_def by (metis distinct_card distinct_filter)
  moreover have "inj_on ap_user (set (filter ?P as))"
  proof (rule inj_onI)
    fix a b
    assume "a \<in> set (filter ?P as)" "b \<in> set (filter ?P as)" "ap_user a = ap_user b"
    moreover have "inj_on (\<lambda>a. (ap_change a, ap_user a)) (set as)" using assms by (simp add: distinct_map)
    ultimately show "a = b" by (simp add: inj_on_def)
  qed
  ultimately have "count_rows ?P as = card (ap_user ` set (filter ?P as))" by (simp add: card_image)
  also have "ap_user ` set (filter ?P as) = {ap_user a | a. a \<in> set as \<and> ?P a}" by auto
  finally show ?thesis .
qed

text \<open>
  C6: no change is approved, runs or has run without its required approvals, given by that many
  different users, none of them its creator, in any state that operations of users and of the
  engine can reach.
\<close>

theorem approval_safety:
  assumes "rtranclp (chg_step L) empty_chg st" and "c \<in> set (changes st)"
    and "ch_status c \<in> {ChApproved, ChRunning, ChSucceeded, ChFailed, ChPartial}"
  shows "ch_required c \<le> int (card {ap_user a | a. a \<in> set (approvals st) \<and> ap_change a = ch_id c \<and> ap_decision a = Approve}) \<and>
     (\<forall>a\<in>set (approvals st). ap_change a = ch_id c \<longrightarrow> ch_created_by c \<noteq> Some (ap_user a))"
proof -
  have ok: "chg_ok st" using assms(1) by (rule chg_reachable_ok)
  have "ch_required c \<le> int (approve_count st (ch_id c))"
    using chg_okD(6) [OF ok assms(2)] assms(3) by (simp add: cleared_def)
  then show ?thesis
    using chg_okD(5) [OF ok assms(2)] count_card [OF chg_okD(4) [OF ok]] by (auto simp: approve_count_def)
qed

definition sample_device :: "int \<Rightarrow> device" where
  "sample_device i = drow.extend ((new_row sample_env 0 i sample_input no_creds)\<lparr>d_serial := ''FGT1''\<rparr>)
     \<lparr>v_group_name = [], v_has_api = True, v_has_ssh = False, v_peers = [], v_license = ''active'', v_creds = no_creds\<rparr>"

definition sample_create_input :: create_input where
  "sample_create_input = \<lparr>ci_kind = ''script'', ci_title = ''ntp'', ci_description = [], ci_spec = [], ci_devices = [7, 3, 7],
     ci_run_mode = ''now'', ci_run_at = None, ci_urgent = ''outage'', ci_concurrency = 0, ci_canary = 1, ci_max_failures = 0,
     ci_backup_first = None\<rparr>"

definition sample_runners :: "string \<rightharpoonup> preview" where
  "sample_runners = [''script'' \<mapsto> (\<lambda>_ d. Inr ''set ntp'')]"

definition sample_user :: "int \<Rightarrow> actor" where
  "sample_user i = \<lparr>ac_user = i, ac_name = ''user'', ac_ip = ''10.0.0.9''\<rparr>"

definition sample_draft :: chg where
  "sample_draft = fst (create_change sample_lic (\<lambda>i. Inr (sample_device i)) sample_runners 0 sample_create_input (sample_user 1) empty_chg)"

definition sample_pending :: chg where "sample_pending = fst (submit 1 1 (sample_user 1) sample_draft)"
definition sample_approved :: chg where "sample_approved = fst (decide 2 1 (sample_user 2) True ''ok'' sample_pending)"

lemma sample_approved_status: "map ch_status (changes sample_approved) = [ChApproved]"
  by code_simp

lemma sample_approved_reachable: "rtranclp (chg_step sample_lic) empty_chg sample_approved"
proof -
  have "chg_step sample_lic empty_chg sample_draft"
    unfolding sample_draft_def by (rule chg_step.create [OF prod.collapse [symmetric]])
  moreover have "chg_step sample_lic sample_draft sample_pending"
    unfolding sample_pending_def by (rule chg_step.submit [OF prod.collapse [symmetric]])
  moreover have "chg_step sample_lic sample_pending sample_approved"
    unfolding sample_approved_def by (rule chg_step.decide [OF prod.collapse [symmetric]])
  ultimately show ?thesis by (meson rtranclp.rtrancl_into_rtrancl rtranclp.rtrancl_refl)
qed

theorem approval_safety_witness:
  "\<exists>c\<in>set (changes sample_approved). ch_status c = ChApproved \<and>
     ch_required c \<le> int (card {ap_user a | a. a \<in> set (approvals sample_approved) \<and> ap_change a = ch_id c \<and> ap_decision a = Approve})"
proof -
  obtain c where c: "changes sample_approved = [c]" "ch_status c = ChApproved"
    using sample_approved_status by (cases "changes sample_approved") auto
  with approval_safety [OF sample_approved_reachable, of c] show ?thesis by auto
qed

text \<open>
  C27: a change is never lost, and its status only moves along the edges draft to pending or
  approved, pending to approved or rejected, approved to running, running to one of its results,
  and to cancelled from any of these; rejected, cancelled and the results are final.
\<close>

theorem change_status_machine:
  assumes "rtranclp (chg_step L) empty_chg st" and "chg_step L st st'"
    and "find_row ch_id i (changes st) = Some c"
  shows "\<exists>c'. find_row ch_id i (changes st') = Some c' \<and> (ch_status c' = ch_status c \<or> edge (ch_status c) (ch_status c'))"
  using chg_step_advances [OF assms(2) chg_reachable_ok [OF assms(1)]] assms(3) by (simp add: advances_def)

theorem change_status_machine_witness:
  "\<exists>c c'. find_row ch_id 1 (changes sample_approved) = Some c \<and>
     find_row ch_id 1 (changes (start_change 5 1 sample_approved)) = Some c' \<and>
     (ch_status c' = ch_status c \<or> edge (ch_status c) (ch_status c'))"
proof -
  have "find_row ch_id 1 (changes sample_approved) \<noteq> None" by code_simp
  then obtain c where "find_row ch_id 1 (changes sample_approved) = Some c" by blast
  with change_status_machine [OF sample_approved_reachable chg_step.start_change this] show ?thesis by blast
qed

text \<open>
  The approvals a change needs are the most that any of its devices' groups asks for, where a
  group without a policy of its own follows the default one, and one approval is needed when
  there is no default.
\<close>

lemma required_for_max:
  assumes "distinct (map po_group (policies st))"
  shows "0 \<le> required_for st gs \<and> (\<forall>g\<in>set gs. policy_need (policies st) g \<le> required_for st gs) \<and>
     (required_for st gs = 0 \<or> (\<exists>g\<in>set gs. required_for st gs = policy_need (policies st) g))"
  using max_need_bound [of 0 "policy_need (policies st)" gs] group_need_policy [OF assms]
  by (simp add: required_for_def case_prod_beta)

lemma required_for_max_example:
  "policy_need (policies empty_chg) (Some 4) \<le> required_for empty_chg [None, Some 4]"
proof -
  have "distinct (map po_group (policies empty_chg))" by (simp add: empty_chg_def)
  from required_for_max [OF this, of "[None, Some 4]"] show ?thesis by simp
qed

text \<open>
  A change that is created is a draft whose targets are the given devices in their order,
  each once, all pending and all with an active license and a spec their runner accepted;
  otherwise nothing is stored.
\<close>

lemma create_change_plan:
  assumes "create_change L (get_device L V clk g iv) runners now i by st = (st', Inr cid)"
    and "\<forall>t\<in>set (targets st). tg_change t < next_change st"
  shows "map tg_device (filter (\<lambda>t. tg_change t = cid) (targets st')) = rev (remdups (rev (ci_devices i))) \<and>
     (\<forall>t\<in>set (targets st'). tg_change t = cid \<longrightarrow> tg_status t = TgPending) \<and>
     (\<forall>d\<in>set (ci_devices i). \<exists>dev p pv. get_device L V clk g iv d = Inr dev \<and> operational L dev \<and>
        runners (ci_kind i) = Some pv \<and> pv (ci_spec i) dev = Inr p) \<and>
     (\<exists>c. changes st' = changes st @ [c] \<and> ch_id c = cid \<and> ch_status c = ChDraft)"
proof -
  obtain pv n plans where pv: "runners (ci_kind i) = Some pv" and n: "normal_input now i = Inr n"
    and pl: "plan_devices L (get_device L V clk g iv) pv (ci_spec n) (ci_devices n) [] [] = Inr (plans, [])"
    and cid: "cid = next_change st"
    and ts: "targets st' = targets st @ new_targets cid (next_target st) 0 plans"
    and cs: "changes st' = changes st @ [new_change now cid (required_for st (map (\<lambda>p. d_group (fst p)) plans)) n by]"
    using assms(1) by (auto simp: create_change_def Let_def split: option.splits sum.splits if_splits)
  have n': "ci_devices n = rev (remdups (rev (ci_devices i)))" "ci_spec n = ci_spec i"
    using n by (auto simp: normal_input_def normal_run_def Let_def keep_order_nil split: if_splits sum.splits option.splits)
  let ?Q = "\<lambda>j p. get_device L V clk g iv j = Inr (fst p) \<and> operational L (fst p) \<and> pv (ci_spec i) (fst p) = Inr (snd p)"
  have all: "list_all2 ?Q (ci_devices n) plans"
    using plan_devices_result [OF pl] n'(2) by auto
  have ids: "map (\<lambda>p. d_id (fst p)) plans = ci_devices n"
    using all by (induction rule: list_all2_induct) (auto dest: get_device_id)
  have old: "filter (\<lambda>t. tg_change t = cid) (targets st) = []"
    using assms(2) cid by (auto simp: filter_empty_conv)
  have new: "filter (\<lambda>t. tg_change t = cid) (new_targets cid (next_target st) 0 plans) = new_targets cid (next_target st) 0 plans"
    using map_new_targets(2) [of cid "next_target st" 0 plans] by (auto simp: filter_id_conv)
  have each: "\<exists>p. ?Q d p" if "d \<in> set (ci_devices n)" for d
    using all that by (auto simp: list_all2_conv_all_nth in_set_conv_nth)
  have d_in: "set (ci_devices i) = set (ci_devices n)" by (simp add: n'(1))
  show ?thesis
  proof (intro conjI)
    show "map tg_device (filter (\<lambda>t. tg_change t = cid) (targets st')) = rev (remdups (rev (ci_devices i)))"
      using n'(1) by (simp add: ts old new map_new_targets(1) ids)
    show "\<forall>t\<in>set (targets st'). tg_change t = cid \<longrightarrow> tg_status t = TgPending"
      using assms(2) cid map_new_targets(2) [of cid "next_target st" 0 plans] by (auto simp: ts)
    show "\<forall>d\<in>set (ci_devices i). \<exists>dev p pv. get_device L V clk g iv d = Inr dev \<and> operational L dev \<and>
        runners (ci_kind i) = Some pv \<and> pv (ci_spec i) dev = Inr p"
      using each pv d_in by blast
    show "\<exists>c. changes st' = changes st @ [c] \<and> ch_id c = cid \<and> ch_status c = ChDraft"
      using cs by (auto simp: new_change_def)
  qed
qed

definition sample_guard :: "string guard" where
  "sample_guard = (new_guard ''pk'')\<lparr>g_lic := Some ''tok''\<rparr>"

definition sample_probed :: inv where
  "sample_probed = fst (probe sample_lic sample_env 8 sample_guard 1 sample_inv)"

definition sample_created :: "(chg, cerror, int) outcome" where
  "sample_created = create_change sample_lic (get_device sample_lic sample_env 9 sample_guard sample_probed) sample_runners 9
     (sample_create_input\<lparr>ci_devices := [1, 1]\<rparr>) (sample_user 1) empty_chg"

lemma create_change_plan_example:
  "map tg_device (filter (\<lambda>t. tg_change t = 1) (targets (fst sample_created))) = [1]"
proof -
  have ok: "snd sample_created = Inr 1" by code_simp
  have run: "create_change sample_lic (get_device sample_lic sample_env 9 sample_guard sample_probed) sample_runners 9
     (sample_create_input\<lparr>ci_devices := [1, 1]\<rparr>) (sample_user 1) empty_chg = (fst sample_created, Inr 1)"
    using ok by (metis prod.collapse sample_created_def)
  have "\<forall>t\<in>set (targets empty_chg). tg_change t < next_change empty_chg" by (simp add: empty_chg_def)
  from create_change_plan [OF run this] show ?thesis by (simp add: sample_create_input_def)
qed

end
