(* ===== verification/Engine.thy ===== *)
theory Engine
  imports Changes "HOL-Library.Multiset"
begin

text \<open>
  The change engine (\<open>internal/changes/engine.go\<close>): when an approved change is due, the estimate
  of its next run, the scheduler's tick with its device locks, and the staged execution of a
  change with canaries, a concurrency limit and a failure limit.

  The goroutines of an execution are modelled as a step relation on the state of the execution:
  the loop over the canaries, the loop that spawns one goroutine per target and blocks on the
  semaphore, the goroutines that have been spawned and not yet checked \<open>stop()\<close>, and those that
  run a target. Each access to the shared counters is one step, in any order.
\<close>

subsection \<open>When a change is due\<close>

type_synonym devinfo = "int \<times> int option"

definition target_devices :: "chg \<Rightarrow> drow list \<Rightarrow> int \<Rightarrow> devinfo list" where
  "target_devices st rows i =
     List.map_filter (\<lambda>t. if tg_change t = i
        then map_option (\<lambda>d. (d_id d, d_group d)) (find_row d_id (tg_device t) rows) else None) (targets st)"

definition due_at :: "int \<Rightarrow> change \<Rightarrow> devinfo list \<Rightarrow> window list \<Rightarrow> time \<Rightarrow> bool" where
  "due_at off c devs ws t =
     (if ch_run_mode c = ''now'' then True
      else if ch_run_mode c = ''at'' then (case ch_run_at c of None \<Rightarrow> False | Some ra \<Rightarrow> ra \<le> t)
      else list_all (\<lambda>d. in_window off ws (snd d) t) devs)"

fun window_cands :: "int \<Rightarrow> window \<Rightarrow> nat \<Rightarrow> time \<Rightarrow> time list" where
  "window_cands off w 0 t = []"
| "window_cands off w (Suc n) t =
     (case next_start off w t of None \<Rightarrow> [] | Some s \<Rightarrow> s # window_cands off w n (s + minute))"

fun best_cand :: "(time \<Rightarrow> bool) \<Rightarrow> time option \<Rightarrow> time list \<Rightarrow> time option" where
  "best_cand due best [] = best"
| "best_cand due best (t # ts) =
     best_cand due (if due t \<and> (case best of None \<Rightarrow> True | Some b \<Rightarrow> t < b) then Some t else best) ts"

definition next_run :: "int \<Rightarrow> time \<Rightarrow> change \<Rightarrow> devinfo list \<Rightarrow> window list \<Rightarrow> time option" where
  "next_run off now c devs ws =
     (if ch_run_mode c = ''now'' then Some now
      else if ch_run_mode c = ''at'' then ch_run_at c
      else best_cand (due_at off c devs ws) None (now # concat (map (\<lambda>w. window_cands off w 8 now) ws)))"

subsection \<open>Work on one target\<close>

text \<open>What a runner's \<open>Run\<close> does: it returns, with or without an error, or it panics.\<close>

datatype run_end = RunOk | RunError string | RunPanic string

definition max_output :: nat where "max_output = 262144"

text \<open>
  \<open>runTarget\<close>: \<open>gr\<close> is what \<open>inv.Get\<close> returns, \<open>bk\<close> what the backup service returns (\<open>None\<close>: there is
  none) and \<open>rn\<close> the runner. The result is the success, the kept output, the error text and the
  identifier of the backup.
\<close>

definition target_result ::
  "'l licapi \<Rightarrow> ierror + device \<Rightarrow> (string + int) option \<Rightarrow> (device \<Rightarrow> string \<times> run_end) option \<Rightarrow> change
     \<Rightarrow> bool \<times> string \<times> string \<times> int option" where
  "target_result L gr bk rn c =
     (case gr of
        Inl e \<Rightarrow> (False, [], ierror_text e, None)
      | Inr d \<Rightarrow>
          if \<not> operational L d then (False, [], ''the device's license is not active'', None)
          else
            let pre = (if ch_backup_first c then bk else None);
                go = (\<lambda>out0 b. case rn of
                         None \<Rightarrow> (False, take max_output out0, ''no runner for '' @ ch_kind c @ '' changes'', b)
                       | Some f \<Rightarrow>
                           (case f d of
                              (out, RunOk) \<Rightarrow> (True, take max_output (out0 @ out), [], b)
                            | (out, RunError e) \<Rightarrow> (False, take max_output (out0 @ out), e, b)
                            | (out, RunPanic e) \<Rightarrow> (False, take max_output (out0 @ out), ''internal error: '' @ e, b)))
            in (case pre of
                  None \<Rightarrow> go [] None
                | Some (Inl e) \<Rightarrow> (False, [], ''backup before the change failed: '' @ e, None)
                | Some (Inr b) \<Rightarrow> go (''# backup #'' @ show_int b @ '' taken before the change'' @ [CHR 0x0A]) (Some b)))"

subsection \<open>Execution of one change\<close>

datatype phase = PhLoad | PhCanary | PhSpawn | PhCommitted target | PhWait | PhDone

text \<open>
  \<open>r_canary\<close> and \<open>r_rest\<close> are the targets their loops have not reached, \<open>r_ready\<close> the spawned
  goroutines that hold a slot of the semaphore and have not checked \<open>stop()\<close> yet, \<open>r_busy\<close> the
  targets in \<open>runOne\<close>, \<open>r_done\<close> those that returned with their success.
\<close>

record run =
  r_change :: change
  r_devs :: "int list"
  r_phase :: phase
  r_canary :: "target list"
  r_rest :: "target list"
  r_ready :: "target list"
  r_busy :: "target list"
  r_done :: "(target \<times> bool) list"
  r_failures :: nat

datatype act = AStart target | AFinish target bool | ANone

definition new_run :: "change \<Rightarrow> int list \<Rightarrow> run" where
  "new_run c devs = \<lparr>r_change = c, r_devs = devs, r_phase = PhLoad, r_canary = [], r_rest = [], r_ready = [],
     r_busy = [], r_done = [], r_failures = 0\<rparr>"

definition load_run :: "target list \<Rightarrow> run \<Rightarrow> run" where
  "load_run ts r =
     (let canary = min (nat (ch_canary (r_change r))) (length ts)
      in r\<lparr>r_phase := PhCanary, r_canary := take canary ts, r_rest := drop canary ts\<rparr>)"

definition stop :: "bool \<Rightarrow> run \<Rightarrow> bool" where
  "stop cancelled r \<longleftrightarrow> int (r_failures r) > ch_max_failures (r_change r) \<or> cancelled"

text \<open>The first argument is \<open>s.cancelled(c.ID)\<close> at the time of the step.\<close>

inductive run_step :: "bool \<Rightarrow> run \<Rightarrow> act \<Rightarrow> run \<Rightarrow> bool" where
  canary_start: "r_phase r = PhCanary \<Longrightarrow> r_busy r = [] \<Longrightarrow> r_canary r = t # ts \<Longrightarrow> \<not> stop x r \<Longrightarrow>
    run_step x r (AStart t) (r\<lparr>r_canary := ts, r_busy := [t]\<rparr>)"
| canary_end: "r_phase r = PhCanary \<Longrightarrow> r_busy r = [] \<Longrightarrow> r_canary r = [] \<or> stop x r \<Longrightarrow>
    run_step x r ANone (r\<lparr>r_phase := (if r_failures r > 0 then PhWait else PhSpawn)\<rparr>)"
| spawn_end: "r_phase r = PhSpawn \<Longrightarrow> r_rest r = [] \<or> stop x r \<Longrightarrow> run_step x r ANone (r\<lparr>r_phase := PhWait\<rparr>)"
| spawn_commit: "r_phase r = PhSpawn \<Longrightarrow> r_rest r = t # ts \<Longrightarrow> \<not> stop x r \<Longrightarrow>
    run_step x r ANone (r\<lparr>r_phase := PhCommitted t, r_rest := ts\<rparr>)"
| spawn_go: "r_phase r = PhCommitted t \<Longrightarrow> int (length (r_ready r) + length (r_busy r)) < ch_concurrency (r_change r) \<Longrightarrow>
    run_step x r ANone (r\<lparr>r_phase := PhSpawn, r_ready := r_ready r @ [t]\<rparr>)"
| go_run: "t \<in> set (r_ready r) \<Longrightarrow> \<not> stop x r \<Longrightarrow>
    run_step x r (AStart t) (r\<lparr>r_ready := remove1 t (r_ready r), r_busy := t # r_busy r\<rparr>)"
| go_stop: "t \<in> set (r_ready r) \<Longrightarrow> stop x r \<Longrightarrow> run_step x r ANone (r\<lparr>r_ready := remove1 t (r_ready r)\<rparr>)"
| finish: "t \<in> set (r_busy r) \<Longrightarrow>
    run_step x r (AFinish t ok) (r\<lparr>r_busy := remove1 t (r_busy r), r_done := (t, ok) # r_done r,
      r_failures := (if ok then r_failures r else Suc (r_failures r))\<rparr>)"
| join_all: "r_phase r = PhWait \<Longrightarrow> r_ready r = [] \<Longrightarrow> r_busy r = [] \<Longrightarrow> run_step x r ANone (r\<lparr>r_phase := PhDone\<rparr>)"

inductive_cases run_stepE: "run_step x r a r'"

definition any_run_step :: "run \<Rightarrow> run \<Rightarrow> bool" where
  "any_run_step r r' \<longleftrightarrow> (\<exists>x a. run_step x r a r')"

text \<open>The targets a run still holds, and those it has started.\<close>

fun committed :: "phase \<Rightarrow> target list" where
  "committed (PhCommitted t) = [t]" | "committed _ = []"

definition pool :: "run \<Rightarrow> target list" where
  "pool r = r_canary r @ r_rest r @ committed (r_phase r) @ r_ready r @ r_busy r"

definition started :: "run \<Rightarrow> target list" where
  "started r = r_busy r @ map fst (r_done r)"

subsection \<open>Invariants of an execution\<close>

lemma run_step_change [simp]: "run_step x r a r' \<Longrightarrow> r_change r' = r_change r"
  by (erule run_step.cases) simp_all

lemma run_step_devs [simp]: "run_step x r a r' \<Longrightarrow> r_devs r' = r_devs r"
  by (erule run_step.cases) simp_all

definition limits_ok :: "run \<Rightarrow> bool" where
  "limits_ok r \<longleftrightarrow>
     int (length (r_ready r) + length (r_busy r)) \<le> ch_concurrency (r_change r) \<and>
     int (r_failures r + length (r_busy r)) \<le> ch_max_failures (r_change r) + ch_concurrency (r_change r) \<and>
     (r_phase r \<in> {PhLoad, PhCanary} \<longrightarrow> r_ready r = [] \<and> length (r_busy r) \<le> 1)"

lemma length_remove1_mem: "t \<in> set xs \<Longrightarrow> length xs = Suc (length (remove1 t xs))"
  by (induction xs) auto

lemma limits_step:
  assumes "run_step x r a r'" and "limits_ok r" and "1 \<le> ch_concurrency (r_change r)" and "0 \<le> ch_max_failures (r_change r)"
  shows "limits_ok r'"
  using assms
proof (cases rule: run_step.cases)
  case (go_run t)
  with assms length_remove1_mem [of t "r_ready r"] show ?thesis by (auto simp: limits_ok_def stop_def)
next
  case (go_stop t)
  with assms length_remove1_mem [of t "r_ready r"] show ?thesis by (auto simp: limits_ok_def)
next
  case (finish t ok)
  with assms length_remove1_mem [of t "r_busy r"] show ?thesis by (auto simp: limits_ok_def)
qed (auto simp: limits_ok_def stop_def)

text \<open>Every held or started target is one of the loaded ones, each at most once.\<close>

definition parts_ok :: "target list \<Rightarrow> run \<Rightarrow> bool" where
  "parts_ok ts r \<longleftrightarrow> mset (pool r @ map fst (r_done r)) \<subseteq># mset ts"

lemma mset_remove1_mem: "t \<in> set xs \<Longrightarrow> mset xs = add_mset t (mset (remove1 t xs))"
  by simp

lemma parts_step:
  assumes "run_step x r a r'"
  shows "mset (pool r' @ map fst (r_done r')) \<subseteq># mset (pool r @ map fst (r_done r))"
  using assms
proof (cases rule: run_step.cases)
  case (go_run t)
  then show ?thesis using mset_remove1_mem [of t "r_ready r"] by (simp add: pool_def)
next
  case (go_stop t)
  then show ?thesis using mset_remove1_mem [of t "r_ready r"] by (simp add: pool_def)
next
  case (finish t ok)
  then show ?thesis using mset_remove1_mem [of t "r_busy r"] by (simp add: pool_def)
qed (auto simp: pool_def)

text \<open>A canary that failed keeps every other target from starting.\<close>

definition canary_ok :: "target set \<Rightarrow> run \<Rightarrow> bool" where
  "canary_ok C r \<longleftrightarrow>
     r_phase r \<noteq> PhLoad \<and> r_failures r = length (filter (\<lambda>p. \<not> snd p) (r_done r)) \<and>
     set (r_canary r) \<subseteq> C \<and> set (r_rest r @ committed (r_phase r) @ r_ready r) \<inter> C = {} \<and>
     (r_phase r \<in> {PhCanary} \<longrightarrow> r_ready r = [] \<and> set (started r) \<subseteq> C) \<and>
     (r_phase r \<notin> {PhCanary} \<longrightarrow> set (r_busy r) \<inter> C = {}) \<and>
     ((\<exists>t\<in>C. (t, False) \<in> set (r_done r)) \<longrightarrow>
        set (started r) \<subseteq> C \<and> r_ready r = [] \<and> r_phase r \<in> {PhCanary, PhWait, PhDone})"

lemma canary_step:
  assumes "run_step x r a r'" and "canary_ok C r"
  shows "canary_ok C r'"
  using assms
proof (cases rule: run_step.cases)
  case (canary_start t ts)
  with assms(2) show ?thesis by (auto simp: canary_ok_def started_def)
next
  case canary_end
  show ?thesis
  proof (cases "r_failures r > 0")
    case True
    with canary_end assms(2) show ?thesis by (auto simp: canary_ok_def started_def)
  next
    case False
    with assms(2) have "filter (\<lambda>p. \<not> snd p) (r_done r) = []" by (simp add: canary_ok_def)
    then have "\<forall>t. (t, False) \<notin> set (r_done r)" by (auto simp: filter_empty_conv)
    with False canary_end assms(2) show ?thesis by (auto simp: canary_ok_def started_def)
  qed
next
  case spawn_end
  with assms(2) show ?thesis by (auto simp: canary_ok_def started_def)
next
  case (spawn_commit t ts)
  with assms(2) show ?thesis by (auto simp: canary_ok_def started_def)
next
  case (spawn_go t)
  with assms(2) show ?thesis by (auto simp: canary_ok_def started_def)
next
  case (go_run t)
  with assms(2) show ?thesis by (auto simp: canary_ok_def started_def dest: subsetD [OF set_remove1_subset])
next
  case (go_stop t)
  with assms(2) show ?thesis by (auto simp: canary_ok_def started_def dest: subsetD [OF set_remove1_subset])
next
  case (finish t ok)
  have sub: "set (remove1 t (r_busy r)) \<subseteq> set (r_busy r)" by (rule set_remove1_subset)
  have st: "set (started r') \<subseteq> set (started r)" using finish(2,3) sub by (auto simp: started_def)
  have rest: "r_canary r' = r_canary r" "r_rest r' = r_rest r" "r_ready r' = r_ready r" "r_phase r' = r_phase r"
    "r_done r' = (t, ok) # r_done r" "r_failures r' = length (filter (\<lambda>p. \<not> snd p) (r_done r'))"
    using finish(2) assms(2) by (simp_all add: canary_ok_def)
  have busy: "set (r_busy r') \<subseteq> set (r_busy r)" using finish(2) sub by simp
  have C: "set (r_canary r) \<subseteq> C" "set (r_rest r @ committed (r_phase r) @ r_ready r) \<inter> C = {}"
    "r_phase r \<in> {PhCanary} \<Longrightarrow> r_ready r = [] \<and> set (started r) \<subseteq> C"
    "r_phase r \<notin> {PhCanary} \<Longrightarrow> set (r_busy r) \<inter> C = {}"
    "\<exists>t\<in>C. (t, False) \<in> set (r_done r) \<Longrightarrow> set (started r) \<subseteq> C \<and> r_ready r = [] \<and> r_phase r \<in> {PhCanary, PhWait, PhDone}"
    using assms(2) by (simp_all add: canary_ok_def)
  have "set (started r') \<subseteq> C \<and> r_ready r' = [] \<and> r_phase r' \<in> {PhCanary, PhWait, PhDone}"
    if "u \<in> C" "(u, False) \<in> set (r_done r')" for u
  proof (cases "(u, False) \<in> set (r_done r)")
    case True
    then show ?thesis using C(5) that(1) st rest by auto
  next
    case False
    then have "u = t" using that(2) rest(5) by auto
    then have "r_phase r = PhCanary" using that(1) C(4) finish(3) by blast
    then show ?thesis using C(3) st rest by auto
  qed
  moreover have "r_phase r' \<noteq> PhLoad" using rest(4) assms(2) by (simp add: canary_ok_def)
  ultimately show ?thesis
    unfolding canary_ok_def rest(1-4) using C rest(6) busy st by blast
next
  case join_all
  with assms(2) show ?thesis by (auto simp: canary_ok_def started_def)
qed

subsection \<open>Termination of an execution\<close>

fun phase_weight :: "phase \<Rightarrow> nat" where
  "phase_weight PhLoad = 4" | "phase_weight PhCanary = 3" | "phase_weight PhSpawn = 2" | "phase_weight (PhCommitted _) = 5"
| "phase_weight PhWait = 1" | "phase_weight PhDone = 0"

definition run_measure :: "run \<Rightarrow> nat" where
  "run_measure r = phase_weight (r_phase r) + 2 * length (r_canary r) + 4 * length (r_rest r) + 2 * length (r_ready r) +
     length (r_busy r)"

lemma run_step_measure: "run_step x r a r' \<Longrightarrow> run_measure r' < run_measure r"
proof (induction rule: run_step.induct)
  case (go_run t r x)
  with length_remove1_mem [of t "r_ready r"] show ?case by (auto simp: run_measure_def)
next
  case (go_stop t r x)
  with length_remove1_mem [of t "r_ready r"] show ?case by (auto simp: run_measure_def)
next
  case (finish t r x ok)
  with length_remove1_mem [of t "r_busy r"] show ?case by (auto simp: run_measure_def)
qed (auto simp: run_measure_def)

lemma run_progress:
  assumes "limits_ok r" and "1 \<le> ch_concurrency (r_change r)" and "r_phase r \<notin> {PhLoad, PhDone}"
  shows "\<exists>a r'. run_step x r a r'"
proof (cases "r_busy r")
  case (Cons t ts)
  then have "run_step x r (AFinish t True) (r\<lparr>r_busy := remove1 t (r_busy r), r_done := (t, True) # r_done r,
      r_failures := (if True then r_failures r else Suc (r_failures r))\<rparr>)" by (intro run_step.finish) simp
  then show ?thesis by blast
next
  case Nil
  show ?thesis
  proof (cases "r_ready r")
    case (Cons t ts)
    then show ?thesis using run_step.go_run [of t r x] run_step.go_stop [of t r x] by (cases "stop x r") auto
  next
    case ready: Nil
    show ?thesis
    proof (cases "r_phase r")
      case PhCanary
      then show ?thesis
        using run_step.canary_start [of r _ _ x] run_step.canary_end [of r x] Nil by (cases "r_canary r"; cases "stop x r") auto
    next
      case PhSpawn
      then show ?thesis
        using run_step.spawn_commit [of r _ _ x] run_step.spawn_end [of r x] by (cases "r_rest r"; cases "stop x r") auto
    next
      case (PhCommitted t)
      then show ?thesis using run_step.spawn_go [of r t x] Nil ready assms(2) by auto
    next
      case PhWait
      then show ?thesis using run_step.join_all [of r x] Nil ready by auto
    qed (use assms(3) in auto)
  qed
qed

subsection \<open>Executions from the start\<close>

lemma any_steps_change: "rtranclp any_run_step r r' \<Longrightarrow> r_change r' = r_change r"
  by (induction rule: rtranclp_induct) (auto simp: any_run_step_def)

lemma load_limits: "limits_ok (load_run ts (new_run c devs))" if "0 \<le> ch_concurrency c" "0 \<le> ch_max_failures c"
  using that by (simp add: limits_ok_def load_run_def new_run_def Let_def)

lemma reach_limits:
  assumes "rtranclp any_run_step (load_run ts (new_run c devs)) r" and "1 \<le> ch_concurrency c" and "0 \<le> ch_max_failures c"
  shows "limits_ok r"
  using assms(1)
proof (induction rule: rtranclp_induct)
  case base
  show ?case using load_limits assms(2,3) by simp
next
  case (step y z)
  have "r_change y = c" using any_steps_change [OF step(1)] by (simp add: load_run_def new_run_def Let_def)
  with step(2,3) assms(2,3) show ?case by (auto simp: any_run_step_def intro: limits_step)
qed

lemma reach_parts:
  "rtranclp any_run_step (load_run ts (new_run c devs)) r \<Longrightarrow> mset (pool r @ map fst (r_done r)) \<subseteq># mset ts"
proof (induction rule: rtranclp_induct)
  case base
  have "mset (take n ts) + mset (drop n ts) = mset ts" for n by (metis append_take_drop_id mset_append)
  then show ?case by (simp add: pool_def load_run_def new_run_def Let_def)
next
  case (step y z)
  then show ?case unfolding any_run_step_def using parts_step subset_mset.order_trans by blast
qed

lemma reach_canary:
  assumes "distinct ts" and "rtranclp any_run_step (load_run ts (new_run c devs)) r"
  shows "canary_ok (set (take (min (nat (ch_canary c)) (length ts)) ts)) r"
  using assms(2)
proof (induction rule: rtranclp_induct)
  case base
  have "set (drop n ts) \<inter> set (take n ts) = {}" for n
    using set_take_disj_set_drop_if_distinct [OF assms(1), of n n] by (simp add: Int_commute)
  then show ?case by (simp add: canary_ok_def load_run_def new_run_def Let_def started_def)
next
  case (step y z)
  then show ?case by (auto simp: any_run_step_def intro: canary_step)
qed

subsection \<open>Properties of an execution\<close>

text \<open>
  C8: an execution never works on more devices at once than its concurrency limit, and at most
  that many failures beyond its failure limit can occur, whatever the order of the goroutines
  and whenever the change is cancelled.
\<close>

theorem execution_limits:
  assumes "rtranclp any_run_step (load_run ts (new_run c devs)) r" and "1 \<le> ch_concurrency c" and "0 \<le> ch_max_failures c"
  shows "int (length (r_ready r) + length (r_busy r)) \<le> ch_concurrency c \<and>
     int (r_failures r) \<le> ch_max_failures c + ch_concurrency c \<and>
     (r_phase r = PhCanary \<longrightarrow> length (r_busy r) \<le> 1)"
proof -
  have "r_change r = c" using any_steps_change [OF assms(1)] by (simp add: load_run_def new_run_def Let_def)
  with reach_limits [OF assms] show ?thesis by (auto simp: limits_ok_def)
qed

definition sample_change :: change where
  "sample_change = new_change 0 1 1 sample_create_input (sample_user 1) \<lparr>ch_concurrency := 2, ch_canary := 1\<rparr>"

definition sample_target :: "int \<Rightarrow> target" where
  "sample_target i = \<lparr>tg_id = i, tg_change = 1, tg_device = 10 + i, tg_position = i, tg_status = TgPending, tg_preview = [],
     tg_output = [], tg_error = [], tg_pre_backup = None, tg_started = None, tg_finished = None\<rparr>"

definition sample_loaded :: run where
  "sample_loaded = load_run (map sample_target [0, 1]) (new_run sample_change [10, 11])"

definition sample_failed :: run where
  "sample_failed = sample_loaded\<lparr>r_canary := [], r_done := [(sample_target 0, False)], r_failures := 1\<rparr>"

lemma sample_change_fields:
  "ch_canary sample_change = 1" "ch_concurrency sample_change = 2" "ch_max_failures sample_change = 0"
  by (simp_all add: sample_change_def new_change_def sample_create_input_def)

lemma sample_failed_reachable: "rtranclp any_run_step sample_loaded sample_failed"
proof -
  note defs = sample_loaded_def load_run_def new_run_def Let_def sample_change_fields
  have "any_run_step sample_loaded (sample_loaded\<lparr>r_canary := [], r_busy := [sample_target 0]\<rparr>)"
    unfolding any_run_step_def
    by (intro exI) (rule run_step.canary_start [where x = False and ts = "[]" and t = "sample_target 0"],
        simp_all add: defs stop_def)
  moreover have "any_run_step (sample_loaded\<lparr>r_canary := [], r_busy := [sample_target 0]\<rparr>) sample_failed"
  proof -
    have "run_step False (sample_loaded\<lparr>r_canary := [], r_busy := [sample_target 0]\<rparr>) (AFinish (sample_target 0) False) sample_failed"
      using run_step.finish [of "sample_target 0" "sample_loaded\<lparr>r_canary := [], r_busy := [sample_target 0]\<rparr>" False False]
      by (simp add: sample_failed_def defs)
    then show ?thesis unfolding any_run_step_def by blast
  qed
  ultimately show ?thesis by (meson rtranclp.rtrancl_into_rtrancl rtranclp.rtrancl_refl)
qed

theorem execution_limits_witness: "int (r_failures sample_failed) \<le> 0 + 2"
  using execution_limits [OF sample_failed_reachable [unfolded sample_loaded_def]] by (simp add: sample_change_fields)

text \<open>
  C9: when one of the first \<open>canary\<close> devices fails, no other device is ever started: everything
  that has been started is a canary and no goroutine is waiting to start.
\<close>

theorem canary_failure_stops:
  assumes "rtranclp any_run_step (load_run ts (new_run c devs)) r" and "distinct ts"
    and "t \<in> set (take (nat (ch_canary c)) ts)" and "(t, False) \<in> set (r_done r)"
  shows "set (started r) \<subseteq> set (take (nat (ch_canary c)) ts) \<and> r_ready r = []"
proof -
  have "take (min (nat (ch_canary c)) (length ts)) ts = take (nat (ch_canary c)) ts"
    by (simp add: min_def)
  with reach_canary [OF assms(2,1)] assms(3,4) show ?thesis by (auto simp: canary_ok_def)
qed

theorem canary_failure_stops_witness: "set (started sample_failed) \<subseteq> {sample_target 0}"
proof -
  have "distinct (map sample_target [0, 1])" by (simp add: sample_target_def)
  from canary_failure_stops [OF sample_failed_reachable [unfolded sample_loaded_def] this, of "sample_target 0"]
  show ?thesis by (simp add: sample_change_fields sample_failed_def)
qed

text \<open>
  C15: every execution ends: each step brings it nearer to its end, from every state it can reach
  some step is possible until it is done, whether or not the change is cancelled, and when it is
  done no target is running or waiting to start.
\<close>

theorem execution_terminates:
  assumes "rtranclp any_run_step (load_run ts (new_run c devs)) r" and "1 \<le> ch_concurrency c" and "0 \<le> ch_max_failures c"
  shows "wf {(r', r). any_run_step r r'} \<and> (r_phase r \<noteq> PhDone \<longrightarrow> (\<forall>x. \<exists>a r'. run_step x r a r')) \<and>
     (r_phase r = PhDone \<longrightarrow> r_busy r = [] \<and> r_ready r = [])"
proof -
  have change: "r_change r = c" using any_steps_change [OF assms(1)] by (simp add: load_run_def new_run_def Let_def)
  have loaded: "r_phase r \<noteq> PhLoad \<and> (r_phase r = PhDone \<longrightarrow> r_busy r = [] \<and> r_ready r = [])"
    using assms(1)
  proof (induction rule: rtranclp_induct)
    case base
    show ?case by (simp add: load_run_def new_run_def Let_def)
  next
    case (step y z)
    then show ?case unfolding any_run_step_def
      by (elim exE) (erule run_step.cases, auto split: if_splits)
  qed
  have "wf {(r', r). any_run_step r r'}"
    by (rule wf_subset [OF wf_measure [of run_measure]]) (auto simp: any_run_step_def intro: run_step_measure)
  moreover have "\<exists>a r'. run_step x r a r'" if "r_phase r \<noteq> PhDone" for x
    using run_progress [OF reach_limits [OF assms]] loaded that change assms(2) by simp
  ultimately show ?thesis using loaded by blast
qed

theorem execution_terminates_witness: "\<exists>a r'. run_step True sample_failed a r'"
proof -
  have "r_phase sample_failed = PhCanary" by (simp add: sample_failed_def sample_loaded_def load_run_def Let_def)
  with execution_terminates [OF sample_failed_reachable [unfolded sample_loaded_def]] show ?thesis
    by (auto simp: sample_change_fields)
qed

subsection \<open>The estimate of the next run\<close>

text \<open>
  \<open>next\<close> answers with the start of the open occurrence when there is one, and the loop of
  \<open>nextRun\<close> asks again one minute after the start, inside that occurrence: its eight rounds give
  eight times the same opening.
\<close>

lemma next_start_again:
  assumes "next_start off w t = Some s" and "2 \<le> w_minutes w" and "w_minutes w \<le> 1440"
  shows "next_start off w (s + minute) = Some s"
proof -
  have "open_at off w (s + minute) = Some s"
    by (rule open_at_complete [OF next_start_occurrence [OF assms(1)]]) (use assms in simp_all)
  then show ?thesis by (simp add: next_start_def)
qed

lemma window_cands_stuck:
  "next_start off w t = Some s \<Longrightarrow> 2 \<le> w_minutes w \<Longrightarrow> w_minutes w \<le> 1440 \<Longrightarrow> window_cands off w n t = replicate n s"
proof (induction n arbitrary: t)
  case (Suc n)
  then show ?case using next_start_again [OF Suc.prems] by simp
qed simp

definition window_a :: window where
  "window_a = \<lparr>w_id = 1, w_name = ''a'', w_group = Some 1, w_weekdays = [0, 3], w_start_time = ''2:00'', w_minutes = 60, w_enabled = True\<rparr>"

definition window_b :: window where
  "window_b = \<lparr>w_id = 2, w_name = ''b'', w_group = Some 2, w_weekdays = [1, 3], w_start_time = ''2:00'', w_minutes = 60, w_enabled = True\<rparr>"

definition windowed_change :: change where
  "windowed_change = sample_change\<lparr>ch_run_mode := ''window''\<rparr>"

text \<open>
  The estimate misses runs: for a change on two groups whose windows are open together on
  Wednesdays and apart on Sundays and Mondays, \<open>nextRun\<close> on a Saturday finds no time at all, though
  the change is due on the Wednesday of the same week.
\<close>

lemma next_run_misses:
  "next_run 0 (2 * day) windowed_change [(1, Some 1), (2, Some 2)] [window_a, window_b] = None \<and>
   due_at 0 windowed_change [(1, Some 1), (2, Some 2)] [window_a, window_b] (6 * day + 2 * hour)"
  by code_simp

subsection \<open>The scheduler\<close>

text \<open>
  The tables, the devices under a running change (\<open>s.running\<close>), the running changes asked to stop
  (\<open>s.cancel\<close>) and the executions in progress by change.
\<close>

record engine =
  en_db :: chg
  en_locked :: "int set"
  en_stops :: "int set"
  en_runs :: "int \<rightharpoonup> run"

definition lock_devices :: "int list \<Rightarrow> int set \<Rightarrow> int set option" where
  "lock_devices ids locked = (if list_ex (\<lambda>i. i \<in> locked) ids then None else Some (locked \<union> set ids))"

definition unlock_devices :: "int list \<Rightarrow> int set \<Rightarrow> int set" where
  "unlock_devices ids locked = locked - set ids"

text \<open>One iteration of the loop of \<open>Tick\<close>.\<close>

definition tick_one :: "int \<Rightarrow> time \<Rightarrow> drow list \<Rightarrow> window list \<Rightarrow> change \<Rightarrow> engine \<Rightarrow> engine" where
  "tick_one off now rows ws c e =
     (let devs = target_devices (en_db e) rows (ch_id c); ids = map fst devs in
      if \<not> due_at off c devs ws now then e
      else case lock_devices ids (en_locked e) of
             None \<Rightarrow> e
           | Some locked \<Rightarrow>
               if \<not> list_ex (\<lambda>r. ch_id r = ch_id c \<and> ch_status r = ChApproved) (changes (en_db e))
               then e\<lparr>en_locked := unlock_devices ids locked\<rparr>
               else e\<lparr>en_db := start_change now (ch_id c) (en_db e), en_locked := locked,
                      en_runs := (en_runs e)(ch_id c \<mapsto> new_run c ids)\<rparr>)"

definition tick :: "int \<Rightarrow> time \<Rightarrow> drow list \<Rightarrow> engine \<Rightarrow> engine" where
  "tick off now rows e =
     foldl (\<lambda>e c. tick_one off now rows (windows (en_db e)) c e) e
       (rev (map cv_change (list_changes [] (Some ChApproved) (en_db e))))"

text \<open>The effect of a step of an execution on the tables.\<close>

definition end_run :: "time \<Rightarrow> int \<Rightarrow> run \<Rightarrow> engine \<Rightarrow> engine" where
  "end_run now i r e =
     e\<lparr>en_db := finish_change now i (i \<in> en_stops e) (en_db e), en_stops := en_stops e - {i},
       en_locked := unlock_devices (r_devs r) (en_locked e), en_runs := (en_runs e)(i := None)\<rparr>"

definition restart :: "time \<Rightarrow> engine \<Rightarrow> engine" where
  "restart now e = \<lparr>en_db = recover now (en_db e), en_locked = {}, en_stops = {}, en_runs = Map.empty\<rparr>"

text \<open>The operations of users on changes (\<open>Cancel\<close> apart) and on devices.\<close>

inductive user_step :: "'l licapi \<Rightarrow> chg \<Rightarrow> chg \<Rightarrow> bool" for L where
  "create_change L (get_device L V clk g iv) runners now i by st = (st', r) \<Longrightarrow> user_step L st st'"
| "submit now i by st = (st', u) \<Longrightarrow> user_step L st st'"
| "decide now i by ok comment st = (st', u) \<Longrightarrow> user_step L st st'"
| "run_now i by reason st = (st', u) \<Longrightarrow> user_step L st st'"
| "save_window group_exists w st = (st', r) \<Longrightarrow> user_step L st st'"
| "delete_window i st = (st', u) \<Longrightarrow> user_step L st st'"
| "set_policy group_exists g required st = (st', u) \<Longrightarrow> user_step L st st'"
| "user_step L st (delete_policy i st)"
| "user_step L st (forget_device d st)"

text \<open>
  A step of the server: the rows of the devices a tick reads contain every target's device (a
  foreign key), and executions read their targets once, when they start.
\<close>

inductive eng_step :: "'l licapi \<Rightarrow> engine \<Rightarrow> engine \<Rightarrow> bool" for L where
  user: "user_step L (en_db e) db \<Longrightarrow> eng_step L e (e\<lparr>en_db := db\<rparr>)"
| cancel: "cancel i by (en_db e, en_stops e) = ((db, stops), u) \<Longrightarrow> eng_step L e (e\<lparr>en_db := db, en_stops := stops\<rparr>)"
| tick: "\<forall>t\<in>set (targets (en_db e)). tg_device t \<in> d_id ` set rows \<Longrightarrow> eng_step L e (tick_one off now rows ws c e)"
| load: "en_runs e i = Some r \<Longrightarrow> r_phase r = PhLoad \<Longrightarrow>
    eng_step L e (e\<lparr>en_runs := (en_runs e)(i \<mapsto> load_run (targets_of i (en_db e)) r)\<rparr>)"
| quiet: "en_runs e i = Some r \<Longrightarrow> run_step (i \<in> en_stops e) r ANone r' \<Longrightarrow>
    eng_step L e (e\<lparr>en_runs := (en_runs e)(i \<mapsto> r')\<rparr>)"
| start: "en_runs e i = Some r \<Longrightarrow> run_step (i \<in> en_stops e) r (AStart t) r' \<Longrightarrow>
    eng_step L e (e\<lparr>en_db := start_target now (tg_id t) (en_db e), en_runs := (en_runs e)(i \<mapsto> r')\<rparr>)"
| finish: "en_runs e i = Some r \<Longrightarrow> run_step (i \<in> en_stops e) r (AFinish t ok) r' \<Longrightarrow>
    target_result L gr bk rn (r_change r) = (ok, out, msg, pre) \<Longrightarrow>
    eng_step L e (e\<lparr>en_db := finish_target now (tg_id t) ok out msg pre (en_db e), en_runs := (en_runs e)(i \<mapsto> r')\<rparr>)"
| finished: "en_runs e i = Some r \<Longrightarrow> r_phase r = PhDone \<Longrightarrow> eng_step L e (end_run now i r e)"
| restart: "eng_step L e (restart now e)"

definition empty_engine :: engine where
  "empty_engine = \<lparr>en_db = empty_chg, en_locked = {}, en_stops = {}, en_runs = Map.empty\<rparr>"

subsection \<open>The invariant of the server\<close>

definition running :: "chg \<Rightarrow> int \<Rightarrow> bool" where
  "running db i \<longleftrightarrow> (\<exists>c. find_row ch_id i (changes db) = Some c \<and> ch_status c = ChRunning)"

definition targets_ok :: "chg \<Rightarrow> bool" where
  "targets_ok db \<longleftrightarrow>
     distinct (map tg_id (targets db)) \<and> distinct (map (\<lambda>t. (tg_change t, tg_device t)) (targets db)) \<and>
     (\<forall>t\<in>set (targets db). tg_id t < next_target db \<and> tg_change t < next_change db)"

text \<open>
  \<open>db'\<close> has no target but those of \<open>db\<close> and those of changes that are new in it, and none that
  runs and did not.
\<close>

definition same_rows :: "chg \<Rightarrow> chg \<Rightarrow> bool" where
  "same_rows db db' \<longleftrightarrow> next_target db \<le> next_target db' \<and> next_change db \<le> next_change db' \<and>
     (\<forall>u\<in>set (targets db'). (next_change db \<le> tg_change u \<and> next_target db \<le> tg_id u) \<or>
        (\<exists>t\<in>set (targets db). tg_id t = tg_id u \<and> tg_change t = tg_change u \<and> tg_device t = tg_device u))"

definition no_new_running :: "chg \<Rightarrow> chg \<Rightarrow> bool" where
  "no_new_running db db' \<longleftrightarrow>
     (\<forall>u\<in>set (targets db'). tg_status u = TgRunning \<longrightarrow>
        (\<exists>t\<in>set (targets db). tg_id t = tg_id u \<and> tg_change t = tg_change u \<and> tg_status t = TgRunning))"

definition frame :: "chg \<Rightarrow> chg \<Rightarrow> bool" where
  "frame db db' \<longleftrightarrow> same_rows db db' \<and> no_new_running db db'"

definition calm :: "chg \<Rightarrow> chg \<Rightarrow> bool" where
  "calm db db' \<longleftrightarrow> targets_ok db' \<and> running db' = running db \<and> frame db db'"

lemma running_same: "changes db' = changes db \<Longrightarrow> running db' = running db"
  by (rule ext) (simp add: running_def)

lemma running_set_change:
  assumes "\<And>c. ch_id (f c) = ch_id c"
    and "\<And>c. c \<in> set (changes db) \<Longrightarrow> P c \<Longrightarrow> (ch_status (f c) = ChRunning) = (ch_status c = ChRunning)"
  shows "running (set_change P f db) = running db"
proof
  fix i
  show "running (set_change P f db) i = running db i"
    unfolding running_def find_set_change [OF assms(1)]
    using assms(2) find_row_Some [of ch_id i "changes db"] by (cases "find_row ch_id i (changes db)") auto
qed

lemma frame_sub:
  assumes "set (targets db') \<subseteq> set (targets db)" "next_target db' = next_target db" "next_change db' = next_change db"
  shows "frame db db'"
  unfolding frame_def same_rows_def no_new_running_def using assms by auto

lemma frame_set_targets:
  assumes "\<And>t. tg_id (f t) = tg_id t" "\<And>t. tg_change (f t) = tg_change t" "\<And>t. tg_device (f t) = tg_device t"
  shows "same_rows db (set_targets P f db)"
    and "(\<And>t. P t \<Longrightarrow> tg_status (f t) \<noteq> TgRunning) \<Longrightarrow> frame db (set_targets P f db)"
proof -
  show sr: "same_rows db (set_targets P f db)"
    unfolding same_rows_def by (auto simp: set_upd_rows assms set_targets_def)
  show "frame db (set_targets P f db)" if fin: "\<And>t. P t \<Longrightarrow> tg_status (f t) \<noteq> TgRunning"
    unfolding frame_def
  proof (rule conjI [OF sr])
    show "no_new_running db (set_targets P f db)"
      unfolding no_new_running_def
    proof (intro ballI impI)
      fix u
      assume u: "u \<in> set (targets (set_targets P f db))" "tg_status u = TgRunning"
      then obtain t where "t \<in> set (targets db)" "u = (if P t then f t else t)" by (auto simp: set_upd_rows)
      with u(2) fin show "\<exists>t\<in>set (targets db). tg_id t = tg_id u \<and> tg_change t = tg_change u \<and> tg_status t = TgRunning"
        by (auto split: if_splits)
    qed
  qed
qed

lemma targets_ok_same:
  "targets db' = targets db \<Longrightarrow> next_target db' = next_target db \<Longrightarrow> next_change db' = next_change db \<Longrightarrow> targets_ok db \<Longrightarrow> targets_ok db'"
  by (simp add: targets_ok_def)

lemma next_target_fields [simp]:
  "next_target (log_change by a i d st) = next_target st" "next_target (set_targets P f st) = next_target st"
  "next_target (set_change Q h st) = next_target st"
  by (simp_all add: log_change_def set_targets_def set_change_def)

lemma running_fields [simp]:
  "running (log_change by a i d st) = running st" "running (set_targets P f st) = running st"
  by (rule running_same, simp)+

lemma targets_ok_fields [simp]:
  "targets_ok (log_change by a i d st) = targets_ok st" "targets_ok (set_change Q h st) = targets_ok st"
  by (simp_all add: targets_ok_def)

lemma calm_same:
  "targets db' = targets db \<Longrightarrow> next_target db' = next_target db \<Longrightarrow> next_change db' = next_change db \<Longrightarrow>
   running db' = running db \<Longrightarrow> targets_ok db \<Longrightarrow> calm db db'"
  by (simp add: calm_def targets_ok_same frame_sub)

subsection \<open>Operations of users\<close>

lemma create_calm:
  assumes ok: "chg_ok st" "targets_ok st"
    and run: "create_change L (get_device L V clk g iv) runners now i by st = (st', r)"
  shows "calm st st'"
proof (cases "st' = st")
  case True
  with ok show ?thesis by (simp add: calm_same)
next
  case False
  then obtain pv n plans where n: "normal_input now i = Inr n"
    and pl: "plan_devices L (get_device L V clk g iv) pv (ci_spec n) (ci_devices n) [] [] = Inr (plans, [])"
    and ts: "targets st' = targets st @ new_targets (next_change st) (next_target st) 0 plans"
    and cs: "changes st' = changes st @ [new_change now (next_change st) (required_for st (map (\<lambda>p. d_group (fst p)) plans)) n by]"
    and nx: "next_target st' = next_target st + int (length plans)" "next_change st' = next_change st + 1"
    using run by (auto simp: create_change_def Let_def split: option.splits sum.splits if_splits)
  have dist: "distinct (ci_devices n)"
    using n by (auto simp: normal_input_def normal_run_def Let_def keep_order_nil split: if_splits sum.splits option.splits)
  have all: "list_all2 (\<lambda>j p. get_device L V clk g iv j = Inr (fst p)) (ci_devices n) plans"
    using plan_devices_result [OF pl] by (auto elim!: list_all2_mono)
  have ids: "map (\<lambda>p. d_id (fst p)) plans = ci_devices n"
    using all by (induction rule: list_all2_induct) (auto dest: get_device_id)
  let ?new = "new_targets (next_change st) (next_target st) 0 plans"
  have new_ids: "\<forall>t\<in>set (new_targets c tid pos ps). tid \<le> tg_id t \<and> tg_id t < tid + int (length ps)"
    and new_dist: "distinct (map tg_id (new_targets c tid pos ps))" for c tid pos ps
    by (induction c tid pos ps rule: new_targets.induct) fastforce+
  have new_dev: "map (\<lambda>t. (tg_change t, tg_device t)) (new_targets c tid pos ps) = map (\<lambda>p. (c, d_id (fst p))) ps" for c tid pos ps
    by (induction c tid pos ps rule: new_targets.induct) auto
  have nd: "distinct (map (\<lambda>t. (tg_change t, tg_device t)) ?new)"
  proof -
    have "map (\<lambda>p. (next_change st, d_id (fst p))) plans = map (Pair (next_change st)) (ci_devices n)"
      by (simp flip: ids add: comp_def)
    moreover have "distinct (map (Pair (next_change st)) (ci_devices n))"
      using dist by (simp add: distinct_map inj_on_def)
    ultimately show ?thesis by (simp only: new_dev)
  qed
  note new_ch = map_new_targets(2) [of "next_change st" "next_target st" 0 plans]
  have old: "\<forall>t\<in>set (targets st). tg_id t < next_target st \<and> tg_change t < next_change st"
    using ok(2) by (simp add: targets_ok_def)
  have "targets_ok st'"
    unfolding targets_ok_def
  proof (intro conjI)
    show "distinct (map tg_id (targets st'))"
      using ok(2) new_dist new_ids [of "next_change st" "next_target st" 0 plans] old by (fastforce simp: ts targets_ok_def)
    show "distinct (map (\<lambda>t. (tg_change t, tg_device t)) (targets st'))"
      using ok(2) nd new_ch old by (fastforce simp: ts targets_ok_def)
    show "\<forall>t\<in>set (targets st'). tg_id t < next_target st' \<and> tg_change t < next_change st'"
      using old new_ids [of "next_change st" "next_target st" 0 plans] new_ch by (fastforce simp: ts nx)
  qed
  moreover have "running st' = running st"
  proof
    fix j
    show "running st' j = running st j"
      using chg_okD(2) [OF ok(1)]
      by (auto simp: running_def cs find_row_append find_row_Cons new_change_def split: option.splits dest: find_row_Some)
  qed
  moreover have "frame st st'"
  proof -
    have "next_target st \<le> tg_id t" if "t \<in> set ?new" for t
      using new_ids [of "next_change st" "next_target st" 0 plans] that by blast
    then show ?thesis
      using new_ch unfolding frame_def same_rows_def no_new_running_def ts nx by auto
  qed
  ultimately show ?thesis by (simp add: calm_def)
qed

lemma set_change_calm:
  assumes "targets_ok st" and "\<And>c. ch_id (f c) = ch_id c"
    and "\<And>c. c \<in> set (changes st) \<Longrightarrow> P c \<Longrightarrow> (ch_status (f c) = ChRunning) = (ch_status c = ChRunning)"
  shows "calm st (log_change by a i d (set_change P f st))"
  by (rule calm_same) (simp_all add: assms running_set_change)

lemma calm_refl: "targets_ok st \<Longrightarrow> calm st st"
  by (simp add: calm_same)

lemma submit_calm:
  assumes ok: "chg_ok st" "targets_ok st" and run: "submit now i by st = (st', u)"
  shows "calm st st'"
proof (cases "st' = st")
  case True
  with ok show ?thesis by (simp add: calm_refl)
next
  case False
  let ?f = "\<lambda>c. c\<lparr>ch_submitted := Some now, ch_status := (if ch_required c = 0 then ChApproved else ch_status c)\<rparr>"
  let ?t = "set_change (\<lambda>c. ch_id c = i \<and> ch_status c \<in> set [ChDraft]) (\<lambda>c. c\<lparr>ch_status := ChPending\<rparr>) st"
  have ex: "list_ex (\<lambda>c. ch_id c = i \<and> ch_status c \<in> set [ChDraft]) (changes st)"
    and st': "st' = log_change by ''change.submit'' i [] (set_change (\<lambda>c. ch_id c = i) ?f ?t)"
    using run False by (auto simp: submit_def in_tx_def transition_def split: sum.splits if_splits)
  have draft: "ch_status d = ChDraft" if "d \<in> set (changes st)" "ch_id d = i" for d
    using found_status [OF ok(1) ex] find_row_distinct [OF chg_okD(1) [OF ok(1)] that(1)] that(2) by simp
  have pend: "ch_status d = ChPending" if d: "d \<in> set (changes ?t)" "ch_id d = i" for d
  proof -
    obtain d0 where "d0 \<in> set (changes st)"
      "d = (if ch_id d0 = i \<and> ch_status d0 \<in> set [ChDraft] then d0\<lparr>ch_status := ChPending\<rparr> else d0)"
      using d(1) by (auto simp: set_upd_rows)
    with draft [of d0] d(2) show ?thesis by (auto split: if_splits)
  qed
  have "running (set_change (\<lambda>c. ch_id c = i) ?f ?t) = running ?t"
    by (rule running_set_change) (simp_all add: pend)
  also have "\<dots> = running st" by (rule running_set_change) auto
  finally show ?thesis by (intro calm_same) (simp_all add: st' ok(2))
qed

lemma decide_calm:
  assumes ok: "chg_ok st" "targets_ok st" and run: "decide now i by good comment st = (st', u)"
  shows "calm st st'"
proof (cases "decide_tx now i by good comment st")
  case (Inl e)
  with run ok(2) show ?thesis by (simp add: decide_def in_tx_def calm_refl)
next
  case (Inr s)
  then show ?thesis
  proof (rule decide_txE)
    fix c st2 a d
    let ?st1 = "add_decision now i by good comment st"
    assume c: "find_row ch_id i (changes st) = Some c" "ch_status c = ChPending"
      and st2: "apply_decision i good ?st1 = Inr st2" and s: "s = log_change by a i d st2"
    have st1: "changes ?st1 = changes st" "targets ?st1 = targets st" "next_target ?st1 = next_target st"
      "next_change ?st1 = next_change st" by (simp_all add: add_decision_def)
    have pend: "ch_status d = ChPending" if "d \<in> set (changes ?st1)" "ch_id d = i" for d
      using find_row_distinct [OF chg_okD(1) [OF ok(1)], of d] that c by (simp add: st1)
    obtain P to where P: "st2 = set_change P (\<lambda>c. c\<lparr>ch_status := to\<rparr>) ?st1" "to \<noteq> ChRunning" "\<And>c. P c \<Longrightarrow> ch_id c = i"
      using st2 by (auto simp: apply_decision_def transition_def split: if_splits)
    have "running st2 = running ?st1"
      unfolding P(1) by (rule running_set_change) (auto simp: P(2) pend dest: P(3))
    also have "\<dots> = running st" by (rule running_same) (rule st1)
    finally have "calm st s'" if "s' = log_change by a i d st2" for s'
      using that by (intro calm_same) (simp_all add: P(1) st1 ok(2))
    moreover have "st' = s" using run Inr by (simp add: decide_def in_tx_def)
    ultimately show ?thesis using s by simp
  qed
qed

lemma run_now_calm:
  assumes ok: "targets_ok st" and run: "run_now i by reason st = (st', u)"
  shows "calm st st'"
proof (cases "st' = st")
  case True
  with ok show ?thesis by (simp add: calm_refl)
next
  case False
  let ?f = "\<lambda>c. c\<lparr>ch_run_mode := ''now'', ch_urgent := trim_space reason\<rparr>"
  obtain a d where st': "st' = log_change by a i d (set_change (\<lambda>c. ch_id c = i \<and> ch_status c \<in> {ChApproved, ChPending, ChDraft}) ?f st)"
    using run False by (auto simp: run_now_def Let_def in_tx_def split: if_splits sum.splits)
  show ?thesis unfolding st' by (rule set_change_calm [OF ok]) auto
qed

lemma settings_calm:
  assumes "targets_ok st"
  shows "save_window ge w st = (st', r) \<Longrightarrow> calm st st'" and "delete_window i st = (st', u) \<Longrightarrow> calm st st'"
    and "set_policy ge g n st = (st', u) \<Longrightarrow> calm st st'" and "calm st (delete_policy i st)"
proof -
  have same: "calm st s" if "changes s = changes st" "targets s = targets st" "next_target s = next_target st"
    "next_change s = next_change st" for s
    using calm_same [OF that(2-4) running_same [OF that(1)] assms] .
  show "save_window ge w st = (st', r) \<Longrightarrow> calm st st'"
    by (rule same) (auto simp: save_window_def Let_def split: sum.splits if_splits)
  show "delete_window i st = (st', u) \<Longrightarrow> calm st st'" by (rule same) (auto simp: delete_window_def split: if_splits)
  show "set_policy ge g n st = (st', u) \<Longrightarrow> calm st st'" by (rule same) (auto simp: set_policy_def split: if_splits)
  show "calm st (delete_policy i st)" by (rule same) (simp_all add: delete_policy_def)
qed

lemma targets_ok_del: "targets_ok st \<Longrightarrow> targets_ok (forget_device d st)"
  by (simp add: targets_ok_def forget_device_def distinct_del_rows)

lemma frame_del: "frame st (forget_device d st)"
  by (rule frame_sub) (auto simp: forget_device_def)

lemma forget_calm: "targets_ok st \<Longrightarrow> calm st (forget_device d st)"
  unfolding calm_def
  by (intro conjI targets_ok_del frame_del running_same) (simp_all add: forget_device_def)

lemma user_calm: "user_step L st st' \<Longrightarrow> chg_ok st \<Longrightarrow> targets_ok st \<Longrightarrow> calm st st'"
  by (induction rule: user_step.induct)
    (blast intro: create_calm submit_calm decide_calm run_now_calm settings_calm forget_calm)+

lemma user_chg_ok: "user_step L st st' \<Longrightarrow> chg_ok st \<Longrightarrow> chg_ok st'"
  by (induction rule: user_step.induct) (erule chg_preserved; assumption)+

text \<open>Updates of the targets of a change that is not running, and of single targets.\<close>

lemma targets_ok_set_targets:
  assumes "targets_ok st" and kept: "\<And>t. tg_id (f t) = tg_id t" "\<And>t. tg_change (f t) = tg_change t" "\<And>t. tg_device (f t) = tg_device t"
  shows "targets_ok (set_targets P f st)"
proof -
  have "map tg_id (upd_rows P f (targets st)) = map tg_id (targets st)"
    "map (\<lambda>t. (tg_change t, tg_device t)) (upd_rows P f (targets st)) = map (\<lambda>t. (tg_change t, tg_device t)) (targets st)"
    by (simp_all add: upd_rows_def kept)
  with assms show ?thesis by (auto simp: targets_ok_def set_upd_rows)
qed

lemma cancel_calm:
  assumes ok: "chg_ok st" "targets_ok st" and run: "cancel i by (st, stops) = ((st', stops'), u)"
  shows "calm st st'"
proof (cases "cancel_tx i by st")
  case (Inl e)
  with run ok(2) show ?thesis
    by (auto simp: cancel_def calm_refl intro!: calm_same split: option.splits if_splits)
next
  case (Inr s)
  let ?S = "set [ChDraft, ChPending, ChApproved]"
  let ?st1 = "set_change (\<lambda>c. ch_id c = i \<and> ch_status c \<in> ?S) (\<lambda>c. c\<lparr>ch_status := ChCancelled\<rparr>) st"
  have s: "s = log_change by ''change.cancel'' i [] (set_targets (\<lambda>t. tg_change t = i \<and> tg_status t = TgPending)
      (\<lambda>t. t\<lparr>tg_status := TgSkipped\<rparr>) ?st1)"
    using Inr by (auto simp: cancel_tx_def transition_def split: sum.splits if_splits)
  have "running ?st1 = running st" by (rule running_set_change) auto
  moreover have "targets_ok s" unfolding s using ok(2) by (simp add: targets_ok_set_targets)
  moreover have "frame st s"
  proof -
    have "frame ?st1 (set_targets (\<lambda>t. tg_change t = i \<and> tg_status t = TgPending) (\<lambda>t. t\<lparr>tg_status := TgSkipped\<rparr>) ?st1)"
      by (rule frame_set_targets) simp_all
    then show ?thesis by (simp add: frame_def same_rows_def no_new_running_def s)
  qed
  ultimately have "calm st s" by (simp add: calm_def s)
  moreover have "st' = s" using Inr run by (simp add: cancel_def)
  ultimately show ?thesis by simp
qed

subsection \<open>Executions and tables together\<close>

text \<open>
  What holds of the execution of change \<open>i\<close>: it keeps its devices locked, every target of the
  change and every target it holds is on one of them, no two it holds are on the same device,
  and its targets are rows of this change.
\<close>

definition rows_ok :: "chg \<Rightarrow> int \<Rightarrow> run \<Rightarrow> bool" where
  "rows_ok db i r \<longleftrightarrow> (\<forall>t\<in>set (targets db). tg_change t = i \<longrightarrow> tg_device t \<in> set (r_devs r))"

definition phase_ok :: "run \<Rightarrow> bool" where
  "phase_ok r \<longleftrightarrow> (r_phase r = PhLoad \<longrightarrow> pool r = []) \<and> (r_phase r = PhDone \<longrightarrow> r_ready r = [] \<and> r_busy r = [])"

definition pool_ok :: "chg \<Rightarrow> int \<Rightarrow> run \<Rightarrow> bool" where
  "pool_ok db i r \<longleftrightarrow> phase_ok r \<and> distinct (map tg_device (pool r)) \<and>
     (\<forall>t\<in>set (pool r). tg_device t \<in> set (r_devs r) \<and> tg_id t < next_target db \<and>
        (\<forall>u\<in>set (targets db). tg_id u = tg_id t \<longrightarrow> tg_change u = i))"

definition runs_ok :: "chg \<Rightarrow> int set \<Rightarrow> (int \<rightharpoonup> run) \<Rightarrow> bool" where
  "runs_ok db locked runs \<longleftrightarrow>
     (\<forall>i r. runs i = Some r \<longrightarrow> set (r_devs r) \<subseteq> locked \<and> rows_ok db i r \<and> pool_ok db i r) \<and>
     (\<forall>i j r q. runs i = Some r \<and> runs j = Some q \<and> i \<noteq> j \<longrightarrow> set (r_devs r) \<inter> set (r_devs q) = {})"

definition busy_rows :: "chg \<Rightarrow> (int \<rightharpoonup> run) \<Rightarrow> bool" where
  "busy_rows db runs \<longleftrightarrow>
     (\<forall>u\<in>set (targets db). tg_status u = TgRunning \<longrightarrow>
        (\<exists>r. runs (tg_change u) = Some r \<and> tg_id u \<in> tg_id ` set (r_busy r)))"

definition eng_ok :: "engine \<Rightarrow> bool" where
  "eng_ok e \<longleftrightarrow> chg_ok (en_db e) \<and> targets_ok (en_db e) \<and> (\<forall>i. running (en_db e) i = (en_runs e i \<noteq> None)) \<and>
     runs_ok (en_db e) (en_locked e) (en_runs e) \<and> busy_rows (en_db e) (en_runs e)"

lemma running_bound: "chg_ok db \<Longrightarrow> running db i \<Longrightarrow> i < next_change db"
  using chg_okD(2) find_row_Some by (fastforce simp: running_def)

lemma rows_ok_frame: "same_rows db db' \<Longrightarrow> i < next_change db \<Longrightarrow> rows_ok db i r \<Longrightarrow> rows_ok db' i r"
  unfolding same_rows_def rows_ok_def by (metis not_less)

lemma pool_ok_frame:
  assumes sr: "same_rows db db'" and ok: "pool_ok db i r"
  shows "pool_ok db' i r"
  unfolding pool_ok_def
proof (intro conjI ballI impI)
  show "distinct (map tg_device (pool r))" and "phase_ok r" using ok by (simp_all add: pool_ok_def)
  fix t
  assume t: "t \<in> set (pool r)"
  show "tg_device t \<in> set (r_devs r)" using ok t by (simp add: pool_ok_def)
  have lt: "tg_id t < next_target db" using ok t by (simp add: pool_ok_def)
  then show "tg_id t < next_target db'" using sr by (auto simp: same_rows_def)
  fix u
  assume u: "u \<in> set (targets db')" "tg_id u = tg_id t"
  then obtain w where "w \<in> set (targets db)" "tg_id w = tg_id u" "tg_change w = tg_change u"
    using sr lt unfolding same_rows_def by (metis not_less)
  with ok t u show "tg_change u = i" by (auto simp: pool_ok_def)
qed

lemma runs_ok_frame:
  assumes "runs_ok db locked runs" and "same_rows db db'" and "\<And>i. runs i \<noteq> None \<Longrightarrow> i < next_change db"
  shows "runs_ok db' locked runs"
proof -
  have "set (r_devs r) \<subseteq> locked \<and> rows_ok db' i r \<and> pool_ok db' i r" if "runs i = Some r" for i r
    using assms(1,3) that rows_ok_frame [OF assms(2), of i r] pool_ok_frame [OF assms(2), of i r] by (auto simp: runs_ok_def)
  with assms(1) show ?thesis by (simp add: runs_ok_def)
qed

lemma busy_rows_frame: "no_new_running db db' \<Longrightarrow> busy_rows db runs \<Longrightarrow> busy_rows db' runs"
  unfolding no_new_running_def busy_rows_def by metis

lemma eng_ok_calm:
  assumes ok: "eng_ok e" and calm: "calm (en_db e) db" and db: "chg_ok db"
  shows "eng_ok (e\<lparr>en_db := db, en_stops := stops\<rparr>)"
proof -
  have "i < next_change (en_db e)" if "en_runs e i \<noteq> None" for i
    using ok that running_bound by (simp add: eng_ok_def)
  then have "runs_ok db (en_locked e) (en_runs e)"
    using runs_ok_frame ok calm by (fastforce simp: eng_ok_def calm_def frame_def)
  moreover have "busy_rows db (en_runs e)"
    using busy_rows_frame ok calm by (auto simp: eng_ok_def calm_def frame_def)
  ultimately show ?thesis using ok calm db by (simp add: eng_ok_def calm_def)
qed

text \<open>A step of one execution.\<close>

lemma pool_step:
  assumes "run_step x r a r'"
  shows "mset (pool r') \<subseteq># mset (pool r)"
  using assms
proof (cases rule: run_step.cases)
  case (go_run t)
  then show ?thesis using mset_remove1_mem [of t "r_ready r"] by (simp add: pool_def)
next
  case (go_stop t)
  then show ?thesis using mset_remove1_mem [of t "r_ready r"] by (simp add: pool_def)
next
  case (finish t ok)
  then show ?thesis using mset_remove1_mem [of t "r_busy r"] by (simp add: pool_def)
qed (auto simp: pool_def)

lemma distinct_map_mset: "mset xs \<subseteq># mset ys \<Longrightarrow> distinct (map f ys) \<Longrightarrow> distinct (map f xs)"
proof -
  assume sub: "mset xs \<subseteq># mset ys" and d: "distinct (map f ys)"
  obtain zs where "mset ys = mset (xs @ zs)"
    using sub by (metis mset_append mset_subset_eq_exists_conv ex_mset)
  then have "mset (map f ys) = mset (map f (xs @ zs))" by simp
  with d have "distinct (map f (xs @ zs))" by (metis mset_eq_imp_distinct_iff)
  then show ?thesis by simp
qed

lemma phase_ok_step: "run_step x r a r' \<Longrightarrow> phase_ok r \<Longrightarrow> phase_ok r'"
  by (erule run_step.cases) (auto simp: phase_ok_def pool_def)

lemma pool_ok_step:
  assumes "run_step x r a r'" and "pool_ok db i r"
  shows "pool_ok db i r'"
proof -
  have sub: "set (pool r') \<subseteq> set (pool r)" using pool_step [OF assms(1)] by (metis set_mset_mono set_mset_mset)
  have "distinct (map tg_device (pool r'))"
    using distinct_map_mset [OF pool_step [OF assms(1)], of tg_device] assms(2) unfolding pool_ok_def by blast
  moreover have "phase_ok r'" using phase_ok_step [OF assms(1)] assms(2) by (simp add: pool_ok_def)
  moreover have "r_devs r' = r_devs r" using assms(1) by simp
  ultimately show ?thesis using sub assms(2) unfolding pool_ok_def by auto
qed

lemma runs_ok_upd:
  assumes "runs_ok db locked runs" and "runs i = Some r" and "r_devs r' = r_devs r" and "pool_ok db i r'"
  shows "runs_ok db locked (runs(i \<mapsto> r'))"
proof -
  have "rows_ok db i r'" using assms(1,2,3) by (simp add: runs_ok_def rows_ok_def)
  with assms show ?thesis unfolding runs_ok_def by (simp add: Int_commute)
qed

lemma runs_ok_step:
  assumes "runs_ok db locked runs" and "runs i = Some r" and "run_step x r a r'"
  shows "runs_ok db locked (runs(i \<mapsto> r'))"
  using assms(1,2)
  by (rule runs_ok_upd) (use assms pool_ok_step [OF assms(3)] in \<open>auto simp: runs_ok_def\<close>)

lemma step_start:
  "run_step x r (AStart t) r' \<Longrightarrow> t \<in> set (pool r) \<and> t \<in> set (r_busy r') \<and> set (r_busy r) \<subseteq> set (r_busy r')"
  by (erule run_step.cases) (auto simp: pool_def)

lemma step_finish: "run_step x r (AFinish t ok) r' \<Longrightarrow> t \<in> set (r_busy r) \<and> r_busy r' = remove1 t (r_busy r)"
  by (erule run_step.cases) simp_all

lemma step_quiet: "run_step x r ANone r' \<Longrightarrow> r_busy r' = r_busy r"
  by (erule run_step.cases) simp_all

lemma eng_okD:
  assumes "eng_ok e"
  shows "chg_ok (en_db e)" "targets_ok (en_db e)" "running (en_db e) i = (en_runs e i \<noteq> None)"
    "runs_ok (en_db e) (en_locked e) (en_runs e)" "busy_rows (en_db e) (en_runs e)"
    "en_runs e i \<noteq> None \<Longrightarrow> i < next_change (en_db e)"
    "en_runs e i = Some r \<Longrightarrow> pool_ok (en_db e) i r"
  using assms running_bound by (auto simp: eng_ok_def runs_ok_def)

lemma quiet_ok:
  assumes ok: "eng_ok e" and r: "en_runs e i = Some r" and st: "run_step x r ANone r'"
  shows "eng_ok (e\<lparr>en_runs := (en_runs e)(i \<mapsto> r')\<rparr>)"
proof -
  have "busy_rows (en_db e) ((en_runs e)(i \<mapsto> r'))"
    using eng_okD(5) [OF ok] r step_quiet [OF st] by (auto simp: busy_rows_def)
  with ok r runs_ok_step [OF eng_okD(4) [OF ok] r st] show ?thesis by (simp add: eng_ok_def)
qed

lemma start_ok:
  assumes ok: "eng_ok e" and r: "en_runs e i = Some r" and st: "run_step x r (AStart t) r'"
  shows "eng_ok (e\<lparr>en_db := start_target now (tg_id t) (en_db e), en_runs := (en_runs e)(i \<mapsto> r')\<rparr>)"
proof -
  let ?f = "\<lambda>r. r\<lparr>tg_status := TgRunning, tg_started := Some now\<rparr>"
  let ?db = "set_targets (\<lambda>u. tg_id u = tg_id t) ?f (en_db e)"
  note sf = step_start [OF st]
  have sr: "same_rows (en_db e) ?db" by (rule frame_set_targets) simp_all
  have ro: "runs_ok ?db (en_locked e) ((en_runs e)(i \<mapsto> r'))"
    by (rule runs_ok_step [OF runs_ok_frame [OF eng_okD(4) [OF ok] sr] r st]) (rule eng_okD(6) [OF ok])
  have mine: "tg_change u = i" if "u \<in> set (targets (en_db e))" "tg_id u = tg_id t" for u
    using eng_okD(7) [OF ok r] sf that by (auto simp: pool_ok_def)
  have "busy_rows ?db ((en_runs e)(i \<mapsto> r'))"
    unfolding busy_rows_def
  proof (intro ballI impI)
    fix u'
    assume u': "u' \<in> set (targets ?db)" "tg_status u' = TgRunning"
    then obtain u where u: "u \<in> set (targets (en_db e))" "u' = (if tg_id u = tg_id t then ?f u else u)"
      by (auto simp: set_upd_rows)
    show "\<exists>r. ((en_runs e)(i \<mapsto> r')) (tg_change u') = Some r \<and> tg_id u' \<in> tg_id ` set (r_busy r)"
    proof (cases "tg_id u = tg_id t")
      case True
      with mine [OF u(1)] u(2) sf show ?thesis by auto
    next
      case False
      then obtain q where "en_runs e (tg_change u) = Some q" "tg_id u \<in> tg_id ` set (r_busy q)"
        using eng_okD(5) [OF ok] u u'(2) by (auto simp: busy_rows_def)
      with False u(2) sf r show ?thesis by auto
    qed
  qed
  with ok r ro show ?thesis
    by (simp add: eng_ok_def start_target_def targets_ok_set_targets)
qed

lemma finish_ok:
  assumes ok: "eng_ok e" and r: "en_runs e i = Some r" and st: "run_step x r (AFinish t good) r'"
  shows "eng_ok (e\<lparr>en_db := finish_target now (tg_id t) good out msg pre (en_db e), en_runs := (en_runs e)(i \<mapsto> r')\<rparr>)"
proof -
  let ?f = "\<lambda>r. r\<lparr>tg_status := (if good then TgSucceeded else TgFailed), tg_output := out, tg_error := clip msg 2000,
      tg_pre_backup := pre, tg_finished := Some now\<rparr>"
  let ?db = "set_targets (\<lambda>u. tg_id u = tg_id t) ?f (en_db e)"
  note sf = step_finish [OF st]
  have sr: "same_rows (en_db e) ?db" by (rule frame_set_targets) simp_all
  have ro: "runs_ok ?db (en_locked e) ((en_runs e)(i \<mapsto> r'))"
    by (rule runs_ok_step [OF runs_ok_frame [OF eng_okD(4) [OF ok] sr] r st]) (rule eng_okD(6) [OF ok])
  have "busy_rows ?db ((en_runs e)(i \<mapsto> r'))"
    unfolding busy_rows_def
  proof (intro ballI impI)
    fix u'
    assume u': "u' \<in> set (targets ?db)" "tg_status u' = TgRunning"
    then obtain u where u: "u \<in> set (targets (en_db e))" "u' = u" "tg_id u \<noteq> tg_id t"
      by (auto simp: set_upd_rows split: if_splits)
    then obtain q b where q: "en_runs e (tg_change u) = Some q" "b \<in> set (r_busy q)" "tg_id u = tg_id b"
      using eng_okD(5) [OF ok] u'(2) by (auto simp: busy_rows_def)
    show "\<exists>r. ((en_runs e)(i \<mapsto> r')) (tg_change u') = Some r \<and> tg_id u' \<in> tg_id ` set (r_busy r)"
    proof (cases "tg_change u = i")
      case True
      have "b \<noteq> t" using q(3) u(3) by auto
      with True have "b \<in> set (r_busy r')" using q(1,2) r sf in_set_remove1 [of b t "r_busy r"] by simp
      with True u(2) q(3) show ?thesis by auto
    next
      case False
      with q u(2) show ?thesis by auto
    qed
  qed
  with ok r ro show ?thesis
    by (simp add: eng_ok_def finish_target_def targets_ok_set_targets)
qed

lemma load_ok:
  assumes ok: "eng_ok e" and r: "en_runs e i = Some r" and ph: "r_phase r = PhLoad"
  shows "eng_ok (e\<lparr>en_runs := (en_runs e)(i \<mapsto> load_run (targets_of i (en_db e)) r)\<rparr>)"
proof -
  let ?ts = "targets_of i (en_db e)"
  let ?r = "load_run ?ts r"
  have po: "pool_ok (en_db e) i r" by (rule eng_okD(7) [OF ok r])
  then have empty: "pool r = []" using ph by (simp add: pool_ok_def phase_ok_def)
  have t_ok: "targets_ok (en_db e)" by (rule eng_okD(2) [OF ok])
  have rows: "rows_ok (en_db e) i r" using eng_okD(4) [OF ok] r by (auto simp: runs_ok_def)
  have fields: "r_devs ?r = r_devs r" "r_busy ?r = []" "r_phase ?r = PhCanary"
    using empty by (simp_all add: load_run_def Let_def pool_def)
  have pool: "mset (pool ?r) = mset ?ts"
  proof -
    have "pool ?r = take (min (nat (ch_canary (r_change r))) (length ?ts)) ?ts @ drop (min (nat (ch_canary (r_change r))) (length ?ts)) ?ts"
      using empty by (simp add: load_run_def Let_def pool_def)
    then show ?thesis by (simp only: append_take_drop_id)
  qed
  then have sets: "set (pool ?r) = set ?ts" by (metis set_mset_mset)
  have mem: "t \<in> set ?ts \<longleftrightarrow> t \<in> set (targets (en_db e)) \<and> tg_change t = i" for t
    by (auto simp: targets_of_def)
  have "distinct (map tg_device (filter (\<lambda>t. tg_change t = i) (targets (en_db e))))"
  proof -
    have "distinct (map (\<lambda>t. (tg_change t, tg_device t)) (filter (\<lambda>t. tg_change t = i) (targets (en_db e))))"
      using t_ok by (simp add: targets_ok_def distinct_map_filter)
    then show ?thesis by (auto simp: distinct_map inj_on_def)
  qed
  then have "distinct (map tg_device ?ts)" by (simp add: targets_of_def distinct_map)
  then have dist: "distinct (map tg_device (pool ?r))"
    using distinct_map_mset [of "pool ?r" ?ts tg_device] pool by simp
  have same_id: "u = t" if "u \<in> set (targets (en_db e))" "t \<in> set (targets (en_db e))" "tg_id u = tg_id t" for u t
    using t_ok that by (auto simp: targets_ok_def distinct_map inj_on_def)
  have "pool_ok (en_db e) i ?r"
    unfolding pool_ok_def
  proof (intro conjI ballI impI)
    show "phase_ok ?r" by (simp add: phase_ok_def fields)
    show "distinct (map tg_device (pool ?r))" by (rule dist)
    fix t
    assume "t \<in> set (pool ?r)"
    then have t: "t \<in> set (targets (en_db e))" "tg_change t = i" using sets mem by auto
    show "tg_device t \<in> set (r_devs ?r)" using rows t by (simp add: rows_ok_def fields)
    show "tg_id t < next_target (en_db e)" using t_ok t by (simp add: targets_ok_def)
    show "tg_change u = i" if "u \<in> set (targets (en_db e))" "tg_id u = tg_id t" for u
      using same_id [OF that(1) t(1) that(2)] t(2) by simp
  qed
  then have "runs_ok (en_db e) (en_locked e) ((en_runs e)(i \<mapsto> ?r))"
    by (rule runs_ok_upd [OF eng_okD(4) [OF ok] r fields(1)])
  moreover have "busy_rows (en_db e) ((en_runs e)(i \<mapsto> ?r))"
    using eng_okD(5) [OF ok] r empty by (auto simp: busy_rows_def pool_def)
  ultimately show ?thesis using ok r by (simp add: eng_ok_def)
qed

lemma target_devices_ids:
  assumes "\<forall>t\<in>set (targets st). tg_device t \<in> d_id ` set rows" and "t \<in> set (targets st)" and "tg_change t = i"
  shows "tg_device t \<in> fst ` set (target_devices st rows i)"
proof -
  have "find_row d_id (tg_device t) rows \<noteq> None" using assms by (auto simp: find_row_None)
  then obtain d where d: "find_row d_id (tg_device t) rows = Some d" by blast
  then have "(d_id d, d_group d) \<in> set (target_devices st rows i)"
    using assms(2,3) by (force simp: target_devices_def List.map_filter_def)
  then show ?thesis using find_row_Some [OF d] by force
qed

lemma start_change_running:
  assumes ok: "chg_ok db" and app: "list_ex (\<lambda>r. ch_id r = i \<and> ch_status r = ChApproved) (changes db)"
  shows "running (start_change now i db) = (running db)(i := True)" and "\<not> running db i"
proof -
  obtain c where c: "c \<in> set (changes db)" "ch_id c = i" "ch_status c = ChApproved" using app by (auto simp: list_ex_iff)
  then have f: "find_row ch_id i (changes db) = Some c" using find_row_distinct [OF chg_okD(1) [OF ok] c(1)] by simp
  then show "\<not> running db i" using c(3) by (simp add: running_def)
  have fs: "find_row ch_id j (changes (start_change now i db)) =
      map_option (\<lambda>c. if ch_id c = i \<and> ch_status c = ChApproved then c\<lparr>ch_status := ChRunning, ch_started := Some now\<rparr> else c)
        (find_row ch_id j (changes db))" for j
    unfolding start_change_def by (rule find_set_change) simp
  show "running (start_change now i db) = (running db)(i := True)"
  proof
    fix j
    show "running (start_change now i db) j = ((running db)(i := True)) j"
    proof (cases "j = i")
      case True
      with f c show ?thesis by (simp add: running_def fs)
    next
      case False
      then show ?thesis
        using find_row_Some [of ch_id j "changes db"] by (cases "find_row ch_id j (changes db)") (auto simp: running_def fs)
    qed
  qed
qed

lemma tick_ok:
  assumes ok: "eng_ok e" and fk: "\<forall>t\<in>set (targets (en_db e)). tg_device t \<in> d_id ` set rows"
  shows "eng_ok (tick_one off now rows ws c e)"
proof -
  let ?ids = "map fst (target_devices (en_db e) rows (ch_id c))" and ?i = "ch_id c"
  let ?due = "due_at off c (target_devices (en_db e) rows ?i) ws now"
  let ?app = "list_ex (\<lambda>r. ch_id r = ?i \<and> ch_status r = ChApproved) (changes (en_db e))"
  have skip: "tick_one off now rows ws c e = e" if "\<not> ?due \<or> list_ex (\<lambda>j. j \<in> en_locked e) ?ids"
    unfolding tick_one_def Let_def lock_devices_def using that by (elim disjE) simp_all
  have gone: "tick_one off now rows ws c e = e\<lparr>en_locked := unlock_devices ?ids (en_locked e \<union> set ?ids)\<rparr>"
    if "?due" "\<not> list_ex (\<lambda>j. j \<in> en_locked e) ?ids" "\<not> ?app"
    unfolding tick_one_def Let_def lock_devices_def if_not_P [OF that(2)] using that(1,3) by simp
  have go: "tick_one off now rows ws c e = e\<lparr>en_db := start_change now ?i (en_db e), en_locked := en_locked e \<union> set ?ids,
         en_runs := (en_runs e)(?i \<mapsto> new_run c ?ids)\<rparr>"
    if "?due" "\<not> list_ex (\<lambda>j. j \<in> en_locked e) ?ids" "?app"
    unfolding tick_one_def Let_def lock_devices_def if_not_P [OF that(2)] using that(1,3) by simp
  have all: "list_all (\<lambda>j. j \<notin> en_locked e) ?ids" if "\<not> list_ex (\<lambda>j. j \<in> en_locked e) ?ids"
    using that unfolding list_all_iff list_ex_iff by blast
  consider "tick_one off now rows ws c e = e"
    | "list_all (\<lambda>j. j \<notin> en_locked e) ?ids" "tick_one off now rows ws c e = e\<lparr>en_locked := unlock_devices ?ids (en_locked e \<union> set ?ids)\<rparr>"
    | "list_all (\<lambda>j. j \<notin> en_locked e) ?ids" "?app"
      "tick_one off now rows ws c e = e\<lparr>en_db := start_change now ?i (en_db e), en_locked := en_locked e \<union> set ?ids,
         en_runs := (en_runs e)(?i \<mapsto> new_run c ?ids)\<rparr>"
    using skip gone go all by blast
  then show ?thesis
  proof cases
    case 1
    with ok show ?thesis by simp
  next
    case 2
    then have "unlock_devices ?ids (en_locked e \<union> set ?ids) = en_locked e"
      by (auto simp: unlock_devices_def list_all_iff)
    with 2 ok show ?thesis by simp
  next
    case 3
    let ?db = "start_change now ?i (en_db e)" and ?r = "new_run c ?ids"
    note run = start_change_running(1) [OF eng_okD(1) [OF ok] 3(2), of now]
    have free: "en_runs e ?i = None" using start_change_running(2) [OF eng_okD(1) [OF ok] 3(2)] eng_okD(3) [OF ok] by simp
    have tg: "targets ?db = targets (en_db e)" "next_target ?db = next_target (en_db e)" "next_change ?db = next_change (en_db e)"
      by (simp_all add: start_change_def)
    have same: "rows_ok ?db j q = rows_ok (en_db e) j q" "pool_ok ?db j q = pool_ok (en_db e) j q" for j q
      by (simp_all add: rows_ok_def pool_ok_def tg)
    have fields: "r_devs ?r = ?ids" "pool ?r = []" "r_busy ?r = []" "r_phase ?r = PhLoad"
      by (simp_all add: new_run_def pool_def)
    have new: "rows_ok (en_db e) ?i ?r" "pool_ok (en_db e) ?i ?r"
      using target_devices_ids [OF fk] by (auto simp: rows_ok_def pool_ok_def phase_ok_def fields)
    have apart: "set (r_devs q) \<inter> set ?ids = {}" if "en_runs e j = Some q" for j q
    proof -
      have "set (r_devs q) \<subseteq> en_locked e" using eng_okD(4) [OF ok] that by (auto simp: runs_ok_def)
      moreover have "set ?ids \<inter> en_locked e = {}" using 3(1) by (auto simp: list_all_iff)
      ultimately show ?thesis by blast
    qed
    have "runs_ok ?db (en_locked e \<union> set ?ids) ((en_runs e)(?i \<mapsto> ?r))"
      using eng_okD(4) [OF ok] new apart unfolding runs_ok_def same by (simp add: fields Int_commute) blast
    moreover have "busy_rows ?db ((en_runs e)(?i \<mapsto> ?r))"
      using eng_okD(5) [OF ok] free unfolding busy_rows_def tg by (metis fun_upd_apply option.distinct(1))
    moreover have "targets_ok ?db" using eng_okD(2) [OF ok] by (simp add: start_change_def)
    moreover have "chg_ok ?db" using eng_okD(1) [OF ok] by (rule engine_updates_ok)
    ultimately show ?thesis
      using eng_okD(3) [OF ok] by (simp add: 3(3) eng_ok_def run)
  qed
qed

lemma unlock_other:
  assumes "runs_ok db locked runs" and "runs i = Some r"
  shows "runs_ok db (unlock_devices (r_devs r) locked) (runs(i := None))"
proof -
  have "set (r_devs q) \<subseteq> unlock_devices (r_devs r) locked" if "(runs(i := None)) j = Some q" for j q
  proof -
    have "j \<noteq> i" "runs j = Some q" using that by (auto split: if_splits)
    with assms have "set (r_devs q) \<subseteq> locked" "set (r_devs q) \<inter> set (r_devs r) = {}" unfolding runs_ok_def by blast+
    then show ?thesis by (auto simp: unlock_devices_def)
  qed
  with assms(1) show ?thesis by (simp add: runs_ok_def)
qed

lemma finish_running:
  assumes ok: "chg_ok db" and run: "running db i"
  shows "running (finish_change now i x db) = (running db)(i := False)" and "chg_ok (finish_change now i x db)"
proof -
  obtain c where c: "find_row ch_id i (changes db) = Some c" "ch_status c = ChRunning" using run by (auto simp: running_def)
  show "chg_ok (finish_change now i x db)" by (rule finish_change_ok [OF ok c])
  define s where "s = final_status x (ok_count (skip_pending i x db) i) (bad_count (skip_pending i x db) i)"
  have s: "s \<noteq> ChRunning" by (simp add: s_def final_status_def)
  have ch: "changes (finish_change now i x db) =
      changes (set_change (\<lambda>c. ch_id c = i) (\<lambda>c. c\<lparr>ch_status := s, ch_finished := Some now\<rparr>) db)"
    by (simp add: finish_change_def Let_def skip_pending_def s_def)
  have fs: "find_row ch_id j (changes (finish_change now i x db)) =
      map_option (\<lambda>c. if ch_id c = i then c\<lparr>ch_status := s, ch_finished := Some now\<rparr> else c) (find_row ch_id j (changes db))" for j
    unfolding ch by (rule find_set_change) simp
  show "running (finish_change now i x db) = (running db)(i := False)"
  proof
    fix j
    show "running (finish_change now i x db) j = ((running db)(i := False)) j"
      using find_row_Some [of ch_id j "changes db"] s
      by (cases "find_row ch_id j (changes db)") (auto simp: running_def fs)
  qed
qed

lemma finish_change_rows:
  "targets (finish_change now i x db) = targets (skip_pending i x db)"
  "next_target (finish_change now i x db) = next_target db" "next_change (finish_change now i x db) = next_change db"
  by (simp_all add: finish_change_def Let_def skip_pending_def)

lemma skip_pending_frame: "frame db (skip_pending i x db)"
  unfolding skip_pending_def by (rule frame_set_targets) simp_all

lemma end_run_ok:
  assumes ok: "eng_ok e" and r: "en_runs e i = Some r" and ph: "r_phase r = PhDone"
  shows "eng_ok (end_run now i r e)"
proof -
  let ?db = "finish_change now i (i \<in> en_stops e) (en_db e)"
  have run: "running (en_db e) i" using eng_okD(3) [OF ok] r by simp
  note fin = finish_running [OF eng_okD(1) [OF ok] run, where now = now and x = "i \<in> en_stops e"]
  have busy: "r_busy r = []" using eng_okD(7) [OF ok r] ph by (simp add: pool_ok_def phase_ok_def)
  have fr: "frame (en_db e) ?db"
    using skip_pending_frame [of "en_db e" i "i \<in> en_stops e"]
    by (simp add: frame_def same_rows_def no_new_running_def finish_change_rows skip_pending_def)
  have t_ok: "targets_ok ?db"
    using targets_ok_set_targets [OF eng_okD(2) [OF ok], of "\<lambda>t. t\<lparr>tg_status := TgSkipped, tg_error := (if i \<in> en_stops e then ''cancelled'' else ''not run: too many failures'')\<rparr>"]
    by (simp add: finish_change_def Let_def skip_pending_def)
  have "runs_ok ?db (en_locked e) (en_runs e)"
    by (rule runs_ok_frame [OF eng_okD(4) [OF ok]]) (use fr eng_okD(6) [OF ok] in \<open>simp_all add: frame_def\<close>)
  then have ro: "runs_ok ?db (unlock_devices (r_devs r) (en_locked e)) ((en_runs e)(i := None))"
    using r by (rule unlock_other)
  have "busy_rows ?db (en_runs e)"
    by (rule busy_rows_frame [OF _ eng_okD(5) [OF ok]]) (use fr in \<open>simp add: frame_def\<close>)
  then have "busy_rows ?db ((en_runs e)(i := None))"
    using r busy unfolding busy_rows_def by (metis empty_iff fun_upd_apply image_empty list.set(1) option.inject)
  with fin t_ok ro eng_okD(3) [OF ok] show ?thesis
    by (simp add: end_run_def eng_ok_def)
qed

lemma restart_ok:
  assumes ok: "eng_ok e"
  shows "eng_ok (restart now e)"
proof -
  let ?db = "en_db e" and ?msg = "''interrupted by a TaktaPlus restart''"
  let ?st1 = "set_targets (\<lambda>t. tg_status t = TgRunning) (\<lambda>t. t\<lparr>tg_status := TgFailed, tg_error := ?msg, tg_finished := Some now\<rparr>) ?db"
  let ?st2 = "set_targets (\<lambda>t. tg_status t = TgPending \<and> list_ex (\<lambda>c. ch_id c = tg_change t \<and> ch_status c = ChRunning) (changes ?st1))
                  (\<lambda>t. t\<lparr>tg_status := TgSkipped, tg_error := ?msg\<rparr>) ?st1"
  have rec: "recover now ?db = set_change (\<lambda>c. ch_status c = ChRunning) (\<lambda>c. c\<lparr>ch_status := ChFailed, ch_finished := Some now\<rparr>) ?st2"
    by (simp add: recover_def Let_def)
  have "targets_ok (recover now ?db)"
    unfolding rec using eng_okD(2) [OF ok] by (simp add: targets_ok_set_targets)
  moreover have "chg_ok (recover now ?db)" using eng_okD(1) [OF ok] by (rule engine_updates_ok)
  moreover have "\<not> running (recover now ?db) i" for i
  proof -
    have "find_row ch_id i (changes (recover now ?db)) =
        map_option (\<lambda>c. if ch_status c = ChRunning then c\<lparr>ch_status := ChFailed, ch_finished := Some now\<rparr> else c)
          (find_row ch_id i (changes ?db))"
      unfolding rec by (subst find_set_change) simp_all
    then show ?thesis by (auto simp: running_def)
  qed
  moreover have "tg_status t \<noteq> TgRunning" if "t \<in> set (targets (recover now ?db))" for t
    using that by (auto simp: rec set_upd_rows)
  ultimately show ?thesis
    by (simp add: restart_def eng_ok_def runs_ok_def busy_rows_def)
qed

lemma cancel_eng_ok:
  assumes ok: "eng_ok e" and run: "cancel i by (en_db e, en_stops e) = ((db, stops), u)"
  shows "eng_ok (e\<lparr>en_db := db, en_stops := stops\<rparr>)"
  using cancel_calm [OF eng_okD(1,2) [OF ok] run] cancel_ok [OF eng_okD(1) [OF ok] run] by (rule eng_ok_calm [OF ok])

lemma user_eng_ok:
  assumes ok: "eng_ok e" and run: "user_step L (en_db e) db"
  shows "eng_ok (e\<lparr>en_db := db\<rparr>)"
  using eng_ok_calm [OF ok user_calm [OF run eng_okD(1,2) [OF ok]] user_chg_ok [OF run eng_okD(1) [OF ok]], of "en_stops e"]
  by simp

lemmas eng_preserved = user_eng_ok cancel_eng_ok tick_ok load_ok quiet_ok start_ok finish_ok end_run_ok restart_ok

lemma eng_step_ok: "eng_step L e e' \<Longrightarrow> eng_ok e \<Longrightarrow> eng_ok e'"
  by (induction rule: eng_step.induct) (rule eng_preserved; assumption)+

lemma eng_reachable_ok: "rtranclp (eng_step L) empty_engine e \<Longrightarrow> eng_ok e"
proof (induction rule: rtranclp_induct)
  case base
  show ?case
    by (simp add: eng_ok_def empty_engine_def empty_chg_def chg_ok_def targets_ok_def running_def runs_ok_def busy_rows_def)
qed (rule eng_step_ok)

subsection \<open>A run of the server, for the examples\<close>

definition eng0 :: engine where "eng0 = empty_engine\<lparr>en_db := fst sample_created\<rparr>"
definition eng1 :: engine where "eng1 = eng0\<lparr>en_db := fst (submit 10 1 (sample_user 1) (en_db eng0))\<rparr>"
definition eng2 :: engine where "eng2 = eng1\<lparr>en_db := fst (decide 11 1 (sample_user 2) True [] (en_db eng1))\<rparr>"
definition eng3 :: engine where "eng3 = tick_one 0 12 (devices sample_probed) [] (hd (changes (en_db eng2))) eng2"
definition run3 :: run where "run3 = the (en_runs eng3 1)"
definition run4 :: run where "run4 = load_run (targets_of 1 (en_db eng3)) run3"
definition eng4 :: engine where "eng4 = eng3\<lparr>en_runs := (en_runs eng3)(1 \<mapsto> run4)\<rparr>"
definition tgt4 :: target where "tgt4 = hd (r_canary run4)"
definition run5 :: run where "run5 = run4\<lparr>r_canary := tl (r_canary run4), r_busy := [tgt4]\<rparr>"
definition eng5 :: engine where
  "eng5 = eng4\<lparr>en_db := start_target 13 (tg_id tgt4) (en_db eng4), en_runs := (en_runs eng4)(1 \<mapsto> run5)\<rparr>"

lemma run3_there: "en_runs eng3 1 = Some run3"
proof -
  have "en_runs eng3 1 \<noteq> None" by code_simp
  then show ?thesis by (simp add: run3_def)
qed

lemma run3_phase: "r_phase run3 = PhLoad" by code_simp
lemma run4_phase: "r_phase run4 = PhCanary" by code_simp
lemma run4_counts: "(length (r_busy run4), length (r_canary run4), length (r_ready run4), length (r_rest run4), length (r_done run4), r_failures run4) = (0, 1, 0, 0, 0, 0)"
  by code_simp
lemma run4_goes_on: "\<not> stop False run4" by code_simp
lemma eng3_stops: "1 \<notin> en_stops eng3" by code_simp
lemma eng2_targets: "list_all (\<lambda>t. list_ex (\<lambda>d. d_id d = tg_device t) (devices sample_probed)) (targets (en_db eng2))"
  by code_simp

lemma eng4_stops: "1 \<notin> en_stops eng4" using eng3_stops by (simp add: eng4_def)

lemma run4_lists: "r_busy run4 = []" "r_canary run4 \<noteq> []"
  using run4_counts by auto

lemmas sample_facts = run3_phase run4_phase run4_lists run4_goes_on eng2_targets

lemma eng5_reachable: "rtranclp (eng_step sample_lic) empty_engine eng5"
proof -
  have "user_step sample_lic (en_db empty_engine) (en_db eng0)"
    by (simp add: eng0_def empty_engine_def sample_created_def)
      (rule user_step.intros(1) [OF prod.collapse [symmetric]])
  then have "eng_step sample_lic empty_engine eng0" unfolding eng0_def by (metis eng_step.user engine.select_convs(1) engine.surjective engine.update_convs(1))
  moreover have "eng_step sample_lic eng0 eng1"
    unfolding eng1_def by (rule eng_step.user, rule user_step.intros(2) [OF prod.collapse [symmetric]])
  moreover have "eng_step sample_lic eng1 eng2"
    unfolding eng2_def by (rule eng_step.user, rule user_step.intros(3) [OF prod.collapse [symmetric]])
  moreover have "eng_step sample_lic eng2 eng3"
    unfolding eng3_def by (rule eng_step.tick) (use eng2_targets in \<open>force simp: list_all_iff list_ex_iff\<close>)
  moreover have "eng_step sample_lic eng3 eng4"
    unfolding eng4_def run4_def by (rule eng_step.load [OF run3_there sample_facts(1)])
  moreover have "eng_step sample_lic eng4 eng5"
    unfolding eng5_def
  proof (rule eng_step.start)
    show "en_runs eng4 1 = Some run4" by (simp add: eng4_def)
    show "run_step (1 \<in> en_stops eng4) run4 (AStart tgt4) run5"
      unfolding run5_def using sample_facts eng4_stops by (intro run_step.canary_start) (simp_all add: tgt4_def)
  qed
  ultimately show ?thesis by (meson rtranclp.rtrancl_into_rtrancl rtranclp.rtrancl_refl)
qed

lemma run5_there: "en_runs eng5 1 = Some run5" and tgt4_busy: "tgt4 \<in> set (r_busy run5)"
  by (simp_all add: eng5_def run5_def)

subsection \<open>Properties of the server\<close>

text \<open>
  C7: at any time at most one change works on a device, and on one target of it: two targets that
  are being applied to the same device are the same target of the same change, for every
  interleaving of users, ticks, executions, cancellations and restarts.
\<close>

theorem one_target_per_device:
  assumes "rtranclp (eng_step L) empty_engine e" and "en_runs e i = Some r" and "en_runs e j = Some q"
    and "t \<in> set (r_busy r)" and "u \<in> set (r_busy q)" and "tg_device t = tg_device u"
  shows "i = j \<and> t = u"
proof -
  have ok: "eng_ok e" using assms(1) by (rule eng_reachable_ok)
  have t: "t \<in> set (pool r)" "tg_device t \<in> set (r_devs r)" and u: "u \<in> set (pool q)" "tg_device u \<in> set (r_devs q)"
    using eng_okD(7) [OF ok assms(2)] eng_okD(7) [OF ok assms(3)] assms(4,5) by (auto simp: pool_ok_def pool_def)
  have "i = j"
  proof (rule ccontr)
    assume "i \<noteq> j"
    then have "set (r_devs r) \<inter> set (r_devs q) = {}" using eng_okD(4) [OF ok] assms(2,3) unfolding runs_ok_def by blast
    with t(2) u(2) assms(6) show False by auto
  qed
  moreover from this have "distinct (map tg_device (pool r))" and "q = r"
    using eng_okD(7) [OF ok assms(2)] assms(2,3) by (auto simp: pool_ok_def)
  ultimately show ?thesis using t(1) u(1) assms(6) by (auto simp: distinct_map inj_on_def)
qed

theorem one_target_per_device_witness: "tgt4 \<in> set (r_busy run5) \<and> (1::int) = 1 \<and> tgt4 = tgt4"
  using one_target_per_device [OF eng5_reachable run5_there run5_there tgt4_busy tgt4_busy refl] tgt4_busy by simp

text \<open>
  The tables and the executions agree: a change is marked running exactly while an execution
  of it exists, so none is left running after a restart, and a target marked running is one an
  execution of its change is working on.
\<close>

lemma running_is_executed:
  assumes "rtranclp (eng_step L) empty_engine e"
  shows "((\<exists>c. find_row ch_id i (changes (en_db e)) = Some c \<and> ch_status c = ChRunning) \<longleftrightarrow> en_runs e i \<noteq> None) \<and>
     (\<forall>t\<in>set (targets (en_db e)). tg_status t = TgRunning \<longrightarrow>
        (\<exists>r. en_runs e (tg_change t) = Some r \<and> tg_id t \<in> tg_id ` set (r_busy r)))"
  using eng_okD(3) [OF eng_reachable_ok [OF assms], of i] eng_okD(5) [OF eng_reachable_ok [OF assms]]
  by (simp add: running_def busy_rows_def)

lemma running_is_executed_example:
  "\<exists>c. find_row ch_id 1 (changes (en_db eng5)) = Some c \<and> ch_status c = ChRunning"
  using running_is_executed [OF eng5_reachable, of 1] run5_there by simp

lemma skip_pending_final:
  assumes "busy_rows db runs" and "runs i = Some r" and "r_busy r = []"
    and "t \<in> set (targets (skip_pending i x db))" and "tg_change t = i"
  shows "tg_status t \<in> {TgSucceeded, TgFailed, TgSkipped}"
proof -
  obtain t0 where t0: "t0 \<in> set (targets db)"
    "t = (if tg_change t0 = i \<and> tg_status t0 = TgPending
          then t0\<lparr>tg_status := TgSkipped, tg_error := (if x then ''cancelled'' else ''not run: too many failures'')\<rparr> else t0)"
    using assms(4) by (auto simp: skip_pending_def set_upd_rows)
  have mine: "tg_change t0 = i" using t0(2) assms(5) by (auto split: if_splits)
  show ?thesis
  proof (cases "tg_status t0")
    case TgRunning
    with mine t0(1) assms(1-3) show ?thesis by (auto simp: busy_rows_def)
  qed (use t0 mine in simp_all)
qed

text \<open>
  C16: when an execution ends, every target of its change has a final status, and the change
  succeeded exactly when it was not cancelled and all of its targets succeeded (at least one),
  is partial when some succeeded, failed when none did, and is cancelled when it was asked to stop.
\<close>

theorem execution_result:
  assumes "rtranclp (eng_step L) empty_engine e" and "en_runs e i = Some r" and "r_phase r = PhDone"
  shows "let e' = end_run now i r e; ts = filter (\<lambda>t. tg_change t = i) (targets (en_db e')) in
     (\<forall>t\<in>set ts. tg_status t \<in> {TgSucceeded, TgFailed, TgSkipped}) \<and>
     (\<exists>c. find_row ch_id i (changes (en_db e')) = Some c \<and> ch_finished c = Some now \<and>
        ch_status c =
          (if i \<in> en_stops e then ChCancelled
           else if \<forall>t\<in>set ts. tg_status t \<noteq> TgSucceeded then ChFailed
           else if \<forall>t\<in>set ts. tg_status t = TgSucceeded then ChSucceeded else ChPartial))"
proof -
  have ok: "eng_ok e" using assms(1) by (rule eng_reachable_ok)
  let ?x = "i \<in> en_stops e" and ?db = "en_db e"
  let ?s = "skip_pending i ?x ?db"
  have busy: "r_busy r = []" using eng_okD(7) [OF ok assms(2)] assms(3) by (simp add: pool_ok_def phase_ok_def)
  note final = skip_pending_final [OF eng_okD(5) [OF ok] assms(2) busy]
  have tgs: "targets (en_db (end_run now i r e)) = targets ?s" by (simp add: end_run_def finish_change_rows)
  obtain c where c: "find_row ch_id i (changes ?db) = Some c"
    using eng_okD(3) [OF ok, of i] assms(2) by (auto simp: running_def)
  have st: "find_row ch_id i (changes (en_db (end_run now i r e))) =
      Some (c\<lparr>ch_status := final_status ?x (ok_count ?s i) (bad_count ?s i), ch_finished := Some now\<rparr>)"
  proof -
    have "changes (en_db (end_run now i r e)) = changes (set_change (\<lambda>c. ch_id c = i)
        (\<lambda>c. c\<lparr>ch_status := final_status ?x (ok_count ?s i) (bad_count ?s i), ch_finished := Some now\<rparr>) ?db)"
      by (simp add: end_run_def finish_change_def Let_def skip_pending_def)
    then show ?thesis using find_row_Some [OF c] by (simp add: find_set_change c del: chg_fields)
  qed
  have good: "ok_count ?s i = 0 \<longleftrightarrow> (\<forall>t\<in>set (filter (\<lambda>t. tg_change t = i) (targets ?s)). tg_status t \<noteq> TgSucceeded)"
    by (auto simp: ok_count_def count_rows_0)
  have bad: "bad_count ?s i = 0 \<longleftrightarrow> (\<forall>t\<in>set (filter (\<lambda>t. tg_change t = i) (targets ?s)). tg_status t = TgSucceeded)"
    using final by (auto simp: bad_count_def count_rows_0)
  have "bad_count ?s i > 0 \<longleftrightarrow> \<not> (\<forall>t\<in>set (filter (\<lambda>t. tg_change t = i) (targets ?s)). tg_status t = TgSucceeded)"
    by (simp only: bad [symmetric] neq0_conv)
  then have status: "final_status ?x (ok_count ?s i) (bad_count ?s i) =
      (if ?x then ChCancelled
       else if \<forall>t\<in>set (filter (\<lambda>t. tg_change t = i) (targets ?s)). tg_status t \<noteq> TgSucceeded then ChFailed
       else if \<forall>t\<in>set (filter (\<lambda>t. tg_change t = i) (targets ?s)). tg_status t = TgSucceeded then ChSucceeded else ChPartial)"
    unfolding final_status_def good by (simp only: if_not_P if_True if_False not_not split: if_split) blast
  have all_final: "\<forall>t\<in>set (filter (\<lambda>t. tg_change t = i) (targets ?s)). tg_status t \<in> {TgSucceeded, TgFailed, TgSkipped}"
    using final by (auto simp only: set_filter mem_Collect_eq)
  show ?thesis
    unfolding Let_def tgs st status[symmetric]
    by (intro conjI exI [where x = "c\<lparr>ch_status := final_status ?x (ok_count ?s i) (bad_count ?s i), ch_finished := Some now\<rparr>"] all_final)
      simp_all
qed

definition run6 :: run where
  "run6 = run5\<lparr>r_busy := [], r_done := [(tgt4, True)], r_failures := 0\<rparr>"

definition eng6 :: engine where
  "eng6 = eng5\<lparr>en_db := finish_target 14 (tg_id tgt4) True [] [] None (en_db eng5), en_runs := (en_runs eng5)(1 \<mapsto> run6)\<rparr>"

definition end_engine :: engine where
  "end_engine = eng6\<lparr>en_runs := (en_runs eng6)(1 \<mapsto> run6\<lparr>r_phase := PhDone\<rparr>)\<rparr>"

lemma run4_facts: "r_phase run4 = PhCanary" "r_failures run4 = 0" "length (r_ready run4) = 0" "length (r_rest run4) = 0" "length (tl (r_canary run4)) = 0"
    "length (r_done run4) = 0" "1 \<notin> en_stops eng3"
  using run4_phase run4_counts eng3_stops by simp_all

lemma run5_facts: "r_phase run5 = PhCanary" "r_busy run5 = [tgt4]" "r_failures run5 = 0" "r_ready run5 = []" "r_rest run5 = []"
    "r_canary run5 = []" "1 \<notin> en_stops eng5" "r_done run5 = []"
  using run4_facts by (simp_all add: run5_def eng5_def eng4_def flip: length_0_conv)

lemma quiet_step:
  assumes "run_step (1 \<in> en_stops e) r ANone r'" and "en_runs e 1 = Some r"
  shows "eng_step L e (e\<lparr>en_runs := (en_runs e)(1 \<mapsto> r')\<rparr>)"
  using eng_step.quiet [OF assms(2,1)] .

lemma end_engine_reachable: "rtranclp (eng_step sample_lic) empty_engine end_engine"
proof -
  have "eng_step sample_lic eng5 eng6"
    unfolding eng6_def
  proof (rule eng_step.finish [OF run5_there])
    have "run_step x run5 (AFinish tgt4 True) run6" for x
      using run_step.finish [of tgt4 run5 x True] run5_facts by (simp add: run6_def)
    then show "run_step (1 \<in> en_stops eng5) run5 (AFinish tgt4 True) run6" .
    show "target_result sample_lic (Inr (sample_device 1)) None (Some (\<lambda>_. ([], RunOk))) (r_change run5) = (True, [], [], None)"
      by (simp add: target_result_def operational_def sample_device_def sample_lic_def drow.defs)
  qed
  moreover have step: "run_step x (run6\<lparr>r_phase := PhCanary\<rparr>) ANone (run6\<lparr>r_phase := PhSpawn\<rparr>)"
    "run_step x (run6\<lparr>r_phase := PhSpawn\<rparr>) ANone (run6\<lparr>r_phase := PhWait\<rparr>)"
    "run_step x (run6\<lparr>r_phase := PhWait\<rparr>) ANone (run6\<lparr>r_phase := PhDone\<rparr>)" for x
    using run_step.canary_end [of "run6\<lparr>r_phase := PhCanary\<rparr>" x] run_step.spawn_end [of "run6\<lparr>r_phase := PhSpawn\<rparr>" x]
      run_step.join_all [of "run6\<lparr>r_phase := PhWait\<rparr>" x] run5_facts by (simp_all add: run6_def)
  let ?at = "\<lambda>p. eng6\<lparr>en_runs := (en_runs eng6)(1 \<mapsto> run6\<lparr>r_phase := p\<rparr>)\<rparr>"
  have "run6\<lparr>r_phase := PhCanary\<rparr> = run6" using run5_facts by (simp add: run6_def)
  then have same: "?at PhCanary = eng6" by (simp add: eng6_def)
  have hop: "eng_step sample_lic (?at p) (?at p')" if "\<And>x. run_step x (run6\<lparr>r_phase := p\<rparr>) ANone (run6\<lparr>r_phase := p'\<rparr>)" for p p'
    using quiet_step [OF that, where e = "?at p"] by simp
  from hop [of PhCanary PhSpawn] hop [of PhSpawn PhWait] hop [of PhWait PhDone] step same
  have "eng_step sample_lic eng6 (?at PhSpawn)" "eng_step sample_lic (?at PhSpawn) (?at PhWait)"
    "eng_step sample_lic (?at PhWait) end_engine" by (simp_all add: end_engine_def)
  ultimately show ?thesis using eng5_reachable by (meson rtranclp.rtrancl_into_rtrancl)
qed

theorem execution_result_witness:
  "\<exists>c. find_row ch_id 1 (changes (en_db (end_run 20 1 (run6\<lparr>r_phase := PhDone\<rparr>) end_engine))) = Some c \<and>
     ch_finished c = Some 20"
proof -
  have "en_runs end_engine 1 = Some (run6\<lparr>r_phase := PhDone\<rparr>)" by (simp add: end_engine_def)
  from execution_result [OF end_engine_reachable this, of 20] show ?thesis by (auto simp: Let_def)
qed

end
