(* ===== verification/Password.thy ===== *)
theory Password
  imports Prelude "HOL-Library.Word" "HOL-Library.Signed_Division"
begin

text \<open>
  Credentials of the panel (\<open>internal/auth/password.go\<close>, \<open>internal/auth/totp.go\<close>): the encoded
  Argon2id hash with its base64 fields, and time-based one-time codes. A byte slice is a
  \<open>string\<close>. Argon2id and HMAC-SHA1 are the fields of \<open>crypto\<close>, a parameter of the definitions;
  random bytes are arguments.
\<close>

unbundle bit_operations_syntax

record crypto =
  argon_version :: nat
  argon_id_key :: "string \<Rightarrow> string \<Rightarrow> nat \<Rightarrow> nat \<Rightarrow> nat \<Rightarrow> nat \<Rightarrow> string"
  hmac_sha1 :: "string \<Rightarrow> string \<Rightarrow> string"
  sha256_hex :: "string \<Rightarrow> string"

subsection \<open>Base64 and base32 without padding (package encoding)\<close>

definition upper_letters :: string where "upper_letters = ''ABCDEFGHIJKLMNOPQRSTUVWXYZ''"

definition std64 :: string where
  "std64 = upper_letters @ ''abcdefghijklmnopqrstuvwxyz0123456789+/''"

definition url64 :: string where
  "url64 = upper_letters @ ''abcdefghijklmnopqrstuvwxyz0123456789-_''"

definition std32 :: string where "std32 = upper_letters @ ''234567''"

definition byte :: "char \<Rightarrow> nat" where "byte c = of_char c"

lemma byte_less [simp]: "byte c < 256"
  by (simp add: byte_def)

lemma char_of_byte [simp]: "char_of (byte c) = c"
  by (simp add: byte_def)

fun encode64 :: "string \<Rightarrow> string \<Rightarrow> string" where
  "encode64 A [] = []"
| "encode64 A [a] = [A ! (byte a div 4), A ! (byte a mod 4 * 16)]"
| "encode64 A [a, b] = [A ! (byte a div 4), A ! (byte a mod 4 * 16 + byte b div 16), A ! (byte b mod 16 * 4)]"
| "encode64 A (a # b # c # r) =
     A ! (byte a div 4) # A ! (byte a mod 4 * 16 + byte b div 16) #
     A ! (byte b mod 16 * 4 + byte c div 64) # A ! (byte c mod 64) # encode64 A r"

fun index_of :: "char \<Rightarrow> string \<Rightarrow> nat option" where
  "index_of x [] = None"
| "index_of x (c # cs) = (if x = c then Some 0 else map_option Suc (index_of x cs))"

text \<open>Decoding ignores line ends, stops at any other foreign byte, and drops unused low bits.\<close>

fun bytes_of_sextets :: "nat list \<Rightarrow> string option" where
  "bytes_of_sextets [] = Some []"
| "bytes_of_sextets [w] = None"
| "bytes_of_sextets [w, x] = Some [char_of (w * 4 + x div 16)]"
| "bytes_of_sextets [w, x, y] = Some [char_of (w * 4 + x div 16), char_of (x mod 16 * 16 + y div 4)]"
| "bytes_of_sextets (w # x # y # z # r) =
     map_option (\<lambda>bs. char_of (w * 4 + x div 16) # char_of (x mod 16 * 16 + y div 4) #
                       char_of (y mod 4 * 64 + z) # bs) (bytes_of_sextets r)"

fun all_some :: "'a option list \<Rightarrow> 'a list option" where
  "all_some [] = Some []"
| "all_some (None # r) = None"
| "all_some (Some x # r) = map_option (\<lambda>xs. x # xs) (all_some r)"

definition decode64 :: "string \<Rightarrow> string \<Rightarrow> string option" where
  "decode64 A s =
     (case all_some (map (\<lambda>c. index_of c A) (filter (\<lambda>c. c \<noteq> CHR 0x0D \<and> c \<noteq> CHR 0x0A) s)) of
        None \<Rightarrow> None | Some ws \<Rightarrow> bytes_of_sextets ws)"

lemma index_of_nth: "distinct A \<Longrightarrow> i < length A \<Longrightarrow> index_of (A ! i) A = Some i"
  by (induction A arbitrary: i) (auto simp: nth_Cons nth_mem split: nat.splits)

text \<open>The sextets of a group are in range and give the bytes back.\<close>

lemma sextet_range [simp]:
  "byte a div 4 < 64" "byte a mod 4 * 16 < 64" "byte a mod 4 * 16 + byte b div 16 < 64"
  "byte b mod 16 * 4 < 64" "byte b mod 16 * 4 + byte c div 64 < 64" "byte c mod 64 < 64"
proof -
  have a: "byte a div 4 < 64" "byte b div 16 < 16" "byte c div 64 < 4"
    using byte_less [of a] byte_less [of b] byte_less [of c] by (simp_all add: less_mult_imp_div_less)
  have m: "byte a mod 4 < 4" "byte b mod 16 < 16" "byte c mod 64 < 64" by simp_all
  show "byte a div 4 < 64" "byte a mod 4 * 16 < 64" "byte a mod 4 * 16 + byte b div 16 < 64"
    "byte b mod 16 * 4 < 64" "byte b mod 16 * 4 + byte c div 64 < 64" "byte c mod 64 < 64"
    using a m by linarith+
qed

lemma sextet_parts [simp]:
  "byte b div 16 div 16 = 0" "byte b div 16 mod 16 = byte b div 16"
  "byte c div 64 div 4 = 0" "byte c div 64 mod 4 = byte c div 64"
proof -
  have "byte b div 16 < 16" "byte c div 64 < 4"
    using byte_less [of b] byte_less [of c] by (simp_all add: less_mult_imp_div_less)
  then show "byte b div 16 div 16 = 0" "byte b div 16 mod 16 = byte b div 16"
    "byte c div 64 div 4 = 0" "byte c div 64 mod 4 = byte c div 64" by simp_all
qed

lemma sextet_bytes [simp]: "char_of (byte b div 16 * 16 + byte b mod 16) = b"
  "char_of (byte c div 64 * 64 + byte c mod 64) = c"
  by (simp_all only: div_mult_mod_eq char_of_byte)

lemma encode64_alphabet: "length A = 64 \<Longrightarrow> set (encode64 A bs) \<subseteq> set A"
  by (induction A bs rule: encode64.induct) simp_all

lemma decode64_encode64_aux:
  assumes "distinct A" and "length A = 64"
  shows "\<exists>ws. all_some (map (\<lambda>c. index_of c A) (encode64 A bs)) = Some ws \<and> bytes_of_sextets ws = Some bs"
  using assms
proof (induction A bs rule: encode64.induct)
  case (4 A a b c r)
  then obtain ws where "all_some (map (\<lambda>c. index_of c A) (encode64 A r)) = Some ws" "bytes_of_sextets ws = Some r"
    by blast
  with 4 show ?case by (simp add: index_of_nth)
qed (simp_all add: index_of_nth)

lemma decode64_encode64:
  assumes "distinct A" "length A = 64" "CHR 0x0D \<notin> set A" "CHR 0x0A \<notin> set A"
  shows "decode64 A (encode64 A bs) = Some bs"
proof -
  have "filter (\<lambda>c. c \<noteq> CHR 0x0D \<and> c \<noteq> CHR 0x0A) (encode64 A bs) = encode64 A bs"
    using encode64_alphabet [OF assms(2), of bs] assms(3,4) by (auto simp: filter_id_conv)
  with decode64_encode64_aux [OF assms(1,2), of bs] show ?thesis
    by (auto simp: decode64_def)
qed


lemma alphabets:
  "distinct std64" "length std64 = 64" "distinct url64" "length url64 = 64"
  "set std64 \<inter> {CHR 0x0D, CHR 0x0A, CHR ''$''} = {}" "set url64 \<inter> {CHR 0x0D, CHR 0x0A, CHR ''$''} = {}"
  by (simp_all add: std64_def url64_def upper_letters_def)

fun bits32 :: "nat list \<Rightarrow> string" where
  "bits32 [] = []"
| "bits32 (q # qs) = std32 ! (q mod 32) # bits32 qs"

text \<open>\<open>base32.StdEncoding.EncodeToString\<close> without padding, five bytes at a time.\<close>

definition group32 :: "nat \<Rightarrow> nat \<Rightarrow> nat \<Rightarrow> nat \<Rightarrow> nat \<Rightarrow> nat list" where
  "group32 a b c d e =
     [a div 8, a mod 8 * 4 + b div 64, b div 2 mod 32, b mod 2 * 16 + c div 16,
      c mod 16 * 2 + d div 128, d div 4 mod 32, d mod 4 * 8 + e div 32, e mod 32]"

fun encode32 :: "string \<Rightarrow> string" where
  "encode32 [] = []"
| "encode32 [a] = bits32 (take 2 (group32 (byte a) 0 0 0 0))"
| "encode32 [a, b] = bits32 (take 4 (group32 (byte a) (byte b) 0 0 0))"
| "encode32 [a, b, c] = bits32 (take 5 (group32 (byte a) (byte b) (byte c) 0 0))"
| "encode32 [a, b, c, d] = bits32 (take 7 (group32 (byte a) (byte b) (byte c) (byte d) 0))"
| "encode32 (a # b # c # d # e # r) = bits32 (group32 (byte a) (byte b) (byte c) (byte d) (byte e)) @ encode32 r"

subsection \<open>Passwords\<close>

definition min_password_length :: nat where "min_password_length = 12"

datatype pwerror = TooShort | UnsupportedHash | UnsupportedVersion | MalformedHash

definition pwerror_text :: "pwerror \<Rightarrow> string" where
  "pwerror_text e =
     (case e of
        TooShort \<Rightarrow> ''password must be at least 12 characters''
      | UnsupportedHash \<Rightarrow> ''auth: unsupported password hash''
      | UnsupportedVersion \<Rightarrow> ''auth: unsupported argon2 version''
      | MalformedHash \<Rightarrow> ''auth: malformed password hash'')"

definition hash_password :: "crypto \<Rightarrow> string \<Rightarrow> string \<Rightarrow> pwerror + string" where
  "hash_password K salt pw =
     (if length pw < min_password_length then Inl TooShort
      else Inr (''$argon2id$v='' @ show_nat (argon_version K) @ ''$m='' @ show_nat (64 * 1024) @
                '',t='' @ show_nat 3 @ '',p='' @ show_nat 2 @ ''$'' @ encode64 std64 salt @ ''$'' @
                encode64 std64 (argon_id_key K pw salt 3 (64 * 1024) 2 32)))"

text \<open>
  \<open>fmt.Sscanf\<close> with the verb \<open>%d\<close>: blanks, an optional sign for signed targets, decimal digits; what
  follows the last verb is not looked at.
\<close>

definition scan_uint :: "nat \<Rightarrow> string \<Rightarrow> (int \<times> string) option" where
  "scan_uint w s =
     (let t = dropWhile (\<lambda>c. is_space c \<and> c \<noteq> CHR 0x0A) s; ds = takeWhile is_digit t
      in if ds = [] \<or> digits_val 0 ds \<ge> 2 ^ w then None else Some (digits_val 0 ds, dropWhile is_digit t))"

definition scan_int :: "nat \<Rightarrow> string \<Rightarrow> (int \<times> string) option" where
  "scan_int w s =
     (let t = dropWhile (\<lambda>c. is_space c \<and> c \<noteq> CHR 0x0A) s;
          neg = (t \<noteq> [] \<and> hd t = CHR ''-'');
          u = (if t \<noteq> [] \<and> hd t \<in> {CHR ''-'', CHR ''+''} then tl t else t);
          ds = takeWhile is_digit u; n = (if neg then - digits_val 0 ds else digits_val 0 ds)
      in if ds = [] \<or> n < - (2 ^ (w - 1)) \<or> n \<ge> 2 ^ (w - 1) then None else Some (n, dropWhile is_digit u))"

definition scan_lit :: "string \<Rightarrow> string \<Rightarrow> string option" where
  "scan_lit p s = (if starts_with p s then Some (drop (length p) s) else None)"

definition scan_version :: "string \<Rightarrow> int option" where
  "scan_version s =
     (case scan_lit ''v='' s of None \<Rightarrow> None | Some r \<Rightarrow> map_option fst (scan_int 64 r))"

definition scan_params :: "string \<Rightarrow> (int \<times> int \<times> int) option" where
  "scan_params s =
     (case Option.bind (scan_lit ''m='' s) (scan_uint 32) of
        None \<Rightarrow> None
      | Some (m, s1) \<Rightarrow>
          (case Option.bind (scan_lit '',t='' s1) (scan_uint 32) of
             None \<Rightarrow> None
           | Some (t, s2) \<Rightarrow>
               (case Option.bind (scan_lit '',p='' s2) (scan_uint 8) of
                  None \<Rightarrow> None | Some (p, s3) \<Rightarrow> Some (m, t, p))))"

definition check_parts :: "crypto \<Rightarrow> string list \<Rightarrow> string \<Rightarrow> pwerror + bool" where
  "check_parts K parts pw =
     (if scan_version (parts ! 2) \<noteq> Some (int (argon_version K)) then Inl UnsupportedVersion
      else (case scan_params (parts ! 3) of
              None \<Rightarrow> Inl MalformedHash
            | Some (m, t, p) \<Rightarrow>
                (case decode64 std64 (parts ! 4) of
                   None \<Rightarrow> Inl MalformedHash
                 | Some salt \<Rightarrow>
                     (case decode64 std64 (parts ! 5) of
                        None \<Rightarrow> Inl MalformedHash
                      | Some want \<Rightarrow>
                          Inr (argon_id_key K pw salt (nat t) (nat m) (nat p) (length want) = want)))))"

definition check_password :: "crypto \<Rightarrow> string \<Rightarrow> string \<Rightarrow> pwerror + bool" where
  "check_password K encoded pw =
     (let parts = split_char (CHR ''$'') encoded
      in if length parts \<noteq> 6 \<or> parts ! 1 \<noteq> ''argon2id'' then Inl UnsupportedHash else check_parts K parts pw)"

lemma digits_no_blank:
  "list_all is_digit ds \<Longrightarrow> ds \<noteq> [] \<Longrightarrow> dropWhile (\<lambda>c. is_space c \<and> c \<noteq> CHR 0x0A) (ds @ r) = ds @ r"
  by (cases ds) (auto simp: is_digit_def is_space_def)

lemma takeWhile_digits:
  "list_all is_digit ds \<Longrightarrow> r = [] \<or> \<not> is_digit (hd r) \<Longrightarrow>
     takeWhile is_digit (ds @ r) = ds \<and> dropWhile is_digit (ds @ r) = r"
  by (induction ds) (cases r; auto)+

lemma scan_uint_show:
  assumes "n < 2 ^ w" and "r = [] \<or> \<not> is_digit (hd r)"
  shows "scan_uint w (show_nat n @ r) = Some (int n, r)"
proof -
  have "int n < 2 ^ w" using assms(1) by (metis of_nat_less_iff of_nat_numeral of_nat_power)
  then show ?thesis
    using takeWhile_digits [OF show_nat_digits assms(2), of n]
    by (simp add: scan_uint_def digits_no_blank show_nat_digits show_nat_nonempty digits_val_show_nat)
qed

lemma hd_show_nat: "is_digit (hd (show_nat n @ r))"
  using show_nat_digits [of n] show_nat_nonempty [of n] by (cases "show_nat n") auto

lemma scan_int_show:
  assumes "n < 2 ^ (w - 1)" and "r = [] \<or> \<not> is_digit (hd r)"
  shows "scan_int w (show_nat n @ r) = Some (int n, r)"
proof -
  have n: "int n < 2 ^ (w - 1)" using assms(1) by (metis of_nat_less_iff of_nat_numeral of_nat_power)
  moreover have "- (2 ^ (w - 1)) \<le> int n" by (rule order_trans [of _ 0]) simp_all
  moreover have "hd (show_nat n @ r) \<notin> {CHR ''-'', CHR ''+''}"
    using hd_show_nat [of n r] by (auto simp: is_digit_def)
  ultimately show ?thesis
    using takeWhile_digits [OF show_nat_digits assms(2), of n]
    by (simp add: scan_int_def digits_no_blank show_nat_digits show_nat_nonempty digits_val_show_nat Let_def)
qed

lemma not_in_digits: "list_all is_digit ds \<Longrightarrow> \<not> is_digit c \<Longrightarrow> c \<notin> set ds"
  by (auto simp: list_all_iff)

text \<open>The fields of an encoded hash.\<close>

lemma hash_parts:
  assumes "hash_password K salt pw = Inr h"
  shows "split_char (CHR ''$'') h =
    [[], ''argon2id'', ''v='' @ show_nat (argon_version K),
     ''m='' @ show_nat (64 * 1024) @ '',t='' @ show_nat 3 @ '',p='' @ show_nat 2,
     encode64 std64 salt, encode64 std64 (argon_id_key K pw salt 3 (64 * 1024) 2 32)]"
proof -
  let ?d = "CHR ''$''"
  let ?k = "encode64 std64 (argon_id_key K pw salt 3 (64 * 1024) 2 32)"
  have b64: "?d \<notin> set (encode64 std64 bs)" for bs
    using encode64_alphabet [of std64 bs] alphabets by auto
  have dig: "?d \<notin> set (show_nat n)" for n by (rule not_in_digits [OF show_nat_digits]) (simp add: is_digit_def)
  have h: "h = ?d # ''argon2id'' @ ?d # (''v='' @ show_nat (argon_version K)) @ ?d #
      (''m='' @ show_nat (64 * 1024) @ '',t='' @ show_nat 3 @ '',p='' @ show_nat 2) @ ?d # encode64 std64 salt @ ?d # ?k"
    using assms by (auto simp: hash_password_def split: if_splits)
  show ?thesis
    unfolding h by (simp add: b64 dig split_char_prefix split_char_one)
qed

definition sample_crypto :: crypto where
  "sample_crypto = \<lparr>argon_version = 19,
     argon_id_key = (\<lambda>pw salt t m p n. take n (pw @ salt @ replicate n (CHR ''x''))),
     hmac_sha1 = (\<lambda>k m. take 20 (m @ k @ replicate 20 (CHR ''h''))),
     sha256_hex = (\<lambda>s. ''sha256:'' @ s)\<rparr>"

lemma check_password_hashed:
  assumes "hash_password K salt pw = Inr h" and "argon_version K < 2 ^ 63"
    and len: "\<And>pw. length (argon_id_key K pw salt 3 (64 * 1024) 2 32) = 32"
  shows "check_password K h pw' =
     Inr (argon_id_key K pw' salt 3 (64 * 1024) 2 32 = argon_id_key K pw salt 3 (64 * 1024) 2 32)"
proof -
  have dec: "decode64 std64 (encode64 std64 bs) = Some bs" for bs
    using alphabets by (intro decode64_encode64) auto
  have v: "scan_version (''v='' @ show_nat (argon_version K)) = Some (int (argon_version K))"
    using scan_int_show [of "argon_version K" 64 "[]"] assms(2) by (simp add: scan_version_def scan_lit_def)
  have "scan_params (''m='' @ show_nat (64 * 1024) @ '',t='' @ show_nat 3 @ '',p='' @ show_nat 2) = Some (65536, 3, 2)"
    using scan_uint_show [of "64 * 1024" 32 "'',t='' @ show_nat 3 @ '',p='' @ show_nat 2"]
      scan_uint_show [of 3 32 "'',p='' @ show_nat 2"] scan_uint_show [of 2 8 "[]"]
    by (simp add: scan_params_def scan_lit_def is_digit_def)
  then show ?thesis
    using v by (simp add: check_password_def check_parts_def hash_parts [OF assms(1)] Let_def dec len [simplified])
qed

text \<open>
  A password that was hashed is checked by recomputing its key with the stored salt: the check
  never fails with a format error, accepts the password itself, and accepts another one exactly
  when Argon2id gives it the same key.
\<close>

lemma check_hashed:
  assumes "hash_password K salt pw = Inr h" and "argon_version K < 2 ^ 63"
    and len: "\<And>pw. length (argon_id_key K pw salt 3 (64 * 1024) 2 32) = 32"
  shows "check_password K h pw' =
     Inr (argon_id_key K pw' salt 3 (64 * 1024) 2 32 = argon_id_key K pw salt 3 (64 * 1024) 2 32)"
  using assms by (rule check_password_hashed)

lemma check_hashed_example:
  "\<exists>h. hash_password sample_crypto ''0123456789abcdef'' ''correct horse'' = Inr h \<and>
     check_password sample_crypto h ''correct horse'' = Inr True \<and>
     check_password sample_crypto h ''wrong horse!!'' = Inr False"
proof -
  obtain h where h: "hash_password sample_crypto ''0123456789abcdef'' ''correct horse'' = Inr h"
    by (simp add: hash_password_def min_password_length_def)
  have "length (argon_id_key sample_crypto pw ''0123456789abcdef'' 3 (64 * 1024) 2 32) = 32" for pw
    by (simp add: sample_crypto_def)
  note law = check_hashed [OF h _ this]
  have "check_password sample_crypto h ''correct horse'' = Inr True"
    by (subst law) (simp_all add: sample_crypto_def)
  moreover have "check_password sample_crypto h ''wrong horse!!'' = Inr False"
    by (subst law) (simp_all add: sample_crypto_def)
  ultimately show ?thesis using h by blast
qed

subsection \<open>One-time codes\<close>

definition totp_digits :: nat where "totp_digits = 6"
definition totp_step :: int where "totp_step = 30"
definition totp_skew :: int where "totp_skew = 1"

text \<open>\<open>binary.BigEndian.PutUint64\<close> and \<open>binary.BigEndian.Uint32\<close>.\<close>

definition put_uint64 :: "64 word \<Rightarrow> string" where
  "put_uint64 w = map (\<lambda>k. char_of (unat (drop_bit (8 * k) w AND 0xFF))) [7, 6, 5, 4, 3, 2, 1, 0]"

definition get_uint32 :: "string \<Rightarrow> 32 word" where
  "get_uint32 b = push_bit 24 (of_nat (byte (b ! 0))) OR push_bit 16 (of_nat (byte (b ! 1))) OR
     push_bit 8 (of_nat (byte (b ! 2))) OR of_nat (byte (b ! 3))"

text \<open>The verb \<open>%0*d\<close>: decimal digits, padded with zeros on the left.\<close>

definition pad_zero :: "nat \<Rightarrow> nat \<Rightarrow> string" where
  "pad_zero w n = replicate (w - length (show_nat n)) (CHR ''0'') @ show_nat n"

definition totp_at :: "crypto \<Rightarrow> string \<Rightarrow> 64 word \<Rightarrow> string" where
  "totp_at K secret counter =
     (let sum = hmac_sha1 K secret (put_uint64 counter);
          off = byte (last sum) AND 0x0F;
          code = get_uint32 (take 4 (drop off sum)) AND 0x7FFFFFFF
      in pad_zero totp_digits (unat code mod 1000000))"

definition unix_time :: "time \<Rightarrow> int" where "unix_time t = t div second"

definition totp_code :: "crypto \<Rightarrow> string \<Rightarrow> time \<Rightarrow> string" where
  "totp_code K secret t = totp_at K secret (word_of_int (unix_time t sdiv totp_step))"

definition verify_totp :: "crypto \<Rightarrow> string \<Rightarrow> string \<Rightarrow> time \<Rightarrow> bool" where
  "verify_totp K secret code now =
     (if length code \<noteq> totp_digits then False
      else (let counter = unix_time now sdiv totp_step
            in list_ex (\<lambda>d. totp_at K secret (word_of_int (counter + d)) = code) [- totp_skew..totp_skew]))"

lemma length_show_nat: "n < 10 ^ Suc k \<Longrightarrow> length (show_nat n) \<le> Suc k"
proof (induction k arbitrary: n)
  case 0
  then show ?case by (simp add: show_nat.simps)
next
  case (Suc k)
  show ?case
  proof (cases "n < 10")
    case False
    have "n div 10 < 10 ^ Suc k" using Suc.prems by (simp add: less_mult_imp_div_less)
    with False show ?thesis using Suc.IH [of "n div 10"] by (subst show_nat.simps) simp
  qed (simp add: show_nat.simps)
qed

lemma length_totp_at [simp]: "length (totp_at K secret w) = totp_digits"
proof -
  have "length (pad_zero 6 (n mod 1000000)) = 6" for n
    using length_show_nat [of "n mod 1000000" 5] by (simp add: pad_zero_def)
  then show ?thesis by (simp add: totp_at_def totp_digits_def Let_def)
qed

lemma sdiv_nonneg: "0 \<le> (x :: int) \<Longrightarrow> x sdiv 30 = x div 30"
  by (cases "x = 0") (simp_all add: signed_divide_int_def)

lemma counter_shift:
  assumes "30 * second \<le> now" and "d \<in> {-1, 0, 1}"
  shows "unix_time (now + d * 30 * second) sdiv totp_step = unix_time now sdiv totp_step + d"
proof -
  have u: "unix_time (now + d * 30 * second) = unix_time now + d * 30"
  proof -
    have "now + d * 30 * second = now + second * (d * 30)" by simp
    then show ?thesis unfolding unix_time_def by (metis div_mult_self2 zero_neq_numeral add.commute)
  qed
  have "30 \<le> unix_time now" using assms(1) by (simp add: unix_time_def zdiv_mono1 [of "30 * second", simplified])
  with assms(2) have "0 \<le> unix_time now" "0 \<le> unix_time now + d * 30" by auto
  then have "(unix_time now + d * 30) sdiv 30 = (unix_time now + d * 30) div 30" "unix_time now sdiv 30 = unix_time now div 30"
    by (simp_all only: sdiv_nonneg)
  then show ?thesis unfolding u totp_step_def by simp
qed

lemma verify_steps:
  assumes "30 * second \<le> now"
  shows "verify_totp K secret code now \<longleftrightarrow>
     code \<in> totp_code K secret ` {now - 30 * second, now, now + 30 * second}"
proof -
  have c: "totp_code K secret (now + d * 30 * second) = totp_at K secret (word_of_int (unix_time now sdiv totp_step + d))"
    if "d \<in> {-1, 0, 1}" for d
    using counter_shift [OF assms that] by (simp add: totp_code_def)
  have range: "[- totp_skew..totp_skew] = [-1, 0, 1]" by (simp add: totp_skew_def upto_rec1)
  show ?thesis
    using c [of "-1"] c [of 0] c [of 1] unfolding verify_totp_def range
    by (auto simp: Let_def)
qed

lemma totp_digits_only: "list_all is_digit (totp_at K secret w)"
proof -
  have "list_all is_digit (replicate n (CHR ''0''))" for n by (simp add: list_all_iff is_digit_def)
  then show ?thesis by (simp add: totp_at_def pad_zero_def Let_def show_nat_digits)
qed

text \<open>
  A one-time code is accepted exactly when it is the code of the current thirty-second step, of
  the one before or of the one after.
\<close>

lemma totp_window:
  assumes "30 * second \<le> now"
  shows "verify_totp K secret code now \<longleftrightarrow>
     code \<in> totp_code K secret ` {now - 30 * second, now, now + 30 * second}"
  using assms by (rule verify_steps)

lemma totp_window_example:
  "verify_totp sample_crypto ''secret'' (totp_code sample_crypto ''secret'' (65 * second)) (95 * second)"
  using totp_window [of "95 * second" sample_crypto "''secret''"] by simp

subsection \<open>The setup URI\<close>

text \<open>
  \<open>url.PathEscape\<close> and \<open>url.QueryEscape\<close>: letters, digits and \<open>-_.~\<close> stand for themselves; in a
  path segment so do \<open>$&+=:@\<close>, in a query a space becomes a plus.
\<close>

definition hex_digit :: "nat \<Rightarrow> char" where "hex_digit n = ''0123456789ABCDEF'' ! n"

definition is_alnum :: "char \<Rightarrow> bool" where
  "is_alnum c \<longleftrightarrow> is_digit c \<or> c \<in> set upper_letters \<or> c \<in> set ''abcdefghijklmnopqrstuvwxyz''"

definition percent :: "char \<Rightarrow> string" where
  "percent c = [CHR ''%'', hex_digit (byte c div 16), hex_digit (byte c mod 16)]"

definition path_escape :: "string \<Rightarrow> string" where
  "path_escape s = concat (map (\<lambda>c. if is_alnum c \<or> c \<in> set ''-_.~$&+=:@'' then [c] else percent c) s)"

definition query_escape :: "string \<Rightarrow> string" where
  "query_escape s =
     concat (map (\<lambda>c. if is_alnum c \<or> c \<in> set ''-_.~'' then [c] else if c = CHR '' '' then ''+'' else percent c) s)"

definition totp_secret_text :: "string \<Rightarrow> string" where "totp_secret_text secret = encode32 secret"

text \<open>\<open>url.Values.Encode\<close> sorts the keys.\<close>

definition totp_uri :: "string \<Rightarrow> string \<Rightarrow> string \<Rightarrow> string" where
  "totp_uri issuer account secret =
     ''otpauth://totp/'' @ path_escape (issuer @ '':'' @ account) @ ''?digits='' @ show_nat totp_digits @
     ''&issuer='' @ query_escape issuer @ ''&period='' @ show_int totp_step @ ''&secret='' @ query_escape (encode32 secret)"

end
