(* ===== verification/Lockout.thy ===== *)
theory Lockout
  imports Prelude
begin

text \<open>
  The lockout contract that the panel sign-in (\<open>internal/auth\<close>) and the two-factor users
  (\<open>internal/otp\<close>) share: an account counts consecutive wrong guesses, the guess that reaches the
  limit locks the account for a fixed span and starts the count again, and a guess at a locked
  account is turned away before its credential is looked at.

  \<open>attempt now c s\<close> is the state after guessing \<open>c\<close> and whether the credential was looked at.
  From the laws the locale derives the bound on guesses: within any stretch of time no longer than
  the span, however the guesses are ordered, at most \<open>limit\<close> credentials are looked at.
\<close>

definition locked_at :: "time option \<Rightarrow> time \<Rightarrow> bool" where
  "locked_at u now \<longleftrightarrow> (case u of None \<Rightarrow> False | Some t \<Rightarrow> now < t)"

lemma locked_at_simps [simp]: "\<not> locked_at None now" "locked_at (Some t) now \<longleftrightarrow> now < t"
  by (simp_all add: locked_at_def)

locale lockout =
  fixes good :: "'s \<Rightarrow> bool"
    and attempt :: "time \<Rightarrow> 'c \<Rightarrow> 's \<Rightarrow> 's \<times> bool"
    and wrong :: "time \<Rightarrow> 'c \<Rightarrow> 's \<Rightarrow> bool"
    and failures :: "'s \<Rightarrow> nat"
    and until :: "'s \<Rightarrow> time option"
    and limit :: nat
    and span :: time
  assumes turned_away: "good s \<Longrightarrow> locked_at (until s) now \<Longrightarrow> attempt now c s = (s, False)"
    and looked_at: "good s \<Longrightarrow> \<not> locked_at (until s) now \<Longrightarrow> wrong now c s \<Longrightarrow> snd (attempt now c s)"
    and counted: "good s \<Longrightarrow> \<not> locked_at (until s) now \<Longrightarrow> wrong now c s \<Longrightarrow>
      failures (fst (attempt now c s)) = (if limit \<le> Suc (failures s) then 0 else Suc (failures s)) \<and>
      until (fst (attempt now c s)) = (if limit \<le> Suc (failures s) then Some (now + span) else None)"
    and still_good: "good s \<Longrightarrow> \<not> locked_at (until s) now \<Longrightarrow> wrong now c s \<Longrightarrow> good (fst (attempt now c s))"
    and still_wrong: "good s \<Longrightarrow> \<not> locked_at (until s) now \<Longrightarrow> wrong now c s \<Longrightarrow>
      wrong now' c' (fst (attempt now c s)) \<longleftrightarrow> wrong now' c' s"
begin

fun guesses :: "(time \<times> 'c) list \<Rightarrow> 's \<Rightarrow> nat" where
  "guesses [] s = 0"
| "guesses ((now, c) # gs) s =
     (let (s', seen) = attempt now c s in (if seen then Suc (guesses gs s') else guesses gs s'))"

lemma guesses_locked:
  "good s \<Longrightarrow> until s = Some u \<Longrightarrow> (\<And>now c. (now, c) \<in> set gs \<Longrightarrow> now < u) \<Longrightarrow> guesses gs s = 0"
proof (induction gs)
  case Nil
  then show ?case by simp
next
  case (Cons g gs)
  obtain now c where g: "g = (now, c)" by (cases g)
  from Cons.prems(3) [of now c] have "now < u" by (simp add: g)
  then have "attempt now c s = (s, False)" using Cons.prems(1,2) by (simp add: turned_away)
  moreover have "guesses gs s = 0" by (rule Cons.IH) (use Cons.prems in auto)
  ultimately show ?case by (simp add: g)
qed

lemma guesses_bound:
  assumes "good s" and "failures s < limit"
    and "\<And>now c. (now, c) \<in> set gs \<Longrightarrow> a \<le> now \<and> now < a + span \<and> wrong now c s"
  shows "guesses gs s \<le> limit - failures s"
  using assms
proof (induction gs arbitrary: s)
  case Nil
  then show ?case by simp
next
  case (Cons g gs)
  obtain now c where g: "g = (now, c)" by (cases g)
  have now: "a \<le> now" and w: "wrong now c s" using Cons.prems(3) [of now c] by (simp_all add: g)
  have rest: "t \<le> now + span \<and> t < now + span \<and> a \<le> t \<and> t < a + span \<and> wrong t d s" if "(t, d) \<in> set gs" for t d
    using Cons.prems(3) [of t d] that now by (auto simp: g)
  show ?case
  proof (cases "locked_at (until s) now")
    case True
    with Cons.prems(1) have "attempt now c s = (s, False)" by (simp add: turned_away)
    moreover have "guesses gs s \<le> limit - failures s"
      by (rule Cons.IH) (use Cons.prems(1,2) rest in auto)
    ultimately show ?thesis by (simp add: g)
  next
    case False
    obtain s' b where s': "attempt now c s = (s', b)" by (cases "attempt now c s")
    note facts = looked_at [OF Cons.prems(1) False w] counted [OF Cons.prems(1) False w]
      still_good [OF Cons.prems(1) False w] still_wrong [OF Cons.prems(1) False w]
    show ?thesis
    proof (cases "limit \<le> Suc (failures s)")
      case True
      then have "guesses gs s' = 0"
        using facts s' rest by (intro guesses_locked [where u = "now + span"]) auto
      with facts(1) s' Cons.prems(2) show ?thesis by (simp add: g)
    next
      case less: False
      have "guesses gs s' \<le> limit - failures s'"
        by (rule Cons.IH) (use facts s' rest less in auto)
      with facts s' less show ?thesis by (simp add: g)
    qed
  qed
qed

end

end
