(* ===== verification/Auth.thy ===== *)
theory Auth
  imports Password Lockout "HOL-Library.List_Lexorder" "HOL-Library.Char_ord"
begin

text \<open>
  Users, roles, sign-in and sessions of the panel (\<open>internal/auth/roles.go\<close>, \<open>service.go\<close>,
  \<open>users.go\<close>). The tables \<open>users\<close> and \<open>sessions\<close> are the state; every handler gets the clock
  and its random bytes as arguments. The box that seals the one-time secrets is a pair of functions
  of \<open>authenv\<close>, with the context string the code passes to it.
\<close>

subsection \<open>Roles\<close>

abbreviation RoleSuperAdmin :: string where "RoleSuperAdmin \<equiv> ''superadmin''"
abbreviation RoleAdmin :: string where "RoleAdmin \<equiv> ''admin''"
abbreviation RoleApprover :: string where "RoleApprover \<equiv> ''approver''"
abbreviation RoleOperator :: string where "RoleOperator \<equiv> ''operator''"
abbreviation RoleViewer :: string where "RoleViewer \<equiv> ''viewer''"

datatype perm =
    PermDevicesRead | PermDevicesWrite | PermBackupsRun | PermBackupsAdmin | PermRestore
  | PermAlertsManage | PermPackages | PermChangeCreate | PermOTP | PermChangeApprove
  | PermLicenseRead | PermLicenseManage | PermUsersManage | PermAuditRead | PermSettings

definition role_perms :: "string \<Rightarrow> perm list option" where
  "role_perms = map_of
     [(RoleSuperAdmin,
        [PermDevicesRead, PermDevicesWrite, PermBackupsRun, PermBackupsAdmin, PermRestore, PermAlertsManage,
         PermChangeApprove, PermLicenseRead, PermLicenseManage, PermUsersManage, PermAuditRead, PermSettings,
         PermPackages, PermChangeCreate, PermOTP]),
      (RoleAdmin,
        [PermDevicesRead, PermDevicesWrite, PermBackupsRun, PermBackupsAdmin, PermRestore, PermAlertsManage,
         PermChangeApprove, PermLicenseRead, PermAuditRead, PermPackages, PermChangeCreate, PermOTP]),
      (RoleApprover, [PermDevicesRead, PermChangeApprove, PermLicenseRead, PermAuditRead]),
      (RoleOperator, [PermDevicesRead, PermBackupsRun, PermLicenseRead, PermChangeCreate]),
      (RoleViewer, [PermDevicesRead, PermLicenseRead])]"

definition role_valid :: "string \<Rightarrow> bool" where "role_valid r \<longleftrightarrow> role_perms r \<noteq> None"

text \<open>Indexing a Go map with an absent key gives the empty slice.\<close>

definition perms_of :: "string \<Rightarrow> perm list" where
  "perms_of r = (case role_perms r of None \<Rightarrow> [] | Some ps \<Rightarrow> ps)"

definition role_can :: "string \<Rightarrow> perm \<Rightarrow> bool" where
  "role_can r p \<longleftrightarrow> list_ex (\<lambda>have. have = p) (perms_of r)"

subsection \<open>Data\<close>

datatype aerror =
    InvalidCredentials | AccountLocked | InvalidCode | NoSession | UsernameTaken | MFASetupState
  | UserNotFound | AuthInput string | HashError pwerror | BoxError string | NoRows | DuplicateSession

record user =
  us_id :: int
  us_name :: string
  us_full :: string
  us_email :: string
  us_role :: string
  us_totp :: bool

text \<open>A row of \<open>users\<close>: the public part, then \<open>userRow\<close> and the columns of the screens.\<close>

record urow = user +
  us_phone :: string
  us_source :: string
  us_hash :: string
  us_secret :: "string option"
  us_active :: bool
  us_failed :: nat
  us_locked :: "time option"
  us_login :: "time option"
  us_created :: time

record session =
  se_id :: string
  se_user :: user
  se_mfa :: bool
  se_expires :: time

record srow =
  sr_id :: string
  sr_user :: int
  sr_mfa :: bool
  sr_ip :: string
  sr_agent :: string
  sr_created :: time
  sr_seen :: time
  sr_expires :: time

record authdb =
  users :: "urow list"
  sessions :: "srow list"
  next_user :: int

record authenv =
  ae_crypto :: crypto
  ae_seal :: "string \<Rightarrow> string \<Rightarrow> string"
  ae_open :: "string \<Rightarrow> string \<Rightarrow> string + string"

definition max_failures :: nat where "max_failures = 5"
definition lock_duration :: time where "lock_duration = 15 * minute"
definition idle_timeout :: time where "idle_timeout = 30 * minute"
definition session_ttl :: time where "session_ttl = 12 * hour"

definition public_user :: "urow \<Rightarrow> user" where
  "public_user r = user.truncate r"

definition normalize_username :: "string \<Rightarrow> string" where
  "normalize_username u = to_lower (trim_space u)"

definition hash_token :: "authenv \<Rightarrow> string \<Rightarrow> string" where
  "hash_token E token = sha256_hex (ae_crypto E) token"

definition totp_context :: "int \<Rightarrow> string" where "totp_context i = ''totp:'' @ show_int i"

text \<open>\<open>WHERE lower(u.username) = $1\<close>.\<close>

definition user_named :: "string \<Rightarrow> authdb \<Rightarrow> urow option" where
  "user_named name db = find_row (\<lambda>r. to_lower (us_name r)) name (users db)"

definition set_user :: "int \<Rightarrow> (urow \<Rightarrow> urow) \<Rightarrow> authdb \<Rightarrow> authdb" where
  "set_user i f db = db\<lparr>users := upd_rows (\<lambda>r. us_id r = i) f (users db)\<rparr>"

definition end_sessions :: "int \<Rightarrow> authdb \<Rightarrow> authdb" where
  "end_sessions i db = db\<lparr>sessions := del_rows (\<lambda>s. sr_user s = i) (sessions db)\<rparr>"

subsection \<open>Accounts\<close>

definition create_user ::
  "authenv \<Rightarrow> time \<Rightarrow> string \<Rightarrow> string \<Rightarrow> string \<Rightarrow> string \<Rightarrow> string \<Rightarrow> string \<Rightarrow> authdb \<Rightarrow> (authdb, aerror, user) outcome"
  where
  "create_user E now salt name0 full email role pw db =
     (if \<not> role_valid role then (db, Inl (AuthInput (''unknown role '' @ role)))
      else (let name = normalize_username name0
            in if name = [] \<or> contains_any [CHR '' '', CHR 0x09, CHR ''@''] name
               then (db, Inl (AuthInput ''invalid username''))
               else (case hash_password (ae_crypto E) salt pw of
                       Inl e \<Rightarrow> (db, Inl (HashError e))
                     | Inr h \<Rightarrow>
                         if user_named (to_lower name) db \<noteq> None then (db, Inl UsernameTaken)
                         else (let r = \<lparr>us_id = next_user db, us_name = name, us_full = trim_space full,
                                        us_email = trim_space email, us_role = role, us_totp = False,
                                        us_phone = [], us_source = ''local'', us_hash = h, us_secret = None,
                                        us_active = True, us_failed = 0, us_locked = None, us_login = None,
                                        us_created = now\<rparr>
                               in (db\<lparr>users := users db @ [r], next_user := next_user db + 1\<rparr>, Inr (public_user r))))))"

text \<open>\<open>UserInfo\<close>, with \<open>Locked\<close> computed by the database clock \<open>dbnow\<close>.\<close>

definition list_users :: "time \<Rightarrow> authdb \<Rightarrow> (urow \<times> bool) list" where
  "list_users dbnow db =
     map (\<lambda>r. (r\<lparr>us_hash := [], us_secret := None\<rparr>, case us_locked r of None \<Rightarrow> False | Some t \<Rightarrow> t > dbnow))
       (sort_key us_name (users db))"

record user_update =
  uu_name :: string
  uu_email :: string
  uu_phone :: string
  uu_role :: string
  uu_active :: bool

definition profile_row :: "user_update \<Rightarrow> urow \<Rightarrow> urow" where
  "profile_row u r = r\<lparr>us_full := trim_space (uu_name u), us_email := trim_space (uu_email u),
     us_phone := trim_space (uu_phone u), us_role := uu_role u, us_active := uu_active u\<rparr>"

definition apply_profile :: "int \<Rightarrow> user_update \<Rightarrow> authdb \<Rightarrow> (authdb, aerror, unit) outcome" where
  "apply_profile i u db =
     (if find_row us_id i (users db) = None then (db, Inl UserNotFound)
      else (let db1 = set_user i (profile_row u) db
            in (if uu_active u then db1 else end_sessions i db1, Inr ())))"

definition update_user :: "int \<Rightarrow> int \<Rightarrow> user_update \<Rightarrow> authdb \<Rightarrow> (authdb, aerror, unit) outcome" where
  "update_user actor i u db =
     (if \<not> role_valid (uu_role u) then (db, Inl (AuthInput (''unknown role '' @ uu_role u)))
      else if actor = i
      then (case find_row us_id i (users db) of
              None \<Rightarrow> (db, Inl NoRows)
            | Some cur \<Rightarrow>
                if us_role cur \<noteq> uu_role u \<or> \<not> uu_active u
                then (db, Inl (AuthInput ''you cannot change your own role or deactivate yourself''))
                else apply_profile i u db)
      else apply_profile i u db)"

definition unlocked_row :: "urow \<Rightarrow> urow" where "unlocked_row r = r\<lparr>us_failed := 0, us_locked := None\<rparr>"

definition set_password :: "authenv \<Rightarrow> string \<Rightarrow> int \<Rightarrow> string \<Rightarrow> authdb \<Rightarrow> (authdb, aerror, unit) outcome" where
  "set_password E salt i pw db =
     (case hash_password (ae_crypto E) salt pw of
        Inl e \<Rightarrow> (db, Inl (HashError e))
      | Inr h \<Rightarrow>
          if find_row us_id i (users db) = None then (db, Inl UserNotFound)
          else (end_sessions i (set_user i (\<lambda>r. unlocked_row (r\<lparr>us_hash := h\<rparr>)) db), Inr ()))"

definition reset_mfa :: "int \<Rightarrow> authdb \<Rightarrow> (authdb, aerror, unit) outcome" where
  "reset_mfa i db =
     (if find_row us_id i (users db) = None then (db, Inl UserNotFound)
      else (end_sessions i (set_user i (\<lambda>r. r\<lparr>us_totp := False, us_secret := None\<rparr>) db), Inr ()))"

definition unlock_user :: "int \<Rightarrow> authdb \<Rightarrow> authdb" where
  "unlock_user i db = set_user i unlocked_row db"

subsection \<open>Sign-in\<close>

definition failure_row :: "time \<Rightarrow> nat \<Rightarrow> urow \<Rightarrow> urow" where
  "failure_row now failed r =
     (if max_failures \<le> Suc failed then r\<lparr>us_failed := 0, us_locked := Some (now + lock_duration)\<rparr>
      else r\<lparr>us_failed := Suc failed, us_locked := None\<rparr>)"

definition record_failure :: "time \<Rightarrow> int \<Rightarrow> nat \<Rightarrow> authdb \<Rightarrow> authdb" where
  "record_failure now i failed db = set_user i (failure_row now failed) db"

text \<open>\<open>raw\<close> are the 32 random bytes of the token.\<close>

definition open_session ::
  "authenv \<Rightarrow> time \<Rightarrow> string \<Rightarrow> urow \<Rightarrow> string \<Rightarrow> string \<Rightarrow> authdb \<Rightarrow> (authdb, aerror, string \<times> session) outcome" where
  "open_session E now raw r ip agent db =
     (let token = encode64 url64 raw; sid = hash_token E token
      in if find_row sr_id sid (sessions db) \<noteq> None then (db, Inl DuplicateSession)
         else (db\<lparr>sessions := sessions db @
                   [\<lparr>sr_id = sid, sr_user = us_id r, sr_mfa = False, sr_ip = ip, sr_agent = agent,
                     sr_created = now, sr_seen = now, sr_expires = now + session_ttl\<rparr>]\<rparr>,
               Inr (token, \<lparr>se_id = sid, se_user = public_user r, se_mfa = False, se_expires = now + session_ttl\<rparr>)))"

definition login ::
  "authenv \<Rightarrow> time \<Rightarrow> string \<Rightarrow> string \<Rightarrow> string \<Rightarrow> string \<Rightarrow> string \<Rightarrow> authdb \<Rightarrow> (authdb, aerror, string \<times> session) outcome"
  where
  "login E now raw name pw ip agent db =
     (case user_named (normalize_username name) db of
        None \<Rightarrow> (db, Inl InvalidCredentials)
      | Some r \<Rightarrow>
          if \<not> us_active r then (db, Inl InvalidCredentials)
          else if locked_at (us_locked r) now then (db, Inl AccountLocked)
          else (case check_password (ae_crypto E) (us_hash r) pw of
                  Inl e \<Rightarrow> (db, Inl (HashError e))
                | Inr ok \<Rightarrow>
                    if \<not> ok then (record_failure now (us_id r) (us_failed r) db, Inl InvalidCredentials)
                    else open_session E now raw r ip agent db))"

text \<open>The join of a session with its active user.\<close>

definition session_user :: "srow \<Rightarrow> authdb \<Rightarrow> urow option" where
  "session_user s db = List.find (\<lambda>r. us_id r = sr_user s \<and> us_active r) (users db)"

definition authenticate :: "authenv \<Rightarrow> time \<Rightarrow> string \<Rightarrow> authdb \<Rightarrow> (authdb, aerror, session) outcome" where
  "authenticate E now token db =
     (if token = [] then (db, Inl NoSession)
      else (let sid = hash_token E token
            in case find_row sr_id sid (sessions db) of
                 None \<Rightarrow> (db, Inl NoSession)
               | Some s \<Rightarrow>
                   (case session_user s db of
                      None \<Rightarrow> (db, Inl NoSession)
                    | Some r \<Rightarrow>
                        if now > sr_expires s \<or> now - sr_seen s > idle_timeout
                        then (db\<lparr>sessions := del_rows (\<lambda>x. sr_id x = sid) (sessions db)\<rparr>, Inl NoSession)
                        else (db\<lparr>sessions := upd_rows (\<lambda>x. sr_id x = sid) (\<lambda>x. x\<lparr>sr_seen := now\<rparr>) (sessions db)\<rparr>,
                              Inr \<lparr>se_id = sr_id s, se_user = public_user r, se_mfa = sr_mfa s,
                                   se_expires = sr_expires s\<rparr>))))"

definition logout :: "string \<Rightarrow> authdb \<Rightarrow> authdb" where
  "logout sid db = db\<lparr>sessions := del_rows (\<lambda>s. sr_id s = sid) (sessions db)\<rparr>"

text \<open>\<open>secret\<close> are the 20 random bytes of \<open>NewTOTPSecret\<close>.\<close>

definition begin_totp_setup ::
  "authenv \<Rightarrow> string \<Rightarrow> session \<Rightarrow> authdb \<Rightarrow> (authdb, aerror, string \<times> string) outcome" where
  "begin_totp_setup E secret sess db =
     (let u = se_user sess
      in if us_totp u then (db, Inl MFASetupState)
         else (db\<lparr>users := upd_rows (\<lambda>r. us_id r = us_id u \<and> \<not> us_totp r)
                     (\<lambda>r. r\<lparr>us_secret := Some (ae_seal E secret (totp_context (us_id u)))\<rparr>) (users db)\<rparr>,
               Inr (totp_uri ''TaktaPlus'' (us_name u) secret, totp_secret_text secret)))"

definition check_code :: "authenv \<Rightarrow> time \<Rightarrow> int \<Rightarrow> string \<Rightarrow> authdb \<Rightarrow> (authdb, aerror, unit) outcome" where
  "check_code E now i code db =
     (case find_row us_id i (users db) of
        None \<Rightarrow> (db, Inl NoRows)
      | Some r \<Rightarrow>
          if locked_at (us_locked r) now then (db, Inl AccountLocked)
          else (case us_secret r of
                  None \<Rightarrow> (db, Inl MFASetupState)
                | Some sealed \<Rightarrow>
                    (case ae_open E sealed (totp_context i) of
                       Inl e \<Rightarrow> (db, Inl (BoxError e))
                     | Inr secret \<Rightarrow>
                         if \<not> verify_totp (ae_crypto E) secret (trim_space code) now
                         then (record_failure now i (us_failed r) db, Inl InvalidCode)
                         else (db, Inr ()))))"

definition complete_login :: "time \<Rightarrow> session \<Rightarrow> authdb \<Rightarrow> authdb" where
  "complete_login now sess db =
     set_user (us_id (se_user sess)) (\<lambda>r. unlocked_row (r\<lparr>us_login := Some now\<rparr>))
       (db\<lparr>sessions := upd_rows (\<lambda>s. sr_id s = se_id sess) (\<lambda>s. s\<lparr>sr_mfa := True\<rparr>) (sessions db)\<rparr>)"

definition enable_totp :: "authenv \<Rightarrow> time \<Rightarrow> session \<Rightarrow> string \<Rightarrow> authdb \<Rightarrow> (authdb, aerror, unit) outcome" where
  "enable_totp E now sess code db =
     (if us_totp (se_user sess) then (db, Inl MFASetupState)
      else (case check_code E now (us_id (se_user sess)) code db of
              (db1, Inl e) \<Rightarrow> (db1, Inl e)
            | (db1, Inr _) \<Rightarrow>
                (complete_login now sess (set_user (us_id (se_user sess)) (\<lambda>r. r\<lparr>us_totp := True\<rparr>) db1), Inr ())))"

definition verify_mfa :: "authenv \<Rightarrow> time \<Rightarrow> session \<Rightarrow> string \<Rightarrow> authdb \<Rightarrow> (authdb, aerror, unit) outcome" where
  "verify_mfa E now sess code db =
     (if \<not> us_totp (se_user sess) then (db, Inl MFASetupState)
      else (case check_code E now (us_id (se_user sess)) code db of
              (db1, Inl e) \<Rightarrow> (db1, Inl e)
            | (db1, Inr _) \<Rightarrow> (complete_login now sess db1, Inr ())))"

definition reauthenticate ::
  "authenv \<Rightarrow> time \<Rightarrow> int \<Rightarrow> string \<Rightarrow> string \<Rightarrow> authdb \<Rightarrow> (authdb, aerror, unit) outcome" where
  "reauthenticate E now i pw code db =
     (case find_row us_id i (users db) of
        None \<Rightarrow> (db, Inl NoRows)
      | Some r \<Rightarrow>
          if locked_at (us_locked r) now then (db, Inl AccountLocked)
          else (case check_password (ae_crypto E) (us_hash r) pw of
                  Inl e \<Rightarrow> (db, Inl (HashError e))
                | Inr ok \<Rightarrow>
                    if \<not> ok then (record_failure now (us_id r) (us_failed r) db, Inl InvalidCredentials)
                    else check_code E now i code db))"

subsection \<open>Histories\<close>

text \<open>
  The requests of the panel: a session token is resolved by the middleware
  (\<open>loadSession\<close> in \<open>internal/api/httpx.go\<close>) and the handler works on the session it gave; the
  administration of users is behind \<open>requirePerm\<close>. New users also come from the command line.
\<close>

definition may_manage_users :: "session \<Rightarrow> bool" where
  "may_manage_users sess \<longleftrightarrow> se_mfa sess \<and> role_can (us_role (se_user sess)) PermUsersManage"

inductive auth_step :: "authenv \<Rightarrow> authdb \<Rightarrow> authdb \<Rightarrow> bool" for E where
  st_create: "create_user E now salt name full email role pw db = (db', r) \<Longrightarrow> auth_step E db db'"
| st_update: "authenticate E now tok db = (db1, Inr sess) \<Longrightarrow> may_manage_users sess \<Longrightarrow>
    update_user (us_id (se_user sess)) i u db1 = (db', r) \<Longrightarrow> auth_step E db db'"
| st_password: "authenticate E now tok db = (db1, Inr sess) \<Longrightarrow> may_manage_users sess \<Longrightarrow>
    set_password E salt i pw db1 = (db', r) \<Longrightarrow> auth_step E db db'"
| st_reset: "authenticate E now tok db = (db1, Inr sess) \<Longrightarrow> may_manage_users sess \<Longrightarrow>
    reset_mfa i db1 = (db', r) \<Longrightarrow> auth_step E db db'"
| st_unlock: "authenticate E now tok db = (db1, Inr sess) \<Longrightarrow> may_manage_users sess \<Longrightarrow>
    auth_step E db (unlock_user i db1)"
| st_login: "login E now raw name pw ip agent db = (db', r) \<Longrightarrow> auth_step E db db'"
| st_resolve: "authenticate E now tok db = (db', r) \<Longrightarrow> auth_step E db db'"
| st_logout: "authenticate E now tok db = (db1, Inr sess) \<Longrightarrow> auth_step E db (logout (se_id sess) db1)"
| st_setup: "authenticate E now tok db = (db1, Inr sess) \<Longrightarrow>
    begin_totp_setup E secret sess db1 = (db', r) \<Longrightarrow> auth_step E db db'"
| st_enable: "authenticate E now tok db = (db1, Inr sess) \<Longrightarrow>
    enable_totp E now' sess code db1 = (db', r) \<Longrightarrow> auth_step E db db'"
| st_verify: "authenticate E now tok db = (db1, Inr sess) \<Longrightarrow>
    verify_mfa E now' sess code db1 = (db', r) \<Longrightarrow> auth_step E db db'"
| st_reauth: "authenticate E now tok db = (db1, Inr sess) \<Longrightarrow>
    reauthenticate E now' (us_id (se_user sess)) pw code db1 = (db', r) \<Longrightarrow> auth_step E db db'"

definition empty_auth :: authdb where "empty_auth = \<lparr>users = [], sessions = [], next_user = 1\<rparr>"

subsection \<open>The invariant\<close>

definition urow_ok :: "urow \<Rightarrow> bool" where
  "urow_ok r \<longleftrightarrow> role_valid (us_role r) \<and> us_failed r < max_failures \<and> (us_totp r \<longrightarrow> us_secret r \<noteq> None)"

definition srow_ok :: "urow list \<Rightarrow> srow \<Rightarrow> bool" where
  "srow_ok us s \<longleftrightarrow> sr_expires s = sr_created s + session_ttl \<and>
     (\<exists>r\<in>set us. us_id r = sr_user s \<and> us_active r \<and> (sr_mfa s \<longrightarrow> us_totp r))"

definition auth_ok :: "authdb \<Rightarrow> bool" where
  "auth_ok db \<longleftrightarrow> distinct (map us_id (users db)) \<and> (\<forall>r\<in>set (users db). us_id r < next_user db) \<and>
     distinct (map (\<lambda>r. to_lower (us_name r)) (users db)) \<and> (\<forall>r\<in>set (users db). urow_ok r) \<and>
     distinct (map sr_id (sessions db)) \<and> (\<forall>s\<in>set (sessions db). srow_ok (users db) s)"

lemma auth_okI:
  assumes "distinct (map us_id (users db))" "\<And>r. r \<in> set (users db) \<Longrightarrow> us_id r < next_user db"
    "distinct (map (\<lambda>r. to_lower (us_name r)) (users db))" "\<And>r. r \<in> set (users db) \<Longrightarrow> urow_ok r"
    "distinct (map sr_id (sessions db))" "\<And>s. s \<in> set (sessions db) \<Longrightarrow> srow_ok (users db) s"
  shows "auth_ok db"
  using assms unfolding auth_ok_def by blast

lemma auth_okD:
  assumes "auth_ok db"
  shows "distinct (map us_id (users db))" "r \<in> set (users db) \<Longrightarrow> us_id r < next_user db"
    "distinct (map (\<lambda>r. to_lower (us_name r)) (users db))" "r \<in> set (users db) \<Longrightarrow> urow_ok r"
    "distinct (map sr_id (sessions db))" "s \<in> set (sessions db) \<Longrightarrow> srow_ok (users db) s"
  using assms unfolding auth_ok_def by blast+

lemma auth_find:
  "auth_ok db \<Longrightarrow> r \<in> set (users db) \<Longrightarrow> find_row us_id (us_id r) (users db) = Some r"
  by (rule find_row_distinct) (simp_all add: auth_okD)

lemma map_upd_rows: "(\<And>r. key (f r) = key r) \<Longrightarrow> map key (upd_rows P f rs) = map key rs"
  by (rule keyed_update.map_key_upd) (rule keyed_update.intro)

text \<open>
  The rows that the handlers write. \<open>keeps_account f\<close>: the update keeps the identity of the row and
  its well-formedness; \<open>keeps_access f\<close>: it also keeps the account active and its second factor set.
\<close>

definition keeps_account :: "(urow \<Rightarrow> bool) \<Rightarrow> (urow \<Rightarrow> urow) \<Rightarrow> bool" where
  "keeps_account P f \<longleftrightarrow> (\<forall>r. us_id (f r) = us_id r \<and> us_name (f r) = us_name r \<and> (P r \<longrightarrow> urow_ok r \<longrightarrow> urow_ok (f r)))"

definition keeps_access :: "(urow \<Rightarrow> urow) \<Rightarrow> bool" where
  "keeps_access f \<longleftrightarrow> (\<forall>r. us_active (f r) = us_active r \<and> (us_totp r \<longrightarrow> us_totp (f r)))"

lemma keeps_accountD:
  "keeps_account P f \<Longrightarrow> us_id (f r) = us_id r" "keeps_account P f \<Longrightarrow> us_name (f r) = us_name r"
  "keeps_account P f \<Longrightarrow> P r \<Longrightarrow> urow_ok r \<Longrightarrow> urow_ok (f r)"
  unfolding keeps_account_def by blast+

lemma keeps_accessD:
  "keeps_access f \<Longrightarrow> us_active (f r) = us_active r" "keeps_access f \<Longrightarrow> us_totp r \<Longrightarrow> us_totp (f r)"
  unfolding keeps_access_def by blast+

lemma srow_ok_mono:
  assumes "srow_ok us s" and "\<And>r. r \<in> set us \<Longrightarrow> us_id r = sr_user s \<Longrightarrow>
      \<exists>q\<in>set vs. us_id q = us_id r \<and> (us_active r \<longrightarrow> us_active q) \<and> (us_totp r \<longrightarrow> us_totp q)"
  shows "srow_ok vs s"
  using assms unfolding srow_ok_def by metis

lemma users_upd_ok:
  assumes ok: "auth_ok db" and f: "keeps_account P f"
    and sess: "\<And>s. s \<in> set (sessions db') \<Longrightarrow> srow_ok (users db') s"
    and db': "users db' = upd_rows P f (users db)" "next_user db' = next_user db" "distinct (map sr_id (sessions db'))"
  shows "auth_ok db'"
proof (rule auth_okI)
  show "distinct (map us_id (users db'))"
    unfolding db'(1) using ok f by (subst map_upd_rows) (simp_all add: keeps_accountD auth_okD)
  show "distinct (map (\<lambda>r. to_lower (us_name r)) (users db'))"
    unfolding db'(1) using ok f by (subst map_upd_rows) (simp_all add: keeps_accountD auth_okD)
  fix r assume "r \<in> set (users db')"
  then obtain q where q: "q \<in> set (users db)" "r = (if P q then f q else q)" by (auto simp: db'(1) set_upd_rows)
  then show "us_id r < next_user db'" using auth_okD(2) [OF ok q(1)] f by (simp add: db'(2) keeps_accountD)
  show "urow_ok r" using auth_okD(4) [OF ok q(1)] q(2) f by (simp add: keeps_accountD)
qed (use db'(3) sess in auto)

lemma upd_access:
  assumes "keeps_account P f" "keeps_access f" "r \<in> set us"
  shows "\<exists>q\<in>set (upd_rows P f us). us_id q = us_id r \<and> (us_active r \<longrightarrow> us_active q) \<and> (us_totp r \<longrightarrow> us_totp q)"
  using assms by (intro bexI [of _ "if P r then f r else r"]) (auto simp: set_upd_rows keeps_accountD keeps_accessD)

lemma upd_users_ok:
  assumes ok: "auth_ok db" and f: "keeps_account P f" and a: "keeps_access f"
  shows "auth_ok (db\<lparr>users := upd_rows P f (users db)\<rparr>)"
proof (rule users_upd_ok [OF ok f])
  fix s assume "s \<in> set (sessions (db\<lparr>users := upd_rows P f (users db)\<rparr>))"
  then have "srow_ok (users db) s" using ok by (simp add: auth_okD)
  then have "srow_ok (upd_rows P f (users db)) s"
    by (rule srow_ok_mono) (rule upd_access [OF f a])
  then show "srow_ok (users (db\<lparr>users := upd_rows P f (users db)\<rparr>)) s" by simp
qed (simp_all add: auth_okD [OF ok])

lemma set_user_ok:
  "auth_ok db \<Longrightarrow> keeps_account (\<lambda>r. us_id r = i) f \<Longrightarrow> keeps_access f \<Longrightarrow> auth_ok (set_user i f db)"
  unfolding set_user_def by (rule upd_users_ok)

lemma set_end_ok:
  assumes ok: "auth_ok db" and f: "keeps_account (\<lambda>r. us_id r = i) f"
  shows "auth_ok (end_sessions i (set_user i f db))"
proof (rule users_upd_ok [OF ok f])
  fix s assume "s \<in> set (sessions (end_sessions i (set_user i f db)))"
  then have s: "srow_ok (users db) s" "sr_user s \<noteq> i" using ok by (simp_all add: end_sessions_def set_user_def auth_okD)
  show "srow_ok (users (end_sessions i (set_user i f db))) s"
  proof (rule srow_ok_mono [OF s(1)])
    fix r assume r: "r \<in> set (users db)" "us_id r = sr_user s"
    then have "r \<in> set (users (end_sessions i (set_user i f db)))"
      using s(2) by (force simp: end_sessions_def set_user_def set_upd_rows image_iff)
    then show "\<exists>q\<in>set (users (end_sessions i (set_user i f db))). us_id q = us_id r \<and>
        (us_active r \<longrightarrow> us_active q) \<and> (us_totp r \<longrightarrow> us_totp q)" by blast
  qed
qed (use auth_okD(5) [OF ok] in \<open>simp_all add: end_sessions_def set_user_def del_rows_def distinct_map_filter\<close>)

lemma sessions_ok:
  assumes ok: "auth_ok db" and "distinct (map sr_id ss)" and "\<And>s. s \<in> set ss \<Longrightarrow> srow_ok (users db) s"
  shows "auth_ok (db\<lparr>sessions := ss\<rparr>)"
  by (rule auth_okI) (use assms in \<open>auto simp: auth_okD\<close>)

lemma del_sessions_ok: "auth_ok db \<Longrightarrow> auth_ok (db\<lparr>sessions := del_rows P (sessions db)\<rparr>)"
  by (rule sessions_ok) (auto simp: auth_okD del_rows_def distinct_map_filter)

lemma profile_keeps: "role_valid (uu_role u) \<Longrightarrow> keeps_account P (profile_row u)"
  by (simp add: keeps_account_def profile_row_def urow_ok_def)

lemma profile_active_ok:
  assumes ok: "auth_ok db" and u: "role_valid (uu_role u)" "uu_active u"
  shows "auth_ok (set_user i (profile_row u) db)"
proof (rule users_upd_ok [OF ok profile_keeps [OF u(1), of "\<lambda>r. us_id r = i"]])
  fix s assume "s \<in> set (sessions (set_user i (profile_row u) db))"
  then have "srow_ok (users db) s" using ok by (simp add: set_user_def auth_okD)
  then show "srow_ok (users (set_user i (profile_row u) db)) s"
  proof (rule srow_ok_mono)
    fix r assume r: "r \<in> set (users db)"
    let ?q = "if us_id r = i then profile_row u r else r"
    have "?q \<in> set (users (set_user i (profile_row u) db))" using r by (simp add: set_user_def set_upd_rows)
    moreover have "us_id ?q = us_id r \<and> (us_active r \<longrightarrow> us_active ?q) \<and> (us_totp r \<longrightarrow> us_totp ?q)"
      using u(2) by (simp add: profile_row_def)
    ultimately show "\<exists>q\<in>set (users (set_user i (profile_row u) db)). us_id q = us_id r \<and>
        (us_active r \<longrightarrow> us_active q) \<and> (us_totp r \<longrightarrow> us_totp q)" by blast
  qed
qed (simp_all add: set_user_def auth_okD [OF ok])

lemma new_user_ok:
  assumes ok: "auth_ok db" and c: "create_user E now salt name full email role pw db = (db', r)"
  shows "auth_ok db'"
proof (cases r)
  case (Inl e)
  with c ok show ?thesis by (auto simp: create_user_def Let_def split: if_splits sum.splits)
next
  case (Inr v)
  with c obtain n h where valid: "role_valid role" and n: "user_named (to_lower n) db = None"
    and db': "db' = db\<lparr>users := users db @ [\<lparr>us_id = next_user db, us_name = n, us_full = trim_space full,
        us_email = trim_space email, us_role = role, us_totp = False, us_phone = [], us_source = ''local'',
        us_hash = h, us_secret = None, us_active = True, us_failed = 0, us_locked = None, us_login = None,
        us_created = now\<rparr>], next_user := next_user db + 1\<rparr>"
    by (auto simp: create_user_def Let_def split: if_splits sum.splits)
  note D = auth_okD [OF ok]
  have fresh: "us_id q \<noteq> next_user db" if "q \<in> set (users db)" for q using D(2) [OF that] by simp
  have name: "to_lower n \<notin> (\<lambda>r. to_lower (us_name r)) ` set (users db)"
    using n by (simp add: user_named_def find_row_None)
  have sess: "srow_ok (users db @ xs) s" if "s \<in> set (sessions db)" for s xs
    by (rule srow_ok_mono [OF D(6) [OF that]]) auto
  show ?thesis
    by (rule auth_okI)
      (use D fresh name valid sess in \<open>auto simp: db' urow_ok_def max_failures_def dest: D(2)\<close>)
qed

lemma session_rows_ok:
  assumes ok: "auth_ok db" and f: "\<And>s. sr_id (f s) = sr_id s"
    and g: "\<And>s. s \<in> set (sessions db) \<Longrightarrow> P s \<Longrightarrow> srow_ok (users db) (f s)"
  shows "auth_ok (db\<lparr>sessions := upd_rows P f (sessions db)\<rparr>)"
proof (rule sessions_ok [OF ok])
  show "distinct (map sr_id (upd_rows P f (sessions db)))"
    using ok f by (subst map_upd_rows) (simp_all add: auth_okD)
  fix s assume "s \<in> set (upd_rows P f (sessions db))"
  then obtain t where "t \<in> set (sessions db)" "s = (if P t then f t else t)" by (auto simp: set_upd_rows)
  then show "srow_ok (users db) s" using g [of t] auth_okD(6) [OF ok, of t] by auto
qed

lemma srow_ok_seen [simp]: "srow_ok us (s\<lparr>sr_seen := t\<rparr>) = srow_ok us s"
  by (simp add: srow_ok_def)

lemma session_userD:
  "session_user s db = Some r \<Longrightarrow> r \<in> set (users db) \<and> us_id r = sr_user s \<and> us_active r"
  by (auto simp: session_user_def find_Some_iff)

lemma authenticate_ok:
  assumes ok: "auth_ok db" and a: "authenticate E now tok db = (db', r)"
  shows "auth_ok db'"
proof -
  have "db' = db \<or> (\<exists>P. db' = db\<lparr>sessions := del_rows P (sessions db)\<rparr>) \<or>
      (\<exists>P. db' = db\<lparr>sessions := upd_rows P (\<lambda>x. x\<lparr>sr_seen := now\<rparr>) (sessions db)\<rparr>)"
    using a by (auto simp: authenticate_def Let_def split: if_splits option.splits)
  moreover have "auth_ok (db\<lparr>sessions := upd_rows P (\<lambda>x. x\<lparr>sr_seen := now\<rparr>) (sessions db)\<rparr>)" for P
    by (rule session_rows_ok [OF ok]) (simp_all add: srow_ok_seen auth_okD(6) [OF ok])
  ultimately show ?thesis using ok del_sessions_ok [OF ok] by metis
qed

text \<open>What an authenticated session stands for.\<close>

lemma authenticate_sess:
  assumes ok: "auth_ok db" and a: "authenticate E now tok db = (db1, Inr sess)"
  shows "\<exists>s r. s \<in> set (sessions db) \<and> r \<in> set (users db) \<and> us_id r = sr_user s \<and> us_active r \<and>
    sess = \<lparr>se_id = sr_id s, se_user = public_user r, se_mfa = sr_mfa s, se_expires = sr_expires s\<rparr> \<and>
    sr_id s = hash_token E tok \<and> now \<le> sr_expires s \<and> now - sr_seen s \<le> idle_timeout \<and>
    users db1 = users db \<and>
    sessions db1 = upd_rows (\<lambda>x. sr_id x = sr_id s) (\<lambda>x. x\<lparr>sr_seen := now\<rparr>) (sessions db)"
proof -
  from a obtain s r where s: "find_row sr_id (hash_token E tok) (sessions db) = Some s" and r: "session_user s db = Some r"
    and t: "now \<le> sr_expires s" "now - sr_seen s \<le> idle_timeout"
    and db1: "db1 = db\<lparr>sessions := upd_rows (\<lambda>x. sr_id x = hash_token E tok) (\<lambda>x. x\<lparr>sr_seen := now\<rparr>) (sessions db)\<rparr>"
    and sess: "sess = \<lparr>se_id = sr_id s, se_user = public_user r, se_mfa = sr_mfa s, se_expires = sr_expires s\<rparr>"
    by (auto simp: authenticate_def Let_def split: if_splits option.splits)
  show ?thesis
    using find_row_Some [OF s] session_userD [OF r] t
    by (intro exI [of _ s] exI [of _ r]) (simp add: db1 sess)
qed

lemma apply_profile_ok:
  assumes ok: "auth_ok db" and u: "role_valid (uu_role u)"
  shows "auth_ok (fst (apply_profile i u db))"
  using ok profile_active_ok [OF ok u] set_end_ok [OF ok profile_keeps [OF u, of "\<lambda>r. us_id r = i"]]
  by (simp add: apply_profile_def Let_def)

lemma update_user_ok: "auth_ok db \<Longrightarrow> auth_ok (fst (update_user actor i u db))"
  by (auto simp: update_user_def apply_profile_ok split: option.splits)

lemma unlocked_keeps: "keeps_account P unlocked_row" "keeps_access unlocked_row"
  by (simp_all add: keeps_account_def keeps_access_def unlocked_row_def urow_ok_def max_failures_def)

lemma unlock_ok: "auth_ok db \<Longrightarrow> auth_ok (unlock_user i db)"
  unfolding unlock_user_def by (rule set_user_ok [OF _ unlocked_keeps])

lemma set_password_ok: "auth_ok db \<Longrightarrow> auth_ok (fst (set_password E salt i pw db))"
  by (auto simp: set_password_def keeps_account_def unlocked_row_def urow_ok_def max_failures_def
      intro: set_end_ok split: sum.splits)

lemma reset_mfa_ok: "auth_ok db \<Longrightarrow> auth_ok (fst (reset_mfa i db))"
  by (auto simp: reset_mfa_def keeps_account_def urow_ok_def intro: set_end_ok)

lemma failure_keeps: "keeps_account P (failure_row now n)" "keeps_access (failure_row now n)"
  by (auto simp: keeps_account_def keeps_access_def failure_row_def urow_ok_def max_failures_def)

lemma record_failure_ok: "auth_ok db \<Longrightarrow> auth_ok (record_failure now i n db)"
  unfolding record_failure_def by (rule set_user_ok [OF _ failure_keeps])

lemma open_session_ok:
  assumes ok: "auth_ok db" and r: "r \<in> set (users db)" "us_active r"
  shows "auth_ok (fst (open_session E now raw r ip agent db))"
proof -
  let ?sid = "hash_token E (encode64 url64 raw)"
  show ?thesis
  proof (cases "find_row sr_id ?sid (sessions db)")
    case None
    then have "?sid \<notin> sr_id ` set (sessions db)" by (simp add: find_row_None)
    moreover have "srow_ok (users db) \<lparr>sr_id = ?sid, sr_user = us_id r, sr_mfa = False, sr_ip = ip, sr_agent = agent,
        sr_created = now, sr_seen = now, sr_expires = now + session_ttl\<rparr>"
      using r by (auto simp: srow_ok_def)
    ultimately show ?thesis
      using auth_okD(5,6) [OF ok] None by (auto simp: open_session_def Let_def intro!: sessions_ok [OF ok])
  qed (simp add: open_session_def Let_def ok)
qed

lemma login_ok: "auth_ok db \<Longrightarrow> auth_ok (fst (login E now raw name pw ip agent db))"
  by (auto simp: login_def user_named_def record_failure_ok open_session_ok dest: find_row_Some
      split: option.splits sum.splits)

lemma logout_ok: "auth_ok db \<Longrightarrow> auth_ok (logout sid db)"
  unfolding logout_def by (rule del_sessions_ok)

lemma begin_setup_ok: "auth_ok db \<Longrightarrow> auth_ok (fst (begin_totp_setup E secret sess db))"
  by (auto simp: begin_totp_setup_def Let_def keeps_account_def keeps_access_def urow_ok_def intro: upd_users_ok)

text \<open>What a call of \<open>checkCode\<close> does: it accepts, or counts a failure, or refuses unseen.\<close>

definition code_ok :: "authenv \<Rightarrow> time \<Rightarrow> string \<Rightarrow> urow \<Rightarrow> bool" where
  "code_ok E now code r \<longleftrightarrow> \<not> locked_at (us_locked r) now \<and>
     (\<exists>sealed secret. us_secret r = Some sealed \<and> ae_open E sealed (totp_context (us_id r)) = Inr secret \<and>
        verify_totp (ae_crypto E) secret (trim_space code) now)"

lemma check_code_cases:
  "check_code E now i code db = (db1, Inr u) \<Longrightarrow>
     db1 = db \<and> (\<exists>r. find_row us_id i (users db) = Some r \<and> code_ok E now code r)"
  "check_code E now i code db = (db1, Inl e) \<Longrightarrow> db1 = db \<or> (\<exists>n. db1 = record_failure now i n db)"
  by (auto simp: check_code_def code_ok_def split: option.splits sum.splits if_splits dest: find_row_Some)

lemma check_code_ok: "auth_ok db \<Longrightarrow> check_code E now i code db = (db1, r) \<Longrightarrow> auth_ok db1"
  by (cases r) (auto dest: check_code_cases intro: record_failure_ok)

lemma complete_login_ok:
  assumes ok: "auth_ok db" and sess: "\<And>s. s \<in> set (sessions db) \<Longrightarrow> sr_id s = se_id sess \<Longrightarrow>
      \<exists>r\<in>set (users db). us_id r = sr_user s \<and> us_active r \<and> us_totp r"
  shows "auth_ok (complete_login now sess db)"
  unfolding complete_login_def
proof (rule set_user_ok)
  show "auth_ok (db\<lparr>sessions := upd_rows (\<lambda>s. sr_id s = se_id sess) (\<lambda>s. s\<lparr>sr_mfa := True\<rparr>) (sessions db)\<rparr>)"
    using sess auth_okD(6) [OF ok] by (intro session_rows_ok [OF ok]) (auto simp: srow_ok_def)
qed (simp_all add: keeps_account_def keeps_access_def unlocked_row_def urow_ok_def max_failures_def)

lemma enable_ok:
  assumes ok: "auth_ok db" and s: "\<And>s. s \<in> set (sessions db) \<Longrightarrow> sr_id s = se_id sess \<Longrightarrow> sr_user s = us_id (se_user sess)"
  shows "auth_ok (fst (enable_totp E now sess code db))"
proof (cases "us_totp (se_user sess)")
  case False
  let ?i = "us_id (se_user sess)"
  obtain db1 r where c: "check_code E now ?i code db = (db1, r)" by (cases "check_code E now ?i code db")
  show ?thesis
  proof (cases r)
    case (Inr u)
    with c have db1: "db1 = db" and "\<exists>r. find_row us_id ?i (users db) = Some r \<and> code_ok E now code r"
      by (auto dest: check_code_cases)
    then obtain r where r: "find_row us_id ?i (users db) = Some r" and sec: "us_secret r \<noteq> None"
      by (auto simp: code_ok_def)
    let ?f = "\<lambda>r. r\<lparr>us_totp := True\<rparr>"
    have only: "q = r" if "q \<in> set (users db)" "us_id q = ?i" for q
      using auth_find [OF ok that(1)] that(2) r by simp
    let ?db2 = "db\<lparr>users := upd_rows (\<lambda>q. us_id q = ?i \<and> us_secret q \<noteq> None) ?f (users db)\<rparr>"
    have "upd_rows (\<lambda>q. us_id q = ?i) ?f (users db) = upd_rows (\<lambda>q. us_id q = ?i \<and> us_secret q \<noteq> None) ?f (users db)"
      unfolding upd_rows_def using only sec by (intro map_cong) auto
    then have set2: "set_user ?i ?f db = ?db2" by (simp add: set_user_def)
    have ok2: "auth_ok ?db2"
      by (rule upd_users_ok [OF ok]) (auto simp: keeps_account_def keeps_access_def urow_ok_def)
    have "auth_ok (complete_login now sess ?db2)"
    proof (rule complete_login_ok [OF ok2])
      fix s assume "s \<in> set (sessions ?db2)" and sid: "sr_id s = se_id sess"
      then have s: "s \<in> set (sessions db)" by simp
      then obtain q where q: "q \<in> set (users db)" "us_id q = sr_user s" "us_active q"
        using auth_okD(6) [OF ok] by (auto simp: srow_ok_def)
      with assms(2) [OF s sid] have "q = r" by (intro only) simp_all
      then have "?f q \<in> set (users ?db2)" using q(1,2) assms(2) [OF s sid] sec by (force simp: set_upd_rows image_iff)
      then show "\<exists>r\<in>set (users ?db2). us_id r = sr_user s \<and> us_active r \<and> us_totp r"
        by (rule bexI [rotated]) (simp add: q)
    qed
    then show ?thesis using False c Inr by (simp add: enable_totp_def db1 set2)
  qed (use False c check_code_ok [OF ok c] in \<open>simp add: enable_totp_def\<close>)
qed (simp add: enable_totp_def ok)

lemma verify_ok:
  assumes ok: "auth_ok db" and s: "\<And>s. s \<in> set (sessions db) \<Longrightarrow> sr_id s = se_id sess \<Longrightarrow>
      \<exists>r\<in>set (users db). us_id r = sr_user s \<and> us_active r \<and> us_totp r = us_totp (se_user sess)"
  shows "auth_ok (fst (verify_mfa E now sess code db))"
proof -
  obtain db1 r where c: "check_code E now (us_id (se_user sess)) code db = (db1, r)"
    by (cases "check_code E now (us_id (se_user sess)) code db")
  show ?thesis
  proof (cases r)
    case (Inr u)
    with c have "db1 = db" by (auto dest: check_code_cases)
    moreover have "auth_ok (complete_login now sess db)" if "us_totp (se_user sess)"
      by (rule complete_login_ok [OF ok]) (use s that in metis)
    ultimately show ?thesis using c Inr by (simp add: verify_mfa_def ok)
  qed (use c check_code_ok [OF ok c] ok in \<open>simp add: verify_mfa_def\<close>)
qed

lemma reauth_ok: "auth_ok db \<Longrightarrow> auth_ok (fst (reauthenticate E now i pw code db))"
  by (cases "check_code E now i code db")
    (auto simp: reauthenticate_def record_failure_ok dest: check_code_ok split: option.splits sum.splits)

lemma public_user_simps [simp]:
  "us_id (public_user r) = us_id r" "us_totp (public_user r) = us_totp r" "us_role (public_user r) = us_role r"
  by (simp_all add: public_user_def user.defs)

lemma authenticated:
  assumes ok: "auth_ok db" and a: "authenticate E now tok db = (db1, Inr sess)"
  shows "auth_ok db1" and "users db1 = users db"
    and "\<exists>r\<in>set (users db). se_user sess = public_user r \<and> us_active r"
    and "t \<in> set (sessions db1) \<Longrightarrow> sr_id t = se_id sess \<Longrightarrow>
      sr_user t = us_id (se_user sess) \<and> sr_mfa t = se_mfa sess"
proof -
  from authenticate_sess [OF assms] obtain s r where s: "s \<in> set (sessions db)" "r \<in> set (users db)"
    "us_id r = sr_user s" "us_active r"
    "sess = \<lparr>se_id = sr_id s, se_user = public_user r, se_mfa = sr_mfa s, se_expires = sr_expires s\<rparr>"
    and db1: "users db1 = users db"
    "sessions db1 = upd_rows (\<lambda>x. sr_id x = sr_id s) (\<lambda>x. x\<lparr>sr_seen := now\<rparr>) (sessions db)" by blast
  show "auth_ok db1" by (rule authenticate_ok [OF assms])
  show "users db1 = users db" by (rule db1(1))
  show "\<exists>r\<in>set (users db). se_user sess = public_user r \<and> us_active r" using s by auto
  assume "t \<in> set (sessions db1)" "sr_id t = se_id sess"
  then obtain s' where s': "s' \<in> set (sessions db)" "sr_id s' = sr_id s"
    "sr_user t = sr_user s'" "sr_mfa t = sr_mfa s'"
    by (auto simp: db1(2) set_upd_rows s(5) split: if_splits)
  then have "s' = s" using auth_okD(5) [OF ok] s(1) by (metis distinct_map inj_on_def)
  with s' s show "sr_user t = us_id (se_user sess) \<and> sr_mfa t = se_mfa sess" by simp
qed

lemma auth_ok_fst: "auth_ok (fst p) \<Longrightarrow> p = (db', r) \<Longrightarrow> auth_ok db'"
  by simp

lemma auth_step_ok:
  assumes "auth_step E db db'" and ok: "auth_ok db"
  shows "auth_ok db'"
  using assms(1)
proof cases
  case (st_create now salt name full email role pw r)
  with ok show ?thesis by (blast intro: new_user_ok)
next
  case (st_update now tok db1 sess i u r)
  with authenticated(1) [OF ok] show ?thesis by (blast intro: auth_ok_fst update_user_ok)
next
  case (st_password now tok db1 sess salt i pw r)
  with authenticated(1) [OF ok] show ?thesis by (blast intro: auth_ok_fst set_password_ok)
next
  case (st_reset now tok db1 sess i r)
  with authenticated(1) [OF ok] show ?thesis by (blast intro: auth_ok_fst reset_mfa_ok)
next
  case (st_unlock now tok db1 sess i)
  with authenticated(1) [OF ok] show ?thesis by (blast intro: unlock_ok)
next
  case (st_login now raw name pw ip agent r)
  with ok show ?thesis by (blast intro: auth_ok_fst login_ok)
next
  case (st_resolve now tok r)
  with ok show ?thesis by (blast intro: authenticate_ok)
next
  case (st_logout now tok db1 sess)
  with authenticated(1) [OF ok] show ?thesis by (blast intro: logout_ok)
next
  case (st_setup now tok db1 sess secret r)
  with authenticated(1) [OF ok] show ?thesis by (blast intro: auth_ok_fst begin_setup_ok)
next
  case (st_enable now tok db1 sess now' code r)
  note A = authenticated [OF ok st_enable(1)]
  have "auth_ok (fst (enable_totp E now' sess code db1))" by (rule enable_ok [OF A(1)]) (use A(4) in blast)
  then show ?thesis by (rule auth_ok_fst) (rule st_enable(2))
next
  case (st_verify now tok db1 sess now' code r)
  note A = authenticated [OF ok st_verify(1)]
  obtain q where q: "q \<in> set (users db1)" "se_user sess = public_user q" "us_active q" using A(2,3) by auto
  have "auth_ok (fst (verify_mfa E now' sess code db1))"
  proof (rule verify_ok [OF A(1)])
    fix s assume "s \<in> set (sessions db1)" "sr_id s = se_id sess"
    with A(4) q(2) have "us_id q = sr_user s" by simp
    with q show "\<exists>r\<in>set (users db1). us_id r = sr_user s \<and> us_active r \<and> us_totp r = us_totp (se_user sess)"
      by (intro bexI [of _ q]) simp_all
  qed
  then show ?thesis by (rule auth_ok_fst) (rule st_verify(2))
next
  case (st_reauth now tok db1 sess now' pw code r)
  with authenticated(1) [OF ok] show ?thesis by (blast intro: auth_ok_fst reauth_ok)
qed

lemma empty_auth_ok: "auth_ok empty_auth"
  by (rule auth_okI) (simp_all add: empty_auth_def)

lemma auth_history_ok: "(auth_step E)\<^sup>*\<^sup>* db db' \<Longrightarrow> auth_ok db \<Longrightarrow> auth_ok db'"
  by (induction rule: rtranclp_induct) (blast intro: auth_step_ok)+

subsection \<open>Guessing\<close>

text \<open>
  The three places where a credential of account \<open>i\<close>, whose user name is \<open>n\<close>, can be tried: the
  login form, a confirmation of a sensitive operation, and the code step of \<open>VerifyMFA\<close> and
  \<open>EnableTOTP\<close>. All count on the same columns.
\<close>

datatype guess = GuessLogin string string string string | GuessReauth string string | GuessCode string

definition seen_credential :: "aerror + 'a \<Rightarrow> bool" where
  "seen_credential r \<longleftrightarrow> (case r of Inl InvalidCredentials \<Rightarrow> True | Inl InvalidCode \<Rightarrow> True | _ \<Rightarrow> False)"

definition try_guess :: "authenv \<Rightarrow> int \<Rightarrow> string \<Rightarrow> time \<Rightarrow> guess \<Rightarrow> authdb \<Rightarrow> authdb \<times> bool" where
  "try_guess E i n now g db =
     (case g of
        GuessLogin raw pw ip agent \<Rightarrow> map_prod id seen_credential (login E now raw n pw ip agent db)
      | GuessReauth pw code \<Rightarrow> map_prod id seen_credential (reauthenticate E now i pw code db)
      | GuessCode code \<Rightarrow> map_prod id seen_credential (check_code E now i code db))"

definition account :: "int \<Rightarrow> authdb \<Rightarrow> urow" where
  "account i db = the (find_row us_id i (users db))"

definition has_account :: "int \<Rightarrow> string \<Rightarrow> authdb \<Rightarrow> bool" where
  "has_account i n db \<longleftrightarrow>
     (case find_row us_id i (users db) of
        None \<Rightarrow> False
      | Some r \<Rightarrow> us_active r \<and> map_option us_id (user_named (normalize_username n) db) = Some i) \<and>
     distinct (map us_id (users db))"

definition wrong_code :: "authenv \<Rightarrow> time \<Rightarrow> string \<Rightarrow> urow \<Rightarrow> bool" where
  "wrong_code E now code r \<longleftrightarrow>
     (case us_secret r of
        None \<Rightarrow> False
      | Some sealed \<Rightarrow>
          (case ae_open E sealed (totp_context (us_id r)) of
             Inl e \<Rightarrow> False
           | Inr secret \<Rightarrow> \<not> verify_totp (ae_crypto E) secret (trim_space code) now))"

definition wrong_guess :: "authenv \<Rightarrow> time \<Rightarrow> guess \<Rightarrow> urow \<Rightarrow> bool" where
  "wrong_guess E now g r \<longleftrightarrow>
     (case g of
        GuessLogin raw pw ip agent \<Rightarrow> check_password (ae_crypto E) (us_hash r) pw = Inr False
      | GuessReauth pw code \<Rightarrow>
          (case check_password (ae_crypto E) (us_hash r) pw of
             Inl e \<Rightarrow> False | Inr ok \<Rightarrow> (ok \<longrightarrow> wrong_code E now code r))
      | GuessCode code \<Rightarrow> wrong_code E now code r)"

lemma has_accountD:
  assumes "has_account i n db"
  shows "find_row us_id i (users db) = Some (account i db)" "us_active (account i db)" "us_id (account i db) = i"
    "user_named (normalize_username n) db = Some (account i db)" "distinct (map us_id (users db))"
proof -
  from assms obtain r where r: "find_row us_id i (users db) = Some r" "us_active r"
    "map_option us_id (user_named (normalize_username n) db) = Some i" and d: "distinct (map us_id (users db))"
    by (auto simp: has_account_def split: option.splits)
  have i: "us_id r = i" using find_row_Some [OF r(1)] by simp
  from r(3) obtain q where q: "user_named (normalize_username n) db = Some q" "us_id q = i" by auto
  then have "q \<in> set (users db)" by (auto simp: user_named_def dest: find_row_Some)
  then have "q = r" using find_row_distinct [OF d] q(2) r(1) by fastforce
  then show "find_row us_id i (users db) = Some (account i db)" "us_active (account i db)" "us_id (account i db) = i"
    "user_named (normalize_username n) db = Some (account i db)" "distinct (map us_id (users db))"
    using r q i d by (simp_all add: account_def)
qed

lemma try_guess_locked:
  "has_account i n db \<Longrightarrow> locked_at (us_locked (account i db)) now \<Longrightarrow> try_guess E i n now g db = (db, False)"
  by (cases g) (simp_all add: try_guess_def login_def reauthenticate_def check_code_def has_accountD seen_credential_def)

lemma check_code_wrong:
  "has_account i n db \<Longrightarrow> \<not> locked_at (us_locked (account i db)) now \<Longrightarrow> wrong_code E now code (account i db) \<Longrightarrow>
     check_code E now i code db = (record_failure now i (us_failed (account i db)) db, Inl InvalidCode)"
  by (auto simp: check_code_def wrong_code_def has_accountD split: option.splits sum.splits)

lemma try_guess_wrong:
  assumes "has_account i n db" "\<not> locked_at (us_locked (account i db)) now" "wrong_guess E now g (account i db)"
  shows "try_guess E i n now g db = (record_failure now i (us_failed (account i db)) db, True)"
  using assms check_code_wrong [OF assms(1,2)]
  by (cases g) (auto simp: try_guess_def wrong_guess_def login_def reauthenticate_def has_accountD
      seen_credential_def split: sum.splits)

lemma failure_row_simps [simp]:
  "us_id (failure_row now n r) = us_id r" "us_name (failure_row now n r) = us_name r"
  "us_active (failure_row now n r) = us_active r" "us_hash (failure_row now n r) = us_hash r"
  "us_secret (failure_row now n r) = us_secret r"
  by (simp_all add: failure_row_def)

lemma account_failure:
  assumes "has_account i n db"
  shows "account i (record_failure now i k db) = failure_row now k (account i db)"
    and "has_account i n (record_failure now i k db)"
proof -
  let ?f = "failure_row now k"
  have u: "users (record_failure now i k db) = upd_rows (\<lambda>r. us_id r = i) ?f (users db)"
    by (simp add: record_failure_def set_user_def)
  have f: "find_row us_id i (users (record_failure now i k db)) = Some (?f (account i db))"
    unfolding u by (subst keyed_update.find_upd_same) (simp_all add: keyed_update_def has_accountD(1) [OF assms])
  then show a: "account i (record_failure now i k db) = ?f (account i db)" by (simp add: account_def)
  have "user_named (normalize_username n) (record_failure now i k db) = Some (?f (account i db))"
    unfolding user_named_def u
    using has_accountD(3,4) [OF assms] by (subst keyed_update.find_upd) (simp_all add: keyed_update_def user_named_def)
  moreover have "distinct (map us_id (users (record_failure now i k db)))"
    unfolding u using has_accountD(5) [OF assms] by (subst map_upd_rows) simp_all
  ultimately show "has_account i n (record_failure now i k db)"
    using f has_accountD(2,3) [OF assms] by (simp add: has_account_def)
qed

lemma wrong_guess_failure [simp]: "wrong_guess E now g (failure_row t k r) = wrong_guess E now g r"
  unfolding wrong_guess_def wrong_code_def failure_row_simps ..

interpretation panel: lockout "has_account i n" "try_guess E i n" "\<lambda>now g db. wrong_guess E now g (account i db)"
  "\<lambda>db. us_failed (account i db)" "\<lambda>db. us_locked (account i db)" max_failures lock_duration for E i n
  by unfold_locales
    (simp_all add: try_guess_locked try_guess_wrong account_failure, simp add: failure_row_def)

text \<open>How many of a list of guesses, in the order they are made, have their credential looked at.\<close>

fun looked_at :: "authenv \<Rightarrow> int \<Rightarrow> string \<Rightarrow> (time \<times> guess) list \<Rightarrow> authdb \<Rightarrow> nat" where
  "looked_at E i n [] db = 0"
| "looked_at E i n ((now, g) # gs) db =
     (case try_guess E i n now g db of (db', seen) \<Rightarrow> (if seen then 1 else 0) + looked_at E i n gs db')"

lemma looked_at_guesses: "looked_at E i n gs db = panel.guesses E i n gs db"
  by (induction gs arbitrary: db) (auto simp: Let_def split: prod.splits)

subsection \<open>The second factor\<close>

lemma sessions_sub [simp]:
  "sessions (record_failure now i k db) = sessions db" "sessions (set_user i f db) = sessions db"
  "sessions (unlock_user i db) = sessions db"
  by (simp_all add: record_failure_def set_user_def unlock_user_def)

lemma users_same [simp]: "users (end_sessions i db) = users db" "users (logout sid db) = users db"
  by (simp_all add: end_sessions_def logout_def)

lemma admin_sessions:
  "set (sessions (fst (update_user actor i u db))) \<subseteq> set (sessions db)"
  "set (sessions (fst (set_password E salt i pw db))) \<subseteq> set (sessions db)"
  "set (sessions (fst (reset_mfa i db))) \<subseteq> set (sessions db)"
  "set (sessions (logout sid db)) \<subseteq> set (sessions db)"
  "sessions (fst (create_user E now salt name full email role pw db)) = sessions db"
  "sessions (fst (begin_totp_setup E secret sess db)) = sessions db"
  by (auto simp: update_user_def apply_profile_def set_password_def reset_mfa_def create_user_def
      begin_totp_setup_def logout_def end_sessions_def Let_def split: option.splits sum.splits)

lemma check_code_sessions: "check_code E now i code db = (db1, r) \<Longrightarrow> sessions db1 = sessions db"
  by (cases r) (auto dest!: check_code_cases)

lemma reauth_sessions: "sessions (fst (reauthenticate E now i pw code db)) = sessions db"
  by (cases "check_code E now i code db")
    (auto simp: reauthenticate_def dest: check_code_sessions split: option.splits sum.splits)

lemma login_mfa:
  "s \<in> set (sessions (fst (login E now raw name pw ip agent db))) \<Longrightarrow> sr_mfa s \<Longrightarrow> s \<in> set (sessions db)"
  by (auto simp: login_def open_session_def Let_def split: option.splits sum.splits if_splits)

lemma authenticate_mfa:
  assumes "authenticate E now tok db = (db', r)" "s \<in> set (sessions db')" "sr_mfa s"
  shows "\<exists>t\<in>set (sessions db). sr_mfa t \<and> sr_user t = sr_user s"
  using assms by (auto simp: authenticate_def Let_def set_upd_rows split: if_splits option.splits) fastforce+

definition code_given :: "authenv \<Rightarrow> int \<Rightarrow> authdb \<Rightarrow> bool" where
  "code_given E i db \<longleftrightarrow> (\<exists>r\<in>set (users db). us_id r = i \<and> us_active r \<and> (\<exists>now code. code_ok E now code r))"

lemma confirm_mfa:
  assumes c: "check_code E now (us_id (se_user sess)) code db = (db1, Inr u)" and ok: "auth_ok db"
    and own: "\<And>t. t \<in> set (sessions db) \<Longrightarrow> sr_id t = se_id sess \<Longrightarrow> sr_user t = us_id (se_user sess)"
    and db': "sessions db' = upd_rows (\<lambda>s. sr_id s = se_id sess) (\<lambda>s. s\<lparr>sr_mfa := True\<rparr>) (sessions db)"
    and s: "s \<in> set (sessions db')" "sr_mfa s"
  shows "(\<exists>t\<in>set (sessions db). sr_mfa t \<and> sr_user t = sr_user s) \<or> code_given E (sr_user s) db"
proof -
  from s db' obtain t where t: "t \<in> set (sessions db)" "sr_user t = sr_user s"
    "sr_id t = se_id sess \<or> sr_mfa t" by (auto simp: set_upd_rows split: if_splits)
  show ?thesis
  proof (cases "sr_mfa t")
    case False
    from check_code_cases(1) [OF c] obtain r where r: "find_row us_id (us_id (se_user sess)) (users db) = Some r"
      "code_ok E now code r" by blast
    have user: "sr_user t = us_id (se_user sess)" using t False own by blast
    from auth_okD(6) [OF ok t(1)] obtain q where q: "q \<in> set (users db)" "us_id q = sr_user t" "us_active q"
      by (auto simp: srow_ok_def)
    have "q = r" using auth_find [OF ok q(1)] q(2) r(1) user by simp
    then have "code_given E (sr_user s) db" using q r(2) t(2) unfolding code_given_def by (intro bexI [of _ r]) auto
    then show ?thesis ..
  qed (use t in blast)
qed

lemma step_mfa:
  assumes "auth_step E db db'" and ok: "auth_ok db" and s: "s \<in> set (sessions db')" "sr_mfa s"
  shows "(\<exists>t\<in>set (sessions db). sr_mfa t \<and> sr_user t = sr_user s) \<or> code_given E (sr_user s) db"
proof -
  have before: ?thesis if "authenticate E now tok db = (db1, r)" "s \<in> set (sessions db1)" for now tok db1 r
    using authenticate_mfa [OF that s(2)] by blast
  have given: "code_given E i db" if "authenticate E now tok db = (db1, Inr sess)" "code_given E i db1" for now tok db1 sess i
    using that authenticated(2) [OF ok that(1)] by (simp add: code_given_def)
  from assms(1) show ?thesis
  proof cases
    case (st_create now salt name full email role pw r)
    then have "sessions db' = sessions db" using admin_sessions(5) by (metis fst_conv)
    with s show ?thesis by auto
  next
    case (st_update now tok db1 sess i u r)
    with s(1) admin_sessions(1) have "s \<in> set (sessions db1)" by (metis fst_conv subsetD)
    with st_update(1) show ?thesis by (rule before)
  next
    case (st_password now tok db1 sess salt i pw r)
    with s(1) admin_sessions(2) have "s \<in> set (sessions db1)" by (metis fst_conv subsetD)
    with st_password(1) show ?thesis by (rule before)
  next
    case (st_reset now tok db1 sess i r)
    with s(1) admin_sessions(3) have "s \<in> set (sessions db1)" by (metis fst_conv subsetD)
    with st_reset(1) show ?thesis by (rule before)
  next
    case (st_unlock now tok db1 sess i)
    with s(1) have "s \<in> set (sessions db1)" by simp
    with st_unlock(2) show ?thesis by (rule before)
  next
    case (st_login now raw name pw ip agent r)
    then have "s \<in> set (sessions db)" using s login_mfa by (metis fst_conv)
    with s(2) show ?thesis by blast
  next
    case (st_resolve now tok r)
    from before [OF st_resolve s(1)] show ?thesis .
  next
    case (st_logout now tok db1 sess)
    with s(1) admin_sessions(4) have "s \<in> set (sessions db1)" by (metis subsetD)
    with st_logout(2) show ?thesis by (rule before)
  next
    case (st_setup now tok db1 sess secret r)
    with s(1) admin_sessions(6) have "s \<in> set (sessions db1)" by (metis fst_conv)
    with st_setup(1) show ?thesis by (rule before)
  next
    case (st_enable now tok db1 sess now' code r)
    obtain db2 x where c: "check_code E now' (us_id (se_user sess)) code db1 = (db2, x)"
      by (cases "check_code E now' (us_id (se_user sess)) code db1")
    note A = authenticated [OF ok st_enable(1)]
    show ?thesis
    proof (cases "us_totp (se_user sess) \<or> (\<exists>e. x = Inl e)")
      case True
      with st_enable(2) c check_code_sessions [OF c] s(1) have "s \<in> set (sessions db1)"
        by (auto simp: enable_totp_def split: if_splits)
      with st_enable(1) show ?thesis by (rule before)
    next
      case False
      then obtain u where x: "x = Inr u" by (cases x) auto
      have "sessions db' = upd_rows (\<lambda>s. sr_id s = se_id sess) (\<lambda>s. s\<lparr>sr_mfa := True\<rparr>) (sessions db1)"
        using st_enable(2) c False x check_code_sessions [OF c] by (auto simp: enable_totp_def complete_login_def)
      from confirm_mfa [OF c [unfolded x] A(1) _ this s] A(4) show ?thesis
        using authenticate_mfa [OF st_enable(1)] given [OF st_enable(1)] by metis
    qed
  next
    case (st_verify now tok db1 sess now' code r)
    obtain db2 x where c: "check_code E now' (us_id (se_user sess)) code db1 = (db2, x)"
      by (cases "check_code E now' (us_id (se_user sess)) code db1")
    note A = authenticated [OF ok st_verify(1)]
    show ?thesis
    proof (cases "\<not> us_totp (se_user sess) \<or> (\<exists>e. x = Inl e)")
      case True
      with st_verify(2) c check_code_sessions [OF c] s(1) have "s \<in> set (sessions db1)"
        by (auto simp: verify_mfa_def split: if_splits)
      with st_verify(1) show ?thesis by (rule before)
    next
      case False
      then obtain u where x: "x = Inr u" by (cases x) auto
      have "sessions db' = upd_rows (\<lambda>s. sr_id s = se_id sess) (\<lambda>s. s\<lparr>sr_mfa := True\<rparr>) (sessions db1)"
        using st_verify(2) c False x check_code_sessions [OF c] by (auto simp: verify_mfa_def complete_login_def)
      from confirm_mfa [OF c [unfolded x] A(1) _ this s] A(4) show ?thesis
        using authenticate_mfa [OF st_verify(1)] given [OF st_verify(1)] by metis
    qed
  next
    case (st_reauth now tok db1 sess now' pw code r)
    with s(1) reauth_sessions have "s \<in> set (sessions db1)" by (metis fst_conv)
    with st_reauth(1) show ?thesis by (rule before)
  qed
qed

lemma history_mfa:
  assumes "(auth_step E)\<^sup>*\<^sup>* db0 db" and "auth_ok db0" and "\<And>s. s \<in> set (sessions db0) \<Longrightarrow> \<not> sr_mfa s"
  shows "\<And>s. s \<in> set (sessions db) \<Longrightarrow> sr_mfa s \<Longrightarrow>
    \<exists>db1. (auth_step E)\<^sup>*\<^sup>* db0 db1 \<and> (auth_step E)\<^sup>*\<^sup>* db1 db \<and> code_given E (sr_user s) db1"
  using assms(1)
proof (induction rule: rtranclp_induct)
  case base
  with assms(3) show ?case by blast
next
  case (step y z)
  have "auth_ok y" by (rule auth_history_ok [OF step.hyps(1) assms(2)])
  from step_mfa [OF step.hyps(2) this step.prems] show ?case
  proof
    assume "\<exists>t\<in>set (sessions y). sr_mfa t \<and> sr_user t = sr_user s"
    then obtain t where "t \<in> set (sessions y)" "sr_mfa t" "sr_user t = sr_user s" by blast
    with step.IH [of t] step.hyps(2) show ?thesis by (metis rtranclp.rtrancl_into_rtrancl)
  next
    assume "code_given E (sr_user s) y"
    with step.hyps show ?thesis by blast
  qed
qed

subsection \<open>An administrator remains\<close>

definition has_superadmin :: "authdb \<Rightarrow> bool" where
  "has_superadmin db \<longleftrightarrow> list_ex (\<lambda>r. us_role r = RoleSuperAdmin \<and> us_active r) (users db)"

definition keeps_role :: "(urow \<Rightarrow> urow) \<Rightarrow> bool" where
  "keeps_role f \<longleftrightarrow> (\<forall>r. us_role (f r) = us_role r \<and> us_active (f r) = us_active r)"

lemma superadmin_upd:
  "keeps_role f \<Longrightarrow> list_ex (\<lambda>r. us_role r = RoleSuperAdmin \<and> us_active r) (upd_rows P f us) =
     list_ex (\<lambda>r. us_role r = RoleSuperAdmin \<and> us_active r) us"
  by (induction us) (auto simp: upd_rows_Cons keeps_role_def)

lemma superadmin_set_user: "keeps_role f \<Longrightarrow> has_superadmin (set_user i f db) = has_superadmin db"
  by (simp add: has_superadmin_def set_user_def superadmin_upd)

lemma superadmin_sessions [simp]:
  "has_superadmin (db\<lparr>sessions := ss\<rparr>) = has_superadmin db" "has_superadmin (end_sessions i db) = has_superadmin db"
  by (simp_all add: has_superadmin_def end_sessions_def)

lemma role_kept:
  "keeps_role unlocked_row" "keeps_role (failure_row now n)" "keeps_role (\<lambda>r. unlocked_row (r\<lparr>us_hash := h\<rparr>))"
  "keeps_role (\<lambda>r. r\<lparr>us_totp := b\<rparr>)" "keeps_role (\<lambda>r. r\<lparr>us_totp := b, us_secret := x\<rparr>)"
  "keeps_role (\<lambda>r. r\<lparr>us_secret := x\<rparr>)" "keeps_role (\<lambda>r. unlocked_row (r\<lparr>us_login := y\<rparr>))"
  by (simp_all add: keeps_role_def unlocked_row_def failure_row_def)

lemma superadmin_ops:
  "has_superadmin (fst (set_password E salt i pw db)) = has_superadmin db"
  "has_superadmin (fst (reset_mfa i db)) = has_superadmin db"
  "has_superadmin (unlock_user i db) = has_superadmin db"
  "has_superadmin (record_failure now i k db) = has_superadmin db"
  "has_superadmin (logout sid db) = has_superadmin db"
  "has_superadmin (complete_login now sess db) = has_superadmin db"
  "has_superadmin (fst (begin_totp_setup E secret sess db)) = has_superadmin db"
  "has_superadmin (fst (open_session E now raw r ip agent db)) = has_superadmin db"
  by (auto simp: set_password_def reset_mfa_def unlock_user_def record_failure_def logout_def complete_login_def
      begin_totp_setup_def open_session_def superadmin_set_user role_kept Let_def split: sum.splits)
    (simp_all add: has_superadmin_def superadmin_upd role_kept)

lemma superadmin_check: "check_code E now i code db = (db1, r) \<Longrightarrow> has_superadmin db1 = has_superadmin db"
  by (cases r) (auto dest!: check_code_cases simp: superadmin_ops)

lemma superadmin_signin:
  "has_superadmin (fst (login E now raw name pw ip agent db)) = has_superadmin db"
  "has_superadmin (fst (authenticate E now tok db)) = has_superadmin db"
  "has_superadmin (fst (reauthenticate E now i pw code db)) = has_superadmin db"
proof -
  show "has_superadmin (fst (login E now raw name pw ip agent db)) = has_superadmin db"
    "has_superadmin (fst (authenticate E now tok db)) = has_superadmin db"
    by (auto simp: login_def authenticate_def superadmin_ops Let_def split: option.splits sum.splits)
  have "has_superadmin (fst (check_code E now i code db)) = has_superadmin db"
    by (rule superadmin_check) (rule prod.collapse [symmetric])
  then show "has_superadmin (fst (reauthenticate E now i pw code db)) = has_superadmin db"
    by (simp add: reauthenticate_def superadmin_ops split: option.split sum.split)
qed

lemma superadmin_confirm:
  "has_superadmin (fst (enable_totp E now sess code db)) = has_superadmin db"
  "has_superadmin (fst (verify_mfa E now sess code db)) = has_superadmin db"
  by (cases "check_code E now (us_id (se_user sess)) code db";
      auto simp: enable_totp_def verify_mfa_def superadmin_ops superadmin_set_user role_kept
      dest: superadmin_check split: sum.splits)+

lemma superadmin_create: "has_superadmin db \<Longrightarrow> has_superadmin (fst (create_user E now salt n full email role pw db))"
  by (auto simp: create_user_def has_superadmin_def Let_def split: sum.splits)

lemma users_manager: "role_can role PermUsersManage \<Longrightarrow> role = RoleSuperAdmin"
  by (auto simp: role_can_def perms_of_def role_perms_def split: if_splits)

lemma superadmin_update:
  assumes ok: "auth_ok db" and r: "r \<in> set (users db)" "us_role r = RoleSuperAdmin" "us_active r"
  shows "has_superadmin (fst (update_user (us_id r) i u db))"
proof -
  have same: "has_superadmin db" using r by (auto simp: has_superadmin_def list_ex_iff)
  let ?f = "\<lambda>q. if us_id q = i then profile_row u q else q"
  have in_upd: "?f r \<in> set (users (set_user i (profile_row u) db))" using r(1) by (simp add: set_user_def set_upd_rows)
  have "has_superadmin (set_user i (profile_row u) db)" if "i = us_id r \<longrightarrow> us_role r = uu_role u \<and> uu_active u"
  proof -
    have "us_role (?f r) = RoleSuperAdmin \<and> us_active (?f r)" using r that by (simp add: profile_row_def)
    with in_upd show ?thesis unfolding has_superadmin_def list_ex_iff by blast
  qed
  with same auth_find [OF ok r(1)] show ?thesis
    by (auto simp: update_user_def apply_profile_def Let_def split: option.splits)
qed

lemma superadmin_step:
  assumes "auth_step E db db'" and ok: "auth_ok db" and h: "has_superadmin db"
  shows "has_superadmin db'"
proof -
  have fst_eq: "has_superadmin d'" if "p = (d', r)" "has_superadmin (fst p)" for p :: "authdb \<times> 'x" and d' r using that by simp
  have auth: "has_superadmin db1" if "authenticate E now tok db = (db1, r)" for now tok db1 r
    using superadmin_signin(2) [of E now tok db] that h by simp
  from assms(1) show ?thesis
  proof cases
    case (st_update now tok db1 sess i u r)
    note A = authenticated [OF ok st_update(1)]
    from A(2,3) obtain q where q: "q \<in> set (users db1)" "se_user sess = public_user q" "us_active q" by auto
    have "us_role q = RoleSuperAdmin" using st_update(2) q(2) by (auto simp: may_manage_users_def dest: users_manager)
    from superadmin_update [OF A(1) q(1) this q(3), of i u] st_update(3) q(2) show ?thesis by simp
  next
    case (st_create now salt name full email role pw r)
    with superadmin_create [OF h] show ?thesis by (metis fst_conv)
  next
    case (st_login now raw name pw ip agent r)
    with superadmin_signin(1) h show ?thesis by (metis fst_conv)
  next
    case (st_resolve now tok r)
    then show ?thesis by (rule auth)
  next
    case (st_password now tok db1 sess salt i pw r)
    with auth superadmin_ops(1) show ?thesis by (metis fst_conv)
  next
    case (st_reset now tok db1 sess i r)
    with auth superadmin_ops(2) show ?thesis by (metis fst_conv)
  next
    case (st_setup now tok db1 sess secret r)
    with auth superadmin_ops(7) show ?thesis by (metis fst_conv)
  next
    case (st_enable now tok db1 sess now' code r)
    with auth superadmin_confirm(1) show ?thesis by (metis fst_conv)
  next
    case (st_verify now tok db1 sess now' code r)
    with auth superadmin_confirm(2) show ?thesis by (metis fst_conv)
  next
    case (st_reauth now tok db1 sess now' pw code r)
    with auth superadmin_signin(3) show ?thesis by (metis fst_conv)
  qed (auto simp: superadmin_ops dest: auth)
qed

subsection \<open>Properties\<close>

definition sample_authenv :: authenv where
  "sample_authenv = \<lparr>ae_crypto = sample_crypto, ae_seal = (\<lambda>s c. c @ s), ae_open = (\<lambda>s c. Inr (drop (length c) s))\<rparr>"

definition sample_hash :: string where
  "sample_hash = (case hash_password sample_crypto ''salt'' ''correct horse'' of Inl e \<Rightarrow> [] | Inr h \<Rightarrow> h)"

lemma sample_hash_check:
  "check_password sample_crypto sample_hash pw =
     Inr (take 32 (pw @ ''salt'' @ replicate 32 (CHR ''x'')) = take 32 (''correct horse'' @ ''salt'' @ replicate 32 (CHR ''x'')))"
proof -
  have h: "hash_password sample_crypto ''salt'' ''correct horse'' = Inr sample_hash"
    by (simp add: sample_hash_def hash_password_def min_password_length_def)
  have "check_password sample_crypto sample_hash pw =
     Inr (argon_id_key sample_crypto pw ''salt'' 3 (64 * 1024) 2 32 = argon_id_key sample_crypto ''correct horse'' ''salt'' 3 (64 * 1024) 2 32)"
    by (rule check_password_hashed [OF h]) (simp_all add: sample_crypto_def)
  then show ?thesis by (simp only: sample_crypto_def crypto.simps)
qed

definition sample_root :: urow where
  "sample_root = \<lparr>us_id = 1, us_name = ''root'', us_full = ''Root'', us_email = [], us_role = RoleSuperAdmin,
     us_totp = True, us_phone = [], us_source = ''local'', us_hash = sample_hash,
     us_secret = Some (totp_context 1 @ ''secret''), us_active = True, us_failed = 0, us_locked = None,
     us_login = None, us_created = 0\<rparr>"

definition sample_viewer :: urow where
  "sample_viewer = sample_root\<lparr>us_id := 2, us_name := ''eve'', us_role := RoleViewer\<rparr>"

definition sample_session :: srow where
  "sample_session = \<lparr>sr_id = ''sha256:tok'', sr_user = 1, sr_mfa = False, sr_ip = [], sr_agent = [],
     sr_created = 60 * second, sr_seen = 60 * second, sr_expires = 60 * second + session_ttl\<rparr>"

definition sample_auth :: authdb where
  "sample_auth = \<lparr>users = [sample_root, sample_viewer], sessions = [sample_session], next_user = 3\<rparr>"

lemma sample_auth_ok: "auth_ok sample_auth"
  by (rule auth_okI) (auto simp: sample_auth_def sample_root_def sample_viewer_def sample_session_def urow_ok_def
      srow_ok_def role_valid_def role_perms_def max_failures_def to_lower_def lower_char_def)

lemma sample_resolve:
  "authenticate sample_authenv (90 * second) ''tok'' sample_auth =
     (sample_auth\<lparr>sessions := [sample_session\<lparr>sr_seen := 90 * second\<rparr>]\<rparr>,
      Inr \<lparr>se_id = ''sha256:tok'', se_user = public_user sample_root, se_mfa = False, se_expires = 60 * second + session_ttl\<rparr>)"
  by (simp add: authenticate_def hash_token_def sample_authenv_def sample_crypto_def sample_auth_def find_row_Cons
      sample_session_def session_user_def sample_root_def session_ttl_def idle_timeout_def upd_rows_Cons Let_def)

text \<open>
  C32: in every state the panel can reach from an empty database, user ids and lower-case user names are
  unique, every user has a known role, fewer than five counted failures and, when the second factor is
  on, a stored secret; session ids are unique and every session ends twelve hours after it was opened
  and belongs to an active user, whose second factor is on if the session has passed it.
\<close>

theorem auth_reachable_ok:
  assumes "(auth_step E)\<^sup>*\<^sup>* empty_auth db"
  shows "auth_ok db"
  by (rule auth_history_ok [OF assms empty_auth_ok])

theorem auth_reachable_ok_witness:
  "auth_ok (fst (create_user sample_authenv 0 ''salt'' ''Root'' ''Root'' [] RoleSuperAdmin ''correct horse'' empty_auth)) \<and>
   length (users (fst (create_user sample_authenv 0 ''salt'' ''Root'' ''Root'' [] RoleSuperAdmin ''correct horse'' empty_auth))) = 1"
proof
  let ?c = "create_user sample_authenv 0 ''salt'' ''Root'' ''Root'' [] RoleSuperAdmin ''correct horse'' empty_auth"
  have "auth_step sample_authenv empty_auth (fst ?c)" by (rule st_create [where r = "snd ?c"]) (rule prod.collapse [symmetric])
  then show "auth_ok (fst ?c)" by (rule auth_reachable_ok [OF r_into_rtranclp])
  have "normalize_username ''Root'' = ''root''" by code_simp
  then show "length (users (fst ?c)) = 1"
    by (simp add: create_user_def hash_password_def min_password_length_def role_valid_def role_perms_def
        contains_any_def user_named_def empty_auth_def Let_def)
qed


lemma trim_digits: "list_all is_digit s \<Longrightarrow> trim_space s = s"
proof -
  assume s: "list_all is_digit s"
  have keep: "dropWhile is_space t = t" if "list_all is_digit t" for t
    using that by (cases t) (auto simp: is_digit_def is_space_def)
  then show ?thesis using s by (simp add: trim_space_def trim_left_def trim_right_def)
qed

lemma sample_code_ok: "code_ok sample_authenv (95 * second) (totp_code sample_crypto ''secret'' (95 * second)) sample_root"
proof -
  let ?c = "totp_code sample_crypto ''secret'' (95 * second)"
  have "verify_totp sample_crypto ''secret'' ?c (95 * second)" by (simp add: verify_steps)
  moreover have "trim_space ?c = ?c" by (rule trim_digits) (simp add: totp_code_def totp_digits_only)
  ultimately show ?thesis
    by (simp add: code_ok_def sample_root_def sample_authenv_def)
qed

lemma code_ok_check:
  "find_row us_id i (users db) = Some r \<Longrightarrow> us_id r = i \<Longrightarrow> code_ok E now code r \<Longrightarrow> check_code E now i code db = (db, Inr ())"
  by (auto simp: check_code_def code_ok_def)


text \<open>
  C30: once the panel has an active super administrator it always has one: whatever requests follow,
  in any order and with any actors, profile changes, role changes and deactivations included.
\<close>

theorem superadmin_stays:
  assumes "(auth_step E)\<^sup>*\<^sup>* db db'" and "auth_ok db" and "has_superadmin db"
  shows "has_superadmin db'"
  using assms(1)
proof (induction rule: rtranclp_induct)
  case base
  show ?case by (rule assms(3))
next
  case (step y z)
  with auth_history_ok [OF step.hyps(1) assms(2)] show ?case by (blast intro: superadmin_step)
qed

theorem superadmin_stays_witness:
  "has_superadmin (fst (update_user 1 2 \<lparr>uu_name = [], uu_email = [], uu_phone = [], uu_role = RoleAdmin, uu_active = False\<rparr>
     (fst (authenticate sample_authenv (90 * second) ''tok''
        (sample_auth\<lparr>sessions := [sample_session\<lparr>sr_mfa := True\<rparr>]\<rparr>)))))"
proof -
  let ?db = "sample_auth\<lparr>sessions := [sample_session\<lparr>sr_mfa := True\<rparr>]\<rparr>"
  let ?u = "\<lparr>uu_name = [], uu_email = [], uu_phone = [], uu_role = RoleAdmin, uu_active = False\<rparr>"
  let ?a = "authenticate sample_authenv (90 * second) ''tok'' ?db"
  obtain sess where a: "?a = (fst ?a, Inr sess)" and m: "may_manage_users sess" "us_id (se_user sess) = 1"
    by (simp add: authenticate_def hash_token_def sample_authenv_def sample_crypto_def sample_auth_def find_row_Cons
      sample_session_def session_user_def sample_root_def session_ttl_def idle_timeout_def Let_def may_manage_users_def
      role_can_def perms_of_def role_perms_def)
  have "auth_step sample_authenv ?db (fst (update_user 1 2 ?u (fst ?a)))"
    by (rule st_update [OF a m(1), where i = 2 and u = ?u and r = "snd (update_user 1 2 ?u (fst ?a))"]) (simp add: m(2))
  moreover have "auth_ok ?db"
    by (rule sessions_ok [OF sample_auth_ok]) (auto simp: srow_ok_def sample_auth_def sample_session_def sample_root_def)
  moreover have "has_superadmin ?db" by (simp add: has_superadmin_def sample_auth_def sample_root_def)
  ultimately show ?thesis using superadmin_stays [OF r_into_rtranclp] by blast
qed



text \<open>
  A token gives access exactly when it is not empty and a session with its hash is stored that was
  opened at most twelve hours ago and used at most thirty minutes ago; the use is then recorded.
\<close>

lemma session_lifetime:
  assumes "auth_ok db"
  shows "(\<exists>db1 sess. authenticate E now tok db = (db1, Inr sess)) \<longleftrightarrow>
     tok \<noteq> [] \<and> (\<exists>s\<in>set (sessions db). sr_id s = hash_token E tok \<and> now \<le> sr_created s + 12 * hour \<and>
       now \<le> sr_seen s + 30 * minute)"
proof
  assume "\<exists>db1 sess. authenticate E now tok db = (db1, Inr sess)"
  then obtain db1 sess where a: "authenticate E now tok db = (db1, Inr sess)" by blast
  from authenticate_sess [OF assms a] obtain s where s: "s \<in> set (sessions db)" "sr_id s = hash_token E tok"
    "now \<le> sr_expires s" "now - sr_seen s \<le> idle_timeout" by blast
  moreover have "sr_expires s = sr_created s + session_ttl" using auth_okD(6) [OF assms s(1)] by (simp add: srow_ok_def)
  moreover have "tok \<noteq> []" using a by (auto simp: authenticate_def)
  ultimately show "tok \<noteq> [] \<and> (\<exists>s\<in>set (sessions db). sr_id s = hash_token E tok \<and> now \<le> sr_created s + 12 * hour \<and>
       now \<le> sr_seen s + 30 * minute)"
    by (auto simp: session_ttl_def idle_timeout_def intro!: bexI [of _ s])
next
  assume "tok \<noteq> [] \<and> (\<exists>s\<in>set (sessions db). sr_id s = hash_token E tok \<and> now \<le> sr_created s + 12 * hour \<and>
       now \<le> sr_seen s + 30 * minute)"
  then obtain s where t: "tok \<noteq> []" and s: "s \<in> set (sessions db)" "sr_id s = hash_token E tok"
    "now \<le> sr_created s + 12 * hour" "now \<le> sr_seen s + 30 * minute" by blast
  have f: "find_row sr_id (hash_token E tok) (sessions db) = Some s"
    using find_row_distinct [OF auth_okD(5) [OF assms] s(1)] s(2) by simp
  have ok: "srow_ok (users db) s" by (rule auth_okD(6) [OF assms s(1)])
  then have "session_user s db \<noteq> None" by (auto simp: session_user_def find_None_iff srow_ok_def)
  then obtain r where "session_user s db = Some r" by blast
  then show "\<exists>db1 sess. authenticate E now tok db = (db1, Inr sess)"
    using t f s(3,4) ok by (simp add: authenticate_def Let_def srow_ok_def session_ttl_def idle_timeout_def)
qed

lemma session_lifetime_example:
  "(\<exists>db1 sess. authenticate sample_authenv (90 * second) ''tok'' sample_auth = (db1, Inr sess)) \<and>
   \<not> (\<exists>db1 sess. authenticate sample_authenv (40 * minute) ''tok'' sample_auth = (db1, Inr sess))"
  unfolding session_lifetime [OF sample_auth_ok]
  by (simp add: sample_auth_def sample_session_def hash_token_def sample_authenv_def sample_crypto_def)

end
