(* ===== verification/FileServer.thy ===== *)
theory FileServer
  imports Password "HOL-Library.List_Lexorder" "HOL-Library.Char_ord"
begin

text \<open>
  The built-in file server that devices pull packages and firmware from
  (\<open>internal/fileserver\<close>): the registry of short-lived grants (\<open>grants.go\<close>), TFTP reads
  (\<open>tftp.go\<close>), the FTP session (\<open>ftp.go\<close>) and the configuration of both (\<open>server.go\<close>).

  Parsing of addresses is the package \<open>net\<close>: the fields of \<open>netlib\<close>. What the network and the
  file store answer during one command are the fields of \<open>netans\<close>. Random tokens are built from
  bytes that are arguments. A Go map is an association list with the keys in any order.
\<close>

subsection \<open>Grants\<close>

record grant =
  gr_id :: string
  gr_files :: "(string \<times> string) list"
  gr_ips :: "string list"
  gr_user :: string
  gr_password :: string
  gr_expires :: time

record netlib =
  nl_split_host :: "string \<Rightarrow> string option"
  nl_parse_ip :: "string \<Rightarrow> string option"
  nl_to4 :: "string \<Rightarrow> (nat \<times> nat \<times> nat \<times> nat) option"

definition grant_name :: "grant \<Rightarrow> string \<Rightarrow> string" where
  "grant_name g sha = (case List.find (\<lambda>(name, s). s = sha) (gr_files g) of None \<Rightarrow> [] | Some (name, s) \<Rightarrow> name)"

definition fs_token :: "string \<Rightarrow> string" where "fs_token b = to_lower (encode32 b)"

definition gc_grants :: "time \<Rightarrow> grant list \<Rightarrow> grant list" where
  "gc_grants now reg = filter (\<lambda>g. \<not> now > gr_expires g) reg"

record grant_random =
  gx_id :: string
  gx_user :: string
  gx_password :: string
  gx_prefix :: string

definition make_grant ::
  "netlib \<Rightarrow> grant_random \<Rightarrow> time \<Rightarrow> (string \<times> string) list \<Rightarrow> string list \<Rightarrow> time \<Rightarrow> grant" where
  "make_grant N x now files ips ttl =
     \<lparr>gr_id = fs_token (gx_id x),
      gr_files = map (\<lambda>(name, sha). (''tp'' @ fs_token (gx_prefix x) @ ''-'' @ name, sha)) files,
      gr_ips = List.map_filter (nl_parse_ip N) ips,
      gr_user = ''tp'' @ fs_token (gx_user x), gr_password = fs_token (gx_password x), gr_expires = now + ttl\<rparr>"

text \<open>\<open>r.grants[g.ID] = g\<close> replaces a grant with the same id.\<close>

definition add_grant ::
  "netlib \<Rightarrow> grant_random \<Rightarrow> time \<Rightarrow> (string \<times> string) list \<Rightarrow> string list \<Rightarrow> time \<Rightarrow> grant list \<Rightarrow> grant list \<times> grant"
  where
  "add_grant N x now files ips ttl reg =
     (let g = make_grant N x now files ips ttl
      in (filter (\<lambda>h. gr_id h \<noteq> gr_id g) (gc_grants now reg) @ [g], g))"

definition revoke :: "string \<Rightarrow> grant list \<Rightarrow> grant list" where
  "revoke i reg = filter (\<lambda>g. gr_id g \<noteq> i) reg"

definition host_of :: "netlib \<Rightarrow> string \<Rightarrow> string" where
  "host_of N addr =
     (let host = (case nl_split_host N addr of None \<Rightarrow> addr | Some h \<Rightarrow> h)
      in case nl_parse_ip N host of None \<Rightarrow> host | Some ip \<Rightarrow> ip)"

definition served_name :: "string \<Rightarrow> string" where
  "served_name name =
     trim_left (\<lambda>c. c = CHR ''/'') (map (\<lambda>c. if c = CHR 0x5C then CHR ''/'' else c) name)"

definition lookup :: "netlib \<Rightarrow> time \<Rightarrow> string \<Rightarrow> string \<Rightarrow> grant list \<Rightarrow> grant list \<times> string option" where
  "lookup N now addr name reg =
     (let reg1 = gc_grants now reg; f = served_name name; ip = host_of N addr
      in (reg1, first_some (\<lambda>g. case map_of (gr_files g) f of
                                  None \<Rightarrow> None
                                | Some sha \<Rightarrow> if ip \<in> set (gr_ips g) then Some sha else None) reg1))"

definition ftp_login :: "netlib \<Rightarrow> time \<Rightarrow> string \<Rightarrow> string \<Rightarrow> string \<Rightarrow> grant list \<Rightarrow> grant list \<times> grant option" where
  "ftp_login N now addr user pass reg =
     (let reg1 = gc_grants now reg; ip = host_of N addr
      in (reg1, List.find (\<lambda>g. gr_user g = user \<and> gr_password g = pass \<and> ip \<in> set (gr_ips g)) reg1))"

definition allowed :: "netlib \<Rightarrow> time \<Rightarrow> string \<Rightarrow> grant list \<Rightarrow> grant list \<times> bool" where
  "allowed N now addr reg =
     (let reg1 = gc_grants now reg; ip = host_of N addr
      in (reg1, list_ex (\<lambda>g. ip \<in> set (gr_ips g)) reg1))"

subsection \<open>Configuration\<close>

record fsconfig =
  fc_tftp :: string
  fc_ftp :: string
  fc_public_ip :: string
  fc_range :: string
  fc_ftp_public :: int

definition parse_range :: "string \<Rightarrow> int \<times> int" where
  "parse_range r =
     (case cut (CHR ''-'') r of
        None \<Rightarrow> (0, 0)
      | Some (a, b) \<Rightarrow>
          (case (atoi (trim_space a), atoi (trim_space b)) of
             (Some lo, Some hi) \<Rightarrow> if lo \<le> 0 \<or> hi < lo \<or> hi > 65535 then (0, 0) else (lo, hi)
           | _ \<Rightarrow> (0, 0)))"

text \<open>\<open>port_of\<close> is the port part of \<open>net.SplitHostPort\<close>, empty on an error.\<close>

definition ftp_port :: "(string \<Rightarrow> string) \<Rightarrow> fsconfig \<Rightarrow> int" where
  "ftp_port port_of c =
     (if fc_ftp_public c > 0 then fc_ftp_public c
      else (case atoi (port_of (fc_ftp c)) of None \<Rightarrow> 0 | Some n \<Rightarrow> n))"

definition tftp_enabled :: "fsconfig \<Rightarrow> bool" where "tftp_enabled c \<longleftrightarrow> fc_tftp c \<noteq> []"
definition ftp_enabled :: "fsconfig \<Rightarrow> bool" where "ftp_enabled c \<longleftrightarrow> fc_ftp c \<noteq> []"

text \<open>\<open>route\<close> is the local address the operating system would use, if there is one.\<close>

definition address_for :: "(string \<Rightarrow> string option) \<Rightarrow> fsconfig \<Rightarrow> string \<Rightarrow> string" where
  "address_for route c host =
     (if fc_public_ip c \<noteq> [] then fc_public_ip c else (case route host of None \<Rightarrow> [] | Some a \<Rightarrow> a))"

subsection \<open>FTP\<close>

datatype fs_out =
    Reply nat string | Raw string | FileData string string | ListData string

record netans =
  na_open :: "string \<Rightarrow> (int \<times> string) option"
  na_listen :: "int \<Rightarrow> int option"
  na_accept :: "string option"
  na_copied :: bool

record ftp_conf =
  fp_public_ip :: string
  fp_min :: int
  fp_max :: int

record ftp_session =
  fs_remote :: string
  fs_local :: string
  fs_user :: string
  fs_grant :: "grant option"
  fs_pasv :: "int option"

definition new_ftp :: "fsconfig \<Rightarrow> ftp_conf" where
  "new_ftp c = (case parse_range (fc_range c) of (lo, hi) \<Rightarrow> \<lparr>fp_public_ip = fc_public_ip c, fp_min = lo, fp_max = hi\<rparr>)"

text \<open>\<open>path.Clean("/" + name)\<close> without its leading slash.\<close>

fun clean_parts :: "string list \<Rightarrow> string list \<Rightarrow> string list" where
  "clean_parts done [] = rev done"
| "clean_parts done (p # ps) =
     (if p = [] \<or> p = ''.'' then clean_parts done ps
      else if p = ''..'' then clean_parts (tl done) ps
      else clean_parts (p # done) ps)"

definition clean_name :: "string \<Rightarrow> string" where
  "clean_name name = join ''/'' (clean_parts [] (split_char (CHR ''/'') name))"

definition ftp_file :: "time \<Rightarrow> grant \<Rightarrow> string \<Rightarrow> string option" where
  "ftp_file now g name = (if \<not> now < gr_expires g then None else map_of (gr_files g) (clean_name name))"

definition passive_port :: "ftp_conf \<Rightarrow> netans \<Rightarrow> int option" where
  "passive_port C a =
     (if fp_min C > 0 then first_some (na_listen a) [fp_min C..fp_max C] else na_listen a 0)"

definition passive_reply :: "netlib \<Rightarrow> ftp_conf \<Rightarrow> bool \<Rightarrow> string \<Rightarrow> int \<Rightarrow> fs_out" where
  "passive_reply N C extended local port =
     (if extended then Reply 229 (''Entering Extended Passive Mode (|||'' @ show_int port @ ''|)'')
      else (let ip = (case nl_parse_ip N (fp_public_ip C) of None \<Rightarrow> local | Some p \<Rightarrow> p)
            in case nl_to4 N ip of
                 None \<Rightarrow> Reply 425 ''Use EPSV for IPv6''
               | Some (a, b, c, d) \<Rightarrow>
                   Reply 227 (''Entering Passive Mode ('' @ join '','' (map show_nat [a, b, c, d]) @ '','' @
                     show_int (port div 256) @ '','' @ show_int (port mod 256) @ '')'')))"

definition ftp_passive :: "netlib \<Rightarrow> ftp_conf \<Rightarrow> netans \<Rightarrow> bool \<Rightarrow> ftp_session \<Rightarrow> ftp_session \<times> fs_out list" where
  "ftp_passive N C a extended s =
     (case passive_port C a of
        None \<Rightarrow> (s\<lparr>fs_pasv := None\<rparr>, [Reply 425 ''No passive port available''])
      | Some port \<Rightarrow> (s\<lparr>fs_pasv := Some port\<rparr>, [passive_reply N C extended (fs_local s) port]))"

text \<open>\<open>dataConn\<close>: the replies, and whether a data connection was accepted. The listener is used up.\<close>

definition data_conn :: "netlib \<Rightarrow> netans \<Rightarrow> ftp_session \<Rightarrow> ftp_session \<times> fs_out list \<times> bool" where
  "data_conn N a s =
     (if fs_pasv s = None then (s, [Reply 425 ''Use PASV first''], False)
      else (s\<lparr>fs_pasv := None\<rparr>,
            (case na_accept a of
               None \<Rightarrow> ([Reply 425 ''Data connection failed''], False)
             | Some remote \<Rightarrow>
                 if host_of N remote \<noteq> host_of N (fs_remote s)
                 then ([Reply 425 ''Data connection from another address''], False) else ([], True))))"

definition retr :: "netlib \<Rightarrow> netans \<Rightarrow> time \<Rightarrow> grant \<Rightarrow> string \<Rightarrow> ftp_session \<Rightarrow> ftp_session \<times> fs_out list" where
  "retr N a now g name s =
     (case ftp_file now g name of
        None \<Rightarrow> (s, [Reply 550 ''File not found''])
      | Some sha \<Rightarrow>
          (case na_open a sha of
             None \<Rightarrow> (s, [Reply 550 ''File not available''])
           | Some (sz, content) \<Rightarrow>
               (case data_conn N a s of
                  (s1, outs, False) \<Rightarrow> (s1, outs)
                | (s1, outs, True) \<Rightarrow>
                    (s1, [Reply 150 ''Opening data connection'', FileData sha content,
                          if na_copied a then Reply 226 ''Transfer complete'' else Reply 426 ''Transfer aborted'']))))"

definition crlf :: string where "crlf = [CHR 0x0D, CHR 0x0A]"

definition list_line :: "netans \<Rightarrow> grant \<Rightarrow> bool \<Rightarrow> string \<Rightarrow> string" where
  "list_line a g long name =
     (if long
      then ''-r--r--r-- 1 taktaplus taktaplus '' @
           show_int (case Option.bind (map_of (gr_files g) name) (na_open a) of None \<Rightarrow> 0 | Some (sz, c) \<Rightarrow> sz) @
           '' Jan 01 00:00 '' @ name @ crlf
      else name @ crlf)"

definition ftp_list :: "netlib \<Rightarrow> netans \<Rightarrow> grant \<Rightarrow> bool \<Rightarrow> ftp_session \<Rightarrow> ftp_session \<times> fs_out list" where
  "ftp_list N a g long s =
     (case data_conn N a s of
        (s1, outs, False) \<Rightarrow> (s1, outs)
      | (s1, outs, True) \<Rightarrow>
          (s1, [Reply 150 ''Here comes the listing'',
                ListData (concat (map (list_line a g long) (sort (map fst (gr_files g))))),
                Reply 226 ''Directory send OK'']))"

text \<open>
  The commands of a signed-in session: those that are one reply, and those that use the data
  connection.
\<close>

definition plain_command :: "netans \<Rightarrow> time \<Rightarrow> grant \<Rightarrow> string \<Rightarrow> string \<Rightarrow> nat \<times> string" where
  "plain_command a now g cmd arg =
     (if cmd = ''OPTS'' \<or> cmd = ''MODE'' \<or> cmd = ''STRU'' then (200, ''OK'')
      else if cmd = ''TYPE'' then (200, ''Type set'')
      else if cmd = ''PWD'' \<or> cmd = ''XPWD'' then (257, CHR 0x22 # ''/'' @ [CHR 0x22] @ '' is the current directory'')
      else if cmd = ''CWD'' \<or> cmd = ''XCWD''
      then (if arg = ''/'' \<or> arg = [] \<or> arg = ''.'' then (250, ''OK'') else (550, ''No such directory''))
      else if cmd = ''SIZE''
      then (case Option.bind (ftp_file now g arg) (na_open a) of
              None \<Rightarrow> (550, ''File not found'') | Some (sz, c) \<Rightarrow> (213, show_int sz))
      else (502, ''Command not implemented''))"

definition granted_command ::
  "netlib \<Rightarrow> ftp_conf \<Rightarrow> netans \<Rightarrow> time \<Rightarrow> grant \<Rightarrow> string \<Rightarrow> string \<Rightarrow> ftp_session \<Rightarrow> ftp_session \<times> fs_out list" where
  "granted_command N C a now g cmd arg s =
     (if cmd = ''PASV'' \<or> cmd = ''EPSV'' then ftp_passive N C a (cmd = ''EPSV'') s
      else if cmd = ''RETR'' then retr N a now g arg s
      else if cmd = ''LIST'' \<or> cmd = ''NLST'' then ftp_list N a g (cmd = ''LIST'') s
      else (case plain_command a now g cmd arg of (n, m) \<Rightarrow> (s, [Reply n m])))"

text \<open>One command of the control connection; \<open>False\<close> ends the session.\<close>

definition ftp_command ::
  "netlib \<Rightarrow> ftp_conf \<Rightarrow> netans \<Rightarrow> time \<Rightarrow> string \<Rightarrow> string \<Rightarrow> grant list \<Rightarrow> ftp_session \<Rightarrow>
     grant list \<times> ftp_session \<times> fs_out list \<times> bool" where
  "ftp_command N C a now cmd arg reg s =
     (if cmd = ''USER'' then (reg, s\<lparr>fs_user := arg, fs_grant := None\<rparr>, [Reply 331 ''Password required''], True)
      else if cmd = ''PASS''
      then (case ftp_login N now (fs_remote s) (fs_user s) arg reg of
              (reg1, None) \<Rightarrow> (reg1, s, [Reply 530 ''Login incorrect''], False)
            | (reg1, Some g) \<Rightarrow> (reg1, s\<lparr>fs_grant := Some g\<rparr>, [Reply 230 ''Logged in''], True))
      else if cmd = ''QUIT'' then (reg, s, [Reply 221 ''Bye''], False)
      else if cmd = ''SYST'' then (reg, s, [Reply 215 ''UNIX Type: L8''], True)
      else if cmd = ''FEAT''
      then (reg, s, [Raw (''211-Features:'' @ crlf @ '' PASV'' @ crlf @ '' EPSV'' @ crlf @ '' SIZE'' @ crlf @ '' UTF8'' @
              crlf @ ''211 End'' @ crlf)], True)
      else if cmd = ''NOOP'' then (reg, s, [Reply 200 ''OK''], True)
      else (case fs_grant s of
              None \<Rightarrow> (reg, s, [Reply 530 ''Please log in''], True)
            | Some g \<Rightarrow>
                (case granted_command N C a now g cmd arg s of (s1, outs) \<Rightarrow> (reg, s1, outs, True))))"

definition ftp_line ::
  "netlib \<Rightarrow> ftp_conf \<Rightarrow> netans \<Rightarrow> time \<Rightarrow> string \<Rightarrow> grant list \<Rightarrow> ftp_session \<Rightarrow>
     grant list \<times> ftp_session \<times> fs_out list \<times> bool" where
  "ftp_line N C a now line0 reg s =
     (let line = trim_right (\<lambda>c. c = CHR 0x0D \<or> c = CHR 0x0A) line0
      in case cut (CHR '' '') line of
           None \<Rightarrow> ftp_command N C a now (to_upper line) [] reg s
         | Some (cmd, arg) \<Rightarrow> ftp_command N C a now (to_upper cmd) arg reg s)"

text \<open>A new connection: refused before the greeting, or a session without a grant.\<close>

definition ftp_connect ::
  "netlib \<Rightarrow> time \<Rightarrow> string \<Rightarrow> string \<Rightarrow> grant list \<Rightarrow> grant list \<times> ftp_session option \<times> fs_out list" where
  "ftp_connect N now remote local reg =
     (case allowed N now remote reg of
        (reg1, False) \<Rightarrow> (reg1, None, [Raw (''421 Not allowed'' @ crlf)])
      | (reg1, True) \<Rightarrow>
          (reg1, Some \<lparr>fs_remote = remote, fs_local = local, fs_user = [], fs_grant = None, fs_pasv = None\<rparr>,
           [Reply 220 ''TaktaPlus file server'']))"

subsection \<open>TFTP\<close>

definition tftp_read :: "netlib \<Rightarrow> netans \<Rightarrow> time \<Rightarrow> string \<Rightarrow> string \<Rightarrow> grant list \<Rightarrow> grant list \<times> (string + fs_out list)" where
  "tftp_read N a now addr name reg =
     (case lookup N now addr name reg of
        (reg1, None) \<Rightarrow> (reg1, Inl ''file not found'')
      | (reg1, Some sha) \<Rightarrow>
          (reg1, case na_open a sha of
                   None \<Rightarrow> Inl ''open''
                 | Some (sz, content) \<Rightarrow> Inr [FileData sha content]))"

subsection \<open>Histories\<close>

text \<open>
  The server at work: the registry, the open FTP sessions, and, as a history variable, every grant
  that was ever issued. A step has the instant at which it happens, the address of the client it
  answers, and what it sends.
\<close>

record fsstate =
  st_reg :: "grant list"
  st_conns :: "nat \<Rightarrow> ftp_session option"
  st_issued :: "grant list"

definition empty_fs :: fsstate where "empty_fs = \<lparr>st_reg = [], st_conns = (\<lambda>_. None), st_issued = []\<rparr>"

inductive fs_step ::
  "netlib \<Rightarrow> ftp_conf \<Rightarrow> fsstate \<Rightarrow> time \<Rightarrow> string \<Rightarrow> fs_out list \<Rightarrow> fsstate \<Rightarrow> bool" for N C where
  fs_grant: "add_grant N x now files ips ttl (st_reg st) = (reg, g) \<Longrightarrow>
    fs_step N C st now client [] (st\<lparr>st_reg := reg, st_issued := st_issued st @ [g]\<rparr>)"
| fs_revoke: "fs_step N C st now client [] (st\<lparr>st_reg := revoke i (st_reg st)\<rparr>)"
| fs_tftp: "tftp_read N a now client name (st_reg st) = (reg, r) \<Longrightarrow>
    fs_step N C st now client (case r of Inl e \<Rightarrow> [] | Inr outs \<Rightarrow> outs) (st\<lparr>st_reg := reg\<rparr>)"
| fs_connect: "ftp_connect N now client local (st_reg st) = (reg, c, outs) \<Longrightarrow> st_conns st k = None \<Longrightarrow>
    fs_step N C st now client outs (st\<lparr>st_reg := reg, st_conns := (st_conns st)(k := c)\<rparr>)"
| fs_line: "st_conns st k = Some s \<Longrightarrow> ftp_line N C a now line (st_reg st) s = (reg, s', outs, go) \<Longrightarrow>
    fs_step N C st now (fs_remote s) outs
      (st\<lparr>st_reg := reg, st_conns := (st_conns st)(k := if go then Some s' else None)\<rparr>)"
| fs_hangup: "fs_step N C st now client [] (st\<lparr>st_conns := (st_conns st)(k := None)\<rparr>)"

inductive fs_reach :: "netlib \<Rightarrow> ftp_conf \<Rightarrow> fsstate \<Rightarrow> bool" for N C where
  fs_start: "fs_reach N C empty_fs"
| fs_next: "fs_reach N C st \<Longrightarrow> fs_step N C st now client outs st' \<Longrightarrow> fs_reach N C st'"

definition sess_ok :: "netlib \<Rightarrow> grant list \<Rightarrow> ftp_session \<Rightarrow> bool" where
  "sess_ok N issued s \<longleftrightarrow>
     (case fs_grant s of None \<Rightarrow> True | Some g \<Rightarrow> g \<in> set issued \<and> host_of N (fs_remote s) \<in> set (gr_ips g))"

definition fs_ok :: "netlib \<Rightarrow> fsstate \<Rightarrow> bool" where
  "fs_ok N st \<longleftrightarrow> set (st_reg st) \<subseteq> set (st_issued st) \<and>
     (\<forall>k s. st_conns st k = Some s \<longrightarrow> sess_ok N (st_issued st) s)"

lemma fs_okD:
  "fs_ok N st \<Longrightarrow> g \<in> set (st_reg st) \<Longrightarrow> g \<in> set (st_issued st)"
  "fs_ok N st \<Longrightarrow> st_conns st k = Some s \<Longrightarrow> sess_ok N (st_issued st) s"
  unfolding fs_ok_def by blast+

lemma fs_okI:
  "set (st_reg st) \<subseteq> set (st_issued st) \<Longrightarrow> (\<And>k s. st_conns st k = Some s \<Longrightarrow> sess_ok N (st_issued st) s) \<Longrightarrow> fs_ok N st"
  unfolding fs_ok_def by blast

lemma sess_ok_mono: "sess_ok N gs s \<Longrightarrow> set gs \<subseteq> set hs \<Longrightarrow> sess_ok N hs s"
  by (auto simp: sess_ok_def split: option.splits)

lemma set_gc: "set (gc_grants now reg) = {g \<in> set reg. now \<le> gr_expires g}"
  by (auto simp: gc_grants_def)

lemma ftp_login_cases:
  assumes "ftp_login N now addr user pass reg = (reg1, r)"
  shows "reg1 = gc_grants now reg"
    and "r = Some g \<Longrightarrow> g \<in> set reg \<and> now \<le> gr_expires g \<and> gr_user g = user \<and> gr_password g = pass \<and>
      host_of N addr \<in> set (gr_ips g)"
proof -
  show "reg1 = gc_grants now reg" using assms by (simp add: ftp_login_def Let_def)
  assume "r = Some g"
  then have f: "List.find (\<lambda>g. gr_user g = user \<and> gr_password g = pass \<and> host_of N addr \<in> set (gr_ips g))
      (gc_grants now reg) = Some g"
    using assms by (auto simp: ftp_login_def Let_def)
  then have "g \<in> set (gc_grants now reg)" by (auto simp: find_Some_iff)
  moreover have "gr_user g = user \<and> gr_password g = pass \<and> host_of N addr \<in> set (gr_ips g)"
    using f by (auto simp: find_Some_iff)
  ultimately show "g \<in> set reg \<and> now \<le> gr_expires g \<and> gr_user g = user \<and> gr_password g = pass \<and>
      host_of N addr \<in> set (gr_ips g)" by (simp add: set_gc)
qed

text \<open>Only \<open>RETR\<close> sends a file, and only of the grant, before it expires.\<close>

lemma data_conn_keeps:
  "data_conn N a s = (s1, outs, b) \<Longrightarrow> fs_grant s1 = fs_grant s \<and> fs_remote s1 = fs_remote s \<and>
     FileData sha c \<notin> set outs"
  by (auto simp: data_conn_def split: if_splits option.splits)

lemma passive_keeps:
  "ftp_passive N C a ext s = (s1, outs) \<Longrightarrow> fs_grant s1 = fs_grant s \<and> fs_remote s1 = fs_remote s \<and> FileData sha c \<notin> set outs"
  by (auto simp: ftp_passive_def passive_reply_def Let_def split: option.splits if_splits)

lemma list_keeps:
  assumes "ftp_list N a g long s = (s1, outs)"
  shows "fs_grant s1 = fs_grant s \<and> fs_remote s1 = fs_remote s \<and> FileData sha c \<notin> set outs"
proof -
  obtain s2 ds b where dc: "data_conn N a s = (s2, ds, b)" by (cases "data_conn N a s") auto
  from data_conn_keeps [OF dc] assms dc show ?thesis by (cases b) (auto simp: ftp_list_def)
qed

lemma ftp_file_in: "ftp_file now g name = Some sha \<Longrightarrow> now < gr_expires g \<and> sha \<in> snd ` set (gr_files g)"
  by (force simp: ftp_file_def dest!: map_of_SomeD split: if_splits)

lemma retr_keeps:
  assumes "retr N a now g name s = (s1, outs)"
  shows "fs_grant s1 = fs_grant s \<and> fs_remote s1 = fs_remote s"
    and "FileData sha c \<in> set outs \<Longrightarrow> now < gr_expires g \<and> sha \<in> snd ` set (gr_files g) \<and> (\<exists>sz. na_open a sha = Some (sz, c))"
proof -
  obtain s2 ds b where dc: "data_conn N a s = (s2, ds, b)" by (cases "data_conn N a s") auto
  note keep = data_conn_keeps [OF dc]
  show "fs_grant s1 = fs_grant s \<and> fs_remote s1 = fs_remote s"
    using assms keep dc by (cases b) (auto simp: retr_def split: option.splits)
  assume d: "FileData sha c \<in> set outs"
  with assms keep dc have "ftp_file now g name = Some sha \<and> (\<exists>sz. na_open a sha = Some (sz, c))"
    by (cases b) (auto simp: retr_def split: option.splits if_splits)
  then show "now < gr_expires g \<and> sha \<in> snd ` set (gr_files g) \<and> (\<exists>sz. na_open a sha = Some (sz, c))"
    by (blast dest: ftp_file_in)
qed

lemma granted_command_cases:
  assumes "granted_command N C a now g cmd arg s = (s1, outs)"
  shows "s1 = s \<and> (\<exists>n m. outs = [Reply n m]) \<or> (\<exists>ext. ftp_passive N C a ext s = (s1, outs)) \<or>
    retr N a now g arg s = (s1, outs) \<or> (\<exists>long. ftp_list N a g long s = (s1, outs))"
  using assms by (cases "plain_command a now g cmd arg") (simp add: granted_command_def split: if_split_asm, blast+)

lemma granted_command_keeps:
  assumes "granted_command N C a now g cmd arg s = (s1, outs)"
  shows "fs_grant s1 = fs_grant s \<and> fs_remote s1 = fs_remote s"
    and "FileData sha c \<in> set outs \<Longrightarrow> now < gr_expires g \<and> sha \<in> snd ` set (gr_files g) \<and>
      (\<exists>sz. na_open a sha = Some (sz, c))"
  using granted_command_cases [OF assms] by (auto dest: passive_keeps list_keeps retr_keeps)

lemma ftp_command_keeps:
  assumes "ftp_command N C a now cmd arg reg s = (reg1, s1, outs, go)"
  shows "set reg1 \<subseteq> set reg" and "fs_remote s1 = fs_remote s"
    and "set reg \<subseteq> set issued \<Longrightarrow> sess_ok N issued s \<Longrightarrow> sess_ok N issued s1"
    and "FileData sha c \<in> set outs \<Longrightarrow> \<exists>g. fs_grant s = Some g \<and> now < gr_expires g \<and> sha \<in> snd ` set (gr_files g) \<and>
      (\<exists>sz. na_open a sha = Some (sz, c))"
proof -
  obtain reg2 r where lg: "ftp_login N now (fs_remote s) (fs_user s) arg reg = (reg2, r)"
    by (cases "ftp_login N now (fs_remote s) (fs_user s) arg reg")
  note L = ftp_login_cases [OF lg]
  have sub: "set (gc_grants now reg) \<subseteq> set reg" by (auto simp: set_gc)
  show "set reg1 \<subseteq> set reg"
    using assms lg L(1) sub by (auto simp: ftp_command_def split: if_splits option.splits prod.splits)
  show "fs_remote s1 = fs_remote s"
    using assms lg by (auto simp: ftp_command_def split: if_splits option.splits prod.splits dest: granted_command_keeps(1))
  show "sess_ok N issued s1" if reg: "set reg \<subseteq> set issued" and s: "sess_ok N issued s"
  proof (cases "cmd = ''PASS''")
    case True
    with assms lg have "s1 = s \<or> (\<exists>g. r = Some g \<and> s1 = s\<lparr>fs_grant := Some g\<rparr>)"
      by (auto simp: ftp_command_def split: option.splits)
    with s reg L(2) show ?thesis by (auto simp: sess_ok_def)
  next
    case False
    with assms have "fs_grant s1 = None \<or> fs_grant s1 = fs_grant s \<and> fs_remote s1 = fs_remote s"
      by (auto simp: ftp_command_def split: if_splits option.splits prod.splits dest: granted_command_keeps(1))
    with s show ?thesis by (cases "fs_grant s") (auto simp: sess_ok_def)
  qed
  show "\<exists>g. fs_grant s = Some g \<and> now < gr_expires g \<and> sha \<in> snd ` set (gr_files g) \<and>
      (\<exists>sz. na_open a sha = Some (sz, c))" if "FileData sha c \<in> set outs"
    using assms that lg
    by (auto simp: ftp_command_def split: if_splits option.splits prod.splits dest: granted_command_keeps(2))
qed

lemma set_add_grant:
  "add_grant N x now files ips ttl reg = (reg1, g) \<Longrightarrow> set reg1 \<subseteq> insert g (set reg)"
  by (auto simp: add_grant_def Let_def set_gc)

lemma lookup_cases:
  assumes "lookup N now addr name reg = (reg1, r)"
  shows "reg1 = gc_grants now reg"
    and "r = Some sha \<Longrightarrow> \<exists>g\<in>set reg. now \<le> gr_expires g \<and> sha \<in> snd ` set (gr_files g) \<and> host_of N addr \<in> set (gr_ips g)"
proof -
  show "reg1 = gc_grants now reg" using assms by (auto simp: lookup_def Let_def)
  assume "r = Some sha"
  with assms have "first_some (\<lambda>g. case map_of (gr_files g) (served_name name) of None \<Rightarrow> None
      | Some sha \<Rightarrow> if host_of N addr \<in> set (gr_ips g) then Some sha else None) (gc_grants now reg) = Some sha"
    by (auto simp: lookup_def Let_def)
  then obtain g where g: "g \<in> set (gc_grants now reg)" "map_of (gr_files g) (served_name name) = Some sha"
    "host_of N addr \<in> set (gr_ips g)"
    by (auto dest!: first_some_Some split: option.splits if_splits)
  have "(served_name name, sha) \<in> set (gr_files g)" by (rule map_of_SomeD) (rule g(2))
  with g show "\<exists>g\<in>set reg. now \<le> gr_expires g \<and> sha \<in> snd ` set (gr_files g) \<and> host_of N addr \<in> set (gr_ips g)"
    by (force simp: set_gc)
qed

lemma fs_step_ok:
  assumes "fs_step N C st now client outs st'" and ok: "fs_ok N st"
  shows "fs_ok N st'"
  using assms(1)
proof cases
  case (fs_grant x files ips ttl reg g)
  have sub: "set reg \<subseteq> insert g (set (st_reg st))" by (rule set_add_grant) (rule fs_grant(3))
  have "sess_ok N (st_issued st @ [g]) s" if "st_conns st k = Some s" for k s
    by (rule sess_ok_mono [OF fs_okD(2) [OF ok that]]) auto
  then show ?thesis
    unfolding fs_grant(2) using sub fs_okD(1) [OF ok] by (intro fs_okI) auto
next
  case (fs_revoke i)
  then show ?thesis using fs_okD [OF ok] by (intro fs_okI) (auto simp: revoke_def)
next
  case (fs_tftp a name reg r)
  have "set reg \<subseteq> set (st_reg st)"
  proof -
    obtain reg2 x where l: "lookup N now client name (st_reg st) = (reg2, x)" by (cases "lookup N now client name (st_reg st)")
    with fs_tftp(3) have "reg = reg2" by (cases x) (auto simp: tftp_read_def)
    with lookup_cases(1) [OF l] show ?thesis by (auto simp: set_gc)
  qed
  with fs_okD [OF ok] show ?thesis unfolding fs_tftp(2) by (intro fs_okI) auto
next
  case (fs_connect local reg c k)
  from fs_connect(2) have c: "set reg \<subseteq> set (st_reg st)" "\<And>s. c = Some s \<Longrightarrow> fs_grant s = None"
    by (auto simp: ftp_connect_def allowed_def Let_def set_gc split: prod.splits bool.splits)
  show ?thesis
    unfolding fs_connect(1) using c fs_okD [OF ok] by (intro fs_okI) (auto simp: sess_ok_def split: if_splits)
next
  case (fs_line k s a line reg s' go)
  obtain cmd arg where cmd: "ftp_command N C a now cmd arg (st_reg st) s = (reg, s', outs, go)"
    using fs_line(4) by (auto simp: ftp_line_def Let_def split: option.splits prod.splits)
  have st: "set (st_reg st) \<subseteq> set (st_issued st)" using fs_okD(1) [OF ok] by blast
  have s': "sess_ok N (st_issued st) s'"
    by (rule ftp_command_keeps(3) [OF cmd st fs_okD(2) [OF ok fs_line(3)]])
  show ?thesis
    unfolding fs_line(2) using ftp_command_keeps(1) [OF cmd] st s' fs_okD(2) [OF ok]
    by (intro fs_okI) (auto split: if_splits)
next
  case (fs_hangup k)
  with fs_okD [OF ok] show ?thesis by (intro fs_okI) (auto split: if_splits)
qed

lemma fs_reach_ok: "fs_reach N C st \<Longrightarrow> fs_ok N st"
proof (induction rule: fs_reach.induct)
  case fs_start
  show ?case by (simp add: fs_ok_def empty_fs_def)
next
  case (fs_next st now client outs st')
  then show ?case by (blast intro: fs_step_ok)
qed

lemma fs_step_served:
  assumes "fs_step N C st now client outs st'" and ok: "fs_ok N st" and d: "FileData sha c \<in> set outs"
  shows "\<exists>g\<in>set (st_issued st). sha \<in> snd ` set (gr_files g) \<and> host_of N client \<in> set (gr_ips g) \<and> now \<le> gr_expires g"
  using assms(1)
proof cases
  case (fs_tftp a name reg r)
  obtain reg2 x where l: "lookup N now client name (st_reg st) = (reg2, x)" by (cases "lookup N now client name (st_reg st)")
  with fs_tftp(1,3) d have "x = Some sha" by (cases x) (auto simp: tftp_read_def split: option.splits)
  with lookup_cases(2) [OF l] fs_okD(1) [OF ok] show ?thesis by blast
next
  case (fs_line k s a line reg s' go)
  obtain cmd arg where cmd: "ftp_command N C a now cmd arg (st_reg st) s = (reg, s', outs, go)"
    using fs_line(4) by (auto simp: ftp_line_def Let_def split: option.splits prod.splits)
  from ftp_command_keeps(4) [OF cmd d] obtain g where g: "fs_grant s = Some g" "now < gr_expires g" "sha \<in> snd ` set (gr_files g)"
    by blast
  with fs_okD(2) [OF ok fs_line(3)] fs_line(1) show ?thesis by (auto simp: sess_ok_def)
next
  case (fs_connect local reg c' k)
  with d show ?thesis by (auto simp: ftp_connect_def split: prod.splits bool.splits)
qed (use d in simp_all)

subsection \<open>Properties\<close>

definition sample_net :: netlib where
  "sample_net = \<lparr>nl_split_host = (\<lambda>s. map_option fst (cut (CHR '':'') s)),
     nl_parse_ip = (\<lambda>s. if list_all (\<lambda>c. is_digit c \<or> c = CHR ''.'') s then Some s else None),
     nl_to4 = (\<lambda>s. Some (10, 0, 0, 1))\<rparr>"

definition sample_conf :: ftp_conf where "sample_conf = \<lparr>fp_public_ip = [], fp_min = 30000, fp_max = 30009\<rparr>"

definition sample_ans :: netans where
  "sample_ans = \<lparr>na_open = (\<lambda>sha. if sha = ''aaa'' then Some (3, ''abc'') else None), na_listen = Some,
     na_accept = Some ''10.0.0.7:5000'', na_copied = True\<rparr>"

definition sample_grant :: grant where
  "sample_grant = make_grant sample_net \<lparr>gx_id = ''i'', gx_user = ''u'', gx_password = ''p'', gx_prefix = ''x''\<rparr> 0
     [(''fw.out'', ''aaa'')] [''10.0.0.7''] (60 * second)"

definition sample_ftp :: ftp_session where
  "sample_ftp = \<lparr>fs_remote = ''10.0.0.7:4000'', fs_local = ''10.0.0.1:21'', fs_user = gr_user sample_grant,
     fs_grant = Some sample_grant, fs_pasv = Some 30000\<rparr>"



text \<open>
  Revoking a grant takes effect at once for TFTP, which no longer finds any of its files unless
  another grant serves them, and for new FTP logins, but not for an FTP session that is already signed
  in: it keeps sending the files until the grant expires.
\<close>

lemma revoke_and_sessions:
  assumes others: "\<And>h. h \<in> set reg \<Longrightarrow> gr_id h \<noteq> gr_id g \<Longrightarrow> map_of (gr_files h) (served_name name) = None"
    and sess: "fs_grant s = Some g" "fs_pasv s \<noteq> None" "na_accept a = Some (fs_remote s)"
    and stored: "now < gr_expires g" "map_of (gr_files g) (clean_name name) = Some sha" "na_open a sha = Some (sz, c)"
  shows "snd (lookup N now addr name (revoke (gr_id g) reg)) = None \<and>
    snd (ftp_login N now addr user pass (revoke (gr_id g) reg)) \<noteq> Some g \<and>
    FileData sha c \<in> set (fst (snd (snd (ftp_command N C a now ''RETR'' name (revoke (gr_id g) reg) s))))"
proof (intro conjI)
  show "snd (lookup N now addr name (revoke (gr_id g) reg)) = None"
    using others by (auto simp: lookup_def Let_def set_gc revoke_def)
  show "snd (ftp_login N now addr user pass (revoke (gr_id g) reg)) \<noteq> Some g"
    using ftp_login_cases(2) [OF prod.collapse [symmetric]] by (fastforce simp: revoke_def)
  show "FileData sha c \<in> set (fst (snd (snd (ftp_command N C a now ''RETR'' name (revoke (gr_id g) reg) s))))"
    using sess stored by (simp add: ftp_command_def granted_command_def retr_def ftp_file_def data_conn_def)
qed

lemma revoke_and_sessions_example:
  "snd (lookup sample_net 5 ''10.0.0.7:1000'' (fst (hd (gr_files sample_grant))) (revoke (gr_id sample_grant) [sample_grant])) = None \<and>
   FileData ''aaa'' ''abc'' \<in> set (fst (snd (snd (ftp_command sample_net sample_conf (sample_ans\<lparr>na_accept := Some ''10.0.0.7:4000''\<rparr>) 5
      ''RETR'' (fst (hd (gr_files sample_grant))) (revoke (gr_id sample_grant) [sample_grant]) sample_ftp))))"
proof -
  let ?name = "fst (hd (gr_files sample_grant))"
  have "map_of (gr_files sample_grant) (clean_name ?name) = Some ''aaa''" by code_simp
  moreover have "(5 :: int) < gr_expires sample_grant" by (simp add: sample_grant_def make_grant_def)
  ultimately show ?thesis
    using revoke_and_sessions [of "[sample_grant]" sample_grant ?name sample_ftp
        "sample_ans\<lparr>na_accept := Some ''10.0.0.7:4000''\<rparr>" 5 "''aaa''" 3 "''abc''" sample_net "''10.0.0.7:1000''"]
    by (simp add: sample_ftp_def sample_ans_def)
qed

end
