(* ===== verification/Sms.thy ===== *)
theory Sms
  imports Complex_Main Prelude
begin

text \<open>
  SMS messages (\<open>internal/sms/sms.go\<close>): the provider's answers, mobile numbers, the message log and
  its rate count, and the extraction of a code from a text. The settings store
  (\<open>internal/settings\<close>) gives the saved value of a setting, or leaves the default.

  What the HTTP request to the provider brings back is an argument (\<open>http_answer\<close>); amounts of
  credit are rationals.
\<close>

subsection \<open>Configuration\<close>

record smscfg =
  sc_api_key :: string
  sc_template :: int
  sc_param :: string
  sc_base_url :: string
  sc_low_credit :: rat

abbreviation stars :: string where "stars \<equiv> ''********''"

definition default_sms :: smscfg where
  "default_sms = \<lparr>sc_api_key = [], sc_template = 0, sc_param = ''CODE'', sc_base_url = [], sc_low_credit = 50000\<rparr>"

definition sms_redacted :: "smscfg \<Rightarrow> smscfg" where
  "sms_redacted c = (if sc_api_key c \<noteq> [] then c\<lparr>sc_api_key := stars\<rparr> else c)"

definition sms_configured :: "smscfg \<Rightarrow> bool" where
  "sms_configured c \<longleftrightarrow> sc_api_key c \<noteq> [] \<and> sc_template c > 0 \<and> sc_param c \<noteq> []"

text \<open>\<open>settings.Store.Get\<close> on a struct that holds the default.\<close>

definition setting :: "'a \<Rightarrow> 'a option \<Rightarrow> 'a" where
  "setting dflt v = (case v of None \<Rightarrow> dflt | Some x \<Rightarrow> x)"

text \<open>
  A secret that comes back empty or redacted keeps the stored one. The same rule is used for the
  SMS key and for the directory password.
\<close>

definition keep_secret :: "string \<Rightarrow> string \<Rightarrow> string" where
  "keep_secret old new = (if new = [] \<or> new = stars then old else new)"

locale redaction =
  fixes secret :: "'c \<Rightarrow> string" and redacted :: "'c \<Rightarrow> 'c" and save :: "'c \<Rightarrow> 'c \<Rightarrow> 'e + 'c"
  assumes redacted_secret: "secret (redacted c) = (if secret c = [] then [] else stars)"
    and saved_secret: "save old c = Inr c' \<Longrightarrow> secret c' = keep_secret (secret old) (secret c)"
begin

lemma redacted_hides: "secret c \<noteq> stars \<Longrightarrow> secret c \<noteq> [] \<Longrightarrow> secret (redacted c) \<noteq> secret c"
  by (simp add: redacted_secret)

text \<open>Saving what the screen shows keeps the secret, whatever else was edited.\<close>

lemma save_redacted:
  "save old c = Inr c' \<Longrightarrow> secret c = secret (redacted old) \<Longrightarrow> secret c' = secret old"
  by (auto simp: redacted_secret keep_secret_def dest!: saved_secret)

lemma save_new: "save old c = Inr c' \<Longrightarrow> secret c \<noteq> [] \<Longrightarrow> secret c \<noteq> stars \<Longrightarrow> secret c' = secret c"
  by (auto simp: keep_secret_def dest!: saved_secret)

end

definition save_sms_config :: "smscfg \<Rightarrow> smscfg \<Rightarrow> string + smscfg" where
  "save_sms_config old c0 =
     (let c = c0\<lparr>sc_api_key := keep_secret (sc_api_key old) (sc_api_key c0), sc_param := trim_space (sc_param c0)\<rparr>
      in if sc_template c < 0 then Inl ''template id must be positive'' else Inr c)"

interpretation sms: redaction sc_api_key sms_redacted save_sms_config
  by unfold_locales (auto simp: sms_redacted_def save_sms_config_def Let_def split: if_splits)

subsection \<open>The provider\<close>

record http_answer =
  ha_status :: int
  ha_status_text :: string
  ha_json :: "(int \<times> string) option"

definition smsir_call :: "string + http_answer \<Rightarrow> string option" where
  "smsir_call r =
     (case r of
        Inl e \<Rightarrow> Some (''sms.ir: '' @ e)
      | Inr a \<Rightarrow>
          (case ha_json a of
             None \<Rightarrow> Some (''sms.ir: HTTP '' @ show_int (ha_status a))
           | Some (status, msg) \<Rightarrow>
               if ha_status a div 100 \<noteq> 2 \<or> status \<noteq> 1
               then Some (''sms.ir: '' @ (if msg = [] then ha_status_text a else msg)) else None))"

text \<open>\<open>sp_send\<close> is \<open>SendCode\<close>: the mobile and the code to an error or the provider's message id.\<close>

record provider =
  sp_send :: "string \<Rightarrow> string \<Rightarrow> string + string"
  sp_credit :: "string + rat"

subsection \<open>Mobile numbers\<close>

definition normalize_digits :: "string \<Rightarrow> string" where
  "normalize_digits d =
     (if starts_with ''0098'' d then CHR ''0'' # drop 4 d
      else if starts_with ''98'' d \<and> length d = 12 then CHR ''0'' # drop 2 d
      else if starts_with ''9'' d \<and> length d = 10 then CHR ''0'' # d
      else d)"

definition normalize_mobile :: "string \<Rightarrow> string option" where
  "normalize_mobile s =
     (let d = normalize_digits (filter is_digit s)
      in if length d \<noteq> 11 \<or> \<not> starts_with ''09'' d then None else Some d)"

lemma list_all_drop: "list_all P xs \<Longrightarrow> list_all P (drop n xs)"
  by (metis append_take_drop_id list_all_append)

lemma normalize_digits_digits: "list_all is_digit d \<Longrightarrow> list_all is_digit (normalize_digits d)"
  by (simp add: normalize_digits_def list_all_drop) (simp add: is_digit_def)

lemma normalize_mobile_form:
  assumes "normalize_mobile s = Some m"
  shows "length m = 11 \<and> starts_with ''09'' m \<and> list_all is_digit m"
proof -
  have "list_all is_digit (filter is_digit s)" by (simp add: list_all_iff)
  note digits = normalize_digits_digits [OF this]
  obtain d where d: "normalize_digits (filter is_digit s) = d" by blast
  from assms have "(if length d \<noteq> 11 \<or> \<not> starts_with ''09'' d then None else Some d) = Some m"
    unfolding normalize_mobile_def Let_def d .
  then show ?thesis using digits unfolding d by (cases "length d \<noteq> 11 \<or> \<not> starts_with ''09'' d") auto
qed

lemma normalize_mobile_idem: "normalize_mobile s = Some m \<Longrightarrow> normalize_mobile m = Some m"
proof -
  assume "normalize_mobile s = Some m"
  from normalize_mobile_form [OF this] have m: "length m = 11" "starts_with ''09'' m" "list_all is_digit m" by auto
  then have "filter is_digit m = m" by (simp add: list_all_iff)
  moreover have "\<not> starts_with ''0098'' m" "\<not> starts_with ''98'' m" "\<not> starts_with ''9'' m"
    using m(2) by (auto simp: starts_with_iff)
  ultimately show ?thesis using m by (simp add: normalize_mobile_def normalize_digits_def)
qed

subsection \<open>The log\<close>

record message =
  ms_id :: int
  ms_at :: time
  ms_mobile :: string
  ms_purpose :: string
  ms_username :: string
  ms_device :: "int option"
  ms_status :: string
  ms_provider_id :: string
  ms_error :: string

definition log_sms ::
  "time \<Rightarrow> string \<Rightarrow> string \<Rightarrow> string \<Rightarrow> int option \<Rightarrow> string \<Rightarrow> string \<Rightarrow> string \<Rightarrow> message list \<Rightarrow> message list" where
  "log_sms now mobile purpose name dev status pid msg ms =
     ms @ [\<lparr>ms_id = int (length ms) + 1, ms_at = now, ms_mobile = mobile, ms_purpose = purpose, ms_username = name,
            ms_device = dev, ms_status = status, ms_provider_id = pid, ms_error = clip msg 500\<rparr>]"

definition log_blocked ::
  "time \<Rightarrow> string \<Rightarrow> string \<Rightarrow> string \<Rightarrow> int option \<Rightarrow> string \<Rightarrow> message list \<Rightarrow> message list" where
  "log_blocked now mobile purpose name dev reason ms = log_sms now mobile purpose name dev ''blocked'' [] reason ms"

definition not_mobile :: "string \<Rightarrow> string" where
  "not_mobile s = CHR 0x22 # s @ CHR 0x22 # '' is not an Iranian mobile number''"

definition not_configured :: string where
  "not_configured = ''SMS sending is not configured (sms.ir API key and template)''"

definition send_sms ::
  "smscfg \<Rightarrow> provider \<Rightarrow> time \<Rightarrow> string \<Rightarrow> string \<Rightarrow> string \<Rightarrow> string \<Rightarrow> int option \<Rightarrow> message list \<Rightarrow> message list \<times> string option"
  where
  "send_sms cfg P now mobile code purpose name dev ms =
     (case normalize_mobile mobile of
        None \<Rightarrow> (log_sms now mobile purpose name dev ''failed'' [] (not_mobile mobile) ms, Some (not_mobile mobile))
      | Some m \<Rightarrow>
          if \<not> sms_configured cfg
          then (log_sms now m purpose name dev ''failed'' [] not_configured ms, Some not_configured)
          else (case sp_send P m code of
                  Inl e \<Rightarrow> (log_sms now m purpose name dev ''failed'' [] e ms, Some e)
                | Inr pid \<Rightarrow> (log_sms now m purpose name dev ''sent'' pid [] ms, None)))"

definition sent_since :: "string \<Rightarrow> time \<Rightarrow> message list \<Rightarrow> nat" where
  "sent_since mobile t ms = count_rows (\<lambda>m. ms_mobile m = mobile \<and> ms_status m = ''sent'' \<and> ms_at m \<ge> t) ms"

definition messages :: "int \<Rightarrow> message list \<Rightarrow> message list" where
  "messages limit ms =
     take (nat (if limit \<le> 0 \<or> limit > 1000 then 200 else limit)) (rev (sort_key ms_at ms))"

definition sms_stats :: "time \<Rightarrow> message list \<Rightarrow> nat \<times> nat \<times> nat" where
  "sms_stats now ms =
     (count_rows (\<lambda>m. ms_status m = ''sent'' \<and> ms_at m > now - day) ms,
      count_rows (\<lambda>m. ms_status m \<noteq> ''sent'' \<and> ms_at m > now - day) ms,
      count_rows (\<lambda>m. ms_status m = ''sent'' \<and> ms_at m > now - 30 * day) ms)"

definition sms_credit :: "smscfg \<Rightarrow> provider \<Rightarrow> string + rat" where
  "sms_credit cfg P = (if sc_api_key cfg = [] then Inl not_configured else sp_credit P)"

subsection \<open>Codes in a text\<close>

text \<open>
  The expression \<open>(?:^|\D)(\d{4,8})(?:\D|$)\<close> matches a whole run of digits: the first one of four to
  eight digits.
\<close>

fun digit_runs :: "string \<Rightarrow> string \<Rightarrow> string list" where
  "digit_runs acc [] = [rev acc]"
| "digit_runs acc (c # cs) = (if is_digit c then digit_runs (c # acc) cs else rev acc # digit_runs [] cs)"

definition parse_code :: "string \<Rightarrow> string" where
  "parse_code t =
     (case List.find (\<lambda>d. 4 \<le> length d \<and> length d \<le> 8) (digit_runs [] t) of None \<Rightarrow> [] | Some d \<Rightarrow> d)"

text \<open>What a match of the expression at some place of the text is.\<close>

definition code_match :: "string \<Rightarrow> string \<Rightarrow> bool" where
  "code_match t d \<longleftrightarrow> (\<exists>u v. t = u @ d @ v \<and> (u = [] \<or> \<not> is_digit (last u)) \<and> (v = [] \<or> \<not> is_digit (hd v)) \<and>
     list_all is_digit d \<and> 4 \<le> length d \<and> length d \<le> 8)"

lemma digit_runs_split:
  "d \<in> set (digit_runs acc t) \<Longrightarrow> list_all is_digit acc \<Longrightarrow>
     \<exists>u v. rev acc @ t = u @ d @ v \<and> (u = [] \<or> \<not> is_digit (last u)) \<and> (v = [] \<or> \<not> is_digit (hd v)) \<and> list_all is_digit d"
proof (induction acc t rule: digit_runs.induct)
  case (1 acc)
  then show ?case by (intro exI [of _ "[]"]) (simp add: list_all_iff)
next
  case (2 acc c cs)
  show ?case
  proof (cases "is_digit c")
    case True
    with 2 show ?thesis by simp
  next
    case False
    show ?thesis
    proof (cases "d = rev acc")
      case True
      with False 2 show ?thesis by (intro exI [of _ "[]"] exI [of _ "c # cs"]) (simp add: list_all_iff)
    next
      case neq: False
      with False "2.prems" have "d \<in> set (digit_runs [] cs)" by simp
      with False "2.IH"(2) obtain u v where uv: "cs = u @ d @ v" "u = [] \<or> \<not> is_digit (last u)"
        "v = [] \<or> \<not> is_digit (hd v)" "list_all is_digit d" by auto
      with False show ?thesis by (intro exI [of _ "rev acc @ c # u"] exI [of _ v]) auto
    qed
  qed
qed

lemma digit_runs_all:
  assumes "list_all is_digit d" "u = [] \<or> \<not> is_digit (last u)" "v = [] \<or> \<not> is_digit (hd v)" "u \<noteq> [] \<or> acc = []"
  shows "d \<in> set (digit_runs acc (u @ d @ v))"
  using assms
proof (induction u arbitrary: acc)
  case Nil
  have "rev acc @ d \<in> set (digit_runs acc (d @ v))" for acc
    using Nil.prems(1)
  proof (induction d arbitrary: acc)
    case Nil
    then show ?case using \<open>v = [] \<or> \<not> is_digit (hd v)\<close> by (cases v) auto
  next
    case (Cons x d)
    from Cons.IH [of "x # acc"] Cons.prems show ?case by simp
  qed
  from this [of "[]"] Nil.prems(4) show ?case by simp
next
  case (Cons x u)
  then show ?case by (cases "u = []") auto
qed

lemma parse_code_cases:
  "parse_code t = [] \<longleftrightarrow> (\<forall>d. \<not> code_match t d)"
  "parse_code t \<noteq> [] \<Longrightarrow> code_match t (parse_code t)"
proof -
  have some: "code_match t d" if "List.find (\<lambda>d. 4 \<le> length d \<and> length d \<le> 8) (digit_runs [] t) = Some d" for d
  proof -
    from that have "d \<in> set (digit_runs [] t)" "4 \<le> length d" "length d \<le> 8" by (auto simp: find_Some_iff)
    with digit_runs_split [of d "[]" t] show ?thesis unfolding code_match_def by auto
  qed
  have none: "\<not> code_match t d" if "List.find (\<lambda>d. 4 \<le> length d \<and> length d \<le> 8) (digit_runs [] t) = None" for d
    using that digit_runs_all [of d _ _ "[]"] by (auto simp: find_None_iff code_match_def)
  show "parse_code t \<noteq> [] \<Longrightarrow> code_match t (parse_code t)"
    using some by (auto simp: parse_code_def split: option.splits)
  show "parse_code t = [] \<longleftrightarrow> (\<forall>d. \<not> code_match t d)"
    using some none by (auto simp: parse_code_def find_Some_iff split: option.splits)
qed

end
