(* ===== verification/Otp.thy ===== *)
theory Otp
  imports Sms Password Lockout License "HOL-Library.List_Lexorder" "HOL-Library.Char_ord"
begin

text \<open>
  Two-factor users of the devices (\<open>internal/otp/otp.go\<close>, \<open>internal/otp/ldap.go\<close>): the code policy,
  the users and the licensed capacity, the first factor with its lockout, the challenges that the
  RADIUS server issues, and the directory.

  The directory connection is a parameter (\<open>ldapconn\<close>, the three calls the code makes); random
  codes and challenge states are arguments; \<open>C\<close> has the hash functions. The service is one record:
  the tables, the saved settings and the challenges in memory.
\<close>

subsection \<open>Policy\<close>

record otp_policy =
  op_length :: int
  op_ttl :: int
  op_max_attempts :: int
  op_max_sends :: int
  op_max_failures :: int
  op_lockout :: int

definition default_policy :: otp_policy where
  "default_policy = \<lparr>op_length = 6, op_ttl = 120, op_max_attempts = 3, op_max_sends = 3, op_max_failures = 5, op_lockout = 15\<rparr>"

definition validate_policy :: "otp_policy \<Rightarrow> string option" where
  "validate_policy p =
     (if op_length p < 4 \<or> op_length p > 8 then Some ''code length must be 4 to 8 digits''
      else if op_ttl p < 30 \<or> op_ttl p > 900 then Some ''code validity must be 30 to 900 seconds''
      else if op_max_attempts p < 1 \<or> op_max_attempts p > 10 \<or> op_max_sends p < 1 \<or> op_max_sends p > 20 \<or>
              op_max_failures p < 1 \<or> op_max_failures p > 50 then Some ''limits are out of range''
      else if op_lockout p < 1 \<or> op_lockout p > 1440 then Some ''lockout must be 1 to 1440 minutes''
      else None)"

subsection \<open>Data\<close>

record ouser =
  ou_id :: int
  ou_username :: string
  ou_name :: string
  ou_mobile :: string
  ou_source :: string
  ou_group :: string
  ou_active :: bool
  ou_login :: "time option"
  ou_created :: time
  ou_hash :: string
  ou_failed :: nat
  ou_locked :: "time option"

record challenge =
  ch_user :: int
  ch_code :: string
  ch_expires :: time
  ch_attempts :: int

record otp_event =
  ev_at :: time
  ev_username :: string
  ev_device :: "int option"
  ev_ip :: string
  ev_event :: string
  ev_detail :: string

record ldapcfg =
  lc_url :: string
  lc_start_tls :: bool
  lc_bind_dn :: string
  lc_bind_password :: string
  lc_base_dn :: string
  lc_user_filter :: string
  lc_import_filter :: string
  lc_user_attr :: string
  lc_mobile_attr :: string
  lc_name_attr :: string

record otpdb =
  ot_users :: "ouser list"
  ot_next :: int
  ot_fortigate :: "(int \<times> string) list"
  ot_policy :: "otp_policy option"
  ot_sms_config :: "smscfg option"
  ot_ldap :: "ldapcfg option"
  ot_messages :: "message list"
  ot_events :: "otp_event list"
  ot_challenges :: "(string \<times> challenge) list"

datatype oerror =
    OtpInput string | OtpNotFound | OtpRejected | OtpCapacity | OtpRateLimited | OtpWrongCode
  | OtpSms string | OtpHash pwerror | OtpLdap string

definition policy_of :: "otpdb \<Rightarrow> otp_policy" where "policy_of st = setting default_policy (ot_policy st)"

definition save_policy :: "otp_policy \<Rightarrow> otpdb \<Rightarrow> (otpdb, oerror, unit) outcome" where
  "save_policy p st =
     (case validate_policy p of Some e \<Rightarrow> (st, Inl (OtpInput e)) | None \<Rightarrow> (st\<lparr>ot_policy := Some p\<rparr>, Inr ()))"

subsection \<open>Capacity\<close>

definition active_named :: "string \<Rightarrow> otpdb \<Rightarrow> bool" where
  "active_named name st \<longleftrightarrow> list_ex (\<lambda>u. to_lower (ou_username u) = to_lower name \<and> ou_active u) (ot_users st)"

definition otp_usage :: "otpdb \<Rightarrow> int" where
  "otp_usage st =
     int (count_rows ou_active (ot_users st)) +
     int (card (set (map (\<lambda>(d, name). to_lower name) (filter (\<lambda>(d, name). \<not> active_named name st) (ot_fortigate st)))))"

text \<open>\<open>None\<close> is a service without a guard.\<close>

definition otp_capacity :: "'l licapi \<Rightarrow> time \<Rightarrow> 'l guard option \<Rightarrow> int" where
  "otp_capacity L now g = (case g of None \<Rightarrow> 0 | Some g' \<Rightarrow> guard_otp_capacity L now g')"

definition check_capacity :: "int \<Rightarrow> int \<Rightarrow> otpdb \<Rightarrow> oerror option" where
  "check_capacity cap adding st = (if otp_usage st + adding > cap then Some OtpCapacity else None)"

subsection \<open>Users\<close>

definition find_ouser :: "int \<Rightarrow> otpdb \<Rightarrow> ouser option" where
  "find_ouser i st = find_row ou_id i (ot_users st)"

definition by_name :: "string \<Rightarrow> otpdb \<Rightarrow> ouser option" where
  "by_name name st = find_row (\<lambda>u. to_lower (ou_username u)) (to_lower (trim_space name)) (ot_users st)"

definition ou_is_locked :: "time \<Rightarrow> ouser \<Rightarrow> bool" where
  "ou_is_locked now u = locked_at (ou_locked u) now"

definition list_ousers :: "otpdb \<Rightarrow> ouser list" where
  "list_ousers st = sort_key (\<lambda>u. to_lower (ou_username u)) (ot_users st)"

record ouser_input =
  oi_username :: string
  oi_name :: string
  oi_mobile :: string
  oi_source :: string
  oi_password :: string
  oi_group :: string
  oi_active :: bool

definition normalize_ouser :: "ouser_input \<Rightarrow> string + ouser_input" where
  "normalize_ouser i0 =
     (let i = i0\<lparr>oi_username := trim_space (oi_username i0), oi_name := trim_space (oi_name i0), oi_group := trim_space (oi_group i0)\<rparr>
      in if oi_username i = [] \<or> length (oi_username i) > 128 \<or> contains_any [CHR '' '', CHR 0x09] (oi_username i)
         then Inl ''user name is required and cannot contain spaces''
         else (case normalize_mobile (oi_mobile i) of
                 None \<Rightarrow> Inl ''mobile number is not valid''
               | Some m \<Rightarrow>
                   (let source = (if oi_source i = [] then ''local'' else oi_source i)
                    in if source \<noteq> ''local'' \<and> source \<noteq> ''ldap'' then Inl ''source must be local or ldap''
                       else Inr (i\<lparr>oi_mobile := m, oi_source := source\<rparr>))))"

definition name_taken :: "string \<Rightarrow> int option \<Rightarrow> otpdb \<Rightarrow> bool" where
  "name_taken name self st \<longleftrightarrow>
     list_ex (\<lambda>u. to_lower (ou_username u) = to_lower name \<and> Some (ou_id u) \<noteq> self) (ot_users st)"

definition name_exists :: oerror where "name_exists = OtpInput ''a user with this name already exists''"

definition insert_ouser :: "time \<Rightarrow> ouser_input \<Rightarrow> string \<Rightarrow> otpdb \<Rightarrow> (otpdb, oerror, ouser) outcome" where
  "insert_ouser now i h st =
     (if name_taken (oi_username i) None st then (st, Inl name_exists)
      else (let u = \<lparr>ou_id = ot_next st, ou_username = oi_username i, ou_name = oi_name i, ou_mobile = oi_mobile i,
                     ou_source = oi_source i, ou_group = oi_group i, ou_active = oi_active i, ou_login = None,
                     ou_created = now, ou_hash = h, ou_failed = 0, ou_locked = None\<rparr>
            in (st\<lparr>ot_users := ot_users st @ [u], ot_next := ot_next st + 1\<rparr>, Inr u)))"

definition create_ouser ::
  "crypto \<Rightarrow> int \<Rightarrow> time \<Rightarrow> string \<Rightarrow> ouser_input \<Rightarrow> otpdb \<Rightarrow> (otpdb, oerror, ouser) outcome" where
  "create_ouser K cap now salt i0 st =
     (case normalize_ouser i0 of
        Inl e \<Rightarrow> (st, Inl (OtpInput e))
      | Inr i \<Rightarrow>
          (case (if oi_source i = ''local'' then hash_password K salt (oi_password i) else Inr []) of
             Inl e \<Rightarrow> (st, Inl (OtpInput (pwerror_text e)))
           | Inr h \<Rightarrow>
               (case (if oi_active i then check_capacity cap 1 st else None) of
                  Some e \<Rightarrow> (st, Inl e)
                | None \<Rightarrow> insert_ouser now i h st)))"

definition ouser_row :: "ouser_input \<Rightarrow> string \<Rightarrow> ouser \<Rightarrow> ouser" where
  "ouser_row i h u =
     u\<lparr>ou_username := oi_username i, ou_name := oi_name i, ou_mobile := oi_mobile i, ou_source := oi_source i,
       ou_hash := h, ou_group := oi_group i, ou_active := oi_active i\<rparr>"

definition set_ouser :: "int \<Rightarrow> (ouser \<Rightarrow> ouser) \<Rightarrow> otpdb \<Rightarrow> otpdb" where
  "set_ouser i f st = st\<lparr>ot_users := upd_rows (\<lambda>u. ou_id u = i) f (ot_users st)\<rparr>"

definition write_ouser :: "int \<Rightarrow> int \<Rightarrow> ouser_input \<Rightarrow> ouser \<Rightarrow> string \<Rightarrow> otpdb \<Rightarrow> (otpdb, oerror, unit) outcome" where
  "write_ouser cap i inp cur h0 st =
     (if oi_source inp = ''local'' \<and> h0 = [] then (st, Inl (OtpInput ''a local user needs a password''))
      else (let h = (if oi_source inp = ''ldap'' then [] else h0)
            in case (if oi_active inp \<and> \<not> ou_active cur then check_capacity cap 1 st else None) of
                 Some e \<Rightarrow> (st, Inl e)
               | None \<Rightarrow>
                   if name_taken (oi_username inp) (Some i) st then (st, Inl name_exists)
                   else (set_ouser i (ouser_row inp h) st, Inr ())))"

definition update_ouser ::
  "crypto \<Rightarrow> int \<Rightarrow> string \<Rightarrow> int \<Rightarrow> ouser_input \<Rightarrow> otpdb \<Rightarrow> (otpdb, oerror, unit) outcome" where
  "update_ouser K cap salt i i0 st =
     (case normalize_ouser i0 of
        Inl e \<Rightarrow> (st, Inl (OtpInput e))
      | Inr inp \<Rightarrow>
          (case find_ouser i st of
             None \<Rightarrow> (st, Inl OtpNotFound)
           | Some cur \<Rightarrow>
               (case (if oi_source inp = ''local'' \<and> oi_password inp \<noteq> [] then hash_password K salt (oi_password inp)
                      else Inr (ou_hash cur)) of
                  Inl e \<Rightarrow> (st, Inl (OtpInput (pwerror_text e)))
                | Inr h0 \<Rightarrow> write_ouser cap i inp cur h0 st)))"

definition delete_ouser :: "int \<Rightarrow> otpdb \<Rightarrow> (otpdb, oerror, unit) outcome" where
  "delete_ouser i st =
     (if find_ouser i st = None then (st, Inl OtpNotFound)
      else (st\<lparr>ot_users := del_rows (\<lambda>u. ou_id u = i) (ot_users st)\<rparr>, Inr ()))"

definition unlock_ouser :: "int \<Rightarrow> otpdb \<Rightarrow> (otpdb, oerror, unit) outcome" where
  "unlock_ouser i st =
     (if find_ouser i st = None then (st, Inl OtpNotFound)
      else (set_ouser i (\<lambda>u. u\<lparr>ou_failed := 0, ou_locked := None\<rparr>) st, Inr ()))"

definition log_event :: "time \<Rightarrow> string \<Rightarrow> int option \<Rightarrow> string \<Rightarrow> string \<Rightarrow> string \<Rightarrow> otpdb \<Rightarrow> otpdb" where
  "log_event now name dev ip event detail st =
     st\<lparr>ot_events := ot_events st @
       [\<lparr>ev_at = now, ev_username = name, ev_device = dev, ev_ip = ip, ev_event = event, ev_detail = detail\<rparr>]\<rparr>"

definition otp_events_list :: "int \<Rightarrow> otpdb \<Rightarrow> otp_event list" where
  "otp_events_list limit st =
     take (nat (if limit \<le> 0 \<or> limit > 1000 then 200 else limit)) (rev (sort_key ev_at (ot_events st)))"

subsection \<open>The directory\<close>

datatype lderror = InvalidLogin | SizeLimit | LdapFailed string

record ldentry =
  le_dn :: string
  le_attr :: "string \<Rightarrow> string"

text \<open>
  \<open>ld_search base filter\<close> gives the entries found and the error, if any; \<open>ld_filter\<close> puts the escaped
  user name into the filter (\<open>fmt.Sprintf\<close> and \<open>ldap.EscapeFilter\<close>).
\<close>

record ldapconn =
  ld_dial :: "ldapcfg \<Rightarrow> string option"
  ld_bind :: "string \<Rightarrow> string \<Rightarrow> lderror option"
  ld_search :: "string \<Rightarrow> string \<Rightarrow> ldentry list \<times> lderror option"
  ld_filter :: "string \<Rightarrow> string \<Rightarrow> string"

fun lderror_text :: "lderror \<Rightarrow> string" where
  "lderror_text InvalidLogin = ''invalid credentials''"
| "lderror_text SizeLimit = ''size limit exceeded''"
| "lderror_text (LdapFailed m) = m"

definition default_ldap :: ldapcfg where
  "default_ldap = \<lparr>lc_url = [], lc_start_tls = False, lc_bind_dn = [], lc_bind_password = [], lc_base_dn = [],
     lc_user_filter = ''(&(objectClass=user)(sAMAccountName=%s))'',
     lc_import_filter = ''(&(objectClass=user)(mobile=*)(!(userAccountControl:1.2.840.113556.1.4.803:=2)))'',
     lc_user_attr = ''sAMAccountName'', lc_mobile_attr = ''mobile'', lc_name_attr = ''displayName''\<rparr>"

definition ldap_of :: "otpdb \<Rightarrow> ldapcfg" where "ldap_of st = setting default_ldap (ot_ldap st)"

definition ldap_redacted :: "ldapcfg \<Rightarrow> ldapcfg" where
  "ldap_redacted c = (if lc_bind_password c \<noteq> [] then c\<lparr>lc_bind_password := stars\<rparr> else c)"

definition save_ldap_config :: "ldapcfg \<Rightarrow> ldapcfg \<Rightarrow> string + ldapcfg" where
  "save_ldap_config old c0 =
     (let c = c0\<lparr>lc_bind_password := keep_secret (lc_bind_password old) (lc_bind_password c0)\<rparr>
      in if lc_url c \<noteq> [] \<and> \<not> contains_str ''%s'' (lc_user_filter c)
         then Inl ''the user filter must contain %s for the user name'' else Inr c)"

interpretation ldap: redaction lc_bind_password ldap_redacted save_ldap_config
  by unfold_locales (auto simp: ldap_redacted_def save_ldap_config_def Let_def split: if_splits)

definition save_ldap :: "ldapcfg \<Rightarrow> otpdb \<Rightarrow> (otpdb, oerror, unit) outcome" where
  "save_ldap c st =
     (case save_ldap_config (ldap_of st) c of
        Inl e \<Rightarrow> (st, Inl (OtpInput e)) | Inr c' \<Rightarrow> (st\<lparr>ot_ldap := Some c'\<rparr>, Inr ()))"

definition save_sms :: "smscfg \<Rightarrow> otpdb \<Rightarrow> (otpdb, oerror, unit) outcome" where
  "save_sms c st =
     (case save_sms_config (setting default_sms (ot_sms_config st)) c of
        Inl e \<Rightarrow> (st, Inl (OtpSms e)) | Inr c' \<Rightarrow> (st\<lparr>ot_sms_config := Some c'\<rparr>, Inr ()))"

definition ldap_session :: "ldapconn \<Rightarrow> ldapcfg \<Rightarrow> string option" where
  "ldap_session D c =
     (if lc_url c = [] then Some ''directory is not configured''
      else (case ld_dial D c of
              Some e \<Rightarrow> Some e
            | None \<Rightarrow>
                (case ld_bind D (lc_bind_dn c) (lc_bind_password c) of
                   Some e \<Rightarrow> Some (''service account bind: '' @ lderror_text e) | None \<Rightarrow> None)))"

definition ldap_check :: "ldapconn \<Rightarrow> ldapcfg \<Rightarrow> string \<Rightarrow> string \<Rightarrow> string + bool" where
  "ldap_check D c name pw =
     (if pw = [] then Inr False
      else (case ldap_session D c of
              Some e \<Rightarrow> Inl e
            | None \<Rightarrow>
                (case ld_search D (lc_base_dn c) (ld_filter D (lc_user_filter c) name) of
                   (es, Some e) \<Rightarrow> Inl (lderror_text e)
                 | (es, None) \<Rightarrow>
                     (case es of
                        [e] \<Rightarrow>
                          (case ld_bind D (le_dn e) pw of
                             None \<Rightarrow> Inr True
                           | Some InvalidLogin \<Rightarrow> Inr False
                           | Some err \<Rightarrow> Inl (lderror_text err))
                      | _ \<Rightarrow> Inr False))))"

record dir_user =
  du_username :: string
  du_name :: string
  du_mobile :: string
  du_exists :: bool
  du_valid :: bool

definition dir_entry :: "ldapcfg \<Rightarrow> otpdb \<Rightarrow> ldentry \<Rightarrow> dir_user option" where
  "dir_entry c st e =
     (let name = le_attr e (lc_user_attr c); mob = le_attr e (lc_mobile_attr c)
      in if name = [] then None
         else Some \<lparr>du_username = name, du_name = le_attr e (lc_name_attr c),
                    du_mobile = (case normalize_mobile mob of None \<Rightarrow> mob | Some m \<Rightarrow> m),
                    du_exists = list_ex (\<lambda>u. to_lower (ou_username u) = to_lower name) (ot_users st),
                    du_valid = (normalize_mobile mob \<noteq> None)\<rparr>)"

definition search_directory :: "ldapconn \<Rightarrow> otpdb \<Rightarrow> string + dir_user list" where
  "search_directory D st =
     (let c = ldap_of st
      in case ldap_session D c of
           Some e \<Rightarrow> Inl e
         | None \<Rightarrow>
             (case ld_search D (lc_base_dn c) (lc_import_filter c) of
                (es, None) \<Rightarrow> Inr (List.map_filter (dir_entry c st) es)
              | (es, Some SizeLimit) \<Rightarrow> Inr (List.map_filter (dir_entry c st) es)
              | (es, Some e) \<Rightarrow> Inl (lderror_text e)))"

fun create_all ::
  "crypto \<Rightarrow> int \<Rightarrow> time \<Rightarrow> string \<Rightarrow> dir_user list \<Rightarrow> otpdb \<Rightarrow> (otpdb, oerror, unit) outcome" where
  "create_all K cap now grp [] st = (st, Inr ())"
| "create_all K cap now grp (d # ds) st =
     (case create_ouser K cap now [] \<lparr>oi_username = du_username d, oi_name = du_name d, oi_mobile = du_mobile d,
             oi_source = ''ldap'', oi_password = [], oi_group = grp, oi_active = True\<rparr> st of
        (st1, Inl e) \<Rightarrow> (st1, Inl e)
      | (st1, Inr u) \<Rightarrow> create_all K cap now grp ds st1)"

definition import_directory ::
  "crypto \<Rightarrow> ldapconn \<Rightarrow> int \<Rightarrow> time \<Rightarrow> string list \<Rightarrow> string \<Rightarrow> otpdb \<Rightarrow> (otpdb, oerror, nat) outcome" where
  "import_directory K D cap now names grp st =
     (case search_directory D st of
        Inl e \<Rightarrow> (st, Inl (OtpLdap e))
      | Inr found \<Rightarrow>
          (let add = filter (\<lambda>d. to_lower (du_username d) \<in> to_lower ` set names \<and> du_valid d \<and> \<not> du_exists d) found
           in case check_capacity cap (int (length add)) st of
                Some e \<Rightarrow> (st, Inl e)
              | None \<Rightarrow>
                  (case create_all K cap now grp add st of
                     (st1, Inl e) \<Rightarrow> (st1, Inl e) | (st1, Inr _) \<Rightarrow> (st1, Inr (length add)))))"

subsection \<open>The first factor\<close>

definition fail_row :: "otp_policy \<Rightarrow> time \<Rightarrow> nat \<Rightarrow> ouser \<Rightarrow> ouser" where
  "fail_row p now failed u =
     (if op_max_failures p \<le> int (Suc failed)
      then u\<lparr>ou_failed := 0, ou_locked := Some (now + op_lockout p * minute)\<rparr>
      else u\<lparr>ou_failed := Suc failed, ou_locked := None\<rparr>)"

definition otp_fail :: "otp_policy \<Rightarrow> time \<Rightarrow> ouser \<Rightarrow> otpdb \<Rightarrow> otpdb" where
  "otp_fail p now u st = set_ouser (ou_id u) (fail_row p now (ou_failed u)) st"

definition first_factor :: "crypto \<Rightarrow> ldapconn \<Rightarrow> otpdb \<Rightarrow> ouser \<Rightarrow> string \<Rightarrow> oerror + bool" where
  "first_factor K D st u pw =
     (if ou_source u = ''local''
      then (case check_password K (ou_hash u) pw of Inl e \<Rightarrow> Inl (OtpHash e) | Inr ok \<Rightarrow> Inr ok)
      else (case ldap_check D (ldap_of st) (ou_username u) pw of Inl e \<Rightarrow> Inl (OtpLdap e) | Inr ok \<Rightarrow> Inr ok))"

text \<open>\<open>CheckPassword\<close>: the error, with the detail that is logged.\<close>

definition otp_check_password ::
  "crypto \<Rightarrow> ldapconn \<Rightarrow> int \<Rightarrow> time \<Rightarrow> string \<Rightarrow> string \<Rightarrow> otpdb \<Rightarrow> (otpdb, oerror \<times> string, ouser) outcome" where
  "otp_check_password K D cap now name pw st =
     (case by_name name st of
        None \<Rightarrow> (st, Inl (OtpRejected, ''unknown user''))
      | Some u \<Rightarrow>
          if \<not> ou_active u then (st, Inl (OtpRejected, ''user is disabled''))
          else if ou_is_locked now u then (st, Inl (OtpRejected, ''user is locked''))
          else if cap = 0 then (st, Inl (OtpRejected, ''the license has no two-factor users''))
          else (case first_factor K D st u pw of
                  Inl (OtpLdap e) \<Rightarrow> (st, Inl (OtpRejected, ''directory error: '' @ e))
                | Inl e \<Rightarrow> (st, Inl (e, []))
                | Inr ok \<Rightarrow>
                    if \<not> ok then (otp_fail (policy_of st) now u st, Inl (OtpRejected, ''wrong password''))
                    else (st, Inr u)))"

subsection \<open>Challenges\<close>

definition put_challenge :: "string \<Rightarrow> challenge \<Rightarrow> (string \<times> challenge) list \<Rightarrow> (string \<times> challenge) list" where
  "put_challenge k c cs = (k, c) # filter (\<lambda>(k', c'). k' \<noteq> k) cs"

definition drop_challenge :: "string \<Rightarrow> (string \<times> challenge) list \<Rightarrow> (string \<times> challenge) list" where
  "drop_challenge k cs = filter (\<lambda>(k', c'). k' \<noteq> k) cs"

text \<open>\<open>digits\<close> are the random digits of the code, \<open>state\<close> the random challenge state.\<close>

definition new_code :: "int \<Rightarrow> nat list \<Rightarrow> string" where
  "new_code n ds = map (\<lambda>d. char_of (48 + d mod 10)) (take (nat n) ds)"

definition start_challenge ::
  "crypto \<Rightarrow> provider \<Rightarrow> time \<Rightarrow> nat list \<Rightarrow> string \<Rightarrow> ouser \<Rightarrow> int option \<Rightarrow> otpdb \<Rightarrow> (otpdb, oerror, string) outcome" where
  "start_challenge K P now digits state u dev st =
     (let p = policy_of st
      in if int (sent_since (ou_mobile u) (now - 10 * minute) (ot_messages st)) \<ge> op_max_sends p
         then (st\<lparr>ot_messages := log_blocked now (ou_mobile u) ''radius'' (ou_username u) dev ''rate limit'' (ot_messages st)\<rparr>,
               Inl OtpRateLimited)
         else (let code = new_code (op_length p) digits
               in case send_sms (setting default_sms (ot_sms_config st)) P now (ou_mobile u) code ''radius'' (ou_username u) dev
                         (ot_messages st) of
                    (ms, Some e) \<Rightarrow> (st\<lparr>ot_messages := ms\<rparr>, Inl (OtpSms e))
                  | (ms, None) \<Rightarrow>
                      (st\<lparr>ot_messages := ms,
                          ot_challenges := put_challenge state
                            \<lparr>ch_user = ou_id u, ch_code = sha256_hex K code, ch_expires = now + op_ttl p * second, ch_attempts = 0\<rparr>
                            (filter (\<lambda>(k, c). \<not> now > ch_expires c) (ot_challenges st))\<rparr>,
                       Inr state)))"

definition wrong_attempt ::
  "time \<Rightarrow> string \<Rightarrow> challenge \<Rightarrow> otpdb \<Rightarrow> (otpdb, oerror \<times> string, ouser) outcome" where
  "wrong_attempt now state c st =
     (let p = policy_of st; n = ch_attempts c + 1
      in if n < op_max_attempts p
         then (st\<lparr>ot_challenges := put_challenge state (c\<lparr>ch_attempts := n\<rparr>) (ot_challenges st)\<rparr>, Inl (OtpWrongCode, ''wrong code''))
         else (let st1 = st\<lparr>ot_challenges := drop_challenge state (ot_challenges st)\<rparr>
               in (case find_ouser (ch_user c) st1 of None \<Rightarrow> st1 | Some u \<Rightarrow> otp_fail p now u st1,
                   Inl (OtpRejected, ''too many wrong codes''))))"

definition accept_code :: "time \<Rightarrow> challenge \<Rightarrow> otpdb \<Rightarrow> (otpdb, oerror \<times> string, ouser) outcome" where
  "accept_code now c st =
     (case find_ouser (ch_user c) st of
        None \<Rightarrow> (st, Inl (OtpNotFound, []))
      | Some u \<Rightarrow>
          if \<not> ou_active u \<or> ou_is_locked now u then (st, Inl (OtpRejected, ''user is disabled or locked''))
          else (set_ouser (ou_id u) (\<lambda>r. r\<lparr>ou_failed := 0, ou_locked := None, ou_login := Some now\<rparr>) st, Inr u))"

definition verify_challenge ::
  "crypto \<Rightarrow> time \<Rightarrow> string \<Rightarrow> string \<Rightarrow> otpdb \<Rightarrow> (otpdb, oerror \<times> string, ouser) outcome" where
  "verify_challenge K now state code st =
     (case map_of (ot_challenges st) state of
        None \<Rightarrow> (st, Inl (OtpRejected, ''code expired or unknown''))
      | Some c \<Rightarrow>
          if now > ch_expires c
          then (st\<lparr>ot_challenges := drop_challenge state (ot_challenges st)\<rparr>, Inl (OtpRejected, ''code expired or unknown''))
          else if sha256_hex K (trim_space code) \<noteq> ch_code c then wrong_attempt now state c st
          else accept_code now c (st\<lparr>ot_challenges := drop_challenge state (ot_challenges st)\<rparr>))"

subsection \<open>Capacity holds\<close>

lemma usage_grows:
  assumes fg: "ot_fortigate st' = ot_fortigate st"
    and named: "\<And>n. active_named n st \<Longrightarrow> active_named n st'"
    and count: "count_rows ou_active (ot_users st') \<le> Suc (count_rows ou_active (ot_users st))"
  shows "otp_usage st' \<le> otp_usage st + 1"
proof -
  let ?f = "\<lambda>st. set (map (\<lambda>(d, name). to_lower name) (filter (\<lambda>(d, name). \<not> active_named name st) (ot_fortigate st)))"
  have "?f st' \<subseteq> ?f st" using named by (auto simp: fg)
  then have "card (?f st') \<le> card (?f st)" by (intro card_mono) auto
  with count show ?thesis unfolding otp_usage_def by linarith
qed

lemma create_cases:
  assumes "create_ouser K cap now salt i0 st = (st', Inr u)"
  shows "\<exists>h i. normalize_ouser i0 = Inr i \<and> (oi_active i \<longrightarrow> check_capacity cap 1 st = None) \<and> insert_ouser now i h st = (st', Inr u)"
  using assms by (auto simp: create_ouser_def split: sum.splits option.splits if_splits)

lemma create_usage:
  assumes "create_ouser K cap now salt i0 st = (st', Inr u)" and a: "ou_active u"
  shows "otp_usage st' \<le> cap"
proof -
  from create_cases [OF assms(1)] obtain h i where i: "oi_active i \<longrightarrow> check_capacity cap 1 st = None"
    and ins: "insert_ouser now i h st = (st', Inr u)" by blast
  then have st': "st' = st\<lparr>ot_users := ot_users st @ [u], ot_next := ot_next st + 1\<rparr>" and act: "ou_active u = oi_active i"
    by (auto simp: insert_ouser_def Let_def split: if_splits)
  have "otp_usage st' \<le> otp_usage st + 1"
    by (rule usage_grows) (auto simp: st' active_named_def count_rows_append count_rows_Cons)
  with i act a show ?thesis by (auto simp: check_capacity_def split: if_splits)
qed

lemma update_cases:
  assumes "update_ouser K cap salt i i0 st = (st', Inr x)"
  shows "\<exists>inp cur h. find_ouser i st = Some cur \<and> (oi_active inp \<and> \<not> ou_active cur \<longrightarrow> check_capacity cap 1 st = None) \<and>
    \<not> name_taken (oi_username inp) (Some i) st \<and> normalize_ouser i0 = Inr inp \<and> st' = set_ouser i (ouser_row inp h) st"
  using assms by (auto simp: update_ouser_def write_ouser_def Let_def split: sum.splits option.splits if_splits)

lemma count_activate:
  assumes "distinct (map ou_id us)" "u \<in> set us" "ou_id u = i"
  shows "count_rows ou_active (upd_rows (\<lambda>u. ou_id u = i) f us) \<le> Suc (count_rows ou_active us)"
  using assms
proof (induction us)
  case (Cons v us)
  show ?case
  proof (cases "ou_id v = i")
    case True
    with Cons.prems(1) have "upd_rows (\<lambda>u. ou_id u = i) f us = us"
      by (intro upd_rows_none) (auto simp: image_iff)
    with True show ?thesis by (simp add: upd_rows_Cons count_rows_Cons)
  next
    case False
    with Cons show ?thesis by (auto simp: upd_rows_Cons count_rows_Cons)
  qed
qed simp

lemma update_usage:
  assumes "update_ouser K cap salt i i0 st = (st', Inr x)" and d: "distinct (map ou_id (ot_users st))"
    and cur: "find_ouser i st = Some cur" "\<not> ou_active cur" and new: "find_ouser i st' = Some u" "ou_active u"
  shows "otp_usage st' \<le> cap"
proof -
  from update_cases [OF assms(1)] cur obtain inp h where c: "oi_active inp \<longrightarrow> check_capacity cap 1 st = None"
    and st': "st' = set_ouser i (ouser_row inp h) st" by auto
  have in_st: "cur \<in> set (ot_users st)" "ou_id cur = i" using find_row_Some cur(1) by (fastforce simp: find_ouser_def)+
  have act: "oi_active inp"
  proof -
    have "find_row ou_id i (ot_users st') = map_option (ouser_row inp h) (find_row ou_id i (ot_users st))"
      unfolding st' set_ouser_def by (simp, rule keyed_update.find_upd_same) (simp add: keyed_update_def ouser_row_def)
    with new cur show ?thesis by (auto simp: find_ouser_def ouser_row_def)
  qed
  have "otp_usage st' \<le> otp_usage st + 1"
  proof (rule usage_grows)
    show "active_named n st'" if "active_named n st" for n
    proof -
      from that obtain v where v: "v \<in> set (ot_users st)" "to_lower (ou_username v) = to_lower n" "ou_active v"
        by (auto simp: active_named_def list_ex_iff)
      have "ou_id v \<noteq> i"
        using find_row_distinct [OF d v(1)] cur v(3) by (auto simp: find_ouser_def)
      with v have "v \<in> set (ot_users st')" by (force simp: st' set_ouser_def set_upd_rows image_iff)
      with v show ?thesis by (auto simp: active_named_def list_ex_iff)
    qed
  qed (use count_activate [OF d in_st] in \<open>simp_all add: st' set_ouser_def\<close>)
  with c act show ?thesis by (auto simp: check_capacity_def split: if_splits)
qed

subsection \<open>Guessing passwords\<close>

definition otp_account :: "string \<Rightarrow> otp_policy \<Rightarrow> otpdb \<Rightarrow> bool" where
  "otp_account n p st \<longleftrightarrow>
     (case by_name n st of None \<Rightarrow> False | Some u \<Rightarrow> ou_active u) \<and> distinct (map ou_id (ot_users st)) \<and> policy_of st = p"

definition otp_user :: "string \<Rightarrow> otpdb \<Rightarrow> ouser" where "otp_user n st = the (by_name n st)"

definition otp_guess ::
  "crypto \<Rightarrow> ldapconn \<Rightarrow> int \<Rightarrow> string \<Rightarrow> time \<Rightarrow> string \<Rightarrow> otpdb \<Rightarrow> otpdb \<times> bool" where
  "otp_guess K D cap n now pw st =
     (case otp_check_password K D cap now n pw st of (st', r) \<Rightarrow> (st', r = Inl (OtpRejected, ''wrong password'')))"

definition otp_wrong :: "crypto \<Rightarrow> ldapconn \<Rightarrow> int \<Rightarrow> string \<Rightarrow> string \<Rightarrow> otpdb \<Rightarrow> bool" where
  "otp_wrong K D cap n pw st \<longleftrightarrow> cap \<noteq> 0 \<and> first_factor K D st (otp_user n st) pw = Inr False"

lemma fail_row_simps [simp]:
  "ou_id (fail_row p now k u) = ou_id u" "ou_username (fail_row p now k u) = ou_username u"
  "ou_active (fail_row p now k u) = ou_active u" "ou_source (fail_row p now k u) = ou_source u"
  "ou_hash (fail_row p now k u) = ou_hash u"
  by (simp_all add: fail_row_def)

lemma otp_fail_fields [simp]:
  "policy_of (otp_fail p now u st) = policy_of st" "ldap_of (otp_fail p now u st) = ldap_of st"
  by (simp_all add: otp_fail_def set_ouser_def policy_of_def ldap_of_def)

lemma otp_accountD:
  "otp_account n p st \<Longrightarrow> by_name n st = Some (otp_user n st)" "otp_account n p st \<Longrightarrow> ou_active (otp_user n st)"
  "otp_account n p st \<Longrightarrow> policy_of st = p" "otp_account n p st \<Longrightarrow> distinct (map ou_id (ot_users st))"
  by (auto simp: otp_account_def otp_user_def split: option.splits)

lemma otp_user_fail:
  assumes "otp_account n p st"
  shows "otp_user n (otp_fail p now (otp_user n st) st) = fail_row p now (ou_failed (otp_user n st)) (otp_user n st)"
    and "otp_account n p (otp_fail p now (otp_user n st) st)"
proof -
  let ?u = "otp_user n st"
  have b: "by_name n (otp_fail p now ?u st) = Some (fail_row p now (ou_failed ?u) ?u)"
    unfolding by_name_def otp_fail_def set_ouser_def
    using otp_accountD(1) [OF assms] by (simp, subst keyed_update.find_upd) (simp_all add: keyed_update_def by_name_def)
  then show "otp_user n (otp_fail p now ?u st) = fail_row p now (ou_failed ?u) ?u" by (simp add: otp_user_def)
  have "map ou_id (ot_users (otp_fail p now ?u st)) = map ou_id (ot_users st)"
    unfolding otp_fail_def set_ouser_def by (simp, rule keyed_update.map_key_upd) (simp add: keyed_update_def)
  with b otp_accountD [OF assms] show "otp_account n p (otp_fail p now ?u st)" by (simp add: otp_account_def)
qed

lemma otp_guess_locked:
  "otp_account n p st \<Longrightarrow> locked_at (ou_locked (otp_user n st)) now \<Longrightarrow> otp_guess K D cap n now pw st = (st, False)"
  by (simp add: otp_guess_def otp_check_password_def otp_accountD ou_is_locked_def)

lemma otp_guess_wrong:
  "otp_account n p st \<Longrightarrow> \<not> locked_at (ou_locked (otp_user n st)) now \<Longrightarrow> otp_wrong K D cap n pw st \<Longrightarrow>
     otp_guess K D cap n now pw st = (otp_fail p now (otp_user n st) st, True)"
  by (simp add: otp_guess_def otp_check_password_def otp_accountD ou_is_locked_def otp_wrong_def)

lemma first_factor_fail [simp]:
  "first_factor K D (otp_fail p now v st) (fail_row q t k u) pw = first_factor K D st u pw"
  by (simp add: first_factor_def)

lemma otp_wrong_fail:
  "otp_account n p st \<Longrightarrow> otp_wrong K D cap n pw (otp_fail p now (otp_user n st) st) = otp_wrong K D cap n pw st"
  by (simp add: otp_wrong_def otp_user_fail)

interpretation device_users: lockout "otp_account n p" "otp_guess K D cap n" "\<lambda>now pw st. otp_wrong K D cap n pw st"
  "\<lambda>st. ou_failed (otp_user n st)" "\<lambda>st. ou_locked (otp_user n st)" "nat (op_max_failures p)" "op_lockout p * minute"
  for K D cap n p
  by unfold_locales
    (simp_all add: otp_guess_locked otp_guess_wrong otp_user_fail otp_wrong_fail, auto simp: fail_row_def)

fun otp_looked_at ::
  "crypto \<Rightarrow> ldapconn \<Rightarrow> int \<Rightarrow> string \<Rightarrow> (time \<times> string) list \<Rightarrow> otpdb \<Rightarrow> nat" where
  "otp_looked_at K D cap n [] st = 0"
| "otp_looked_at K D cap n ((now, pw) # gs) st =
     (case otp_guess K D cap n now pw st of (st', seen) \<Rightarrow> (if seen then 1 else 0) + otp_looked_at K D cap n gs st')"

lemma otp_looked_at_guesses: "otp_looked_at K D cap n gs st = device_users.guesses K D cap n gs st"
  by (induction gs arbitrary: st) (auto simp: Let_def split: prod.splits)

subsection \<open>Challenges are used once\<close>

lemma drop_put_challenge:
  "map_of (drop_challenge k cs) k = None" "map_of (put_challenge k c cs) k = Some c"
  by (auto simp: drop_challenge_def put_challenge_def map_of_eq_None_iff)

lemma otp_fail_challenges [simp]: "ot_challenges (otp_fail p now u st) = ot_challenges st"
  by (simp add: otp_fail_def set_ouser_def)

lemma accept_challenges: "ot_challenges (fst (accept_code now c st)) = ot_challenges st"
  by (auto simp: accept_code_def set_ouser_def split: option.splits)

lemma accept_cases:
  "accept_code now c st = (st', Inr u) \<Longrightarrow> find_ouser (ch_user c) st = Some u \<and> ou_active u \<and> \<not> ou_is_locked now u"
  by (auto simp: accept_code_def split: option.splits if_splits)

text \<open>How a challenge ends, and how a wrong code uses it up.\<close>

lemma verify_cases:
  assumes "verify_challenge K now state code st = (st', r)"
  shows "map_of (ot_challenges st) state = None \<and> st' = st \<and> r = Inl (OtpRejected, ''code expired or unknown'') \<or>
    (\<exists>c. map_of (ot_challenges st) state = Some c \<and>
      (map_of (ot_challenges st') state = None \<or>
       r = Inl (OtpWrongCode, ''wrong code'') \<and> ch_attempts c + 1 < op_max_attempts (policy_of st) \<and> policy_of st' = policy_of st \<and>
       map_of (ot_challenges st') state = Some (c\<lparr>ch_attempts := ch_attempts c + 1\<rparr>)))"
proof (cases "map_of (ot_challenges st) state")
  case None
  with assms show ?thesis by (simp add: verify_challenge_def)
next
  case (Some c)
  have "map_of (ot_challenges st') state = None" if "now > ch_expires c \<or> sha256_hex K (trim_space code) = ch_code c"
    using assms Some that accept_challenges [of now c "st\<lparr>ot_challenges := drop_challenge state (ot_challenges st)\<rparr>"]
    by (cases "now > ch_expires c") (auto simp: verify_challenge_def drop_put_challenge)
  moreover have "map_of (ot_challenges st') state = None \<or>
       r = Inl (OtpWrongCode, ''wrong code'') \<and> ch_attempts c + 1 < op_max_attempts (policy_of st) \<and> policy_of st' = policy_of st \<and>
       map_of (ot_challenges st') state = Some (c\<lparr>ch_attempts := ch_attempts c + 1\<rparr>)"
    if "\<not> now > ch_expires c" "sha256_hex K (trim_space code) \<noteq> ch_code c"
    using assms Some that
    by (auto simp: verify_challenge_def wrong_attempt_def Let_def drop_put_challenge policy_of_def split: if_splits option.splits)
  ultimately show ?thesis using Some by blast
qed

text \<open>The codes of a list that are compared with the code of a challenge.\<close>

fun compared :: "crypto \<Rightarrow> string \<Rightarrow> (time \<times> string) list \<Rightarrow> otpdb \<Rightarrow> nat" where
  "compared K state [] st = 0"
| "compared K state ((now, code) # cs) st =
     (case verify_challenge K now state code st of (st', r) \<Rightarrow>
        (if r = Inl (OtpRejected, ''code expired or unknown'') then 0 else 1) + compared K state cs st')"

lemma compared_gone: "map_of (ot_challenges st) state = None \<Longrightarrow> compared K state cs st = 0"
proof (induction cs arbitrary: st)
  case (Cons x cs)
  then show ?case by (cases x) (simp add: verify_challenge_def)
qed simp

lemma compared_bound:
  "map_of (ot_challenges st) state = Some c \<Longrightarrow> ch_attempts c < op_max_attempts (policy_of st) \<Longrightarrow>
     int (compared K state cs st) \<le> op_max_attempts (policy_of st) - ch_attempts c"
proof (induction cs arbitrary: st c)
  case (Cons x cs)
  obtain now code where x: "x = (now, code)" by (cases x)
  obtain st' r where v: "verify_challenge K now state code st = (st', r)" by (cases "verify_challenge K now state code st")
  from verify_cases [OF v] Cons.prems(1) consider
      "map_of (ot_challenges st') state = None"
    | "ch_attempts c + 1 < op_max_attempts (policy_of st)" "policy_of st' = policy_of st"
      "map_of (ot_challenges st') state = Some (c\<lparr>ch_attempts := ch_attempts c + 1\<rparr>)" by auto
  then show ?case
  proof cases
    case 1
    with compared_gone [OF 1] v Cons.prems(2) show ?thesis by (simp add: x)
  next
    case 2
    with Cons.IH [OF 2(3)] v show ?thesis by (simp add: x)
  qed
qed simp

subsection \<open>Properties\<close>

definition sample_otp_user :: ouser where
  "sample_otp_user = \<lparr>ou_id = 1, ou_username = ''reza'', ou_name = ''Reza'', ou_mobile = ''09121234567'', ou_source = ''ldap'',
     ou_group = ''vpn'', ou_active = True, ou_login = None, ou_created = 0, ou_hash = [], ou_failed = 0, ou_locked = None\<rparr>"

definition sample_otp :: otpdb where
  "sample_otp = \<lparr>ot_users = [sample_otp_user], ot_next = 2, ot_fortigate = [(7, ''REZA''), (7, ''sara'')], ot_policy = None,
     ot_sms_config = None, ot_ldap = None, ot_messages = [], ot_events = [],
     ot_challenges = [(''st1'', \<lparr>ch_user = 1, ch_code = ''sha256:123456'', ch_expires = 120 * second, ch_attempts = 0\<rparr>)]\<rparr>"

definition sample_dir :: ldapconn where
  "sample_dir = \<lparr>ld_dial = (\<lambda>c. None), ld_bind = (\<lambda>dn pw. if pw = ''secret'' then None else Some InvalidLogin),
     ld_search = (\<lambda>b f. ([\<lparr>le_dn = ''cn=reza'', le_attr = (\<lambda>a. ''reza'')\<rparr>], None)), ld_filter = (\<lambda>f n. f @ n)\<rparr>"

definition sample_otp_input :: ouser_input where
  "sample_otp_input = \<lparr>oi_username = '' mina '', oi_name = ''Mina'', oi_mobile = ''+98 912 765 4321'', oi_source = ''ldap'',
     oi_password = [], oi_group = ''vpn'', oi_active = True\<rparr>"

lemma sample_lower: "to_lower ''reza'' = ''reza''" "to_lower ''REZA'' = ''reza''" "to_lower ''sara'' = ''sara''"
  "to_lower ''mina'' = ''mina''"
  by code_simp+

text \<open>
  C26: creating an active two-factor user, or activating one that was not, never takes the number of
  users above the licensed capacity; the count is that of the license, with the FortiGate users.
\<close>

theorem activation_within_capacity:
  assumes "distinct (map ou_id (ot_users st))"
    and "create_ouser K cap now salt inp st = (st', Inr u) \<or>
      (\<exists>cur. update_ouser K cap salt i inp st = (st', Inr ()) \<and> find_ouser i st = Some cur \<and> \<not> ou_active cur \<and>
        find_ouser i st' = Some u)"
    and "ou_active u"
  shows "otp_usage st' \<le> cap"
  using assms(2)
proof
  assume "create_ouser K cap now salt inp st = (st', Inr u)"
  then show ?thesis using assms(3) by (rule create_usage)
next
  assume "\<exists>cur. update_ouser K cap salt i inp st = (st', Inr ()) \<and> find_ouser i st = Some cur \<and> \<not> ou_active cur \<and>
        find_ouser i st' = Some u"
  with assms(1,3) show ?thesis by (blast intro: update_usage)
qed

theorem activation_within_capacity_witness:
  "otp_usage sample_otp = 2 \<and>
   (\<exists>st' u. create_ouser sample_crypto 3 0 [] sample_otp_input sample_otp = (st', Inr u) \<and> otp_usage st' \<le> 3)"
proof
  show use: "otp_usage sample_otp = 2"
    by (simp add: otp_usage_def sample_otp_def sample_otp_user_def count_rows_def active_named_def sample_lower)
  let ?c = "create_ouser sample_crypto 3 0 [] sample_otp_input sample_otp"
  have n: "normalize_ouser sample_otp_input = Inr (sample_otp_input\<lparr>oi_username := ''mina'', oi_mobile := ''09127654321''\<rparr>)"
    by (simp add: normalize_ouser_def sample_otp_input_def trim_space_def trim_left_def trim_right_def is_space_def
        normalize_mobile_def normalize_digits_def is_digit_def contains_any_def Let_def)
  have t: "\<not> name_taken ''mina'' None sample_otp"
    by (simp add: name_taken_def sample_otp_def sample_otp_user_def sample_lower)
  obtain st' u where c: "?c = (st', Inr u)" and a: "ou_active u"
    using n t use by (auto simp: create_ouser_def check_capacity_def insert_ouser_def Let_def sample_otp_input_def)
  have "otp_usage st' \<le> 3"
    by (rule activation_within_capacity [OF _ _ a]) (use c in \<open>auto simp: sample_otp_def\<close>)
  with c show "\<exists>st' u. ?c = (st', Inr u) \<and> otp_usage st' \<le> 3" by blast
qed

text \<open>
  An active user that a FortiGate also lists counts once. Renaming it frees the FortiGate name, which
  then counts on its own, and \<open>Update\<close> asks for capacity only when it activates: the count of
  the license passes its limit.
\<close>

lemma rename_passes_capacity:
  "otp_usage sample_otp = 2 \<and>
   otp_usage (fst (update_ouser sample_crypto 2 [] 1 (sample_otp_input\<lparr>oi_username := ''mina''\<rparr>) sample_otp)) = 3"
  by (simp add: update_ouser_def normalize_ouser_def sample_otp_input_def trim_space_def trim_left_def trim_right_def
      is_space_def normalize_mobile_def normalize_digits_def is_digit_def contains_any_def Let_def find_ouser_def
      sample_otp_def find_row_Cons write_ouser_def sample_otp_user_def name_taken_def set_ouser_def upd_rows_Cons
      ouser_row_def otp_usage_def count_rows_def active_named_def sample_lower)

text \<open>
  In any stretch of time no longer than the lockout, at most as many wrong passwords for one
  two-factor user are compared or taken to the directory as the policy allows failures, less those
  already counted.
\<close>

lemma otp_guesses_limited:
  assumes "by_name n st = Some u" and "ou_active u" and "distinct (map ou_id (ot_users st))"
    and "int (ou_failed u) < op_max_failures (policy_of st)"
    and "\<And>now pw. (now, pw) \<in> set gs \<Longrightarrow>
      a \<le> now \<and> now < a + op_lockout (policy_of st) * minute \<and> first_factor K D st u pw = Inr False"
    and "cap \<noteq> 0"
  shows "int (otp_looked_at K D cap n gs st) \<le> op_max_failures (policy_of st) - int (ou_failed u)"
proof -
  have acc: "otp_account n (policy_of st) st" "otp_user n st = u" using assms(1-3) by (simp_all add: otp_account_def otp_user_def)
  have lim: "ou_failed (otp_user n st) < nat (op_max_failures (policy_of st))" using assms(4) by (simp add: acc(2))
  have "device_users.guesses K D cap n gs st \<le> nat (op_max_failures (policy_of st)) - ou_failed (otp_user n st)"
    by (rule device_users.guesses_bound [OF acc(1) lim, where a = a]) (use assms(5,6) acc(2) in \<open>auto simp: otp_wrong_def\<close>)
  then have "device_users.guesses K D cap n gs st \<le> nat (op_max_failures (policy_of st)) - ou_failed u"
    by (simp only: acc(2))
  with assms(4) show ?thesis unfolding otp_looked_at_guesses by linarith
qed

lemma otp_guesses_limited_example:
  "int (otp_looked_at sample_crypto sample_dir 1 ''reza'' (replicate 9 (60 * second, ''guess'')) (sample_otp\<lparr>ot_ldap := Some (default_ldap\<lparr>lc_url := ''ldap://dc'', lc_bind_password := ''secret''\<rparr>)\<rparr>)) \<le> 5"
proof -
  let ?st = "sample_otp\<lparr>ot_ldap := Some (default_ldap\<lparr>lc_url := ''ldap://dc'', lc_bind_password := ''secret''\<rparr>)\<rparr>"
  have p: "policy_of ?st = default_policy" by (simp add: policy_of_def setting_def sample_otp_def)
  have b: "by_name ''reza'' ?st = Some sample_otp_user"
    by (simp add: by_name_def sample_otp_def find_row_Cons sample_otp_user_def sample_lower
        trim_space_def trim_left_def trim_right_def is_space_def)
  have f: "first_factor sample_crypto sample_dir ?st sample_otp_user ''guess'' = Inr False"
    by (simp add: first_factor_def sample_otp_user_def ldap_check_def ldap_session_def sample_dir_def ldap_of_def setting_def
        default_ldap_def)
  have "int (otp_looked_at sample_crypto sample_dir 1 ''reza'' (replicate 9 (60 * second, ''guess'')) ?st)
      \<le> op_max_failures (policy_of ?st) - int (ou_failed sample_otp_user)"
    by (rule otp_guesses_limited [OF b, where a = "60 * second"])
      (use p f in \<open>auto simp: sample_otp_user_def sample_otp_def default_policy_def\<close>)
  then show ?thesis using p by (simp add: default_policy_def sample_otp_user_def)
qed

text \<open>
  C25: a challenge compares at most as many codes as the policy allows attempts, and a code is accepted
  only for an outstanding, unexpired challenge with the same hash and an active, unlocked user; after
  that the challenge is gone and no code is compared with it again.
\<close>

theorem challenge_single_use:
  assumes "map_of (ot_challenges st) state = Some c" and "ch_attempts c < op_max_attempts (policy_of st)"
    and "verify_challenge K now state code st = (st', Inr u)"
  shows "int (compared K state cs st) \<le> op_max_attempts (policy_of st) - ch_attempts c \<and> now \<le> ch_expires c \<and>
    sha256_hex K (trim_space code) = ch_code c \<and> find_ouser (ch_user c) st = Some u \<and> ou_active u \<and>
    \<not> ou_is_locked now u \<and> compared K state cs st' = 0"
proof -
  have v: "\<not> now > ch_expires c" "sha256_hex K (trim_space code) = ch_code c"
    "accept_code now c (st\<lparr>ot_challenges := drop_challenge state (ot_challenges st)\<rparr>) = (st', Inr u)"
    using assms(1,3) by (auto simp: verify_challenge_def wrong_attempt_def Let_def split: if_splits)
  have "find_ouser (ch_user c) (st\<lparr>ot_challenges := drop_challenge state (ot_challenges st)\<rparr>) = find_ouser (ch_user c) st"
    by (simp add: find_ouser_def)
  moreover have "map_of (ot_challenges st') state = None" using verify_cases [OF assms(3)] assms(1) by auto
  ultimately show ?thesis
    using v accept_cases [OF v(3)] compared_bound [OF assms(1,2)] compared_gone by auto
qed

theorem challenge_single_use_witness:
  "\<exists>st' u. verify_challenge sample_crypto (60 * second) ''st1'' '' 123456 '' sample_otp = (st', Inr u) \<and>
     compared sample_crypto ''st1'' [(70 * second, ''123456'')] st' = 0"
proof -
  have trim: "trim_space '' 123456 '' = ''123456''"
    by (simp add: trim_space_def trim_left_def trim_right_def is_space_def)
  obtain st' u where v: "verify_challenge sample_crypto (60 * second) ''st1'' '' 123456 '' sample_otp = (st', Inr u)"
    by (simp add: verify_challenge_def trim sample_crypto_def accept_code_def find_ouser_def sample_otp_def find_row_Cons
        sample_otp_user_def ou_is_locked_def)
  let ?c = "\<lparr>ch_user = 1, ch_code = ''sha256:123456'', ch_expires = 120 * second, ch_attempts = 0\<rparr>"
  have m: "map_of (ot_challenges sample_otp) ''st1'' = Some ?c" by (simp add: sample_otp_def)
  have l: "ch_attempts ?c < op_max_attempts (policy_of sample_otp)"
    by (simp add: sample_otp_def policy_of_def setting_def default_policy_def)
  have "compared sample_crypto ''st1'' [(70 * second, ''123456'')] st' = 0"
    using challenge_single_use [OF m l v] by blast
  with v show ?thesis by blast
qed

text \<open>
  Codes to one mobile: a challenge sends one only while fewer than the policy allows were sent in the
  last ten minutes, so the count of that time never passes the limit.
\<close>

lemma codes_rate_limited:
  assumes "start_challenge K P now digits state u dev st = (st', r)" and "normalize_mobile (ou_mobile u) = Some (ou_mobile u)"
    and "int (sent_since (ou_mobile u) (now - 10 * minute) (ot_messages st)) \<le> op_max_sends (policy_of st)"
  shows "int (sent_since (ou_mobile u) (now - 10 * minute) (ot_messages st')) \<le> op_max_sends (policy_of st)"
proof -
  have add: "int (sent_since m t (log_sms now m' pu n d s pid e ms)) \<le> int (sent_since m t ms) + 1"
    "s \<noteq> ''sent'' \<Longrightarrow> sent_since m t (log_sms now m' pu n d s pid e ms) = sent_since m t ms" for m t m' pu n d s pid e ms
    by (simp_all add: sent_since_def log_sms_def count_rows_append count_rows_Cons)
  let ?n = "\<lambda>ms. int (sent_since (ou_mobile u) (now - 10 * minute) ms)"
  have send: "?n (fst (send_sms c P now mob code pu n d ms)) \<le> ?n ms + 1" for c mob code pu n d ms
    using add(1) by (auto simp: send_sms_def add(2) split: option.split sum.split)
  show ?thesis
  proof (cases "?n (ot_messages st) \<ge> op_max_sends (policy_of st)")
    case True
    with assms show ?thesis by (auto simp: start_challenge_def log_blocked_def Let_def add(2))
  next
    case False
    let ?s = "send_sms (setting default_sms (ot_sms_config st)) P now (ou_mobile u)
        (new_code (op_length (policy_of st)) digits) ''radius'' (ou_username u) dev (ot_messages st)"
    have "ot_messages st' = fst ?s"
      using assms(1) False by (auto simp: start_challenge_def Let_def split: prod.splits option.splits)
    with send [of "setting default_sms (ot_sms_config st)" "ou_mobile u" "new_code (op_length (policy_of st)) digits"
        "''radius''" "ou_username u" dev "ot_messages st"] False show ?thesis by simp
  qed
qed

end
