(* ===== verification/ConfigText.thy ===== *)
theory ConfigText
  imports Prelude "HOL-Library.List_Lexorder" "HOL-Library.Char_ord" "HOL-Library.AList"
begin

text \<open>
  Configuration files as text (\<open>internal/backup/configtext.go\<close>): the normal form behind the
  fingerprint of a backup, the masking of secrets and the comparison of two configurations
  block by block.

  The SHA-256 function is a parameter. The three regular expressions are written out as
  functions; \<open>re_space\<close> is the class \<open>\s\<close> of Go's \<open>regexp\<close>, which has no vertical tab. The Go maps of
  settings are association lists without repeated keys.
\<close>

abbreviation newline :: char where "newline \<equiv> CHR 0x0A"

subsection \<open>Normal form\<close>

text \<open>\<open>strings.ReplaceAll(s, "\r\n", "\n")\<close>\<close>

fun drop_cr :: "string \<Rightarrow> string" where
  "drop_cr (a # b # s) = (if a = CHR 0x0D \<and> b = newline then newline # drop_cr s else a # drop_cr (b # s))"
| "drop_cr s = s"

definition volatile :: "string \<Rightarrow> bool" where
  "volatile l \<longleftrightarrow> starts_with ''#conf_file_ver='' l \<or> starts_with ''#buildno='' l \<or> starts_with ''#global_vdom='' l"

definition blank :: "char \<Rightarrow> bool" where "blank c \<longleftrightarrow> c = CHR '' '' \<or> c = CHR 0x09"

definition normalize :: "string \<Rightarrow> string" where
  "normalize cfg =
     trim_space (join [newline] (map (trim_right blank) (filter (\<lambda>l. \<not> volatile l) (split_char newline (drop_cr cfg)))))"

definition fingerprint :: "(string \<Rightarrow> string) \<Rightarrow> string \<Rightarrow> string" where
  "fingerprint sha cfg = sha (normalize cfg)"

subsection \<open>Masking\<close>

definition re_space :: "char \<Rightarrow> bool" where
  "re_space c \<longleftrightarrow> c = CHR '' '' \<or> c \<in> {CHR 0x09, CHR 0x0A, CHR 0x0C, CHR 0x0D}"

abbreviation word_char :: "char \<Rightarrow> bool" where "word_char c \<equiv> \<not> re_space c"

definition secret_words :: "string list" where
  "secret_words = [''passw'', ''secret'', ''psk'', ''key'', ''community'', ''token'']"

abbreviation masked :: string where "masked \<equiv> ''********''"

text \<open>
  The first group of \<open>secretSetting\<close>: the white space, \<open>set\<close>, the name and the white space before the
  value, when the name has one of the words. A value of nothing but white space takes the last
  character of it.
\<close>

definition secret_prefix :: "string \<Rightarrow> string option" where
  "secret_prefix l =
     (let a = takeWhile re_space l; r1 = dropWhile re_space l;
          r2 = drop 3 r1; b = takeWhile re_space r2; r3 = dropWhile re_space r2;
          w = takeWhile word_char r3; r4 = dropWhile word_char r3;
          c = takeWhile re_space r4; r5 = dropWhile re_space r4
      in if starts_with ''set'' r1 \<and> b \<noteq> [] \<and> list_ex (\<lambda>k. contains_str k w) secret_words then
           if c \<noteq> [] \<and> r5 \<noteq> [] then Some (a @ ''set'' @ b @ w @ c)
           else if length c \<ge> 2 then Some (a @ ''set'' @ b @ w @ butlast c) else None
         else None)"

text \<open>What follows a match of \<open>encValue\<close> at the head of the string.\<close>

definition enc_rest :: "string \<Rightarrow> string option" where
  "enc_rest s =
     (let r = drop 3 s; v = dropWhile re_space r
      in if starts_with ''ENC'' s \<and> takeWhile re_space r \<noteq> [] \<and> v \<noteq> [] then Some (dropWhile word_char v) else None)"

lemma enc_rest_shorter: "enc_rest s = Some t \<Longrightarrow> length t < length s"
proof -
  assume a: "enc_rest s = Some t"
  then have t: "t = dropWhile word_char (dropWhile re_space (drop 3 s))" and "starts_with ''ENC'' s"
    by (auto simp: enc_rest_def Let_def split: if_splits)
  then obtain u where "s = ''ENC'' @ u" by (auto simp only: starts_with_iff)
  then show ?thesis
    using t length_dropWhile_le [of word_char "dropWhile re_space u"] length_dropWhile_le [of re_space u] by simp
qed

function mask_enc :: "string \<Rightarrow> string" where
  "mask_enc [] = []"
| "mask_enc (c # s) =
     (case enc_rest (c # s) of Some t \<Rightarrow> ''ENC '' @ masked @ mask_enc t | None \<Rightarrow> c # mask_enc s)"
  by pat_completeness auto
termination
  by (relation "measure length") (auto dest: enc_rest_shorter)

definition mask_line :: "string \<Rightarrow> string" where
  "mask_line l = (case secret_prefix l of Some p \<Rightarrow> p @ masked | None \<Rightarrow> mask_enc l)"

definition mask :: "string \<Rightarrow> string" where
  "mask cfg = join [newline] (map mask_line (split_char newline cfg))"

subsection \<open>Blocks and settings\<close>

type_synonym settings = "(string \<times> (string \<times> string) list) list"

record flat =
  fl_stack :: "string list"
  fl_blocks :: "string list"
  fl_settings :: settings

abbreviation path_sep :: string where "path_sep \<equiv> '' > ''"

definition block_path :: "flat \<Rightarrow> string" where "block_path F = join path_sep (fl_stack F)"

text \<open>\<open>strings.Fields\<close>\<close>

fun fields_from :: "string \<Rightarrow> string \<Rightarrow> string list" where
  "fields_from w [] = (if w = [] then [] else [rev w])"
| "fields_from w (c # s) =
     (if is_space c then if w = [] then fields_from [] s else rev w # fields_from [] s else fields_from (c # w) s)"

definition fields :: "string \<Rightarrow> string list" where "fields s = fields_from [] s"

definition setting_key :: "string \<Rightarrow> string" where
  "setting_key l =
     (case fields l of
        a # k # _ \<Rightarrow> if a = ''set'' \<or> a = ''unset'' then k else l
      | _ \<Rightarrow> l)"

definition add_block :: "string \<Rightarrow> string list \<Rightarrow> string list" where
  "add_block p bs = (if p \<in> set bs then bs else bs @ [p])"

definition open_block :: "string \<Rightarrow> flat \<Rightarrow> flat" where
  "open_block l F0 =
     (let F = F0\<lparr>fl_stack := fl_stack F0 @ [l]\<rparr>; p = block_path F
      in if p \<in> set (fl_blocks F) then F
         else F\<lparr>fl_blocks := fl_blocks F @ [p], fl_settings := AList.update p [] (fl_settings F)\<rparr>)"

definition close_block :: "flat \<Rightarrow> flat" where
  "close_block F = (if fl_stack F \<noteq> [] then F\<lparr>fl_stack := butlast (fl_stack F)\<rparr> else F)"

definition put_setting :: "string \<Rightarrow> flat \<Rightarrow> flat" where
  "put_setting l F =
     (let p = block_path F
      in case map_of (fl_settings F) p of
           None \<Rightarrow> F\<lparr>fl_blocks := add_block p (fl_blocks F),
                     fl_settings := AList.update p [(setting_key l, l)] (fl_settings F)\<rparr>
         | Some m \<Rightarrow> F\<lparr>fl_settings := AList.update p (AList.update (setting_key l) l m) (fl_settings F)\<rparr>)"

definition block_line :: "string \<Rightarrow> bool" where
  "block_line l \<longleftrightarrow> starts_with ''config '' l \<or> starts_with ''edit '' l"

definition flatten_line :: "flat \<Rightarrow> string \<Rightarrow> flat" where
  "flatten_line F raw =
     (let l = trim_space raw
      in if l = [] \<or> starts_with ''#'' l then F
         else if block_line l then open_block l F
         else if l = ''end'' \<or> l = ''next'' then close_block F
         else put_setting l F)"

definition flatten :: "string \<Rightarrow> flat" where
  "flatten cfg =
     foldl flatten_line \<lparr>fl_stack = [], fl_blocks = [], fl_settings = []\<rparr> (split_char newline (normalize cfg))"

subsection \<open>Comparison\<close>

record cfgdiff =
  cg_path :: string
  cg_kind :: string
  cg_key :: string
  cg_old :: string
  cg_new :: string

text \<open>What stands before the last \<open>sep\<close> (\<open>strings.LastIndex\<close>).\<close>

fun before_last :: "string \<Rightarrow> string \<Rightarrow> string option" where
  "before_last sep [] = (if sep = [] then Some [] else None)"
| "before_last sep (c # s) =
     (case before_last sep s of
        Some u \<Rightarrow> Some (c # u) | None \<Rightarrow> if starts_with sep (c # s) then Some [] else None)"

definition parent_added :: "string \<Rightarrow> settings \<Rightarrow> bool" where
  "parent_added p old = (case before_last path_sep p of None \<Rightarrow> False | Some q \<Rightarrow> map_of old q = None)"

definition key_diff :: "string \<Rightarrow> (string \<times> string) list \<Rightarrow> (string \<times> string) list \<Rightarrow> string \<Rightarrow> cfgdiff list" where
  "key_diff p o' n k =
     (case (map_of o' k, map_of n k) of
        (Some ov, None) \<Rightarrow> [\<lparr>cg_path = p, cg_kind = ''removed'', cg_key = k, cg_old = mask ov, cg_new = []\<rparr>]
      | (None, Some nv) \<Rightarrow> [\<lparr>cg_path = p, cg_kind = ''added'', cg_key = k, cg_old = [], cg_new = mask nv\<rparr>]
      | (Some ov, Some nv) \<Rightarrow>
          if ov \<noteq> nv
          then [\<lparr>cg_path = p, cg_kind = ''changed'', cg_key = k, cg_old = mask ov, cg_new = mask nv\<rparr>] else []
      | (None, None) \<Rightarrow> [])"

definition block_diff :: "settings \<Rightarrow> settings \<Rightarrow> string \<Rightarrow> cfgdiff list" where
  "block_diff olds news p =
     (case map_of olds p of
        None \<Rightarrow>
          if parent_added p olds then []
          else [\<lparr>cg_path = p, cg_kind = ''added'', cg_key = [], cg_old = [], cg_new = []\<rparr>]
      | Some ov \<Rightarrow>
          (case map_of news p of
             None \<Rightarrow>
               if parent_added p news then []
               else [\<lparr>cg_path = p, cg_kind = ''removed'', cg_key = [], cg_old = [], cg_new = []\<rparr>]
           | Some nv \<Rightarrow> concat (map (key_diff p ov nv) (sort (remdups (map fst ov @ map fst nv))))))"

definition diff :: "string \<Rightarrow> string \<Rightarrow> cfgdiff list" where
  "diff old new =
     (let F = flatten old; G = flatten new;
          order = fl_blocks G @ filter (\<lambda>b. map_of (fl_settings G) b = None) (fl_blocks F)
      in concat (map (block_diff (fl_settings F) (fl_settings G)) order))"

subsection \<open>Paths\<close>

lemma join_snoc: "join sep (ws @ [w]) = (if ws = [] then w else join sep ws @ sep @ w)"
  by (induction sep ws rule: join.induct) auto

lemma before_last_append: "before_last sep s = Some u \<Longrightarrow> before_last sep (t @ s) = Some (t @ u)"
  by (induction t) auto

lemma before_last_None: "\<not> contains_str sep s \<Longrightarrow> before_last sep s = None"
  by (induction s) auto

lemma before_last_sep:
  assumes "\<not> contains_str path_sep w" and "\<not> starts_with ''>'' w"
  shows "before_last path_sep (path_sep @ w) = Some []"
proof -
  have "\<not> starts_with path_sep (CHR '' '' # w)" using assms(2) by (cases w) auto
  with before_last_None [OF assms(1)] show ?thesis by simp
qed

definition clean_line :: "string \<Rightarrow> bool" where
  "clean_line l \<longleftrightarrow> \<not> contains_str path_sep l \<and> \<not> starts_with ''>'' l"

lemma before_last_join:
  assumes "list_all clean_line stk"
  shows "before_last path_sep (join path_sep stk) =
           (if length stk \<le> 1 then None else Some (join path_sep (butlast stk)))"
proof (cases stk rule: rev_cases)
  case Nil
  then show ?thesis by simp
next
  case (snoc ws w)
  with assms have w: "\<not> contains_str path_sep w" "\<not> starts_with ''>'' w" by (auto simp: clean_line_def)
  show ?thesis
  proof (cases "ws = []")
    case True
    with snoc w show ?thesis by (simp add: before_last_None)
  next
    case False
    have "before_last path_sep (join path_sep (ws @ [w])) = Some (join path_sep ws)"
      unfolding join_snoc using before_last_append [OF before_last_sep [OF w], of "join path_sep ws"] False by simp
    with snoc False show ?thesis by (cases ws) auto
  qed
qed

subsection \<open>The blocks of a configuration\<close>

text \<open>
  Every block has the path of a stack of lines, and the shorter stacks below it have blocks too;
  the listed blocks are those with settings.
\<close>

definition rooted :: "string list \<Rightarrow> string set \<Rightarrow> bool" where
  "rooted stk B \<longleftrightarrow> list_all clean_line stk \<and> (\<forall>k\<in>{1..length stk}. join path_sep (take k stk) \<in> B)"

definition flat_ok :: "flat \<Rightarrow> bool" where
  "flat_ok F \<longleftrightarrow>
     set (fl_blocks F) = fst ` set (fl_settings F) \<and> rooted (fl_stack F) (set (fl_blocks F)) \<and>
     (\<forall>p\<in>set (fl_blocks F). \<exists>stk. p = join path_sep stk \<and> rooted stk (set (fl_blocks F)))"

lemma rooted_mono: "rooted stk B \<Longrightarrow> B \<subseteq> C \<Longrightarrow> rooted stk C"
  unfolding rooted_def by blast

lemma rooted_snoc: "rooted stk B \<Longrightarrow> clean_line l \<Longrightarrow> rooted (stk @ [l]) (insert (join path_sep (stk @ [l])) B)"
  unfolding rooted_def by (auto simp: take_append le_Suc_eq)

lemma rooted_butlast: "rooted stk B \<Longrightarrow> rooted (butlast stk) B"
  unfolding rooted_def by (auto simp: take_butlast list_all_iff dest: in_set_butlastD)

lemma flat_okI:
  assumes "set (fl_blocks F) = fst ` set (fl_settings F)" and "rooted (fl_stack F) (set (fl_blocks F))"
    and "\<And>p. p \<in> set (fl_blocks F) \<Longrightarrow> \<exists>stk. p = join path_sep stk \<and> rooted stk (set (fl_blocks F))"
  shows "flat_ok F"
  using assms unfolding flat_ok_def by blast

lemma block_line_clean: "block_line l \<Longrightarrow> \<not> contains_str path_sep l \<Longrightarrow> clean_line l"
  by (cases l) (auto simp: block_line_def clean_line_def)

text \<open>An operation keeps this when it adds at most the block of its new stack.\<close>

lemma flat_ok_add:
  assumes ok: "flat_ok F" and r: "rooted (fl_stack G) (insert p (set (fl_blocks F)))"
    and p: "p \<in> set (fl_blocks F) \<or> p = join path_sep (fl_stack G)"
    and bl: "set (fl_blocks G) = insert p (set (fl_blocks F))"
    and ks: "fst ` set (fl_settings G) = insert p (fst ` set (fl_settings F))"
  shows "flat_ok G"
proof (rule flat_okI)
  from ok have keys: "set (fl_blocks F) = fst ` set (fl_settings F)"
    and each: "\<And>q. q \<in> set (fl_blocks F) \<Longrightarrow> \<exists>stk. q = join path_sep stk \<and> rooted stk (set (fl_blocks F))"
    unfolding flat_ok_def by blast+
  show "set (fl_blocks G) = fst ` set (fl_settings G)" by (simp add: bl ks keys)
  show "rooted (fl_stack G) (set (fl_blocks G))" by (simp add: bl r)
  fix q assume "q \<in> set (fl_blocks G)"
  with p consider "q = join path_sep (fl_stack G)" | "q \<in> set (fl_blocks F)" by (auto simp: bl)
  then show "\<exists>stk. q = join path_sep stk \<and> rooted stk (set (fl_blocks G))"
    unfolding bl by cases (use r each rooted_mono [OF _ subset_insertI] in blast)+
qed

lemma open_block_ok:
  assumes ok: "flat_ok F" and l: "clean_line l"
  shows "flat_ok (open_block l F)"
proof (rule flat_ok_add [OF ok])
  let ?p = "join path_sep (fl_stack F @ [l])"
  from ok have "rooted (fl_stack F) (set (fl_blocks F))" and keys: "set (fl_blocks F) = fst ` set (fl_settings F)"
    unfolding flat_ok_def by blast+
  then show "rooted (fl_stack (open_block l F)) (insert ?p (set (fl_blocks F)))"
    using rooted_snoc [OF _ l] by (auto simp: open_block_def Let_def)
  show "?p \<in> set (fl_blocks F) \<or> ?p = join path_sep (fl_stack (open_block l F))"
    by (simp add: open_block_def Let_def)
  show "set (fl_blocks (open_block l F)) = insert ?p (set (fl_blocks F))"
    by (auto simp: open_block_def Let_def block_path_def)
  show "fst ` set (fl_settings (open_block l F)) = insert ?p (fst ` set (fl_settings F))"
    using keys by (auto simp: open_block_def Let_def block_path_def dom_update)
qed

lemma close_block_ok: "flat_ok F \<Longrightarrow> flat_ok (close_block F)"
proof -
  have "fl_blocks (close_block F) = fl_blocks F" "fl_settings (close_block F) = fl_settings F"
    and "fl_stack (close_block F) = butlast (fl_stack F)"
    by (simp_all add: close_block_def)
  then show "flat_ok F \<Longrightarrow> flat_ok (close_block F)"
    using rooted_butlast [of "fl_stack F" "set (fl_blocks F)"] unfolding flat_ok_def by metis
qed

lemma put_setting_ok:
  assumes ok: "flat_ok F"
  shows "flat_ok (put_setting l F)"
proof (rule flat_ok_add [OF ok])
  let ?p = "block_path F"
  from ok have r: "rooted (fl_stack F) (set (fl_blocks F))" and keys: "set (fl_blocks F) = fst ` set (fl_settings F)"
    unfolding flat_ok_def by blast+
  have st: "fl_stack (put_setting l F) = fl_stack F"
    by (simp add: put_setting_def Let_def split: option.splits)
  show "rooted (fl_stack (put_setting l F)) (insert ?p (set (fl_blocks F)))"
    unfolding st using r by (rule rooted_mono) blast
  show "?p \<in> set (fl_blocks F) \<or> ?p = join path_sep (fl_stack (put_setting l F))"
    by (simp add: st block_path_def)
  have there: "?p \<in> set (fl_blocks F)" if "map_of (fl_settings F) ?p = Some m" for m
    using map_of_SomeD [OF that] keys by force
  then show "set (fl_blocks (put_setting l F)) = insert ?p (set (fl_blocks F))"
    by (auto simp: put_setting_def Let_def add_block_def split: option.splits)
  show "fst ` set (fl_settings (put_setting l F)) = insert ?p (fst ` set (fl_settings F))"
    by (auto simp: put_setting_def Let_def dom_update split: option.splits)
qed

text \<open>A configuration whose block names do not look like a path.\<close>

definition plain_names :: "string \<Rightarrow> bool" where
  "plain_names cfg \<longleftrightarrow>
     list_all (\<lambda>l. block_line (trim_space l) \<longrightarrow> \<not> contains_str path_sep (trim_space l))
       (split_char newline (normalize cfg))"

lemma flatten_ok: "plain_names cfg \<Longrightarrow> flat_ok (flatten cfg)"
proof -
  have "flat_ok (foldl flatten_line F ls)"
    if "flat_ok F" and "list_all (\<lambda>l. block_line (trim_space l) \<longrightarrow> \<not> contains_str path_sep (trim_space l)) ls" for F ls
    using that
  proof (induction ls arbitrary: F)
    case (Cons l ls)
    have "flat_ok (flatten_line F l)"
      using Cons.prems unfolding flatten_line_def Let_def
      by (simp add: open_block_ok close_block_ok put_setting_ok block_line_clean)
    with Cons show ?case by simp
  qed simp
  moreover have "flat_ok \<lparr>fl_stack = [], fl_blocks = [], fl_settings = []\<rparr>" by (simp add: flat_ok_def rooted_def)
  ultimately show "plain_names cfg \<Longrightarrow> flat_ok (flatten cfg)" by (simp add: flatten_def plain_names_def)
qed

subsection \<open>What the comparison reports\<close>

text \<open>The settings of a configuration: the blocks, and in each the lines by name.\<close>

definition settings_of :: "string \<Rightarrow> string \<rightharpoonup> (string \<rightharpoonup> string)" where
  "settings_of cfg = (\<lambda>p. map_option map_of (map_of (fl_settings (flatten cfg)) p))"

lemma parent_of_join:
  assumes "list_all clean_line stk"
  shows "parent_added (join path_sep stk) old \<longleftrightarrow>
           length stk > 1 \<and> map_of old (join path_sep (butlast stk)) = None"
  by (simp add: parent_added_def before_last_join [OF assms])

text \<open>Of a missing block or its missing parents the topmost one is not hidden by its parent.\<close>

lemma topmost_missing:
  assumes "rooted stk B" and "join path_sep stk \<in> B" and "map_of old (join path_sep stk) = None"
  shows "\<exists>q\<in>B. map_of old q = None \<and> \<not> parent_added q old"
  using assms
proof (induction "length stk" arbitrary: stk rule: less_induct)
  case less
  from less.prems(1) have clean: "list_all clean_line stk"
    and pre: "\<And>k. k \<in> {1..length stk} \<Longrightarrow> join path_sep (take k stk) \<in> B" unfolding rooted_def by blast+
  show ?case
  proof (cases "parent_added (join path_sep stk) old")
    case True
    then have len: "length stk > 1" and up: "map_of old (join path_sep (butlast stk)) = None"
      by (simp_all add: parent_of_join [OF clean])
    have "join path_sep (butlast stk) \<in> B"
      using pre [of "length stk - 1"] len by (simp add: butlast_conv_take)
    with less.hyps [of "butlast stk"] rooted_butlast [OF less.prems(1)] up len show ?thesis by simp
  qed (use less.prems in blast)
qed

lemma block_diff_missing:
  assumes ok: "flat_ok G" and p: "p \<in> set (fl_blocks G)" and gone: "map_of old p = None"
  shows "\<exists>q\<in>set (fl_blocks G). map_of old q = None \<and> \<not> parent_added q old"
proof -
  from ok p obtain stk where "p = join path_sep stk" "rooted stk (set (fl_blocks G))" unfolding flat_ok_def by blast
  with p gone show ?thesis by (blast intro: topmost_missing)
qed

lemma key_diff_Nil: "key_diff p o' n k = [] \<longleftrightarrow> map_of o' k = map_of n k"
  by (simp add: key_diff_def split: option.split)

lemma block_diff_both:
  assumes "map_of olds p = Some a" and "map_of news p = Some b"
  shows "block_diff olds news p = [] \<longleftrightarrow> map_of a = map_of b"
proof -
  have "block_diff olds news p = [] \<longleftrightarrow> (\<forall>k\<in>fst ` set a \<union> fst ` set b. map_of a k = map_of b k)"
    by (simp add: block_diff_def assms key_diff_Nil)
  also have "\<dots> \<longleftrightarrow> map_of a = map_of b"
    by (auto simp: fun_eq_iff) (metis UnI1 UnI2 map_of_eq_None_iff)
  finally show ?thesis .
qed

lemma block_there: "flat_ok F \<Longrightarrow> p \<in> set (fl_blocks F) \<longleftrightarrow> map_of (fl_settings F) p \<noteq> None"
  by (simp add: flat_ok_def map_of_eq_None_iff)

lemma diff_Nil_blocks:
  assumes F: "flat_ok (flatten old)" and G: "flat_ok (flatten new)" and empty: "diff old new = []"
  shows "map_of (fl_settings (flatten old)) p = None \<longleftrightarrow> map_of (fl_settings (flatten new)) p = None"
proof -
  let ?o = "fl_settings (flatten old)" and ?n = "fl_settings (flatten new)"
  have silent: "block_diff ?o ?n q = []"
    if "q \<in> set (fl_blocks (flatten new)) \<or> (q \<in> set (fl_blocks (flatten old)) \<and> map_of ?n q = None)" for q
    using empty that by (auto simp: diff_def Let_def)
  have "map_of ?o p \<noteq> None" if "map_of ?n p \<noteq> None"
  proof
    assume "map_of ?o p = None"
    with block_diff_missing [OF G] that block_there [OF G] obtain q where
      "q \<in> set (fl_blocks (flatten new))" "map_of ?o q = None" "\<not> parent_added q ?o" by blast
    with silent [of q] show False by (simp add: block_diff_def)
  qed
  moreover have "map_of ?n p \<noteq> None" if "map_of ?o p \<noteq> None"
  proof
    assume "map_of ?n p = None"
    with block_diff_missing [OF F] that block_there [OF F] obtain q where
      q: "q \<in> set (fl_blocks (flatten old))" "map_of ?n q = None" "\<not> parent_added q ?n" by blast
    then have "map_of ?o q \<noteq> None" using block_there [OF F] by blast
    with q silent [of q] show False by (auto simp: block_diff_def)
  qed
  ultimately show ?thesis by blast
qed


definition sample_old :: string where
  "sample_old = ''#buildno=1'' @ [newline] @ ''config a'' @ [newline] @ ''edit 1'' @ [newline] @ ''set psk x'' @ [newline] @ ''next'' @ [newline] @ ''end''"

definition sample_new :: string where
  "sample_new = ''config a'' @ [newline] @ ''edit 1'' @ [newline] @ ''set psk y'' @ [newline] @ ''next'' @ [newline] @ ''edit 2'' @ [newline] @ ''next'' @ [newline] @ ''end''"


text \<open>
  The hypothesis on the names is needed: a new block whose name contains the separator is taken
  for a part of a block that is itself new, and nothing is reported.
\<close>

lemma diff_hides_block:
  "diff (''config a'' @ [newline] @ ''end'')
        (''config a'' @ [newline] @ ''edit \"x > y\"'' @ [newline] @ ''set b 1'' @ [newline] @ ''next'' @ [newline] @ ''end'') = []"
  by code_simp

text \<open>Masking goes by line: the lines of a quoted secret after its first one are shown.\<close>

lemma mask_shows_body:
  "mask (''set private-key \"-----BEGIN'' @ [newline] @ ''c2VjcmV0'' @ [newline] @ ''-----END\"'') =
     ''set private-key ********'' @ [newline] @ ''c2VjcmV0'' @ [newline] @ ''-----END\"''"
  by code_simp

text \<open>The normal form is not a fixed point: stripping can expose a line that the next pass drops.\<close>

lemma normalize_twice:
  "normalize '' #buildno=7'' = ''#buildno=7'' \<and> normalize (normalize '' #buildno=7'') = []"
  by code_simp

text \<open>Equal normal forms, which is what equal fingerprints stand for, show no difference.\<close>

lemma flatten_keys: "set (fl_blocks (flatten cfg)) = fst ` set (fl_settings (flatten cfg))"
proof -
  have "set (fl_blocks (foldl flatten_line F ls)) = fst ` set (fl_settings (foldl flatten_line F ls))"
    if "set (fl_blocks F) = fst ` set (fl_settings F)" for F ls
    using that
  proof (induction ls arbitrary: F)
    case (Cons l ls)
    have "set (fl_blocks (put_setting k F)) = fst ` set (fl_settings (put_setting k F))" for k
      using Cons.prems
      by (auto simp: put_setting_def Let_def add_block_def dom_update split: option.splits)
        (metis map_of_eq_None_iff option.discI)
    moreover have "set (fl_blocks (open_block k F)) = fst ` set (fl_settings (open_block k F))" for k
      using Cons.prems by (simp add: open_block_def Let_def dom_update)
    ultimately have "set (fl_blocks (flatten_line F l)) = fst ` set (fl_settings (flatten_line F l))"
      using Cons.prems by (simp add: flatten_line_def Let_def close_block_def)
    with Cons.IH show ?case by simp
  qed simp
  then show ?thesis by (simp add: flatten_def)
qed

lemma diff_same_normal:
  assumes "normalize a = normalize b"
  shows "diff a b = []"
proof -
  have F: "flatten a = flatten b" by (simp add: flatten_def assms)
  have "block_diff (fl_settings (flatten b)) (fl_settings (flatten b)) p = []" if "p \<in> set (fl_blocks (flatten b))" for p
  proof -
    from that flatten_keys obtain m where "map_of (fl_settings (flatten b)) p = Some m"
      by (metis map_of_eq_None_iff not_Some_eq)
    then show ?thesis by (simp add: block_diff_both)
  qed
  then show ?thesis by (auto simp: diff_def Let_def F)
qed

end
