(* ===== verification/Backup.thy ===== *)
theory Backup
  imports Inventory ConfigText "HOL-Library.Multiset"
begin

text \<open>
  Device backups (\<open>internal/backup/backup.go\<close>, \<open>restore.go\<close>): taking and storing a backup, reading
  it back, locks and deletion, the policies and their retention, and restores with the watcher
  that waits for the device.

  The state is the three tables and the directory of encrypted files. \<open>bkenv\<close> has what the code
  calls: the license package and the guard, the inventory's environment with the transports,
  the secret box, SHA-256, the cron parser, the texts of a time (in file names) and of a duration, and
  the result of writing a file. The inventory \<open>I\<close> and the clock are arguments; the random part of a file name is \<open>rnd\<close>.
\<close>

subsection \<open>Data\<close>

abbreviation ReasonScheduled :: string where "ReasonScheduled \<equiv> ''scheduled''"
abbreviation ReasonManual :: string where "ReasonManual \<equiv> ''manual''"
abbreviation ReasonPreRestore :: string where "ReasonPreRestore \<equiv> ''pre_restore''"
abbreviation ReasonPreChange :: string where "ReasonPreChange \<equiv> ''pre_change''"

record backup =
  bk_id :: int
  bk_device :: int
  bk_at :: time
  bk_reason :: string
  bk_actor :: string
  bk_status :: string
  bk_error :: string
  bk_sha :: string
  bk_size :: int
  bk_firmware :: string
  bk_locked :: bool
  bk_note :: string
  bk_path :: string

text \<open>\<open>Backup\<close> has the device's name too, which every query joins.\<close>

record vbackup = backup +
  bk_device_name :: string

record bpolicy =
  bp_id :: int
  bp_name :: string
  bp_group :: "int option"
  bp_device :: "int option"
  bp_schedule :: string
  bp_keep_count :: int
  bp_keep_days :: int
  bp_enabled :: bool
  bp_last_run :: "time option"
  bp_created :: time

record vpolicy = bpolicy +
  bp_next_run :: "time option"

record rjob =
  rj_id :: int
  rj_device :: int
  rj_backup :: int
  rj_pre :: "int option"
  rj_actor :: string
  rj_status :: string
  rj_error :: string
  rj_started :: time
  rj_finished :: "time option"

record bkdb =
  backups :: "backup list"
  bpolicies :: "bpolicy list"
  rjobs :: "rjob list"
  bk_files :: "string \<rightharpoonup> string"
  next_backup :: int
  next_bpolicy :: int
  next_rjob :: int

record bkopt =
  bo_reboot_wait :: time
  bo_reboot_poll :: time
  bo_reboot_limit :: time
  bo_failed_keep :: time

text \<open>The defaults of \<open>New\<close>: a zero option takes its default.\<close>

definition default_opt :: "bkopt \<Rightarrow> bkopt" where
  "default_opt q =
     (let def = (\<lambda>v d. if v = 0 then d else v)
      in \<lparr>bo_reboot_wait = def (bo_reboot_wait q) minute, bo_reboot_poll = def (bo_reboot_poll q) (20 * second),
          bo_reboot_limit = def (bo_reboot_limit q) (15 * minute), bo_failed_keep = def (bo_failed_keep q) (30 * 24 * hour)\<rparr>)"

record 'l bkenv =
  be_lic :: "'l licapi"
  be_guard :: "'l guard"
  be_inv :: invenv
  be_seal :: "string \<Rightarrow> string \<Rightarrow> string"
  be_open :: "string \<Rightarrow> string \<Rightarrow> string + string"
  be_sha :: "string \<Rightarrow> string"
  be_cron :: "string \<Rightarrow> (time \<Rightarrow> time) option"
  be_stamp :: "time \<Rightarrow> string"
  be_duration :: "time \<Rightarrow> string"
  be_write :: "string \<Rightarrow> string option"
  be_opt :: bkopt

datatype bkerror =
    BkInput string | BkNotFound | BkNotLicensed | BkRestoreRunning | BkInventory ierror
  | BkFailed string string | BkFile string | BkWrite string | BkRunning derror

fun bkerror_text :: "bkerror \<Rightarrow> string" where
  "bkerror_text (BkInput m) = m"
| "bkerror_text BkNotFound = ''not found''"
| "bkerror_text BkNotLicensed = ''this device's license is not active; only existing backups can be viewed and downloaded''"
| "bkerror_text BkRestoreRunning = ''a restore is already in progress on this device''"
| "bkerror_text (BkInventory e) = ierror_text e"
| "bkerror_text (BkFailed name m) = ''backup of '' @ name @ '' failed: '' @ m"
| "bkerror_text (BkFile e) = ''backup file: '' @ e"
| "bkerror_text (BkWrite e) = e"
| "bkerror_text (BkRunning e) = ''reading the running configuration failed: '' @ err_text e"

definition get_dev :: "'l bkenv \<Rightarrow> time \<Rightarrow> inv \<Rightarrow> int \<Rightarrow> ierror + device" where
  "get_dev E now I d = get_device (be_lic E) (be_inv E) now (be_guard E) I d"

definition dev_driver :: "'l bkenv \<Rightarrow> device \<Rightarrow> driver" where
  "dev_driver E d = inv_driver (be_inv E) d"

definition dev_operational :: "'l bkenv \<Rightarrow> device \<Rightarrow> bool" where
  "dev_operational E d = operational (be_lic E) d"

subsection \<open>Reading backups\<close>

text \<open>The join with \<open>devices\<close>: no result for a device that does not exist.\<close>

definition scan_backup :: "inv \<Rightarrow> backup \<Rightarrow> vbackup option" where
  "scan_backup I b =
     map_option (\<lambda>r. backup.extend b \<lparr>bk_device_name = d_name r\<rparr>) (find_row d_id (bk_device b) (devices I))"

definition get_backup :: "inv \<Rightarrow> bkdb \<Rightarrow> int \<Rightarrow> bkerror + vbackup" where
  "get_backup I st i =
     (case find_row bk_id i (backups st) of
        None \<Rightarrow> Inl BkNotFound
      | Some b \<Rightarrow> (case scan_backup I b of None \<Rightarrow> Inl BkNotFound | Some v \<Rightarrow> Inr v))"

text \<open>\<open>ORDER BY at DESC, id DESC\<close>\<close>

definition newest_first :: "'a backup_scheme list \<Rightarrow> 'a backup_scheme list" where
  "newest_first = sort_key (\<lambda>b. (- bk_at b, - bk_id b))"

definition list_backups :: "inv \<Rightarrow> bkdb \<Rightarrow> int \<Rightarrow> int \<Rightarrow> vbackup list" where
  "list_backups I st dev limit =
     (let n = (if limit \<le> 0 \<or> limit > 1000 then 200 else limit)
      in take (nat n) (newest_first
           (List.map_filter (scan_backup I) (filter (\<lambda>b. dev = 0 \<or> bk_device b = dev) (backups st)))))"

definition last_ok :: "inv \<Rightarrow> bkdb \<Rightarrow> int \<Rightarrow> vbackup option" where
  "last_ok I st dev =
     (case newest_first (List.map_filter (scan_backup I)
             (filter (\<lambda>b. bk_device b = dev \<and> bk_status b = ''ok'') (backups st))) of
        [] \<Rightarrow> None | b # _ \<Rightarrow> Some b)"

definition file_context :: "int \<Rightarrow> string" where "file_context d = ''backup:'' @ show_int d"

definition bk_content :: "'l bkenv \<Rightarrow> inv \<Rightarrow> bkdb \<Rightarrow> int \<Rightarrow> bkerror + string \<times> vbackup" where
  "bk_content E I st i =
     (case get_backup I st i of
        Inl e \<Rightarrow> Inl e
      | Inr b \<Rightarrow>
          if bk_status b \<noteq> ''ok'' then Inl (BkInput ''this backup failed and has no content'')
          else (case bk_files st (bk_path b) of
                  None \<Rightarrow> Inl (BkFile ''no such file'')
                | Some sealed \<Rightarrow>
                    (case be_open E sealed (file_context (bk_device b)) of
                       Inl e \<Rightarrow> Inl (BkFile e) | Inr cfg \<Rightarrow> Inr (cfg, b))))"

subsection \<open>Deleting\<close>

text \<open>
  \<open>DELETE FROM backups\<close> with its foreign keys: the restore jobs of the backup go with it, and a
  job that has it as its safety backup keeps \<open>NULL\<close>.
\<close>

definition drop_backup :: "int \<Rightarrow> bkdb \<Rightarrow> bkdb" where
  "drop_backup i st =
     st\<lparr>backups := del_rows (\<lambda>b. bk_id b = i) (backups st),
        rjobs := upd_rows (\<lambda>j. rj_pre j = Some i) (\<lambda>j. j\<lparr>rj_pre := None\<rparr>)
                   (del_rows (\<lambda>j. rj_backup j = i) (rjobs st))\<rparr>"

text \<open>The loop of \<open>remove\<close>; a file that cannot be removed is only logged.\<close>

fun bk_remove :: "'a backup_scheme list \<Rightarrow> bkdb \<Rightarrow> bkdb" where
  "bk_remove [] st = st"
| "bk_remove (b # bs) st =
     (let st1 = drop_backup (bk_id b) st
      in bk_remove bs (if bk_path b \<noteq> [] then st1\<lparr>bk_files := (bk_files st1)(bk_path b := None)\<rparr> else st1))"

definition set_lock :: "int \<Rightarrow> bool \<Rightarrow> string \<Rightarrow> bkdb \<Rightarrow> (bkdb, bkerror, unit) outcome" where
  "set_lock i locked note st =
     (if find_row bk_id i (backups st) = None then (st, Inl BkNotFound)
      else (st\<lparr>backups := upd_rows (\<lambda>b. bk_id b = i) (\<lambda>b. b\<lparr>bk_locked := locked, bk_note := clip (trim_space note) 500\<rparr>)
                            (backups st)\<rparr>, Inr ()))"

definition delete_backup :: "inv \<Rightarrow> int \<Rightarrow> bkdb \<Rightarrow> (bkdb, bkerror, unit) outcome" where
  "delete_backup I i st =
     (case get_backup I st i of
        Inl e \<Rightarrow> (st, Inl e)
      | Inr b \<Rightarrow>
          if bk_locked b then (st, Inl (BkInput ''unlock the backup before deleting it''))
          else (bk_remove [b] st, Inr ()))"

subsection \<open>Comparing\<close>

definition diff_backups :: "'l bkenv \<Rightarrow> inv \<Rightarrow> bkdb \<Rightarrow> int \<Rightarrow> int \<Rightarrow> bkerror + cfgdiff list" where
  "diff_backups E I st i j =
     (case bk_content E I st i of
        Inl e \<Rightarrow> Inl e
      | Inr (from_cfg, fb) \<Rightarrow>
          (case bk_content E I st j of
             Inl e \<Rightarrow> Inl e
           | Inr (to_cfg, tb) \<Rightarrow>
               if bk_device fb \<noteq> bk_device tb
               then Inl (BkInput ''both backups must belong to the same device'')
               else Inr (diff from_cfg to_cfg)))"

definition diff_current :: "'l bkenv \<Rightarrow> time \<Rightarrow> inv \<Rightarrow> bkdb \<Rightarrow> int \<Rightarrow> bkerror + cfgdiff list" where
  "diff_current E now I st i =
     (case bk_content E I st i of
        Inl e \<Rightarrow> Inl e
      | Inr (cfg, b) \<Rightarrow>
          (case get_dev E now I (bk_device b) of
             Inl e \<Rightarrow> Inl (BkInventory e)
           | Inr d \<Rightarrow>
               if \<not> dev_operational E d then Inl BkNotLicensed
               else (case driver_backup (dev_driver E d) of
                       Inl e \<Rightarrow> Inl (BkRunning e) | Inr live \<Rightarrow> Inr (diff live cfg))))"

subsection \<open>Policies\<close>

definition policy_next :: "'l bkenv \<Rightarrow> time \<Rightarrow> bpolicy \<Rightarrow> time option" where
  "policy_next E now p =
     (case be_cron E (bp_schedule p) of
        None \<Rightarrow> None
      | Some next_after \<Rightarrow>
          (let start = (case bp_last_run p of Some t \<Rightarrow> t | None \<Rightarrow> bp_created p);
               n = next_after start
           in Some (if n < now - 24 * hour then next_after (now - minute) else n)))"

definition list_bpolicies :: "'l bkenv \<Rightarrow> time \<Rightarrow> bkdb \<Rightarrow> vpolicy list" where
  "list_bpolicies E now st =
     map (\<lambda>p. bpolicy.extend p \<lparr>bp_next_run = (if bp_enabled p then policy_next E now p else None)\<rparr>)
       (sort_key bp_id (bpolicies st))"

text \<open>The foreign keys of a policy.\<close>

definition policy_target_missing :: "inv \<Rightarrow> bpolicy \<Rightarrow> bool" where
  "policy_target_missing I p \<longleftrightarrow>
     group_missing (bp_group p) I \<or>
     (case bp_device p of None \<Rightarrow> False | Some d \<Rightarrow> find_row d_id d (devices I) = None)"

definition check_bpolicy :: "'l bkenv \<Rightarrow> bpolicy \<Rightarrow> string option" where
  "check_bpolicy E p =
     (if bp_name p = [] \<or> length (bp_name p) > 100 then Some ''policy name is required (at most 100 characters)''
      else if be_cron E (bp_schedule p) = None
      then Some ''schedule is not a valid cron expression (minute hour day month weekday)''
      else if bp_group p \<noteq> None \<and> bp_device p \<noteq> None then Some ''choose a group or a device, not both''
      else if bp_keep_count p < 0 \<or> bp_keep_days p < 0 \<or> bp_keep_count p > 10000 \<or> bp_keep_days p > 3650
      then Some ''retention is out of range'' else None)"

definition bpolicy_row :: "bpolicy \<Rightarrow> bpolicy \<Rightarrow> bpolicy" where
  "bpolicy_row p r =
     r\<lparr>bp_name := bp_name p, bp_group := bp_group p, bp_device := bp_device p, bp_schedule := bp_schedule p,
       bp_keep_count := bp_keep_count p, bp_keep_days := bp_keep_days p, bp_enabled := bp_enabled p\<rparr>"

definition save_bpolicy :: "'l bkenv \<Rightarrow> time \<Rightarrow> inv \<Rightarrow> bpolicy \<Rightarrow> bkdb \<Rightarrow> (bkdb, bkerror, int) outcome" where
  "save_bpolicy E now I p0 st =
     (let p = p0\<lparr>bp_name := trim_space (bp_name p0), bp_schedule := trim_space (bp_schedule p0)\<rparr>;
          missing = Inl (BkInput ''the selected group or device does not exist'')
      in case check_bpolicy E p of
           Some m \<Rightarrow> (st, Inl (BkInput m))
         | None \<Rightarrow>
             if bp_id p = 0 then
               (if policy_target_missing I p then (st, missing)
                else (st\<lparr>bpolicies := bpolicies st @ [p\<lparr>bp_id := next_bpolicy st, bp_last_run := None, bp_created := now\<rparr>],
                        next_bpolicy := next_bpolicy st + 1\<rparr>, Inr (next_bpolicy st)))
             else if find_row bp_id (bp_id p) (bpolicies st) = None then (st, Inl BkNotFound)
             else if policy_target_missing I p then (st, missing)
             else (st\<lparr>bpolicies := upd_rows (\<lambda>r. bp_id r = bp_id p) (bpolicy_row p) (bpolicies st)\<rparr>, Inr (bp_id p)))"

definition delete_bpolicy :: "int \<Rightarrow> bkdb \<Rightarrow> (bkdb, bkerror, unit) outcome" where
  "delete_bpolicy i st =
     (if find_row bp_id i (bpolicies st) = None then (st, Inl BkNotFound)
      else (st\<lparr>bpolicies := del_rows (\<lambda>p. bp_id p = i) (bpolicies st)\<rparr>, Inr ()))"

definition policy_covers :: "'a bpolicy_scheme \<Rightarrow> device \<Rightarrow> bool" where
  "policy_covers p d =
     (case bp_device p of
        Some i \<Rightarrow> i = d_id d
      | None \<Rightarrow> (case bp_group p of Some g \<Rightarrow> d_group d = Some g | None \<Rightarrow> True))"

definition specificity :: "'a bpolicy_scheme \<Rightarrow> int" where
  "specificity p = (if bp_device p \<noteq> None then 2 else if bp_group p \<noteq> None then 1 else 0)"

subsection \<open>Retention\<close>

fun retention_rule :: "device \<Rightarrow> 'a bpolicy_scheme option \<Rightarrow> 'a bpolicy_scheme list \<Rightarrow> 'a bpolicy_scheme option" where
  "retention_rule d rule [] = rule"
| "retention_rule d rule (p # ps) =
     (if bp_enabled p \<and> policy_covers p d \<and>
         (case rule of None \<Rightarrow> True | Some r \<Rightarrow> specificity p > specificity r)
      then retention_rule d (Some p) ps else retention_rule d rule ps)"

text \<open>Beyond a rule's limits: the \<open>kept\<close>-th newest backup, or one of before the rule's days.\<close>

definition beyond :: "time \<Rightarrow> 'a bpolicy_scheme \<Rightarrow> int \<Rightarrow> 'b backup_scheme \<Rightarrow> bool" where
  "beyond now r kept b \<longleftrightarrow>
     (bp_keep_count r > 0 \<and> kept > bp_keep_count r) \<or>
     (bp_keep_days r > 0 \<and> now - bk_at b > bp_keep_days r * 24 * hour)"

fun retention_drop ::
  "time \<Rightarrow> time \<Rightarrow> 'a bpolicy_scheme option \<Rightarrow> int \<Rightarrow> 'b backup_scheme list \<Rightarrow> 'b backup_scheme list" where
  "retention_drop now fk rule kept [] = []"
| "retention_drop now fk rule kept (b # bs) =
     (if bk_status b \<noteq> ''ok'' then
        (if now - bk_at b > fk then b # retention_drop now fk rule kept bs else retention_drop now fk rule kept bs)
      else if bk_locked b \<or> kept + 1 = 1 then retention_drop now fk rule (kept + 1) bs
      else (case rule of
              None \<Rightarrow> retention_drop now fk rule (kept + 1) bs
            | Some r \<Rightarrow>
                if beyond now r (kept + 1) b then b # retention_drop now fk rule (kept + 1) bs
                else retention_drop now fk rule (kept + 1) bs))"

definition apply_retention :: "'l bkenv \<Rightarrow> time \<Rightarrow> inv \<Rightarrow> int \<Rightarrow> bkdb \<Rightarrow> (bkdb, bkerror, unit) outcome" where
  "apply_retention E now I dev st =
     (case get_dev E now I dev of
        Inl e \<Rightarrow> (st, Inl (BkInventory e))
      | Inr d \<Rightarrow>
          (bk_remove (retention_drop now (bo_failed_keep (be_opt E)) (retention_rule d None (list_bpolicies E now st)) 0
                        (list_backups I st dev 1000)) st, Inr ()))"

subsection \<open>Taking a backup\<close>

definition file_path :: "'l bkenv \<Rightarrow> time \<Rightarrow> string \<Rightarrow> int \<Rightarrow> string" where
  "file_path E now rnd dev = show_int dev @ ''/'' @ be_stamp E now @ ''-'' @ rnd @ ''.conf.enc''"

definition write_file :: "'l bkenv \<Rightarrow> time \<Rightarrow> string \<Rightarrow> int \<Rightarrow> string \<Rightarrow> bkdb \<Rightarrow> (bkdb, bkerror, string) outcome" where
  "write_file E now rnd dev cfg st =
     (let rel = file_path E now rnd dev
      in case be_write E rel of
           Some e \<Rightarrow> (st, Inl (BkWrite e))
         | None \<Rightarrow> (st\<lparr>bk_files := (bk_files st)(rel \<mapsto> be_seal E cfg (file_context dev))\<rparr>, Inr rel))"

text \<open>\<open>insert_backup\<close> gives the new row its identifier; \<open>failed_row\<close> and \<open>stored_row\<close> are the two inserts.\<close>

definition insert_backup :: "(int \<Rightarrow> backup) \<Rightarrow> bkdb \<Rightarrow> bkdb" where
  "insert_backup mk st = st\<lparr>backups := backups st @ [mk (next_backup st)], next_backup := next_backup st + 1\<rparr>"

definition failed_row :: "time \<Rightarrow> string \<Rightarrow> string \<Rightarrow> device \<Rightarrow> string \<Rightarrow> int \<Rightarrow> backup" where
  "failed_row now reason actor d msg i =
     \<lparr>bk_id = i, bk_device = d_id d, bk_at = now, bk_reason = reason, bk_actor = actor, bk_status = ''failed'',
      bk_error = clip msg 500, bk_sha = [], bk_size = 0, bk_firmware = d_firmware d, bk_locked = False, bk_note = [], bk_path = []\<rparr>"

definition stored_row ::
  "'l bkenv \<Rightarrow> time \<Rightarrow> string \<Rightarrow> string \<Rightarrow> device \<Rightarrow> string \<Rightarrow> string \<Rightarrow> int \<Rightarrow> backup" where
  "stored_row E now reason actor d cfg rel i =
     \<lparr>bk_id = i, bk_device = d_id d, bk_at = now, bk_reason = reason, bk_actor = actor, bk_status = ''ok'',
      bk_error = [], bk_sha = fingerprint (be_sha E) cfg, bk_size = int (length cfg), bk_firmware = d_firmware d,
      bk_locked = False, bk_note = [], bk_path = rel\<rparr>"

definition store_backup ::
  "'l bkenv \<Rightarrow> time \<Rightarrow> string \<Rightarrow> inv \<Rightarrow> device \<Rightarrow> string \<Rightarrow> string \<Rightarrow> string \<Rightarrow> bkdb \<Rightarrow>
     (bkdb, bkerror, vbackup \<times> bool) outcome" where
  "store_backup E now rnd I d reason actor cfg st =
     (case write_file E now rnd (d_id d) cfg st of
        (st1, Inl e) \<Rightarrow> (st1, Inl e)
      | (st1, Inr rel) \<Rightarrow>
          (let st2 = insert_backup (stored_row E now reason actor d cfg rel) st1;
               st3 = fst (apply_retention E now I (d_id d) st2)
           in (st3, map_sum id (\<lambda>b. (b, False)) (get_backup I st3 (next_backup st1)))))"

definition backup_error_text :: "derror \<Rightarrow> string" where
  "backup_error_text e =
     (if is_unsupported e then ''backup is not available over the configured transports (add SSH credentials)''
      else err_text e)"

definition run_backup ::
  "'l bkenv \<Rightarrow> time \<Rightarrow> string \<Rightarrow> inv \<Rightarrow> int \<Rightarrow> string \<Rightarrow> string \<Rightarrow> bkdb \<Rightarrow> (bkdb, bkerror, vbackup \<times> bool) outcome" where
  "run_backup E now rnd I dev reason actor st =
     (case get_dev E now I dev of
        Inl InvNotFound \<Rightarrow> (st, Inl BkNotFound)
      | Inl e \<Rightarrow> (st, Inl (BkInventory e))
      | Inr d \<Rightarrow>
          if \<not> dev_operational E d then (st, Inl BkNotLicensed)
          else (case driver_backup (dev_driver E d) of
                  Inl e \<Rightarrow>
                    (insert_backup (failed_row now reason actor d (backup_error_text e)) st,
                     Inl (BkFailed (d_name d) (backup_error_text e)))
                | Inr cfg \<Rightarrow>
                    (case (if reason \<noteq> ReasonPreRestore then last_ok I st dev else None) of
                       Some b \<Rightarrow>
                         if bk_sha b = fingerprint (be_sha E) cfg then (st, Inr (b, True))
                         else store_backup E now rnd I d reason actor cfg st
                     | None \<Rightarrow> store_backup E now rnd I d reason actor cfg st)))"

subsection \<open>Due policies\<close>

text \<open>
  \<open>RunDue\<close> for one policy: the run is recorded, then every covered device with an active license
  is backed up. The backups of one policy run in parallel on different devices; the model takes
  them in the order of the list. A backup that fails is logged. \<open>rnd k\<close> is the \<open>k\<close>-th random
  draw for a file name.
\<close>

definition run_policy ::
  "'l bkenv \<Rightarrow> time \<Rightarrow> (nat \<Rightarrow> string) \<Rightarrow> nat \<Rightarrow> inv \<Rightarrow> device list \<Rightarrow> vpolicy \<Rightarrow> bkdb \<Rightarrow> bkdb" where
  "run_policy E now rnd n I ds p st =
     fold (\<lambda>(k, d) st. fst (run_backup E now (rnd k) I (d_id d) ReasonScheduled (''policy:'' @ bp_name p) st))
       (enumerate n (filter (\<lambda>d. policy_covers p d \<and> dev_operational E d) ds)) st"

definition policy_due :: "time \<Rightarrow> vpolicy \<Rightarrow> bool" where
  "policy_due now p \<longleftrightarrow> bp_enabled p \<and> (case bp_next_run p of None \<Rightarrow> False | Some t \<Rightarrow> \<not> t > now)"

fun run_due_loop ::
  "'l bkenv \<Rightarrow> time \<Rightarrow> (nat \<Rightarrow> string) \<Rightarrow> nat \<Rightarrow> inv \<Rightarrow> vpolicy list \<Rightarrow> bkdb \<Rightarrow> (bkdb, bkerror, unit) outcome" where
  "run_due_loop E now rnd n I [] st = (st, Inr ())"
| "run_due_loop E now rnd n I (p # ps) st =
     (if \<not> policy_due now p then run_due_loop E now rnd n I ps st
      else (let st1 = st\<lparr>bpolicies := upd_rows (\<lambda>r. bp_id r = bp_id p) (\<lambda>r. r\<lparr>bp_last_run := Some now\<rparr>) (bpolicies st)\<rparr>
            in case list_devices (be_lic E) (be_inv E) now (be_guard E) I None [] of
                 Inl e \<Rightarrow> (st1, Inl (BkInventory e))
               | Inr ds \<Rightarrow> run_due_loop E now rnd (n + length ds) I ps (run_policy E now rnd n I ds p st1)))"

definition run_due ::
  "'l bkenv \<Rightarrow> time \<Rightarrow> (nat \<Rightarrow> string) \<Rightarrow> inv \<Rightarrow> bkdb \<Rightarrow> (bkdb, bkerror, unit) outcome" where
  "run_due E now rnd I st = run_due_loop E now rnd 0 I (list_bpolicies E now st) st"

subsection \<open>Restores\<close>

definition rj_active :: "rjob \<Rightarrow> bool" where
  "rj_active j \<longleftrightarrow> rj_status j = ''running'' \<or> rj_status j = ''waiting''"

definition job_there :: "inv \<Rightarrow> rjob \<Rightarrow> bool" where
  "job_there I j \<longleftrightarrow> find_row d_id (rj_device j) (devices I) \<noteq> None"

definition get_restore :: "inv \<Rightarrow> bkdb \<Rightarrow> int \<Rightarrow> bkerror + rjob" where
  "get_restore I st i =
     (case find_row rj_id i (filter (job_there I) (rjobs st)) of None \<Rightarrow> Inl BkNotFound | Some j \<Rightarrow> Inr j)"

definition list_restores :: "inv \<Rightarrow> bkdb \<Rightarrow> int \<Rightarrow> rjob list" where
  "list_restores I st dev =
     take 100 (rev (sort_key rj_started
       (filter (\<lambda>j. job_there I j \<and> (dev = 0 \<or> rj_device j = dev)) (rjobs st))))"

definition set_rjob :: "int \<Rightarrow> (rjob \<Rightarrow> rjob) \<Rightarrow> bkdb \<Rightarrow> bkdb" where
  "set_rjob i f st = st\<lparr>rjobs := upd_rows (\<lambda>j. rj_id j = i) f (rjobs st)\<rparr>"

definition finish_restore :: "time \<Rightarrow> int \<Rightarrow> string \<Rightarrow> string \<Rightarrow> bkdb \<Rightarrow> bkdb" where
  "finish_restore now i status msg =
     set_rjob i (\<lambda>j. j\<lparr>rj_status := status, rj_error := clip msg 500, rj_finished := Some now\<rparr>)"

definition new_rjob :: "time \<Rightarrow> int \<Rightarrow> int \<Rightarrow> string \<Rightarrow> int \<Rightarrow> rjob" where
  "new_rjob now dev b actor i =
     \<lparr>rj_id = i, rj_device = dev, rj_backup = b, rj_pre = None, rj_actor = actor, rj_status = ''running'',
      rj_error = [], rj_started = now, rj_finished = None\<rparr>"

text \<open>The insert, with the unique index on the active jobs of a device.\<close>

definition insert_rjob :: "time \<Rightarrow> int \<Rightarrow> int \<Rightarrow> string \<Rightarrow> bkdb \<Rightarrow> (bkdb, bkerror, int) outcome" where
  "insert_rjob now dev b actor st =
     (if list_ex (\<lambda>j. rj_device j = dev \<and> rj_active j) (rjobs st) then (st, Inl BkRestoreRunning)
      else (st\<lparr>rjobs := rjobs st @ [new_rjob now dev b actor (next_rjob st)], next_rjob := next_rjob st + 1\<rparr>,
            Inr (next_rjob st)))"

text \<open>What the answer to \<open>RestoreConfig\<close> does to the job.\<close>

definition restore_sent :: "time \<Rightarrow> int \<Rightarrow> derror option \<Rightarrow> bkdb \<Rightarrow> bkdb" where
  "restore_sent now i answer st =
     (case answer of
        Some e \<Rightarrow>
          if is_unsupported e then finish_restore now i ''failed'' ''restore needs REST API access to the device'' st
          else if err_exists is_http e then finish_restore now i ''failed'' (err_text e) st
          else set_rjob i (\<lambda>j. j\<lparr>rj_status := ''waiting''\<rparr>) st
      | None \<Rightarrow> set_rjob i (\<lambda>j. j\<lparr>rj_status := ''waiting''\<rparr>) st)"

definition restore_job ::
  "'l bkenv \<Rightarrow> time \<Rightarrow> string \<Rightarrow> inv \<Rightarrow> device \<Rightarrow> string \<Rightarrow> string \<Rightarrow> int \<Rightarrow> bkdb \<Rightarrow> (bkdb, bkerror, rjob) outcome" where
  "restore_job E now rnd I d cfg actor i st =
     (case run_backup E now rnd I (d_id d) ReasonPreRestore actor st of
        (st1, Inl e) \<Rightarrow>
          (let st2 = finish_restore now i ''failed'' (''safety backup before restore failed: '' @ bkerror_text e) st1
           in (st2, get_restore I st2 i))
      | (st1, Inr (pre, _)) \<Rightarrow>
          (let st2 = set_rjob i (\<lambda>j. j\<lparr>rj_pre := Some (bk_id pre)\<rparr>) st1;
               st3 = restore_sent now i (driver_restore (dev_driver E d) cfg) st2
           in (st3, get_restore I st3 i)))"

definition restore ::
  "'l bkenv \<Rightarrow> time \<Rightarrow> string \<Rightarrow> inv \<Rightarrow> int \<Rightarrow> string \<Rightarrow> bkdb \<Rightarrow> (bkdb, bkerror, rjob) outcome" where
  "restore E now rnd I b actor st =
     (case bk_content E I st b of
        Inl e \<Rightarrow> (st, Inl e)
      | Inr (cfg, v) \<Rightarrow>
          (case get_dev E now I (bk_device v) of
             Inl e \<Rightarrow> (st, Inl (BkInventory e))
           | Inr d \<Rightarrow>
               if \<not> dev_operational E d then (st, Inl BkNotLicensed)
               else (case insert_rjob now (d_id d) b actor st of
                       (st1, Inl e) \<Rightarrow> (st1, Inl e)
                     | (st1, Inr i) \<Rightarrow> restore_job E now rnd I d cfg actor i st1)))"

text \<open>
  \<open>watch\<close>: each round of the loop probes the device, with the transports as they answer then, and
  takes some time; \<open>None\<close> stands for the rounds that are still to come.
\<close>

definition watch_error :: "'l bkenv \<Rightarrow> ierror option \<Rightarrow> string" where
  "watch_error E last_err =
     ''device did not come back within '' @ be_duration E (bo_reboot_limit (be_opt E)) @ '': '' @
     (case last_err of None \<Rightarrow> ''<nil>'' | Some e \<Rightarrow> ierror_text e)"

fun watch_loop ::
  "'l bkenv \<Rightarrow> time \<Rightarrow> time \<Rightarrow> int \<Rightarrow> ierror option \<Rightarrow> (invenv \<times> time) list \<Rightarrow> inv \<Rightarrow> (inv \<times> time \<times> string \<times> string) option" where
  "watch_loop E deadline t dev last_err [] I =
     (if t < deadline then None
      else Some (I, t, ''failed'', watch_error E last_err))"
| "watch_loop E deadline t dev last_err ((V, took) # rounds) I =
     (if t < deadline then
        (case probe (be_lic E) V t (be_guard E) dev I of
           (I1, Inr d) \<Rightarrow> Some (I1, t + took, ''succeeded'', [])
         | (I1, Inl e) \<Rightarrow>
             watch_loop E deadline (t + took + bo_reboot_poll (be_opt E)) dev (Some e) rounds I1)
      else Some (I, t, ''failed'', watch_error E last_err))"

definition watch ::
  "'l bkenv \<Rightarrow> time \<Rightarrow> int \<Rightarrow> int \<Rightarrow> (invenv \<times> time) list \<Rightarrow> inv \<times> bkdb \<Rightarrow> (inv \<times> bkdb) option" where
  "watch E t0 i dev rounds S =
     (case watch_loop E (t0 + bo_reboot_limit (be_opt E)) (t0 + bo_reboot_wait (be_opt E)) dev None rounds (fst S) of
        None \<Rightarrow> None
      | Some (I, t, status, msg) \<Rightarrow> Some (I, finish_restore t i status msg (snd S)))"

definition recover_jobs :: "time \<Rightarrow> bkdb \<Rightarrow> bkdb" where
  "recover_jobs now st =
     st\<lparr>rjobs := upd_rows rj_active
         (\<lambda>j. j\<lparr>rj_status := ''failed'', rj_error := ''interrupted by a TaktaPlus restart; check the device'',
               rj_finished := Some now\<rparr>) (rjobs st)\<rparr>"

subsection \<open>What retention removes\<close>

text \<open>
  The specification: the policy that governs a device is the first of the most specific ones that
  are enabled and cover it; a backup's rank is its place among the good backups of its device,
  newest first.
\<close>

definition applies :: "device \<Rightarrow> 'a bpolicy_scheme \<Rightarrow> bool" where
  "applies d p \<longleftrightarrow> bp_enabled p \<and> policy_covers p d"

definition governing :: "device \<Rightarrow> 'a bpolicy_scheme list \<Rightarrow> 'a bpolicy_scheme option" where
  "governing d ps =
     List.find (\<lambda>p. applies d p \<and> list_all (\<lambda>q. applies d q \<longrightarrow> specificity q \<le> specificity p) ps) ps"

definition bk_key :: "'a backup_scheme \<Rightarrow> int \<times> int" where "bk_key b = (- bk_at b, - bk_id b)"

definition rank :: "'a backup_scheme list \<Rightarrow> 'a backup_scheme \<Rightarrow> int" where
  "rank B b = int (count_rows (\<lambda>x. bk_status x = ''ok'' \<and> bk_key x \<le> bk_key b) B)"

definition outdated ::
  "time \<Rightarrow> time \<Rightarrow> 'a bpolicy_scheme option \<Rightarrow> 'b backup_scheme list \<Rightarrow> 'b backup_scheme \<Rightarrow> bool" where
  "outdated now fk rule B b \<longleftrightarrow>
     (if bk_status b \<noteq> ''ok'' then now - bk_at b > fk
      else \<not> bk_locked b \<and> rank B b \<noteq> 1 \<and> (case rule of None \<Rightarrow> False | Some r \<Rightarrow> beyond now r (rank B b) b))"

definition better :: "device \<Rightarrow> 'a bpolicy_scheme \<Rightarrow> 'a bpolicy_scheme \<Rightarrow> bool" where
  "better d r p \<longleftrightarrow> applies d p \<and> specificity p > specificity r"

lemma governing_take: "applies d p \<Longrightarrow> \<not> list_ex (better d p) ps \<Longrightarrow> governing d (p # ps) = Some p"
  by (auto simp: governing_def better_def list_all_iff list_ex_iff not_less)

lemma governing_skip:
  assumes "\<not> applies d p \<or> list_ex (better d p) ps"
  shows "governing d (p # ps) = governing d ps"
proof -
  let ?top = "\<lambda>ps p. applies d p \<and> list_all (\<lambda>q. applies d q \<longrightarrow> specificity q \<le> specificity p) ps"
  have no: "\<not> ?top (p # ps) p" using assms by (auto simp: list_ex_iff list_all_iff better_def not_le)
  have "?top (p # ps) = ?top ps"
    using assms by (fastforce simp: fun_eq_iff list_ex_iff list_all_iff better_def)
  then have "List.find (?top (p # ps)) ps = List.find (?top ps) ps" by (rule arg_cong)
  with no show ?thesis unfolding governing_def find.simps by argo
qed

lemma retention_rule_Cons:
  "retention_rule d (Some r) (p # ps) = retention_rule d (Some (if better d r p then p else r)) ps"
  "retention_rule d None (p # ps) = retention_rule d (if applies d p then Some p else None) ps"
  by (auto simp: better_def applies_def)

lemma retention_rule_better:
  "retention_rule d (Some r) ps = (if list_ex (better d r) ps then governing d ps else Some r)"
proof (induction ps arbitrary: r)
  case (Cons p ps)
  show ?case
  proof (cases "better d r p")
    case True
    then have "applies d p" by (simp add: better_def)
    with True Cons.IH [of p] show ?thesis
      by (simp add: retention_rule_Cons governing_take governing_skip del: retention_rule.simps)
  next
    case False
    have "governing d (p # ps) = governing d ps" if "list_ex (better d r) ps"
      by (rule governing_skip) (use that False in \<open>fastforce simp: list_ex_iff better_def\<close>)
    with False Cons.IH [of r] show ?thesis by (simp add: retention_rule_Cons del: retention_rule.simps)
  qed
qed simp

lemma retention_rule_governing: "retention_rule d None ps = governing d ps"
proof (induction ps)
  case (Cons p ps)
  show ?case
  proof (cases "applies d p")
    case True
    then show ?thesis
      by (simp add: retention_rule_Cons retention_rule_better governing_take governing_skip del: retention_rule.simps)
  next
    case False
    with Cons show ?thesis by (simp add: retention_rule_Cons governing_skip del: retention_rule.simps)
  qed
qed (simp add: governing_def)

text \<open>The loop counts the rank.\<close>

lemma rank_at:
  assumes "sorted_wrt (\<lambda>x y. bk_key x < bk_key y) (pre @ b # suf)" and "bk_status b = ''ok''"
  shows "rank (pre @ b # suf) b = int (count_rows (\<lambda>x. bk_status x = ''ok'') pre) + 1"
proof -
  have pre: "\<forall>x\<in>set pre. bk_key x < bk_key b" and suf: "\<forall>x\<in>set suf. bk_key b < bk_key x"
    using assms(1) by (auto simp: sorted_wrt_append)
  have "count_rows (\<lambda>x. bk_status x = ''ok'' \<and> bk_key x \<le> bk_key b) pre = count_rows (\<lambda>x. bk_status x = ''ok'') pre"
    unfolding count_rows_def by (rule arg_cong [where f = length], rule filter_cong) (use pre in auto)
  moreover have "count_rows (\<lambda>x. bk_status x = ''ok'' \<and> bk_key x \<le> bk_key b) suf = 0"
    using suf by (auto simp: count_rows_0)
  ultimately show ?thesis using assms(2) by (simp add: rank_def count_rows_append count_rows_Cons)
qed

lemma retention_drop_from:
  "sorted_wrt (\<lambda>x y. bk_key x < bk_key y) (pre @ suf) \<Longrightarrow>
     retention_drop now fk rule (int (count_rows (\<lambda>x. bk_status x = ''ok'') pre)) suf =
       filter (outdated now fk rule (pre @ suf)) suf"
proof (induction suf arbitrary: pre)
  case (Cons b suf)
  have IH: "retention_drop now fk rule (int (count_rows (\<lambda>x. bk_status x = ''ok'') (pre @ [b]))) suf =
              filter (outdated now fk rule (pre @ b # suf)) suf"
    using Cons.IH [of "pre @ [b]"] Cons.prems by simp
  show ?case
  proof (cases "bk_status b = ''ok''")
    case True
    with rank_at [OF Cons.prems] IH show ?thesis
      by (auto simp: outdated_def [of now fk rule "pre @ b # suf" b] count_rows_append count_rows_Cons add.commute split: option.splits)
  next
    case False
    with IH show ?thesis
      by (simp add: outdated_def [of now fk rule "pre @ b # suf" b] count_rows_append count_rows_Cons)
  qed
qed simp

lemma newest_first_strict:
  assumes "distinct (map bk_id B)"
  shows "sorted_wrt (\<lambda>x y. bk_key x < bk_key y) (newest_first B)"
proof -
  have "sorted (map bk_key (newest_first B))"
    using sorted_sort_key [of bk_key B] by (simp add: newest_first_def bk_key_def [abs_def])
  moreover have "distinct (map bk_key (newest_first B))"
  proof -
    have "distinct B" and "inj_on bk_id (set B)" using assms by (simp_all add: distinct_map)
    then have "distinct (newest_first B)" and "inj_on bk_key (set (newest_first B))"
      by (auto simp: newest_first_def bk_key_def inj_on_def)
    then show ?thesis by (simp add: distinct_map)
  qed
  ultimately have "sorted_wrt (<) (map bk_key (newest_first B))" by (simp add: strict_sorted_iff)
  then show ?thesis by (simp add: sorted_wrt_map)
qed

lemma rank_newest_first: "rank (newest_first B) b = rank B b"
proof -
  have "size (filter_mset P (mset (newest_first B))) = size (filter_mset P (mset B))" for P
    by (simp only: newest_first_def mset_sort)
  then have "length (filter P (newest_first B)) = length (filter P B)" for P
    by (simp only: mset_filter [symmetric] size_mset)
  then show ?thesis unfolding rank_def count_rows_def by simp
qed

lemma outdated_newest_first: "outdated now fk rule (newest_first B) = outdated now fk rule B"
  unfolding outdated_def [abs_def] rank_newest_first ..

lemma retention_drop_outdated:
  assumes "distinct (map bk_id B)"
  shows "retention_drop now fk rule 0 (newest_first B) = filter (outdated now fk rule B) (newest_first B)"
  using retention_drop_from [of "[]" "newest_first B" now fk rule] newest_first_strict [OF assms]
  by (simp add: outdated_newest_first)

lemma backups_remove: "backups (bk_remove bs st) = del_rows (\<lambda>b. bk_id b \<in> bk_id ` set bs) (backups st)"
proof (induction bs arbitrary: st)
  case (Cons b bs)
  then show ?case by (simp add: Let_def drop_backup_def del_rows_def)
qed (simp add: del_rows_def)

abbreviation named :: "string \<Rightarrow> backup \<Rightarrow> vbackup" where
  "named n b \<equiv> backup.extend b \<lparr>bk_device_name = n\<rparr>"

lemma named_fields [simp]:
  "bk_id (named n b) = bk_id b" "bk_device (named n b) = bk_device b" "bk_at (named n b) = bk_at b"
  "bk_status (named n b) = bk_status b" "bk_locked (named n b) = bk_locked b" "bk_path (named n b) = bk_path b"
  "bk_sha (named n b) = bk_sha b" "bk_size (named n b) = bk_size b" "bk_reason (named n b) = bk_reason b"
  by (simp_all add: backup.defs)

lemma outdated_named: "outdated now fk rule (map (named n) B) (named n b) = outdated now fk rule B b"
proof -
  have "rank (map (named n) B) (named n b) = rank B b"
    by (simp add: rank_def count_rows_def filter_map o_def bk_key_def)
  then show ?thesis by (cases rule) (simp_all add: outdated_def beyond_def)
qed

lemma get_dev_row: "get_dev E now I dev = Inr d \<Longrightarrow> \<exists>r. find_row d_id dev (devices I) = Some r \<and> d_id d = dev"
  by (auto simp: get_dev_def get_device_def scan_def drow.defs split: option.splits sum.splits dest!: find_row_Some)

lemma scan_all:
  assumes "find_row d_id dev (devices I) = Some r"
  shows "List.map_filter (scan_backup I) (filter (\<lambda>b. bk_device b = dev \<and> P b) B) =
           map (named (d_name r)) (filter (\<lambda>b. bk_device b = dev \<and> P b) B)"
  using assms by (induction B) (auto simp: List.map_filter_def scan_backup_def)

lemma map_id_named: "map (\<lambda>b. bk_id (named n b)) B = map bk_id B"
  by simp


subsection \<open>The tables and the files\<close>

text \<open>
  Deleting a device deletes its backups, jobs and policies (\<open>ON DELETE CASCADE\<close>); the files stay.
\<close>

definition forget_device :: "int \<Rightarrow> bkdb \<Rightarrow> bkdb" where
  "forget_device dev st =
     (let ids = map bk_id (filter (\<lambda>b. bk_device b = dev) (backups st))
      in st\<lparr>backups := del_rows (\<lambda>b. bk_device b = dev) (backups st),
            bpolicies := del_rows (\<lambda>p. bp_device p = Some dev) (bpolicies st),
            rjobs := upd_rows (\<lambda>j. rj_pre j \<in> Some ` set ids) (\<lambda>j. j\<lparr>rj_pre := None\<rparr>)
                       (del_rows (\<lambda>j. rj_device j = dev \<or> rj_backup j \<in> set ids) (rjobs st))\<rparr>)"

definition stored_ok :: "'l bkenv \<Rightarrow> (string \<rightharpoonup> string) \<Rightarrow> backup \<Rightarrow> bool" where
  "stored_ok E files b \<longleftrightarrow>
     (if bk_status b = ''ok''
      then bk_path b \<noteq> [] \<and>
           (\<exists>sealed cfg. files (bk_path b) = Some sealed \<and> be_open E sealed (file_context (bk_device b)) = Inr cfg \<and>
              bk_sha b = fingerprint (be_sha E) cfg \<and> bk_size b = int (length cfg))
      else bk_path b = [])"

lemma stored_okD: "stored_ok E files b \<Longrightarrow> bk_status b = ''ok'' \<Longrightarrow> bk_path b \<noteq> [] \<and> files (bk_path b) \<noteq> None"
  by (auto simp: stored_ok_def)

definition files_ok :: "'l bkenv \<Rightarrow> bkdb \<Rightarrow> bool" where
  "files_ok E st \<longleftrightarrow>
     distinct (map bk_id (backups st)) \<and> (\<forall>b\<in>set (backups st). bk_id b < next_backup st) \<and>
     (\<forall>b\<in>set (backups st). stored_ok E (bk_files st) b) \<and> unique_on bk_id bk_path (\<lambda>p. p \<noteq> []) (backups st)"

lemma files_okD:
  assumes "files_ok E st"
  shows "distinct (map bk_id (backups st))" "\<And>b. b \<in> set (backups st) \<Longrightarrow> bk_id b < next_backup st"
    "\<And>b. b \<in> set (backups st) \<Longrightarrow> stored_ok E (bk_files st) b" "unique_on bk_id bk_path (\<lambda>p. p \<noteq> []) (backups st)"
  using assms unfolding files_ok_def by blast+

lemma files_okI:
  assumes "distinct (map bk_id (backups st))" "\<And>b. b \<in> set (backups st) \<Longrightarrow> bk_id b < next_backup st"
    "\<And>b. b \<in> set (backups st) \<Longrightarrow> stored_ok E (bk_files st) b" "unique_on bk_id bk_path (\<lambda>p. p \<noteq> []) (backups st)"
  shows "files_ok E st"
  using assms unfolding files_ok_def by blast

lemma files_ok_cong:
  "files_ok E st \<Longrightarrow> backups st' = backups st \<Longrightarrow> bk_files st' = bk_files st \<Longrightarrow> next_backup st' = next_backup st \<Longrightarrow>
     files_ok E st'"
  unfolding files_ok_def by simp

lemma files_ok_fewer:
  assumes ok: "files_ok E st" and "backups st' = filter P (backups st)" "next_backup st' = next_backup st"
    and same: "\<And>b. b \<in> set (backups st') \<Longrightarrow> bk_status b = ''ok'' \<Longrightarrow> bk_files st' (bk_path b) = bk_files st (bk_path b)"
  shows "files_ok E st'"
proof (rule files_okI)
  note d = files_okD [OF ok]
  show "distinct (map bk_id (backups st'))" using d(1) assms(2) by (simp add: distinct_map_filter)
  show "unique_on bk_id bk_path (\<lambda>p. p \<noteq> []) (backups st')"
    by (rule unique_on_subset [OF d(4)]) (use assms(2) in auto)
  fix b assume b: "b \<in> set (backups st')"
  with assms(2) have in_st: "b \<in> set (backups st)" by auto
  with d(2) assms(3) show "bk_id b < next_backup st'" by simp
  from d(3) [OF in_st] same [OF b] show "stored_ok E (bk_files st') b"
    by (cases "bk_status b = ''ok''") (simp_all add: stored_ok_def)
qed

lemma drop_backup_simps [simp]:
  "backups (drop_backup i st) = filter (\<lambda>b. bk_id b \<noteq> i) (backups st)" "bk_files (drop_backup i st) = bk_files st"
  "next_backup (drop_backup i st) = next_backup st" "next_rjob (drop_backup i st) = next_rjob st"
  "bpolicies (drop_backup i st) = bpolicies st"
  by (simp_all add: drop_backup_def del_rows_def)

lemma remove_simps [simp]:
  "next_backup (bk_remove bs st) = next_backup st" "next_rjob (bk_remove bs st) = next_rjob st"
  "bpolicies (bk_remove bs st) = bpolicies st"
  by (induction bs arbitrary: st) (simp_all add: Let_def)

text \<open>Removing backups leaves the file of every backup that stays.\<close>

lemma remove_keeps_file:
  assumes "r \<in> set (backups (bk_remove bs st))"
    and "\<And>b. b \<in> set bs \<Longrightarrow> bk_path r = bk_path b \<Longrightarrow> bk_id r = bk_id b"
  shows "bk_files (bk_remove bs st) (bk_path r) = bk_files st (bk_path r)"
  using assms
proof (induction bs arbitrary: st)
  case (Cons b bs)
  let ?st1 = "drop_backup (bk_id b) st"
  let ?st2 = "if bk_path b \<noteq> [] then ?st1\<lparr>bk_files := (bk_files ?st1)(bk_path b := None)\<rparr> else ?st1"
  from Cons.prems(1) [unfolded backups_remove] have "bk_id r \<noteq> bk_id b" by simp
  with Cons.prems(2) [of b] have "bk_path r \<noteq> bk_path b" by auto
  then have "bk_files ?st2 (bk_path r) = bk_files st (bk_path r)" by simp
  moreover have "bk_files (bk_remove bs ?st2) (bk_path r) = bk_files ?st2 (bk_path r)"
    using Cons.prems by (intro Cons.IH) (auto simp: Let_def)
  ultimately show ?case by (simp only: bk_remove.simps Let_def)
qed simp

lemma scan_backup_SomeD: "scan_backup I b = Some v \<Longrightarrow> \<exists>n. v = named n b"
  by (auto simp: scan_backup_def)

lemma set_map_filter: "v \<in> set (List.map_filter f xs) \<longleftrightarrow> (\<exists>x\<in>set xs. f x = Some v)"
  by (induction xs) (auto simp: List.map_filter_def split: option.splits)

lemma list_backups_in:
  assumes "v \<in> set (list_backups I st dev n)"
  shows "\<exists>b\<in>set (backups st). \<exists>nm. v = named nm b"
proof -
  from assms have "v \<in> set (List.map_filter (scan_backup I) (filter (\<lambda>b. dev = 0 \<or> bk_device b = dev) (backups st)))"
    unfolding list_backups_def newest_first_def Let_def by (blast dest: in_set_takeD intro: set_sort [THEN equalityD1, THEN subsetD])
  then show ?thesis by (auto simp: set_map_filter dest!: scan_backup_SomeD)
qed

lemma retention_drop_in: "set (retention_drop now fk rule k bs) \<subseteq> set bs"
proof (induction bs arbitrary: k)
  case (Cons b bs)
  have "set (retention_drop now fk rule k bs) \<subseteq> set (b # bs)" "set (retention_drop now fk rule (k + 1) bs) \<subseteq> set (b # bs)"
    using Cons.IH by fastforce+
  then show ?case by (auto split: option.split)
qed simp

lemma remove_listed_file:
  assumes ok: "files_ok E st" and bs: "\<And>v. v \<in> set bs \<Longrightarrow> \<exists>b\<in>set (backups st). \<exists>nm. v = named nm b"
    and r: "r \<in> set (backups (bk_remove bs st))" "bk_status r = ''ok''"
  shows "bk_files (bk_remove bs st) (bk_path r) = bk_files st (bk_path r)"
proof (rule remove_keeps_file [OF r(1)])
  from r(1) have in_st: "r \<in> set (backups st)" by (simp add: backups_remove)
  with files_okD(3) [OF ok] r(2) have "bk_path r \<noteq> []" by (auto simp: stored_ok_def)
  fix v assume "v \<in> set bs" "bk_path r = bk_path v"
  moreover from bs [OF this(1)] obtain b nm where "b \<in> set (backups st)" "v = named nm b" by blast
  ultimately show "bk_id r = bk_id v"
    using unique_onD [OF files_okD(4) [OF ok], of r b] in_st \<open>bk_path r \<noteq> []\<close> by simp
qed

lemma remove_listed_ok:
  assumes ok: "files_ok E st" and bs: "\<And>v. v \<in> set bs \<Longrightarrow> \<exists>b\<in>set (backups st). \<exists>nm. v = named nm b"
  shows "files_ok E (bk_remove bs st)"
  by (rule files_ok_fewer [OF ok backups_remove [unfolded del_rows_def]])
    (use remove_listed_file [OF ok bs] in simp_all)

text \<open>Retention is such a removal, or does nothing.\<close>

lemma retention_cases:
  "\<exists>bs. fst (apply_retention E now I dev st) = bk_remove bs st \<and>
     (\<forall>v\<in>set bs. \<exists>b\<in>set (backups st). \<exists>nm. v = named nm b)"
proof (cases "get_dev E now I dev")
  case (Inl e)
  then show ?thesis by (auto simp: apply_retention_def intro!: exI [of _ "[]"])
next
  case (Inr d)
  have "\<exists>b\<in>set (backups st). \<exists>nm. v = named nm b"
    if "v \<in> set (retention_drop now fk rule k (list_backups I st dev n))" for v fk and rule :: "vpolicy option" and k n
    by (rule list_backups_in) (rule subsetD [OF retention_drop_in that])
  with Inr show ?thesis unfolding apply_retention_def by (simp only: sum.case fst_conv) blast
qed

lemma apply_retention_ok: "files_ok E st \<Longrightarrow> files_ok E (fst (apply_retention E now I dev st))"
  by (metis retention_cases remove_listed_ok)

lemma get_backup_in: "get_backup I st i = Inr v \<Longrightarrow> \<exists>b\<in>set (backups st). \<exists>nm. v = named nm b \<and> bk_id b = i"
  by (auto simp: get_backup_def split: option.splits dest!: scan_backup_SomeD dest: find_row_Some)

lemma delete_files_ok:
  assumes "files_ok E st"
  shows "files_ok E (fst (delete_backup I i st))"
proof (cases "get_backup I st i")
  case (Inl e)
  with assms show ?thesis by (simp add: delete_backup_def)
next
  case (Inr v)
  from get_backup_in [OF this] have "files_ok E (bk_remove [v] st)"
    by (intro remove_listed_ok [OF assms]) auto
  with Inr assms show ?thesis by (simp add: delete_backup_def)
qed

definition opens_sealed :: "'l bkenv \<Rightarrow> bool" where
  "opens_sealed E \<longleftrightarrow> (\<forall>x c. be_open E (be_seal E x c) c = Inr x)"

definition fresh_name :: "'l bkenv \<Rightarrow> time \<Rightarrow> string \<Rightarrow> bkdb \<Rightarrow> bool" where
  "fresh_name E now rnd st \<longleftrightarrow> (\<forall>dev. bk_files st (file_path E now rnd dev) = None)"

lemma insert_files_ok:
  assumes ok: "files_ok E st" and row: "\<And>i. bk_id (mk i) = i" "stored_ok E (bk_files st) (mk (next_backup st))"
    and new: "\<And>b. b \<in> set (backups st) \<Longrightarrow> bk_path (mk (next_backup st)) \<noteq> [] \<Longrightarrow> bk_path b \<noteq> bk_path (mk (next_backup st))"
  shows "files_ok E (insert_backup mk st)"
proof (rule files_okI)
  note d = files_okD [OF ok]
  have "next_backup st \<notin> bk_id ` set (backups st)" using d(2) by force
  with d(1) show "distinct (map bk_id (backups (insert_backup mk st)))" by (auto simp: insert_backup_def row(1))
  show "unique_on bk_id bk_path (\<lambda>p. p \<noteq> []) (backups (insert_backup mk st))"
    using unique_on_snoc [OF d(4), of "mk (next_backup st)"] new by (simp add: insert_backup_def)
  fix b assume "b \<in> set (backups (insert_backup mk st))"
  then consider "b \<in> set (backups st)" | "b = mk (next_backup st)" by (auto simp: insert_backup_def)
  then show "bk_id b < next_backup (insert_backup mk st)" "stored_ok E (bk_files (insert_backup mk st)) b"
    using d(2) [of b] d(3) [of b] row by (cases; simp add: insert_backup_def)+
qed

text \<open>A new file does not touch the stored ones.\<close>

lemma new_file_ok:
  assumes ok: "files_ok E st" and new: "bk_files st rel = None"
  shows "files_ok E (st\<lparr>bk_files := (bk_files st)(rel \<mapsto> x)\<rparr>)"
    and "\<And>b. b \<in> set (backups st) \<Longrightarrow> bk_status b = ''ok'' \<Longrightarrow> bk_path b \<noteq> rel"
proof -
  show ne: "\<And>b. b \<in> set (backups st) \<Longrightarrow> bk_status b = ''ok'' \<Longrightarrow> bk_path b \<noteq> rel"
    using stored_okD [OF files_okD(3) [OF ok]] new by fastforce
  show "files_ok E (st\<lparr>bk_files := (bk_files st)(rel \<mapsto> x)\<rparr>)"
    by (rule files_ok_fewer [OF ok, where P = "\<lambda>b. True"]) (use ne in auto)
qed

lemma store_insert_ok:
  assumes ok: "files_ok E st" and opens: "opens_sealed E" and new: "fresh_name E now rnd st"
  shows "files_ok E (insert_backup (stored_row E now reason actor d cfg (file_path E now rnd (d_id d)))
           (st\<lparr>bk_files := (bk_files st)(file_path E now rnd (d_id d) \<mapsto> be_seal E cfg (file_context (d_id d)))\<rparr>))"
proof (rule insert_files_ok)
  let ?rel = "file_path E now rnd (d_id d)"
  have new': "bk_files st ?rel = None" using new by (simp add: fresh_name_def)
  show "files_ok E (st\<lparr>bk_files := (bk_files st)(?rel \<mapsto> be_seal E cfg (file_context (d_id d)))\<rparr>)"
    by (rule new_file_ok(1) [OF ok new'])
  fix b assume "b \<in> set (backups (st\<lparr>bk_files := (bk_files st)(?rel \<mapsto> be_seal E cfg (file_context (d_id d)))\<rparr>))"
  then show "bk_path b \<noteq> bk_path (stored_row E now reason actor d cfg ?rel
      (next_backup (st\<lparr>bk_files := (bk_files st)(?rel \<mapsto> be_seal E cfg (file_context (d_id d)))\<rparr>)))"
    using files_okD(3) [OF ok, of b] new_file_ok(2) [OF ok new', of b]
    by (cases "bk_status b = ''ok''") (auto simp: stored_ok_def stored_row_def file_path_def)
qed (use opens in \<open>simp_all add: stored_row_def stored_ok_def opens_sealed_def, simp add: file_path_def\<close>)

lemma store_files_ok:
  assumes "files_ok E st" "opens_sealed E" "fresh_name E now rnd st"
  shows "files_ok E (fst (store_backup E now rnd I d reason actor cfg st))"
  using store_insert_ok [OF assms, THEN apply_retention_ok] assms(1)
  by (simp add: store_backup_def write_file_def Let_def split: option.split)

lemma failed_files_ok: "files_ok E st \<Longrightarrow> files_ok E (insert_backup (failed_row now reason actor d msg) st)"
  by (rule insert_files_ok) (auto simp: failed_row_def stored_ok_def)

text \<open>What a run does to the state: nothing, a failed row, or a stored backup.\<close>

lemma run_backup_cases:
  obtains (same) "fst (run_backup E now rnd I dev reason actor st) = st"
  | (failed) d msg where "d_id d = dev"
      "run_backup E now rnd I dev reason actor st =
         (insert_backup (failed_row now reason actor d msg) st, Inl (BkFailed (d_name d) msg))"
  | (stored) d cfg where "get_dev E now I dev = Inr d" "d_id d = dev" "driver_backup (dev_driver E d) = Inr cfg"
      "run_backup E now rnd I dev reason actor st = store_backup E now rnd I d reason actor cfg st"
proof (cases "get_dev E now I dev")
  case (Inl e)
  then show ?thesis using same by (cases e) (simp_all add: run_backup_def)
next
  case (Inr d)
  with get_dev_row have i: "d_id d = dev" by blast
  note g = Inr
  show ?thesis
  proof (cases "dev_operational E d")
    case True
    show ?thesis
    proof (cases "driver_backup (dev_driver E d)")
      case (Inl e)
      then show ?thesis using failed [OF i, of "backup_error_text e"] g True by (simp add: run_backup_def)
    next
      case (Inr cfg)
      let ?b = "if reason \<noteq> ReasonPreRestore then last_ok I st dev else None"
      show ?thesis
      proof (cases "\<exists>b. ?b = Some b \<and> bk_sha b = fingerprint (be_sha E) cfg")
        case True
        then obtain b where "?b = Some b" "bk_sha b = fingerprint (be_sha E) cfg" by blast
        then have "fst (run_backup E now rnd I dev reason actor st) = st"
          by (simp add: run_backup_def g \<open>dev_operational E d\<close> Inr)
        then show ?thesis by (rule same)
      next
        case False
        then have "run_backup E now rnd I dev reason actor st = store_backup E now rnd I d reason actor cfg st"
          by (cases ?b) (simp_all add: run_backup_def g \<open>dev_operational E d\<close> Inr)
        then show ?thesis by (rule stored [OF g i Inr])
      qed
    qed
  qed (use same Inr in \<open>simp add: run_backup_def\<close>)
qed

lemma run_files_ok:
  assumes "files_ok E st" "opens_sealed E" "fresh_name E now rnd st"
  shows "files_ok E (fst (run_backup E now rnd I dev reason actor st))"
proof (cases rule: run_backup_cases [of E now rnd I dev reason actor st])
  case same
  with assms show ?thesis by simp
next
  case failed
  with assms show ?thesis by (simp add: failed_files_ok)
next
  case (stored d cfg)
  with store_files_ok [OF assms] show ?thesis by simp
qed

text \<open>A run adds at most its own file.\<close>

lemma remove_no_file: "bk_files st q = None \<Longrightarrow> bk_files (bk_remove bs st) q = None"
  by (induction bs arbitrary: st) (simp_all add: Let_def)

lemma retention_no_file: "bk_files st q = None \<Longrightarrow> bk_files (fst (apply_retention E now I dev st)) q = None"
  by (metis retention_cases remove_no_file)

lemma run_no_file:
  assumes none: "bk_files st q = None" and q: "q \<noteq> file_path E now rnd dev"
  shows "bk_files (fst (run_backup E now rnd I dev reason actor st)) q = None"
proof (cases rule: run_backup_cases [of E now rnd I dev reason actor st])
  case (stored d cfg)
  with none q show ?thesis
    by (simp add: store_backup_def write_file_def Let_def insert_backup_def retention_no_file split: option.split)
qed (use none in \<open>simp_all add: insert_backup_def\<close>)

text \<open>The draws of one call of \<open>RunDue\<close> from the \<open>n\<close>-th on give names that are not in use.\<close>

definition fresh_draws :: "'l bkenv \<Rightarrow> time \<Rightarrow> (nat \<Rightarrow> string) \<Rightarrow> nat \<Rightarrow> bkdb \<Rightarrow> bool" where
  "fresh_draws E now rnd n st \<longleftrightarrow>
     (\<forall>k\<ge>n. fresh_name E now (rnd k) st) \<and>
     (\<forall>k m d e. file_path E now (rnd k) d = file_path E now (rnd m) e \<longrightarrow> k = m)"

lemma fold_runs_ok:
  assumes "files_ok E st" "opens_sealed E" "fresh_draws E now rnd n st"
  shows "files_ok E (fold (\<lambda>(k, d) st. fst (run_backup E now (rnd k) I (d_id d) reason actor st)) (enumerate n ds) st) \<and>
         fresh_draws E now rnd (n + length ds)
           (fold (\<lambda>(k, d) st. fst (run_backup E now (rnd k) I (d_id d) reason actor st)) (enumerate n ds) st)"
  using assms
proof (induction ds arbitrary: n st)
  case (Cons d ds)
  let ?st1 = "fst (run_backup E now (rnd n) I (d_id d) reason actor st)"
  from Cons.prems have "files_ok E ?st1" by (intro run_files_ok) (simp_all add: fresh_draws_def)
  moreover have "fresh_name E now (rnd k) ?st1" if "k \<ge> Suc n" for k
    unfolding fresh_name_def
  proof (intro allI run_no_file)
    fix dev
    from Cons.prems(3) that show "bk_files st (file_path E now (rnd k) dev) = None"
      by (simp add: fresh_draws_def fresh_name_def)
    from Cons.prems(3) have "file_path E now (rnd k) dev = file_path E now (rnd n) (d_id d) \<longrightarrow> k = n"
      unfolding fresh_draws_def by blast
    with that show "file_path E now (rnd k) dev \<noteq> file_path E now (rnd n) (d_id d)" by auto
  qed
  with Cons.prems(3) have "fresh_draws E now rnd (Suc n) ?st1" unfolding fresh_draws_def by blast
  ultimately show ?case using Cons.IH [of ?st1 "Suc n"] Cons.prems(2) by simp
qed simp

lemma fresh_draws_later: "fresh_draws E now rnd n st \<Longrightarrow> n \<le> m \<Longrightarrow> fresh_draws E now rnd m st"
  unfolding fresh_draws_def by (meson order_trans)

lemma due_files_ok:
  "files_ok E st \<Longrightarrow> opens_sealed E \<Longrightarrow> fresh_draws E now rnd n st \<Longrightarrow>
     files_ok E (fst (run_due_loop E now rnd n I ps st))"
proof (induction ps arbitrary: n st)
  case (Cons p ps)
  let ?st1 = "st\<lparr>bpolicies := upd_rows (\<lambda>r. bp_id r = bp_id p) (\<lambda>r. r\<lparr>bp_last_run := Some now\<rparr>) (bpolicies st)\<rparr>"
  have ok1: "files_ok E ?st1" by (rule files_ok_cong [OF Cons.prems(1)]) simp_all
  have fresh1: "fresh_draws E now rnd n ?st1" using Cons.prems(3) by (simp add: fresh_draws_def fresh_name_def)
  have "files_ok E (run_policy E now rnd n I ds p ?st1) \<and> fresh_draws E now rnd (n + length ds) (run_policy E now rnd n I ds p ?st1)" for ds
    unfolding run_policy_def using fold_runs_ok [OF ok1 Cons.prems(2) fresh1]
    by (blast intro: fresh_draws_later add_left_mono length_filter_le)
  with Cons ok1 show ?case by (simp add: Let_def split: sum.split)
qed simp

subsection \<open>The restore jobs\<close>

definition jobs_ok :: "bkdb \<Rightarrow> bool" where
  "jobs_ok st \<longleftrightarrow>
     distinct (map rj_id (rjobs st)) \<and> (\<forall>j\<in>set (rjobs st). rj_id j < next_rjob st) \<and>
     (\<forall>j\<in>set (rjobs st). \<exists>b\<in>set (backups st). bk_id b = rj_backup j \<and> bk_device b = rj_device j) \<and>
     (\<forall>j\<in>set (rjobs st). \<forall>k\<in>set (rjobs st). rj_active j \<and> rj_active k \<and> rj_device j = rj_device k \<longrightarrow> rj_id j = rj_id k)"

lemma jobs_okD:
  assumes "jobs_ok st"
  shows "distinct (map rj_id (rjobs st))" "\<And>j. j \<in> set (rjobs st) \<Longrightarrow> rj_id j < next_rjob st"
    "\<And>j. j \<in> set (rjobs st) \<Longrightarrow> \<exists>b\<in>set (backups st). bk_id b = rj_backup j \<and> bk_device b = rj_device j"
    "\<And>j k. j \<in> set (rjobs st) \<Longrightarrow> k \<in> set (rjobs st) \<Longrightarrow> rj_active j \<Longrightarrow> rj_active k \<Longrightarrow> rj_device j = rj_device k \<Longrightarrow>
       rj_id j = rj_id k"
  using assms unfolding jobs_ok_def by blast+

lemma jobs_okI:
  assumes "distinct (map rj_id (rjobs st))" "\<And>j. j \<in> set (rjobs st) \<Longrightarrow> rj_id j < next_rjob st"
    "\<And>j. j \<in> set (rjobs st) \<Longrightarrow> \<exists>b\<in>set (backups st). bk_id b = rj_backup j \<and> bk_device b = rj_device j"
    "\<And>j k. j \<in> set (rjobs st) \<Longrightarrow> k \<in> set (rjobs st) \<Longrightarrow> rj_active j \<Longrightarrow> rj_active k \<Longrightarrow> rj_device j = rj_device k \<Longrightarrow>
       rj_id j = rj_id k"
  shows "jobs_ok st"
  using assms unfolding jobs_ok_def by blast

text \<open>
  What the operations do to the jobs: drop some, and of the others change neither the device nor
  the backup nor make one active again; a new state whose jobs come from the old ones this way is
  again in order.
\<close>

definition job_from :: "rjob \<Rightarrow> rjob \<Rightarrow> bool" where
  "job_from j k \<longleftrightarrow> rj_id k = rj_id j \<and> rj_device k = rj_device j \<and> rj_backup k = rj_backup j \<and> (rj_active k \<longrightarrow> rj_active j)"

lemma job_from_refl [simp]: "job_from j j"
  by (simp add: job_from_def)

lemma jobs_from_ok:
  assumes ok: "jobs_ok st" and js: "rjobs st' = map f (filter P (rjobs st))" and nx: "next_rjob st' = next_rjob st"
    and f: "\<And>j. j \<in> set (rjobs st) \<Longrightarrow> P j \<Longrightarrow> job_from j (f j)"
    and b: "\<And>j b. j \<in> set (rjobs st) \<Longrightarrow> P j \<Longrightarrow> b \<in> set (backups st) \<Longrightarrow> bk_id b = rj_backup j \<Longrightarrow> bk_device b = rj_device j \<Longrightarrow>
              \<exists>b'\<in>set (backups st'). bk_id b' = rj_backup j \<and> bk_device b' = rj_device j"
  shows "jobs_ok st'"
proof (rule jobs_okI)
  note d = jobs_okD [OF ok]
  have "map rj_id (rjobs st') = map rj_id (filter P (rjobs st))"
    using f by (auto simp: js job_from_def)
  with d(1) show "distinct (map rj_id (rjobs st'))" by (simp add: distinct_map_filter)
  have from_old: "\<exists>j\<in>set (rjobs st). P j \<and> job_from j k" if "k \<in> set (rjobs st')" for k
    using that f by (auto simp: js)
  fix k assume k: "k \<in> set (rjobs st')"
  then obtain j where j: "j \<in> set (rjobs st)" "P j" "job_from j k" using from_old by blast
  with d(2) nx show "rj_id k < next_rjob st'" by (simp add: job_from_def)
  from d(3) [OF j(1)] b [OF j(1,2)] j(3) show "\<exists>b\<in>set (backups st'). bk_id b = rj_backup k \<and> bk_device b = rj_device k"
    by (auto simp: job_from_def)
  fix k' assume "k' \<in> set (rjobs st')" and act: "rj_active k" "rj_active k'" "rj_device k = rj_device k'"
  then obtain j' where "j' \<in> set (rjobs st)" "job_from j' k'" using from_old by blast
  with j d(4) [of j j'] act show "rj_id k = rj_id k'" by (simp add: job_from_def)
qed

lemma jobs_upd_ok:
  assumes "jobs_ok st" and "\<And>j. j \<in> set (rjobs st) \<Longrightarrow> P j \<Longrightarrow> job_from j (f j)"
  shows "jobs_ok (st\<lparr>rjobs := upd_rows P f (rjobs st)\<rparr>)"
  by (rule jobs_from_ok [OF assms(1), where P = "\<lambda>j. True" and f = "\<lambda>j. if P j then f j else j"])
    (use assms(2) in \<open>auto simp: upd_rows_def\<close>)

lemma jobs_ok_cong:
  "jobs_ok st \<Longrightarrow> rjobs st' = rjobs st \<Longrightarrow> next_rjob st' = next_rjob st \<Longrightarrow> set (backups st) \<subseteq> set (backups st') \<Longrightarrow> jobs_ok st'"
  by (rule jobs_from_ok [where P = "\<lambda>j. True" and f = "\<lambda>j. j"]) auto

lemma drop_jobs_ok: "jobs_ok st \<Longrightarrow> jobs_ok (drop_backup i st)"
  by (rule jobs_from_ok [where P = "\<lambda>j. rj_backup j \<noteq> i" and f = "\<lambda>j. if rj_pre j = Some i then j\<lparr>rj_pre := None\<rparr> else j"])
    (auto simp: drop_backup_def upd_rows_def del_rows_def job_from_def rj_active_def)

lemma remove_jobs_ok: "jobs_ok st \<Longrightarrow> jobs_ok (bk_remove bs st)"
proof (induction bs arbitrary: st)
  case (Cons b bs)
  have "jobs_ok (if bk_path b \<noteq> [] then (drop_backup (bk_id b) st)\<lparr>bk_files := F\<rparr> else drop_backup (bk_id b) st)" for F
    by (rule jobs_ok_cong [OF drop_jobs_ok [OF Cons.prems, of "bk_id b"]]) simp_all
  with Cons.IH show ?case by (simp add: Let_def)
qed simp

lemma retention_jobs_ok: "jobs_ok st \<Longrightarrow> jobs_ok (fst (apply_retention E now I dev st))"
  by (metis retention_cases remove_jobs_ok)

lemma run_jobs_ok:
  assumes "jobs_ok st"
  shows "jobs_ok (fst (run_backup E now rnd I dev reason actor st))"
proof (cases rule: run_backup_cases [of E now rnd I dev reason actor st])
  case (stored d cfg)
  have "jobs_ok (insert_backup mk (st\<lparr>bk_files := F\<rparr>))" for mk F
    by (rule jobs_ok_cong [OF assms]) (auto simp: insert_backup_def)
  with stored assms show ?thesis
    by (simp add: store_backup_def write_file_def Let_def retention_jobs_ok split: option.split)
next
  case failed
  have "jobs_ok (insert_backup mk st)" for mk by (rule jobs_ok_cong [OF assms]) (auto simp: insert_backup_def)
  with failed show ?thesis by simp
qed (use assms in simp)

text \<open>A run leaves the status of the jobs that stay.\<close>

definition job_states :: "bkdb \<Rightarrow> (int \<times> string) set" where
  "job_states st = (\<lambda>j. (rj_id j, rj_status j)) ` set (rjobs st)"

lemma remove_states: "job_states (bk_remove bs st) \<subseteq> job_states st"
proof (induction bs arbitrary: st)
  case (Cons b bs)
  have "job_states (drop_backup (bk_id b) st) \<subseteq> job_states st"
    by (auto simp: job_states_def drop_backup_def set_upd_rows)
  then have "job_states (if bk_path b \<noteq> [] then (drop_backup (bk_id b) st)\<lparr>bk_files := F\<rparr> else drop_backup (bk_id b) st)
               \<subseteq> job_states st" for F
    by (simp add: job_states_def)
  then show ?case unfolding bk_remove.simps Let_def by (rule subset_trans [OF Cons.IH])
qed simp

lemma retention_states: "job_states (fst (apply_retention E now I dev st)) \<subseteq> job_states st"
  by (metis retention_cases remove_states)

lemma run_states: "job_states (fst (run_backup E now rnd I dev reason actor st)) \<subseteq> job_states st"
proof (cases rule: run_backup_cases [of E now rnd I dev reason actor st])
  case (stored d cfg)
  have "job_states (insert_backup mk (st\<lparr>bk_files := F\<rparr>)) = job_states st" for mk F
    by (simp add: insert_backup_def job_states_def)
  then have "job_states (fst (apply_retention E now I dev (insert_backup mk (st\<lparr>bk_files := F\<rparr>)))) \<subseteq> job_states st" for mk F
    using retention_states by metis
  with stored show ?thesis
    by (cases "be_write E (file_path E now rnd dev)") (simp_all add: store_backup_def write_file_def Let_def)
qed (simp_all add: insert_backup_def job_states_def)

subsection \<open>Histories\<close>

text \<open>
  The steps of the service. Concurrent requests interleave between these operations; the
  inventory and the transports may change from step to step.
\<close>

inductive bk_step :: "'l bkenv \<Rightarrow> bkdb \<Rightarrow> bkdb \<Rightarrow> bool" for E where
  st_run: "fresh_name E now rnd st \<Longrightarrow>
     bk_step E st (fst (run_backup (E\<lparr>be_inv := V, be_guard := g\<rparr>) now rnd I dev reason actor st))"
| st_lock: "bk_step E st (fst (set_lock i locked note st))"
| st_delete: "bk_step E st (fst (delete_backup I i st))"
| st_policy: "bk_step E st (fst (save_bpolicy E now I p st))"
| st_no_policy: "bk_step E st (fst (delete_bpolicy i st))"
| st_due: "fresh_draws E now rnd 0 st \<Longrightarrow>
     bk_step E st (fst (run_due (E\<lparr>be_inv := V, be_guard := g\<rparr>) now rnd I st))"
| st_restore: "fresh_name E now rnd st \<Longrightarrow>
     bk_step E st (fst (restore (E\<lparr>be_inv := V, be_guard := g\<rparr>) now rnd I b actor st))"
| st_watch: "watch E t0 i dev rounds (I, st) = Some (I', st') \<Longrightarrow> bk_step E st st'"
| st_recover: "bk_step E st (recover_jobs now st)"
| st_forget: "bk_step E st (forget_device dev st)"

definition empty_bk :: bkdb where
  "empty_bk = \<lparr>backups = [], bpolicies = [], rjobs = [], bk_files = Map.empty, next_backup = 1, next_bpolicy = 1, next_rjob = 1\<rparr>"

text \<open>The invariants do not depend on the inventory's environment.\<close>

lemma other_inv [simp]:
  "files_ok (E\<lparr>be_inv := V, be_guard := g\<rparr>) st = files_ok E st"
  "opens_sealed (E\<lparr>be_inv := V, be_guard := g\<rparr>) = opens_sealed E"
  "fresh_name (E\<lparr>be_inv := V, be_guard := g\<rparr>) now rnd st = fresh_name E now rnd st"
  "fresh_draws (E\<lparr>be_inv := V, be_guard := g\<rparr>) now rndf n st = fresh_draws E now rndf n st"
  by (simp_all add: files_ok_def stored_ok_def opens_sealed_def fresh_name_def fresh_draws_def file_path_def)

interpretation lock_row: keyed_update bk_id "\<lambda>b. b\<lparr>bk_locked := l, bk_note := n\<rparr>"
  by unfold_locales simp

lemma set_lock_ok:
  assumes ok: "files_ok E st"
  shows "files_ok E (fst (set_lock i locked note st))"
proof -
  let ?f = "\<lambda>b. b\<lparr>bk_locked := locked, bk_note := clip (trim_space note) 500\<rparr>"
  note d = files_okD [OF ok]
  have "files_ok E (st\<lparr>backups := upd_rows (\<lambda>b. bk_id b = i) ?f (backups st)\<rparr>)"
  proof (rule files_okI)
    fix b assume "b \<in> set (backups (st\<lparr>backups := upd_rows (\<lambda>b. bk_id b = i) ?f (backups st)\<rparr>))"
    then obtain c where c: "c \<in> set (backups st)" "b = c \<or> b = ?f c" by (auto simp: set_upd_rows)
    with d(2) [OF c(1)] show "bk_id b < next_backup (st\<lparr>backups := upd_rows (\<lambda>b. bk_id b = i) ?f (backups st)\<rparr>)" by auto
    from d(3) [OF c(1)] c(2) show "stored_ok E (bk_files (st\<lparr>backups := upd_rows (\<lambda>b. bk_id b = i) ?f (backups st)\<rparr>)) b"
      by (auto simp: stored_ok_def)
  qed (use d(1,4) in \<open>simp_all add: lock_row.distinct_key_upd lock_row.unique_kept_upd\<close>)
  with ok show ?thesis by (simp add: set_lock_def)
qed

lemma set_lock_jobs_ok:
  assumes "jobs_ok st"
  shows "jobs_ok (fst (set_lock i locked note st))"
proof (rule jobs_from_ok [OF assms, where P = "\<lambda>j. True" and f = "\<lambda>j. j"])
  fix j b assume b: "b \<in> set (backups st)" "bk_id b = rj_backup j" "bk_device b = rj_device j"
  let ?f = "\<lambda>b. if bk_id b = i then b\<lparr>bk_locked := locked, bk_note := clip (trim_space note) 500\<rparr> else b"
  from b(1) have "b \<in> set (backups (fst (set_lock i locked note st))) \<or> ?f b \<in> set (backups (fst (set_lock i locked note st)))"
    by (simp add: set_lock_def upd_rows_def)
  moreover have "bk_id (?f b) = rj_backup j" "bk_device (?f b) = rj_device j" using b by simp_all
  ultimately show "\<exists>b'\<in>set (backups (fst (set_lock i locked note st))). bk_id b' = rj_backup j \<and> bk_device b' = rj_device j"
    using b by blast
qed (simp_all add: set_lock_def)

lemma delete_jobs_ok: "jobs_ok st \<Longrightarrow> jobs_ok (fst (delete_backup I i st))"
  by (simp add: delete_backup_def remove_jobs_ok del: bk_remove.simps split: sum.split)

lemma set_rjob_simps [simp]:
  "backups (set_rjob i f st) = backups st" "bk_files (set_rjob i f st) = bk_files st"
  "next_backup (set_rjob i f st) = next_backup st" "bpolicies (set_rjob i f st) = bpolicies st"
  by (simp_all add: set_rjob_def)

lemma set_rjob_files_ok: "files_ok E st \<Longrightarrow> files_ok E (set_rjob i f st)"
  by (rule files_ok_cong) simp_all

lemma finish_jobs_ok: "status \<noteq> ''running'' \<Longrightarrow> status \<noteq> ''waiting'' \<Longrightarrow> jobs_ok st \<Longrightarrow> jobs_ok (finish_restore now i status msg st)"
  unfolding finish_restore_def set_rjob_def by (rule jobs_upd_ok) (simp_all add: job_from_def rj_active_def)

lemma new_rjob_simps [simp]:
  "rj_id (new_rjob now dev b actor i) = i" "rj_device (new_rjob now dev b actor i) = dev"
  "rj_backup (new_rjob now dev b actor i) = b" "rj_active (new_rjob now dev b actor i)"
  by (simp_all add: new_rjob_def rj_active_def)

definition job_active :: "int \<Rightarrow> bkdb \<Rightarrow> bool" where
  "job_active k st \<longleftrightarrow> (\<forall>j\<in>set (rjobs st). rj_id j = k \<longrightarrow> rj_active j)"

lemma insert_rjob_ok:
  assumes ok: "jobs_ok st" and b: "\<exists>b\<in>set (backups st). bk_id b = i \<and> bk_device b = dev"
    and ins: "insert_rjob now dev i actor st = (st1, Inr k)"
  shows "jobs_ok st1" and "job_active k st1"
proof -
  note d = jobs_okD [OF ok]
  from ins have free: "\<And>j. j \<in> set (rjobs st) \<Longrightarrow> rj_device j = dev \<Longrightarrow> \<not> rj_active j"
    and st1: "st1 = st\<lparr>rjobs := rjobs st @ [new_rjob now dev i actor k], next_rjob := next_rjob st + 1\<rparr>" and k: "k = next_rjob st"
    by (auto simp: insert_rjob_def list_ex_iff split: if_splits)
  have newid: "\<And>j. j \<in> set (rjobs st) \<Longrightarrow> rj_id j \<noteq> k" using d(2) k by fastforce
  show "jobs_ok st1"
  proof (rule jobs_okI)
    show "distinct (map rj_id (rjobs st1))" using d(1) newid by (auto simp: st1)
    fix j assume "j \<in> set (rjobs st1)"
    then have j: "j \<in> set (rjobs st) \<or> j = new_rjob now dev i actor k" by (auto simp: st1)
    then show "rj_id j < next_rjob st1" using d(2) [of j] by (auto simp: st1 k)
    from j show "\<exists>b\<in>set (backups st1). bk_id b = rj_backup j \<and> bk_device b = rj_device j"
      using d(3) [of j] b by (auto simp: st1)
    fix j' assume "j' \<in> set (rjobs st1)" and act: "rj_active j" "rj_active j'" "rj_device j = rj_device j'"
    then have "j' \<in> set (rjobs st) \<or> j' = new_rjob now dev i actor k" by (auto simp: st1)
    with j act show "rj_id j = rj_id j'"
      using d(4) [of j j'] free [of j] free [of j'] by (elim disjE) simp_all
  qed
  show "job_active k st1" using newid by (auto simp: st1 job_active_def)
qed

text \<open>The job of a running restore stays active until it is finished.\<close>

lemma job_activeD: "job_active k st \<Longrightarrow> j \<in> set (rjobs st) \<Longrightarrow> rj_id j = k \<Longrightarrow> rj_active j"
  unfolding job_active_def by blast

lemma waiting_jobs_ok: "jobs_ok st \<Longrightarrow> job_active i st \<Longrightarrow> jobs_ok (set_rjob i (\<lambda>j. j\<lparr>rj_status := ''waiting''\<rparr>) st)"
  unfolding set_rjob_def by (rule jobs_upd_ok) (simp_all add: job_from_def job_activeD)

lemma run_active: "job_active k st \<Longrightarrow> job_active k (fst (run_backup E now rnd I dev reason actor st))"
  unfolding job_active_def
proof (intro ballI impI)
  assume act: "\<forall>j\<in>set (rjobs st). rj_id j = k \<longrightarrow> rj_active j"
  fix j assume j: "j \<in> set (rjobs (fst (run_backup E now rnd I dev reason actor st)))" "rj_id j = k"
  from j(1) have "(rj_id j, rj_status j) \<in> job_states (fst (run_backup E now rnd I dev reason actor st))"
    unfolding job_states_def by (rule imageI)
  then have "(rj_id j, rj_status j) \<in> job_states st" by (rule subsetD [OF run_states])
  then obtain j0 where "j0 \<in> set (rjobs st)" "rj_id j0 = rj_id j" "rj_status j0 = rj_status j"
    unfolding job_states_def by (metis (no_types, lifting) imageE prod.inject)
  with act j(2) show "rj_active j" by (metis rj_active_def)
qed

lemma pre_active: "job_active k st \<Longrightarrow> job_active k (set_rjob i (\<lambda>j. j\<lparr>rj_pre := p\<rparr>) st)"
  by (auto simp: job_active_def set_rjob_def upd_rows_def rj_active_def)

lemma restore_sent_ok: "jobs_ok st \<Longrightarrow> job_active k st \<Longrightarrow> jobs_ok (restore_sent now k answer st)"
  by (simp add: restore_sent_def finish_jobs_ok waiting_jobs_ok split: option.split)

lemma restore_sent_frame [simp]:
  "backups (restore_sent now k answer st) = backups st" "bk_files (restore_sent now k answer st) = bk_files st"
  "next_backup (restore_sent now k answer st) = next_backup st"
  by (simp_all add: restore_sent_def finish_restore_def split: option.split)

lemma restore_job_ok:
  assumes "jobs_ok st" and act: "job_active k st"
  shows "jobs_ok (fst (restore_job E now rnd I d cfg actor k st))"
proof -
  obtain st1 r where run: "run_backup E now rnd I (d_id d) ReasonPreRestore actor st = (st1, r)" by fastforce
  have ok: "jobs_ok st1" using run_jobs_ok [OF assms(1)] run by (metis fst_conv)
  have act1: "job_active k st1" using run_active [OF act] run by (metis fst_conv)
  have pre: "jobs_ok (set_rjob k (\<lambda>j. j\<lparr>rj_pre := p\<rparr>) st1)" for p
    unfolding set_rjob_def by (rule jobs_upd_ok [OF ok]) (simp add: job_from_def rj_active_def)
  show ?thesis
    using restore_sent_ok [OF pre pre_active [OF act1]] finish_jobs_ok [OF _ _ ok] run
    by (cases r) (auto simp: restore_job_def Let_def split: prod.split)
qed

lemma restore_jobs_ok:
  assumes "jobs_ok st"
  shows "jobs_ok (fst (restore E now rnd I b actor st))"
proof (cases "bk_content E I st b")
  case (Inl e)
  with assms show ?thesis by (simp add: restore_def)
next
  case (Inr cv)
  obtain cfg v where cv: "cv = (cfg, v)" by fastforce
  from Inr cv obtain c where c: "c \<in> set (backups st)" "bk_id c = b" "bk_device v = bk_device c"
    by (auto simp: bk_content_def split: sum.splits option.splits if_splits dest!: get_backup_in)
  show ?thesis
  proof (cases "get_dev E now I (bk_device v)")
    case (Inl e)
    with Inr cv assms show ?thesis by (simp add: restore_def)
  next
    case (Inr d)
    obtain st1 r where ins: "insert_rjob now (d_id d) b actor st = (st1, r)" by fastforce
    from get_dev_row [OF Inr] c have there: "\<exists>c\<in>set (backups st). bk_id c = b \<and> bk_device c = d_id d" by auto
    have "jobs_ok (fst (restore_job E now rnd I d cfg actor k st1))" if "r = Inr k" for k
      using insert_rjob_ok [OF assms there, of now actor st1 k] ins that by (simp add: restore_job_ok)
    moreover have "st1 = st" if "r = Inl e" for e
      using ins that by (auto simp: insert_rjob_def split: if_splits)
    ultimately show ?thesis
      using Inr \<open>bk_content E I st b = Inr cv\<close> cv ins assms by (auto simp: restore_def split: sum.split)
  qed
qed

lemma restore_files_ok:
  assumes "files_ok E st" "opens_sealed E" "fresh_name E now rnd st"
  shows "files_ok E (fst (restore E now rnd I b actor st))"
proof -
  have job: "files_ok E (fst (restore_job E now rnd I d cfg actor k st1))"
    if "files_ok E st1" "fresh_name E now rnd st1" for d cfg k st1
  proof -
    have ok: "files_ok E (fst (run_backup E now rnd I (d_id d) ReasonPreRestore actor st1))"
      by (rule run_files_ok [OF that(1) assms(2) that(2)])
    then have "files_ok E st'" if "backups st' = backups (fst (run_backup E now rnd I (d_id d) ReasonPreRestore actor st1))"
      "bk_files st' = bk_files (fst (run_backup E now rnd I (d_id d) ReasonPreRestore actor st1))"
      "next_backup st' = next_backup (fst (run_backup E now rnd I (d_id d) ReasonPreRestore actor st1))" for st'
      using that by (rule files_ok_cong)
    then show ?thesis
      by (cases "run_backup E now rnd I (d_id d) ReasonPreRestore actor st1")
        (simp add: restore_job_def Let_def finish_restore_def split: sum.split prod.split)
  qed
  have ins: "files_ok E (st\<lparr>rjobs := js, next_rjob := n\<rparr>)" for js n
    by (rule files_ok_cong [OF assms(1)]) simp_all
  have new: "fresh_name E now rnd (st\<lparr>rjobs := js, next_rjob := n\<rparr>)" for js n
    using assms(3) by (simp add: fresh_name_def)
  show ?thesis
    using job [OF ins new] assms(1)
    by (simp add: restore_def insert_rjob_def split: sum.split prod.split)
qed

lemma due_jobs_ok: "jobs_ok st \<Longrightarrow> jobs_ok (fst (run_due_loop E now rnd n I ps st))"
proof (induction ps arbitrary: n st)
  case (Cons p ps)
  let ?st1 = "st\<lparr>bpolicies := upd_rows (\<lambda>r. bp_id r = bp_id p) (\<lambda>r. r\<lparr>bp_last_run := Some now\<rparr>) (bpolicies st)\<rparr>"
  have ok1: "jobs_ok ?st1" by (rule jobs_ok_cong [OF Cons.prems]) simp_all
  have "jobs_ok st \<Longrightarrow> jobs_ok (fold (\<lambda>(k, d) st. fst (run_backup E now (rnd k) I (d_id d) reason actor st)) ks st)" for st ks reason actor
    by (induction ks arbitrary: st) (auto intro: run_jobs_ok)
  then have "jobs_ok (run_policy E now rnd n I ds p ?st1)" for ds unfolding run_policy_def using ok1 by blast
  with Cons ok1 show ?case by (simp add: Let_def split: sum.split)
qed simp

lemma policy_ops_ok:
  "files_ok E st \<Longrightarrow> files_ok E (fst (save_bpolicy E' now I p st))" "jobs_ok st \<Longrightarrow> jobs_ok (fst (save_bpolicy E' now I p st))"
  "files_ok E st \<Longrightarrow> files_ok E (fst (delete_bpolicy i st))" "jobs_ok st \<Longrightarrow> jobs_ok (fst (delete_bpolicy i st))"
proof -
  have f: "files_ok E st \<Longrightarrow> files_ok E (st\<lparr>bpolicies := ps, next_bpolicy := n\<rparr>)" "files_ok E st \<Longrightarrow> files_ok E (st\<lparr>bpolicies := ps\<rparr>)"
    for ps n by (erule files_ok_cong; simp)+
  have j: "jobs_ok st \<Longrightarrow> jobs_ok (st\<lparr>bpolicies := ps, next_bpolicy := n\<rparr>)" "jobs_ok st \<Longrightarrow> jobs_ok (st\<lparr>bpolicies := ps\<rparr>)"
    for ps n by (erule jobs_ok_cong; simp)+
  show "files_ok E st \<Longrightarrow> files_ok E (fst (save_bpolicy E' now I p st))" "jobs_ok st \<Longrightarrow> jobs_ok (fst (save_bpolicy E' now I p st))"
    using f j by (simp_all add: save_bpolicy_def Let_def split: option.split)
  show "files_ok E st \<Longrightarrow> files_ok E (fst (delete_bpolicy i st))" "jobs_ok st \<Longrightarrow> jobs_ok (fst (delete_bpolicy i st))"
    using f j by (simp_all add: delete_bpolicy_def)
qed

lemma watch_loop_status:
  "watch_loop E deadline t dev last_err rounds I = Some (I', t', status, msg) \<Longrightarrow> status = ''succeeded'' \<or> status = ''failed''"
  by (induction E deadline t dev last_err rounds I rule: watch_loop.induct) (auto split: if_splits prod.splits sum.splits)

lemma watch_ok:
  assumes "watch E t0 i dev rounds (I, st) = Some (I', st')"
  shows "files_ok E' st \<Longrightarrow> files_ok E' st'" and "jobs_ok st \<Longrightarrow> jobs_ok st'"
proof -
  from assms obtain t status msg where st': "st' = finish_restore t i status msg st"
    and "status = ''succeeded'' \<or> status = ''failed''"
    by (auto simp: watch_def split: option.splits dest: watch_loop_status)
  then show "jobs_ok st \<Longrightarrow> jobs_ok st'" by (auto intro!: finish_jobs_ok)
  show "files_ok E' st \<Longrightarrow> files_ok E' st'" unfolding st' finish_restore_def by (rule set_rjob_files_ok)
qed

lemma recover_ok: "files_ok E st \<Longrightarrow> files_ok E (recover_jobs now st)" "jobs_ok st \<Longrightarrow> jobs_ok (recover_jobs now st)"
proof -
  show "files_ok E st \<Longrightarrow> files_ok E (recover_jobs now st)" by (rule files_ok_cong) (simp_all add: recover_jobs_def)
  show "jobs_ok st \<Longrightarrow> jobs_ok (recover_jobs now st)"
    unfolding recover_jobs_def by (rule jobs_upd_ok) (simp_all add: job_from_def rj_active_def)
qed

lemma forget_ok: "files_ok E st \<Longrightarrow> files_ok E (forget_device dev st)" "jobs_ok st \<Longrightarrow> jobs_ok (forget_device dev st)"
proof -
  show "files_ok E st \<Longrightarrow> files_ok E (forget_device dev st)"
    by (rule files_ok_fewer [where P = "\<lambda>b. bk_device b \<noteq> dev"]) (simp_all add: forget_device_def Let_def del_rows_def)
  let ?ids = "bk_id ` {b \<in> set (backups st). bk_device b = dev}"
  show "jobs_ok st \<Longrightarrow> jobs_ok (forget_device dev st)"
    by (rule jobs_from_ok [where P = "\<lambda>j. rj_device j \<noteq> dev \<and> rj_backup j \<notin> ?ids" and
          f = "\<lambda>j. if rj_pre j \<in> Some ` ?ids then j\<lparr>rj_pre := None\<rparr> else j"])
      (auto simp: forget_device_def Let_def del_rows_def upd_rows_def job_from_def rj_active_def)
qed

lemma bk_step_ok:
  assumes "bk_step E st st'" "opens_sealed E"
  shows "files_ok E st \<Longrightarrow> files_ok E st'" and "jobs_ok st \<Longrightarrow> jobs_ok st'"
proof -
  have env: "files_ok E s" if "files_ok (E\<lparr>be_inv := V, be_guard := g\<rparr>) s" for V g s using that by simp
  show "files_ok E st \<Longrightarrow> files_ok E st'"
    using assms
  proof cases
    case st_run
    with assms(2) show "files_ok E st \<Longrightarrow> files_ok E st'" by (intro env) (simp only:, rule run_files_ok, simp_all)
  next
    case st_due
    with assms(2) show "files_ok E st \<Longrightarrow> files_ok E st'"
      by (intro env) (simp only: run_due_def, rule due_files_ok, simp_all)
  next
    case st_restore
    with assms(2) show "files_ok E st \<Longrightarrow> files_ok E st'" by (intro env) (simp only:, rule restore_files_ok, simp_all)
  qed (blast intro: set_lock_ok delete_files_ok policy_ops_ok watch_ok recover_ok forget_ok)+
  show "jobs_ok st \<Longrightarrow> jobs_ok st'"
    using assms(1)
    by cases (auto simp only: run_due_def intro: run_jobs_ok set_lock_jobs_ok delete_jobs_ok policy_ops_ok due_jobs_ok
        restore_jobs_ok watch_ok recover_ok forget_ok)
qed

lemma bk_history_ok:
  assumes "rtranclp (bk_step E) empty_bk st" "opens_sealed E"
  shows "files_ok E st \<and> jobs_ok st"
  using assms(1)
proof (induction rule: rtranclp_induct)
  case base
  show ?case by (simp add: empty_bk_def files_ok_def jobs_ok_def)
next
  case (step y z)
  with bk_step_ok [OF step.hyps(2) assms(2)] show ?case by blast
qed

subsection \<open>Properties\<close>

text \<open>
  C17: Every good backup can be read back at any time: whatever was backed up, restored, locked,
  deleted or removed by retention before, its file is there, decrypts, and has the recorded size
  and fingerprint.\<close>

theorem backups_readable:
  assumes "rtranclp (bk_step E) empty_bk st" and "opens_sealed E"
    and "get_backup I st i = Inr b" and "bk_status b = ''ok''"
  shows "\<exists>cfg. bk_content E I st i = Inr (cfg, b) \<and> fingerprint (be_sha E) cfg = bk_sha b \<and> int (length cfg) = bk_size b"
proof -
  from get_backup_in [OF assms(3)] obtain r nm where r: "r \<in> set (backups st)" "b = named nm r" by blast
  have "stored_ok E (bk_files st) r" using bk_history_ok [OF assms(1,2)] r(1) by (blast dest: files_okD(3))
  with r(2) assms(4) obtain sealed cfg where "bk_files st (bk_path b) = Some sealed"
    "be_open E sealed (file_context (bk_device b)) = Inr cfg" "bk_sha b = fingerprint (be_sha E) cfg" "bk_size b = int (length cfg)"
    by (auto simp: stored_ok_def)
  with assms(3,4) show ?thesis by (simp add: bk_content_def)
qed


lemma stored_content:
  assumes ok: "files_ok E st" "opens_sealed E" "fresh_name E now rnd st"
    and res: "store_backup E now rnd I d reason actor cfg st = (st', Inr (v, u))"
  shows "bk_content E I st' (bk_id v) = Inr (cfg, v) \<and> bk_reason v = reason \<and> bk_device v = d_id d"
proof -
  let ?rel = "file_path E now rnd (d_id d)"
  let ?row = "stored_row E now reason actor d cfg ?rel (next_backup st)"
  let ?st2 = "insert_backup (stored_row E now reason actor d cfg ?rel)
                (st\<lparr>bk_files := (bk_files st)(?rel \<mapsto> be_seal E cfg (file_context (d_id d)))\<rparr>)"
  have st': "st' = fst (apply_retention E now I (d_id d) ?st2)" and get: "get_backup I st' (next_backup st) = Inr v"
    using res by (auto simp: store_backup_def write_file_def Let_def map_sum_def split: option.splits sum.splits)
  have ok2: "files_ok E ?st2" by (rule store_insert_ok [OF ok])
  obtain bs where bs: "st' = bk_remove bs ?st2" "\<And>v. v \<in> set bs \<Longrightarrow> \<exists>b\<in>set (backups ?st2). \<exists>nm. v = named nm b"
    using retention_cases [of E now I "d_id d" ?st2] st' by metis
  from get_backup_in [OF get] obtain r nm where r: "r \<in> set (backups st')" "v = named nm r" "bk_id r = next_backup st" by blast
  have "r \<in> set (backups ?st2)" using r(1) by (simp add: bs(1) backups_remove)
  moreover have "r \<notin> set (backups st)" using files_okD(2) [OF ok(1), of r] r(3) by auto
  ultimately have row: "r = ?row" by (simp add: insert_backup_def)
  have ok_row: "bk_status r = ''ok''" by (simp add: row stored_row_def)
  have "bk_files st' (bk_path r) = bk_files ?st2 (bk_path r)"
    using remove_listed_file [OF ok2 bs(2)] r(1) ok_row bs(1) by metis
  then have "bk_files st' (bk_path v) = Some (be_seal E cfg (file_context (d_id d)))"
    by (simp add: r(2) row stored_row_def insert_backup_def)
  moreover have "bk_status v = ''ok''" "bk_device v = d_id d" "bk_reason v = reason" "bk_id v = next_backup st"
    by (simp_all add: r(2) row stored_row_def)
  ultimately show ?thesis using get ok(2) by (simp add: bk_content_def opens_sealed_def)
qed

lemma restore_sent_upd:
  "\<exists>g. restore_sent now k answer st = set_rjob k g st \<and> (\<forall>j. rj_pre (g j) = rj_pre j \<and> rj_id (g j) = rj_id j)"
proof -
  let ?w = "\<lambda>j. j\<lparr>rj_status := ''waiting''\<rparr>" and ?f = "\<lambda>m j. j\<lparr>rj_status := ''failed'', rj_error := m, rj_finished := Some now\<rparr>"
  have "restore_sent now k answer st = set_rjob k ?w st \<or> (\<exists>m. restore_sent now k answer st = set_rjob k (?f m) st)"
    by (cases answer) (auto simp: restore_sent_def finish_restore_def)
  then show ?thesis
  proof
    assume "restore_sent now k answer st = set_rjob k ?w st"
    then show ?thesis by (intro exI [of _ ?w]) simp
  next
    assume "\<exists>m. restore_sent now k answer st = set_rjob k (?f m) st"
    then obtain m where "restore_sent now k answer st = set_rjob k (?f m) st" by blast
    then show ?thesis by (intro exI [of _ "?f m"]) simp
  qed
qed

lemma pre_kept:
  assumes "get_restore I (restore_sent now k answer (set_rjob k (\<lambda>j. j\<lparr>rj_pre := Some p\<rparr>) st)) k = Inr j"
  shows "rj_pre j = Some p"
proof -
  obtain g where g: "restore_sent now k answer (set_rjob k (\<lambda>j. j\<lparr>rj_pre := Some p\<rparr>) st) =
      set_rjob k g (set_rjob k (\<lambda>j. j\<lparr>rj_pre := Some p\<rparr>) st)"
    and keep: "\<And>j. rj_pre (g j) = rj_pre j" "\<And>j. rj_id (g j) = rj_id j"
    using restore_sent_upd by metis
  have js: "rjobs (set_rjob k f s) = upd_rows (\<lambda>j. rj_id j = k) f (rjobs s)" for f s by (simp add: set_rjob_def)
  have "j \<in> set (rjobs (set_rjob k g (set_rjob k (\<lambda>j. j\<lparr>rj_pre := Some p\<rparr>) st)))" and k: "rj_id j = k"
    using assms unfolding g get_restore_def by (auto split: option.splits dest: find_row_Some)
  then obtain j1 j0 where "j = (if rj_id j1 = k then g j1 else j1)" "j1 = (if rj_id j0 = k then j0\<lparr>rj_pre := Some p\<rparr> else j0)"
    unfolding js set_upd_rows by (elim imageE) blast
  with k keep show ?thesis by (simp split: if_splits)
qed

lemma set_rjob_found:
  assumes "j \<in> set (rjobs (set_rjob k f st))" and "rj_id j = k"
  shows "\<exists>j0. j = f j0"
proof -
  have "rjobs (set_rjob k f st) = upd_rows (\<lambda>j. rj_id j = k) f (rjobs st)" by (simp add: set_rjob_def)
  then obtain j0 where j0: "j = (if rj_id j0 = k then f j0 else j0)"
    using assms(1) by (simp only: set_upd_rows) (elim imageE, blast)
  show ?thesis
  proof (cases "rj_id j0 = k")
    case True
    with j0 show ?thesis by (intro exI [of _ j0]) simp
  next
    case False
    with j0 assms(2) show ?thesis by simp
  qed
qed

lemma content_cong:
  "backups st' = backups st \<Longrightarrow> bk_files st' = bk_files st \<Longrightarrow> bk_content E I st' i = bk_content E I st i"
  unfolding bk_content_def get_backup_def by (simp only:)

lemma finished_status:
  assumes "get_restore I (finish_restore now k status msg st) k = Inr j"
  shows "rj_status j = status"
proof -
  have "j \<in> set (rjobs (finish_restore now k status msg st))" "rj_id j = k"
    using assms by (auto simp: get_restore_def split: option.splits dest: find_row_Some)
  from set_rjob_found [OF this [unfolded finish_restore_def]] show ?thesis by auto
qed

lemma restore_job_waiting:
  assumes "restore_job E now rnd I d cfg actor k st = (st', Inr j)" and "rj_status j = ''waiting''"
  obtains st2 pre u where "run_backup E now rnd I (d_id d) ReasonPreRestore actor st = (st2, Inr (pre, u))"
    "st' = restore_sent now k (driver_restore (dev_driver E d) cfg) (set_rjob k (\<lambda>j. j\<lparr>rj_pre := Some (bk_id pre)\<rparr>) st2)"
    "get_restore I st' k = Inr j"
proof -
  obtain st2 r where run: "run_backup E now rnd I (d_id d) ReasonPreRestore actor st = (st2, r)" by fastforce
  show ?thesis
  proof (cases r)
    case (Inl e)
    have "get_restore I (finish_restore now k ''failed'' (''safety backup before restore failed: '' @ bkerror_text e) st2) k = Inr j"
      using assms(1) unfolding restore_job_def run Inl by (auto simp only: Let_def prod.case sum.case prod.inject)
    with assms(2) finished_status show ?thesis by fastforce
  next
    case (Inr p)
    obtain pre u where p: "p = (pre, u)" by fastforce
    from assms(1) have "st' = restore_sent now k (driver_restore (dev_driver E d) cfg) (set_rjob k (\<lambda>j. j\<lparr>rj_pre := Some (bk_id pre)\<rparr>) st2)"
      and "get_restore I st' k = Inr j"
      unfolding restore_job_def run Inr p by (auto simp only: Let_def prod.case sum.case prod.inject)
    with that run Inr p show ?thesis by blast
  qed
qed

lemma pre_run_stored:
  assumes "run_backup E now rnd I dev ReasonPreRestore actor st = (st2, Inr (pre, u))"
  obtains d live where "get_dev E now I dev = Inr d" "d_id d = dev" "driver_backup (dev_driver E d) = Inr live"
    "store_backup E now rnd I d ReasonPreRestore actor live st = (st2, Inr (pre, u))"
proof (cases "get_dev E now I dev")
  case (Inl e)
  with assms show ?thesis by (cases e) (simp_all add: run_backup_def)
next
  case (Inr d)
  with get_dev_row have "d_id d = dev" by blast
  with Inr assms that show ?thesis by (auto simp: run_backup_def split: sum.splits if_splits)
qed


lemma watch_loop_ends:
  assumes "\<forall>(V, took)\<in>set rounds. took \<ge> 0" and "deadline \<le> t + int (length rounds) * bo_reboot_poll (be_opt E)"
  shows "\<exists>r. watch_loop E deadline t dev e rounds I = Some r"
  using assms
proof (induction rounds arbitrary: t e I)
  case (Cons round rounds)
  obtain V took where round: "round = (V, took)" by fastforce
  with Cons.prems have "deadline \<le> (t + took + bo_reboot_poll (be_opt E)) + int (length rounds) * bo_reboot_poll (be_opt E)"
    by (simp add: algebra_simps)
  with Cons round show ?case by (simp split: prod.split sum.split)
qed simp

text \<open>
  C20: The watcher of a restore ends: once the polls cover the reboot limit it has set the job to
  succeeded or failed, so that the job no longer blocks a new restore of the device.\<close>

theorem watch_finishes:
  assumes "\<forall>(V, took)\<in>set rounds. took \<ge> 0"
    and "bo_reboot_limit (be_opt E) \<le> bo_reboot_wait (be_opt E) + int (length rounds) * bo_reboot_poll (be_opt E)"
  shows "\<exists>I' st'. watch E t0 i dev rounds (I, st) = Some (I', st') \<and>
           (\<forall>j\<in>set (rjobs st'). rj_id j = i \<longrightarrow> rj_status j = ''succeeded'' \<or> rj_status j = ''failed'')"
proof -
  from assms(2) have "t0 + bo_reboot_limit (be_opt E) \<le> (t0 + bo_reboot_wait (be_opt E)) + int (length rounds) * bo_reboot_poll (be_opt E)"
    by simp
  from watch_loop_ends [OF assms(1) this] obtain I' t status msg where
    loop: "watch_loop E (t0 + bo_reboot_limit (be_opt E)) (t0 + bo_reboot_wait (be_opt E)) dev None rounds I = Some (I', t, status, msg)"
    by (metis prod_cases4)
  have "\<forall>j\<in>set (rjobs (finish_restore t i status msg st)). rj_id j = i \<longrightarrow> rj_status j = status"
    using set_rjob_found unfolding finish_restore_def by fastforce
  with loop watch_loop_status [OF loop] show ?thesis by (auto simp: watch_def)
qed

subsection \<open>Examples\<close>

definition sample_bkenv :: "string bkenv" where
  "sample_bkenv = \<lparr>be_lic = sample_lic, be_guard = (new_guard ''pk'')\<lparr>g_lic := Some ''tok''\<rparr>, be_inv = sample_env,
     be_seal = (\<lambda>x c. x), be_open = (\<lambda>s c. Inr s), be_sha = (\<lambda>s. s), be_cron = (\<lambda>s. if s = [] then None else Some (\<lambda>t. t + day)),
     be_stamp = show_int, be_duration = (\<lambda>_. ''15m0s''), be_write = (\<lambda>_. None),
     be_opt = default_opt \<lparr>bo_reboot_wait = 0, bo_reboot_poll = 0, bo_reboot_limit = 0, bo_failed_keep = 0\<rparr>\<rparr>"

definition sample_bkinv :: inv where
  "sample_bkinv = fst (probe sample_lic sample_env 1 (be_guard sample_bkenv) 1 sample_inv)"

definition sample_policy :: "int \<Rightarrow> bpolicy" where
  "sample_policy n = \<lparr>bp_id = 0, bp_name = ''Daily'', bp_group = None, bp_device = None, bp_schedule = ''30 1 * * *'',
     bp_keep_count = n, bp_keep_days = 0, bp_enabled = True, bp_last_run = None, bp_created = 0\<rparr>"

definition bk1 :: "int \<Rightarrow> bkdb" where
  "bk1 n = fst (save_bpolicy sample_bkenv 1 sample_bkinv (sample_policy n) empty_bk)"
definition bk2 :: "int \<Rightarrow> bkdb" where
  "bk2 n = fst (run_backup sample_bkenv 2 ''aa'' sample_bkinv 1 ReasonManual ''ann'' (bk1 n))"
definition bk3 :: bkdb where "bk3 = fst (restore sample_bkenv 3 ''bb'' sample_bkinv 1 ''ann'' (bk2 5))"

lemma sample_opens: "opens_sealed sample_bkenv"
  by (simp add: opens_sealed_def sample_bkenv_def)

lemma no_files1: "bk_files (bk1 n) q = None"
  by (simp add: bk1_def save_bpolicy_def empty_bk_def Let_def split: option.split)

lemma sample_fresh: "fresh_name sample_bkenv 2 ''aa'' (bk1 n)" "fresh_name sample_bkenv 3 ''bb'' (bk2 n)"
proof -
  show "fresh_name sample_bkenv 2 ''aa'' (bk1 n)" by (simp add: fresh_name_def no_files1)
  have "file_path sample_bkenv 3 ''bb'' d \<noteq> file_path sample_bkenv 2 ''aa'' 1" for d
  proof
    assume "file_path sample_bkenv 3 ''bb'' d = file_path sample_bkenv 2 ''aa'' 1"
    then have "rev (file_path sample_bkenv 3 ''bb'' d) = rev (file_path sample_bkenv 2 ''aa'' 1)" by (rule arg_cong)
    then show False by (simp add: file_path_def)
  qed
  then show "fresh_name sample_bkenv 3 ''bb'' (bk2 n)"
    unfolding fresh_name_def bk2_def by (blast intro: run_no_file no_files1)
qed

lemma bk_reachable:
  "rtranclp (bk_step sample_bkenv) empty_bk (bk2 n)" "rtranclp (bk_step sample_bkenv) empty_bk bk3"
proof -
  have same: "sample_bkenv\<lparr>be_inv := be_inv sample_bkenv, be_guard := be_guard sample_bkenv\<rparr> = sample_bkenv" by simp
  have "bk_step sample_bkenv empty_bk (bk1 n)" for n unfolding bk1_def by (rule st_policy)
  moreover have "bk_step sample_bkenv (bk1 n) (bk2 n)" for n
    unfolding bk2_def using st_run [OF sample_fresh(1), where V = "be_inv sample_bkenv" and g = "be_guard sample_bkenv"]
    by (simp only: same)
  ultimately show two: "rtranclp (bk_step sample_bkenv) empty_bk (bk2 n)" for n
    by (meson converse_rtranclp_into_rtranclp rtranclp.rtrancl_refl)
  have "bk_step sample_bkenv (bk2 5) bk3"
    unfolding bk3_def using st_restore [OF sample_fresh(2), where V = "be_inv sample_bkenv" and g = "be_guard sample_bkenv"]
    by (simp only: same)
  with two show "rtranclp (bk_step sample_bkenv) empty_bk bk3" by (rule rtranclp.rtrancl_into_rtrancl)
qed

theorem backups_readable_witness:
  "\<exists>b cfg. bk_content sample_bkenv sample_bkinv (bk2 1) 1 = Inr (cfg, b) \<and> fingerprint (be_sha sample_bkenv) cfg = bk_sha b"
proof -
  have "map_sum (\<lambda>_. ()) bk_status (get_backup sample_bkinv (bk2 1) 1) = Inr ''ok''" by code_simp
  then obtain b where "get_backup sample_bkinv (bk2 1) 1 = Inr b" "bk_status b = ''ok''"
    by (cases "get_backup sample_bkinv (bk2 1) 1") simp_all
  from backups_readable [OF bk_reachable(1) sample_opens this] show ?thesis by blast
qed

lemma bk3_jobs: "map (\<lambda>j. (rj_id j, rj_status j, rj_pre j)) (rjobs bk3) = [(1, ''waiting'', Some 2)]"
  by code_simp



theorem watch_finishes_witness:
  "\<exists>I' st'. watch sample_bkenv 3 1 1 (replicate 42 (sample_env, second)) (sample_bkinv, bk3) = Some (I', st')"
proof -
  have "\<forall>(V, took)\<in>set (replicate 42 (sample_env, second)). took \<ge> 0" by simp
  moreover have "bo_reboot_limit (be_opt sample_bkenv) \<le>
      bo_reboot_wait (be_opt sample_bkenv) + int (length (replicate 42 (sample_env, second))) * bo_reboot_poll (be_opt sample_bkenv)"
    by (simp add: sample_bkenv_def default_opt_def Let_def)
  ultimately show ?thesis using watch_finishes by blast
qed


text \<open>
  Restoring a backup that the retention limit is about to drop: the safety backup pushes it over
  the limit, the deletion takes the restore job with it, and although the device accepted the
  configuration the call answers that the job does not exist.
\<close>

lemma restore_loses_job:
  "(case restore sample_bkenv 3 ''bb'' sample_bkinv 1 ''ann'' (bk2 1) of
      (st', r) \<Rightarrow> (r, map bk_id (backups st'), rjobs st')) = (Inl BkNotFound, [2], [])"
  by code_simp

end
