(* ===== verification/Alerts.thy ===== *)
theory Alerts
  imports Inventory Sms
begin

text \<open>
  Alert rules, notification channels and alerts (\<open>internal/alerts/alerts.go\<close>), and the messages and
  settings of the channels (\<open>internal/alerts/notify.go\<close>).

  The license package appears through \<open>alertenv\<close>: the serial numbers of a license with the end of
  their last day, the grace days, the status of a device and the two status values the code
  compares. The same record has the date format, the parsers of the standard library that
  validation calls, and the transport of a message, whose result is only logged. Percentages and
  thresholds are rationals.
\<close>

subsection \<open>Data\<close>

abbreviation KindOffline :: string where "KindOffline \<equiv> ''offline''"
abbreviation KindCPU :: string where "KindCPU \<equiv> ''cpu''"
abbreviation KindMem :: string where "KindMem \<equiv> ''mem''"
abbreviation KindDisk :: string where "KindDisk \<equiv> ''disk''"
abbreviation KindContractExpiry :: string where "KindContractExpiry \<equiv> ''contract_expiry''"
abbreviation KindLicenseExpiry :: string where "KindLicenseExpiry \<equiv> ''license_expiry''"

definition alert_kinds :: "string list" where
  "alert_kinds = [KindOffline, KindCPU, KindMem, KindDisk, KindContractExpiry, KindLicenseExpiry]"

record rule =
  ar_id :: int
  ar_name :: string
  ar_kind :: string
  ar_threshold :: rat
  ar_duration :: int
  ar_severity :: string
  ar_group :: "int option"
  ar_channels :: "int list"
  ar_repeat :: int
  ar_enabled :: bool

record chancfg =
  cc_smtp_host :: string
  cc_smtp_port :: int
  cc_smtp_security :: string
  cc_smtp_user :: string
  cc_smtp_password :: string
  cc_from :: string
  cc_to :: "string list"
  cc_url :: string
  cc_secret :: string
  cc_address :: string
  cc_protocol :: string

record channel =
  ac_id :: int
  ac_name :: string
  ac_kind :: string
  ac_config :: chancfg
  ac_enabled :: bool

record alert =
  al_id :: int
  al_rule :: int
  al_device :: int
  al_subject :: string
  al_severity :: string
  al_message :: string
  al_open :: bool
  al_opened :: time
  al_resolved :: "time option"
  al_notified :: "time option"
  al_acked_by :: string
  al_acked :: "time option"

record pend =
  pd_rule :: int
  pd_device :: int
  pd_subject :: string
  pd_since :: time

record alertdb =
  rules :: "rule list"
  channels :: "channel list"
  alerts :: "alert list"
  pendings :: "pend list"
  next_rule :: int
  next_channel :: int
  next_alert :: int

record anote =
  nt_event :: string
  nt_severity :: string
  nt_rule :: string
  nt_device :: string
  nt_serial :: string
  nt_text :: string
  nt_at :: time

datatype alerror = AlInput string | AlNotFound | AlInventory ierror | AlSend string | AlDatabase string

record 'l alertenv =
  av_lic :: "'l licapi"
  av_guard :: "'l guard"
  av_inv :: invenv
  av_items :: "'l \<Rightarrow> (string \<times> time) list"
  av_grace_days :: "'l \<Rightarrow> int"
  av_grace :: string
  av_expired :: string
  av_date :: "time \<Rightarrow> string"
  av_mail_ok :: "string \<Rightarrow> bool"
  av_url :: "string \<Rightarrow> (string \<times> string) option"
  av_hostport :: "string \<Rightarrow> bool"
  av_quote :: "string \<Rightarrow> string"
  av_send :: "string \<Rightarrow> chancfg \<Rightarrow> anote \<Rightarrow> string option"

subsection \<open>Rules\<close>

definition validate_rule :: "rule \<Rightarrow> string + rule" where
  "validate_rule r0 =
     (let r1 = r0\<lparr>ar_name := trim_space (ar_name r0)\<rparr>;
          r = (if ar_severity r1 = [] then r1\<lparr>ar_severity := ''warning''\<rparr> else r1)
      in if ar_name r = [] \<or> length (ar_name r) > 100 then Inl ''rule name is required (at most 100 characters)''
         else if ar_kind r \<notin> set alert_kinds then Inl ''unknown rule kind''
         else if ar_severity r \<notin> set [''info'', ''warning'', ''critical''] then Inl ''severity must be info, warning or critical''
         else if ar_kind r \<in> set [KindCPU, KindMem, KindDisk] \<and> (ar_threshold r \<le> 0 \<or> ar_threshold r > 100)
         then Inl ''threshold must be a percentage between 1 and 100''
         else if ar_kind r \<in> set [KindContractExpiry, KindLicenseExpiry] \<and> (ar_threshold r < 0 \<or> ar_threshold r > 365)
         then Inl ''threshold must be between 0 and 365 days''
         else if ar_duration r < 0 \<or> ar_duration r > 1440 \<or> ar_repeat r < 0 \<or> ar_repeat r > 10080
         then Inl ''duration or repeat interval is out of range''
         else Inr r)"

definition list_rules :: "alertdb \<Rightarrow> rule list" where "list_rules st = sort_key ar_id (rules st)"

definition save_rule :: "inv \<Rightarrow> rule \<Rightarrow> alertdb \<Rightarrow> (alertdb, alerror, int) outcome" where
  "save_rule I r0 st =
     (case validate_rule r0 of
        Inl e \<Rightarrow> (st, Inl (AlInput e))
      | Inr r \<Rightarrow>
          if ar_id r = 0 then
            (if group_missing (ar_group r) I then (st, Inl (AlDatabase ''23503''))
             else (st\<lparr>rules := rules st @ [r\<lparr>ar_id := next_rule st\<rparr>], next_rule := next_rule st + 1\<rparr>, Inr (next_rule st)))
          else if find_row ar_id (ar_id r) (rules st) = None then (st, Inl AlNotFound)
          else if group_missing (ar_group r) I then (st, Inl (AlDatabase ''23503''))
          else (st\<lparr>rules := upd_rows (\<lambda>q. ar_id q = ar_id r) (\<lambda>_. r) (rules st)\<rparr>, Inr (ar_id r)))"

text \<open>The alerts and the pending conditions of a rule are deleted with it (\<open>ON DELETE CASCADE\<close>).\<close>

definition delete_rule :: "int \<Rightarrow> alertdb \<Rightarrow> (alertdb, alerror, unit) outcome" where
  "delete_rule i st =
     (if find_row ar_id i (rules st) = None then (st, Inl AlNotFound)
      else (st\<lparr>rules := del_rows (\<lambda>r. ar_id r = i) (rules st), alerts := del_rows (\<lambda>a. al_rule a = i) (alerts st),
              pendings := del_rows (\<lambda>p. pd_rule p = i) (pendings st)\<rparr>, Inr ()))"

subsection \<open>Channels\<close>

abbreviation ChannelEmail :: string where "ChannelEmail \<equiv> ''email''"
abbreviation ChannelWebhook :: string where "ChannelWebhook \<equiv> ''webhook''"
abbreviation ChannelSyslog :: string where "ChannelSyslog \<equiv> ''syslog''"

definition chan_redacted :: "chancfg \<Rightarrow> chancfg" where
  "chan_redacted c0 =
     (let c = (if cc_smtp_password c0 \<noteq> [] then c0\<lparr>cc_smtp_password := stars\<rparr> else c0)
      in if cc_secret c \<noteq> [] then c\<lparr>cc_secret := stars\<rparr> else c)"

definition validate_email :: "'l alertenv \<Rightarrow> chancfg \<Rightarrow> string + chancfg" where
  "validate_email A c0 =
     (let c = c0\<lparr>cc_smtp_port := (if cc_smtp_port c0 = 0 then 587 else cc_smtp_port c0),
                cc_smtp_security := (if cc_smtp_security c0 = [] then ''starttls'' else cc_smtp_security c0)\<rparr>
      in if cc_smtp_host c0 = [] then Inl ''SMTP server is required''
         else if cc_smtp_security c \<notin> set [''starttls'', ''tls'', ''none''] then Inl ''SMTP security must be starttls, tls or none''
         else if \<not> av_mail_ok A (cc_from c) then Inl ''sender address is not valid''
         else if cc_to c = [] then Inl ''at least one recipient is required''
         else (case List.find (\<lambda>t. \<not> av_mail_ok A t) (cc_to c) of
                 Some t \<Rightarrow> Inl (''recipient '' @ av_quote A t @ '' is not valid'') | None \<Rightarrow> Inr c))"

definition validate_channel :: "'l alertenv \<Rightarrow> string \<Rightarrow> chancfg \<Rightarrow> string + chancfg" where
  "validate_channel A kind c =
     (if kind = ChannelEmail then validate_email A c
      else if kind = ChannelWebhook then
        (case av_url A (cc_url c) of
           None \<Rightarrow> Inl ''webhook URL must be an http(s) URL''
         | Some (scheme, host) \<Rightarrow>
             if (scheme \<noteq> ''https'' \<and> scheme \<noteq> ''http'') \<or> host = [] then Inl ''webhook URL must be an http(s) URL'' else Inr c)
      else if kind = ChannelSyslog then
        (if \<not> av_hostport A (cc_address c) then Inl ''syslog address must be host:port''
         else (let c1 = (if cc_protocol c = [] then c\<lparr>cc_protocol := ''udp''\<rparr> else c)
               in if cc_protocol c1 \<noteq> ''udp'' \<and> cc_protocol c1 \<noteq> ''tcp'' then Inl ''syslog protocol must be udp or tcp''
                  else Inr c1))
      else Inl ''unknown channel kind'')"

definition load_channels :: "(channel \<Rightarrow> bool) \<Rightarrow> alertdb \<Rightarrow> channel list" where
  "load_channels P st = sort_key ac_id (filter P (channels st))"

definition list_channels :: "alertdb \<Rightarrow> channel list" where
  "list_channels st = map (\<lambda>c. c\<lparr>ac_config := chan_redacted (ac_config c)\<rparr>) (load_channels (\<lambda>_. True) st)"

text \<open>A redacted or empty secret keeps the stored one.\<close>

definition keep_secrets :: "chancfg \<Rightarrow> chancfg \<Rightarrow> chancfg" where
  "keep_secrets old c =
     c\<lparr>cc_smtp_password := keep_secret (cc_smtp_password old) (cc_smtp_password c), cc_secret := keep_secret (cc_secret old) (cc_secret c)\<rparr>"

definition merged_config :: "'l alertenv \<Rightarrow> string \<Rightarrow> chancfg \<Rightarrow> chancfg \<Rightarrow> string + chancfg" where
  "merged_config A kind old c = validate_channel A kind (keep_secrets old c)"

definition save_channel :: "'l alertenv \<Rightarrow> channel \<Rightarrow> alertdb \<Rightarrow> (alertdb, alerror, int) outcome" where
  "save_channel A c0 st =
     (let c = c0\<lparr>ac_name := trim_space (ac_name c0)\<rparr>
      in if ac_name c = [] then (st, Inl (AlInput ''channel name is required''))
         else if ac_id c = 0 then
           (case validate_channel A (ac_kind c) (ac_config c) of
              Inl e \<Rightarrow> (st, Inl (AlInput e))
            | Inr cfg \<Rightarrow>
                (st\<lparr>channels := channels st @ [c\<lparr>ac_id := next_channel st, ac_config := cfg\<rparr>], next_channel := next_channel st + 1\<rparr>,
                 Inr (next_channel st)))
         else (case find_row ac_id (ac_id c) (channels st) of
                 None \<Rightarrow> (st, Inl AlNotFound)
               | Some old \<Rightarrow>
                   (case merged_config A (ac_kind c) (ac_config old) (ac_config c) of
                      Inl e \<Rightarrow> (st, Inl (AlInput e))
                    | Inr cfg \<Rightarrow>
                        (st\<lparr>channels := upd_rows (\<lambda>q. ac_id q = ac_id c) (\<lambda>_. c\<lparr>ac_config := cfg\<rparr>) (channels st)\<rparr>, Inr (ac_id c)))))"

definition delete_channel :: "int \<Rightarrow> alertdb \<Rightarrow> (alertdb, alerror, unit) outcome" where
  "delete_channel i st =
     (if find_row ac_id i (channels st) = None then (st, Inl AlNotFound)
      else (st\<lparr>channels := del_rows (\<lambda>c. ac_id c = i) (channels st),
              rules := upd_rows (\<lambda>_. True) (\<lambda>r. r\<lparr>ar_channels := removeAll i (ar_channels r)\<rparr>) (rules st)\<rparr>, Inr ()))"

definition test_note :: "time \<Rightarrow> anote" where
  "test_note now = \<lparr>nt_event = ''test'', nt_severity = ''info'', nt_rule = ''Test'', nt_device = ''TaktaPlus'', nt_serial = [],
     nt_text = ''This is a test notification from TaktaPlus.'', nt_at = now\<rparr>"

definition test_channel :: "'l alertenv \<Rightarrow> time \<Rightarrow> int \<Rightarrow> alertdb \<Rightarrow> alerror option" where
  "test_channel A now i st =
     (case load_channels (\<lambda>c. ac_id c = i) st of
        [] \<Rightarrow> Some AlNotFound
      | c # _ \<Rightarrow> map_option AlSend (av_send A (ac_kind c) (ac_config c) (test_note now)))"

subsection \<open>Messages\<close>

text \<open>The dash between rule and device is U+2014 in UTF-8.\<close>

definition note_subject :: "anote \<Rightarrow> string" where
  "note_subject m =
     ''[TaktaPlus] '' @ (if nt_event m = ''resolved'' then ''RESOLVED'' else to_upper (nt_severity m)) @ '': '' @ nt_rule m @
     '' '' @ [CHR 0xE2, CHR 0x80, CHR 0x94] @ '' '' @ nt_device m"

text \<open>\<open>stamp\<close> is the time in the format of RFC 3339.\<close>

definition note_body :: "(time \<Rightarrow> string) \<Rightarrow> anote \<Rightarrow> string" where
  "note_body stamp m =
     (let nl = [CHR 0x0A]
      in nt_text m @ nl @ nl @ ''Device: '' @ nt_device m @ '' ('' @ nt_serial m @ '')'' @ nl @ ''Rule: '' @ nt_rule m @ nl @
         ''Severity: '' @ nt_severity m @ nl @ ''Time: '' @ stamp (nt_at m) @ nl)"

definition send_note ::
  "(chancfg \<Rightarrow> anote \<Rightarrow> string option) \<Rightarrow> (chancfg \<Rightarrow> anote \<Rightarrow> string option) \<Rightarrow> (chancfg \<Rightarrow> anote \<Rightarrow> string option) \<Rightarrow>
     (string \<Rightarrow> string) \<Rightarrow> string \<Rightarrow> chancfg \<Rightarrow> anote \<Rightarrow> string option" where
  "send_note email webhook syslog quote kind c m =
     (if kind = ChannelEmail then email c m
      else if kind = ChannelWebhook then webhook c m
      else if kind = ChannelSyslog then syslog c m
      else Some (''unknown channel kind '' @ quote kind))"

text \<open>The syslog line; a missing severity of the Go map reads as 0. Over TCP it is preceded by its length.\<close>

definition syslog_severity :: "anote \<Rightarrow> nat" where
  "syslog_severity m =
     (if nt_event m = ''resolved'' then 5
      else if nt_severity m = ''critical'' then 2
      else if nt_severity m = ''warning'' then 4
      else if nt_severity m = ''info'' then 6 else 0)"

definition syslog_line :: "(time \<Rightarrow> string) \<Rightarrow> string \<Rightarrow> chancfg \<Rightarrow> anote \<Rightarrow> string" where
  "syslog_line stamp hostname c m =
     (let host = (if hostname = [] then ''-'' else hostname);
          text' = map (\<lambda>x. if x = CHR 0x0A then CHR '' '' else x) (note_subject m @ '': '' @ nt_text m);
          line = ''<'' @ show_nat (16 * 8 + syslog_severity m) @ ''>1 '' @ stamp (nt_at m) @ '' '' @ host @ '' taktaplus - alert - '' @ text'
      in if cc_protocol c = ''tcp'' then show_nat (length line) @ '' '' @ line else line)"

text \<open>What a webhook's status answers: the status line is \<open>text\<close>.\<close>

definition webhook_result :: "int \<Rightarrow> string \<Rightarrow> string option" where
  "webhook_result status txt = (if status div 100 \<noteq> 2 then Some (''webhook answered '' @ txt) else None)"

subsection \<open>Conditions\<close>

record condition =
  cn_subject :: string
  cn_message :: string

text \<open>\<open>fmt\<close>'s \<open>%.0f\<close>: to the nearest integer, to the even one in the middle.\<close>

definition show_rounded :: "rat \<Rightarrow> string" where
  "show_rounded v =
     (let f = \<lfloor>v\<rfloor>; d = v - of_int f
      in show_int (if d < 1 / 2 \<or> (d = 1 / 2 \<and> even f) then f else f + 1))"

text \<open>The conversion of a \<open>float64\<close> to a duration truncates.\<close>

definition truncated :: "rat \<Rightarrow> int" where "truncated q = (if q \<ge> 0 then \<lfloor>q\<rfloor> else \<lceil>q\<rceil>)"

definition expiry_text :: "(time \<Rightarrow> string) \<Rightarrow> string \<Rightarrow> time \<Rightarrow> time \<Rightarrow> string" where
  "expiry_text date what at' now =
     (let days = \<lceil>(of_int (at' - now) :: rat) / of_int day\<rceil>
      in if days < 0 then what @ '' expired '' @ show_int (- days) @ '' days ago ('' @ date at' @ '')''
         else what @ '' expires in '' @ show_int days @ '' days ('' @ date at' @ '')'')"

definition percent_condition :: "rule \<Rightarrow> time \<Rightarrow> snapshot \<Rightarrow> string \<Rightarrow> rat \<Rightarrow> condition list" where
  "percent_condition r now st name v =
     (if now - sn_at st < 10 * minute \<and> v \<ge> ar_threshold r
      then [\<lparr>cn_subject = [], cn_message = name @ '' usage is '' @ show_rounded v @ ''% (threshold '' @
               show_rounded (ar_threshold r) @ ''%)''\<rparr>]
      else [])"

definition offline_condition :: "drow \<Rightarrow> condition list" where
  "offline_condition d =
     (if d_status d = ''offline'' \<or> d_status d = ''error''
      then [\<lparr>cn_subject = [], cn_message =
               (if d_status d = ''error'' then ''device refused the connection'' else ''device is unreachable'') @
               (if d_last_error d \<noteq> [] then '': '' @ d_last_error d else [])\<rparr>]
      else [])"

definition contract_conditions :: "(time \<Rightarrow> string) \<Rightarrow> rule \<Rightarrow> time \<Rightarrow> contract list \<Rightarrow> condition list" where
  "contract_conditions date r now cs =
     (let limit = now + truncated (ar_threshold r * 24) * hour
      in List.map_filter
           (\<lambda>c. case ct_expires c of
                  None \<Rightarrow> None
                | Some e \<Rightarrow>
                    if e > limit \<or> e < now - 30 * day then None
                    else Some \<lparr>cn_subject = ct_name c, cn_message = expiry_text date (''FortiGuard contract '' @ ct_name c) e now\<rparr>) cs)"

definition license_item :: "'l alertenv \<Rightarrow> rule \<Rightarrow> time \<Rightarrow> 'l \<Rightarrow> string \<Rightarrow> time \<Rightarrow> condition option" where
  "license_item A r now lic serial e =
     (if e < now + truncated (ar_threshold r * 24) * hour
      then (let st = lic_device_status (av_lic A) lic serial now
            in Some \<lparr>cn_subject = [], cn_message = expiry_text (av_date A) ''TaktaPlus subscription'' e now @
                      (if st = av_grace A then ''; in grace period until '' @ av_date A (e + av_grace_days A lic * day)
                       else if st = av_expired A then ''; the device is now read-only'' else [])\<rparr>)
      else None)"

text \<open>The first entry of the device that is about to expire.\<close>

definition license_conditions :: "'l alertenv \<Rightarrow> rule \<Rightarrow> time \<Rightarrow> 'l option \<Rightarrow> string \<Rightarrow> condition list" where
  "license_conditions A r now lic serial =
     (case lic of
        None \<Rightarrow> []
      | Some l \<Rightarrow>
          if serial = [] then []
          else (case first_some (\<lambda>(s, e). if s \<noteq> serial then None else license_item A r now l serial e) (av_items A l) of
                  None \<Rightarrow> [] | Some c \<Rightarrow> [c]))"

definition conditions :: "'l alertenv \<Rightarrow> rule \<Rightarrow> device \<Rightarrow> snapshot option \<Rightarrow> 'l option \<Rightarrow> time \<Rightarrow> condition list" where
  "conditions A r d st lic now =
     (if ar_kind r = KindOffline then offline_condition (drow.truncate d)
      else if ar_kind r = KindLicenseExpiry then license_conditions A r now lic (d_serial d)
      else (case st of
              None \<Rightarrow> []
            | Some s \<Rightarrow>
                if ar_kind r = KindCPU then percent_condition r now s ''CPU'' (sn_cpu s)
                else if ar_kind r = KindMem then percent_condition r now s ''Memory'' (sn_mem s)
                else if ar_kind r = KindDisk then (if sn_disk s \<ge> 0 then percent_condition r now s ''Disk'' (sn_disk s) else [])
                else if ar_kind r = KindContractExpiry then contract_conditions (av_date A) r now (sn_contracts s)
                else []))"

subsection \<open>Evaluation\<close>

text \<open>A notification to send: the alert to mark as notified (0 for none), the rule and the message.\<close>

record pending =
  pn_alert :: int
  pn_rule :: rule
  pn_msg :: anote

definition rule_note :: "rule \<Rightarrow> device \<Rightarrow> time \<Rightarrow> string \<Rightarrow> string \<Rightarrow> anote" where
  "rule_note r d now event txt =
     \<lparr>nt_event = event, nt_severity = ar_severity r, nt_rule = ar_name r, nt_device = d_name d, nt_serial = d_serial d,
      nt_text = txt, nt_at = now\<rparr>"

definition is_pending :: "rule \<Rightarrow> int \<Rightarrow> string \<Rightarrow> pend \<Rightarrow> bool" where
  "is_pending r dev subject p \<longleftrightarrow> pd_rule p = ar_id r \<and> pd_device p = dev \<and> pd_subject p = subject"

definition is_alert :: "rule \<Rightarrow> int \<Rightarrow> string \<Rightarrow> alert \<Rightarrow> bool" where
  "is_alert r dev subject a \<longleftrightarrow> al_rule a = ar_id r \<and> al_device a = dev \<and> al_subject a = subject \<and> al_open a"

text \<open>The upsert of the time since when a condition holds.\<close>

definition pend_since :: "rule \<Rightarrow> int \<Rightarrow> time \<Rightarrow> string \<Rightarrow> alertdb \<Rightarrow> alertdb \<times> time" where
  "pend_since r dev now subject st =
     (case List.find (is_pending r dev subject) (pendings st) of
        Some p \<Rightarrow> (st, pd_since p)
      | None \<Rightarrow>
          (st\<lparr>pendings := pendings st @ [\<lparr>pd_rule = ar_id r, pd_device = dev, pd_subject = subject, pd_since = now\<rparr>]\<rparr>, now))"

definition new_alert :: "rule \<Rightarrow> int \<Rightarrow> time \<Rightarrow> condition \<Rightarrow> int \<Rightarrow> alert" where
  "new_alert r dev now c i =
     \<lparr>al_id = i, al_rule = ar_id r, al_device = dev, al_subject = cn_subject c, al_severity = ar_severity r,
      al_message = cn_message c, al_open = True, al_opened = now, al_resolved = None, al_notified = None, al_acked_by = [], al_acked = None\<rparr>"

definition repeat_due :: "rule \<Rightarrow> time \<Rightarrow> alert \<Rightarrow> bool" where
  "repeat_due r now a \<longleftrightarrow>
     ar_repeat r > 0 \<and> al_acked a = None \<and>
     (case al_notified a of None \<Rightarrow> True | Some t \<Rightarrow> now - t \<ge> ar_repeat r * minute)"

definition open_alert :: "rule \<Rightarrow> device \<Rightarrow> time \<Rightarrow> condition \<Rightarrow> alertdb \<Rightarrow> alertdb \<times> pending list" where
  "open_alert r d now c st =
     (case List.find (is_alert r (d_id d) (cn_subject c)) (alerts st) of
        None \<Rightarrow>
          (st\<lparr>alerts := alerts st @ [new_alert r (d_id d) now c (next_alert st)], next_alert := next_alert st + 1\<rparr>,
           [\<lparr>pn_alert = next_alert st, pn_rule = r, pn_msg = rule_note r d now ''opened'' (cn_message c)\<rparr>])
      | Some a \<Rightarrow>
          (st\<lparr>alerts := upd_rows (\<lambda>b. al_id b = al_id a) (\<lambda>b. b\<lparr>al_message := cn_message c\<rparr>) (alerts st)\<rparr>,
           if repeat_due r now a
           then [\<lparr>pn_alert = al_id a, pn_rule = r, pn_msg = rule_note r d now ''opened'' (cn_message c)\<rparr>] else []))"

definition apply_condition :: "rule \<Rightarrow> device \<Rightarrow> time \<Rightarrow> condition \<Rightarrow> alertdb \<Rightarrow> alertdb \<times> pending list" where
  "apply_condition r d now c st =
     (if ar_duration r > 0
      then (case pend_since r (d_id d) now (cn_subject c) st of
              (st1, since) \<Rightarrow> if now - since < ar_duration r * minute then (st1, []) else open_alert r d now c st1)
      else open_alert r d now c st)"

fun apply_conditions :: "rule \<Rightarrow> device \<Rightarrow> time \<Rightarrow> condition list \<Rightarrow> alertdb \<Rightarrow> alertdb \<times> pending list" where
  "apply_conditions r d now [] st = (st, [])"
| "apply_conditions r d now (c # cs) st =
     (case apply_condition r d now c st of
        (st1, ns) \<Rightarrow> (case apply_conditions r d now cs st1 of (st2, ms) \<Rightarrow> (st2, ns @ ms)))"

text \<open>What no longer holds.\<close>

definition gone :: "rule \<Rightarrow> int \<Rightarrow> string list \<Rightarrow> alert \<Rightarrow> bool" where
  "gone r dev subjects a \<longleftrightarrow> al_rule a = ar_id r \<and> al_device a = dev \<and> al_open a \<and> al_subject a \<notin> set subjects"

definition resolve_gone :: "rule \<Rightarrow> device \<Rightarrow> time \<Rightarrow> string list \<Rightarrow> alertdb \<Rightarrow> alertdb \<times> pending list" where
  "resolve_gone r d now subjects st =
     (st\<lparr>pendings := del_rows (\<lambda>p. pd_rule p = ar_id r \<and> pd_device p = d_id d \<and> pd_subject p \<notin> set subjects) (pendings st),
        alerts := upd_rows (gone r (d_id d) subjects) (\<lambda>a. a\<lparr>al_open := False, al_resolved := Some now\<rparr>) (alerts st)\<rparr>,
      map (\<lambda>a. \<lparr>pn_alert = 0, pn_rule = r, pn_msg = rule_note r d now ''resolved'' (''Resolved: '' @ al_message a)\<rparr>)
        (filter (gone r (d_id d) subjects) (alerts st)))"

definition apply_rule :: "rule \<Rightarrow> device \<Rightarrow> condition list \<Rightarrow> time \<Rightarrow> alertdb \<Rightarrow> alertdb \<times> pending list" where
  "apply_rule r d conds now st =
     (case apply_conditions r d now conds st of
        (st1, ns) \<Rightarrow> (case resolve_gone r d now (map cn_subject conds) st1 of (st2, ms) \<Rightarrow> (st2, ns @ ms)))"

definition in_rule_group :: "rule \<Rightarrow> device \<Rightarrow> bool" where
  "in_rule_group r d \<longleftrightarrow> (case ar_group r of None \<Rightarrow> True | Some g \<Rightarrow> d_group d = Some g)"

definition eval_device :: "'l alertenv \<Rightarrow> inv \<Rightarrow> time \<Rightarrow> rule \<Rightarrow> device \<Rightarrow> alertdb \<times> pending list \<Rightarrow> alertdb \<times> pending list" where
  "eval_device A I now r d acc =
     (if ar_kind r \<noteq> KindLicenseExpiry \<and> \<not> operational (av_lic A) d then acc
      else (let conds = (if in_rule_group r d
                         then conditions A r d (status_of (d_id d) I) (g_lic (av_guard A)) now else [])
            in case apply_rule r d conds now (fst acc) of (st1, ns) \<Rightarrow> (st1, snd acc @ ns)))"

definition eval_rules :: "'l alertenv \<Rightarrow> inv \<Rightarrow> time \<Rightarrow> device list \<Rightarrow> alertdb \<Rightarrow> alertdb \<times> pending list" where
  "eval_rules A I now ds st =
     fold (\<lambda>r acc. if ar_enabled r then fold (eval_device A I now r) ds acc else acc) (list_rules st) (st, [])"

definition mark_notified :: "pending \<Rightarrow> alertdb \<Rightarrow> alertdb" where
  "mark_notified n st =
     (if pn_alert n \<noteq> 0
      then st\<lparr>alerts := upd_rows (\<lambda>a. al_id a = pn_alert n) (\<lambda>a. a\<lparr>al_notified := Some (nt_at (pn_msg n))\<rparr>) (alerts st)\<rparr>
      else st)"

text \<open>The messages given to \<open>send\<close>, in order, with the identifier of their channel.\<close>

definition sent_notes :: "alertdb \<Rightarrow> pending list \<Rightarrow> (int \<times> anote) list" where
  "sent_notes st ns =
     (let cs = load_channels ac_enabled st
      in concat (map (\<lambda>n. map (\<lambda>c. (ac_id c, pn_msg n)) (filter (\<lambda>c. ac_id c \<in> set (ar_channels (pn_rule n))) cs)) ns))"

definition notify :: "pending list \<Rightarrow> alertdb \<Rightarrow> alertdb \<times> (int \<times> anote) list" where
  "notify ns st = (if ns = [] then (st, []) else (fold mark_notified ns st, sent_notes st ns))"

definition evaluate :: "'l alertenv \<Rightarrow> time \<Rightarrow> inv \<Rightarrow> alertdb \<Rightarrow> (alertdb, alerror, (int \<times> anote) list) outcome" where
  "evaluate A now I st =
     (case list_devices (av_lic A) (av_inv A) now (av_guard A) I None [] of
        Inl e \<Rightarrow> (st, Inl (AlInventory e))
      | Inr ds \<Rightarrow>
          (case eval_rules A I now ds st of
             (st1, ns) \<Rightarrow> (case notify ns st1 of (st2, sent) \<Rightarrow> (st2, Inr sent))))"

subsection \<open>Reading and acknowledging\<close>

text \<open>\<open>state\<close> is \<open>open\<close>, \<open>resolved\<close> or empty; the joins drop alerts without a rule or a device.\<close>

definition list_alerts :: "inv \<Rightarrow> string \<Rightarrow> int \<Rightarrow> int \<Rightarrow> alertdb \<Rightarrow> alert list" where
  "list_alerts I state dev limit st =
     take (nat (if limit \<le> 0 \<or> limit > 1000 then 200 else limit))
       (sort_key (\<lambda>a. (\<not> al_open a, - al_opened a))
         (filter (\<lambda>a. (state = [] \<or> (if al_open a then ''open'' else ''resolved'') = state) \<and> (dev = 0 \<or> al_device a = dev) \<and>
                      find_row ar_id (al_rule a) (rules st) \<noteq> None \<and> find_row d_id (al_device a) (devices I) \<noteq> None) (alerts st)))"

definition ack :: "time \<Rightarrow> int \<Rightarrow> string \<Rightarrow> alertdb \<Rightarrow> (alertdb, alerror, unit) outcome" where
  "ack now i by' st =
     (if \<not> list_ex (\<lambda>a. al_id a = i \<and> al_open a) (alerts st) then (st, Inl AlNotFound)
      else (st\<lparr>alerts := upd_rows (\<lambda>a. al_id a = i \<and> al_open a) (\<lambda>a. a\<lparr>al_acked_by := by', al_acked := Some now\<rparr>) (alerts st)\<rparr>,
            Inr ()))"

definition open_count :: "string \<Rightarrow> alertdb \<Rightarrow> nat" where
  "open_count severity st = count_rows (\<lambda>a. al_open a \<and> al_severity a = severity) (alerts st)"

subsection \<open>Secrets of the channels\<close>

lemma validated_secrets:
  assumes "validate_channel A kind c = Inr c'"
  shows "cc_smtp_password c' = cc_smtp_password c \<and> cc_secret c' = cc_secret c"
proof (cases "kind = ChannelEmail")
  case True
  with assms show ?thesis by (auto simp: validate_channel_def validate_email_def Let_def split: if_splits option.splits)
next
  case False
  with assms show ?thesis by (auto simp: validate_channel_def Let_def split: if_splits option.splits)
qed

interpretation smtp_password: redaction cc_smtp_password chan_redacted "merged_config A kind"
  by unfold_locales (auto simp: chan_redacted_def keep_secrets_def merged_config_def Let_def dest: validated_secrets)

interpretation webhook_secret: redaction cc_secret chan_redacted "merged_config A kind"
  by unfold_locales (auto simp: chan_redacted_def keep_secrets_def merged_config_def Let_def dest: validated_secrets)

subsection \<open>Alerts follow the conditions\<close>

definition psince :: "rule \<Rightarrow> int \<Rightarrow> string \<Rightarrow> alertdb \<Rightarrow> time option" where
  "psince r dev s st = map_option pd_since (List.find (is_pending r dev s) (pendings st))"

definition alert_open :: "rule \<Rightarrow> int \<Rightarrow> string \<Rightarrow> alertdb \<Rightarrow> bool" where
  "alert_open r dev s st \<longleftrightarrow> (\<exists>a\<in>set (alerts st). is_alert r dev s a)"

definition long_enough :: "rule \<Rightarrow> time \<Rightarrow> time option \<Rightarrow> bool" where
  "long_enough r now since \<longleftrightarrow>
     ar_duration r \<le> 0 \<or> now - (case since of None \<Rightarrow> now | Some t \<Rightarrow> t) \<ge> ar_duration r * minute"

lemma find_append:
  "List.find P (xs @ ys) = (case List.find P xs of None \<Rightarrow> List.find P ys | Some x \<Rightarrow> Some x)"
  by (induction xs) auto

lemma pend_since_effect:
  "psince r dev s (fst (pend_since r dev now x st)) =
     (if s = x \<and> psince r dev s st = None then Some now else psince r dev s st)"
  "snd (pend_since r dev now x st) = (case psince r dev x st of None \<Rightarrow> now | Some t \<Rightarrow> t)"
  "alerts (fst (pend_since r dev now x st)) = alerts st"
  by (auto simp: pend_since_def psince_def find_append is_pending_def split: option.splits)

lemma open_alert_effect:
  "psince r dev s (fst (open_alert r d now c st)) = psince r dev s st"
  "alert_open r (d_id d) s (fst (open_alert r d now c st)) \<longleftrightarrow> alert_open r (d_id d) s st \<or> s = cn_subject c"
proof -
  show "psince r dev s (fst (open_alert r d now c st)) = psince r dev s st"
    by (simp add: open_alert_def psince_def split: option.split)
  show "alert_open r (d_id d) s (fst (open_alert r d now c st)) \<longleftrightarrow> alert_open r (d_id d) s st \<or> s = cn_subject c"
  proof (cases "List.find (is_alert r (d_id d) (cn_subject c)) (alerts st)")
    case None
    then show ?thesis by (auto simp: open_alert_def alert_open_def is_alert_def new_alert_def)
  next
    case (Some a)
    then have "alert_open r (d_id d) (cn_subject c) st" by (auto simp: alert_open_def find_Some_iff)
    moreover have "is_alert r (d_id d) s (if al_id b = al_id a then b\<lparr>al_message := cn_message c\<rparr> else b) = is_alert r (d_id d) s b" for b
      by (simp add: is_alert_def)
    moreover have "alerts (fst (open_alert r d now c st)) =
        upd_rows (\<lambda>b. al_id b = al_id a) (\<lambda>b. b\<lparr>al_message := cn_message c\<rparr>) (alerts st)"
      by (simp add: open_alert_def Some)
    ultimately show ?thesis unfolding alert_open_def by (simp only: ex_upd_rows) blast
  qed
qed

lemma apply_condition_effect:
  "psince r (d_id d) s (fst (apply_condition r d now c st)) =
     (if ar_duration r > 0 \<and> s = cn_subject c \<and> psince r (d_id d) s st = None then Some now else psince r (d_id d) s st)"
  "alert_open r (d_id d) s (fst (apply_condition r d now c st)) \<longleftrightarrow>
     alert_open r (d_id d) s st \<or> (s = cn_subject c \<and> long_enough r now (psince r (d_id d) s st))"
proof -
  obtain st1 t where p: "pend_since r (d_id d) now (cn_subject c) st = (st1, t)" by fastforce
  then have st1: "st1 = fst (pend_since r (d_id d) now (cn_subject c) st)" and t: "t = snd (pend_since r (d_id d) now (cn_subject c) st)"
    by simp_all
  have same: "alert_open r (d_id d) s st1 = alert_open r (d_id d) s st" by (simp add: alert_open_def st1 pend_since_effect(3))
  show "psince r (d_id d) s (fst (apply_condition r d now c st)) =
     (if ar_duration r > 0 \<and> s = cn_subject c \<and> psince r (d_id d) s st = None then Some now else psince r (d_id d) s st)"
    using pend_since_effect(1) [of r "d_id d" s now "cn_subject c" st]
    by (auto simp: apply_condition_def p open_alert_effect(1) st1 [symmetric])
  show "alert_open r (d_id d) s (fst (apply_condition r d now c st)) \<longleftrightarrow>
     alert_open r (d_id d) s st \<or> (s = cn_subject c \<and> long_enough r now (psince r (d_id d) s st))"
    using t pend_since_effect(2) [of r "d_id d" now "cn_subject c" st]
    by (auto simp: apply_condition_def p open_alert_effect(2) same long_enough_def)
qed

lemma apply_conditions_effect:
  "psince r (d_id d) s (fst (apply_conditions r d now cs st)) =
     (if ar_duration r > 0 \<and> s \<in> cn_subject ` set cs \<and> psince r (d_id d) s st = None then Some now else psince r (d_id d) s st) \<and>
   (alert_open r (d_id d) s (fst (apply_conditions r d now cs st)) \<longleftrightarrow>
     alert_open r (d_id d) s st \<or> (s \<in> cn_subject ` set cs \<and> long_enough r now (psince r (d_id d) s st)))"
proof (induction cs arbitrary: st)
  case (Cons c cs)
  let ?st1 = "fst (apply_condition r d now c st)"
  have step: "fst (apply_conditions r d now (c # cs) st) = fst (apply_conditions r d now cs ?st1)"
    by (simp split: prod.split)
  have same: "long_enough r now (Some now) = long_enough r now None" by (simp add: long_enough_def)
  show ?case
    unfolding step using Cons.IH [of ?st1] apply_condition_effect [of r d s now c st] same by auto
qed simp

lemma find_del_rows: "(\<And>x. P x \<Longrightarrow> \<not> Q x) \<Longrightarrow> List.find P (del_rows Q xs) = List.find P xs"
  by (induction xs) (auto simp: del_rows_def)

lemma find_del_all: "(\<And>x. P x \<Longrightarrow> Q x) \<Longrightarrow> List.find P (del_rows Q xs) = None"
  by (auto simp: find_None_iff del_rows_def)

lemma resolve_gone_effect:
  "psince r (d_id d) s (fst (resolve_gone r d now subjects st)) = (if s \<in> set subjects then psince r (d_id d) s st else None)"
  "alert_open r (d_id d) s (fst (resolve_gone r d now subjects st)) \<longleftrightarrow> s \<in> set subjects \<and> alert_open r (d_id d) s st"
proof -
  let ?Q = "\<lambda>p. pd_rule p = ar_id r \<and> pd_device p = d_id d \<and> pd_subject p \<notin> set subjects"
  have "List.find (is_pending r (d_id d) s) (del_rows ?Q (pendings st)) =
        (if s \<in> set subjects then List.find (is_pending r (d_id d) s) (pendings st) else None)"
    by (auto simp: is_pending_def intro: find_del_rows find_del_all)
  then show "psince r (d_id d) s (fst (resolve_gone r d now subjects st)) = (if s \<in> set subjects then psince r (d_id d) s st else None)"
    by (simp add: psince_def resolve_gone_def)
  show "alert_open r (d_id d) s (fst (resolve_gone r d now subjects st)) \<longleftrightarrow> s \<in> set subjects \<and> alert_open r (d_id d) s st"
    by (auto simp: alert_open_def resolve_gone_def upd_rows_def is_alert_def gone_def)
qed

lemma apply_rule_effect:
  "psince r (d_id d) s (fst (apply_rule r d conds now st)) =
     (if s \<notin> cn_subject ` set conds then None
      else if ar_duration r > 0 \<and> psince r (d_id d) s st = None then Some now else psince r (d_id d) s st)"
  "alert_open r (d_id d) s (fst (apply_rule r d conds now st)) \<longleftrightarrow>
     s \<in> cn_subject ` set conds \<and> (alert_open r (d_id d) s st \<or> long_enough r now (psince r (d_id d) s st))"
proof -
  have step: "fst (apply_rule r d conds now st) = fst (resolve_gone r d now (map cn_subject conds) (fst (apply_conditions r d now conds st)))"
    by (simp add: apply_rule_def split: prod.split)
  show "psince r (d_id d) s (fst (apply_rule r d conds now st)) =
     (if s \<notin> cn_subject ` set conds then None
      else if ar_duration r > 0 \<and> psince r (d_id d) s st = None then Some now else psince r (d_id d) s st)"
    unfolding step resolve_gone_effect(1) using apply_conditions_effect [of r d s now conds st] by simp
  show "alert_open r (d_id d) s (fst (apply_rule r d conds now st)) \<longleftrightarrow>
     s \<in> cn_subject ` set conds \<and> (alert_open r (d_id d) s st \<or> long_enough r now (psince r (d_id d) s st))"
    unfolding step resolve_gone_effect(2) using apply_conditions_effect [of r d s now conds st] by auto
qed

text \<open>
  The reference: a history of evaluations, the latest first, each with its time and the subjects that
  fired. \<open>held_since\<close> is when the current uninterrupted run of a subject began; it is alerted from
  the first evaluation of the run at which it has lasted long enough.
\<close>

fun held_since :: "(time \<times> string set) list \<Rightarrow> string \<Rightarrow> time option" where
  "held_since [] s = None"
| "held_since ((now, S) # es) s =
     (if s \<in> S then Some (case held_since es s of None \<Rightarrow> now | Some t \<Rightarrow> t) else None)"

fun alerted :: "int \<Rightarrow> (time \<times> string set) list \<Rightarrow> string \<Rightarrow> bool" where
  "alerted minutes [] s = False"
| "alerted minutes ((now, S) # es) s =
     (s \<in> S \<and> (alerted minutes es s \<or> minutes \<le> 0 \<or>
       now - (case held_since es s of None \<Rightarrow> now | Some t \<Rightarrow> t) \<ge> minutes * minute))"

fun run_evals :: "rule \<Rightarrow> device \<Rightarrow> (time \<times> condition list) list \<Rightarrow> alertdb \<Rightarrow> alertdb" where
  "run_evals r d [] st = st"
| "run_evals r d ((now, conds) # es) st = fst (apply_rule r d conds now (run_evals r d es st))"

abbreviation fired :: "(time \<times> condition list) list \<Rightarrow> (time \<times> string set) list" where
  "fired es \<equiv> map (\<lambda>(now, conds). (now, cn_subject ` set conds)) es"

lemma psince_held:
  assumes "psince r (d_id d) s st = None" and "ar_duration r > 0"
  shows "psince r (d_id d) s (run_evals r d es st) = held_since (fired es) s"
proof (induction es)
  case (Cons e es)
  then show ?case using assms(2) by (cases e) (auto simp: apply_rule_effect(1) split: option.splits)
qed (simp add: assms(1))

text \<open>
  C35: The open alerts of a rule on a device follow its conditions: starting from none, after any
  history of evaluations an alert of a subject is open exactly when the subject fired in the last
  evaluation and had been firing without interruption for the rule's duration at some evaluation
  of its current run.
\<close>

theorem alerts_follow_conditions:
  assumes "\<forall>s. psince r (d_id d) s st = None \<and> \<not> alert_open r (d_id d) s st"
  shows "alert_open r (d_id d) s (run_evals r d es st) \<longleftrightarrow> alerted (ar_duration r) (fired es) s"
proof (induction es)
  case (Cons e es)
  obtain now conds where e: "e = (now, conds)" by fastforce
  show ?case
  proof (cases "ar_duration r > 0")
    case True
    with Cons psince_held [OF _ True, of d s st es] assms show ?thesis
      by (auto simp: e apply_rule_effect(2) long_enough_def)
  next
    case False
    with Cons show ?thesis by (auto simp: e apply_rule_effect(2) long_enough_def)
  qed
qed (use assms in simp)

definition sample_rule :: rule where
  "sample_rule = \<lparr>ar_id = 1, ar_name = ''CPU'', ar_kind = KindCPU, ar_threshold = 90, ar_duration = 5, ar_severity = ''warning'',
     ar_group = None, ar_channels = [1], ar_repeat = 60, ar_enabled = True\<rparr>"

definition empty_alerts :: alertdb where
  "empty_alerts = \<lparr>rules = [], channels = [], alerts = [], pendings = [], next_rule = 1, next_channel = 1, next_alert = 1\<rparr>"

definition sample_alert_device :: device where
  "sample_alert_device = (case get_device sample_lic sample_env 9 (new_guard ''pk'') sample_inv 1 of Inr d \<Rightarrow> d)"

definition sample_cond :: condition where "sample_cond = \<lparr>cn_subject = [], cn_message = ''CPU usage is 95% (threshold 90%)''\<rparr>"

theorem alerts_follow_conditions_witness:
  "alert_open sample_rule (d_id sample_alert_device) []
     (run_evals sample_rule sample_alert_device [(9 * minute, [sample_cond]), (5 * minute, [sample_cond]), (4 * minute, [sample_cond]), (0, [])] empty_alerts) \<and>
   \<not> alert_open sample_rule (d_id sample_alert_device) []
     (run_evals sample_rule sample_alert_device [(5 * minute, [sample_cond]), (4 * minute, [sample_cond]), (0, [])] empty_alerts)"
proof -
  have "\<forall>s. psince sample_rule (d_id sample_alert_device) s empty_alerts = None \<and> \<not> alert_open sample_rule (d_id sample_alert_device) s empty_alerts"
    by (simp add: psince_def alert_open_def empty_alerts_def)
  note follow = alerts_follow_conditions [OF this]
  show ?thesis unfolding follow by (simp add: sample_rule_def sample_cond_def)
qed

end
