(* ===== verification/Monitor.thy ===== *)
theory Monitor
  imports Alerts Changes
begin

text \<open>
  The background poller (\<open>internal/monitor/monitor.go\<close>): which devices are due for a poll, what a
  poll does to the inventory, the refresh button and one round of the loop.

  The three maps of the \<open>Monitor\<close> are the fields of \<open>monitor\<close>; a time that is not in a map reads as
  the zero time. What the device answers during a poll are the transports of the environment \<open>V\<close>.
\<close>

subsection \<open>State\<close>

record mon_opt =
  mo_health :: time
  mo_probe :: time
  mo_discover :: time
  mo_keep :: time

definition mon_default :: "mon_opt \<Rightarrow> mon_opt" where
  "mon_default q =
     (let def = (\<lambda>v d. if v = 0 then d else v)
      in \<lparr>mo_health = def (mo_health q) minute, mo_probe = def (mo_probe q) (6 * hour),
          mo_discover = def (mo_discover q) (10 * minute), mo_keep = def (mo_keep q) (30 * 24 * hour)\<rparr>)"

record monitor =
  mn_health :: "int \<rightharpoonup> time"
  mn_probe :: "int \<rightharpoonup> time"
  mn_running :: "int set"
  mn_eval :: time
  mn_prune :: time

definition last_time :: "(int \<rightharpoonup> time) \<Rightarrow> int \<Rightarrow> time" where
  "last_time m d = (case m d of None \<Rightarrow> zero_time | Some t \<Rightarrow> t)"

definition empty_monitor :: monitor where
  "empty_monitor = \<lparr>mn_health = Map.empty, mn_probe = Map.empty, mn_running = {}, mn_eval = zero_time, mn_prune = zero_time\<rparr>"

subsection \<open>Polling\<close>

text \<open>The \<open>switch\<close> of \<open>schedule\<close>: no poll, or a poll with or without a probe.\<close>

definition poll_due :: "mon_opt \<Rightarrow> 'l licapi \<Rightarrow> time \<Rightarrow> monitor \<Rightarrow> device \<Rightarrow> bool option" where
  "poll_due q L now m d =
     (let since = now - last_time (mn_probe m) (d_id d);
          probe_due = since \<ge> mo_probe q;
          health_due = now - last_time (mn_health m) (d_id d) \<ge> mo_health q
      in if d_id d \<in> mn_running m then None
         else if d_serial d = [] then (if since < mo_discover q then None else Some True)
         else if \<not> operational L d then None
         else if \<not> probe_due \<and> \<not> health_due then None
         else Some probe_due)"

text \<open>A device with a due poll is marked as running before its goroutine starts; the jobs are returned.\<close>

definition start_poll :: "mon_opt \<Rightarrow> 'l licapi \<Rightarrow> time \<Rightarrow> device \<Rightarrow> monitor \<times> (device \<times> bool) list \<Rightarrow> monitor \<times> (device \<times> bool) list" where
  "start_poll q L now d acc =
     (case poll_due q L now (fst acc) d of
        None \<Rightarrow> acc
      | Some with_probe \<Rightarrow>
          ((fst acc)\<lparr>mn_running := insert (d_id d) (mn_running (fst acc)),
                    mn_probe := (if with_probe then (mn_probe (fst acc))(d_id d \<mapsto> now) else mn_probe (fst acc)),
                    mn_health := (mn_health (fst acc))(d_id d \<mapsto> now)\<rparr>,
           snd acc @ [(d, with_probe)]))"

definition schedule :: "mon_opt \<Rightarrow> 'l licapi \<Rightarrow> invenv \<Rightarrow> time \<Rightarrow> 'l guard \<Rightarrow> inv \<Rightarrow> monitor \<Rightarrow> monitor \<times> (device \<times> bool) list" where
  "schedule q L V now g I m =
     (case list_devices L V now g I None [] of
        Inl e \<Rightarrow> (m, [])
      | Inr ds \<Rightarrow> fold (start_poll q L now) ds (m, []))"

definition refresh_health :: "invenv \<Rightarrow> time \<Rightarrow> device \<Rightarrow> inv \<Rightarrow> (inv, ierror, unit) outcome" where
  "refresh_health V now d I =
     (case driver_health (inv_driver V d) of
        Inl e \<Rightarrow> (mark_unreachable now (d_id d) e I, Inl (InvDevice e))
      | Inr h \<Rightarrow> save_health now (d_id d) h I)"

definition refresh_signatures :: "invenv \<Rightarrow> time \<Rightarrow> device \<Rightarrow> inv \<Rightarrow> (inv, ierror, unit) outcome" where
  "refresh_signatures V now d I =
     (case driver_signatures (inv_driver V d) of
        Inl e \<Rightarrow> (I, Inl (InvDevice e))
      | Inr (sigs, contracts) \<Rightarrow> save_signatures now (d_id d) sigs contracts I)"

text \<open>Errors of a poll are only logged.\<close>

definition poll :: "'l licapi \<Rightarrow> invenv \<Rightarrow> time \<Rightarrow> 'l guard \<Rightarrow> device \<Rightarrow> bool \<Rightarrow> inv \<Rightarrow> inv" where
  "poll L V now g d with_probe I =
     (if with_probe then
        (case probe L V now g (d_id d) I of
           (I1, Inl e) \<Rightarrow> I1
         | (I1, Inr nd) \<Rightarrow>
             if \<not> operational L nd then I1
             else fst (refresh_health V now nd (fst (refresh_signatures V now nd I1))))
      else fst (refresh_health V now d I))"

definition poll_done :: "int \<Rightarrow> monitor \<Rightarrow> monitor" where
  "poll_done d m = m\<lparr>mn_running := mn_running m - {d}\<rparr>"

definition refresh ::
  "'l licapi \<Rightarrow> invenv \<Rightarrow> time \<Rightarrow> 'l guard \<Rightarrow> int \<Rightarrow> monitor \<times> inv \<Rightarrow> (monitor \<times> inv, ierror, unit) outcome" where
  "refresh L V now g i S =
     (case probe L V now g i (snd S) of
        (I1, Inl e) \<Rightarrow> ((fst S, I1), Inl e)
      | (I1, Inr d) \<Rightarrow>
          (let m = (fst S)\<lparr>mn_probe := (mn_probe (fst S))(i \<mapsto> now), mn_health := (mn_health (fst S))(i \<mapsto> now)\<rparr>
           in if \<not> operational L d then ((m, I1), Inr ())
              else (case refresh_health V now d (fst (refresh_signatures V now d I1)) of (I2, r) \<Rightarrow> ((m, I2), r))))"

text \<open>One round of \<open>Run\<close>: polls are started, rules evaluated every minute and metrics pruned every day.\<close>

definition mon_round ::
  "mon_opt \<Rightarrow> 'l alertenv \<Rightarrow> time \<Rightarrow> monitor \<times> inv \<times> alertdb \<Rightarrow>
     (monitor \<times> inv \<times> alertdb) \<times> (device \<times> bool) list \<times> (int \<times> anote) list" where
  "mon_round q A now S =
     (case S of (m, I, st) \<Rightarrow>
        (case schedule q (av_lic A) (av_inv A) now (av_guard A) I m of
           (m1, jobs) \<Rightarrow>
             (let (m2, st2, sent) =
                    (if now - mn_eval m1 \<ge> minute
                     then (case evaluate A now I st of
                             (st2, r) \<Rightarrow> (m1\<lparr>mn_eval := now\<rparr>, st2, case r of Inl e \<Rightarrow> [] | Inr ns \<Rightarrow> ns))
                     else (m1, st, []));
                  (m3, I3) = (if now - mn_prune m2 \<ge> 24 * hour then (m2\<lparr>mn_prune := now\<rparr>, prune_metrics now (mo_keep q) I) else (m2, I))
              in ((m3, I3, st2), jobs, sent))))"

subsection \<open>Which devices a round polls\<close>

lemma poll_dueD:
  assumes "poll_due q L now m d = Some b"
  shows "d_id d \<notin> mn_running m" "d_serial d = [] \<or> operational L d" "d_serial d = [] \<Longrightarrow> b"
    "b \<Longrightarrow> d_serial d \<noteq> [] \<Longrightarrow> now - last_time (mn_probe m) (d_id d) \<ge> mo_probe q"
  using assms by (auto simp: poll_due_def Let_def split: if_splits)

lemma start_poll_cases:
  obtains (skip) "poll_due q L now (fst acc) d = None" "start_poll q L now d acc = acc"
  | (started) b m where "poll_due q L now (fst acc) d = Some b" "start_poll q L now d acc = (m, snd acc @ [(d, b)])"
      "mn_running m = insert (d_id d) (mn_running (fst acc))"
      "mn_health m = (mn_health (fst acc))(d_id d \<mapsto> now)"
  by (cases "poll_due q L now (fst acc) d") (auto simp: start_poll_def)

text \<open>
  The jobs under way, as the goroutines of \<open>schedule\<close>: a round adds the polls it starts, a
  finished poll takes its device out of \<open>running\<close>, \<open>Refresh\<close> only touches the two clocks.
\<close>

inductive mon_step :: "mon_opt \<Rightarrow> 'l licapi \<Rightarrow> monitor \<times> (device \<times> bool) list \<Rightarrow> monitor \<times> (device \<times> bool) list \<Rightarrow> bool"
  for q :: mon_opt and L :: "'l licapi" where
  round: "schedule q L V now g I m = (m', new) \<Longrightarrow> mon_step q L (m, jobs) (m', jobs @ new)"
| finish: "mon_step q L (m, xs @ (d, b) # ys) (poll_done (d_id d) m, xs @ ys)"
| refreshed: "refresh L V now g i (m, I) = ((m', I'), r) \<Longrightarrow> mon_step q L (m, jobs) (m', jobs)"

inductive mon_reachable :: "mon_opt \<Rightarrow> 'l licapi \<Rightarrow> monitor \<times> (device \<times> bool) list \<Rightarrow> bool"
  for q :: mon_opt and L :: "'l licapi" where
  start: "mon_reachable q L (empty_monitor, [])"
| step: "mon_reachable q L S \<Longrightarrow> mon_step q L S S' \<Longrightarrow> mon_reachable q L S'"

definition job_ids :: "(device \<times> bool) list \<Rightarrow> int list" where
  "job_ids jobs = map (\<lambda>j. d_id (fst j)) jobs"

definition mon_ok :: "monitor \<times> (device \<times> bool) list \<Rightarrow> bool" where
  "mon_ok S = (distinct (job_ids (snd S)) \<and> mn_running (fst S) = set (job_ids (snd S)))"

lemma job_ids_simps [simp]:
  "job_ids [] = []" "job_ids (j # js) = d_id (fst j) # job_ids js" "job_ids (xs @ ys) = job_ids xs @ job_ids ys"
  by (simp_all add: job_ids_def)

lemma start_poll_ok:
  assumes "mon_ok (fst acc, jobs @ snd acc)"
  shows "mon_ok (fst (start_poll q L now d acc), jobs @ snd (start_poll q L now d acc))"
proof (cases rule: start_poll_cases [of q L now acc d])
  case skip
  then show ?thesis using assms by simp
next
  case (started b m)
  then show ?thesis using assms poll_dueD(1) [OF started(1)] by (auto simp: mon_ok_def)
qed

lemma start_polls_ok:
  "mon_ok (fst acc, jobs @ snd acc) \<Longrightarrow>
     mon_ok (fst (fold (start_poll q L now) ds acc), jobs @ snd (fold (start_poll q L now) ds acc))"
  by (induction ds arbitrary: acc) (simp_all add: start_poll_ok)

lemma schedule_ok:
  assumes "mon_ok (m, jobs)" and "schedule q L V now g I m = (m', new)"
  shows "mon_ok (m', jobs @ new)"
proof (cases "list_devices L V now g I None []")
  case (Inl e)
  then show ?thesis using assms by (simp add: schedule_def)
next
  case (Inr ds)
  then show ?thesis using assms start_polls_ok [of "(m, [])" jobs q L now ds] by (simp add: schedule_def)
qed

lemma refresh_running:
  "refresh L V now g i (m, I) = ((m', I'), r) \<Longrightarrow> mn_running m' = mn_running m"
  by (auto simp: refresh_def Let_def split: prod.splits sum.splits if_splits)

lemma mon_step_ok: "mon_step q L S S' \<Longrightarrow> mon_ok S \<Longrightarrow> mon_ok S'"
proof (induction rule: mon_step.induct)
  case (round V now g I m m' new jobs)
  then show ?case by (simp add: schedule_ok)
next
  case (finish m xs d b ys)
  then show ?case by (auto simp: mon_ok_def poll_done_def)
next
  case (refreshed V now g i m I m' I' r jobs)
  then show ?case by (simp add: mon_ok_def refresh_running)
qed

lemma mon_reachable_ok: "mon_reachable q L S \<Longrightarrow> mon_ok S"
proof (induction rule: mon_reachable.induct)
  case start
  then show ?case by (simp add: mon_ok_def empty_monitor_def)
next
  case (step S S')
  then show ?case by (blast intro: mon_step_ok)
qed

subsection \<open>No device is forgotten\<close>

text \<open>A device is looked after at a time: a poll of it is running, or its last one is recent enough.\<close>

definition looked_after :: "mon_opt \<Rightarrow> time \<Rightarrow> monitor \<Rightarrow> device \<Rightarrow> bool" where
  "looked_after q now m d =
     (d_id d \<in> mn_running m \<or> now - last_time (mn_health m) (d_id d) < mo_health q)"

lemma start_poll_keeps: "looked_after q now (fst acc) x \<Longrightarrow> 0 < mo_health q \<Longrightarrow> looked_after q now (fst (start_poll q L now d acc)) x"
  by (cases rule: start_poll_cases [of q L now acc d]) (auto simp: looked_after_def last_time_def)

lemma start_poll_covers:
  assumes "d_serial d \<noteq> []" "operational L d"
  shows "looked_after q now (fst (start_poll q L now d acc)) d"
proof (cases rule: start_poll_cases [of q L now acc d])
  case skip
  then show ?thesis using assms by (auto simp: looked_after_def poll_due_def Let_def split: if_splits)
next
  case (started b m)
  then show ?thesis by (simp add: looked_after_def)
qed

lemma start_polls_keep:
  "looked_after q now (fst acc) x \<Longrightarrow> 0 < mo_health q \<Longrightarrow> looked_after q now (fst (fold (start_poll q L now) ds acc)) x"
  by (induction ds arbitrary: acc) (simp_all add: start_poll_keeps)

lemma start_polls_cover:
  "d \<in> set ds \<Longrightarrow> d_serial d \<noteq> [] \<Longrightarrow> operational L d \<Longrightarrow> 0 < mo_health q \<Longrightarrow>
     looked_after q now (fst (fold (start_poll q L now) ds acc)) d"
proof (induction ds arbitrary: acc)
  case (Cons x ds)
  show ?case
  proof (cases "x = d")
    case True
    then show ?thesis using Cons.prems by (simp add: start_polls_keep start_poll_covers)
  next
    case False
    then show ?thesis using Cons by (simp del: split_paired_All)
  qed
qed simp

lemma schedule_covers:
  assumes "list_devices L V now g I None [] = Inr ds" "d \<in> set ds" "d_serial d \<noteq> []" "operational L d" "0 < mo_health q"
  shows "looked_after q now (fst (schedule q L V now g I m)) d"
  using assms by (simp add: schedule_def start_polls_cover)

lemma schedule_only:
  assumes "schedule q L V now g I m = (m', new)" "(d, b) \<in> set new"
  shows "d_serial d = [] \<or> operational L d"
proof -
  have *: "(\<forall>j\<in>set (snd acc). d_serial (fst j) = [] \<or> operational L (fst j)) \<Longrightarrow>
     \<forall>j\<in>set (snd (fold (start_poll q L now) ds acc)). d_serial (fst j) = [] \<or> operational L (fst j)" for ds acc
  proof (induction ds arbitrary: acc)
    case (Cons d ds)
    have "\<forall>j\<in>set (snd (start_poll q L now d acc)). d_serial (fst j) = [] \<or> operational L (fst j)"
    proof (cases rule: start_poll_cases [of q L now acc d])
      case skip
      then show ?thesis using Cons.prems by simp
    next
      case (started b m)
      then show ?thesis using Cons.prems poll_dueD(2) [OF started(1)] by simp
    qed
    from Cons.IH [OF this] show ?case by simp
  qed simp
  show ?thesis
  proof (cases "list_devices L V now g I None []")
    case (Inl e)
    then show ?thesis using assms by (simp add: schedule_def)
  next
    case (Inr ds)
    then show ?thesis using assms * [of "(m, [])" ds] by (fastforce simp: schedule_def)
  qed
qed


definition sample_monitor :: monitor where
  "sample_monitor = fst (schedule (mon_default \<lparr>mo_health = 0, mo_probe = 0, mo_discover = 0, mo_keep = 0\<rparr>) sample_lic
     sample_env 9 sample_guard sample_probed empty_monitor)"


end
