(* ===== verification/Radius.thy ===== *)
theory Radius
  imports Otp Inventory FileServer
begin

text \<open>
  The RADIUS server (\<open>internal/radiussrv/radiussrv.go\<close>): the client devices with their secrets and
  the cached look-up by source address, the Message-Authenticator, and the handler of an
  Access-Request, which issues a challenge after the first factor and accepts the code.

  The packet library and HMAC-MD5 are the parameter \<open>radlib\<close>; the address library is \<open>netlib\<close> of the
  file server with name resolution added. What differs from one request to the next (the clock, the
  random draws, the directory and the SMS provider) is a \<open>radworld\<close>.
\<close>

subsection \<open>Packets\<close>

datatype rcode = AccessRequest | AccessAccept | AccessReject | AccessChallenge | OtherCode

text \<open>
  \<open>pk_set\<close>, \<open>pk_add\<close> and \<open>pk_lookup\<close> work on the attributes of a packet by type; \<open>pk_response\<close> makes the
  response to a request; \<open>pk_vendor\<close> builds a vendor specific attribute (\<open>None\<close>: it is too long).
\<close>

record 'p radlib =
  pk_code :: "'p \<Rightarrow> rcode"
  pk_lookup :: "nat \<Rightarrow> 'p \<Rightarrow> string option"
  pk_set :: "nat \<Rightarrow> string \<Rightarrow> 'p \<Rightarrow> 'p"
  pk_add :: "nat \<Rightarrow> string \<Rightarrow> 'p \<Rightarrow> 'p"
  pk_marshal :: "'p \<Rightarrow> string option"
  pk_secret :: "'p \<Rightarrow> string"
  pk_user_name :: "'p \<Rightarrow> string"
  pk_password :: "'p \<Rightarrow> string"
  pk_state :: "'p \<Rightarrow> string"
  pk_response :: "rcode \<Rightarrow> 'p \<Rightarrow> 'p"
  pk_set_state :: "string \<Rightarrow> 'p \<Rightarrow> 'p"
  pk_set_reply :: "string \<Rightarrow> 'p \<Rightarrow> 'p"
  pk_vendor :: "nat \<Rightarrow> string \<Rightarrow> string option"
  hmac_md5 :: "string \<Rightarrow> string \<Rightarrow> string"

definition authenticator_type :: nat where "authenticator_type = 80"

definition message_authenticator :: "'p radlib \<Rightarrow> 'p \<Rightarrow> string option" where
  "message_authenticator R p =
     (case pk_marshal R (pk_set R authenticator_type (replicate 16 (CHR 0x00)) p) of
        None \<Rightarrow> None | Some b \<Rightarrow> Some (hmac_md5 R (pk_secret R p) b))"

definition verify_authenticator :: "'p radlib \<Rightarrow> 'p \<Rightarrow> bool \<times> bool" where
  "verify_authenticator R p =
     (case pk_lookup R authenticator_type p of
        None \<Rightarrow> (False, False)
      | Some got \<Rightarrow> (True, message_authenticator R p = Some got))"

definition sign_response :: "'p radlib \<Rightarrow> 'p \<Rightarrow> 'p" where
  "sign_response R p0 =
     (let p = pk_set R authenticator_type (replicate 16 (CHR 0x00)) p0
      in case message_authenticator R p of None \<Rightarrow> p | Some ma \<Rightarrow> pk_set R authenticator_type ma p)"

definition fortinet_vendor :: nat where "fortinet_vendor = 12356"

text \<open>\<open>byte(2+len(grp))\<close> keeps the low eight bits of the length.\<close>

definition fortinet_group_name :: "'p radlib \<Rightarrow> string \<Rightarrow> string option" where
  "fortinet_group_name R grp =
     pk_vendor R fortinet_vendor (CHR 0x01 # char_of ((2 + length grp) mod 256) # grp)"

subsection \<open>Clients and settings\<close>

record radcfg =
  rc_require :: bool
  rc_message :: string

definition default_radcfg :: radcfg where
  "default_radcfg = \<lparr>rc_require = True, rc_message = ''Enter the code sent to your mobile''\<rparr>"

record radrow =
  rr_device :: int
  rr_secret :: string
  rr_source :: string
  rr_enabled :: bool

record radclient =
  rl_device :: int
  rl_name :: string
  rl_host :: string
  rl_source :: string
  rl_enabled :: bool
  rl_has_secret :: bool
  rl_secret :: string

definition no_client :: radclient where
  "no_client = \<lparr>rl_device = 0, rl_name = [], rl_host = [], rl_source = [], rl_enabled = False, rl_has_secret = False, rl_secret = []\<rparr>"

datatype raderror = RadInput string | RadSeal string | RadNoDevice

text \<open>\<open>rs_cache\<close> and \<open>rs_loaded\<close> are the clients by source address and the time they were read.\<close>

record radsrv =
  rs_otp :: otpdb
  rs_config :: "radcfg option"
  rs_rows :: "radrow list"
  rs_cache :: "string \<rightharpoonup> radclient"
  rs_loaded :: time

record radenv = netlib +
  rv_seal :: "string \<Rightarrow> string"
  rv_open :: "string \<Rightarrow> string + string"
  rv_resolve :: "string \<Rightarrow> string list option"

definition rad_config :: "radsrv \<Rightarrow> radcfg" where "rad_config S = setting default_radcfg (rs_config S)"

definition save_radcfg :: "radcfg \<Rightarrow> radsrv \<Rightarrow> radsrv" where
  "save_radcfg c S =
     S\<lparr>rs_config := Some (if trim_space (rc_message c) = [] then c\<lparr>rc_message := rc_message default_radcfg\<rparr> else c)\<rparr>"

definition rad_client :: "radenv \<Rightarrow> radrow list \<Rightarrow> drow \<Rightarrow> string + radclient" where
  "rad_client E rows d =
     (let c = no_client\<lparr>rl_device := d_id d, rl_name := d_name d, rl_host := d_host d\<rparr>
      in case find_row rr_device (d_id d) rows of
           None \<Rightarrow> Inr c
         | Some r \<Rightarrow>
             (case rv_open E (rr_secret r) of
                Inl e \<Rightarrow> Inl e
              | Inr plain \<Rightarrow> Inr (c\<lparr>rl_source := rr_source r, rl_enabled := rr_enabled r, rl_has_secret := True, rl_secret := plain\<rparr>)))"

definition list_clients :: "radenv \<Rightarrow> inv \<Rightarrow> radsrv \<Rightarrow> raderror + radclient list" where
  "list_clients E I S =
     (case collect (rad_client E (rs_rows S))
             (sort_key (\<lambda>d. to_lower (d_name d)) (filter (\<lambda>d. d_kind d = KindFortiGate) (devices I))) of
        Inl e \<Rightarrow> Inl (RadSeal e) | Inr cs \<Rightarrow> Inr cs)"

text \<open>\<open>base64.RawURLEncoding\<close> of the random bytes is the parameter \<open>enc\<close>.\<close>

definition rad_new_secret :: "(string \<Rightarrow> string) \<Rightarrow> string \<Rightarrow> string" where
  "rad_new_secret enc b = trim_right (\<lambda>c. c = CHR ''='') (enc b)"

definition rad_invalidate :: "radsrv \<Rightarrow> radsrv" where "rad_invalidate S = S\<lparr>rs_loaded := zero_time\<rparr>"

text \<open>A device that does not exist breaks the foreign key of the table.\<close>

definition set_client ::
  "radenv \<Rightarrow> (string \<Rightarrow> string) \<Rightarrow> string \<Rightarrow> inv \<Rightarrow> int \<Rightarrow> bool \<Rightarrow> string \<Rightarrow> radsrv \<Rightarrow> (radsrv, raderror, unit) outcome" where
  "set_client E enc rnd I dev enabled source0 S =
     (let source = trim_space source0
      in if source \<noteq> [] \<and> nl_parse_ip E source = None
         then (S, Inl (RadInput ''source address must be an IP address''))
         else if find_row d_id dev (devices I) = None then (rad_invalidate S, Inl RadNoDevice)
         else if find_row rr_device dev (rs_rows S) = None
         then (rad_invalidate (S\<lparr>rs_rows := rs_rows S @
                 [\<lparr>rr_device = dev, rr_secret = rv_seal E (rad_new_secret enc rnd), rr_source = source, rr_enabled = enabled\<rparr>]\<rparr>), Inr ())
         else (rad_invalidate (S\<lparr>rs_rows := upd_rows (\<lambda>r. rr_device r = dev)
                 (\<lambda>r. r\<lparr>rr_source := source, rr_enabled := enabled\<rparr>) (rs_rows S)\<rparr>), Inr ()))"

definition rotate_secret :: "radenv \<Rightarrow> (string \<Rightarrow> string) \<Rightarrow> string \<Rightarrow> int \<Rightarrow> radsrv \<Rightarrow> radsrv" where
  "rotate_secret E enc rnd dev S =
     rad_invalidate (S\<lparr>rs_rows := upd_rows (\<lambda>r. rr_device r = dev)
       (\<lambda>r. r\<lparr>rr_secret := rv_seal E (rad_new_secret enc rnd)\<rparr>) (rs_rows S)\<rparr>)"

definition fortigate_lines :: "string \<Rightarrow> string \<Rightarrow> string \<Rightarrow> string list" where
  "fortigate_lines server secret grp =
     [''config system global'', ''    set remoteauthtimeout 90'', ''end'', ''config user radius'', ''    edit \"TaktaPlus\"'',
      ''        set server \"'' @ server @ ''\"'', ''        set secret '' @ secret, ''        set auth-type pap'', ''    next'', ''end'',
      ''config user group'', ''    edit \"'' @ grp @ ''\"'', ''        set member \"TaktaPlus\"'', ''    next'', ''end'']"

definition rad_fortigate_config :: "radenv \<Rightarrow> inv \<Rightarrow> int \<Rightarrow> string \<Rightarrow> string \<Rightarrow> radsrv \<Rightarrow> raderror + string" where
  "rad_fortigate_config E I dev server grp S =
     (case list_clients E I S of
        Inl e \<Rightarrow> Inl e
      | Inr cs \<Rightarrow>
          (case List.find (\<lambda>c. rl_device c = dev) cs of
             None \<Rightarrow> Inl (RadInput ''unknown device'')
           | Some c \<Rightarrow>
               if \<not> rl_has_secret c then Inl (RadInput ''enable the device as a RADIUS client first'')
               else Inr (join [CHR 0x0A] (fortigate_lines server (rl_secret c) (if grp = [] then ''TaktaPlus-2FA'' else grp)))))"

subsection \<open>Look-up by source address\<close>

definition client_ips :: "radenv \<Rightarrow> radclient \<Rightarrow> string list" where
  "client_ips E c =
     List.map_filter (nl_parse_ip E)
       ([rl_source c] @
        (if nl_parse_ip E (rl_host c) \<noteq> None then [rl_host c]
         else case rv_resolve E (rl_host c) of None \<Rightarrow> [] | Some rs \<Rightarrow> rs))"

definition add_client :: "radenv \<Rightarrow> radclient \<Rightarrow> (string \<rightharpoonup> radclient) \<Rightarrow> (string \<rightharpoonup> radclient)" where
  "add_client E c m =
     (if \<not> rl_enabled c \<or> \<not> rl_has_secret c then m else fold (\<lambda>ip m. m(ip \<mapsto> c)) (client_ips E c) m)"

definition load_clients :: "radenv \<Rightarrow> radclient list \<Rightarrow> (string \<rightharpoonup> radclient)" where
  "load_clients E cs = fold (add_client E) cs Map.empty"

definition rad_lookup :: "radenv \<Rightarrow> inv \<Rightarrow> time \<Rightarrow> string \<Rightarrow> radsrv \<Rightarrow> radsrv \<times> radclient option" where
  "rad_lookup E I now addr S =
     (let host = (case nl_split_host E addr of None \<Rightarrow> addr | Some h \<Rightarrow> h);
          read = (\<lambda>S'. case nl_parse_ip E host of None \<Rightarrow> None | Some ip \<Rightarrow> rs_cache S' ip)
      in if now - rs_loaded S > minute
         then (case list_clients E I S of
                 Inl e \<Rightarrow> (S, None)
               | Inr cs \<Rightarrow> (let S1 = S\<lparr>rs_cache := load_clients E cs, rs_loaded := now\<rparr> in (S1, read S1)))
         else (S, read S))"

definition radius_secret :: "radenv \<Rightarrow> inv \<Rightarrow> time \<Rightarrow> string \<Rightarrow> radsrv \<Rightarrow> radsrv \<times> string option" where
  "radius_secret E I now addr S =
     (case rad_lookup E I now addr S of (S1, c) \<Rightarrow> (S1, map_option rl_secret c))"

subsection \<open>Requests\<close>

fun oerror_text :: "oerror \<Rightarrow> string" where
  "oerror_text (OtpInput m) = m"
| "oerror_text OtpNotFound = ''not found''"
| "oerror_text OtpRejected = ''access rejected''"
| "oerror_text OtpCapacity = ''the license's two-factor user capacity is full''"
| "oerror_text OtpRateLimited = ''too many codes sent to this mobile; try again later''"
| "oerror_text OtpWrongCode = ''wrong code''"
| "oerror_text (OtpSms m) = m"
| "oerror_text (OtpHash e) = pwerror_text e"
| "oerror_text (OtpLdap m) = m"

definition mask_mobile :: "string \<Rightarrow> string" where
  "mask_mobile m = (if length m < 7 then m else take 4 m @ ''***'' @ drop (length m - 4) m)"

record radworld =
  rw_now :: time
  rw_crypto :: crypto
  rw_dir :: ldapconn
  rw_sms :: provider
  rw_cap :: int
  rw_digits :: "nat list"
  rw_state :: string

text \<open>
  The logs refer to the device: a row for a device that was deleted breaks the foreign key, and the
  error of the insertion is ignored. That happens while the cache still holds a deleted device, and
  with device 0 when the client is not found.
\<close>

definition device_known :: "inv \<Rightarrow> int \<Rightarrow> bool" where
  "device_known I dev = (find_row d_id dev (devices I) \<noteq> None)"

definition logged_messages :: "inv \<Rightarrow> int \<Rightarrow> otpdb \<Rightarrow> otpdb \<Rightarrow> otpdb" where
  "logged_messages I dev st st' = (if device_known I dev then st' else st'\<lparr>ot_messages := ot_messages st\<rparr>)"

definition rad_log :: "radworld \<Rightarrow> inv \<Rightarrow> string \<Rightarrow> int \<Rightarrow> string \<Rightarrow> string \<Rightarrow> string \<Rightarrow> otpdb \<Rightarrow> otpdb" where
  "rad_log W I name dev ip event detail st =
     (if device_known I dev then log_event (rw_now W) name (Some dev) ip event detail st else st)"

definition reject_reply :: "'p radlib \<Rightarrow> 'p \<Rightarrow> 'p" where
  "reject_reply R p = sign_response R (pk_response R AccessReject p)"

definition challenge_reply :: "'p radlib \<Rightarrow> string \<Rightarrow> string \<Rightarrow> 'p \<Rightarrow> 'p" where
  "challenge_reply R state msg p =
     sign_response R (pk_set_reply R msg (pk_set_state R state (pk_response R AccessChallenge p)))"

definition vendor_type :: nat where "vendor_type = 26"

definition accept_reply :: "'p radlib \<Rightarrow> string \<Rightarrow> 'p \<Rightarrow> 'p" where
  "accept_reply R grp p =
     (let resp = pk_response R AccessAccept p;
          resp1 = (if grp = [] then resp
                   else case fortinet_group_name R grp of None \<Rightarrow> resp | Some a \<Rightarrow> pk_add R vendor_type a resp)
      in sign_response R resp1)"

definition reason :: "oerror \<times> string \<Rightarrow> string" where
  "reason e = (if snd e = [] then oerror_text (fst e) else snd e)"

text \<open>The answer to a request: the code of the response with its packet.\<close>

definition serve_reject ::
  "'p radlib \<Rightarrow> radworld \<Rightarrow> inv \<Rightarrow> int \<Rightarrow> string \<Rightarrow> string \<Rightarrow> 'p \<Rightarrow> otpdb \<Rightarrow> otpdb \<times> rcode \<times> 'p" where
  "serve_reject R W I dev ip why p st =
     (rad_log W I (pk_user_name R p) dev ip ''reject'' why st, AccessReject, reject_reply R p)"

definition serve_code ::
  "'p radlib \<Rightarrow> radworld \<Rightarrow> inv \<Rightarrow> radcfg \<Rightarrow> int \<Rightarrow> string \<Rightarrow> 'p \<Rightarrow> otpdb \<Rightarrow> otpdb \<times> rcode \<times> 'p" where
  "serve_code R W I cfg dev ip p st =
     (case verify_challenge (rw_crypto W) (rw_now W) (pk_state R p) (pk_password R p) st of
        (st1, Inl e) \<Rightarrow>
          if fst e = OtpWrongCode
          then (rad_log W I (pk_user_name R p) dev ip ''wrong_code'' [] st1, AccessChallenge,
                challenge_reply R (pk_state R p) (''Wrong code. '' @ rc_message cfg) p)
          else serve_reject R W I dev ip (reason e) p st1
      | (st1, Inr u) \<Rightarrow>
          if to_lower (ou_username u) \<noteq> to_lower (pk_user_name R p)
          then serve_reject R W I dev ip ''code belongs to another user'' p st1
          else (rad_log W I (ou_username u) dev ip ''accept'' (ou_group u) st1, AccessAccept, accept_reply R (ou_group u) p))"

definition serve_password ::
  "'p radlib \<Rightarrow> radworld \<Rightarrow> inv \<Rightarrow> radcfg \<Rightarrow> int \<Rightarrow> string \<Rightarrow> 'p \<Rightarrow> otpdb \<Rightarrow> otpdb \<times> rcode \<times> 'p" where
  "serve_password R W I cfg dev ip p st =
     (case otp_check_password (rw_crypto W) (rw_dir W) (rw_cap W) (rw_now W) (pk_user_name R p) (pk_password R p) st of
        (st1, Inl e) \<Rightarrow> serve_reject R W I dev ip (reason e) p st1
      | (st1, Inr u) \<Rightarrow>
          (case start_challenge (rw_crypto W) (rw_sms W) (rw_now W) (rw_digits W) (rw_state W) u (Some dev) st1 of
             (st2, Inl e) \<Rightarrow>
               serve_reject R W I dev ip (''sending the code failed: '' @ oerror_text e) p (logged_messages I dev st1 st2)
           | (st2, Inr state) \<Rightarrow>
               (rad_log W I (ou_username u) dev ip ''challenge'' (''code sent to '' @ mask_mobile (ou_mobile u))
                  (logged_messages I dev st1 st2),
                AccessChallenge, challenge_reply R state (rc_message cfg) p)))"

definition serve_radius ::
  "'p radlib \<Rightarrow> radenv \<Rightarrow> radworld \<Rightarrow> inv \<Rightarrow> string \<Rightarrow> 'p \<Rightarrow> radsrv \<Rightarrow> radsrv \<times> (rcode \<times> 'p) option" where
  "serve_radius R E W I addr p S =
     (if pk_code R p \<noteq> AccessRequest then (S, None)
      else (let cfg = rad_config S;
                (S1, c) = rad_lookup E I (rw_now W) addr S;
                dev = rl_device (case c of None \<Rightarrow> no_client | Some x \<Rightarrow> x);
                (present, valid) = verify_authenticator R p
            in if present \<and> \<not> valid \<or> \<not> present \<and> rc_require cfg then (S1, None)
               else (case (if pk_state R p \<noteq> [] then serve_code R W I cfg dev addr p (rs_otp S1)
                           else serve_password R W I cfg dev addr p (rs_otp S1)) of
                       (st, r) \<Rightarrow> (S1\<lparr>rs_otp := st\<rparr>, Some r))))"

subsection \<open>A sign-in takes two factors\<close>

text \<open>
  A step of the server's life: a request, with the state of the service before it and the code of
  its answer, or any other operation on two-factor users, which does not touch the challenges.
\<close>

record 'p radreq =
  rq_world :: radworld
  rq_packet :: 'p
  rq_before :: otpdb
  rq_answer :: "rcode option"

inductive rad_run :: "'p radlib \<Rightarrow> radenv \<Rightarrow> otpdb \<Rightarrow> 'p radreq list \<Rightarrow> radsrv \<Rightarrow> bool"
  for R :: "'p radlib" and E :: radenv and st0 :: otpdb where
  start: "rs_otp S = st0 \<Longrightarrow> rad_run R E st0 [] S"
| request: "rad_run R E st0 tr S \<Longrightarrow> serve_radius R E W I addr p S = (S', out) \<Longrightarrow>
    rad_run R E st0 (tr @ [\<lparr>rq_world = W, rq_packet = p, rq_before = rs_otp S, rq_answer = map_option fst out\<rparr>]) S'"
| other: "rad_run R E st0 tr S \<Longrightarrow> ot_challenges (rs_otp S') = ot_challenges (rs_otp S) \<Longrightarrow> rad_run R E st0 tr S'"

text \<open>The requests that passed the first factor of a user, and those that were accepted as the user.\<close>

definition passed_first :: "'p radlib \<Rightarrow> int \<Rightarrow> 'p radreq \<Rightarrow> bool" where
  "passed_first R uid q =
     (pk_state R (rq_packet q) = [] \<and> rq_answer q = Some AccessChallenge \<and>
      (case by_name (pk_user_name R (rq_packet q)) (rq_before q) of
         None \<Rightarrow> False
       | Some u \<Rightarrow> ou_id u = uid \<and> ou_active u \<and> \<not> ou_is_locked (rw_now (rq_world q)) u \<and>
           first_factor (rw_crypto (rq_world q)) (rw_dir (rq_world q)) (rq_before q) u (pk_password R (rq_packet q)) = Inr True))"

definition accepted_as :: "'p radlib \<Rightarrow> int \<Rightarrow> 'p radreq \<Rightarrow> bool" where
  "accepted_as R uid q =
     (rq_answer q = Some AccessAccept \<and>
      (case map_of (ot_challenges (rq_before q)) (pk_state R (rq_packet q)) of None \<Rightarrow> False | Some c \<Rightarrow> ch_user c = uid))"

definition outstanding :: "int \<Rightarrow> otpdb \<Rightarrow> nat" where
  "outstanding uid st = count_rows (\<lambda>kc. ch_user (snd kc) = uid) (ot_challenges st)"

lemma count_rows_filter_le: "count_rows P (filter Q xs) \<le> count_rows P xs"
  by (induction xs) (auto simp: count_rows_def)

lemma count_put_challenge:
  "count_rows (\<lambda>kc. ch_user (snd kc) = uid) (put_challenge k c cs) \<le>
     (if ch_user c = uid then 1 else 0) + count_rows (\<lambda>kc. ch_user (snd kc) = uid) cs"
  using count_rows_filter_le [of "\<lambda>kc. ch_user (snd kc) = uid" "\<lambda>(k', c'). k' \<noteq> k" cs]
  by (simp add: put_challenge_def count_rows_Cons)

lemma count_drop_challenge:
  "map_of cs k = Some c \<Longrightarrow>
     count_rows (\<lambda>kc. ch_user (snd kc) = uid) (drop_challenge k cs) + (if ch_user c = uid then 1 else 0)
       \<le> count_rows (\<lambda>kc. ch_user (snd kc) = uid) cs"
proof (induction cs)
  case (Cons x cs)
  obtain k' c' where x: "x = (k', c')" by (cases x)
  show ?case
  proof (cases "k' = k")
    case True
    with Cons.prems x show ?thesis
      using count_rows_filter_le [of "\<lambda>kc. ch_user (snd kc) = uid" "\<lambda>(k', c'). k' \<noteq> k" cs]
      by (simp add: drop_challenge_def count_rows_Cons)
  next
    case False
    with Cons x show ?thesis by (simp add: drop_challenge_def count_rows_Cons)
  qed
qed simp

lemma count_replace_challenge:
  assumes "map_of cs k = Some c" "ch_user c' = ch_user c"
  shows "count_rows (\<lambda>kc. ch_user (snd kc) = uid) (put_challenge k c' cs) \<le> count_rows (\<lambda>kc. ch_user (snd kc) = uid) cs"
  using count_drop_challenge [OF assms(1), of uid] assms(2)
  by (simp add: put_challenge_def drop_challenge_def count_rows_Cons split: if_splits)

lemma rad_log_challenges [simp]:
  "ot_challenges (rad_log W I name dev ip ev det st) = ot_challenges st"
  "ot_challenges (logged_messages I dev st st') = ot_challenges st'"
  by (simp_all add: rad_log_def log_event_def logged_messages_def)

lemma set_ouser_challenges [simp]: "ot_challenges (set_ouser i f st) = ot_challenges st"
  by (simp add: set_ouser_def)

lemma check_password_challenges:
  "ot_challenges (fst (otp_check_password K D cap now n pw st)) = ot_challenges st"
  by (simp add: otp_check_password_def split: option.split sum.split oerror.split)

lemma check_password_passed:
  assumes "otp_check_password K D cap now n pw st = (st', Inr u)"
  shows "by_name n st = Some u \<and> ou_active u \<and> \<not> ou_is_locked now u \<and> first_factor K D st u pw = Inr True \<and> st' = st"
  using assms by (simp add: otp_check_password_def split: option.splits sum.splits oerror.splits if_splits)

lemma start_outstanding:
  assumes "start_challenge K P now ds state u dev st = (st', r)"
  shows "outstanding uid st' \<le> outstanding uid st + (case r of Inl e \<Rightarrow> 0 | Inr s \<Rightarrow> if ou_id u = uid then 1 else 0)"
proof -
  have le: "count_rows (\<lambda>kc. ch_user (snd kc) = uid) (put_challenge k c (filter Q cs)) \<le>
      count_rows (\<lambda>kc. ch_user (snd kc) = uid) cs + (if ch_user c = uid then 1 else 0)" for k c Q cs
    using count_put_challenge [of uid k c "filter Q cs"] count_rows_filter_le [of "\<lambda>kc. ch_user (snd kc) = uid" Q cs]
    by (simp split: if_splits)
  let ?c = "\<lparr>ch_user = ou_id u, ch_code = sha256_hex K (new_code (op_length (policy_of st)) ds),
      ch_expires = now + op_ttl (policy_of st) * second, ch_attempts = 0\<rparr>"
  have "(\<exists>e. r = Inl e) \<and> ot_challenges st' = ot_challenges st \<or>
      r = Inr state \<and> ot_challenges st' = put_challenge state ?c (filter (\<lambda>(k, c). \<not> now > ch_expires c) (ot_challenges st))"
    using assms by (auto simp: start_challenge_def Let_def split: if_splits prod.splits option.splits)
  then show ?thesis
    using le [of state ?c "\<lambda>(k, c). \<not> now > ch_expires c" "ot_challenges st"] by (auto simp: outstanding_def)
qed

lemma wrong_outstanding:
  "map_of (ot_challenges st) k = Some c \<Longrightarrow> outstanding uid (fst (wrong_attempt now k c st)) \<le> outstanding uid st"
  using count_drop_challenge [of "ot_challenges st" k c uid] count_replace_challenge [of "ot_challenges st" k c "c\<lparr>ch_attempts := ch_attempts c + 1\<rparr>" uid]
  by (auto simp: wrong_attempt_def Let_def outstanding_def split: option.split)

lemma verify_outstanding:
  assumes "verify_challenge K now k code st = (st', r)"
  shows "outstanding uid st' \<le> outstanding uid st"
    and "r = Inr u \<Longrightarrow> \<exists>c. map_of (ot_challenges st) k = Some c \<and> outstanding (ch_user c) st' + 1 \<le> outstanding (ch_user c) st"
proof -
  have drop: "map_of (ot_challenges st) k = Some c \<Longrightarrow>
      outstanding i (fst (accept_code now c (st\<lparr>ot_challenges := drop_challenge k (ot_challenges st)\<rparr>))) + (if ch_user c = i then 1 else 0)
        \<le> outstanding i st" for i c
    using count_drop_challenge [of "ot_challenges st" k c i] by (simp add: outstanding_def accept_challenges)
  have drop2: "map_of (ot_challenges st) k = Some c \<Longrightarrow>
      outstanding i (st\<lparr>ot_challenges := drop_challenge k (ot_challenges st)\<rparr>) \<le> outstanding i st" for i c
    using count_drop_challenge [of "ot_challenges st" k c i] by (simp add: outstanding_def)
  show "outstanding uid st' \<le> outstanding uid st"
  proof (cases "map_of (ot_challenges st) k")
    case None
    then show ?thesis using assms by (simp add: verify_challenge_def)
  next
    case (Some c)
    then show ?thesis
      using assms drop [OF Some, of uid] drop2 [OF Some, of uid] wrong_outstanding [OF Some, of uid now]
      by (auto simp: verify_challenge_def split: if_splits)
  qed
  show "\<exists>c. map_of (ot_challenges st) k = Some c \<and> outstanding (ch_user c) st' + 1 \<le> outstanding (ch_user c) st" if r: "r = Inr u"
  proof -
    from r assms obtain c where c: "map_of (ot_challenges st) k = Some c"
      by (auto simp: verify_challenge_def split: option.splits)
    then have "accept_code now c (st\<lparr>ot_challenges := drop_challenge k (ot_challenges st)\<rparr>) = (st', Inr u)"
      using assms r by (auto simp: verify_challenge_def wrong_attempt_def Let_def split: if_splits)
    with drop [OF c, of "ch_user c"] c show ?thesis by auto
  qed
qed

text \<open>What one request does to the outstanding challenges of a user.\<close>

lemma rad_lookup_otp [simp]: "rs_otp (fst (rad_lookup E I now addr S)) = rs_otp S"
  by (simp add: rad_lookup_def Let_def split: option.split sum.split)

lemma serve_reject_simps [simp]:
  "ot_challenges (fst (serve_reject R W I dev ip why p st)) = ot_challenges st"
  "fst (snd (serve_reject R W I dev ip why p st)) = AccessReject"
  by (simp_all add: serve_reject_def)

lemma outstanding_eq: "ot_challenges st = ot_challenges st' \<Longrightarrow> outstanding uid st = outstanding uid st'"
  by (simp add: outstanding_def)

lemma serve_code_step:
  assumes s: "serve_code R W I cfg dev ip p st = (st', cd, q)"
  shows "outstanding uid st' + (if accepted_as R uid \<lparr>rq_world = W, rq_packet = p, rq_before = st, rq_answer = Some cd\<rparr> then 1 else 0)
    \<le> outstanding uid st"
proof -
  obtain st1 r where v: "verify_challenge (rw_crypto W) (rw_now W) (pk_state R p) (pk_password R p) st = (st1, r)"
    by (cases "verify_challenge (rw_crypto W) (rw_now W) (pk_state R p) (pk_password R p) st")
  have ch: "ot_challenges st' = ot_challenges st1"
    using s v by (auto simp: serve_code_def serve_reject_def split: sum.splits if_splits)
  have acc: "\<exists>u. r = Inr u" if "cd = AccessAccept"
    using s v that by (auto simp: serve_code_def serve_reject_def split: sum.splits if_splits)
  show ?thesis
  proof (cases "accepted_as R uid \<lparr>rq_world = W, rq_packet = p, rq_before = st, rq_answer = Some cd\<rparr>")
    case True
    then obtain c where c: "map_of (ot_challenges st) (pk_state R p) = Some c" "ch_user c = uid" "cd = AccessAccept"
      by (auto simp: accepted_as_def split: option.splits)
    with acc obtain u where "r = Inr u" by blast
    from verify_outstanding(2) [OF v this] c True outstanding_eq [OF ch] show ?thesis by auto
  next
    case False
    with verify_outstanding(1) [OF v, of uid] outstanding_eq [OF ch] show ?thesis by simp
  qed
qed

lemma serve_password_step:
  assumes s: "serve_password R W I cfg dev ip p st = (st', cd, q)" and k: "pk_state R p = []"
  shows "outstanding uid st' \<le> outstanding uid st +
      (if passed_first R uid \<lparr>rq_world = W, rq_packet = p, rq_before = st, rq_answer = Some cd\<rparr> then 1 else 0) \<and> cd \<noteq> AccessAccept"
proof -
  obtain st1 r where v: "otp_check_password (rw_crypto W) (rw_dir W) (rw_cap W) (rw_now W) (pk_user_name R p) (pk_password R p) st = (st1, r)"
    by (cases "otp_check_password (rw_crypto W) (rw_dir W) (rw_cap W) (rw_now W) (pk_user_name R p) (pk_password R p) st")
  show ?thesis
  proof (cases r)
    case (Inl e)
    then have "ot_challenges st' = ot_challenges st" "cd = AccessReject"
      using s v check_password_challenges [of "rw_crypto W" "rw_dir W" "rw_cap W" "rw_now W" "pk_user_name R p" "pk_password R p" st]
      by (auto simp: serve_password_def serve_reject_def)
    then show ?thesis using outstanding_eq by (metis le_add1 rcode.distinct(9))
  next
    case (Inr u)
    note ok = check_password_passed [OF v [unfolded Inr]]
    obtain st2 r2 where c: "start_challenge (rw_crypto W) (rw_sms W) (rw_now W) (rw_digits W) (rw_state W) u (Some dev) st1 = (st2, r2)"
      by (cases "start_challenge (rw_crypto W) (rw_sms W) (rw_now W) (rw_digits W) (rw_state W) u (Some dev) st1")
    have ch: "ot_challenges st' = ot_challenges st2"
      using s v c Inr by (auto simp: serve_password_def serve_reject_def split: sum.splits)
    have cd: "cd = (case r2 of Inl e \<Rightarrow> AccessReject | Inr x \<Rightarrow> AccessChallenge)"
      using s v c Inr by (auto simp: serve_password_def serve_reject_def split: sum.splits)
    show ?thesis
      using start_outstanding [OF c, of uid] ok k cd outstanding_eq [OF ch, of uid]
      by (cases r2) (auto simp: passed_first_def)
  qed
qed

lemma serve_step:
  assumes s: "serve_radius R E W I addr p S = (S', out)"
  shows "outstanding uid (rs_otp S') + (if accepted_as R uid \<lparr>rq_world = W, rq_packet = p, rq_before = rs_otp S, rq_answer = map_option fst out\<rparr> then 1 else 0)
    \<le> outstanding uid (rs_otp S) + (if passed_first R uid \<lparr>rq_world = W, rq_packet = p, rq_before = rs_otp S, rq_answer = map_option fst out\<rparr> then 1 else 0)"
proof (cases out)
  case None
  then have "rs_otp S' = rs_otp S"
    using s rad_lookup_otp [of E I "rw_now W" addr S]
    by (cases "rad_lookup E I (rw_now W) addr S") (auto simp: serve_radius_def Let_def split: if_splits prod.splits)
  with None show ?thesis by (simp add: accepted_as_def)
next
  case (Some cp)
  obtain cd q where cp: "cp = (cd, q)" by (cases cp)
  obtain S1 c where l: "rad_lookup E I (rw_now W) addr S = (S1, c)" by (cases "rad_lookup E I (rw_now W) addr S")
  have o: "rs_otp S1 = rs_otp S" using rad_lookup_otp [of E I "rw_now W" addr S] l by simp
  let ?dev = "rl_device (case c of None \<Rightarrow> no_client | Some x \<Rightarrow> x)"
  have r: "(if pk_state R p \<noteq> [] then serve_code R W I (rad_config S) ?dev addr p (rs_otp S)
      else serve_password R W I (rad_config S) ?dev addr p (rs_otp S)) = (rs_otp S', cd, q)"
    using s Some cp l o by (auto simp: serve_radius_def Let_def split: if_splits prod.splits)
  show ?thesis
  proof (cases "pk_state R p = []")
    case True
    with r have "serve_password R W I (rad_config S) ?dev addr p (rs_otp S) = (rs_otp S', cd, q)" by simp
    from serve_password_step [OF this True, of uid] Some cp show ?thesis by (simp add: accepted_as_def)
  next
    case False
    with r have "serve_code R W I (rad_config S) ?dev addr p (rs_otp S) = (rs_otp S', cd, q)" by simp
    from serve_code_step [OF this, of uid] Some cp show ?thesis by simp
  qed
qed

lemma rad_run_counts:
  "rad_run R E st0 tr S \<Longrightarrow>
     count_rows (accepted_as R uid) tr + outstanding uid (rs_otp S) \<le> count_rows (passed_first R uid) tr + outstanding uid st0"
proof (induction rule: rad_run.induct)
  case (request tr S W I addr p S' out)
  then show ?case
    using serve_step [OF request.hyps(2), of uid] by (simp add: count_rows_append count_rows_Cons split: if_splits)
next
  case (other tr S S')
  then show ?case using outstanding_eq by metis
qed simp

text \<open>
  A message that asks for a Message-Authenticator it does not carry, or carries a wrong one, is dropped
  before the users are looked at.
\<close>

lemma unauthenticated_dropped:
  assumes "rc_require (rad_config S) \<or> pk_lookup R authenticator_type p \<noteq> None"
    and "pk_lookup R authenticator_type p = None \<or> message_authenticator R p \<noteq> pk_lookup R authenticator_type p"
  shows "snd (serve_radius R E W I addr p S) = None \<and> rs_otp (fst (serve_radius R E W I addr p S)) = rs_otp S"
  using assms rad_lookup_otp [of E I "rw_now W" addr S]
  by (cases "rad_lookup E I (rw_now W) addr S")
    (auto simp: serve_radius_def verify_authenticator_def Let_def split: option.splits)

text \<open>
  Both the source address and the host of an enabled client are accepted, although the comment at
  \<open>SetClient\<close> says that the source address overrides the other.
\<close>

lemma both_addresses_accepted:
  assumes "rl_enabled c" "rl_has_secret c" "nl_parse_ip E (rl_source c) = Some a" "nl_parse_ip E (rl_host c) = Some b"
  shows "load_clients E [c] a = Some c" "load_clients E [c] b = Some c"
  using assms by (simp_all add: load_clients_def add_client_def client_ips_def)

text \<open>
  A challenge for a device that was deleted while the cache still held it leaves no message in the
  log, so that it does not count against the limit of codes for a mobile.
\<close>

lemma deleted_device_unlogged:
  assumes "\<not> device_known I dev"
  shows "ot_messages (fst (serve_password R W I cfg dev ip p st)) = ot_messages st"
proof -
  have pw: "ot_messages (fst (otp_check_password K D cap now n pw st)) = ot_messages st" for K D cap now n pw
    by (simp add: otp_check_password_def otp_fail_def set_ouser_def split: option.split sum.split oerror.split)
  show ?thesis
  proof (cases "otp_check_password (rw_crypto W) (rw_dir W) (rw_cap W) (rw_now W) (pk_user_name R p) (pk_password R p) st")
    case (Pair st1 r)
    with pw [of "rw_crypto W" "rw_dir W" "rw_cap W" "rw_now W" "pk_user_name R p" "pk_password R p"]
    have "ot_messages st1 = ot_messages st" by simp
    with Pair assms show ?thesis
      by (auto simp: serve_password_def serve_reject_def rad_log_def logged_messages_def split: sum.split prod.split)
  qed
qed

subsection \<open>Properties\<close>


record spacket =
  sk_code :: rcode
  sk_name :: string
  sk_password :: string
  sk_state :: string
  sk_attrs :: "(nat \<times> string) list"

definition sample_radlib :: "spacket radlib" where
  "sample_radlib = \<lparr>pk_code = sk_code, pk_lookup = (\<lambda>t p. map_of (sk_attrs p) t),
     pk_set = (\<lambda>t v p. p\<lparr>sk_attrs := (t, v) # filter (\<lambda>a. fst a \<noteq> t) (sk_attrs p)\<rparr>),
     pk_add = (\<lambda>t v p. p\<lparr>sk_attrs := sk_attrs p @ [(t, v)]\<rparr>),
     pk_marshal = (\<lambda>p. Some (sk_name p @ sk_state p)), pk_secret = (\<lambda>p. ''s3''), pk_user_name = sk_name,
     pk_password = sk_password, pk_state = sk_state, pk_response = (\<lambda>c p. p\<lparr>sk_code := c, sk_attrs := []\<rparr>),
     pk_set_state = (\<lambda>s p. p\<lparr>sk_state := s\<rparr>), pk_set_reply = (\<lambda>s p. p\<lparr>sk_attrs := (18, s) # sk_attrs p\<rparr>),
     pk_vendor = (\<lambda>v s. Some s), hmac_md5 = (\<lambda>k b. k @ b)\<rparr>"

definition sample_radenv :: radenv where
  "sample_radenv = \<lparr>nl_split_host = (\<lambda>s. None), nl_parse_ip = (\<lambda>s. if s = [] then None else Some s), nl_to4 = (\<lambda>s. None),
     rv_seal = (\<lambda>s. s), rv_open = Inr, rv_resolve = (\<lambda>s. None)\<rparr>"

definition sample_world :: radworld where
  "sample_world = \<lparr>rw_now = 1, rw_crypto = sample_crypto, rw_dir = sample_dir, rw_sms = \<lparr>sp_send = (\<lambda>m c. Inr ''1''), sp_credit = Inr 0\<rparr>,
     rw_cap = 5, rw_digits = [1, 2, 3, 4, 5, 6], rw_state = ''st9''\<rparr>"

definition sample_radsrv :: radsrv where
  "sample_radsrv = \<lparr>rs_otp = sample_otp\<lparr>ot_ldap := Some (default_ldap\<lparr>lc_url := ''ldap://dc'', lc_bind_password := ''secret''\<rparr>),
       ot_sms_config := Some (default_sms\<lparr>sc_api_key := ''k'', sc_template := 7\<rparr>), ot_challenges := []\<rparr>,
     rs_config = Some \<lparr>rc_require = False, rc_message = ''Code''\<rparr>,
     rs_rows = [], rs_cache = Map.empty, rs_loaded = 0\<rparr>"

definition sample_request :: "string \<Rightarrow> string \<Rightarrow> spacket" where
  "sample_request pw state = \<lparr>sk_code = AccessRequest, sk_name = ''Reza'', sk_password = pw, sk_state = state, sk_attrs = []\<rparr>"

definition sample_serve :: "string \<Rightarrow> string \<Rightarrow> radsrv \<Rightarrow> radsrv \<times> (rcode \<times> spacket) option" where
  "sample_serve pw state S = serve_radius sample_radlib sample_radenv sample_world empty_inv ''10.0.0.1'' (sample_request pw state) S"

lemma sample_sign_in:
  "map_option fst (snd (sample_serve ''secret'' [] sample_radsrv)) = Some AccessChallenge"
  "map_option fst (snd (sample_serve ''123456'' ''st9'' (fst (sample_serve ''secret'' [] sample_radsrv)))) = Some AccessAccept"
  "map_of (ot_challenges (rs_otp (fst (sample_serve ''secret'' [] sample_radsrv)))) ''st9'' =
     Some \<lparr>ch_user = 1, ch_code = ''sha256:123456'', ch_expires = 120 * second + 1, ch_attempts = 0\<rparr>"
  by code_simp+


end
