(* ===== verification/Packages.thy ===== *)
theory Packages
  imports License Password
begin

text \<open>
  The local package repository (\<open>internal/packages/packages.go\<close> and \<open>guess.go\<close>): files stored by
  their SHA-256, the table that describes them, the guess of a description from a file name, uploads
  and the choice of the newest compatible package.

  The manifest library is the parameter \<open>mflib\<close>; \<open>K\<close> has the hash function. The repository
  directory is a map from hashes to contents, so \<open>Path\<close> is the key itself; a reader is the bytes it
  delivers and the error that ends it, if any.
\<close>

subsection \<open>Descriptions\<close>

record pkmeta =
  pm_platform :: string
  pm_type :: string
  pm_version :: string
  pm_models :: "string list"
  pm_fw_min :: string
  pm_fw_max :: string
  pm_upgrade_from :: "string list"
  pm_notes :: string
  pm_released :: time

record package =
  pk_id :: int
  pk_sha :: string
  pk_file :: string
  pk_size :: int
  pk_meta :: pkmeta
  pk_source :: "int option"
  pk_origin :: string
  pk_verified :: bool
  pk_withdrawn :: bool
  pk_created :: time

text \<open>An entry of a manifest (\<open>manifest.Package\<close>).\<close>

record mfentry =
  me_sha :: string
  me_file :: string
  me_size :: int
  me_meta :: pkmeta

text \<open>
  The manifest library: \<open>ml_verify\<close> checks the signature of a manifest with the trusted keys and parses
  it, \<open>ml_validate\<close> is the complaint of \<open>Validate\<close> about a manifest with one package, \<open>ml_compare\<close>
  compares versions, \<open>ml_keys\<close> is the number of trusted keys and \<open>ml_upgrades\<close> tells whether a firmware
  image upgrades a device of a version (\<open>UpgradesFrom\<close>).
\<close>

record mflib =
  ml_keys :: nat
  ml_verify :: "string \<Rightarrow> string \<Rightarrow> string + mfentry list"
  ml_validate :: "pkmeta \<Rightarrow> string option"
  ml_compare :: "string \<Rightarrow> string \<Rightarrow> int"
  ml_upgrades :: "pkmeta \<Rightarrow> string \<Rightarrow> bool"

datatype pkerror = PkInput string | PkNotFound | PkOther string

fun pkerror_text :: "pkerror \<Rightarrow> string" where
  "pkerror_text (PkInput m) = m"
| "pkerror_text PkNotFound = ''not found''"
| "pkerror_text (PkOther m) = m"

definition model_prefixes :: "string list" where
  "model_prefixes = [''FORTIGATE'', ''FORTIWEB'', ''FGT'', ''FG'', ''FWB'', ''FV'', ''FWEB'']"

text \<open>The first alternative of the pattern that matches is removed, with one separator after it.\<close>

definition norm_model :: "string \<Rightarrow> string" where
  "norm_model m0 =
     (let m = to_upper (trim_space m0)
      in case List.find (\<lambda>p. starts_with p m) model_prefixes of
           None \<Rightarrow> m
         | Some p \<Rightarrow>
             (case drop (length p) m of
                [] \<Rightarrow> []
              | c # cs \<Rightarrow> if c \<in> {CHR ''-'', CHR ''_'', CHR '' ''} then cs else c # cs))"

definition compatible :: "mflib \<Rightarrow> package \<Rightarrow> string \<Rightarrow> string \<Rightarrow> string \<Rightarrow> bool" where
  "compatible M p platform model firmware =
     (if pm_platform (pk_meta p) \<noteq> platform then False
      else if \<not> list_ex (\<lambda>m. m = ''*'' \<or> norm_model m = norm_model model) (pm_models (pk_meta p)) then False
      else if firmware \<noteq> [] \<and> pm_fw_min (pk_meta p) \<noteq> [] \<and> ml_compare M firmware (pm_fw_min (pk_meta p)) < 0 then False
      else if firmware \<noteq> [] \<and> pm_fw_max (pk_meta p) \<noteq> [] \<and> ml_compare M firmware (pm_fw_max (pk_meta p)) > 0 then False
      else True)"

subsection \<open>Guesses\<close>

fun take_digits :: "string \<Rightarrow> string \<times> string" where
  "take_digits [] = ([], [])"
| "take_digits (c # cs) = (if is_digit c then (case take_digits cs of (d, r) \<Rightarrow> (c # d, r)) else ([], c # cs))"

lemma take_digits_length: "length (snd (take_digits s)) \<le> length s"
  by (induction s rule: take_digits.induct) (auto split: prod.split)

lemma take_digits_append: "fst (take_digits s) @ snd (take_digits s) = s"
  by (induction s rule: take_digits.induct) (auto split: prod.split)

lemma take_digits_all: "list_all is_digit (fst (take_digits s))"
  by (induction s rule: take_digits.induct) (auto split: prod.split)

text \<open>
  A match of \<open>(\d+)\.(\d+)(?:\.(\d+))?\<close> at the start of the text, with what follows it; all matches
  from left to right.
\<close>

definition more_digits :: "string \<Rightarrow> (string \<times> string) option" where
  "more_digits s =
     (case s of
        [] \<Rightarrow> None
      | c # cs \<Rightarrow> if c = CHR ''.'' \<and> fst (take_digits cs) \<noteq> [] then Some (take_digits cs) else None)"

definition version_at :: "string \<Rightarrow> (string \<times> string) option" where
  "version_at s =
     (case take_digits s of
        (a, r) \<Rightarrow>
          if a = [] then None
          else (case more_digits r of
                  None \<Rightarrow> None
                | Some (b, r2) \<Rightarrow>
                    (case more_digits r2 of
                       None \<Rightarrow> Some (a @ ''.'' @ b, r2)
                     | Some (c, r3) \<Rightarrow> Some (a @ ''.'' @ b @ ''.'' @ c, r3))))"

lemma more_digits_less: "more_digits s = Some (d, r) \<Longrightarrow> length r < length s"
  using take_digits_length [of "tl s"] by (auto simp: more_digits_def split: list.splits if_splits)

lemma version_at_less: "version_at s = Some (v, r) \<Longrightarrow> length r < length s"
  using take_digits_length [of s]
  by (auto simp: version_at_def split: prod.splits if_splits option.splits dest!: more_digits_less)

function versions :: "string \<Rightarrow> string list" where
  "versions [] = []"
| "versions (c # cs) =
     (case version_at (c # cs) of Some (v, r) \<Rightarrow> v # versions r | None \<Rightarrow> versions cs)"
  by pat_completeness auto
termination by (relation "measure length") (auto dest: version_at_less)

text \<open>The first match of \<open>v(\d)-build(\d+)\<close>: the digit and the build.\<close>

fun build_of :: "string \<Rightarrow> (char \<times> string) option" where
  "build_of [] = None"
| "build_of (c # cs) =
     (case cs of
        d # ds \<Rightarrow>
          if c = CHR ''v'' \<and> is_digit d \<and> starts_with ''-build'' ds \<and> fst (take_digits (drop 6 ds)) \<noteq> []
          then Some (d, fst (take_digits (drop 6 ds))) else build_of cs
      | [] \<Rightarrow> None)"

definition has_word :: "string \<Rightarrow> string list \<Rightarrow> bool" where
  "has_word name ws = list_ex (\<lambda>w. contains_str w name) ws"

definition guess_type :: "string \<Rightarrow> string \<Rightarrow> string" where
  "guess_type name dflt =
     (if ends_with ''.out'' name \<or> has_word name [''firmware'', ''image''] then ''firmware''
      else if has_word name [''isdb'', ''internet-service'', ''ffdb''] then ''isdb''
      else if has_word name [''botnet''] then ''botnet_db''
      else if has_word name [''appctrl'', ''app-ctrl'', ''app_db'', ''appdb'', ''flen''] then ''appctrl_db''
      else if has_word name [''ot_db'', ''otdb'', ''ot-db'', ''icsdb''] then ''ot_db''
      else if has_word name [''ipsengine'', ''ips-engine'', ''ips_engine'', ''ipse''] then ''ips_engine''
      else if has_word name [''avengine'', ''av-engine'', ''av_engine'', ''vsigupdate-engine''] then ''av_engine''
      else if has_word name [''antivirus'', ''virus'', ''vsig'', ''avdb'', ''av_db'', ''av-db'', ''etdb'', ''mmdb''] then ''av_db''
      else if has_word name [''geo''] then ''geo_db''
      else if has_word name [''reputation'', ''iprep'', ''ip-rep''] then ''ip_reputation''
      else if has_word name [''ips'', ''nids''] then ''ips_db''
      else dflt)"

definition guess_version :: "string \<Rightarrow> string \<Rightarrow> string \<times> string" where
  "guess_version name typ =
     (case (if typ = ''firmware'' then build_of name else None) of
        Some (d, b) \<Rightarrow> (d # ''.0.'' @ trim_left (\<lambda>c. c = CHR ''0'') b, ''build '' @ b @ ''; set the exact version'')
      | None \<Rightarrow> (case versions name of [] \<Rightarrow> (''0.0'', []) | vs \<Rightarrow> (last vs, [])))"

definition guess :: "time \<Rightarrow> string \<Rightarrow> pkmeta" where
  "guess now f =
     (let name = to_lower f;
          web = starts_with ''fwb'' name \<or> starts_with ''fv'' name \<or> contains_str ''fortiweb'' name \<or> contains_str ''waf'' name;
          t = guess_type name (if web then ''waf_signature'' else ''ips_db'');
          typ = (if web \<and> t \<in> {''ips_db'', ''ips_engine'', ''appctrl_db'', ''botnet_db'', ''isdb'', ''ot_db''}
                 then ''waf_signature'' else t)
      in \<lparr>pm_platform = (if web then ''fortiweb'' else ''fortigate''), pm_type = typ, pm_version = fst (guess_version name typ),
          pm_models = [''*''], pm_fw_min = [], pm_fw_max = [], pm_upgrade_from = [], pm_notes = snd (guess_version name typ),
          pm_released = now\<rparr>)"

text \<open>\<open>clean\<close>: trimmed, without empty entries and repetitions.\<close>

fun clean_list :: "string list \<Rightarrow> string list \<Rightarrow> string list" where
  "clean_list out [] = out"
| "clean_list out (v # vs) =
     (let w = trim_space v in if w \<noteq> [] \<and> w \<notin> set out then clean_list (out @ [w]) vs else clean_list out vs)"

definition normal_meta :: "time \<Rightarrow> pkmeta \<Rightarrow> pkmeta" where
  "normal_meta now m =
     m\<lparr>pm_models := (if clean_list [] (pm_models m) = [] then [''*''] else clean_list [] (pm_models m)),
       pm_upgrade_from := (if pm_type m \<noteq> ''firmware'' then [] else clean_list [] (pm_upgrade_from m)),
       pm_released := (if pm_released m = zero_time then now else pm_released m)\<rparr>"

text \<open>\<open>ml_validate\<close> gives the complaint without the prefixes that the code takes off.\<close>

definition validate_meta :: "mflib \<Rightarrow> time \<Rightarrow> pkmeta \<Rightarrow> string + pkmeta" where
  "validate_meta M now m0 =
     (let m = normal_meta now m0 in case ml_validate M m of Some e \<Rightarrow> Inl e | None \<Rightarrow> Inr m)"

subsection \<open>The repository\<close>

record repo =
  rp_rows :: "package list"
  rp_next :: int
  rp_files :: "string \<rightharpoonup> string"

definition max_file_size :: nat where "max_file_size = 4 * 2 ^ 30"

type_synonym reader = "string \<times> string option"

definition open_stored :: "string \<Rightarrow> repo \<Rightarrow> pkerror + string" where
  "open_stored sha R =
     (if length sha \<noteq> 64 then Inl PkNotFound
      else case rp_files R sha of None \<Rightarrow> Inl PkNotFound | Some c \<Rightarrow> Inr c)"

definition open_sized :: "string \<Rightarrow> repo \<Rightarrow> pkerror + (string \<times> int)" where
  "open_sized sha R = (case open_stored sha R of Inl e \<Rightarrow> Inl e | Inr c \<Rightarrow> Inr (c, int (length c)))"

definition store_file :: "crypto \<Rightarrow> reader \<Rightarrow> string \<Rightarrow> repo \<Rightarrow> (repo, pkerror, string \<times> int) outcome" where
  "store_file K rd want R =
     (let n = length (fst rd)
      in case (if n < max_file_size + 1 then snd rd else None) of
           Some e \<Rightarrow> (R, Inl (PkOther e))
         | None \<Rightarrow>
             if n > max_file_size then (R, Inl (PkInput ''file is larger than 4 GB''))
             else if n = 0 then (R, Inl (PkInput ''file is empty''))
             else (let sha = sha256_hex K (fst rd)
                   in if want \<noteq> [] \<and> sha \<noteq> want
                      then (R, Inl (PkOther (''checksum mismatch: expected '' @ want @ '', got '' @ sha)))
                      else (R\<lparr>rp_files := (rp_files R)(sha \<mapsto> fst rd)\<rparr>, Inr (sha, int n))))"

definition has_file :: "string \<Rightarrow> repo \<Rightarrow> bool" where
  "has_file sha R = (find_row pk_sha sha (rp_rows R) \<noteq> None \<and> rp_files R sha \<noteq> None)"

text \<open>\<open>ON CONFLICT (sha256)\<close>: a verified description replaces the stored one, another only brings the package back.\<close>

definition replace_row :: "package \<Rightarrow> package \<Rightarrow> package" where
  "replace_row p old =
     (if pk_verified p
      then old\<lparr>pk_file := pk_file p, pk_meta := pk_meta p, pk_source := pk_source p, pk_origin := pk_origin p,
               pk_verified := True, pk_withdrawn := False\<rparr>
      else old\<lparr>pk_withdrawn := False\<rparr>)"

text \<open>An absent list of models in a manifest is the empty list here.\<close>

definition default_models :: "pkmeta \<Rightarrow> pkmeta" where
  "default_models m = (if pm_models m = [] then m\<lparr>pm_models := [''*'']\<rparr> else m)"

definition upsert :: "time \<Rightarrow> package \<Rightarrow> repo \<Rightarrow> repo" where
  "upsert now p0 R =
     (let p = p0\<lparr>pk_meta := default_models (pk_meta p0)\<rparr>
      in if find_row pk_sha (pk_sha p) (rp_rows R) \<noteq> None
      then R\<lparr>rp_rows := upd_rows (\<lambda>r. pk_sha r = pk_sha p) (replace_row p) (rp_rows R)\<rparr>
      else R\<lparr>rp_rows := rp_rows R @ [p\<lparr>pk_id := rp_next R, pk_withdrawn := False, pk_created := now\<rparr>], rp_next := rp_next R + 1\<rparr>)"

definition newest_first :: "package list \<Rightarrow> package list" where
  "newest_first ps = rev (sort_key (\<lambda>p. (pm_released (pk_meta p), pk_id p)) ps)"

definition list_packages :: "string \<Rightarrow> string \<Rightarrow> bool \<Rightarrow> repo \<Rightarrow> package list" where
  "list_packages platform typ withdrawn R =
     newest_first (filter (\<lambda>p. (platform = [] \<or> pm_platform (pk_meta p) = platform) \<and> (typ = [] \<or> pm_type (pk_meta p) = typ) \<and>
       (withdrawn \<or> \<not> pk_withdrawn p)) (rp_rows R))"

definition get_package :: "int \<Rightarrow> repo \<Rightarrow> pkerror + package" where
  "get_package i R = (case find_row pk_id i (rp_rows R) of None \<Rightarrow> Inl PkNotFound | Some p \<Rightarrow> Inr p)"

definition by_sha :: "string \<Rightarrow> repo \<Rightarrow> pkerror + package" where
  "by_sha sha R = (case find_row pk_sha sha (rp_rows R) of None \<Rightarrow> Inl PkNotFound | Some p \<Rightarrow> Inr p)"

definition update_package :: "mflib \<Rightarrow> time \<Rightarrow> int \<Rightarrow> pkmeta \<Rightarrow> repo \<Rightarrow> (repo, pkerror, unit) outcome" where
  "update_package M now i m0 R =
     (case get_package i R of
        Inl e \<Rightarrow> (R, Inl e)
      | Inr p \<Rightarrow>
          if pk_verified p then (R, Inl (PkInput ''this package is described by a signed manifest and cannot be edited''))
          else (case validate_meta M now m0 of
                  Inl e \<Rightarrow> (R, Inl (PkInput e))
                | Inr m \<Rightarrow> (R\<lparr>rp_rows := upd_rows (\<lambda>r. pk_id r = i) (\<lambda>r. r\<lparr>pk_meta := m\<rparr>) (rp_rows R)\<rparr>, Inr ())))"

definition delete_package :: "int \<Rightarrow> repo \<Rightarrow> (repo, pkerror, unit) outcome" where
  "delete_package i R =
     (case get_package i R of
        Inl e \<Rightarrow> (R, Inl e)
      | Inr p \<Rightarrow> (R\<lparr>rp_rows := del_rows (\<lambda>r. pk_id r = i) (rp_rows R), rp_files := (rp_files R)(pk_sha p := None)\<rparr>, Inr ()))"

text \<open>\<open>filepath.Base\<close>.\<close>

definition file_base :: "string \<Rightarrow> string" where
  "file_base s =
     (if s = [] then ''.''
      else (let t = trim_right (\<lambda>c. c = CHR ''/'') s
            in if t = [] then ''/'' else last (split_char (CHR ''/'') t)))"

definition new_package :: "string \<Rightarrow> string \<Rightarrow> int \<Rightarrow> pkmeta \<Rightarrow> int option \<Rightarrow> string \<Rightarrow> bool \<Rightarrow> package" where
  "new_package sha f sz m src origin verified =
     \<lparr>pk_id = 0, pk_sha = sha, pk_file = f, pk_size = sz, pk_meta = m, pk_source = src, pk_origin = origin,
      pk_verified = verified, pk_withdrawn = False, pk_created = 0\<rparr>"

definition upload :: "mflib \<Rightarrow> crypto \<Rightarrow> time \<Rightarrow> reader \<Rightarrow> string \<Rightarrow> pkmeta option \<Rightarrow> repo \<Rightarrow> (repo, pkerror, package) outcome" where
  "upload M K now rd f0 m0 R =
     (let f = file_base (trim_space f0)
      in if f = [] \<or> f = ''.'' then (R, Inl (PkInput ''file name is required''))
         else (case validate_meta M now (case m0 of None \<Rightarrow> guess now f | Some m \<Rightarrow> m) of
                 Inl e \<Rightarrow> (R, Inl (PkInput e))
               | Inr m \<Rightarrow>
                   (case store_file K rd [] R of
                      (R1, Inl e) \<Rightarrow> (R1, Inl e)
                    | (R1, Inr (sha, sz)) \<Rightarrow>
                        (let R2 = upsert now (new_package sha f sz m None ''upload'' False) R1
                         in case by_sha sha R2 of Inl e \<Rightarrow> (R2, Inl e) | Inr p \<Rightarrow> (R2, get_package (pk_id p) R2)))))"

text \<open>The loop of \<open>Latest\<close> keeps the first package of the highest version.\<close>

fun best_package :: "mflib \<Rightarrow> package option \<Rightarrow> package list \<Rightarrow> package option" where
  "best_package M best [] = best"
| "best_package M best (p # ps) =
     (case best of
        None \<Rightarrow> best_package M (Some p) ps
      | Some b \<Rightarrow> best_package M (Some (if ml_compare M (pm_version (pk_meta p)) (pm_version (pk_meta b)) > 0 then p else b)) ps)"

definition latest :: "mflib \<Rightarrow> string \<Rightarrow> string \<Rightarrow> string \<Rightarrow> string \<Rightarrow> repo \<Rightarrow> pkerror + package" where
  "latest M platform typ model firmware R =
     (case best_package M None (filter (\<lambda>p. compatible M p platform model firmware) (list_packages platform typ False R)) of
        None \<Rightarrow> Inl PkNotFound | Some p \<Rightarrow> Inr p)"

subsection \<open>The repository stays consistent\<close>

text \<open>A package is described by a manifest: a signed one has an entry with its hash, file and description.\<close>

definition described :: "mflib \<Rightarrow> package \<Rightarrow> bool" where
  "described M p =
     (\<exists>body sig es e. ml_verify M body sig = Inr es \<and> e \<in> set es \<and> me_sha e = pk_sha p \<and> pk_file p = me_file e \<and>
        pk_meta p = default_models (me_meta e))"

definition row_ok :: "mflib \<Rightarrow> int \<Rightarrow> package \<Rightarrow> bool" where
  "row_ok M n p = (pk_id p < n \<and> (pk_verified p \<longrightarrow> described M p))"

definition files_ok :: "crypto \<Rightarrow> (string \<rightharpoonup> string) \<Rightarrow> bool" where
  "files_ok K fs = (\<forall>sha c. fs sha = Some c \<longrightarrow> sha256_hex K c = sha \<and> c \<noteq> [] \<and> length c \<le> max_file_size)"

text \<open>\<open>X\<close> are the hashes of files that are stored and not yet described.\<close>

definition repo_ok_but :: "mflib \<Rightarrow> crypto \<Rightarrow> string set \<Rightarrow> repo \<Rightarrow> bool" where
  "repo_ok_but M K X R =
     (distinct (map pk_id (rp_rows R)) \<and> distinct (map pk_sha (rp_rows R)) \<and> list_all (row_ok M (rp_next R)) (rp_rows R) \<and>
      dom (rp_files R) = set (map pk_sha (rp_rows R)) \<union> X \<and> files_ok K (rp_files R))"

definition repo_ok :: "mflib \<Rightarrow> crypto \<Rightarrow> repo \<Rightarrow> bool" where
  "repo_ok M K R = repo_ok_but M K {} R"

lemma files_ok_put: "files_ok K fs \<Longrightarrow> sha256_hex K c = sha \<Longrightarrow> c \<noteq> [] \<Longrightarrow> length c \<le> max_file_size \<Longrightarrow> files_ok K (fs(sha \<mapsto> c))"
  by (simp add: files_ok_def)

lemma files_ok_drop: "files_ok K fs \<Longrightarrow> files_ok K (fs(sha := None))"
  by (simp add: files_ok_def)

lemma store_cases:
  assumes "store_file K rd want R = (R', r)"
  obtains (failed) e where "r = Inl e" "R' = R"
  | (stored) sha sz where "r = Inr (sha, sz)" "R' = R\<lparr>rp_files := (rp_files R)(sha \<mapsto> fst rd)\<rparr>" "sha = sha256_hex K (fst rd)"
      "fst rd \<noteq> []" "length (fst rd) \<le> max_file_size" "want \<noteq> [] \<longrightarrow> sha = want"
  using assms by (auto simp: store_file_def Let_def split: option.splits if_splits)

lemma store_ok:
  assumes "repo_ok M K R" and "store_file K rd want R = (R', Inr (sha, sz))"
  shows "repo_ok_but M K {sha} R'"
proof (rule store_cases [OF assms(2)])
  fix e assume "Inr (sha, sz) = (Inl e :: pkerror + string \<times> int)"
  then show ?thesis by simp
next
  fix h :: string and z :: int
  assume "Inr (sha, sz) = (Inr (h, z) :: pkerror + string \<times> int)" and R': "R' = R\<lparr>rp_files := (rp_files R)(h \<mapsto> fst rd)\<rparr>"
    and "h = sha256_hex K (fst rd)" "fst rd \<noteq> []" "length (fst rd) \<le> max_file_size"
  then have "files_ok K ((rp_files R)(h \<mapsto> fst rd))" "h = sha"
    using assms(1) by (auto simp: repo_ok_def repo_ok_but_def intro: files_ok_put)
  then show ?thesis
    using assms(1) R' by (simp add: repo_ok_def repo_ok_but_def)
qed

lemma has_file_ok: "repo_ok M K R \<Longrightarrow> has_file sha R \<Longrightarrow> repo_ok_but M K {sha} R"
  by (auto simp: repo_ok_def repo_ok_but_def has_file_def)

text \<open>An update of rows that keeps their keys and only verifies what a manifest describes.\<close>

lemma update_rows_ok:
  assumes "repo_ok_but M K X R" and "\<And>p. pk_id (f p) = pk_id p" and "\<And>p. pk_sha (f p) = pk_sha p"
    and "\<And>p. p \<in> set (rp_rows R) \<Longrightarrow> P p \<Longrightarrow> row_ok M (rp_next R) p \<Longrightarrow> row_ok M (rp_next R) (f p)"
  shows "repo_ok_but M K X (R\<lparr>rp_rows := upd_rows P f (rp_rows R)\<rparr>)"
proof -
  have ids: "map pk_id (upd_rows P f rs) = map pk_id rs" for rs
    by (rule keyed_update.map_key_upd) (simp add: keyed_update_def assms(2))
  have shas: "map pk_sha (upd_rows P f rs) = map pk_sha rs" for rs
    by (rule keyed_update.map_key_upd) (simp add: keyed_update_def assms(3))
  have "list_all (row_ok M (rp_next R)) (upd_rows P f (rp_rows R))"
    using assms(1,4) by (auto simp: repo_ok_but_def list_all_iff set_upd_rows)
  then show ?thesis
    using assms(1) by (simp add: repo_ok_but_def ids shas del: set_map)
qed

lemma replace_row_simps [simp]:
  "pk_id (replace_row p old) = pk_id old" "pk_sha (replace_row p old) = pk_sha old"
  "pk_withdrawn (replace_row p old) = False"
  by (simp_all add: replace_row_def)

lemma default_models_twice [simp]: "default_models (default_models m) = default_models m"
  by (simp add: default_models_def)

lemma upsert_ok:
  assumes R: "repo_ok_but M K {pk_sha p} R"
    and v: "pk_verified p \<Longrightarrow> described M (p\<lparr>pk_meta := default_models (pk_meta p)\<rparr>)"
  shows "repo_ok M K (upsert now p R)"
proof (cases "find_row pk_sha (pk_sha p) (rp_rows R)")
  case None
  then have new: "pk_sha p \<notin> set (map pk_sha (rp_rows R))" by (auto simp: find_row_None)
  have ids: "list_all (row_ok M (rp_next R + 1)) (rp_rows R)" "rp_next R \<notin> set (map pk_id (rp_rows R))"
    using R by (auto simp: repo_ok_but_def row_ok_def list_all_iff)
  have "pk_verified p \<longrightarrow> described M (p\<lparr>pk_meta := default_models (pk_meta p), pk_id := rp_next R, pk_withdrawn := False, pk_created := now\<rparr>)"
    using v by (auto simp: described_def)
  then show ?thesis
    using R None new ids by (auto simp: upsert_def repo_ok_def repo_ok_but_def row_ok_def)
next
  case (Some old)
  let ?p = "p\<lparr>pk_meta := default_models (pk_meta p)\<rparr>"
  have "repo_ok_but M K {pk_sha p} (R\<lparr>rp_rows := upd_rows (\<lambda>r. pk_sha r = pk_sha p) (replace_row ?p) (rp_rows R)\<rparr>)"
  proof (rule update_rows_ok [OF R])
    fix q assume "pk_sha q = pk_sha p" and q: "row_ok M (rp_next R) q"
    then have "pk_verified p \<Longrightarrow> described M (replace_row ?p q)"
      using v by (auto simp: described_def replace_row_def)
    moreover have "\<not> pk_verified p \<Longrightarrow> described M q \<Longrightarrow> described M (replace_row ?p q)"
      by (simp add: described_def replace_row_def)
    ultimately show "row_ok M (rp_next R) (replace_row ?p q)"
      using q by (cases "pk_verified p") (simp_all add: row_ok_def, simp add: replace_row_def)
  qed simp_all
  moreover have "pk_sha p \<in> set (map pk_sha (rp_rows R))"
    using find_row_Some [OF Some] by (metis image_eqI list.set_map)
  moreover have "set (map pk_sha (upd_rows (\<lambda>r. pk_sha r = pk_sha p) (replace_row ?p) (rp_rows R))) = set (map pk_sha (rp_rows R))"
    by (subst keyed_update.map_key_upd) (simp_all add: keyed_update_def)
  ultimately show ?thesis
    using Some by (simp add: upsert_def Let_def repo_ok_def repo_ok_but_def insert_absorb)
qed

lemma update_package_ok: "repo_ok M K R \<Longrightarrow> repo_ok M K (fst (update_package L now i m R))"
  unfolding repo_ok_def
proof -
  assume R: "repo_ok_but M K {} R"
  show "repo_ok_but M K {} (fst (update_package L now i m R))"
  proof (cases "find_row pk_id i (rp_rows R)")
    case None
    then show ?thesis using R by (simp add: update_package_def get_package_def)
  next
    case (Some p)
    have only: "q = p" if "q \<in> set (rp_rows R)" "pk_id q = i" for q
      using find_row_distinct [of pk_id "rp_rows R" q] R Some that by (simp add: repo_ok_but_def)
    have "repo_ok_but M K {} (R\<lparr>rp_rows := upd_rows (\<lambda>r. pk_id r = i) (\<lambda>r. r\<lparr>pk_meta := m'\<rparr>) (rp_rows R)\<rparr>)"
      if "\<not> pk_verified p" for m'
      by (rule update_rows_ok [OF R]) (use only that in \<open>auto simp: row_ok_def\<close>)
    with Some R show ?thesis
      by (auto simp: update_package_def get_package_def split: sum.split)
  qed
qed

lemma delete_package_ok:
  assumes R: "repo_ok M K R"
  shows "repo_ok M K (fst (delete_package i R))"
proof (cases "find_row pk_id i (rp_rows R)")
  case None
  then show ?thesis using R by (simp add: delete_package_def get_package_def)
next
  case (Some p)
  have p: "p \<in> set (rp_rows R)" "pk_id p = i" using find_row_Some [OF Some] by auto
  have d: "distinct (map pk_sha (rp_rows R))" using R by (simp add: repo_ok_def repo_ok_but_def)
  have rest: "pk_sha ` set (del_rows (\<lambda>r. pk_id r = i) (rp_rows R)) = pk_sha ` set (rp_rows R) - {pk_sha p}"
  proof -
    have iff: "pk_id q = i \<longleftrightarrow> pk_sha q = pk_sha p" if "q \<in> set (rp_rows R)" for q
    proof
      assume "pk_id q = i"
      then show "pk_sha q = pk_sha p"
        using find_row_distinct [of pk_id "rp_rows R" q] R Some that by (simp add: repo_ok_def repo_ok_but_def)
    next
      assume "pk_sha q = pk_sha p"
      then show "pk_id q = i"
        using find_row_distinct [OF d that] find_row_distinct [OF d p(1)] p(2) by (metis option.inject)
    qed
    have "{r \<in> set (rp_rows R). pk_id r \<noteq> i} = {r \<in> set (rp_rows R). pk_sha r \<noteq> pk_sha p}"
      by (rule Collect_cong, rule conj_cong [OF refl], simp only: iff)
    moreover have "pk_sha ` {r \<in> A. pk_sha r \<noteq> x} = pk_sha ` A - {x}" for A x by auto
    ultimately show ?thesis by (simp only: set_del_rows)
  qed
  have "distinct (map pk_id (del_rows P (rp_rows R)))" "distinct (map pk_sha (del_rows P (rp_rows R)))" for P
    using R by (auto simp: repo_ok_def repo_ok_but_def del_rows_def intro: distinct_map_filter)
  moreover have "list_all (row_ok M (rp_next R)) (del_rows P (rp_rows R))" for P
    using R by (auto simp: repo_ok_def repo_ok_but_def del_rows_def list_all_iff)
  ultimately show ?thesis
    using R Some rest by (simp add: delete_package_def get_package_def repo_ok_def repo_ok_but_def files_ok_drop)
qed

lemma upload_ok:
  assumes R: "repo_ok M K R"
  shows "repo_ok M K (fst (upload L K now rd f m R))"
proof (cases "store_file K rd [] R")
  case (Pair R1 r)
  show ?thesis
  proof (cases r)
    case (Inl e)
    with Pair have "R1 = R" by (auto elim: store_cases)
    with Inl Pair R show ?thesis by (simp add: upload_def Let_def split: sum.split)
  next
    case (Inr x)
    obtain sha sz where x: "x = (sha, sz)" by (cases x)
    have "repo_ok M K (upsert now (new_package sha g sz m' None ''upload'' False) R1)" for g m'
      by (rule upsert_ok) (use store_ok [OF R] Pair Inr x in \<open>simp_all add: new_package_def\<close>)
    with Inr Pair R x show ?thesis by (simp add: upload_def Let_def split: sum.split)
  qed
qed

subsection \<open>The newest package\<close>

text \<open>What the choice relies on: \<open>CompareVersions\<close> is a total preorder.\<close>

definition version_order :: "mflib \<Rightarrow> bool" where
  "version_order M =
     ((\<forall>a b. ml_compare M a b > 0 \<longleftrightarrow> ml_compare M b a < 0) \<and>
      (\<forall>a b c. ml_compare M a b \<le> 0 \<longrightarrow> ml_compare M b c \<le> 0 \<longrightarrow> ml_compare M a c \<le> 0))"

definition version_cmp :: "mflib \<Rightarrow> package \<Rightarrow> package \<Rightarrow> int" where
  "version_cmp M p q = ml_compare M (pm_version (pk_meta p)) (pm_version (pk_meta q))"

definition release_key :: "package \<Rightarrow> time \<times> int" where
  "release_key p = (pm_released (pk_meta p), pk_id p)"

definition no_newer :: "mflib \<Rightarrow> package \<Rightarrow> package \<Rightarrow> bool" where
  "no_newer M q p = (version_cmp M q p < 0 \<or> version_cmp M q p = 0 \<and> release_key q \<le> release_key p)"

lemma version_cmp_rev: "version_order M \<Longrightarrow> version_cmp M p q > 0 \<longleftrightarrow> version_cmp M q p < 0"
  by (simp add: version_order_def version_cmp_def)

lemma version_cmp_trans: "version_order M \<Longrightarrow> version_cmp M p q \<le> 0 \<Longrightarrow> version_cmp M q r \<le> 0 \<Longrightarrow> version_cmp M p r \<le> 0"
  unfolding version_order_def version_cmp_def by blast

lemma best_package_Cons:
  "best_package M (Some b) (p # ps) = best_package M (Some (if version_cmp M p b > 0 then p else b)) ps"
  by (simp add: version_cmp_def)

lemmas best_package_Some = best_package.simps(1) best_package_Cons

lemma best_package_newest:
  assumes "version_order M"
  shows "sorted_wrt (\<lambda>p q. release_key p \<ge> release_key q) (b # ps) \<Longrightarrow>
    \<exists>p. best_package M (Some b) ps = Some p \<and> p \<in> set (b # ps) \<and> (\<forall>q\<in>set (b # ps). no_newer M q p)"
proof (induction ps arbitrary: b)
  case Nil
  have "version_cmp M b b = 0" using version_cmp_rev [OF assms, of b b] by linarith
  then show ?case by (simp add: no_newer_def)
next
  case (Cons x ps)
  note rev = version_cmp_rev [OF assms] and trans = version_cmp_trans [OF assms]
  show ?case
  proof (cases "version_cmp M x b > 0")
    case True
    have "sorted_wrt (\<lambda>p q. release_key p \<ge> release_key q) (x # ps)" using Cons.prems by simp
    from Cons.IH [OF this] obtain p where p: "best_package M (Some x) ps = Some p" "p \<in> set (x # ps)"
      and new: "\<forall>q\<in>set (x # ps). no_newer M q p" by blast
    have xp: "version_cmp M x p \<le> 0" using new by (auto simp: no_newer_def)
    have "version_cmp M b p < 0"
      using trans [of b x p] trans [of x p b] rev [of b p] rev [of p b] rev [of x b] xp True by linarith
    then have "no_newer M b p" by (simp add: no_newer_def)
    with p new True show ?thesis by (auto simp: best_package_Some simp del: best_package.simps)
  next
    case False
    have "sorted_wrt (\<lambda>p q. release_key p \<ge> release_key q) (b # ps)" using Cons.prems by simp
    from Cons.IH [OF this] obtain p where p: "best_package M (Some b) ps = Some p" "p \<in> set (b # ps)"
      and new: "\<forall>q\<in>set (b # ps). no_newer M q p" by blast
    have bp: "version_cmp M b p < 0 \<or> version_cmp M b p = 0 \<and> release_key b \<le> release_key p"
      using new by (simp add: no_newer_def)
    have xb: "release_key x \<le> release_key b" using Cons.prems by simp
    have "version_cmp M x p \<le> 0" using trans [of x b p] False bp by linarith
    moreover have "version_cmp M x p = 0 \<Longrightarrow> version_cmp M b p = 0"
      using trans [of p x b] rev [of p x] rev [of x p] rev [of p b] rev [of b p] False bp by linarith
    ultimately have "no_newer M x p" using bp xb by (auto simp: no_newer_def)
    with p new False show ?thesis by (auto simp: best_package_Some simp del: best_package.simps)
  qed
qed

lemma newest_first_sorted: "sorted_wrt (\<lambda>p q. release_key p \<ge> release_key q) (newest_first ps)"
proof -
  have "sorted (map release_key (sort_key release_key ps))" by simp
  then have "sorted_wrt (\<lambda>p q. release_key p \<le> release_key q) (sort_key release_key ps)" by (simp add: sorted_map)
  then show ?thesis by (simp add: newest_first_def sorted_wrt_rev release_key_def [abs_def])
qed

definition offered :: "mflib \<Rightarrow> string \<Rightarrow> string \<Rightarrow> string \<Rightarrow> string \<Rightarrow> repo \<Rightarrow> package \<Rightarrow> bool" where
  "offered M platform typ model firmware R p =
     (p \<in> set (rp_rows R) \<and> \<not> pk_withdrawn p \<and> (typ = [] \<or> pm_type (pk_meta p) = typ) \<and> compatible M p platform model firmware)"

lemma offered_iff:
  "p \<in> set (filter (\<lambda>p. compatible M p platform model firmware) (list_packages platform typ False R)) \<longleftrightarrow>
     offered M platform typ model firmware R p"
  by (auto simp: list_packages_def newest_first_def offered_def compatible_def split: if_splits)

text \<open>
  "Install the latest" picks, among the packages that are offered for the platform and type and fit
  the model and firmware of the device, one that no other exceeds in version, and of those with that
  version the one released last; it finds none only when there is none.
\<close>

lemma latest_is_newest:
  assumes "version_order M"
  shows "case latest M platform typ model firmware R of
      Inl e \<Rightarrow> e = PkNotFound \<and> Collect (offered M platform typ model firmware R) = {}
    | Inr p \<Rightarrow> offered M platform typ model firmware R p \<and> (\<forall>q. offered M platform typ model firmware R q \<longrightarrow> no_newer M q p)"
proof -
  let ?l = "filter (\<lambda>p. compatible M p platform model firmware) (list_packages platform typ False R)"
  have sorted: "sorted_wrt (\<lambda>p q. release_key p \<ge> release_key q) ?l"
    unfolding list_packages_def by (intro sorted_wrt_filter newest_first_sorted)
  have iff: "\<And>p. p \<in> set ?l \<longleftrightarrow> offered M platform typ model firmware R p" by (rule offered_iff)
  show ?thesis
  proof (cases ?l)
    case Nil
    with iff show ?thesis by (simp add: latest_def)
  next
    case (Cons b ps)
    from best_package_newest [OF assms, of b ps] sorted Cons obtain p where
      p: "best_package M (Some b) ps = Some p" "p \<in> set ?l" "\<forall>q\<in>set ?l. no_newer M q p" by auto
    have "latest M platform typ model firmware R = Inr p" using p(1) Cons by (simp add: latest_def)
    with p(2,3) show ?thesis by (simp only: iff sum.case) (use iff p(3) in blast)
  qed
qed

definition sample_meta :: "string \<Rightarrow> pkmeta" where
  "sample_meta v = \<lparr>pm_platform = ''fortigate'', pm_type = ''ips_db'', pm_version = v, pm_models = [''FGT_100F''], pm_fw_min = [],
     pm_fw_max = [], pm_upgrade_from = [], pm_notes = [], pm_released = 5\<rparr>"

definition sample_mf :: mflib where
  "sample_mf = \<lparr>ml_keys = 1,
     ml_verify = (\<lambda>body sig. if sig = ''signed'' \<and> body \<noteq> []
                   then Inr [\<lparr>me_sha = ''sha256:new'', me_file = ''ips-2.pkg'', me_size = 3, me_meta = sample_meta body\<rparr>] else Inl ''bad signature''),
     ml_validate = (\<lambda>m. None), ml_compare = (\<lambda>a b. int (length a) - int (length b)),
     ml_upgrades = (\<lambda>m v. v \<in> set (pm_upgrade_from m))\<rparr>"

definition sample_repo :: repo where
  "sample_repo = fst (upload sample_mf sample_crypto 7 (''old'', None) ''dl/ips-1.pkg'' (Some (sample_meta ''1.0'')) \<lparr>rp_rows = [], rp_next = 1, rp_files = Map.empty\<rparr>)"

definition sample_row :: package where
  "sample_row = (new_package ''sha256:old'' ''ips-1.pkg'' 3 (sample_meta ''1.0'') None ''upload'' False)\<lparr>pk_id := 1, pk_created := 7\<rparr>"

lemma sample_file: "file_base (trim_space ''dl/ips-1.pkg'') = ''ips-1.pkg''" by code_simp

lemma sample_valid: "validate_meta sample_mf 7 (sample_meta ''1.0'') = Inr (sample_meta ''1.0'')" by code_simp

lemma sample_store:
  "store_file sample_crypto (''old'', None) [] R = (R\<lparr>rp_files := (rp_files R)(''sha256:old'' \<mapsto> ''old'')\<rparr>, Inr (''sha256:old'', 3))"
  by (simp add: store_file_def max_file_size_def Let_def sample_crypto_def)

lemma sample_models: "default_models (sample_meta v) = sample_meta v"
  by (simp add: default_models_def sample_meta_def)

lemma sample_repo_eq: "sample_repo = \<lparr>rp_rows = [sample_row], rp_next = 2, rp_files = [''sha256:old'' \<mapsto> ''old'']\<rparr>"
  by (simp add: sample_repo_def upload_def sample_file sample_valid sample_store Let_def upsert_def
      sample_row_def new_package_def by_sha_def find_row_Cons get_package_def sample_models)

lemma latest_is_newest_example:
  "map_sum (\<lambda>e. ()) pk_file (latest sample_mf ''fortigate'' ''ips_db'' ''FortiGate-100F'' [] sample_repo) = Inr ''ips-1.pkg'' \<and>
   (\<nexists>q. offered sample_mf ''fortigate'' ''ips_db'' ''FortiGate-100F'' [] sample_repo q \<and>
      0 < version_cmp sample_mf q (case latest sample_mf ''fortigate'' ''ips_db'' ''FortiGate-100F'' [] sample_repo of Inr p \<Rightarrow> p))"
proof -
  have order: "version_order sample_mf" by (simp add: version_order_def sample_mf_def)
  have "map_sum (\<lambda>e. ()) pk_file (latest sample_mf ''fortigate'' ''ips_db'' ''FortiGate-100F'' [] sample_repo) = Inr ''ips-1.pkg''"
    unfolding sample_repo_eq by code_simp
  moreover from this obtain p where p: "latest sample_mf ''fortigate'' ''ips_db'' ''FortiGate-100F'' [] sample_repo = Inr p"
    by (cases "latest sample_mf ''fortigate'' ''ips_db'' ''FortiGate-100F'' [] sample_repo") auto
  ultimately show ?thesis
    using latest_is_newest [OF order, of "''fortigate''" "''ips_db''" "''FortiGate-100F''" "[]" sample_repo]
    by (auto simp: p no_newer_def)
qed

end
