(* ===== verification/Sources.thy ===== *)
theory Sources
  imports Packages
begin

text \<open>
  Package sources (\<open>internal/packages/sources.go\<close> and \<open>bundle.go\<close>): the configured sources with their
  schedules, what each kind of server offers and how its files are fetched, the synchronisation of a
  source, the due sources, and the import of an offline bundle.

  The servers are the parameter \<open>remote\<close>: HTTP answers by URL, an FTP, SFTP or TFTP session by its
  calls. The cron parser, the URL parser and the secret box are in \<open>srcenv\<close>; a stored source holds its
  settings in the clear.
\<close>

subsection \<open>Sources\<close>

datatype skind = KindCentral | KindHTTP | KindFTP | KindSFTP | KindTFTP | OtherKind string

record srccfg =
  so_url :: string
  so_host :: string
  so_port :: int
  so_user :: string
  so_password :: string
  so_dir :: string
  so_tls :: bool
  so_host_key :: string
  so_files :: "string list"

abbreviation stars :: string where "stars \<equiv> ''********''"

definition src_redacted :: "srccfg \<Rightarrow> srccfg" where
  "src_redacted c = (if so_password c \<noteq> [] then c\<lparr>so_password := stars\<rparr> else c)"

record source =
  sr_id :: int
  sr_name :: string
  sr_kind :: skind
  sr_config :: srccfg
  sr_schedule :: string
  sr_enabled :: bool
  sr_last :: "time option"
  sr_status :: string
  sr_error :: string
  sr_created :: time

record sync_run =
  sy_id :: int
  sy_source :: "int option"
  sy_origin :: string
  sy_started :: time
  sy_finished :: "time option"
  sy_status :: string
  sy_added :: nat
  sy_seen :: nat
  sy_error :: string
  sy_actor :: string

record pkdb =
  db_repo :: repo
  db_sources :: "source list"
  db_next_source :: int
  db_runs :: "sync_run list"
  db_next_run :: int

record srcenv =
  se_cron :: "string \<Rightarrow> (time \<Rightarrow> time) option"
  se_url :: "string \<Rightarrow> (string \<times> string) option"
  se_escape :: "string \<Rightarrow> string"

definition http_scheme :: "string \<Rightarrow> bool" where "http_scheme s = (s = ''https'' \<or> s = ''http'')"

definition bad_url :: string where "bad_url = ''URL must be an http(s) URL''"

definition validate_server :: "skind \<Rightarrow> srccfg \<Rightarrow> string + srccfg" where
  "validate_server k c0 =
     (if so_host c0 = [] then Inl ''server address is required''
      else if so_port c0 < 0 \<or> so_port c0 > 65535 then Inl ''port is out of range''
      else (let c = (if k = KindTFTP then c0\<lparr>so_files := clean_list [] (so_files c0)\<rparr> else c0)
            in if k = KindTFTP \<and> so_files c = [] then Inl ''TFTP cannot list files: enter the file names to fetch''
               else if k = KindSFTP \<and> so_user c = [] then Inl ''SFTP needs a user name'' else Inr c))"

definition validate_source :: "srcenv \<Rightarrow> source \<Rightarrow> string + source" where
  "validate_source E s0 =
     (let s = s0\<lparr>sr_name := trim_space (sr_name s0), sr_schedule := trim_space (sr_schedule s0)\<rparr>; c = sr_config s
      in if sr_name s = [] then Inl ''source name is required''
         else if sr_schedule s \<noteq> [] \<and> se_cron E (sr_schedule s) = None then Inl ''schedule is not a valid cron expression''
         else (case sr_kind s of
                 KindCentral \<Rightarrow>
                   if so_url c = [] then Inr s
                   else (case se_url E (so_url c) of
                           None \<Rightarrow> Inl bad_url | Some (sch, h) \<Rightarrow> if http_scheme sch then Inr s else Inl bad_url)
               | KindHTTP \<Rightarrow>
                   (case se_url E (so_url c) of
                      None \<Rightarrow> Inl bad_url | Some (sch, h) \<Rightarrow> if http_scheme sch \<and> h \<noteq> [] then Inr s else Inl bad_url)
               | OtherKind k \<Rightarrow> Inl ''unknown source kind''
               | k \<Rightarrow> (case validate_server k c of Inl e \<Rightarrow> Inl e | Inr c' \<Rightarrow> Inr (s\<lparr>sr_config := c'\<rparr>))))"

text \<open>\<open>NextSyncAt\<close>: the occurrence after the last sync, or about now when that is more than a day ago.\<close>

definition next_sync :: "srcenv \<Rightarrow> time \<Rightarrow> source \<Rightarrow> time option" where
  "next_sync E now s =
     (if \<not> sr_enabled s \<or> sr_schedule s = [] then None
      else case se_cron E (sr_schedule s) of
             None \<Rightarrow> None
           | Some next \<Rightarrow>
               (let n = next (case sr_last s of None \<Rightarrow> sr_created s | Some t \<Rightarrow> t)
                in Some (if n < now - 24 * hour then next (now - minute) else n)))"

definition list_sources :: "srcenv \<Rightarrow> time \<Rightarrow> pkdb \<Rightarrow> (source \<times> time option) list" where
  "list_sources E now D = map (\<lambda>s. (s\<lparr>sr_config := src_redacted (sr_config s)\<rparr>, next_sync E now s)) (db_sources D)"

definition get_source :: "int \<Rightarrow> pkdb \<Rightarrow> pkerror + source" where
  "get_source i D = (case find_row sr_id i (db_sources D) of None \<Rightarrow> Inl PkNotFound | Some s \<Rightarrow> Inr s)"

definition keep_old :: "srccfg \<Rightarrow> srccfg \<Rightarrow> srccfg" where
  "keep_old old c0 =
     (let c = (if so_password c0 = [] \<or> so_password c0 = stars then c0\<lparr>so_password := so_password old\<rparr> else c0)
      in if so_host_key c = [] \<and> so_host c = so_host old then c\<lparr>so_host_key := so_host_key old\<rparr> else c)"

definition source_name_taken :: "int \<Rightarrow> string \<Rightarrow> pkdb \<Rightarrow> bool" where
  "source_name_taken i name D = list_ex (\<lambda>s. sr_id s \<noteq> i \<and> to_lower (sr_name s) = to_lower name) (db_sources D)"

definition write_source :: "time \<Rightarrow> source \<Rightarrow> pkdb \<Rightarrow> (pkdb, pkerror, int) outcome" where
  "write_source now s D =
     (if source_name_taken (sr_id s) (sr_name s) D then (D, Inl (PkInput ''a source with this name already exists''))
      else if sr_id s = 0
      then (D\<lparr>db_sources := db_sources D @ [s\<lparr>sr_id := db_next_source D, sr_last := None, sr_status := [], sr_error := [], sr_created := now\<rparr>],
              db_next_source := db_next_source D + 1\<rparr>, Inr (db_next_source D))
      else (D\<lparr>db_sources := upd_rows (\<lambda>r. sr_id r = sr_id s)
              (\<lambda>r. r\<lparr>sr_name := sr_name s, sr_kind := sr_kind s, sr_config := sr_config s, sr_schedule := sr_schedule s,
                    sr_enabled := sr_enabled s\<rparr>) (db_sources D)\<rparr>, Inr (sr_id s)))"

definition save_source :: "srcenv \<Rightarrow> time \<Rightarrow> source \<Rightarrow> pkdb \<Rightarrow> (pkdb, pkerror, int) outcome" where
  "save_source E now s0 D =
     (case (if sr_id s0 = 0 then Inr s0
            else case get_source (sr_id s0) D of
                   Inl e \<Rightarrow> Inl e | Inr old \<Rightarrow> Inr (s0\<lparr>sr_config := keep_old (sr_config old) (sr_config s0)\<rparr>)) of
        Inl e \<Rightarrow> (D, Inl e)
      | Inr s1 \<Rightarrow> (case validate_source E s1 of Inl e \<Rightarrow> (D, Inl (PkInput e)) | Inr s \<Rightarrow> write_source now s D))"

text \<open>Deleting a source unlinks its packages and deletes its runs (the foreign keys).\<close>

definition delete_source :: "int \<Rightarrow> pkdb \<Rightarrow> (pkdb, pkerror, unit) outcome" where
  "delete_source i D =
     (if find_row sr_id i (db_sources D) = None then (D, Inl PkNotFound)
      else (D\<lparr>db_sources := del_rows (\<lambda>s. sr_id s = i) (db_sources D),
              db_runs := del_rows (\<lambda>r. sy_source r = Some i) (db_runs D),
              db_repo := (db_repo D)\<lparr>rp_rows := upd_rows (\<lambda>p. pk_source p = Some i) (\<lambda>p. p\<lparr>pk_source := None\<rparr>) (rp_rows (db_repo D))\<rparr>\<rparr>,
            Inr ()))"

definition sync_runs :: "pkdb \<Rightarrow> sync_run list" where
  "sync_runs D = take 50 (rev (sort_key sy_started (db_runs D)))"

subsection \<open>Servers\<close>

record rfile =
  rf_name :: string
  rf_size :: int
  rf_entry :: "mfentry option"

text \<open>An HTTP answer: its status code and line, the error of a JSON body, and the body.\<close>

record http_reply =
  hr_status :: int
  hr_line :: string
  hr_error :: string
  hr_body :: reader

text \<open>
  \<open>rm_http url auth\<close> sends a GET, with the installation's signature when \<open>auth\<close> is the license it is
  made for. \<open>rm_ssh_key\<close> connects and gives the host key that the SSH server presents; a session call gives an
  error or its result.
\<close>

record 'l remote =
  rm_http :: "string \<Rightarrow> 'l option \<Rightarrow> string + http_reply"
  rm_ftp_dial :: "string \<Rightarrow> int \<Rightarrow> bool \<Rightarrow> string option"
  rm_ftp_login :: "string \<Rightarrow> string \<Rightarrow> string option"
  rm_ftp_list :: "string \<Rightarrow> string + (string \<times> bool \<times> int) list"
  rm_ftp_get :: "string \<Rightarrow> string + reader"
  rm_ssh_key :: "string \<Rightarrow> int \<Rightarrow> string + string"
  rm_ssh_dial :: "string \<Rightarrow> int \<Rightarrow> string \<Rightarrow> string \<Rightarrow> string option"
  rm_sftp_list :: "string \<Rightarrow> string + (string \<times> bool \<times> int) list"
  rm_sftp_get :: "string \<Rightarrow> string + reader"
  rm_tftp_get :: "string \<Rightarrow> int \<Rightarrow> string \<Rightarrow> string + reader"

text \<open>\<open>path.Join\<close> of a directory and a name: the clean path.\<close>

fun clean_path :: "bool \<Rightarrow> string list \<Rightarrow> string list \<Rightarrow> string list" where
  "clean_path rooted done [] = rev done"
| "clean_path rooted done (p # ps) =
     (if p = [] \<or> p = ''.'' then clean_path rooted done ps
      else if p = ''..''
      then (case done of
              [] \<Rightarrow> clean_path rooted (if rooted then [] else [''..'']) ps
            | d # ds \<Rightarrow> if d = ''..'' then clean_path rooted (''..'' # d # ds) ps else clean_path rooted ds ps)
      else clean_path rooted (p # done) ps)"

definition path_clean :: "string \<Rightarrow> string" where
  "path_clean s =
     (let rooted = starts_with ''/'' s; parts = clean_path rooted [] (split_char (CHR ''/'') s); body = join ''/'' parts
      in if rooted then ''/'' @ body else if body = [] then ''.'' else body)"

definition path_join :: "string \<Rightarrow> string \<Rightarrow> string" where
  "path_join dir name =
     (if dir = [] then (if name = [] then [] else path_clean name)
      else if name = [] then path_clean dir else path_clean (dir @ ''/'' @ name))"

definition small_limit :: nat where "small_limit = 32 * 2 ^ 20"

definition read_small :: "string + reader \<Rightarrow> string + string" where
  "read_small r =
     (case r of
        Inl e \<Rightarrow> Inl e
      | Inr (body, err) \<Rightarrow>
          (case (if length body < small_limit then err else None) of Some e \<Rightarrow> Inl e | None \<Rightarrow> Inr (take small_limit body)))"

definition verify_manifest :: "mflib \<Rightarrow> string \<Rightarrow> string \<Rightarrow> string + rfile list" where
  "verify_manifest M body sig =
     (if ml_keys M = 0 then Inl ''no trusted package keys are built in; signed manifests cannot be verified''
      else case ml_verify M body sig of
             Inl e \<Rightarrow> Inl e
           | Inr es \<Rightarrow> Inr (map (\<lambda>e. \<lparr>rf_name = me_file e, rf_size = me_size e, rf_entry = Some e\<rparr>) es))"

text \<open>
  A fetcher is what \<open>defaultFetcher\<close> gives: the listing, with whether it is signed, and the reader of a
  file; \<open>fe_key\<close> is the host key an SFTP server presented.
\<close>

record fetcher =
  fe_list :: "string + (rfile list \<times> bool)"
  fe_open :: "rfile \<Rightarrow> string + reader"
  fe_key :: string

definition http_get :: "'l remote \<Rightarrow> string \<Rightarrow> 'l option \<Rightarrow> string \<Rightarrow> string + reader" where
  "http_get N base auth rel =
     (case rm_http N (base @ rel) auth of
        Inl e \<Rightarrow> Inl e
      | Inr a \<Rightarrow>
          if hr_status a \<noteq> 200 then Inl (rel @ '': '' @ (if hr_error a = [] then hr_line a else hr_error a))
          else Inr (hr_body a))"

definition http_list :: "mflib \<Rightarrow> 'l remote \<Rightarrow> string \<Rightarrow> 'l option \<Rightarrow> bool \<Rightarrow> string + (rfile list \<times> bool)" where
  "http_list M N base auth by_hash =
     (case read_small (http_get N base auth (''/manifest'' @ (if by_hash then [] else ''.json''))) of
        Inl e \<Rightarrow> Inl e
      | Inr body \<Rightarrow>
          (case read_small (http_get N base auth ''/manifest.sig'') of
             Inl e \<Rightarrow> Inl e
           | Inr sig \<Rightarrow> (case verify_manifest M body sig of Inl e \<Rightarrow> Inl e | Inr fs \<Rightarrow> Inr (fs, True))))"

definition http_open :: "srcenv \<Rightarrow> 'l remote \<Rightarrow> string \<Rightarrow> 'l option \<Rightarrow> bool \<Rightarrow> rfile \<Rightarrow> string + reader" where
  "http_open E N base auth by_hash f =
     http_get N base auth
       (''/files/'' @ (if by_hash then (case rf_entry f of None \<Rightarrow> [] | Some e \<Rightarrow> me_sha e) else se_escape E (rf_name f)))"

definition http_fetcher :: "mflib \<Rightarrow> srcenv \<Rightarrow> 'l remote \<Rightarrow> string \<Rightarrow> 'l option \<Rightarrow> bool \<Rightarrow> fetcher" where
  "http_fetcher M E N base auth by_hash =
     \<lparr>fe_list = http_list M N base auth by_hash, fe_open = http_open E N base auth by_hash, fe_key = []\<rparr>"

definition trim_slashes :: "string \<Rightarrow> string" where "trim_slashes = trim_right (\<lambda>c. c = CHR ''/'')"

text \<open>The license manager of the central repository: the server's address and the guard, if there is one.\<close>

definition central_fetcher ::
  "mflib \<Rightarrow> srcenv \<Rightarrow> 'l remote \<Rightarrow> (string \<times> 'l guard) option \<Rightarrow> srccfg \<Rightarrow> string + fetcher" where
  "central_fetcher M E N lic c =
     (let base = (if trim_slashes (so_url c) \<noteq> [] then trim_slashes (so_url c)
                  else case lic of None \<Rightarrow> [] | Some (url, g) \<Rightarrow> url)
      in if base = [] then Inl ''license server address is unknown; set it on the source or TAKTAPLUS_LICENSE_SERVER''
         else case lic of
                None \<Rightarrow> Inl ''the central repository needs an installed online license''
              | Some (url, g) \<Rightarrow>
                  (case guard_license g of
                     Inl e \<Rightarrow> Inl ''the central repository needs an installed online license''
                   | Inr l \<Rightarrow> Inr (http_fetcher M E N (base @ ''/api/v1/repo'') (Some l) True)))"

definition mirror_or_plain ::
  "mflib \<Rightarrow> (string \<Rightarrow> string + reader) \<Rightarrow> (string \<times> bool \<times> int) list \<Rightarrow> string + (rfile list \<times> bool)" where
  "mirror_or_plain M read es =
     (let files = map (\<lambda>(n, reg, sz). \<lparr>rf_name = n, rf_size = sz, rf_entry = None\<rparr>) (filter (\<lambda>(n, reg, sz). reg) es);
          names = set (map rf_name files)
      in if ''manifest.json'' \<in> names \<and> ''manifest.sig'' \<in> names
         then (case read_small (read ''manifest.json'') of
                 Inl e \<Rightarrow> Inl e
               | Inr body \<Rightarrow>
                   (case read_small (read ''manifest.sig'') of
                      Inl e \<Rightarrow> Inl e
                    | Inr sig \<Rightarrow> (case verify_manifest M body sig of Inl e \<Rightarrow> Inl e | Inr fs \<Rightarrow> Inr (fs, True))))
         else Inr (files, False))"

definition dir_open :: "(string \<Rightarrow> string + reader) \<Rightarrow> string \<Rightarrow> rfile \<Rightarrow> string + reader" where
  "dir_open get dir f = get (path_join dir (if rf_entry f \<noteq> None then ''files/'' @ rf_name f else rf_name f))"

definition ftp_fetcher :: "mflib \<Rightarrow> 'l remote \<Rightarrow> srccfg \<Rightarrow> string + fetcher" where
  "ftp_fetcher M N c =
     (case rm_ftp_dial N (so_host c) (if so_port c = 0 then 21 else so_port c) (so_tls c) of
        Some e \<Rightarrow> Inl e
      | None \<Rightarrow>
          (case (if so_user c = [] then rm_ftp_login N ''anonymous'' ''anonymous'' else rm_ftp_login N (so_user c) (so_password c)) of
             Some e \<Rightarrow> Inl (''FTP login: '' @ e)
           | None \<Rightarrow>
               Inr \<lparr>fe_list = (case rm_ftp_list N (so_dir c) of
                                 Inl e \<Rightarrow> Inl e
                               | Inr es \<Rightarrow> mirror_or_plain M (\<lambda>n. rm_ftp_get N (path_join (so_dir c) n)) es),
                    fe_open = dir_open (rm_ftp_get N) (so_dir c), fe_key = []\<rparr>))"

definition sftp_fetcher :: "mflib \<Rightarrow> 'l remote \<Rightarrow> srccfg \<Rightarrow> string + fetcher" where
  "sftp_fetcher M N c =
     (let port = (if so_port c = 0 then 22 else so_port c)
      in case rm_ssh_key N (so_host c) port of
           Inl e \<Rightarrow> Inl e
         | Inr key \<Rightarrow>
             (let seen = trim_space key
              in if so_host_key c \<noteq> [] \<and> so_host_key c \<noteq> seen
                 then Inl ''ssh: handshake failed: SFTP host key does not match the pinned key''
                 else case rm_ssh_dial N (so_host c) port (so_user c) (so_password c) of
                        Some e \<Rightarrow> Inl e
                      | None \<Rightarrow>
                          Inr \<lparr>fe_list = (case rm_sftp_list N (if so_dir c = [] then ''.'' else so_dir c) of
                                            Inl e \<Rightarrow> Inl e
                                          | Inr es \<Rightarrow> mirror_or_plain M (\<lambda>n. rm_sftp_get N (path_join (so_dir c) n)) es),
                               fe_open = dir_open (rm_sftp_get N) (so_dir c), fe_key = seen\<rparr>))"

definition tftp_fetcher :: "'l remote \<Rightarrow> srccfg \<Rightarrow> fetcher" where
  "tftp_fetcher N c =
     \<lparr>fe_list = Inr (map (\<lambda>f. \<lparr>rf_name = f, rf_size = -1, rf_entry = None\<rparr>) (so_files c), False),
      fe_open = (\<lambda>f. rm_tftp_get N (so_host c) (if so_port c = 0 then 69 else so_port c) (rf_name f)), fe_key = []\<rparr>"

definition default_fetcher ::
  "mflib \<Rightarrow> srcenv \<Rightarrow> 'l remote \<Rightarrow> (string \<times> 'l guard) option \<Rightarrow> source \<Rightarrow> string + fetcher" where
  "default_fetcher M E N lic s =
     (case sr_kind s of
        KindCentral \<Rightarrow> central_fetcher M E N lic (sr_config s)
      | KindHTTP \<Rightarrow> Inr (http_fetcher M E N (trim_slashes (so_url (sr_config s))) None False)
      | KindFTP \<Rightarrow> ftp_fetcher M N (sr_config s)
      | KindSFTP \<Rightarrow> sftp_fetcher M N (sr_config s)
      | KindTFTP \<Rightarrow> Inr (tftp_fetcher N (sr_config s))
      | OtherKind k \<Rightarrow> Inl ''unknown source kind'')"

subsection \<open>Synchronisation\<close>

definition entry_package :: "mfentry \<Rightarrow> int option \<Rightarrow> string \<Rightarrow> bool \<Rightarrow> package" where
  "entry_package e src origin verified = new_package (me_sha e) (me_file e) (me_size e) (me_meta e) src origin verified"

text \<open>The file of an unsigned listing that was fetched before: same source, name and size.\<close>

definition known_file :: "int \<Rightarrow> rfile \<Rightarrow> repo \<Rightarrow> string option" where
  "known_file src f R =
     map_option pk_sha (List.find (\<lambda>p. pk_source p = Some src \<and> pk_file p = rf_name f \<and> (pk_size p = rf_size f \<or> rf_size f < 0)) (rp_rows R))"

definition offer_again :: "string \<Rightarrow> repo \<Rightarrow> repo" where
  "offer_again sha R = R\<lparr>rp_rows := upd_rows (\<lambda>p. pk_sha p = sha) (\<lambda>p. p\<lparr>pk_withdrawn := False\<rparr>) (rp_rows R)\<rparr>"

definition fetch_entry ::
  "crypto \<Rightarrow> time \<Rightarrow> fetcher \<Rightarrow> source \<Rightarrow> bool \<Rightarrow> rfile \<Rightarrow> mfentry \<Rightarrow> repo \<Rightarrow> (repo, string, string \<times> bool) outcome" where
  "fetch_entry K now F s trusted f e R =
     (let p = entry_package e (Some (sr_id s)) (sr_name s) trusted
      in if has_file (me_sha e) R then (upsert now p R, Inr (me_sha e, False))
         else (case fe_open F f of
                 Inl err \<Rightarrow> (R, Inl err)
               | Inr rd \<Rightarrow>
                   (case store_file K rd (me_sha e) R of
                      (R1, Inl err) \<Rightarrow> (R1, Inl (pkerror_text err))
                    | (R1, Inr (sha, sz)) \<Rightarrow> (upsert now p R1, Inr (sha, True)))))"

definition fetch_plain ::
  "crypto \<Rightarrow> time \<Rightarrow> fetcher \<Rightarrow> source \<Rightarrow> rfile \<Rightarrow> repo \<Rightarrow> (repo, string, string \<times> bool) outcome" where
  "fetch_plain K now F s f R =
     (case fe_open F f of
        Inl err \<Rightarrow> (R, Inl err)
      | Inr rd \<Rightarrow>
          (case store_file K rd [] R of
             (R1, Inl err) \<Rightarrow> (R1, Inl (pkerror_text err))
           | (R1, Inr (sha, sz)) \<Rightarrow>
               (upsert now (new_package sha (rf_name f) sz (guess now (rf_name f)) (Some (sr_id s)) (sr_name s) False) R1, Inr (sha, True))))"

definition sync_file ::
  "crypto \<Rightarrow> time \<Rightarrow> fetcher \<Rightarrow> source \<Rightarrow> bool \<Rightarrow> rfile \<Rightarrow> repo \<Rightarrow> (repo, string, string \<times> bool) outcome" where
  "sync_file K now F s trusted f R =
     (case rf_entry f of
        Some e \<Rightarrow> fetch_entry K now F s trusted f e R
      | None \<Rightarrow>
          (case known_file (sr_id s) f R of
             None \<Rightarrow> fetch_plain K now F s f R
           | Some sha \<Rightarrow> if has_file sha R then (offer_again sha R, Inr (sha, False)) else fetch_plain K now F s f R))"

text \<open>What the loop over the files has so far: the hashes seen, how many files were added, and the errors.\<close>

record sync_acc =
  sa_repo :: repo
  sa_seen :: "string list"
  sa_added :: nat
  sa_errors :: "string list"

definition sync_one :: "crypto \<Rightarrow> time \<Rightarrow> fetcher \<Rightarrow> source \<Rightarrow> bool \<Rightarrow> rfile \<Rightarrow> sync_acc \<Rightarrow> sync_acc" where
  "sync_one K now F s trusted f a =
     (case sync_file K now F s trusted f (sa_repo a) of
        (R1, Inl e) \<Rightarrow> a\<lparr>sa_repo := R1, sa_errors := sa_errors a @ [rf_name f @ '': '' @ e]\<rparr>
      | (R1, Inr (sha, added)) \<Rightarrow>
          a\<lparr>sa_repo := R1, sa_seen := sa_seen a @ [sha], sa_added := (if added then Suc (sa_added a) else sa_added a)\<rparr>)"

definition withdraw_missing :: "int \<Rightarrow> string list \<Rightarrow> repo \<Rightarrow> repo" where
  "withdraw_missing src seen R =
     R\<lparr>rp_rows := upd_rows (\<lambda>p. pk_source p = Some src \<and> pk_sha p \<notin> set seen) (\<lambda>p. p\<lparr>pk_withdrawn := True\<rparr>) (rp_rows R)\<rparr>"

definition sync_files :: "crypto \<Rightarrow> time \<Rightarrow> fetcher \<Rightarrow> source \<Rightarrow> bool \<Rightarrow> rfile list \<Rightarrow> repo \<Rightarrow> sync_acc" where
  "sync_files K now F s trusted fs R =
     (let a = fold (sync_one K now F s trusted) fs \<lparr>sa_repo = R, sa_seen = [], sa_added = 0, sa_errors = []\<rparr>
      in if sa_errors a = [] then a\<lparr>sa_repo := withdraw_missing (sr_id s) (sa_seen a) (sa_repo a)\<rparr> else a)"

text \<open>An SFTP source without a pinned key takes the one the server presented.\<close>

definition pin_key :: "source \<Rightarrow> fetcher \<Rightarrow> pkdb \<Rightarrow> pkdb" where
  "pin_key s F D =
     (if sr_kind s = KindSFTP \<and> so_host_key (sr_config s) = [] \<and> fe_key F \<noteq> []
      then D\<lparr>db_sources := upd_rows (\<lambda>r. sr_id r = sr_id s)
             (\<lambda>r. r\<lparr>sr_config := (sr_config s)\<lparr>so_host_key := fe_key F\<rparr>\<rparr>) (db_sources D)\<rparr>
      else D)"

text \<open>\<open>syncSource\<close>: the database, the counts of the run and the error.\<close>

definition sync_source ::
  "mflib \<Rightarrow> crypto \<Rightarrow> srcenv \<Rightarrow> 'l remote \<Rightarrow> (string \<times> 'l guard) option \<Rightarrow> time \<Rightarrow> source \<Rightarrow> pkdb \<Rightarrow> pkdb \<times> nat \<times> nat \<times> string option"
  where
  "sync_source M K E N lic now s D =
     (case default_fetcher M E N lic s of
        Inl e \<Rightarrow> (D, 0, 0, Some e)
      | Inr F \<Rightarrow>
          (let D1 = pin_key s F D
           in case fe_list F of
                Inl e \<Rightarrow> (D1, 0, 0, Some e)
              | Inr (fs, trusted) \<Rightarrow>
                  (let a = sync_files K now F s trusted fs (db_repo D1)
                   in (D1\<lparr>db_repo := sa_repo a\<rparr>, sa_added a, length fs,
                       if sa_errors a = [] then None else Some (join [CHR 0x0A] (sa_errors a))))))"

definition start_run :: "time \<Rightarrow> int option \<Rightarrow> string \<Rightarrow> string \<Rightarrow> pkdb \<Rightarrow> pkdb" where
  "start_run now src origin actor D =
     D\<lparr>db_runs := db_runs D @ [\<lparr>sy_id = db_next_run D, sy_source = src, sy_origin = origin, sy_started = now, sy_finished = None,
         sy_status = ''running'', sy_added = 0, sy_seen = 0, sy_error = [], sy_actor = actor\<rparr>],
       db_next_run := db_next_run D + 1\<rparr>"

definition end_row :: "time \<Rightarrow> nat \<Rightarrow> nat \<Rightarrow> string option \<Rightarrow> sync_run \<Rightarrow> sync_run" where
  "end_row now added seen err r =
     r\<lparr>sy_finished := Some now, sy_added := added, sy_seen := seen,
       sy_status := (if err = None then ''ok'' else ''failed''),
       sy_error := (case err of None \<Rightarrow> [] | Some e \<Rightarrow> take 1000 e)\<rparr>"

definition sync ::
  "mflib \<Rightarrow> crypto \<Rightarrow> srcenv \<Rightarrow> 'l remote \<Rightarrow> (string \<times> 'l guard) option \<Rightarrow> time \<Rightarrow> time \<Rightarrow> int \<Rightarrow> string \<Rightarrow> pkdb \<Rightarrow> (pkdb, pkerror, sync_run) outcome"
  where
  "sync M K E N lic now fin i actor D =
     (case get_source i D of
        Inl e \<Rightarrow> (D, Inl e)
      | Inr s \<Rightarrow>
          (let rid = db_next_run D; D0 = start_run now (Some (sr_id s)) (sr_name s) actor D
           in case sync_source M K E N lic now s D0 of
                (D1, added, seen, err) \<Rightarrow>
                  (let row = end_row fin added seen err
                   in (D1\<lparr>db_runs := upd_rows (\<lambda>r. sy_id r = rid) row (db_runs D1),
                         db_sources := upd_rows (\<lambda>r. sr_id r = sr_id s)
                           (\<lambda>r. r\<lparr>sr_last := Some fin, sr_status := (if err = None then ''ok'' else ''failed''),
                                 sr_error := (case err of None \<Rightarrow> [] | Some e \<Rightarrow> take 1000 e)\<rparr>) (db_sources D1)\<rparr>,
                      Inr (row (last (db_runs D0)))))))"

text \<open>\<open>RunDue\<close>: the sources and their next sync are read once, at the start.\<close>

definition run_due_list ::
  "mflib \<Rightarrow> crypto \<Rightarrow> srcenv \<Rightarrow> (int \<Rightarrow> 'l remote) \<Rightarrow> (string \<times> 'l guard) option \<Rightarrow> time \<Rightarrow> source list \<Rightarrow> pkdb \<Rightarrow> pkdb" where
  "run_due_list M K E N lic now ss D =
     fold (\<lambda>s D. case next_sync E now s of
                    None \<Rightarrow> D
                  | Some t \<Rightarrow> if t > now then D else fst (sync M K E (N (sr_id s)) lic now now (sr_id s) ''schedule'' D)) ss D"

definition run_due ::
  "mflib \<Rightarrow> crypto \<Rightarrow> srcenv \<Rightarrow> (int \<Rightarrow> 'l remote) \<Rightarrow> (string \<times> 'l guard) option \<Rightarrow> time \<Rightarrow> pkdb \<Rightarrow> pkdb" where
  "run_due M K E N lic now D = run_due_list M K E N lic now (filter sr_enabled (db_sources D)) D"

subsection \<open>Bundles\<close>

text \<open>A zip file is \<open>None\<close> when it cannot be read, or its entries by name; an entry opens or fails.\<close>

type_synonym zipfile = "(string \<times> (string + reader)) list option"

definition zip_entry :: "(string \<times> (string + reader)) list \<Rightarrow> string \<Rightarrow> (string + reader) option" where
  "zip_entry z name = map_of (rev z) name"

definition zip_read :: "(string \<times> (string + reader)) list \<Rightarrow> string \<Rightarrow> pkerror + string" where
  "zip_read z name =
     (case zip_entry z name of
        None \<Rightarrow> Inl (PkInput (''the bundle has no '' @ name))
      | Some r \<Rightarrow> (case read_small r of Inl e \<Rightarrow> Inl (PkOther e) | Inr b \<Rightarrow> Inr b))"

definition bundle_one ::
  "crypto \<Rightarrow> time \<Rightarrow> (string \<times> (string + reader)) list \<Rightarrow> rfile \<Rightarrow> sync_acc \<Rightarrow> sync_acc" where
  "bundle_one K now z f a =
     (case (zip_entry z (''files/'' @ rf_name f), rf_entry f) of
        (Some zf, Some e) \<Rightarrow>
          (let a1 = a\<lparr>sa_seen := sa_seen a @ [me_sha e]\<rparr>; p = entry_package e None ''bundle'' True
           in if has_file (me_sha e) (sa_repo a) then a1\<lparr>sa_repo := upsert now p (sa_repo a)\<rparr>
              else (case zf of
                      Inl err \<Rightarrow> a1\<lparr>sa_errors := sa_errors a @ [rf_name f @ '': '' @ err]\<rparr>
                    | Inr rd \<Rightarrow>
                        (case store_file K rd (me_sha e) (sa_repo a) of
                           (R1, Inl err) \<Rightarrow> a1\<lparr>sa_repo := R1, sa_errors := sa_errors a @ [rf_name f @ '': '' @ pkerror_text err]\<rparr>
                         | (R1, Inr x) \<Rightarrow> a1\<lparr>sa_repo := upsert now p R1, sa_added := Suc (sa_added a)\<rparr>)))
      | _ \<Rightarrow> a)"

definition import_bundle ::
  "mflib \<Rightarrow> crypto \<Rightarrow> time \<Rightarrow> time \<Rightarrow> zipfile \<Rightarrow> string \<Rightarrow> pkdb \<Rightarrow> (pkdb, pkerror, sync_run) outcome" where
  "import_bundle M K now fin archive actor D =
     (case archive of
        None \<Rightarrow> (D, Inl (PkInput ''the file is not a zip bundle''))
      | Some z \<Rightarrow>
          (case zip_read z ''manifest.json'' of
             Inl e \<Rightarrow> (D, Inl e)
           | Inr body \<Rightarrow>
               (case zip_read z ''manifest.sig'' of
                  Inl e \<Rightarrow> (D, Inl e)
                | Inr sig \<Rightarrow>
                    (case verify_manifest M body sig of
                       Inl e \<Rightarrow> (D, Inl (PkInput (''the bundle's manifest is not valid: '' @ e)))
                     | Inr fs \<Rightarrow>
                         (let rid = db_next_run D; D0 = start_run now None ''bundle'' actor D;
                              a = fold (bundle_one K now z) fs \<lparr>sa_repo = db_repo D0, sa_seen = [], sa_added = 0, sa_errors = []\<rparr>;
                              row = end_row fin (sa_added a) (length (sa_seen a))
                                      (if sa_errors a = [] then None else Some (join [CHR 0x0A] (sa_errors a)))
                          in (D0\<lparr>db_repo := sa_repo a, db_runs := upd_rows (\<lambda>r. sy_id r = rid) row (db_runs D0)\<rparr>,
                              Inr (row (last (db_runs D0)))))))))"

subsection \<open>Listings are signed or plain\<close>

text \<open>What the code relies on: \<open>Verify\<close> accepts only packages with a hash.\<close>

definition manifests_hashed :: "mflib \<Rightarrow> bool" where
  "manifests_hashed M = (\<forall>body sig es. ml_verify M body sig = Inr es \<longrightarrow> list_all (\<lambda>e. me_sha e \<noteq> []) es)"

definition signed_entry :: "mflib \<Rightarrow> mfentry \<Rightarrow> bool" where
  "signed_entry M e = (\<exists>body sig es. ml_verify M body sig = Inr es \<and> e \<in> set es)"

definition file_ok :: "mflib \<Rightarrow> bool \<Rightarrow> rfile \<Rightarrow> bool" where
  "file_ok M trusted f = (case rf_entry f of None \<Rightarrow> \<not> trusted | Some e \<Rightarrow> trusted \<and> signed_entry M e)"

lemma signed_entry_sha: "manifests_hashed M \<Longrightarrow> signed_entry M e \<Longrightarrow> me_sha e \<noteq> []"
  by (auto simp: manifests_hashed_def signed_entry_def list_all_iff)

lemma signed_entryI: "ml_verify M body sig = Inr es \<Longrightarrow> e \<in> set es \<Longrightarrow> signed_entry M e"
  unfolding signed_entry_def by blast

lemma verify_manifest_ok: "verify_manifest M body sig = Inr fs \<Longrightarrow> list_all (file_ok M True) fs"
  by (auto simp: verify_manifest_def file_ok_def list_all_iff signed_entryI split: if_splits sum.splits)

lemma mirror_or_plain_ok: "mirror_or_plain M read es = Inr (fs, t) \<Longrightarrow> list_all (file_ok M t) fs"
  by (auto simp: mirror_or_plain_def Let_def verify_manifest_ok split: if_splits sum.splits)
    (auto simp: file_ok_def list_all_iff)

lemma http_list_ok: "http_list M N base auth h = Inr (fs, t) \<Longrightarrow> list_all (file_ok M t) fs"
  by (auto simp: http_list_def verify_manifest_ok split: sum.splits)

lemma default_fetcher_ok:
  assumes "default_fetcher M E N lic s = Inr F" and "fe_list F = Inr (fs, t)"
  shows "list_all (file_ok M t) fs"
proof (cases "sr_kind s")
  case KindCentral
  then show ?thesis using assms
    by (auto simp: default_fetcher_def central_fetcher_def http_fetcher_def Let_def http_list_ok split: if_splits option.splits prod.splits sum.splits)
next
  case KindHTTP
  then show ?thesis using assms by (auto simp: default_fetcher_def http_fetcher_def http_list_ok)
next
  case KindFTP
  then show ?thesis using assms
    by (auto simp: default_fetcher_def ftp_fetcher_def mirror_or_plain_ok split: option.splits sum.splits)
next
  case KindSFTP
  then show ?thesis using assms
    by (auto simp: default_fetcher_def sftp_fetcher_def Let_def mirror_or_plain_ok split: option.splits sum.splits if_splits)
next
  case KindTFTP
  then show ?thesis using assms by (auto simp: default_fetcher_def tftp_fetcher_def file_ok_def list_all_iff)
next
  case (OtherKind k)
  then show ?thesis using assms by (simp add: default_fetcher_def)
qed

subsection \<open>The repository stays consistent\<close>

lemma offer_again_ok: "repo_ok M K R \<Longrightarrow> repo_ok M K (offer_again sha R)"
  unfolding repo_ok_def offer_again_def by (rule update_rows_ok) (auto simp: row_ok_def described_def)

lemma withdraw_ok: "repo_ok M K R \<Longrightarrow> repo_ok M K (withdraw_missing i seen R)"
  unfolding repo_ok_def withdraw_missing_def by (rule update_rows_ok) (auto simp: row_ok_def described_def)

lemma unlink_ok: "repo_ok M K R \<Longrightarrow> repo_ok M K (R\<lparr>rp_rows := upd_rows P (\<lambda>p. p\<lparr>pk_source := None\<rparr>) (rp_rows R)\<rparr>)"
  unfolding repo_ok_def by (rule update_rows_ok) (auto simp: row_ok_def described_def)

lemma entry_described:
  "signed_entry M e \<Longrightarrow> described M ((entry_package e src o' v)\<lparr>pk_meta := default_models (pk_meta (entry_package e src o' v))\<rparr>)"
  unfolding signed_entry_def described_def entry_package_def new_package_def by auto

lemma entry_package_sha [simp]: "pk_sha (entry_package e src o' v) = me_sha e" "pk_verified (entry_package e src o' v) = v"
  by (simp_all add: entry_package_def new_package_def)

lemma store_failed: "store_file K rd want R = (R', Inl e) \<Longrightarrow> R' = R"
  by (erule store_cases) auto

lemma store_wanted: "store_file K rd want R = (R', Inr (sha, sz)) \<Longrightarrow> want \<noteq> [] \<Longrightarrow> sha = want"
  by (erule store_cases) auto

lemma fetch_entry_ok:
  assumes R: "repo_ok M K R" and e: "signed_entry M e" and M: "manifests_hashed M"
  shows "repo_ok M K (fst (fetch_entry K now F s t f e R))"
proof -
  let ?p = "entry_package e (Some (sr_id s)) (sr_name s) t"
  have put: "repo_ok_but M K {me_sha e} Q \<Longrightarrow> repo_ok M K (upsert now ?p Q)" for Q
    by (rule upsert_ok) (simp_all add: entry_described [OF e])
  show ?thesis
  proof (cases "has_file (me_sha e) R")
    case True
    then show ?thesis using put [OF has_file_ok [OF R True]] by (simp add: fetch_entry_def)
  next
    case no: False
    show ?thesis
    proof (cases "fe_open F f")
      case (Inl err)
      then show ?thesis using R no by (simp add: fetch_entry_def)
    next
      case (Inr rd)
      obtain R1 r where st: "store_file K rd (me_sha e) R = (R1, r)" by (cases "store_file K rd (me_sha e) R")
      show ?thesis
      proof (cases r)
        case (Inl err)
        then show ?thesis using store_failed [OF st [unfolded Inl]] st R no Inr by (simp add: fetch_entry_def)
      next
        case r: (Inr x)
        obtain sha sz where x: "x = (sha, sz)" by (cases x)
        have "sha = me_sha e" using store_wanted st r x signed_entry_sha [OF M e] by blast
        with store_ok [OF R st [unfolded r x]] put st r x no Inr show ?thesis by (simp add: fetch_entry_def)
      qed
    qed
  qed
qed

lemma fetch_plain_ok:
  assumes R: "repo_ok M K R"
  shows "repo_ok M K (fst (fetch_plain K now F s f R))"
proof (cases "fe_open F f")
  case (Inl err)
  then show ?thesis using R by (simp add: fetch_plain_def)
next
  case (Inr rd)
  obtain R1 r where st: "store_file K rd [] R = (R1, r)" by (cases "store_file K rd [] R")
  show ?thesis
  proof (cases r)
    case (Inl err)
    then show ?thesis using store_failed [OF st [unfolded Inl]] st R Inr by (simp add: fetch_plain_def)
  next
    case r: (Inr x)
    obtain sha sz where x: "x = (sha, sz)" by (cases x)
    have "repo_ok M K (upsert now (new_package sha n z m so o' False) R1)" for n z m so o'
      by (rule upsert_ok) (use store_ok [OF R st [unfolded r x]] in \<open>simp_all add: new_package_def\<close>)
    with st r x Inr show ?thesis by (simp add: fetch_plain_def)
  qed
qed

lemma sync_file_ok:
  assumes "repo_ok M K R" "file_ok M t f" "manifests_hashed M"
  shows "repo_ok M K (fst (sync_file K now F s t f R))"
  using assms fetch_entry_ok fetch_plain_ok offer_again_ok
  by (auto simp: sync_file_def file_ok_def split: option.splits)

lemma sync_one_ok:
  assumes "repo_ok M K (sa_repo a)" "file_ok M t f" "manifests_hashed M"
  shows "repo_ok M K (sa_repo (sync_one K now F s t f a))"
  using sync_file_ok [OF assms, of now F s] by (auto simp: sync_one_def split: prod.splits sum.splits)

lemma sync_all_ok:
  "manifests_hashed M \<Longrightarrow> list_all (file_ok M t) fs \<Longrightarrow> repo_ok M K (sa_repo a) \<Longrightarrow> repo_ok M K (sa_repo (fold (sync_one K now F s t) fs a))"
  by (induction fs arbitrary: a) (simp_all add: sync_one_ok)

lemma sync_files_ok:
  assumes "manifests_hashed M" "list_all (file_ok M t) fs" "repo_ok M K R"
  shows "repo_ok M K (sa_repo (sync_files K now F s t fs R))"
  using sync_all_ok [OF assms(1,2), of K "\<lparr>sa_repo = R, sa_seen = [], sa_added = 0, sa_errors = []\<rparr>"] assms(3)
  by (simp add: sync_files_def Let_def withdraw_ok)

lemma start_run_repo [simp]: "db_repo (start_run now src o' actor D) = db_repo D"
  by (simp add: start_run_def)

lemma pin_key_repo [simp]: "db_repo (pin_key s F D) = db_repo D"
  by (simp add: pin_key_def)

lemma sync_source_ok:
  assumes M: "manifests_hashed M" and D: "repo_ok M K (db_repo D)"
  shows "repo_ok M K (db_repo (fst (sync_source M K E N lic now s D)))"
proof (cases "default_fetcher M E N lic s")
  case (Inl e)
  then show ?thesis using D by (simp add: sync_source_def)
next
  case F: (Inr F)
  show ?thesis
  proof (cases "fe_list F")
    case (Inl e)
    then show ?thesis using F D by (simp add: sync_source_def Let_def)
  next
    case (Inr x)
    obtain fs t where x: "x = (fs, t)" by (cases x)
    show ?thesis
      using F Inr x sync_files_ok [OF M default_fetcher_ok [OF F Inr [unfolded x]] D] by (simp add: sync_source_def Let_def)
  qed
qed

lemma sync_repo:
  assumes "manifests_hashed M" "repo_ok M K (db_repo D)"
  shows "repo_ok M K (db_repo (fst (sync M K E N lic now fin i actor D)))"
proof (cases "get_source i D")
  case (Inl e)
  then show ?thesis using assms by (simp add: sync_def)
next
  case (Inr s)
  show ?thesis
  proof (cases "sync_source M K E N lic now s (start_run now (Some (sr_id s)) (sr_name s) actor D)")
    case (fields D1 added seen err)
    then show ?thesis
      using sync_source_ok [OF assms(1), of K "start_run now (Some (sr_id s)) (sr_name s) actor D" E N lic now s] assms(2) Inr
      by (simp add: sync_def Let_def)
  qed
qed

lemma run_due_ok: "manifests_hashed M \<Longrightarrow> repo_ok M K (db_repo D) \<Longrightarrow> repo_ok M K (db_repo (run_due M K E N lic now D))"
  unfolding run_due_def
proof -
  assume M: "manifests_hashed M"
  have "repo_ok M K (db_repo Q) \<Longrightarrow> repo_ok M K (db_repo (run_due_list M K E N lic now ss Q))" for ss Q
    unfolding run_due_list_def by (induction ss arbitrary: Q) (simp_all add: sync_repo [OF M] split: option.split)
  then show "repo_ok M K (db_repo D) \<Longrightarrow> repo_ok M K (db_repo (run_due_list M K E N lic now (filter sr_enabled (db_sources D)) D))" .
qed

lemma bundle_one_ok:
  assumes R: "repo_ok M K (sa_repo a)" and f: "file_ok M True f" and M: "manifests_hashed M"
  shows "repo_ok M K (sa_repo (bundle_one K now z f a))"
proof (cases "zip_entry z (''files/'' @ rf_name f)")
  case None
  then show ?thesis using R by (simp add: bundle_one_def)
next
  case zf: (Some zf)
  from f obtain e where e: "rf_entry f = Some e" "signed_entry M e" by (auto simp: file_ok_def split: option.splits)
  have put: "repo_ok_but M K {me_sha e} Q \<Longrightarrow> repo_ok M K (upsert now (entry_package e None ''bundle'' True) Q)" for Q
    by (rule upsert_ok) (simp_all add: entry_described [OF e(2)])
  show ?thesis
  proof (cases "has_file (me_sha e) (sa_repo a)")
    case True
    then show ?thesis using zf e put [OF has_file_ok [OF R True]] by (simp add: bundle_one_def Let_def)
  next
    case no: False
    show ?thesis
    proof (cases zf)
      case (Inl err)
      then show ?thesis using zf e no R by (simp add: bundle_one_def Let_def)
    next
      case (Inr rd)
      obtain R1 r where st: "store_file K rd (me_sha e) (sa_repo a) = (R1, r)" by (cases "store_file K rd (me_sha e) (sa_repo a)")
      show ?thesis
      proof (cases r)
        case (Inl err)
        then show ?thesis using store_failed [OF st [unfolded Inl]] st R no Inr zf e by (simp add: bundle_one_def Let_def)
      next
        case r: (Inr x)
        obtain sha sz where x: "x = (sha, sz)" by (cases x)
        have "sha = me_sha e" using store_wanted st r x signed_entry_sha [OF M e(2)] by blast
        with store_ok [OF R st [unfolded r x]] put st r x no Inr zf e show ?thesis by (simp add: bundle_one_def Let_def)
      qed
    qed
  qed
qed

lemma import_bundle_ok:
  assumes M: "manifests_hashed M" and D: "repo_ok M K (db_repo D)"
  shows "repo_ok M K (db_repo (fst (import_bundle M K now fin archive actor D)))"
proof -
  have all: "list_all (file_ok M True) fs \<Longrightarrow> repo_ok M K (sa_repo a) \<Longrightarrow> repo_ok M K (sa_repo (fold (bundle_one K now z) fs a))" for fs a z
    by (induction fs arbitrary: a) (simp_all add: bundle_one_ok [OF _ _ M])
  show ?thesis
    using D by (auto simp: import_bundle_def Let_def intro!: all dest: verify_manifest_ok split: option.split sum.split)
qed

inductive pk_step :: "'l licapi \<Rightarrow> mflib \<Rightarrow> crypto \<Rightarrow> pkdb \<Rightarrow> pkdb \<Rightarrow> bool" for L :: "'l licapi" and M :: mflib and K :: crypto where
  uploaded: "upload M K now rd f m (db_repo D) = (R, r) \<Longrightarrow> pk_step L M K D (D\<lparr>db_repo := R\<rparr>)"
| updated: "update_package M now i m (db_repo D) = (R, r) \<Longrightarrow> pk_step L M K D (D\<lparr>db_repo := R\<rparr>)"
| deleted: "delete_package i (db_repo D) = (R, r) \<Longrightarrow> pk_step L M K D (D\<lparr>db_repo := R\<rparr>)"
| saved: "save_source E now s D = (D', r) \<Longrightarrow> pk_step L M K D D'"
| dropped: "delete_source i D = (D', r) \<Longrightarrow> pk_step L M K D D'"
| synced: "sync M K E N (lic :: (string \<times> 'l guard) option) now fin i actor D = (D', r) \<Longrightarrow> pk_step L M K D D'"
| due: "pk_step L M K D (run_due M K E Ns (lic :: (string \<times> 'l guard) option) now D)"
| imported: "import_bundle M K now fin archive actor D = (D', r) \<Longrightarrow> pk_step L M K D D'"

inductive pk_reachable :: "'l licapi \<Rightarrow> mflib \<Rightarrow> crypto \<Rightarrow> pkdb \<Rightarrow> bool" for L :: "'l licapi" and M :: mflib and K :: crypto where
  empty: "rp_rows (db_repo D) = [] \<Longrightarrow> rp_files (db_repo D) = Map.empty \<Longrightarrow> pk_reachable L M K D"
| step: "pk_reachable L M K D \<Longrightarrow> pk_step L M K D D' \<Longrightarrow> pk_reachable L M K D'"

lemma save_source_repo: "db_repo (fst (save_source E now s D)) = db_repo D"
  by (auto simp: save_source_def write_source_def split: sum.split)

lemma delete_source_ok: "repo_ok M K (db_repo D) \<Longrightarrow> repo_ok M K (db_repo (fst (delete_source i D)))"
  by (simp add: delete_source_def unlink_ok)

lemma pk_step_ok:
  assumes M: "manifests_hashed M"
  shows "pk_step L M K D D' \<Longrightarrow> repo_ok M K (db_repo D) \<Longrightarrow> repo_ok M K (db_repo D')"
proof (induction rule: pk_step.induct)
  case (uploaded now rd f m D R r)
  then show ?case using upload_ok [of M K "db_repo D" M now rd f m] by simp
next
  case (updated now i m D R r)
  then show ?case using update_package_ok [of M K "db_repo D" M now i m] by simp
next
  case (deleted i D R r)
  then show ?case using delete_package_ok [of M K "db_repo D" i] by simp
next
  case (saved E now s D D' r)
  then show ?case using save_source_repo [of E now s D] by simp
next
  case (dropped i D D' r)
  then show ?case using delete_source_ok [of M K D i] by simp
next
  case (synced E N lic now fin i actor D D' r)
  then show ?case using sync_repo [OF M, of K D E N lic now fin i actor] by simp
next
  case (due D E Ns lic now)
  then show ?case by (rule run_due_ok [OF M])
next
  case (imported now fin archive actor D D' r)
  then show ?case using import_bundle_ok [OF M, of K D now fin archive actor] by simp
qed

lemma pk_reachable_ok: "pk_reachable L M K D \<Longrightarrow> manifests_hashed M \<Longrightarrow> repo_ok M K (db_repo D)"
proof (induction rule: pk_reachable.induct)
  case (empty D)
  then show ?case by (simp add: repo_ok_def repo_ok_but_def files_ok_def)
next
  case (step D D')
  then show ?case by (blast intro: pk_step_ok)
qed

subsection \<open>A signed source is mirrored\<close>

text \<open>The row of an entry as a sync of the source leaves it, and that a later file with another hash keeps it.\<close>

definition mirrored :: "source \<Rightarrow> mfentry \<Rightarrow> repo \<Rightarrow> bool" where
  "mirrored s e R =
     (rp_files R (me_sha e) \<noteq> None \<and>
      (case find_row pk_sha (me_sha e) (rp_rows R) of
         None \<Rightarrow> False
       | Some p \<Rightarrow> pk_verified p \<and> \<not> pk_withdrawn p \<and> pk_source p = Some (sr_id s) \<and> pk_origin p = sr_name s \<and>
           pk_file p = me_file e \<and> pk_meta p = default_models (me_meta e)))"

lemma find_replace_same:
  "find_row pk_sha k (upd_rows (\<lambda>r. pk_sha r = k) (replace_row p) rs) = map_option (replace_row p) (find_row pk_sha k rs)"
  by (rule keyed_update.find_upd_same) (simp add: keyed_update_def)

lemma find_replace_other:
  "k \<noteq> j \<Longrightarrow> find_row pk_sha k (upd_rows (\<lambda>r. pk_sha r = j) (replace_row p) rs) = find_row pk_sha k rs"
  by (rule keyed_update.find_upd_other) (simp_all add: keyed_update_def)

lemma upsert_mirrored:
  assumes "rp_files R (me_sha e) \<noteq> None"
  shows "mirrored s e (upsert now (entry_package e (Some (sr_id s)) (sr_name s) True) R)"
  using assms
  by (cases "find_row pk_sha (me_sha e) (rp_rows R)")
    (simp_all add: mirrored_def upsert_def Let_def entry_package_def new_package_def find_replace_same replace_row_def
      find_row_append find_row_Cons)

lemma upsert_keeps_mirrored:
  assumes "mirrored s e R" "pk_sha p \<noteq> me_sha e"
  shows "mirrored s e (upsert now p R)"
  using assms
  by (auto simp: mirrored_def upsert_def Let_def find_replace_other find_row_append find_row_Cons split: option.splits)

lemma store_keeps_mirrored:
  assumes "mirrored s e R" "store_file K rd want R = (R', r)"
  shows "mirrored s e R'"
  using assms(2) by (rule store_cases) (use assms(1) in \<open>auto simp: mirrored_def split: option.splits\<close>)

lemma fetch_entry_mirrored:
  assumes "fetch_entry K now F s True f e R = (R', Inr (sha, added))" and "me_sha e \<noteq> []"
  shows "mirrored s e R'" "sha = me_sha e"
proof -
  have "mirrored s e R' \<and> sha = me_sha e"
  proof (cases "has_file (me_sha e) R")
    case True
    with assms upsert_mirrored [of R e s now] show ?thesis by (auto simp: fetch_entry_def has_file_def)
  next
    case False
    with assms(1) obtain rd R1 sz where st: "store_file K rd (me_sha e) R = (R1, Inr (sha, sz))"
      and R': "R' = upsert now (entry_package e (Some (sr_id s)) (sr_name s) True) R1"
      by (auto simp: fetch_entry_def split: sum.splits prod.splits)
    have sha: "sha = me_sha e" using store_wanted [OF st assms(2)] .
    have "rp_files R1 (me_sha e) \<noteq> None"
      using st by (rule store_cases) (use sha in auto)
    with R' sha upsert_mirrored [of R1 e s now] show ?thesis by blast
  qed
  then show "mirrored s e R'" "sha = me_sha e" by blast+
qed

lemma fetch_entry_keeps:
  assumes "mirrored s e R" "me_sha e' \<noteq> me_sha e" "fetch_entry K now F s True f e' R = (R', r)"
  shows "mirrored s e R'"
proof (cases "has_file (me_sha e') R")
  case True
  with assms show ?thesis by (auto simp: fetch_entry_def upsert_keeps_mirrored)
next
  case no: False
  show ?thesis
  proof (cases "fe_open F f")
    case (Inl err)
    then show ?thesis using assms no by (simp add: fetch_entry_def)
  next
    case (Inr rd)
    obtain R1 q where st: "store_file K rd (me_sha e') R = (R1, q)" by (cases "store_file K rd (me_sha e') R")
    note kept = store_keeps_mirrored [OF assms(1) st]
    show ?thesis
      using assms(2,3) no Inr st kept by (cases q) (auto simp: fetch_entry_def upsert_keeps_mirrored)
  qed
qed

definition entries :: "rfile list \<Rightarrow> mfentry list" where "entries fs = map (\<lambda>f. the (rf_entry f)) fs"

lemma sync_fold_mirrors:
  assumes "list_all (\<lambda>f. rf_entry f \<noteq> None) fs" "list_all (\<lambda>e. me_sha e \<noteq> []) (entries fs)"
    and "distinct (map me_sha (entries fs))"
    and "list_all (\<lambda>e. mirrored s e (sa_repo a)) done" "set (map me_sha done) \<inter> set (map me_sha (entries fs)) = {}"
    and "sa_errors (fold (sync_one K now F s True) fs a) = []" "sa_seen a = map me_sha done"
  shows "list_all (\<lambda>e. mirrored s e (sa_repo (fold (sync_one K now F s True) fs a))) (done @ entries fs) \<and>
    sa_seen (fold (sync_one K now F s True) fs a) = map me_sha (done @ entries fs)"
  using assms
proof (induction fs arbitrary: a "done")
  case Nil
  then show ?case by (simp add: entries_def)
next
  case (Cons f fs)
  from Cons.prems(1) obtain e where e: "rf_entry f = Some e" by auto
  have ent: "entries (f # fs) = e # entries fs" by (simp add: entries_def e)
  obtain R1 r where sf: "fetch_entry K now F s True f e (sa_repo a) = (R1, r)" by (cases "fetch_entry K now F s True f e (sa_repo a)")
  have grow: "length (sa_errors b) \<le> length (sa_errors (fold (sync_one K now F s True) gs b))" for gs b
  proof (induction gs arbitrary: b)
    case (Cons g gs)
    have "length (sa_errors b) \<le> length (sa_errors (sync_one K now F s True g b))"
      by (simp add: sync_one_def split: prod.split sum.split)
    with Cons.IH [of "sync_one K now F s True g b"] show ?case by simp
  qed simp
  show ?case
  proof (cases r)
    case (Inl err)
    then have "length (sa_errors (sync_one K now F s True f a)) \<noteq> 0" using sf e by (simp add: sync_one_def sync_file_def)
    with grow [of "sync_one K now F s True f a" fs] Cons.prems(6) show ?thesis by simp
  next
    case (Inr x)
    obtain sha added where x: "x = (sha, added)" by (cases x)
    have sha: "sha = me_sha e" and me: "mirrored s e R1"
      using fetch_entry_mirrored [OF sf [unfolded Inr x]] Cons.prems(2) ent by simp_all
    have one: "sa_repo (sync_one K now F s True f a) = R1" "sa_seen (sync_one K now F s True f a) = map me_sha (done @ [e])"
      using sf e Inr x Cons.prems(7) sha by (simp_all add: sync_one_def sync_file_def)
    have "list_all (\<lambda>e. mirrored s e R1) done"
      using Cons.prems(4,5) ent fetch_entry_keeps [OF _ _ sf] by (auto simp: list_all_iff)
    with Cons.IH [where ?done = "done @ [e]" and a = "sync_one K now F s True f a"] Cons.prems one me ent show ?thesis
      by (simp add: Int_Un_distrib2)
  qed
qed

lemma withdraw_keeps_mirrored:
  "mirrored s e R \<Longrightarrow> me_sha e \<in> set seen \<Longrightarrow> mirrored s e (withdraw_missing i seen R)"
proof -
  assume m: "mirrored s e R" and seen: "me_sha e \<in> set seen"
  have "find_row pk_sha (me_sha e) (rp_rows (withdraw_missing i seen R))
      = map_option (\<lambda>p. if pk_source p = Some i \<and> pk_sha p \<notin> set seen then p\<lparr>pk_withdrawn := True\<rparr> else p)
          (find_row pk_sha (me_sha e) (rp_rows R))"
    unfolding withdraw_missing_def by (simp, rule keyed_update.find_upd) (simp add: keyed_update_def)
  with m seen show ?thesis
    by (auto simp: mirrored_def withdraw_missing_def dest: find_row_Some split: option.splits)
qed

subsection \<open>Properties\<close>

text \<open>
  However packages are uploaded, edited, deleted, synced on demand or on schedule and imported from
  bundles, the repository is addressed by content: every package has its file, every stored file is the
  file of one package and hashes to that package's key, and none is empty or over the size limit.
\<close>

lemma repository_addressed_by_content:
  assumes "pk_reachable L M K D" and "manifests_hashed M"
  shows "distinct (map pk_sha (rp_rows (db_repo D))) \<and> dom (rp_files (db_repo D)) = set (map pk_sha (rp_rows (db_repo D))) \<and>
    files_ok K (rp_files (db_repo D))"
  using pk_reachable_ok [OF assms] by (simp add: repo_ok_def repo_ok_but_def)

text \<open>
  C13: A package that is shown as verified is described - its file name and all of its description - as
  a manifest with a valid signature describes the content it stands for; no upload, edit, unsigned
  source or unsigned sync leaves another description on it.
\<close>

theorem verified_means_signed:
  assumes "pk_reachable L M K D" and "manifests_hashed M" and "p \<in> set (rp_rows (db_repo D))" and "pk_verified p"
  shows "\<exists>body sig es e. ml_verify M body sig = Inr es \<and> e \<in> set es \<and> me_sha e = pk_sha p \<and> me_file e = pk_file p \<and>
    pk_meta p = default_models (me_meta e)"
  using pk_reachable_ok [OF assms(1,2)] assms(3,4)
  by (fastforce simp: repo_ok_def repo_ok_but_def list_all_iff row_ok_def described_def)

definition sample_srcenv :: srcenv where
  "sample_srcenv = \<lparr>se_cron = (\<lambda>s. None), se_url = (\<lambda>s. Some (''https'', s)), se_escape = (\<lambda>s. s)\<rparr>"

definition sample_mirror :: "string remote" where
  "sample_mirror = \<lparr>rm_http = (\<lambda>url auth. Inr \<lparr>hr_status = 200, hr_line = [], hr_error = [],
       hr_body = (if url = ''https://m/manifest.json'' then ''2.0'' else if url = ''https://m/manifest.sig'' then ''signed''
                  else if url = ''https://m/files/ips-2.pkg'' then ''new'' else [], None)\<rparr>),
     rm_ftp_dial = (\<lambda>h p t. None), rm_ftp_login = (\<lambda>u p. None), rm_ftp_list = (\<lambda>d. Inr [(''ips-1.pkg'', True, 3)]),
     rm_ftp_get = (\<lambda>n. Inr (''old'', None)), rm_ssh_key = (\<lambda>h p. Inr []), rm_ssh_dial = (\<lambda>h p u w. None),
     rm_sftp_list = (\<lambda>d. Inr []), rm_sftp_get = (\<lambda>n. Inl []), rm_tftp_get = (\<lambda>h p n. Inl [])\<rparr>"

definition no_config :: srccfg where
  "no_config = \<lparr>so_url = [], so_host = [], so_port = 0, so_user = [], so_password = [], so_dir = [], so_tls = False, so_host_key = [],
     so_files = []\<rparr>"

definition sample_source :: source where
  "sample_source = \<lparr>sr_id = 1, sr_name = ''mirror'', sr_kind = KindHTTP, sr_config = no_config\<lparr>so_url := ''https://m/''\<rparr>, sr_schedule = [],
     sr_enabled = True, sr_last = None, sr_status = [], sr_error = [], sr_created = 1\<rparr>"

definition sample_pkdb :: pkdb where
  "sample_pkdb = \<lparr>db_repo = \<lparr>rp_rows = [], rp_next = 1, rp_files = Map.empty\<rparr>, db_sources = [sample_source], db_next_source = 2,
     db_runs = [], db_next_run = 1\<rparr>"

definition sample_synced :: pkdb where
  "sample_synced = fst (sync sample_mf sample_crypto sample_srcenv sample_mirror None 8 9 1 ''admin'' sample_pkdb)"

lemma sample_hashed: "manifests_hashed sample_mf"
  by (simp add: manifests_hashed_def sample_mf_def)

lemma sample_synced_reachable: "pk_reachable sample_lic sample_mf sample_crypto sample_synced"
proof (rule pk_reachable.step [OF pk_reachable.empty])
  show "pk_step sample_lic sample_mf sample_crypto sample_pkdb sample_synced"
    unfolding sample_synced_def
    by (rule pk_step.synced [where r = "snd (sync sample_mf sample_crypto sample_srcenv sample_mirror None 8 9 1 ''admin'' sample_pkdb)"])
      simp
qed (simp_all add: sample_pkdb_def)

lemma sample_store_new:
  "store_file sample_crypto (''new'', None) ''sha256:new'' R =
     (R\<lparr>rp_files := (rp_files R)(''sha256:new'' \<mapsto> ''new'')\<rparr>, Inr (''sha256:new'', 3))"
  by (simp add: store_file_def max_file_size_def Let_def sample_crypto_def)

definition sample_entry :: mfentry where
  "sample_entry = \<lparr>me_sha = ''sha256:new'', me_file = ''ips-2.pkg'', me_size = 3, me_meta = sample_meta ''2.0''\<rparr>"

definition sample_fetcher :: fetcher where
  "sample_fetcher = http_fetcher sample_mf sample_srcenv sample_mirror ''https://m'' None False"

lemma sample_default: "default_fetcher sample_mf sample_srcenv sample_mirror None sample_source = Inr sample_fetcher"
  by (simp add: default_fetcher_def sample_source_def sample_fetcher_def no_config_def trim_slashes_def trim_right_def)

lemma sample_list:
  "fe_list sample_fetcher = Inr ([\<lparr>rf_name = ''ips-2.pkg'', rf_size = 3, rf_entry = Some sample_entry\<rparr>], True)"
  by (simp add: sample_fetcher_def http_fetcher_def http_list_def http_get_def sample_mirror_def read_small_def small_limit_def
      verify_manifest_def sample_mf_def sample_entry_def)

lemma sample_open: "fe_open sample_fetcher \<lparr>rf_name = ''ips-2.pkg'', rf_size = 3, rf_entry = Some sample_entry\<rparr> = Inr (''new'', None)"
  by (simp add: sample_fetcher_def http_fetcher_def http_open_def http_get_def sample_mirror_def sample_srcenv_def)

lemma sample_synced_repo:
  "db_repo sample_synced =
     \<lparr>rp_rows = [(entry_package sample_entry (Some 1) ''mirror'' True)\<lparr>pk_id := 1, pk_created := 8\<rparr>], rp_next = 2,
      rp_files = [''sha256:new'' \<mapsto> ''new'']\<rparr>"
proof -
  have src: "get_source 1 sample_pkdb = Inr sample_source"
    by (simp add: get_source_def sample_pkdb_def find_row_Cons sample_source_def)
  have pin: "pin_key sample_source F D = D" for F D by (simp add: pin_key_def sample_source_def)
  have upd: "upsert 8 (entry_package sample_entry (Some 1) ''mirror'' True) \<lparr>rp_rows = [], rp_next = 1, rp_files = fs\<rparr>
      = \<lparr>rp_rows = [(entry_package sample_entry (Some 1) ''mirror'' True)\<lparr>pk_id := 1, pk_created := 8\<rparr>], rp_next = 2, rp_files = fs\<rparr>" for fs
    by (simp add: upsert_def Let_def entry_package_def new_package_def sample_entry_def sample_models)
  have one: "me_sha sample_entry = ''sha256:new''" "sr_id sample_source = 1" "sr_name sample_source = ''mirror''"
    by (simp_all add: sample_entry_def sample_source_def)
  have base: "db_repo sample_pkdb = \<lparr>rp_rows = [], rp_next = 1, rp_files = Map.empty\<rparr>" by (simp add: sample_pkdb_def)
  have files: "sa_repo (sync_files sample_crypto 8 sample_fetcher sample_source True
        [\<lparr>rf_name = ''ips-2.pkg'', rf_size = 3, rf_entry = Some sample_entry\<rparr>] \<lparr>rp_rows = [], rp_next = 1, rp_files = Map.empty\<rparr>)
      = \<lparr>rp_rows = [(entry_package sample_entry (Some 1) ''mirror'' True)\<lparr>pk_id := 1, pk_created := 8\<rparr>], rp_next = 2,
          rp_files = [''sha256:new'' \<mapsto> ''new'']\<rparr>"
    by (simp add: sync_files_def sync_one_def sync_file_def fetch_entry_def has_file_def sample_open sample_store_new one upd Let_def
        withdraw_missing_def upd_rows_Cons)
  show ?thesis
    by (simp add: sample_synced_def sync_def src sync_source_def sample_default sample_list pin base files Let_def)
qed

lemma repository_addressed_by_content_example:
  "dom (rp_files (db_repo sample_synced)) = {''sha256:new''}"
  using repository_addressed_by_content [OF sample_synced_reachable sample_hashed]
  by (simp add: sample_synced_repo)

theorem verified_means_signed_witness:
  "\<exists>p body sig es e. p \<in> set (rp_rows (db_repo sample_synced)) \<and> pk_file p = ''ips-2.pkg'' \<and>
     ml_verify sample_mf body sig = Inr es \<and> e \<in> set es \<and> me_sha e = pk_sha p"
proof -
  let ?p = "(entry_package sample_entry (Some 1) ''mirror'' True)\<lparr>pk_id := 1, pk_created := 8\<rparr>"
  have p: "?p \<in> set (rp_rows (db_repo sample_synced))" "pk_verified ?p" "pk_file ?p = ''ips-2.pkg''"
    by (simp_all add: sample_synced_repo) (simp add: entry_package_def new_package_def sample_entry_def)
  from verified_means_signed [OF sample_synced_reachable sample_hashed p(1,2)] p show ?thesis by blast
qed

text \<open>
  C24: A sync of a signed source that ends without an error mirrors its manifest: every package of the
  manifest is in the repository with its file, verified, offered, and described as the manifest says;
  and of the packages of that source exactly those that the manifest no longer lists are withdrawn.
\<close>

theorem signed_sync_mirrors:
  assumes "default_fetcher M E N lic s = Inr F" and "fe_list F = Inr (fs, True)" and "manifests_hashed M"
    and "distinct (map me_sha (entries fs))" and "repo_ok M K (db_repo D)"
    and "sync_source M K E N lic now s D = (D', added, seen, None)"
  shows "list_all (\<lambda>e. mirrored s e (db_repo D')) (entries fs) \<and>
    list_all (\<lambda>p. pk_source p = Some (sr_id s) \<longrightarrow> pk_withdrawn p = (pk_sha p \<notin> me_sha ` set (entries fs))) (rp_rows (db_repo D'))"
proof -
  let ?a = "fold (sync_one K now F s True) fs \<lparr>sa_repo = db_repo D, sa_seen = [], sa_added = 0, sa_errors = []\<rparr>"
  note listed = default_fetcher_ok [OF assms(1,2)]
  have hashed: "list_all (\<lambda>f. rf_entry f \<noteq> None) fs" "list_all (\<lambda>e. me_sha e \<noteq> []) (entries fs)"
    using listed signed_entry_sha [OF assms(3)] by (auto simp: list_all_iff file_ok_def entries_def split: option.splits)
  have none: "sa_errors ?a = []" and D': "db_repo D' = withdraw_missing (sr_id s) (sa_seen ?a) (sa_repo ?a)"
    using assms(1,2,6) by (auto simp: sync_source_def sync_files_def Let_def split: if_splits)
  have "list_all (\<lambda>e. mirrored s e (sa_repo ?a)) ([] @ entries fs) \<and> sa_seen ?a = map me_sha ([] @ entries fs)"
    by (rule sync_fold_mirrors) (use hashed assms(4) none in simp_all)
  then have mir: "list_all (\<lambda>e. mirrored s e (sa_repo ?a)) (entries fs)" and see: "sa_seen ?a = map me_sha (entries fs)" by simp_all
  have kept: "list_all (\<lambda>e. mirrored s e (db_repo D')) (entries fs)"
    using mir unfolding D' see by (auto simp: list_all_iff intro: withdraw_keeps_mirrored)
  have ok: "distinct (map pk_sha (rp_rows (db_repo D')))"
    using sync_source_ok [OF assms(3,5), of E N lic now s] assms(6) by (simp add: repo_ok_def repo_ok_but_def)
  have "pk_withdrawn p = (pk_sha p \<notin> me_sha ` set (entries fs))"
    if p: "p \<in> set (rp_rows (db_repo D'))" "pk_source p = Some (sr_id s)" for p
  proof (cases "pk_sha p \<in> me_sha ` set (entries fs)")
    case True
    then obtain e where e: "e \<in> set (entries fs)" "pk_sha p = me_sha e" by auto
    have "find_row pk_sha (me_sha e) (rp_rows (db_repo D')) = Some p" using find_row_distinct [OF ok p(1)] e(2) by simp
    with kept e show ?thesis by (auto simp: list_all_iff mirrored_def)
  next
    case False
    with p show ?thesis by (auto simp: D' withdraw_missing_def see set_upd_rows split: if_splits)
  qed
  with kept show ?thesis by (simp add: list_all_iff)
qed

theorem signed_sync_mirrors_witness:
  "\<exists>D' added seen. sync_source sample_mf sample_crypto sample_srcenv sample_mirror None 8 sample_source sample_pkdb = (D', added, seen, None) \<and>
     mirrored sample_source sample_entry (db_repo D')"
proof -
  have ents: "entries [\<lparr>rf_name = ''ips-2.pkg'', rf_size = 3, rf_entry = Some sample_entry\<rparr>] = [sample_entry]"
    by (simp add: entries_def)
  have ok: "repo_ok sample_mf sample_crypto (db_repo sample_pkdb)"
    by (simp add: sample_pkdb_def repo_ok_def repo_ok_but_def files_ok_def)
  have "snd (snd (snd (sync_source sample_mf sample_crypto sample_srcenv sample_mirror None 8 sample_source sample_pkdb))) = None"
    by (simp add: sync_source_def sample_default sample_list Let_def sync_files_def sync_one_def sync_file_def fetch_entry_def
        has_file_def sample_open sample_store_new sample_pkdb_def pin_key_def sample_entry_def [THEN arg_cong, of me_sha])
  then obtain D' added seen where
    run: "sync_source sample_mf sample_crypto sample_srcenv sample_mirror None 8 sample_source sample_pkdb = (D', added, seen, None)"
    by (cases "sync_source sample_mf sample_crypto sample_srcenv sample_mirror None 8 sample_source sample_pkdb") auto
  have "mirrored sample_source sample_entry (db_repo D')"
    using signed_sync_mirrors [OF sample_default sample_list sample_hashed _ ok run] by (simp add: ents)
  with run show ?thesis by blast
qed

text \<open>
  A file that two unsigned sources offer belongs to the first that fetched it: the second downloads it
  again at every sync, and counts it as added every time.
\<close>

lemma find_map_kept: "(\<And>x. P (f x) = P x) \<Longrightarrow> (\<And>x. g (f x) = g x) \<Longrightarrow>
    map_option g (List.find P (map f xs)) = map_option g (List.find P xs)"
  by (induction xs) auto

lemma known_file_offered:
  "known_file src f (R\<lparr>rp_rows := upd_rows Q (\<lambda>p. p\<lparr>pk_withdrawn := False\<rparr>) (rp_rows R)\<rparr>) = known_file src f R"
  unfolding known_file_def upd_rows_def by (simp, rule find_map_kept) auto

lemma shared_file_fetched_again:
  assumes "rf_entry f = None" and "fe_open F f = Inr (c, None)" and "c \<noteq> []" and "length c \<le> max_file_size"
    and "find_row pk_sha (sha256_hex K c) (rp_rows R) = Some p" and "known_file (sr_id s) f R = None"
  shows "\<exists>R'. sync_file K now F s False f R = (R', Inr (sha256_hex K c, True)) \<and> known_file (sr_id s) f R' = None \<and>
    find_row pk_sha (sha256_hex K c) (rp_rows R') \<noteq> None"
proof -
  let ?sha = "sha256_hex K c"
  let ?R1 = "R\<lparr>rp_files := (rp_files R)(?sha \<mapsto> c)\<rparr>"
  have st: "store_file K (c, None) [] R = (?R1, Inr (?sha, int (length c)))"
    using assms(3,4) by (simp add: store_file_def Let_def)
  have row: "replace_row (new_package h n z m so o' False) = (\<lambda>p. p\<lparr>pk_withdrawn := False\<rparr>)" for h n z m so o'
    by (rule ext) (simp add: replace_row_def new_package_def)
  have up: "upsert now (new_package ?sha n z m so o' False) ?R1
      = ?R1\<lparr>rp_rows := upd_rows (\<lambda>r. pk_sha r = ?sha) (\<lambda>p. p\<lparr>pk_withdrawn := False\<rparr>) (rp_rows R)\<rparr>" for n z m so o'
  proof -
    have "(new_package ?sha n z m so o' False)\<lparr>pk_meta := default_models m\<rparr> = new_package ?sha n z (default_models m) so o' False"
      by (simp add: new_package_def)
    moreover have "pk_sha (new_package ?sha n z m so o' False) = ?sha" "pk_meta (new_package ?sha n z m so o' False) = m"
      by (simp_all add: new_package_def)
    ultimately show ?thesis
      using assms(5) by (simp add: upsert_def Let_def row) (simp add: new_package_def)
  qed
  let ?R' = "?R1\<lparr>rp_rows := upd_rows (\<lambda>r. pk_sha r = ?sha) (\<lambda>p. p\<lparr>pk_withdrawn := False\<rparr>) (rp_rows R)\<rparr>"
  have "sync_file K now F s False f R = (?R', Inr (?sha, True))"
    using assms(1,2,6) st up by (simp add: sync_file_def fetch_plain_def)
  moreover have "known_file (sr_id s) f ?R' = None"
    using known_file_offered [where src = "sr_id s" and f = f and R = ?R1] assms(6) by (simp add: known_file_def)
  moreover have "find_row pk_sha ?sha (rp_rows ?R') \<noteq> None"
    using assms(5) by (simp, subst keyed_update.find_upd) (simp_all add: keyed_update_def)
  ultimately show ?thesis by blast
qed

end
