(* ===== verification/Scripts.thy ===== *)
theory Scripts
  imports Changes
begin

text \<open>
  The script library (\<open>internal/scripts/scripts.go\<close>): scripts and their read-only check, variables of
  three scopes and how they are merged for a device, rendering, scripts as changes, and read-only runs
  that skip the change workflow.

  The template engine is the parameter \<open>tmpl\<close> (\<open>text/template\<close> with \<open>missingkey=error\<close>): it parses a
  body and executes it with the device and the variables. Devices come from the inventory's \<open>Get\<close>.
\<close>

subsection \<open>Read-only scripts\<close>

text \<open>The alternatives of \<open>readOnlyRe\<close>; \<open>\b\<close> asks that no word character follows.\<close>

definition read_only_words :: "string list" where
  "read_only_words = [''get'', ''show'', ''diagnose'', ''diag'', ''execute ping'', ''execute ping6'', ''execute traceroute'',
     ''execute tracert'', ''execute log display'', ''execute log filter'']"

definition is_word_char :: "char \<Rightarrow> bool" where
  "is_word_char c = (is_digit c \<or> lower_char c \<in> set ''abcdefghijklmnopqrstuvwxyz'' \<or> c = CHR ''_'')"

definition starts_with_word :: "string \<Rightarrow> string \<Rightarrow> bool" where
  "starts_with_word w l =
     (starts_with w l \<and> (case drop (length w) l of [] \<Rightarrow> True | c # cs \<Rightarrow> \<not> is_word_char c))"

definition read_only_line :: "string \<Rightarrow> bool" where
  "read_only_line l = list_ex (\<lambda>w. starts_with_word w (to_lower l)) read_only_words"

definition skipped_line :: "string \<Rightarrow> bool" where
  "skipped_line l = (l = [] \<or> starts_with ''#'' l \<or> starts_with ''{{'' l \<and> ends_with ''}}'' l)"

fun read_only_lines :: "bool \<Rightarrow> string list \<Rightarrow> bool" where
  "read_only_lines some [] = some"
| "read_only_lines some (l0 # ls) =
     (let l = trim_space l0
      in if skipped_line l then read_only_lines some ls
         else if \<not> read_only_line l then False else read_only_lines True ls)"

definition is_read_only :: "string \<Rightarrow> bool" where
  "is_read_only t = read_only_lines False (split_char (CHR 0x0A) t)"

subsection \<open>The library\<close>

record script =
  sc_id :: int
  sc_name :: string
  sc_description :: string
  sc_platform :: string
  sc_body :: string
  sc_read_only :: bool
  sc_by :: string
  sc_at :: time

datatype scope = ScopeGlobal | ScopeGroup | ScopeDevice

record variable =
  va_id :: int
  va_scope :: scope
  va_scope_id :: int
  va_name :: string
  va_value :: string

record script_run =
  sn_script :: int
  sn_device :: int
  sn_device_name :: string
  sn_at :: time
  sn_actor :: string
  sn_text :: string
  sn_output :: string
  sn_ok :: bool
  sn_error :: string

record scriptdb =
  sd_scripts :: "script list"
  sd_next :: int
  sd_vars :: "variable list"
  sd_next_var :: int
  sd_runs :: "script_run list"

record 't tmpl =
  te_parse :: "string \<Rightarrow> string + 't"
  te_exec :: "'t \<Rightarrow> device \<Rightarrow> (string \<rightharpoonup> string) \<Rightarrow> string + string"

fun unix_lines :: "string \<Rightarrow> string" where
  "unix_lines [] = []"
| "unix_lines (c # cs) =
     (case cs of
        d # ds \<Rightarrow> if c = CHR 0x0D \<and> d = CHR 0x0A then CHR 0x0A # unix_lines ds else c # unix_lines cs
      | [] \<Rightarrow> [c])"

definition list_scripts :: "scriptdb \<Rightarrow> script list" where
  "list_scripts D = sort_key (\<lambda>s. to_lower (sc_name s)) (sd_scripts D)"

definition get_script :: "int \<Rightarrow> scriptdb \<Rightarrow> cerror + script" where
  "get_script i D = (case find_row sc_id i (sd_scripts D) of None \<Rightarrow> Inl NotFound | Some s \<Rightarrow> Inr s)"

definition normal_script :: "'t tmpl \<Rightarrow> script \<Rightarrow> string + script" where
  "normal_script T s0 =
     (let s = s0\<lparr>sc_name := trim_space (sc_name s0), sc_body := trim_space (unix_lines (sc_body s0)),
                 sc_platform := (if sc_platform s0 = [] then ''fortigate'' else sc_platform s0)\<rparr>
      in if sc_name s = [] then Inl ''script name is required''
         else if sc_body s = [] then Inl ''the script is empty''
         else if sc_platform s \<noteq> ''fortigate'' \<and> sc_platform s \<noteq> ''fortiweb'' then Inl ''platform must be fortigate or fortiweb''
         else (case te_parse T (sc_body s) of
                 Inl e \<Rightarrow> Inl (''template error: '' @ e)
               | Inr t \<Rightarrow> Inr (s\<lparr>sc_read_only := is_read_only (sc_body s)\<rparr>)))"

definition script_name_taken :: "int \<Rightarrow> string \<Rightarrow> scriptdb \<Rightarrow> bool" where
  "script_name_taken i name D = list_ex (\<lambda>s. sc_id s \<noteq> i \<and> to_lower (sc_name s) = to_lower name) (sd_scripts D)"

definition write_script :: "time \<Rightarrow> script \<Rightarrow> string \<Rightarrow> scriptdb \<Rightarrow> (scriptdb, cerror, int) outcome" where
  "write_script now s by D =
     (if sc_id s \<noteq> 0 \<and> find_row sc_id (sc_id s) (sd_scripts D) = None then (D, Inl NotFound)
      else if script_name_taken (sc_id s) (sc_name s) D then (D, Inl (InvalidInput ''a script with this name already exists''))
      else if sc_id s = 0
      then (D\<lparr>sd_scripts := sd_scripts D @ [s\<lparr>sc_id := sd_next D, sc_by := by, sc_at := now\<rparr>], sd_next := sd_next D + 1\<rparr>, Inr (sd_next D))
      else (D\<lparr>sd_scripts := upd_rows (\<lambda>r. sc_id r = sc_id s)
              (\<lambda>r. r\<lparr>sc_name := sc_name s, sc_description := sc_description s, sc_platform := sc_platform s, sc_body := sc_body s,
                    sc_read_only := sc_read_only s, sc_by := by, sc_at := now\<rparr>) (sd_scripts D)\<rparr>, Inr (sc_id s)))"

definition save_script :: "'t tmpl \<Rightarrow> time \<Rightarrow> script \<Rightarrow> string \<Rightarrow> scriptdb \<Rightarrow> (scriptdb, cerror, int) outcome" where
  "save_script T now s0 by D =
     (case normal_script T s0 of Inl e \<Rightarrow> (D, Inl (InvalidInput e)) | Inr s \<Rightarrow> write_script now s by D)"

text \<open>The runs of a deleted script are kept without it (\<open>ON DELETE SET NULL\<close>; 0 stands for no script).\<close>

definition delete_script :: "int \<Rightarrow> scriptdb \<Rightarrow> (scriptdb, cerror, unit) outcome" where
  "delete_script i D =
     (if find_row sc_id i (sd_scripts D) = None then (D, Inl NotFound)
      else (D\<lparr>sd_scripts := del_rows (\<lambda>s. sc_id s = i) (sd_scripts D),
              sd_runs := upd_rows (\<lambda>r. sn_script r = i) (\<lambda>r. r\<lparr>sn_script := 0\<rparr>) (sd_runs D)\<rparr>, Inr ()))"

subsection \<open>Variables\<close>

fun scope_rank :: "scope \<Rightarrow> nat" where
  "scope_rank ScopeGlobal = 0"
| "scope_rank ScopeGroup = 1"
| "scope_rank ScopeDevice = 2"

fun scope_text :: "scope \<Rightarrow> string" where
  "scope_text ScopeGlobal = ''global''"
| "scope_text ScopeGroup = ''group''"
| "scope_text ScopeDevice = ''device''"

definition parse_scope :: "string \<Rightarrow> scope option" where
  "parse_scope s =
     (if s = ''global'' then Some ScopeGlobal else if s = ''group'' then Some ScopeGroup
      else if s = ''device'' then Some ScopeDevice else None)"

text \<open>Scopes are ordered by how specific they are, as the code ranks them.\<close>

instantiation scope :: linorder
begin

definition less_eq_scope :: "scope \<Rightarrow> scope \<Rightarrow> bool" where "less_eq_scope s t = (scope_rank s \<le> scope_rank t)"
definition less_scope :: "scope \<Rightarrow> scope \<Rightarrow> bool" where "less_scope s t = (scope_rank s < scope_rank t)"

instance
proof
  fix s t u :: scope
  show "s < t \<longleftrightarrow> s \<le> t \<and> \<not> t \<le> s" by (auto simp: less_eq_scope_def less_scope_def)
  show "s \<le> s" by (simp add: less_eq_scope_def)
  show "s \<le> t \<Longrightarrow> t \<le> u \<Longrightarrow> s \<le> u" by (simp add: less_eq_scope_def)
  show "s \<le> t \<Longrightarrow> t \<le> s \<Longrightarrow> s = t" by (cases s; cases t; simp add: less_eq_scope_def)
  show "s \<le> t \<or> t \<le> s" by (auto simp: less_eq_scope_def)
qed

end

definition valid_var_name :: "string \<Rightarrow> bool" where
  "valid_var_name n =
     (case n of
        [] \<Rightarrow> False
      | c # cs \<Rightarrow> is_word_char c \<and> \<not> is_digit c \<and> list_all is_word_char cs \<and> length cs \<le> 63)"

definition put_variable :: "scope \<Rightarrow> int \<Rightarrow> string \<Rightarrow> string \<Rightarrow> scriptdb \<Rightarrow> scriptdb" where
  "put_variable sc i n v D =
     (if find_row (\<lambda>r. (va_scope r, va_scope_id r, va_name r)) (sc, i, n) (sd_vars D) \<noteq> None
      then D\<lparr>sd_vars := upd_rows (\<lambda>r. (va_scope r, va_scope_id r, va_name r) = (sc, i, n)) (\<lambda>r. r\<lparr>va_value := v\<rparr>) (sd_vars D)\<rparr>
      else D\<lparr>sd_vars := sd_vars D @ [\<lparr>va_id = sd_next_var D, va_scope = sc, va_scope_id = i, va_name = n, va_value = v\<rparr>],
             sd_next_var := sd_next_var D + 1\<rparr>)"

definition set_variable :: "string \<Rightarrow> int \<Rightarrow> string \<Rightarrow> string \<Rightarrow> scriptdb \<Rightarrow> (scriptdb, cerror, unit) outcome" where
  "set_variable sc i n v D =
     (if \<not> valid_var_name n
      then (D, Inl (InvalidInput ''variable names use letters, digits and underscores and start with a letter''))
      else (case parse_scope sc of
              None \<Rightarrow> (D, Inl (InvalidInput ''scope must be global, group or device''))
            | Some ScopeGlobal \<Rightarrow> (put_variable ScopeGlobal 0 n v D, Inr ())
            | Some s \<Rightarrow> if i \<le> 0 then (D, Inl (InvalidInput (''choose the '' @ sc))) else (put_variable s i n v D, Inr ())))"

definition delete_variable :: "int \<Rightarrow> scriptdb \<Rightarrow> (scriptdb, cerror, unit) outcome" where
  "delete_variable i D =
     (if find_row va_id i (sd_vars D) = None then (D, Inl NotFound)
      else (D\<lparr>sd_vars := del_rows (\<lambda>v. va_id v = i) (sd_vars D)\<rparr>, Inr ()))"

definition list_variables :: "scriptdb \<Rightarrow> variable list" where
  "list_variables D = sort_key (\<lambda>v. (scope_text (va_scope v), va_scope_id v, va_name v)) (sd_vars D)"

definition var_applies :: "device \<Rightarrow> variable \<Rightarrow> bool" where
  "var_applies d v =
     (va_scope v = ScopeGlobal \<or>
      va_scope v = ScopeGroup \<and> va_scope_id v = (case d_group d of None \<Rightarrow> 0 | Some g \<Rightarrow> g) \<or>
      va_scope v = ScopeDevice \<and> va_scope_id v = d_id d)"

fun merge_vars :: "variable list \<Rightarrow> (string \<rightharpoonup> string \<times> scope) \<Rightarrow> (string \<rightharpoonup> string \<times> scope)" where
  "merge_vars [] m = m"
| "merge_vars (v # vs) m =
     (case m (va_name v) of
        None \<Rightarrow> merge_vars vs (m(va_name v \<mapsto> (va_value v, va_scope v)))
      | Some (x, r) \<Rightarrow> if va_scope v \<ge> r then merge_vars vs (m(va_name v \<mapsto> (va_value v, va_scope v))) else merge_vars vs m)"

definition script_vars :: "scriptdb \<Rightarrow> device \<Rightarrow> (string \<rightharpoonup> string) \<Rightarrow> (string \<rightharpoonup> string)" where
  "script_vars D d overrides = (map_option fst \<circ> merge_vars (filter (var_applies d) (sd_vars D)) Map.empty) ++ overrides"

subsection \<open>Rendering\<close>

fun from_first :: "string \<Rightarrow> string \<Rightarrow> string option" where
  "from_first p [] = (if p = [] then Some [] else None)"
| "from_first p (c # cs) = (if starts_with p (c # cs) then Some (c # cs) else from_first p cs)"

definition missing_key :: string where "missing_key = ''map has no entry for key''"

definition exec_error :: "string \<Rightarrow> string" where
  "exec_error msg =
     (case from_first missing_key msg of
        None \<Rightarrow> msg
      | Some rest \<Rightarrow> ''variable '' @ trim_prefix (missing_key @ '' '') rest @ '' is not defined for this device'')"

definition render :: "'t tmpl \<Rightarrow> scriptdb \<Rightarrow> string \<Rightarrow> device \<Rightarrow> (string \<rightharpoonup> string) \<Rightarrow> cerror + string" where
  "render T D body d overrides =
     (case te_parse T body of
        Inl e \<Rightarrow> Inl (InvalidInput (''template error: '' @ e))
      | Inr t \<Rightarrow>
          (case te_exec T t d (script_vars D d overrides) of
             Inl e \<Rightarrow> Inl (InvalidInput (exec_error e)) | Inr out \<Rightarrow> Inr (trim_space out)))"

subsection \<open>Scripts as changes\<close>

record spec =
  sp_script :: int
  sp_body :: string
  sp_vars :: "string \<rightharpoonup> string"

text \<open>\<open>dec\<close> decodes the JSON of a change; a device has SSH when its credentials do.\<close>

definition script_preview :: "'t tmpl \<Rightarrow> (string \<Rightarrow> spec option) \<Rightarrow> scriptdb \<Rightarrow> string \<Rightarrow> device \<Rightarrow> cerror + string" where
  "script_preview T dec D raw d =
     (case dec raw of
        None \<Rightarrow> Inl (InvalidInput ''the script is empty'')
      | Some sp \<Rightarrow>
          if trim_space (sp_body sp) = [] then Inl (InvalidInput ''the script is empty'')
          else if \<not> v_has_ssh d then Inl (InvalidInput ''scripts need SSH credentials on the device'')
          else render T D (sp_body sp) d (sp_vars sp))"

definition cerror_message :: "cerror \<Rightarrow> string" where
  "cerror_message e = (case e of InvalidInput m \<Rightarrow> m | OtherError m \<Rightarrow> m | _ \<Rightarrow> ''not found'')"

text \<open>\<open>Run\<close>: what is written to the output, the error if any, and the text that was sent.\<close>

definition run_script_change ::
  "'t tmpl \<Rightarrow> (string \<Rightarrow> spec option) \<Rightarrow> invenv \<Rightarrow> scriptdb \<Rightarrow> string \<Rightarrow> device \<Rightarrow> string \<times> string option \<times> string option"
  where
  "run_script_change T dec V D raw d =
     (case script_preview T dec D raw d of
        Inl e \<Rightarrow> ([], Some (cerror_message e), None)
      | Inr t \<Rightarrow>
          (case as_cli (inv_driver V d) of
             None \<Rightarrow> ([], Some ''the device has no SSH access'', None)
           | Some cli \<Rightarrow> (case cli t of (out, err) \<Rightarrow> (out @ [CHR 0x0A], map_option err_text err, Some t))))"

subsection \<open>Read-only runs\<close>

text \<open>One device of a read-only run: its row, and the text that was sent to the device, if any.\<close>

definition read_only_one ::
  "'l licapi \<Rightarrow> 't tmpl \<Rightarrow> (int \<Rightarrow> ierror + device) \<Rightarrow> invenv \<Rightarrow> time \<Rightarrow> scriptdb \<Rightarrow> script \<Rightarrow> string \<Rightarrow> int \<Rightarrow> script_run \<times> string option"
  where
  "read_only_one L T get V now D sc actor did =
     (let res = \<lparr>sn_script = sc_id sc, sn_device = did, sn_device_name = [], sn_at = now, sn_actor = actor, sn_text = [], sn_output = [],
                 sn_ok = False, sn_error = []\<rparr>
      in case get did of
           Inl e \<Rightarrow> (res\<lparr>sn_error := ierror_text e\<rparr>, None)
         | Inr d \<Rightarrow>
             (let res1 = res\<lparr>sn_device_name := d_name d\<rparr>
              in if \<not> operational L d then (res1\<lparr>sn_error := ''the device's license is not active''\<rparr>, None)
                 else case render T D (sc_body sc) d Map.empty of
                        Inl e \<Rightarrow> (res1\<lparr>sn_error := cerror_message e\<rparr>, None)
                      | Inr t \<Rightarrow>
                          (let res2 = res1\<lparr>sn_text := t\<rparr>
                           in if \<not> is_read_only t then (res2\<lparr>sn_error := ''the rendered script is not read-only''\<rparr>, None)
                              else case as_cli (inv_driver V d) of
                                     None \<Rightarrow> (res2\<lparr>sn_error := ''the device has no SSH access''\<rparr>, None)
                                   | Some cli \<Rightarrow>
                                       (case cli t of
                                          (out, None) \<Rightarrow> (res2\<lparr>sn_output := out, sn_ok := True\<rparr>, Some t)
                                        | (out, Some e) \<Rightarrow> (res2\<lparr>sn_output := out, sn_error := err_text e\<rparr>, Some t)))))"

definition run_read_only ::
  "'l licapi \<Rightarrow> 't tmpl \<Rightarrow> (int \<Rightarrow> ierror + device) \<Rightarrow> invenv \<Rightarrow> time \<Rightarrow> int \<Rightarrow> int list \<Rightarrow> string \<Rightarrow> scriptdb
     \<Rightarrow> scriptdb \<times> (cerror + script_run list) \<times> (int \<times> string) list"
  where
  "run_read_only L T get V now i devs actor D =
     (case get_script i D of
        Inl e \<Rightarrow> (D, Inl e, [])
      | Inr sc \<Rightarrow>
          if \<not> sc_read_only sc then (D, Inl (InvalidInput ''this script changes configuration; run it through a change request''), [])
          else if devs = [] \<or> length devs > 200 then (D, Inl (InvalidInput ''choose between 1 and 200 devices''), [])
          else (let res = map (read_only_one L T get V now D sc actor) devs;
                    rows = map fst res
                in (D\<lparr>sd_runs := sd_runs D @ filter (\<lambda>r. \<not> (sn_device_name r = [] \<and> sn_error r \<noteq> [])) rows\<rparr>, Inr rows,
                    List.map_filter (\<lambda>(r, t). map_option (Pair (sn_device r)) t) res)))"

definition script_runs :: "int \<Rightarrow> scriptdb \<Rightarrow> script_run list" where
  "script_runs i D = take 200 (rev (sort_key sn_at (filter (\<lambda>r. sn_script r = i) (sd_runs D))))"

subsection \<open>What a read-only script is\<close>

lemma read_only_lines_iff:
  "read_only_lines some ls \<longleftrightarrow>
     (\<forall>l\<in>set ls. skipped_line (trim_space l) \<or> read_only_line (trim_space l)) \<and>
     (some \<or> (\<exists>l\<in>set ls. \<not> skipped_line (trim_space l)))"
  by (induction some ls rule: read_only_lines.induct) (auto simp: Let_def)

lemma is_read_only_line: "is_read_only t \<Longrightarrow> l \<in> set (split_char (CHR 0x0A) t) \<Longrightarrow> skipped_line (trim_space l) \<or> read_only_line (trim_space l)"
  by (simp add: is_read_only_def read_only_lines_iff)

lemma read_only_one_sent:
  assumes "read_only_one L T get V now D sc actor did = (r, Some t)"
  shows "sn_device r = did \<and> is_read_only t \<and> (\<exists>d. get did = Inr d \<and> operational L d \<and> render T D (sc_body sc) d Map.empty = Inr t)"
  using assms by (auto simp: read_only_one_def Let_def split: sum.splits if_splits option.splits prod.splits)

text \<open>
  The check looks at lines that end in a line feed, as the shell that runs them does not have to: a
  command after a bare carriage return is sent with the line it hides in. It also passes every
  \<open>diagnose\<close> command, which need not only read.
\<close>

lemma carriage_return_hides_command:
  "is_read_only (''show'' @ [CHR 0x0D] @ ''execute reboot'')" "unix_lines (''show'' @ [CHR 0x0D] @ ''execute reboot'') = ''show'' @ [CHR 0x0D] @ ''execute reboot''"
  by code_simp+

lemma diagnose_counts_as_reading: "is_read_only ''diagnose sys process kill 9 120''"
  by code_simp

subsection \<open>Variables are unique\<close>

definition var_key :: "variable \<Rightarrow> scope \<times> int \<times> string" where
  "var_key v = (va_scope v, va_scope_id v, va_name v)"

definition vars_ok :: "scriptdb \<Rightarrow> bool" where
  "vars_ok D =
     (distinct (map var_key (sd_vars D)) \<and> list_all (\<lambda>v. va_scope v \<noteq> ScopeGlobal \<longrightarrow> va_scope_id v > 0) (sd_vars D) \<and>
      list_all (\<lambda>v. va_scope v = ScopeGlobal \<longrightarrow> va_scope_id v = 0) (sd_vars D))"

lemma put_variable_ok:
  assumes D: "vars_ok D" and i: "sc \<noteq> ScopeGlobal \<Longrightarrow> i > 0" "sc = ScopeGlobal \<Longrightarrow> i = 0"
  shows "vars_ok (put_variable sc i n v D)"
proof -
  have key: "(\<lambda>r. (va_scope r, va_scope_id r, va_name r)) = var_key" by (rule ext) (simp add: var_key_def)
  have keys: "map var_key (upd_rows P (\<lambda>r. r\<lparr>va_value := v\<rparr>) rs) = map var_key rs" for P rs
    by (rule keyed_update.map_key_upd) (simp add: keyed_update_def var_key_def)
  have all: "list_all Q (upd_rows P (\<lambda>r. r\<lparr>va_value := v\<rparr>) rs) = list_all Q rs"
    if "\<And>r. Q (r\<lparr>va_value := v\<rparr>) = Q r" for P Q rs
    using that by (induction rs) (simp_all add: upd_rows_Cons)
  show ?thesis
  proof (cases "find_row var_key (sc, i, n) (sd_vars D)")
    case None
    then have "(sc, i, n) \<notin> var_key ` set (sd_vars D)" by (simp add: find_row_None)
    with D i None show ?thesis
      by (simp add: put_variable_def key vars_ok_def) (simp add: var_key_def)
  next
    case (Some r)
    then show ?thesis using D by (simp add: put_variable_def key vars_ok_def keys all del: set_map)
  qed
qed

inductive script_step :: "'l licapi \<Rightarrow> 't tmpl \<Rightarrow> scriptdb \<Rightarrow> scriptdb \<Rightarrow> bool" for L :: "'l licapi" and T :: "'t tmpl" where
  saved: "save_script T now s by D = (D', r) \<Longrightarrow> script_step L T D D'"
| deleted: "delete_script i D = (D', r) \<Longrightarrow> script_step L T D D'"
| var_set: "set_variable sc i n v D = (D', r) \<Longrightarrow> script_step L T D D'"
| var_deleted: "delete_variable i D = (D', r) \<Longrightarrow> script_step L T D D'"
| ran: "run_read_only L T get V now i devs actor D = (D', r, sent) \<Longrightarrow> script_step L T D D'"

inductive_cases script_stepE: "script_step L T D D'"

lemma vars_ok_cong: "sd_vars D' = sd_vars D \<Longrightarrow> vars_ok D \<Longrightarrow> vars_ok D'"
  by (simp add: vars_ok_def)

lemma script_step_vars_ok: "script_step L T D D' \<Longrightarrow> vars_ok D \<Longrightarrow> vars_ok D'"
proof (induction rule: script_step.induct)
  case (saved now s "by" D D' r)
  then have "sd_vars D' = sd_vars D"
    by (auto simp: save_script_def write_script_def split: sum.splits if_splits)
  with saved.prems show ?case by (rule vars_ok_cong [rotated])
next
  case (deleted i D D' r)
  then have "sd_vars D' = sd_vars D" by (auto simp: delete_script_def split: if_splits)
  with deleted.prems show ?case by (rule vars_ok_cong [rotated])
next
  case (var_set sc i n v D D' r)
  then show ?case
    by (auto simp: set_variable_def intro: put_variable_ok split: if_splits option.splits scope.splits)
next
  case (var_deleted i D D' r)
  then show ?case
    by (auto simp: delete_variable_def vars_ok_def del_rows_def list_all_iff intro: distinct_map_filter split: if_splits)
next
  case (ran get V now i devs actor D D' r sent)
  then have "sd_vars D' = sd_vars D" by (auto simp: run_read_only_def Let_def split: sum.splits if_splits)
  with ran.prems show ?case by (rule vars_ok_cong [rotated])
qed

lemma script_steps_vars_ok: "rtranclp (script_step L T) D D' \<Longrightarrow> vars_ok D \<Longrightarrow> vars_ok D'"
  by (induction rule: rtranclp_induct) (auto intro: script_step_vars_ok)

subsection \<open>The value of a variable\<close>

definition merged :: "string \<Rightarrow> variable list \<Rightarrow> (string \<times> scope) option \<Rightarrow> (string \<times> scope) option \<Rightarrow> bool" where
  "merged n vs start out =
     (case out of
        None \<Rightarrow> start = None \<and> (\<forall>v\<in>set vs. va_name v \<noteq> n)
      | Some (x, r) \<Rightarrow>
          (start = Some (x, r) \<or> (\<exists>v\<in>set vs. va_name v = n \<and> va_value v = x \<and> va_scope v = r)) \<and>
          (\<forall>v\<in>set vs. va_name v = n \<longrightarrow> va_scope v \<le> r) \<and> (\<forall>y q. start = Some (y, q) \<longrightarrow> q \<le> r))"

lemma merged_Nil: "merged n [] x x"
  by (auto simp: merged_def split: option.split)

lemma merged_other: "merged n vs x out \<Longrightarrow> va_name v \<noteq> n \<Longrightarrow> merged n (v # vs) x out"
  by (auto simp: merged_def split: option.splits)

lemma merged_take:
  assumes "merged n vs (Some (va_value v, va_scope v)) out" "va_name v = n" "\<And>y q. x = Some (y, q) \<Longrightarrow> q \<le> va_scope v"
  shows "merged n (v # vs) x out"
proof (cases out)
  case None
  then show ?thesis using assms(1) by (simp add: merged_def)
next
  case (Some yr)
  obtain y r where yr: "yr = (y, r)" by (cases yr)
  from assms(1) Some yr have "va_scope v \<le> r" by (simp add: merged_def)
  with assms Some yr show ?thesis by (auto simp: merged_def intro: order_trans)
qed

lemma merged_skip:
  assumes "merged n vs (Some (y, q)) out" "va_scope v \<le> q"
  shows "merged n (v # vs) (Some (y, q)) out"
  using assms by (auto simp: merged_def intro: order_trans split: option.splits)

lemma merge_vars_spec: "merged n vs (m n) (merge_vars vs m n)"
proof (induction vs arbitrary: m)
  case Nil
  show ?case by (simp add: merged_Nil)
next
  case (Cons v vs)
  let ?m = "m(va_name v \<mapsto> (va_value v, va_scope v))"
  show ?case
  proof (cases "m (va_name v) = None \<or> (\<exists>y q. m (va_name v) = Some (y, q) \<and> va_scope v \<ge> q)")
    case True
    then have step: "merge_vars (v # vs) m = merge_vars vs ?m" by auto
    show ?thesis
    proof (cases "va_name v = n")
      case name: True
      have "merged n vs (Some (va_value v, va_scope v)) (merge_vars vs ?m n)" using Cons.IH [of ?m] by (simp only: name fun_upd_same)
      then show ?thesis unfolding step by (rule merged_take) (use True name in auto)
    next
      case False
      then have "?m n = m n" by simp
      with Cons.IH [of ?m] have "merged n vs (m n) (merge_vars vs ?m n)" by (simp only:)
      then show ?thesis unfolding step using False by (rule merged_other)
    qed
  next
    case False
    then obtain y q where q: "m (va_name v) = Some (y, q)" "\<not> q \<le> va_scope v" by auto
    then have step: "merge_vars (v # vs) m = merge_vars vs m" by simp
    show ?thesis
    proof (cases "va_name v = n")
      case True
      with Cons.IH [of m] q show ?thesis unfolding step by (auto intro: merged_skip)
    next
      case False
      then show ?thesis unfolding step by (rule merged_other [OF Cons.IH])
    qed
  qed
qed

text \<open>The value a scope gives to a variable.\<close>

definition value_in :: "scriptdb \<Rightarrow> scope \<Rightarrow> int option \<Rightarrow> string \<Rightarrow> string option" where
  "value_in D sc i n =
     (case i of None \<Rightarrow> None | Some j \<Rightarrow> map_option va_value (find_row var_key (sc, j, n) (sd_vars D)))"

definition scope_of :: "device \<Rightarrow> scope \<Rightarrow> int option" where
  "scope_of d sc = (case sc of ScopeGlobal \<Rightarrow> Some 0 | ScopeGroup \<Rightarrow> d_group d | ScopeDevice \<Rightarrow> Some (d_id d))"

lemma applies_iff:
  assumes "vars_ok D" "v \<in> set (sd_vars D)"
  shows "var_applies d v \<longleftrightarrow> scope_of d (va_scope v) = Some (va_scope_id v)"
  using assms by (cases "va_scope v") (auto simp: var_applies_def scope_of_def vars_ok_def list_all_iff split: option.splits)

lemma value_in_iff:
  assumes "vars_ok D"
  shows "value_in D sc (scope_of d sc) n = Some x \<longleftrightarrow>
    (\<exists>v\<in>set (filter (var_applies d) (sd_vars D)). va_name v = n \<and> va_scope v = sc \<and> va_value v = x)"
proof
  assume "value_in D sc (scope_of d sc) n = Some x"
  then obtain j v where j: "scope_of d sc = Some j" and v: "find_row var_key (sc, j, n) (sd_vars D) = Some v" "va_value v = x"
    by (auto simp: value_in_def split: option.splits)
  from find_row_Some [OF v(1)] j v(2) applies_iff [OF assms, of v d]
  show "\<exists>v\<in>set (filter (var_applies d) (sd_vars D)). va_name v = n \<and> va_scope v = sc \<and> va_value v = x"
    by (auto simp: var_key_def)
next
  assume "\<exists>v\<in>set (filter (var_applies d) (sd_vars D)). va_name v = n \<and> va_scope v = sc \<and> va_value v = x"
  then obtain v where v: "v \<in> set (sd_vars D)" "var_applies d v" "va_name v = n" "va_scope v = sc" "va_value v = x" by auto
  have "find_row var_key (var_key v) (sd_vars D) = Some v"
    by (rule find_row_distinct) (use assms v(1) in \<open>auto simp: vars_ok_def\<close>)
  with v applies_iff [OF assms v(1), of d] show "value_in D sc (scope_of d sc) n = Some x"
    by (simp add: value_in_def var_key_def)
qed

definition first_of :: "'a option list \<Rightarrow> 'a option" where "first_of = first_some (\<lambda>x. x)"

lemma merged_value:
  assumes "vars_ok D"
  shows "map_option fst (merge_vars (filter (var_applies d) (sd_vars D)) Map.empty n) =
    first_of (map (\<lambda>sc. value_in D sc (scope_of d sc) n) [ScopeDevice, ScopeGroup, ScopeGlobal])"
proof -
  let ?vs = "filter (var_applies d) (sd_vars D)"
  have none: "value_in D sc (scope_of d sc) n = None" if "\<forall>v\<in>set ?vs. va_name v = n \<longrightarrow> va_scope v \<noteq> sc" for sc
    using value_in_iff [OF assms, of sc d n] that by (cases "value_in D sc (scope_of d sc) n") auto
  note spec = merge_vars_spec [where vs = ?vs and m = Map.empty and n = n]
  show ?thesis
  proof (cases "merge_vars ?vs Map.empty n")
    case None
    then have "\<forall>v\<in>set ?vs. va_name v \<noteq> n" using spec by (simp add: merged_def)
    then show ?thesis using None none by (auto simp: first_of_def)
  next
    case (Some xr)
    obtain x r where xr: "xr = (x, r)" by (cases xr)
    have ex: "\<exists>v\<in>set ?vs. va_name v = n \<and> va_scope v = r \<and> va_value v = x" and max: "\<forall>v\<in>set ?vs. va_name v = n \<longrightarrow> va_scope v \<le> r"
      using spec Some xr by (auto simp: merged_def)
    have here: "value_in D r (scope_of d r) n = Some x" using value_in_iff [OF assms] ex by blast
    have above: "value_in D sc (scope_of d sc) n = None" if "\<not> sc \<le> r" for sc
      by (rule none) (use max that in auto)
    show ?thesis
      using Some xr here above [of ScopeDevice] above [of ScopeGroup]
      by (cases r) (simp_all add: first_of_def less_eq_scope_def)
  qed
qed

subsection \<open>Properties\<close>


text \<open>
  The value of a template variable for a device is that given with the change, or else the
  device's own, its group's or the global one, the first of these that is set - whatever changes of
  variables and scripts came before and in whatever order the rows are read.
\<close>

lemma variables_have_precedence:
  assumes "rtranclp (script_step L T) D0 D" and "sd_vars D0 = []"
  shows "script_vars D d overrides n =
    first_of [overrides n, value_in D ScopeDevice (Some (d_id d)) n, value_in D ScopeGroup (d_group d) n, value_in D ScopeGlobal (Some 0) n]"
proof -
  have "vars_ok D0" using assms(2) by (simp add: vars_ok_def)
  then have "vars_ok D" using script_steps_vars_ok assms(1) by blast
  from merged_value [OF this, of d n] show ?thesis
    by (simp add: script_vars_def map_add_def first_of_def scope_of_def split: option.split)
qed

definition echo_tmpl :: "string tmpl" where
  "echo_tmpl = \<lparr>te_parse = Inr,
     te_exec = (\<lambda>b d vars. case vars ''cmd'' of None \<Rightarrow> Inl ''map has no entry for key cmd'' | Some v \<Rightarrow> Inr (b @ '' '' @ v))\<rparr>"

definition sample_scripts :: scriptdb where
  "sample_scripts = fst (set_variable ''group'' 4 ''cmd'' ''arp'' (fst (set_variable ''global'' 0 ''cmd'' ''system status''
     \<lparr>sd_scripts = [\<lparr>sc_id = 1, sc_name = ''s'', sc_description = [], sc_platform = ''fortigate'', sc_body = ''get'', sc_read_only = True,
        sc_by = [], sc_at = 0\<rparr>], sd_next = 2, sd_vars = [], sd_next_var = 1, sd_runs = []\<rparr>)))"

definition sample_cli_env :: invenv where
  "sample_cli_env = sample_env\<lparr>iv_transports := (iv_transports sample_env)\<lparr>new_gate := (\<lambda>_. SSHDriver sample_ops (\<lambda>t. (t, None)))\<rparr>\<rparr>"


lemma variables_have_precedence_example:
  "script_vars sample_scripts (sample_device 1\<lparr>d_group := Some 4\<rparr>) Map.empty ''cmd'' = Some ''arp''"
proof -
  obtain D0 D1 where D: "sample_scripts = fst (set_variable ''group'' 4 ''cmd'' ''arp'' D1)"
    "D1 = fst (set_variable ''global'' 0 ''cmd'' ''system status'' D0)" "sd_vars D0 = []"
    by (simp add: sample_scripts_def)
  have step: "script_step sample_lic echo_tmpl Q (fst (set_variable sc i n v Q))" for sc i n v Q
    by (rule script_step.var_set [where r = "snd (set_variable sc i n v Q)"]) simp
  have "rtranclp (script_step sample_lic echo_tmpl) D0 sample_scripts"
    unfolding D(1) D(2) by (blast intro: rtranclp.rtrancl_into_rtrancl step)
  note law = variables_have_precedence [OF this D(3), of "sample_device 1\<lparr>d_group := Some 4\<rparr>" Map.empty "''cmd''"]
  have "value_in sample_scripts ScopeDevice (Some 1) ''cmd'' = None" "value_in sample_scripts ScopeGroup (Some 4) ''cmd'' = Some ''arp''"
    by code_simp+
  moreover have "d_id (sample_device 1\<lparr>d_group := Some 4\<rparr>) = 1" "d_group (sample_device 1\<lparr>d_group := Some 4\<rparr>) = Some 4"
    by (simp_all add: sample_device_def new_row_def drow.defs)
  ultimately show ?thesis by (simp add: law first_of_def)
qed

text \<open>
  The comment at \<open>Spec\<close> says that approvers approve exactly what runs. The body is copied into the
  change, its variables are not: a variable changed after the approval changes what is sent.
\<close>

lemma approved_script_changes:
  "snd (snd (run_script_change echo_tmpl (\<lambda>raw. Some \<lparr>sp_script = 1, sp_body = raw, sp_vars = Map.empty\<rparr>) sample_cli_env sample_scripts ''set''
       (sample_device 1\<lparr>v_has_ssh := True, v_creds := v_creds (sample_device 1)\<lparr>cr_api_token := ''t''\<rparr>\<rparr>))) = Some ''set system status'' \<and>
   snd (snd (run_script_change echo_tmpl (\<lambda>raw. Some \<lparr>sp_script = 1, sp_body = raw, sp_vars = Map.empty\<rparr>) sample_cli_env
       (fst (set_variable ''global'' 0 ''cmd'' ''password x'' sample_scripts)) ''set''
       (sample_device 1\<lparr>v_has_ssh := True, v_creds := v_creds (sample_device 1)\<lparr>cr_api_token := ''t''\<rparr>\<rparr>))) = Some ''set password x''"
  by code_simp

end
