(* ===== verification/Deploy.thy ===== *)
theory Deploy
  imports Packages FileServer Scripts Alerts
begin

text \<open>
  Deployments (\<open>internal/deploy\<close>): how a package is put on a device (\<open>install.go\<close>), signature
  deployments (\<open>signatures.go\<close>) and firmware upgrades (\<open>firmware.go\<close>), which run as changes.

  The manifest library compares versions and knows from which versions an image upgrades. A device is
  what its driver answers; an operation that talks to a device more than once takes the answers as a
  list. What a runner does to the outside, an upload to a device or commands sent to it, is a trace.
\<close>

subsection \<open>The upgrade path\<close>

text \<open>The nodes of the search, each with a pointer to the one before it.\<close>

datatype node = Root string | Hop package node

abbreviation pk_version :: "package \<Rightarrow> string" where "pk_version p \<equiv> pm_version (pk_meta p)"

fun node_version :: "node \<Rightarrow> string" where
  "node_version (Root v) = v"
| "node_version (Hop p n) = pk_version p"

fun node_path :: "node \<Rightarrow> package list" where
  "node_path (Root v) = []"
| "node_path (Hop p n) = node_path n @ [p]"

text \<open>One pass of the exchange sort: the first element is exchanged with each one that is newer.\<close>

fun swap_pass :: "mflib \<Rightarrow> package \<Rightarrow> package list \<Rightarrow> package \<times> package list" where
  "swap_pass M x [] = (x, [])"
| "swap_pass M x (y # ys) =
     (if ml_compare M (pk_version y) (pk_version x) > 0
      then (case swap_pass M y ys of (m, r) \<Rightarrow> (m, x # r))
      else (case swap_pass M x ys of (m, r) \<Rightarrow> (m, y # r)))"

lemma swap_pass_length: "swap_pass M x ys = (m, r) \<Longrightarrow> length r = length ys"
  by (induction M x ys arbitrary: r rule: swap_pass.induct) (auto split: prod.splits if_splits)

function furthest_first :: "mflib \<Rightarrow> package list \<Rightarrow> package list" where
  "furthest_first M [] = []"
| "furthest_first M (x # xs) = (case swap_pass M x xs of (m, r) \<Rightarrow> m # furthest_first M r)"
  by pat_completeness auto
termination
  by (relation "measure (length \<circ> snd)") (simp, metis comp_apply in_measure less_Suc_eq_le length_Cons order_refl snd_conv swap_pass_length)

definition upgrades :: "mflib \<Rightarrow> string \<Rightarrow> package \<Rightarrow> bool" where
  "upgrades M v p = (ml_compare M (pk_version p) v > 0 \<and> ml_upgrades M (pk_meta p) v)"

definition next_images :: "mflib \<Rightarrow> package list \<Rightarrow> string list \<Rightarrow> string \<Rightarrow> package list" where
  "next_images M images seen v = furthest_first M (filter (\<lambda>p. pk_version p \<notin> set seen \<and> upgrades M v p) images)"

lemma swap_pass_set: "swap_pass M x ys = (m, r) \<Longrightarrow> insert m (set r) = insert x (set ys)"
proof (induction M x ys arbitrary: m r rule: swap_pass.induct)
  case (2 M x y ys)
  show ?case
  proof (cases "ml_compare M (pk_version y) (pk_version x) > 0")
    case True
    with 2(3) obtain r' where "swap_pass M y ys = (m, r')" and r: "r = x # r'" by (auto split: prod.splits)
    with 2(1) True have "insert m (set r') = insert y (set ys)" by blast
    then show ?thesis unfolding r by (metis insert_commute list.simps(15))
  next
    case False
    with 2(3) obtain r' where "swap_pass M x ys = (m, r')" and r: "r = y # r'" by (auto split: prod.splits)
    with 2(2) False have "insert m (set r') = insert x (set ys)" by blast
    then show ?thesis unfolding r by (metis insert_commute list.simps(15))
  qed
qed simp

lemma furthest_first_set: "set (furthest_first M xs) = set xs"
proof (induction M xs rule: furthest_first.induct)
  case (2 M x xs)
  obtain m r where mr: "swap_pass M x xs = (m, r)" by (cases "swap_pass M x xs")
  from 2 [OF mr [symmetric]] swap_pass_set [OF mr] show ?case by (simp add: mr)
qed simp

lemma next_images_set:
  "p \<in> set (next_images M images seen v) \<longleftrightarrow> p \<in> set images \<and> pk_version p \<notin> set seen \<and> upgrades M v p"
  by (auto simp: next_images_def furthest_first_set)

function (sequential) search :: "mflib \<Rightarrow> package list \<Rightarrow> string \<Rightarrow> string list \<Rightarrow> node list \<Rightarrow> package list option" where
  "search M images target seen [] = None"
| "search M images target seen (n # queue) =
     (if node_version n = target then Some (node_path n)
      else (let nxt = next_images M images seen (node_version n)
            in search M images target (map pk_version nxt @ seen) (queue @ map (\<lambda>p. Hop p n) nxt)))"
  by pat_completeness auto
termination
proof (relation "measures [\<lambda>(M, images, target, seen, queue). card (pk_version ` set images - set seen),
    \<lambda>(M, images, target, seen, queue). length queue]", goal_cases)
  case (2 M images target seen n queue nxt)
  show ?case
  proof (cases nxt)
    case Nil
    then show ?thesis by simp
  next
    case (Cons p ps)
    then have "p \<in> set (next_images M images seen (node_version n))" using 2 by auto
    then have "pk_version p \<in> pk_version ` set images - set seen" by (simp add: next_images_set)
    moreover have "pk_version p \<in> set (map pk_version nxt @ seen)" using Cons by simp
    ultimately have "pk_version ` set images - set (map pk_version nxt @ seen) \<subset> pk_version ` set images - set seen" by auto
    then have "card (pk_version ` set images - set (map pk_version nxt @ seen)) < card (pk_version ` set images - set seen)"
      by (intro psubset_card_mono) auto
    then show ?thesis by simp
  qed
qed simp

text \<open>A chain of images that leads a device from one version to another, and the invariant of the search.\<close>

fun chain :: "mflib \<Rightarrow> package list \<Rightarrow> string \<Rightarrow> package list \<Rightarrow> string \<Rightarrow> bool" where
  "chain M images v [] w = (v = w)"
| "chain M images v (p # ps) w = (p \<in> set images \<and> upgrades M v p \<and> chain M images (pk_version p) ps w)"

lemma chain_append: "chain M images v (ps @ qs) w \<longleftrightarrow> (\<exists>u. chain M images v ps u \<and> chain M images u qs w)"
  by (induction ps arbitrary: v) auto

definition shortest :: "mflib \<Rightarrow> package list \<Rightarrow> string \<Rightarrow> package list \<Rightarrow> string \<Rightarrow> bool" where
  "shortest M images v ps w = (chain M images v ps w \<and> (\<forall>qs. chain M images v qs w \<longrightarrow> length ps \<le> length qs))"

abbreviation hops :: "node \<Rightarrow> nat" where "hops n \<equiv> length (node_path n)"

definition queue_ok :: "mflib \<Rightarrow> package list \<Rightarrow> string \<Rightarrow> string list \<Rightarrow> node list \<Rightarrow> bool" where
  "queue_ok M images start seen queue =
     (sorted (map hops queue) \<and> (\<forall>n\<in>set queue. hops n \<le> Suc (hops (hd queue)) \<and> node_version n \<in> set seen \<and>
        shortest M images start (node_path n) (node_version n)))"

text \<open>Every version that was seen is queued, or it is done with and all that follow it were seen.\<close>

definition seen_ok :: "mflib \<Rightarrow> package list \<Rightarrow> string \<Rightarrow> string list \<Rightarrow> node list \<Rightarrow> bool" where
  "seen_ok M images target seen queue =
     (\<forall>v\<in>set seen. v \<in> node_version ` set queue \<or>
        v \<noteq> target \<and> (\<forall>p\<in>set images. upgrades M v p \<longrightarrow> pk_version p \<in> set seen))"

lemma seen_okD:
  "seen_ok M images target seen queue \<Longrightarrow> v \<in> set seen \<Longrightarrow> v \<notin> node_version ` set queue \<Longrightarrow>
     v \<noteq> target \<and> (\<forall>p\<in>set images. upgrades M v p \<longrightarrow> pk_version p \<in> set seen)"
  unfolding seen_ok_def by blast

text \<open>The frontier: a chain that leaves the seen versions, or ends in the target, passes a queued one.\<close>

lemma frontier:
  assumes "seen_ok M images target seen queue" "chain M images v qs w" "v \<in> set seen" "w \<notin> set seen \<or> w = target"
  shows "\<exists>n q1 q2. n \<in> set queue \<and> qs = q1 @ q2 \<and> chain M images v q1 (node_version n) \<and> chain M images (node_version n) q2 w"
  using assms(2,3)
proof (induction qs arbitrary: v)
  case Nil
  then have "v = w" by simp
  with Nil.prems assms(4) seen_okD [OF assms(1)] have "v \<in> node_version ` set queue" by blast
  then obtain n where "n \<in> set queue" "node_version n = v" by blast
  then show ?case using \<open>v = w\<close> by (intro exI [of _ n] exI [of _ "[]"]) simp
next
  case (Cons p qs)
  show ?case
  proof (cases "v \<in> node_version ` set queue")
    case True
    then obtain n where "n \<in> set queue" "node_version n = v" by blast
    then show ?thesis using Cons.prems by (intro exI [of _ n] exI [of _ "[]"] exI [of _ "p # qs"]) simp
  next
    case False
    with seen_okD [OF assms(1) Cons.prems(2)] Cons.prems(1) have "pk_version p \<in> set seen" by simp
    with Cons.IH [of "pk_version p"] Cons.prems(1) obtain n q1 q2 where "n \<in> set queue" "qs = q1 @ q2"
      "chain M images (pk_version p) q1 (node_version n)" "chain M images (node_version n) q2 w" by auto
    with Cons.prems(1) show ?thesis by (intro exI [of _ n] exI [of _ "p # q1"] exI [of _ q2]) simp
  qed
qed

lemma hop_shortest:
  assumes q: "queue_ok M images start seen (n # queue)" and s: "seen_ok M images target seen (n # queue)"
    and "start \<in> set seen" and p: "p \<in> set images" "pk_version p \<notin> set seen" "upgrades M (node_version n) p"
  shows "shortest M images start (node_path (Hop p n)) (pk_version p)"
proof -
  have "length (node_path (Hop p n)) \<le> length qs" if "chain M images start qs (pk_version p)" for qs
  proof -
    from frontier [OF s that \<open>start \<in> set seen\<close>] p(2) obtain k q1 q2 where k: "k \<in> set (n # queue)" and qs: "qs = q1 @ q2"
      and c: "chain M images start q1 (node_version k)" "chain M images (node_version k) q2 (pk_version p)" by blast
    have "node_version k \<in> set seen" using q k by (auto simp: queue_ok_def)
    with c(2) p(2) have "q2 \<noteq> []" by (cases q2) auto
    moreover have "hops k \<le> length q1" using q k c(1) by (auto simp: queue_ok_def shortest_def)
    moreover have "hops n \<le> hops k" using q k by (auto simp: queue_ok_def)
    ultimately show ?thesis unfolding qs by (cases q2) auto
  qed
  moreover have "chain M images start (node_path n) (node_version n)" using q by (simp add: queue_ok_def shortest_def)
  ultimately show ?thesis using p by (auto simp: shortest_def chain_append)
qed

lemma queue_ok_step:
  assumes q: "queue_ok M images start seen (n # queue)" and s: "seen_ok M images target seen (n # queue)" and "start \<in> set seen"
  shows "queue_ok M images start (map pk_version (next_images M images seen (node_version n)) @ seen)
    (queue @ map (\<lambda>p. Hop p n) (next_images M images seen (node_version n)))"
proof -
  let ?nxt = "next_images M images seen (node_version n)" and ?hop = "\<lambda>p. Hop p n"
  have le: "hops k \<le> Suc (hops n)" if "k \<in> set queue" for k using q that by (simp add: queue_ok_def)
  have ge: "hops n \<le> hops k" if "k \<in> set queue" for k using q that by (simp add: queue_ok_def)
  have "sorted (map hops queue)" using q by (simp add: queue_ok_def)
  moreover have "map hops (map ?hop ?nxt) = replicate (length ?nxt) (Suc (hops n))" by (simp add: map_replicate_const comp_def)
  ultimately have "sorted (map hops (queue @ map ?hop ?nxt))"
    using le by (auto simp only: map_append sorted_append sorted_replicate set_replicate_conv_if set_map split: if_splits)
  moreover have "hops k \<le> Suc (hops (hd (queue @ map ?hop ?nxt)))" if "k \<in> set (queue @ map ?hop ?nxt)" for k
  proof -
    have "hops k \<le> Suc (hops n)" using that le by auto
    moreover have "hops n \<le> hops (hd (queue @ map ?hop ?nxt))" using that ge by (cases queue; cases ?nxt) auto
    ultimately show ?thesis by linarith
  qed
  moreover have "node_version k \<in> set (map pk_version ?nxt @ seen) \<and> shortest M images start (node_path k) (node_version k)"
    if "k \<in> set (queue @ map ?hop ?nxt)" for k
  proof (cases "k \<in> set queue")
    case True
    then show ?thesis using q by (simp add: queue_ok_def)
  next
    case False
    with that obtain p where "p \<in> set ?nxt" "k = Hop p n" by auto
    with hop_shortest [OF q s \<open>start \<in> set seen\<close>, of p] show ?thesis by (simp add: next_images_set)
  qed
  ultimately show ?thesis unfolding queue_ok_def by blast
qed

lemma seen_ok_step:
  assumes s: "seen_ok M images target seen (n # queue)" and "node_version n \<noteq> target"
  shows "seen_ok M images target (map pk_version (next_images M images seen (node_version n)) @ seen)
    (queue @ map (\<lambda>p. Hop p n) (next_images M images seen (node_version n)))"
  unfolding seen_ok_def
proof
  let ?nxt = "next_images M images seen (node_version n)"
  fix v
  assume v: "v \<in> set (map pk_version ?nxt @ seen)"
  show "v \<in> node_version ` set (queue @ map (\<lambda>p. Hop p n) ?nxt) \<or>
    v \<noteq> target \<and> (\<forall>p\<in>set images. upgrades M v p \<longrightarrow> pk_version p \<in> set (map pk_version ?nxt @ seen))"
  proof (cases "v \<in> pk_version ` set ?nxt \<or> v \<in> node_version ` set queue")
    case True
    have "node_version ` set (queue @ map (\<lambda>p. Hop p n) ?nxt) = node_version ` set queue \<union> pk_version ` set ?nxt"
      by (simp add: image_Un image_image)
    with True show ?thesis by blast
  next
    case False
    with v have "v \<in> set seen" by auto
    show ?thesis
    proof (cases "v = node_version n")
      case True
      then show ?thesis using \<open>node_version n \<noteq> target\<close> by (auto simp: next_images_set image_iff)
    next
      case False
      with \<open>\<not> (v \<in> pk_version ` set ?nxt \<or> v \<in> node_version ` set queue)\<close>
      have "v \<notin> node_version ` set (n # queue)" by auto
      from seen_okD [OF s \<open>v \<in> set seen\<close> this] show ?thesis by auto
    qed
  qed
qed

lemma search_correct:
  assumes "queue_ok M images start seen queue" "seen_ok M images target seen queue" "start \<in> set seen"
  shows "case search M images target seen queue of
      None \<Rightarrow> (\<nexists>qs. chain M images start qs target)
    | Some ps \<Rightarrow> shortest M images start ps target"
  using assms
proof (induction M images target seen queue rule: search.induct)
  case (1 M images target seen)
  have "\<nexists>qs. chain M images start qs target" using frontier [OF 1(2) _ 1(3)] by fastforce
  then show ?case by simp
next
  case (2 M images target seen n queue)
  show ?case
  proof (cases "node_version n = target")
    case True
    then show ?thesis using 2(2) by (simp add: queue_ok_def)
  next
    case False
    from 2(1) [OF False refl queue_ok_step [OF 2(2,3,4)] seen_ok_step [OF 2(3) False]] 2(4) False
    show ?thesis by (simp add: Let_def)
  qed
qed

declare search.simps [simp del]

lemma search_from_root:
  "case search M images target [start] [Root start] of
      None \<Rightarrow> (\<nexists>qs. chain M images start qs target)
    | Some ps \<Rightarrow> shortest M images start ps target"
  by (rule search_correct) (auto simp: queue_ok_def seen_ok_def shortest_def)


subsection \<open>Putting a package on a device\<close>

text \<open>
  \<open>dp_files\<close> is the built-in file server's configuration, absent when there is none; \<open>dp_route\<close> and
  \<open>dp_port\<close> are what \<open>address_for\<close> and \<open>ftp_port\<close> take. \<open>dp_wait_text\<close> shows the reboot timeout.
\<close>

record deploy_env =
  dp_mf :: mflib
  dp_net :: netlib
  dp_files :: "fsconfig option"
  dp_route :: "string \<Rightarrow> string option"
  dp_port :: "string \<Rightarrow> string"
  dp_tries :: nat
  dp_reboot_limit :: time
  dp_reboot_poll :: time
  dp_wait_text :: string

text \<open>What reaches a device: an upload, or commands together with the grants in force while they run.\<close>

datatype deploy_event = Uploaded string string string | Sent string "grant list"

abbreviation MethodAuto :: string where "MethodAuto \<equiv> ''auto''"
abbreviation MethodAPI :: string where "MethodAPI \<equiv> ''api''"
abbreviation MethodTFTP :: string where "MethodTFTP \<equiv> ''tftp''"
abbreviation MethodFTP :: string where "MethodFTP \<equiv> ''ftp''"

definition pull_what :: "string \<Rightarrow> string \<Rightarrow> string" where
  "pull_what platform typ =
     (if platform = ''fortigate''
      then (if typ \<in> {''ips_db'', ''ips_engine'', ''appctrl_db'', ''botnet_db'', ''ot_db'', ''isdb''} then ''ips''
            else if typ \<in> {''av_db'', ''av_engine''} then ''av''
            else if typ = ''firmware'' then ''image'' else [])
      else if platform = ''fortiweb'' then (if typ = ''firmware'' then ''image'' else [])
      else [])"

definition pull_command ::
  "string \<Rightarrow> string \<Rightarrow> string \<Rightarrow> string \<Rightarrow> string \<Rightarrow> int \<Rightarrow> string \<Rightarrow> string \<Rightarrow> string" where
  "pull_command platform typ proto file server port user pass =
     (let what = pull_what platform typ
      in if what = [] then []
         else if proto = MethodFTP
         then ''execute restore '' @ what @ '' ftp '' @ file @ '' '' @ server @ '':'' @ show_int port @ '' '' @ user @ '' '' @ pass
         else ''execute restore '' @ what @ '' tftp '' @ file @ '' '' @ server)"

definition can_pull :: "deploy_env \<Rightarrow> driver \<Rightarrow> package \<Rightarrow> string \<Rightarrow> bool" where
  "can_pull E drv p proto =
     (case dp_files E of
        None \<Rightarrow> False
      | Some c \<Rightarrow>
          if as_cli drv = None then False
          else if proto = MethodTFTP \<and> \<not> tftp_enabled c \<or> proto = MethodFTP \<and> \<not> ftp_enabled c then False
          else pull_command (pm_platform (pk_meta p)) (pm_type (pk_meta p)) proto ''f'' ''s'' 21 ''u'' ''p'' \<noteq> [])"

definition quoted :: "string \<Rightarrow> string" where "quoted s = [CHR 0x22] @ s @ [CHR 0x22]"

definition plan :: "deploy_env \<Rightarrow> driver \<Rightarrow> package \<Rightarrow> string \<Rightarrow> string + string" where
  "plan E drv p method0 =
     (let method = (if method0 = [] then MethodAuto else method0); typ = pm_type (pk_meta p)
      in if method = MethodAPI
         then (if as_installer drv = None then Inl ''installing through the API needs a FortiGate with an API token'' else Inr MethodAPI)
         else if method = MethodTFTP \<or> method = MethodFTP
         then (if \<not> can_pull E drv p method
               then Inl (''pulling '' @ typ @ '' over '' @ to_upper method @ '' needs SSH access and the built-in '' @ to_upper method @ '' server'')
               else Inr method)
         else if method = MethodAuto
         then (if as_installer drv \<noteq> None then Inr MethodAPI
               else if can_pull E drv p MethodTFTP then Inr MethodTFTP
               else if can_pull E drv p MethodFTP then Inr MethodFTP
               else Inl (''no way to install '' @ typ @ '' on this device: add an API token or SSH credentials''))
         else Inl (''unknown install method '' @ quoted method))"

text \<open>\<open>strings.ReplaceAll\<close>, for the text it is used with: an empty one is between all bytes.\<close>

function replace_all :: "string \<Rightarrow> string \<Rightarrow> string \<Rightarrow> string" where
  "replace_all old new [] = (if old = [] then new else [])"
| "replace_all old new (c # cs) =
     (if old = [] then new @ c # replace_all old new cs
      else if starts_with old (c # cs) then new @ replace_all old new (drop (length old) (c # cs))
      else c # replace_all old new cs)"
  by pat_completeness auto
termination by (relation "measure (\<lambda>(old, new, s). length s)") auto

text \<open>\<open>install\<close>: the grants that are left, what reached the device, the output and the error.\<close>

type_synonym step_result = "grant list \<times> deploy_event list \<times> string \<times> string option"

definition newline :: string where "newline = [CHR 0x0A]"

definition pull_install ::
  "deploy_env \<Rightarrow> fsconfig \<Rightarrow> cli \<Rightarrow> grant_random \<Rightarrow> time \<Rightarrow> string \<Rightarrow> package \<Rightarrow> string \<Rightarrow> grant list \<Rightarrow> step_result" where
  "pull_install E c cli x now host p method reg =
     (let server = address_for (dp_route E) c host
      in if server = []
         then (reg, [], [], Some ''cannot tell which address the device should use to reach TaktaPlus; set TAKTAPLUS_FILESERVER_IP'')
         else (case add_grant (dp_net E) x now [(pk_file p, pk_sha p)] [host] (2 * hour) reg of
                 (reg1, g) \<Rightarrow>
                   (let cmd = pull_command (pm_platform (pk_meta p)) (pm_type (pk_meta p)) method (grant_name g (pk_sha p)) server
                                (ftp_port (dp_port E) c) (gr_user g) (gr_password g) @ newline @ ''y''
                    in case cli cmd of
                         (res, err) \<Rightarrow>
                           (revoke (grant.gr_id g) reg1, [Sent cmd reg1], replace_all (gr_password g) ''********'' res @ newline,
                            map_option err_text err))))"

definition install ::
  "deploy_env \<Rightarrow> grant_random \<Rightarrow> time \<Rightarrow> device \<Rightarrow> driver \<Rightarrow> package \<Rightarrow> string \<Rightarrow> repo \<Rightarrow> grant list \<Rightarrow> step_result" where
  "install E x now d drv p method0 R reg =
     (case plan E drv p method0 of
        Inl e \<Rightarrow> (reg, [], [], Some e)
      | Inr method \<Rightarrow>
          (let head = ''# installing '' @ pm_type (pk_meta p) @ '' '' @ pk_version p @ '' ('' @ pk_file p @ '') via '' @ method @ newline
           in if method = MethodAPI
              then (case as_installer drv of
                      None \<Rightarrow> (reg, [], head, Some [])
                    | Some ins \<Rightarrow>
                        (case open_stored (pk_sha p) R of
                           Inl e \<Rightarrow> (reg, [], head, Some (pkerror_text e))
                         | Inr content \<Rightarrow>
                             (reg, [Uploaded (pm_type (pk_meta p)) (pk_file p) content], head,
                              map_option err_text (ins (pm_type (pk_meta p)) (pk_file p) content))))
              else (case (dp_files E, as_cli drv) of
                      (Some c, Some cli) \<Rightarrow>
                        (case pull_install E c cli x now (d_host d) p method reg of (reg', ev, out, err) \<Rightarrow> (reg', ev, head @ out, err))
                    | _ \<Rightarrow> (reg, [], head, Some []))))"

text \<open>\<open>sameVersion\<close>: the parts agree up to leading zeros.\<close>

definition strip_zeros :: "string \<Rightarrow> string" where "strip_zeros = trim_left (\<lambda>c. c = CHR ''0'')"

definition same_version :: "string \<Rightarrow> string \<Rightarrow> bool" where
  "same_version a b = (map strip_zeros (split_char (CHR ''.'') a) = map strip_zeros (split_char (CHR ''.'') b))"

text \<open>
  \<open>verify\<close>: the answers of the device, one for each try, with the time they come at; an answer that is
  missing counts as an error of that try, and a cancelled change ends the wait before a try.
\<close>

datatype verify_answer = Cancelled string | Answer time "derror + signature list \<times> contract list"

definition verify_error :: "package \<Rightarrow> string" where
  "verify_error p = ''the device does not report version '' @ pk_version p @ '' after install''"

fun verify :: "nat \<Rightarrow> verify_answer list \<Rightarrow> int \<Rightarrow> package \<Rightarrow> inv \<Rightarrow> inv \<times> string \<times> string option" where
  "verify 0 answers did p I = (I, [], Some (verify_error p))"
| "verify (Suc tries) [] did p I = (I, [], Some (verify_error p))"
| "verify (Suc tries) (Cancelled e # answers) did p I = (I, [], Some e)"
| "verify (Suc tries) (Answer now (Inl e) # answers) did p I = verify tries answers did p I"
| "verify (Suc tries) (Answer now (Inr (sigs, contracts)) # answers) did p I =
     (let I1 = fst (save_signatures now did sigs contracts I)
      in case List.find (\<lambda>s. same_version (sg_version s) (pk_version p)) sigs of
           Some s \<Rightarrow> (I1, ''# verified: '' @ sg_name s @ '' reports '' @ sg_version s @ newline, None)
         | None \<Rightarrow> verify tries answers did p I1)"


subsection \<open>Signature deployments\<close>

record sigspec =
  ss_packages :: "string list"
  ss_latest :: "string list"
  ss_method :: string
  ss_verify :: bool

definition firmware_refused :: string where
  "firmware_refused = ''firmware is upgraded with a firmware change, not a signature deployment''"

text \<open>\<open>dec\<close> decodes the JSON of the change.\<close>

definition parse_spec :: "(string \<Rightarrow> sigspec option) \<Rightarrow> string \<Rightarrow> cerror + sigspec" where
  "parse_spec dec raw =
     (case dec raw of
        None \<Rightarrow> Inl (InvalidInput ''invalid deployment'')
      | Some s \<Rightarrow>
          if ss_packages s = [] \<and> ss_latest s = [] then Inl (InvalidInput ''choose packages or package types to install'')
          else if ''firmware'' \<in> set (ss_latest s) then Inl (InvalidInput firmware_refused)
          else Inr s)"

fun resolve_packages :: "mflib \<Rightarrow> repo \<Rightarrow> device \<Rightarrow> package list \<Rightarrow> string list \<Rightarrow> cerror + package list" where
  "resolve_packages M R d out [] = Inr out"
| "resolve_packages M R d out (sha # shas) =
     (case by_sha sha R of
        Inl e \<Rightarrow> Inl (InvalidInput (''package '' @ take 12 sha @ '' is not in the repository''))
      | Inr p \<Rightarrow>
          if pm_type (pk_meta p) = ''firmware'' then Inl (InvalidInput firmware_refused)
          else if compatible M p (d_kind d) (d_model d) (d_firmware d) then resolve_packages M R d (out @ [p]) shas
          else resolve_packages M R d out shas)"

fun resolve_latest :: "mflib \<Rightarrow> repo \<Rightarrow> device \<Rightarrow> package list \<Rightarrow> string list \<Rightarrow> package list" where
  "resolve_latest M R d out [] = out"
| "resolve_latest M R d out (typ # typs) =
     (case latest M (d_kind d) typ (d_model d) (d_firmware d) R of
        Inl e \<Rightarrow> resolve_latest M R d out typs
      | Inr p \<Rightarrow> if list_ex (\<lambda>x. pk_sha x = pk_sha p) out then resolve_latest M R d out typs
                 else resolve_latest M R d (out @ [p]) typs)"

definition resolve :: "mflib \<Rightarrow> repo \<Rightarrow> sigspec \<Rightarrow> device \<Rightarrow> cerror + package list" where
  "resolve M R s d =
     (case resolve_packages M R d [] (ss_packages s) of
        Inl e \<Rightarrow> Inl e
      | Inr out0 \<Rightarrow>
          (let out = resolve_latest M R d out0 (ss_latest s)
           in if out = [] then Inl (InvalidInput (''no compatible package for this device ('' @ d_kind d @ '' '' @ d_model d @
                                 '' v'' @ d_firmware d @ '')''))
              else Inr out))"

fun method_lines :: "deploy_env \<Rightarrow> driver \<Rightarrow> string \<Rightarrow> package list \<Rightarrow> string + string" where
  "method_lines E drv method0 [] = Inr []"
| "method_lines E drv method0 (p # ps) =
     (case plan E drv p method0 of
        Inl e \<Rightarrow> Inl e
      | Inr method \<Rightarrow>
          map_sum id (\<lambda>rest. pm_type (pk_meta p) @ '' '' @ pk_version p @ '' ('' @ pk_file p @ '') via '' @ method @ newline @ rest)
            (method_lines E drv method0 ps))"

definition signatures_preview ::
  "deploy_env \<Rightarrow> invenv \<Rightarrow> (string \<Rightarrow> sigspec option) \<Rightarrow> repo \<Rightarrow> string \<Rightarrow> device \<Rightarrow> cerror + string" where
  "signatures_preview E V dec R raw d =
     (case parse_spec dec raw of
        Inl e \<Rightarrow> Inl e
      | Inr s \<Rightarrow>
          (case resolve (dp_mf E) R s d of
             Inl e \<Rightarrow> Inl e
           | Inr ps \<Rightarrow>
               (case method_lines E (inv_driver V d) (ss_method s) ps of
                  Inl e \<Rightarrow> Inl (InvalidInput e)
                | Inr ls \<Rightarrow>
                    Inr (trim_space (ls @ (if ss_latest s \<noteq> []
                      then ''Newest compatible packages are chosen again when the change runs.'' @ newline else []))))))"

text \<open>
  A run: the grants and inventory it leaves, what reached the device, the output and the error.
  The random bytes, the time and the answers of each package's step are given in a list.
\<close>

record run_state =
  rr_grants :: "grant list"
  rr_inv :: inv
  rr_events :: "deploy_event list"
  rr_out :: string

record package_step =
  st_random :: grant_random
  st_now :: time
  st_answers :: "verify_answer list"

fun install_each ::
  "deploy_env \<Rightarrow> driver \<Rightarrow> repo \<Rightarrow> sigspec \<Rightarrow> device \<Rightarrow> (package \<times> package_step) list \<Rightarrow> run_state \<Rightarrow> run_state \<times> string option" where
  "install_each E drv R s d [] W = (W, None)"
| "install_each E drv R s d ((p, x) # ps) W =
     (case install E (st_random x) (st_now x) d drv p (ss_method s) R (rr_grants W) of
        (reg, ev, out, err) \<Rightarrow>
          (let W1 = W\<lparr>rr_grants := reg, rr_events := rr_events W @ ev, rr_out := rr_out W @ out\<rparr>
           in case err of
                Some e \<Rightarrow> (W1, Some (pm_type (pk_meta p) @ '' '' @ pk_version p @ '': '' @ e))
              | None \<Rightarrow>
                  if ss_verify s
                  then (case verify (dp_tries E) (st_answers x) (d_id d) p (rr_inv W1) of
                          (I, out2, err2) \<Rightarrow>
                            (let W2 = W1\<lparr>rr_inv := I, rr_out := rr_out W1 @ out2\<rparr>
                             in if err2 \<noteq> None then (W2, err2) else install_each E drv R s d ps W2))
                  else install_each E drv R s d ps W1))"

definition run_signatures ::
  "deploy_env \<Rightarrow> invenv \<Rightarrow> (string \<Rightarrow> sigspec option) \<Rightarrow> repo \<Rightarrow> string \<Rightarrow> device \<Rightarrow> (nat \<Rightarrow> package_step) \<Rightarrow> run_state \<Rightarrow>
     run_state \<times> string option" where
  "run_signatures E V dec R raw d steps W =
     (case parse_spec dec raw of
        Inl e \<Rightarrow> (W, Some (cerror_message e))
      | Inr s \<Rightarrow>
          (case resolve (dp_mf E) R s d of
             Inl e \<Rightarrow> (W, Some (cerror_message e))
           | Inr ps \<Rightarrow> install_each E (inv_driver V d) R s d (zip ps (map steps [0..<length ps])) W))"

subsection \<open>Firmware upgrades\<close>

record fwspec =
  fw_version :: string
  fw_method :: string
  fw_max_cpu :: rat
  fw_max_mem :: rat

definition parse_firmware :: "(string \<Rightarrow> fwspec option) \<Rightarrow> string \<Rightarrow> cerror + fwspec" where
  "parse_firmware dec raw =
     (case dec raw of
        None \<Rightarrow> Inl (InvalidInput ''choose the target firmware version'')
      | Some s \<Rightarrow>
          if trim_space (fw_version s) = [] then Inl (InvalidInput ''choose the target firmware version'')
          else Inr (s\<lparr>fw_version := trim_prefix ''v'' (trim_space (fw_version s)),
                     fw_max_cpu := (if fw_max_cpu s = 0 then 90 else fw_max_cpu s),
                     fw_max_mem := (if fw_max_mem s = 0 then 90 else fw_max_mem s)\<rparr>))"

definition firmware_images :: "mflib \<Rightarrow> repo \<Rightarrow> device \<Rightarrow> string \<Rightarrow> package list" where
  "firmware_images M R d target =
     filter (\<lambda>p. compatible M p (d_kind d) (d_model d) [] \<and> ml_compare M (pk_version p) (d_firmware d) > 0 \<and>
         ml_compare M (pk_version p) target \<le> 0)
       (list_packages (d_kind d) ''firmware'' False R)"

definition firmware_path :: "mflib \<Rightarrow> repo \<Rightarrow> device \<Rightarrow> string \<Rightarrow> cerror + package list" where
  "firmware_path M R d target =
     (if d_firmware d = [] then Inl (InvalidInput ''the device's firmware version is unknown; refresh the device first'')
      else if ml_compare M target (d_firmware d) \<le> 0
      then Inl (InvalidInput (''the device already runs '' @ d_firmware d @ ''; downgrades are not supported''))
      else (case search M (firmware_images M R d target) target [d_firmware d] [Root (d_firmware d)] of
              Some path \<Rightarrow> Inr path
            | None \<Rightarrow> Inl (InvalidInput (''no upgrade path from '' @ d_firmware d @ '' to '' @ target @ '' for '' @ d_model d @
                                     '' with the images in the repository''))))"

definition arrow :: string where "arrow = [CHR '' '', CHR 0xE2, CHR 0x86, CHR 0x92, CHR '' '']"

definition firmware_preview ::
  "deploy_env \<Rightarrow> invenv \<Rightarrow> (string \<Rightarrow> fwspec option) \<Rightarrow> repo \<Rightarrow> string \<Rightarrow> device \<Rightarrow> cerror + string" where
  "firmware_preview E V dec R raw d =
     (case parse_firmware dec raw of
        Inl e \<Rightarrow> Inl e
      | Inr s \<Rightarrow>
          (case firmware_path (dp_mf E) R d (fw_version s) of
             Inl e \<Rightarrow> Inl e
           | Inr path \<Rightarrow>
               (case method_lines E (inv_driver V d) (fw_method s) path of
                  Inl e \<Rightarrow> Inl (InvalidInput e)
                | Inr ls \<Rightarrow>
                    Inr (''Upgrade path: '' @ join arrow (d_firmware d # map pk_version path) @
                      (if d_ha_mode d \<noteq> [] \<and> d_ha_mode d \<noteq> ''standalone''
                       then newline @ ''HA cluster: FortiOS upgrades the other members itself; do not add them to the same change.''
                       else [])))))"

definition load_text :: "health \<Rightarrow> string" where
  "load_text h = ''CPU '' @ show_rounded (h_cpu h) @ ''%, memory '' @ show_rounded (h_mem h) @ ''%''"

definition precheck :: "invenv \<Rightarrow> device \<Rightarrow> fwspec \<Rightarrow> string + string" where
  "precheck V d s =
     (case driver_health (inv_driver V d) of
        Inl e \<Rightarrow> Inl (''pre-check: device is not reachable: '' @ err_text e)
      | Inr h \<Rightarrow>
          if h_cpu h > fw_max_cpu s \<or> h_mem h > fw_max_mem s then Inl (''pre-check: device is busy ('' @ load_text h @ '')'')
          else Inr (''# pre-check passed: '' @ load_text h @ newline))"

text \<open>
  The rounds of \<open>waitFor\<close>: each waits for the poll interval and probes, which takes some time, unless the
  change is cancelled. \<open>None\<close> means that the rounds given were not enough to reach the deadline.
\<close>

datatype wait_round = WaitCancelled string | Round invenv time

definition wait_error :: "deploy_env \<Rightarrow> string \<Rightarrow> string option \<Rightarrow> string" where
  "wait_error E version last_err =
     ''the device did not come back on '' @ version @ '' within '' @ dp_wait_text E @ '': '' @
     (case last_err of None \<Rightarrow> ''no answer'' | Some e \<Rightarrow> e)"

fun wait_for ::
  "'l licapi \<Rightarrow> deploy_env \<Rightarrow> 'l guard \<Rightarrow> int \<Rightarrow> string \<Rightarrow> time \<Rightarrow> time \<Rightarrow> string option \<Rightarrow> wait_round list \<Rightarrow> inv \<Rightarrow>
     (inv \<times> (string + device)) option" where
  "wait_for L E g did version deadline t last_err [] I =
     (if t < deadline then None else Some (I, Inl (wait_error E version last_err)))"
| "wait_for L E g did version deadline t last_err (r # rounds) I =
     (if t < deadline
      then (case r of
              WaitCancelled e \<Rightarrow> Some (I, Inl e)
            | Round V took \<Rightarrow>
                (case probe L V (t + dp_reboot_poll E) g did I of
                   (I1, Inl e) \<Rightarrow>
                     wait_for L E g did version deadline (t + dp_reboot_poll E + took) (Some (ierror_text e)) rounds I1
                 | (I1, Inr d) \<Rightarrow>
                     if same_version (d_firmware d) version then Some (I1, Inr d)
                     else wait_for L E g did version deadline (t + dp_reboot_poll E + took)
                            (Some (''device reports '' @ d_firmware d)) rounds I1))
      else Some (I, Inl (wait_error E version last_err)))"

record image_step =
  fs_env :: invenv
  fs_random :: grant_random
  fs_now :: time
  fs_rounds :: "wait_round list"

fun upgrade_each ::
  "'l licapi \<Rightarrow> deploy_env \<Rightarrow> 'l guard \<Rightarrow> repo \<Rightarrow> string \<Rightarrow> (package \<times> image_step) list \<Rightarrow> device \<Rightarrow> run_state \<Rightarrow>
     (run_state \<times> string option) option" where
  "upgrade_each L E g R method [] d W = Some (W, None)"
| "upgrade_each L E g R method ((img, x) # imgs) d W =
     (case install E (fs_random x) (fs_now x) d (inv_driver (fs_env x) d) img method R (rr_grants W) of
        (reg, ev, out, err) \<Rightarrow>
          (let W1 = W\<lparr>rr_grants := reg, rr_events := rr_events W @ ev, rr_out := rr_out W @ out\<rparr>
           in case err of
                Some e \<Rightarrow> Some (W1, Some (''image '' @ pk_version img @ '': '' @ e))
              | None \<Rightarrow>
                  (let W2 = W1\<lparr>rr_out := rr_out W1 @ ''# waiting for the device to restart on '' @ pk_version img @ newline\<rparr>
                   in case wait_for L E g (d_id d) (pk_version img) (fs_now x + dp_reboot_limit E) (fs_now x) None (fs_rounds x) (rr_inv W2) of
                        None \<Rightarrow> None
                      | Some (I, Inl e) \<Rightarrow> Some (W2\<lparr>rr_inv := I\<rparr>, Some e)
                      | Some (I, Inr d2) \<Rightarrow>
                          upgrade_each L E g R method imgs d2
                            (W2\<lparr>rr_inv := I, rr_out := rr_out W2 @ ''# device is back on '' @ d_firmware d2 @ '' build '' @ d_build d2 @ newline\<rparr>))))"

definition run_firmware ::
  "'l licapi \<Rightarrow> deploy_env \<Rightarrow> invenv \<Rightarrow> 'l guard \<Rightarrow> (string \<Rightarrow> fwspec option) \<Rightarrow> repo \<Rightarrow> string \<Rightarrow> device \<Rightarrow> (nat \<Rightarrow> image_step) \<Rightarrow>
     run_state \<Rightarrow> (run_state \<times> string option) option" where
  "run_firmware L E V g dec R raw d steps W =
     (case parse_firmware dec raw of
        Inl e \<Rightarrow> Some (W, Some (cerror_message e))
      | Inr s \<Rightarrow>
          (case firmware_path (dp_mf E) R d (fw_version s) of
             Inl e \<Rightarrow> Some (W, Some (cerror_message e))
           | Inr path \<Rightarrow>
               (case precheck V d s of
                  Inl e \<Rightarrow> Some (W, Some e)
                | Inr msg \<Rightarrow>
                    upgrade_each L E g R (fw_method s) (zip path (map steps [0..<length path])) d (W\<lparr>rr_out := rr_out W @ msg\<rparr>))))"


subsection \<open>What an installation does\<close>

text \<open>
  An event belongs to a package: the package's file was uploaded under its type and name, or commands
  that name it were sent while one grant, for that file and the device's address, was added.
\<close>

fun event_for :: "netlib \<Rightarrow> string \<Rightarrow> grant list \<Rightarrow> repo \<Rightarrow> package \<Rightarrow> deploy_event \<Rightarrow> bool" where
  "event_for N host reg R p (Uploaded typ f content) =
     (typ = pm_type (pk_meta p) \<and> f = pk_file p \<and> open_stored (pk_sha p) R = Inr content)"
| "event_for N host reg R p (Sent cmd gs) =
     (\<exists>g name pre post. set gs \<subseteq> insert g (set reg) \<and> gr_files g = [(name, pk_sha p)] \<and>
        gr_ips g = List.map_filter (nl_parse_ip N) [host] \<and> cmd = pre @ name @ post)"

lemma event_for_mono: "event_for N host reg R p ev \<Longrightarrow> set reg \<subseteq> set reg' \<Longrightarrow> event_for N host reg' R p ev"
  by (cases ev) fastforce+

lemma pull_command_names:
  assumes "pull_what platform typ \<noteq> []"
  shows "\<exists>pre post. pull_command platform typ proto f server port user pass = pre @ f @ post"
proof (cases "proto = MethodFTP")
  case True
  then have "pull_command platform typ proto f server port user pass =
      (''execute restore '' @ pull_what platform typ @ '' ftp '') @ f @ ('' '' @ server @ '':'' @ show_int port @ '' '' @ user @ '' '' @ pass)"
    using assms by (simp add: pull_command_def Let_def)
  then show ?thesis by blast
next
  case False
  then have "pull_command platform typ proto f server port user pass =
      (''execute restore '' @ pull_what platform typ @ '' tftp '') @ f @ ('' '' @ server)"
    using assms by (simp add: pull_command_def Let_def)
  then show ?thesis by blast
qed

lemma can_pull_what: "can_pull E drv p m \<Longrightarrow> pull_what (pm_platform (pk_meta p)) (pm_type (pk_meta p)) \<noteq> []"
  by (auto simp: can_pull_def pull_command_def split: option.splits if_splits)

lemma plan_pulls:
  assumes "plan E drv p m0 = Inr m" "m \<noteq> MethodAPI"
  shows "can_pull E drv p m"
  using assms by (auto simp: plan_def Let_def split: if_splits)

lemma plan_method: "plan E drv p m0 = Inr m \<Longrightarrow> m \<in> {MethodAPI, MethodTFTP, MethodFTP}"
  by (auto simp: plan_def Let_def split: if_splits)

lemma pull_install_result:
  assumes "pull_install E c cli x now host p m reg = (reg', ev, out, err)"
    and what: "pull_what (pm_platform (pk_meta p)) (pm_type (pk_meta p)) \<noteq> []"
  shows "set reg' \<subseteq> set reg \<and> list_all (event_for (dp_net E) host reg R p) ev \<and> length ev \<le> 1 \<and> (err = None \<longrightarrow> length ev = 1)"
proof (cases "address_for (dp_route E) c host = []")
  case True
  then show ?thesis using assms(1) by (auto simp: pull_install_def)
next
  case False
  let ?g = "make_grant (dp_net E) x now [(pk_file p, pk_sha p)] [host] (2 * hour)"
  let ?reg = "filter (\<lambda>h. grant.gr_id h \<noteq> grant.gr_id ?g) (gc_grants now reg) @ [?g]"
  let ?cmd = "pull_command (pm_platform (pk_meta p)) (pm_type (pk_meta p)) m (grant_name ?g (pk_sha p))
    (address_for (dp_route E) c host) (ftp_port (dp_port E) c) (gr_user ?g) (gr_password ?g) @ newline @ ''y''"
  have run: "reg' = revoke (grant.gr_id ?g) ?reg" "ev = [Sent ?cmd ?reg]"
    using assms(1) False by (auto simp: pull_install_def add_grant_def Let_def split: prod.splits)
  have "set reg' \<subseteq> set reg" unfolding run(1) by (auto simp: revoke_def gc_grants_def)
  moreover have "set ?reg \<subseteq> insert ?g (set reg)" by (auto simp: gc_grants_def)
  moreover have "gr_files ?g = [(grant_name ?g (pk_sha p), pk_sha p)]" by (simp add: make_grant_def grant_name_def)
  moreover have "gr_ips ?g = List.map_filter (nl_parse_ip (dp_net E)) [host]" by (simp add: make_grant_def)
  moreover have "\<exists>pre post. ?cmd = pre @ grant_name ?g (pk_sha p) @ post"
    using pull_command_names [OF what] by (metis append.assoc)
  ultimately show ?thesis unfolding run(2) by auto
qed

lemma install_result:
  assumes "install E x now d drv p m0 R reg = (reg', ev, out, err)"
  shows "set reg' \<subseteq> set reg" and "list_all (event_for (dp_net E) (d_host d) reg R p) ev" and "length ev \<le> 1"
    and "err = None \<Longrightarrow> length ev = 1"
proof -
  have "set reg' \<subseteq> set reg \<and> list_all (event_for (dp_net E) (d_host d) reg R p) ev \<and> length ev \<le> 1 \<and> (err = None \<longrightarrow> length ev = 1)"
  proof (cases "plan E drv p m0")
    case (Inl e)
    then show ?thesis using assms by (auto simp: install_def)
  next
    case (Inr m)
    show ?thesis
    proof (cases "m = MethodAPI")
      case True
      then show ?thesis using assms Inr by (auto simp: install_def Let_def split: option.splits sum.splits)
    next
      case False
      note what = can_pull_what [OF plan_pulls [OF Inr False]]
      show ?thesis
      proof (cases "dp_files E = None \<or> as_cli drv = None")
        case True
        then show ?thesis using assms Inr False by (auto simp: install_def Let_def split: option.splits)
      next
        case False
        then obtain c cli where c: "dp_files E = Some c" "as_cli drv = Some cli" by auto
        obtain reg1 ev1 out1 err1 where r: "pull_install E c cli x now (d_host d) p m reg = (reg1, ev1, out1, err1)"
          by (metis prod_cases4)
        from assms Inr \<open>m \<noteq> MethodAPI\<close> c r have "reg' = reg1" "ev = ev1" "err = err1" by (auto simp: install_def Let_def)
        then show ?thesis using pull_install_result [OF r what] by simp
      qed
    qed
  qed
  then show "set reg' \<subseteq> set reg" and "list_all (event_for (dp_net E) (d_host d) reg R p) ev" and "length ev \<le> 1"
    and "err = None \<Longrightarrow> length ev = 1" by blast+
qed

subsection \<open>Signature deployments send what fits\<close>

definition fits :: "mflib \<Rightarrow> repo \<Rightarrow> device \<Rightarrow> package \<Rightarrow> bool" where
  "fits M R d p = (p \<in> set (rp_rows R) \<and> pm_type (pk_meta p) \<noteq> ''firmware'' \<and> compatible M p (d_kind d) (d_model d) (d_firmware d))"

lemma resolve_packages_fit:
  "resolve_packages M R d out shas = Inr ps \<Longrightarrow> list_all (fits M R d) out \<Longrightarrow> list_all (fits M R d) ps"
proof (induction M R d out shas rule: resolve_packages.induct)
  case (2 M R d out sha shas)
  then show ?case by (auto simp: fits_def by_sha_def split: option.splits sum.splits if_splits dest: find_row_Some)
qed simp

lemma best_package_in: "best_package M b ps = Some p \<Longrightarrow> b = Some p \<or> p \<in> set ps"
  by (induction M b ps rule: best_package.induct) (auto split: option.splits if_splits)

lemma latest_offered:
  assumes "latest M platform typ model firmware R = Inr p"
  shows "offered M platform typ model firmware R p"
proof -
  have "p \<in> set (filter (\<lambda>p. compatible M p platform model firmware) (list_packages platform typ False R))"
    using assms by (auto simp only: latest_def sum.distinct sum.inject split: option.splits dest!: best_package_in)
  then show ?thesis by (simp only: offered_iff)
qed

lemma resolve_latest_fit:
  "list_all (fits M R d) out \<Longrightarrow> list_all (\<lambda>typ. typ \<noteq> [] \<and> typ \<noteq> ''firmware'') typs \<Longrightarrow>
     list_all (fits M R d) (resolve_latest M R d out typs)"
proof (induction M R d out typs rule: resolve_latest.induct)
  case (2 M R d out ty tys)
  show ?case
  proof (cases "latest M (d_kind d) ty (d_model d) (d_firmware d) R")
    case (Inl e)
    then show ?thesis using 2 by simp
  next
    case (Inr p)
    from latest_offered [OF this] 2(5) have "fits M R d p" by (auto simp: offered_def fits_def)
    then show ?thesis using 2 Inr by simp
  qed
qed simp

lemma resolve_fit:
  assumes "parse_spec dec raw = Inr s" "[] \<notin> set (ss_latest s)" "resolve M R s d = Inr ps"
  shows "list_all (fits M R d) ps"
proof -
  obtain out where out: "resolve_packages M R d [] (ss_packages s) = Inr out"
    using assms(3) by (cases "resolve_packages M R d [] (ss_packages s)") (auto simp: resolve_def)
  have "list_all (\<lambda>typ. typ \<noteq> [] \<and> typ \<noteq> ''firmware'') (ss_latest s)"
    using assms(1,2) by (auto simp: parse_spec_def list_all_iff split: option.splits if_splits)
  from resolve_latest_fit [OF resolve_packages_fit [OF out] this] assms(3) out show ?thesis
    by (auto simp: resolve_def Let_def split: if_splits)
qed

lemma install_each_events:
  assumes "install_each E drv R s d ps W = (W', err)" "list_all (P \<circ> fst) ps" "set (rr_grants W) \<subseteq> set reg"
    "list_all (\<lambda>ev. \<exists>p. P p \<and> event_for (dp_net E) (d_host d) reg R p ev) evs" "rr_events W = base @ evs"
  shows "set (rr_grants W') \<subseteq> set (rr_grants W) \<and>
     (\<exists>evs'. rr_events W' = base @ evs' \<and> list_all (\<lambda>ev. \<exists>p. P p \<and> event_for (dp_net E) (d_host d) reg R p ev) evs')"
  using assms
proof (induction ps arbitrary: W evs)
  case Nil
  then show ?case by auto
next
  case (Cons px ps)
  obtain p x where px: "px = (p, x)" by (cases px)
  obtain g1 ev out er where inst: "install E (st_random x) (st_now x) d drv p (ss_method s) R (rr_grants W) = (g1, ev, out, er)"
    by (metis prod_cases4)
  let ?W1 = "W\<lparr>rr_grants := g1, rr_events := rr_events W @ ev, rr_out := rr_out W @ out\<rparr>"
  let ?ok = "\<lambda>ev. \<exists>p. P p \<and> event_for (dp_net E) (d_host d) reg R p ev"
  note r = install_result [OF inst]
  have g: "set g1 \<subseteq> set (rr_grants W)" by (rule r(1))
  have "list_all ?ok ev"
    using r(2) Cons.prems(2,3) event_for_mono unfolding px by (fastforce simp: list_all_iff)
  then have evs: "list_all ?ok (evs @ ev)" using Cons.prems(4) by simp
  have rest: "set (rr_grants W') \<subseteq> set (rr_grants W) \<and> (\<exists>evs'. rr_events W' = base @ evs' \<and> list_all ?ok evs')"
    if "install_each E drv R s d ps W2 = (W', err)" "rr_grants W2 = g1" "rr_events W2 = rr_events W @ ev" for W2
    using Cons.IH [OF that(1), of "evs @ ev"] that(2,3) Cons.prems(2,3,5) evs g by force
  have stop: "set (rr_grants W') \<subseteq> set (rr_grants W) \<and> (\<exists>evs'. rr_events W' = base @ evs' \<and> list_all ?ok evs')"
    if "rr_grants W' = g1" "rr_events W' = rr_events W @ ev"
    using that g evs Cons.prems(5) by auto
  obtain I o2 e2 where v: "verify (dp_tries E) (st_answers x) (d_id d) p (rr_inv W) = (I, o2, e2)"
    by (metis prod_cases3)
  show ?case
  proof (cases "er \<noteq> None \<or> ss_verify s \<and> e2 \<noteq> None")
    case True
    then show ?thesis using Cons.prems(1) unfolding px
      by (intro stop) (auto simp: inst v Let_def split: option.splits)
  next
    case False
    let ?W2 = "if ss_verify s then ?W1\<lparr>rr_inv := I, rr_out := rr_out ?W1 @ o2\<rparr> else ?W1"
    have "install_each E drv R s d ps ?W2 = (W', err)"
      using Cons.prems(1) False unfolding px by (simp add: inst v Let_def split: if_splits)
    then show ?thesis by (rule rest) simp_all
  qed
qed



subsection \<open>Firmware upgrades follow the shortest path\<close>

definition usable :: "mflib \<Rightarrow> repo \<Rightarrow> device \<Rightarrow> string \<Rightarrow> package \<Rightarrow> bool" where
  "usable M R d target p =
     (offered M (d_kind d) ''firmware'' (d_model d) [] R p \<and> ml_compare M (pk_version p) (d_firmware d) > 0 \<and>
      ml_compare M (pk_version p) target \<le> 0)"

lemma firmware_images_set: "set (firmware_images M R d target) = set (filter (usable M R d target) (rp_rows R))"
  using offered_iff [of _ M "d_kind d" "d_model d" "[]" "''firmware''" R]
  by (auto simp: firmware_images_def usable_def offered_def)

lemma chain_cong: "set A = set B \<Longrightarrow> chain M A v ps w = chain M B v ps w"
  by (induction ps arbitrary: v) auto

lemma shortest_cong: "set A = set B \<Longrightarrow> shortest M A v ps w = shortest M B v ps w"
  using chain_cong [of A B M] by (simp add: shortest_def)

lemma firmware_path_correct:
  assumes "d_firmware d \<noteq> []" and "ml_compare M target (d_firmware d) > 0"
  shows "case firmware_path M R d target of
      Inr ps \<Rightarrow> shortest M (filter (usable M R d target) (rp_rows R)) (d_firmware d) ps target
    | Inl e \<Rightarrow> (\<nexists>ps. chain M (filter (usable M R d target) (rp_rows R)) (d_firmware d) ps target)"
proof (cases "search M (firmware_images M R d target) target [d_firmware d] [Root (d_firmware d)]")
  case None
  with search_from_root [where M = M and images = "firmware_images M R d target" and target = target and start = "d_firmware d"]
  have "\<nexists>ps. chain M (filter (usable M R d target) (rp_rows R)) (d_firmware d) ps target"
    by (simp add: chain_cong [OF firmware_images_set])
  with assms None show ?thesis by (simp add: firmware_path_def)
next
  case (Some ps)
  with search_from_root [where M = M and images = "firmware_images M R d target" and target = target and start = "d_firmware d"]
  have "shortest M (filter (usable M R d target) (rp_rows R)) (d_firmware d) ps target"
    by (simp only: option.case shortest_cong [OF firmware_images_set])
  with assms Some show ?thesis by (simp add: firmware_path_def)
qed

text \<open>
  C21: For a device whose firmware is known and older than the target, the path is a shortest chain of
  usable images, each newer than the version before it and able to upgrade from it, that ends in the
  target; and it is refused only when there is no such chain.
\<close>

theorem firmware_path_shortest:
  assumes "d_firmware d \<noteq> []" and "ml_compare M target (d_firmware d) > 0"
  shows "case firmware_path M R d target of
      Inr ps \<Rightarrow> shortest M (filter (usable M R d target) (rp_rows R)) (d_firmware d) ps target
    | Inl e \<Rightarrow> (\<nexists>ps. chain M (filter (usable M R d target) (rp_rows R)) (d_firmware d) ps target)"
  using assms by (rule firmware_path_correct)

lemma probe_row:
  assumes "probe L V clk g did I = (I1, Inr d)"
  shows "d_id d = did \<and> (\<exists>r. find_row d_id did (devices I1) = Some r \<and> d_firmware r = d_firmware d)"
proof -
  from assms have "get_device L V clk g I1 did = Inr d"
    by (auto simp: probe_def Let_def split: sum.splits if_splits)
  moreover from get_device_row [OF this] obtain r where "find_row d_id did (devices I1) = Some r" "scan L V clk g I1 r = Inr d" by blast
  moreover have "d_firmware r = d_firmware d" using calculation(3) by (auto simp: scan_def drow.defs split: sum.splits)
  ultimately show ?thesis using get_device_id by blast
qed

lemma wait_for_back:
  "wait_for L E g did version deadline t last_err rounds I = Some (I', Inr d) \<Longrightarrow>
     d_id d = did \<and> same_version (d_firmware d) version \<and>
     (\<exists>r. find_row d_id did (devices I') = Some r \<and> d_firmware r = d_firmware d)"
proof (induction rounds arbitrary: t last_err I)
  case (Cons r rounds)
  then show ?case
    using probe_row [of L _ "t + dp_reboot_poll E" g did I]
    by (cases r) (auto split: if_splits prod.splits sum.splits)
qed (simp split: if_splits)

lemma wait_for_ends:
  assumes "dp_reboot_poll E > 0"
  shows "deadline - t \<le> int (length rounds) * dp_reboot_poll E \<Longrightarrow> list_all (\<lambda>r. case r of Round V took \<Rightarrow> took \<ge> 0 | _ \<Rightarrow> True) rounds \<Longrightarrow>
     wait_for L E g did version deadline t last_err rounds I \<noteq> None"
proof (induction rounds arbitrary: t last_err I)
  case (Cons r rounds)
  then show ?case
  proof (cases r)
    case (Round V took)
    have "deadline - (t + dp_reboot_poll E + took) \<le> int (length rounds) * dp_reboot_poll E"
      using Cons.prems Round by (simp add: algebra_simps)
    from Cons.IH [OF this] Cons.prems(2) Round show ?thesis by (auto split: prod.splits sum.splits)
  qed simp
qed simp

lemma upgrade_each_events:
  assumes "upgrade_each L E g R method imgs d W = Some (W', None)" "set (rr_grants W) \<subseteq> set reg"
  shows "set (rr_grants W') \<subseteq> set (rr_grants W) \<and>
     (\<exists>evs. rr_events W' = rr_events W @ evs \<and>
        list_all2 (\<lambda>p ev. \<exists>host. event_for (dp_net E) host reg R p ev) (map fst imgs) evs) \<and>
     (imgs \<noteq> [] \<longrightarrow> (\<exists>r. find_row d_id (d_id d) (devices (rr_inv W')) = Some r \<and>
        same_version (d_firmware r) (pk_version (fst (last imgs)))))"
  using assms
proof (induction imgs arbitrary: d W)
  case Nil
  then show ?case by auto
next
  case (Cons px imgs)
  obtain p x where px: "px = (p, x)" by (cases px)
  obtain g1 ev out er where inst: "install E (fs_random x) (fs_now x) d (inv_driver (fs_env x) d) p method R (rr_grants W) = (g1, ev, out, er)"
    by (metis prod_cases4)
  note r = install_result [OF inst]
  have "er = None" using Cons.prems(1) unfolding px by (auto simp: inst Let_def split: option.splits)
  then obtain e where ev: "ev = [e]" using r(4) by (cases ev) auto
  have e: "event_for (dp_net E) (d_host d) reg R p e" using r(2) Cons.prems(2) unfolding ev by (auto intro: event_for_mono)
  let ?w = "wait_for L E g (d_id d) (pk_version p) (fs_now x + dp_reboot_limit E) (fs_now x) None (fs_rounds x) (rr_inv W)"
  obtain I d2 where w: "?w = Some (I, Inr d2)"
    using Cons.prems(1) \<open>er = None\<close> unfolding px by (auto simp: inst Let_def split: option.splits sum.splits)
  obtain W2 where step: "upgrade_each L E g R method imgs d2 W2 = Some (W', None)"
    and W2: "rr_grants W2 = g1" "rr_events W2 = rr_events W @ [e]" "rr_inv W2 = I"
    using Cons.prems(1) \<open>er = None\<close> unfolding px by (auto simp: inst ev w Let_def)
  have g: "set (rr_grants W2) \<subseteq> set reg" using r(1) Cons.prems(2) W2(1) by auto
  note seen = wait_for_back [OF w]
  note IH = Cons.IH [OF step g]
  obtain evs where evs: "rr_events W' = rr_events W @ e # evs"
    "list_all2 (\<lambda>p ev. \<exists>host. event_for (dp_net E) host reg R p ev) (map fst imgs) evs"
    using IH W2(2) by auto
  have last: "\<exists>r. find_row d_id (d_id d) (devices (rr_inv W')) = Some r \<and> same_version (d_firmware r) (pk_version (fst (last (px # imgs))))"
  proof (cases "imgs = []")
    case True
    then have "W' = W2" using step by simp
    then show ?thesis using seen True W2(3) by (auto simp: px)
  next
    case False
    then show ?thesis using IH seen by simp
  qed
  show ?case using IH W2(1) r(1) evs e last by (auto simp: px intro!: exI [of _ "e # evs"])
qed

lemma chain_last: "chain M images v ps w \<Longrightarrow> ps \<noteq> [] \<Longrightarrow> pk_version (last ps) = w"
  by (induction ps arbitrary: v) (auto split: if_splits)



subsection \<open>Examples\<close>

definition sample_image :: "string \<Rightarrow> string list \<Rightarrow> package" where
  "sample_image v from_versions =
     new_package (replicate (60 + length v) CHR ''0'' @ replicate (4 - length v) CHR ''1'') (v @ ''.out'') 3
       ((sample_meta v)\<lparr>pm_type := ''firmware'', pm_models := [''*''], pm_upgrade_from := from_versions\<rparr>) None ''upload'' False"

definition sample_images :: repo where
  "sample_images =
     (let imgs = [sample_image ''aa'' [''a''], sample_image ''aaa'' [''aa'', ''a''], sample_image ''aaaa'' [''aaa'', ''aa'']]
      in \<lparr>rp_rows = imgs, rp_next = 4, rp_files = map_of (map (\<lambda>p. (pk_sha p, pk_file p)) imgs)\<rparr>)"

definition sample_old :: device where
  "sample_old = (sample_device 1)\<lparr>d_firmware := ''a'', v_creds := no_creds\<lparr>cr_api_token := ''tok''\<rparr>\<rparr>"

theorem firmware_path_shortest_witness:
  "map_sum (\<lambda>_. ()) (map pk_version) (firmware_path sample_mf sample_images sample_old ''aaaa'') = Inr [''aaa'', ''aaaa''] \<and>
   (case firmware_path sample_mf sample_images sample_old ''aaaa'' of
      Inr ps \<Rightarrow> shortest sample_mf (filter (usable sample_mf sample_images sample_old ''aaaa'') (rp_rows sample_images)) ''a'' ps ''aaaa''
    | Inl e \<Rightarrow> False)"
proof -
  have fw: "d_firmware sample_old = ''a''" by (simp add: sample_old_def)
  have "map_sum (\<lambda>_. ()) (map pk_version) (firmware_path sample_mf sample_images sample_old ''aaaa'') = Inr [''aaa'', ''aaaa'']"
    by code_simp
  moreover have "ml_compare sample_mf ''aaaa'' ''a'' > 0" by (simp add: sample_mf_def)
  then have "case firmware_path sample_mf sample_images sample_old ''aaaa'' of
      Inr ps \<Rightarrow> shortest sample_mf (filter (usable sample_mf sample_images sample_old ''aaaa'') (rp_rows sample_images)) ''a'' ps ''aaaa''
    | Inl e \<Rightarrow> (\<nexists>ps. chain sample_mf (filter (usable sample_mf sample_images sample_old ''aaaa'') (rp_rows sample_images)) ''a'' ps ''aaaa'')"
    using firmware_path_shortest [of sample_old sample_mf "''aaaa''" sample_images] unfolding fw by simp
  ultimately show ?thesis by (auto split: sum.splits)
qed

definition sample_deploy :: deploy_env where
  "sample_deploy = \<lparr>dp_mf = sample_mf, dp_net = \<lparr>nl_split_host = (\<lambda>_. None), nl_parse_ip = Some, nl_to4 = (\<lambda>_. None)\<rparr>,
     dp_files = None, dp_route = (\<lambda>_. None), dp_port = (\<lambda>_. []), dp_tries = 6, dp_reboot_limit = 25 * minute,
     dp_reboot_poll = 30 * second, dp_wait_text = ''25m0s''\<rparr>"

text \<open>A device that answers with a given firmware version and is healthy.\<close>

definition sample_running :: "string \<Rightarrow> invenv" where
  "sample_running v =
     sample_env\<lparr>iv_transports := (iv_transports sample_env)\<lparr>new_gate := (\<lambda>_. FortiGateAPI
       (sample_ops\<lparr>op_probe := Inr \<lparr>in_serial = ''FGT1'', in_model = ''FG100F'', in_firmware = v, in_build = ''1'', in_hostname = ''fw'',
            in_ha_mode = ''standalone'', in_ha_peers = [], in_vdoms = [], in_fortimanager = False\<rparr>,
          op_health := Inr \<lparr>h_cpu = 10, h_mem = 30, h_disk = 0, h_sessions = 0, h_uptime = 0, h_interfaces = []\<rparr>\<rparr>)
       (\<lambda>_ _ _. None) (Inr []))\<rparr>\<rparr>"

definition sample_run :: run_state where
  "sample_run = \<lparr>rr_grants = [], rr_inv = sample_inv, rr_events = [], rr_out = []\<rparr>"

definition sample_random :: grant_random where
  "sample_random = \<lparr>gx_id = ''1'', gx_user = ''2'', gx_password = ''3'', gx_prefix = ''4''\<rparr>"

definition sample_upgrade :: "(run_state \<times> string option) option" where
  "sample_upgrade = run_firmware sample_lic sample_deploy (sample_running ''a'') sample_guard
     (\<lambda>raw. Some \<lparr>fw_version = raw, fw_method = [], fw_max_cpu = 0, fw_max_mem = 0\<rparr>) sample_images ''vaaaa'' sample_old
     (\<lambda>n. \<lparr>fs_env = sample_running ''a'', fs_random = sample_random, fs_now = 10,
          fs_rounds = [Round (sample_running ''a'') 0, Round (sample_running (if n = 0 then ''aaa'' else ''aaaa'')) 0]\<rparr>)
     sample_run"

lemma sample_order: "version_order sample_mf" by (simp add: version_order_def sample_mf_def)


definition sample_repo64 :: repo where
  "sample_repo64 =
     (let p = new_package (replicate 64 CHR ''a'') ''ips-1.pkg'' 3 (sample_meta ''1.0'') None ''upload'' False
      in \<lparr>rp_rows = [p, sample_image ''aaaa'' [''a'']], rp_next = 3, rp_files = (\<lambda>_. Some ''data'')\<rparr>)"

definition sample_fortigate :: device where "sample_fortigate = sample_old\<lparr>d_model := ''FortiGate-100F''\<rparr>"

abbreviation run_latest :: "string \<Rightarrow> run_state \<times> string option" where
  "run_latest typ \<equiv> run_signatures sample_deploy (sample_running ''a'')
     (\<lambda>raw. Some \<lparr>ss_packages = [], ss_latest = [raw], ss_method = [], ss_verify = False\<rparr>) sample_repo64 typ sample_fortigate
     (\<lambda>n. \<lparr>st_random = sample_random, st_now = 10, st_answers = []\<rparr>) sample_run"


text \<open>An empty entry of \<open>latest\<close> asks for the newest package of any type, firmware included.\<close>

lemma empty_type_deploys_firmware:
  "rr_events (fst (run_latest [])) = [Uploaded ''firmware'' ''aaaa.out'' ''data'']"
  by code_simp

text \<open>A package is taken as verified when a database of another type has its version.\<close>

lemma verified_by_another_database:
  "verify 1 [Answer 5 (Inr ([\<lparr>sg_name = ''av_db'', sg_version = ''1.0''\<rparr>], []))] 1
     (new_package ''x'' ''ips.pkg'' 3 (sample_meta ''1.0'') None ''upload'' False) I =
   (fst (save_signatures 5 1 [\<lparr>sg_name = ''av_db'', sg_version = ''1.0''\<rparr>] [] I), ''# verified: av_db reports 1.0'' @ newline, None)"
  by (simp add: same_version_def new_package_def sample_meta_def)

text \<open>A file name reaches the command line of the device as it is.\<close>

lemma file_name_unquoted:
  "pull_command ''fortigate'' ''ips_db'' MethodTFTP (a @ newline @ b) server port user pass =
     ''execute restore ips tftp '' @ a @ newline @ b @ '' '' @ server"
  by (simp add: pull_command_def pull_what_def)

end
