(* ===== verification/SmtpGateway.thy ===== *)
theory SmtpGateway
  imports Radius
begin

text \<open>
  The email-to-SMS gateway (\<open>internal/smtpgw/smtpgw.go\<close>): its settings, the devices that may connect,
  an SMTP session from \<open>MAIL\<close> to \<open>DATA\<close>, the delivery of a code within the license and the rate
  limit, the relay to the mail server, and the sync of FortiGate local users.

  The SMTP library, the parser of mails (\<open>net/mail\<close>, \<open>mime\<close>) and the connection to the mail server are
  parameters; addresses are read with the functions of \<open>radenv\<close>. A session belongs to one connection.
\<close>

subsection \<open>Settings\<close>

record smtpcfg =
  gc_domain :: string
  gc_relay_host :: string
  gc_relay_port :: int
  gc_relay_security :: string
  gc_relay_user :: string
  gc_relay_password :: string

definition default_smtpcfg :: smtpcfg where
  "default_smtpcfg = \<lparr>gc_domain = ''sms.taktaplus.local'', gc_relay_host = [], gc_relay_port = 25,
     gc_relay_security = ''starttls'', gc_relay_user = [], gc_relay_password = []\<rparr>"

definition smtp_redacted :: "smtpcfg \<Rightarrow> smtpcfg" where
  "smtp_redacted c = (if gc_relay_password c \<noteq> [] then c\<lparr>gc_relay_password := stars\<rparr> else c)"

definition save_smtp_config :: "smtpcfg \<Rightarrow> smtpcfg \<Rightarrow> string + smtpcfg" where
  "save_smtp_config old c0 =
     (let c = c0\<lparr>gc_relay_password := keep_secret (gc_relay_password old) (gc_relay_password c0),
                 gc_domain := to_lower (trim_space (gc_domain c0))\<rparr>
      in if gc_domain c = [] \<or> contains_any '' @/'' (gc_domain c)
         then Inl ''the gateway domain is required, e.g. sms.taktaplus.local''
         else Inr (if gc_relay_port c = 0 then c\<lparr>gc_relay_port := 25\<rparr> else c))"

interpretation smtp: redaction gc_relay_password smtp_redacted save_smtp_config
  by unfold_locales (auto simp: smtp_redacted_def save_smtp_config_def Let_def split: if_splits)

subsection \<open>State\<close>

text \<open>
  \<open>gw_users\<close> is the table of the synced FortiGate users; the two-factor component counts its devices and
  names, so that its own view of the table is taken from here. \<open>gw_devices\<close> and \<open>gw_loaded\<close> are the
  devices by address and the time they were read.
\<close>

record sms_user =
  su_device :: int
  su_username :: string
  su_mobile :: string
  su_seen :: time

record gateway =
  gw_otp :: otpdb
  gw_config :: "smtpcfg option"
  gw_users :: "sms_user list"
  gw_devices :: "string \<rightharpoonup> int"
  gw_loaded :: time

definition gw_cfg :: "gateway \<Rightarrow> smtpcfg" where "gw_cfg G = setting default_smtpcfg (gw_config G)"

definition save_gw_config :: "smtpcfg \<Rightarrow> gateway \<Rightarrow> (gateway, string, unit) outcome" where
  "save_gw_config c G =
     (case save_smtp_config (gw_cfg G) c of Inl e \<Rightarrow> (G, Inl e) | Inr c' \<Rightarrow> (G\<lparr>gw_config := Some c'\<rparr>, Inr ()))"

definition gw_view :: "gateway \<Rightarrow> otpdb" where
  "gw_view G = (gw_otp G)\<lparr>ot_fortigate := map (\<lambda>u. (su_device u, su_username u)) (gw_users G)\<rparr>"

subsection \<open>Who may connect\<close>

definition host_ips :: "radenv \<Rightarrow> string \<Rightarrow> string list" where
  "host_ips E host =
     List.map_filter (nl_parse_ip E)
       (if nl_parse_ip E host \<noteq> None then [host] else case rv_resolve E host of None \<Rightarrow> [] | Some rs \<Rightarrow> rs)"

definition device_addresses :: "radenv \<Rightarrow> device list \<Rightarrow> radrow list \<Rightarrow> (string \<rightharpoonup> int)" where
  "device_addresses E ds rows =
     fold (\<lambda>r m. case nl_parse_ip E (rr_source r) of None \<Rightarrow> m | Some ip \<Rightarrow> m(ip \<mapsto> rr_device r))
       (filter (\<lambda>r. rr_source r \<noteq> []) rows)
       (fold (\<lambda>d m. fold (\<lambda>ip m. m(ip \<mapsto> d_id d)) (host_ips E (d_host d)) m) ds Map.empty)"

text \<open>\<open>listed\<close> is what \<open>inventory.List\<close> returns, \<open>rows\<close> the table of RADIUS clients.\<close>

definition device_for ::
  "radenv \<Rightarrow> ierror + device list \<Rightarrow> radrow list \<Rightarrow> time \<Rightarrow> string \<Rightarrow> gateway \<Rightarrow> gateway \<times> int option" where
  "device_for E listed rows now addr G =
     (let host = (case nl_split_host E addr of None \<Rightarrow> addr | Some h \<Rightarrow> h);
          read = (\<lambda>G'. case nl_parse_ip E host of None \<Rightarrow> None | Some ip \<Rightarrow> gw_devices G' ip)
      in if now - gw_loaded G > minute
         then (case listed of
                 Inl e \<Rightarrow> (G, None)
               | Inr ds \<Rightarrow> (let G1 = G\<lparr>gw_devices := device_addresses E ds rows, gw_loaded := now\<rparr> in (G1, read G1)))
         else (G, read G))"

subsection \<open>Sessions\<close>

record smtp_session =
  se_device :: int
  se_cfg :: smtpcfg
  se_from :: string
  se_mobiles :: "string list"
  se_relay :: "string list"

text \<open>An answer of the server: a code with its text, or another error.\<close>

datatype smtp_error = SmtpError int string | SmtpOther string

definition new_smtp_session ::
  "radenv \<Rightarrow> ierror + device list \<Rightarrow> radrow list \<Rightarrow> time \<Rightarrow> string \<Rightarrow> gateway \<Rightarrow> (gateway, smtp_error, smtp_session) outcome" where
  "new_smtp_session E listed rows now addr G =
     (case device_for E listed rows now addr G of
        (G1, None) \<Rightarrow> (G1, Inl (SmtpError 554 ''not a registered device''))
      | (G1, Some dev) \<Rightarrow> (G1, Inr \<lparr>se_device = dev, se_cfg = gw_cfg G1, se_from = [], se_mobiles = [], se_relay = []\<rparr>))"

definition reset_smtp_session :: "smtp_session \<Rightarrow> smtp_session" where
  "reset_smtp_session s = s\<lparr>se_from := [], se_mobiles := [], se_relay := []\<rparr>"

definition mail_from :: "string \<Rightarrow> smtp_session \<Rightarrow> smtp_session" where "mail_from from_addr s = s\<lparr>se_from := from_addr\<rparr>"

definition rcpt :: "string \<Rightarrow> smtp_session \<Rightarrow> (smtp_session, smtp_error, unit) outcome" where
  "rcpt to s =
     (case cut (CHR ''@'') (to_lower (trim_space to)) of
        Some (local_part, domain) \<Rightarrow>
          if domain = gc_domain (se_cfg s)
          then (case normalize_mobile local_part of
                  None \<Rightarrow> (s, Inl (SmtpError 550 ''recipient is not a mobile number''))
                | Some m \<Rightarrow> (s\<lparr>se_mobiles := se_mobiles s @ [m]\<rparr>, Inr ()))
          else if gc_relay_host (se_cfg s) = [] then (s, Inl (SmtpError 550 ''relaying is not configured''))
          else (s\<lparr>se_relay := se_relay s @ [to]\<rparr>, Inr ())
      | None \<Rightarrow>
          if gc_relay_host (se_cfg s) = [] then (s, Inl (SmtpError 550 ''relaying is not configured''))
          else (s\<lparr>se_relay := se_relay s @ [to]\<rparr>, Inr ()))"

subsection \<open>Messages\<close>

text \<open>A parsed mail: its subject, its media type, the parts that could be read with their types, and its body.\<close>

record parsed_mail =
  pm_subject :: string
  pm_media :: string
  pm_parts :: "(string \<times> string) list"
  pm_body :: string

definition part_limit :: nat where "part_limit = 1048576"
definition mail_limit :: nat where "mail_limit = 10485760"

definition message_text :: "(string \<Rightarrow> parsed_mail option) \<Rightarrow> string \<Rightarrow> string" where
  "message_text parse raw =
     (case parse raw of
        None \<Rightarrow> raw
      | Some m \<Rightarrow>
          if starts_with ''multipart/'' (pm_media m)
          then (case List.find (\<lambda>(ct, b). starts_with ''text/plain'' ct) (pm_parts m) of
                  Some (ct, b) \<Rightarrow> pm_subject m @ [CHR 0x0A] @ take part_limit b
                | None \<Rightarrow> pm_subject m)
          else pm_subject m @ [CHR 0x0A] @ take part_limit (pm_body m))"

subsection \<open>Delivery\<close>

definition unknown_mobile :: string where "unknown_mobile = ''mobile is not registered for SMS two-factor''"

definition mobile_user :: "string \<Rightarrow> gateway \<Rightarrow> string option" where
  "mobile_user mobile G =
     (case find_row su_mobile mobile (gw_users G) of
        Some u \<Rightarrow> Some (su_username u)
      | None \<Rightarrow> map_option ou_username (List.find (\<lambda>u. ou_mobile u = mobile \<and> ou_active u) (ot_users (gw_otp G))))"

text \<open>\<open>cap\<close> is the license's capacity and \<open>P\<close> the SMS provider; a log entry needs a device that still exists.\<close>

definition set_messages :: "inv \<Rightarrow> int \<Rightarrow> message list \<Rightarrow> gateway \<Rightarrow> gateway" where
  "set_messages I dev ms G =
     G\<lparr>gw_otp := logged_messages I dev (gw_otp G) ((gw_otp G)\<lparr>ot_messages := ms\<rparr>)\<rparr>"

definition deliver ::
  "inv \<Rightarrow> int \<Rightarrow> provider \<Rightarrow> time \<Rightarrow> int \<Rightarrow> string \<Rightarrow> string \<Rightarrow> gateway \<Rightarrow> gateway \<times> string option" where
  "deliver I cap P now dev mobile code G =
     (let ms = ot_messages (gw_otp G);
          blocked = (\<lambda>name why. set_messages I dev (log_blocked now mobile ''gateway'' name (Some dev) why ms) G)
      in case mobile_user mobile G of
           None \<Rightarrow> (blocked [] unknown_mobile, Some unknown_mobile)
         | Some name \<Rightarrow>
             if otp_usage (gw_view G) > cap
             then (blocked name ''license capacity exceeded'', Some (oerror_text OtpCapacity))
             else if int (sent_since mobile (now - 10 * minute) ms) \<ge> op_max_sends (policy_of (gw_otp G))
             then (blocked name ''rate limit'', Some (oerror_text OtpRateLimited))
             else (case send_sms (setting default_sms (ot_sms_config (gw_otp G))) P now mobile code ''gateway'' name (Some dev) ms of
                     (ms', err) \<Rightarrow> (set_messages I dev ms' G, err)))"

fun deliver_all ::
  "inv \<Rightarrow> int \<Rightarrow> provider \<Rightarrow> time \<Rightarrow> int \<Rightarrow> string \<Rightarrow> string list \<Rightarrow> gateway \<Rightarrow> gateway \<times> string list" where
  "deliver_all I cap P now dev code [] G = (G, [])"
| "deliver_all I cap P now dev code (m # ms) G =
     (case deliver I cap P now dev m code G of
        (G1, err) \<Rightarrow>
          (case deliver_all I cap P now dev code ms G1 of
             (G2, failed) \<Rightarrow> (G2, (case err of None \<Rightarrow> [] | Some e \<Rightarrow> [m @ '': '' @ e]) @ failed)))"

text \<open>
  \<open>DATA\<close>: \<open>rd\<close> is what the connection delivers, or the error of reading it; the result has the relayed
  mail, if there was one.
\<close>

definition data ::
  "inv \<Rightarrow> int \<Rightarrow> provider \<Rightarrow> (string \<Rightarrow> parsed_mail option) \<Rightarrow> (smtpcfg \<Rightarrow> string \<Rightarrow> string list \<Rightarrow> string \<Rightarrow> string option) \<Rightarrow> time \<Rightarrow>
     smtp_session \<Rightarrow> string + string \<Rightarrow> gateway \<Rightarrow> gateway \<times> (string list \<times> string) option \<times> smtp_error option" where
  "data I cap P parse relay now s rd G =
     (case rd of
        Inl e \<Rightarrow> (G, None, Some (SmtpOther e))
      | Inr raw0 \<Rightarrow>
          (let raw = take mail_limit raw0;
               relayed = (if se_relay s = [] then None else Some (se_relay s, raw));
               refused = (if se_relay s = [] then None else relay (se_cfg s) (se_from s) (se_relay s) raw)
           in if refused \<noteq> None then (G, relayed, Some (SmtpError 451 ''relay failed''))
              else if se_mobiles s = [] then (G, relayed, None)
              else (let code = parse_code (message_text parse raw)
                    in if code = [] then (G, relayed, Some (SmtpError 550 ''no code found in the message''))
                       else (case deliver_all I cap P now (se_device s) code (se_mobiles s) G of
                               (G1, failed) \<Rightarrow>
                                 (G1, relayed, if failed = [] then None else Some (SmtpError 550 (join ''; '' failed)))))))"

subsection \<open>The relay\<close>

text \<open>
  A connection to the mail server: each operation is its error, if any. \<open>rl_tls\<close> and \<open>rl_plain\<close> dial.
\<close>

record relay_conn =
  rl_tls :: "string option"
  rl_plain :: "string option"
  rl_greet :: "string option"
  rl_starttls_offered :: bool
  rl_starttls :: "string option"
  rl_auth :: "string \<Rightarrow> string \<Rightarrow> string option"
  rl_mail :: "string \<Rightarrow> string option"
  rl_rcpt :: "string \<Rightarrow> string option"
  rl_data :: "string option"
  rl_write :: "string \<Rightarrow> string option"
  rl_close :: "string option"
  rl_quit :: "string option"

datatype relay_step = DialTLS | DialPlain | Greet | StartTLS | Auth string string | MailFrom string | RcptTo string | DataCmd | Write string | CloseData | Quit

fun relay_answer :: "relay_conn \<Rightarrow> relay_step \<Rightarrow> string option" where
  "relay_answer C DialTLS = rl_tls C"
| "relay_answer C DialPlain = rl_plain C"
| "relay_answer C Greet = rl_greet C"
| "relay_answer C StartTLS = rl_starttls C"
| "relay_answer C (Auth u p) = rl_auth C u p"
| "relay_answer C (MailFrom a) = rl_mail C a"
| "relay_answer C (RcptTo a) = rl_rcpt C a"
| "relay_answer C DataCmd = rl_data C"
| "relay_answer C (Write m) = rl_write C m"
| "relay_answer C CloseData = rl_close C"
| "relay_answer C Quit = rl_quit C"

fun run_relay :: "relay_conn \<Rightarrow> relay_step list \<Rightarrow> relay_step list \<times> string option" where
  "run_relay C [] = ([], None)"
| "run_relay C (x # xs) =
     (case relay_answer C x of
        Some e \<Rightarrow> ([x], Some e)
      | None \<Rightarrow> (case run_relay C xs of (done, err) \<Rightarrow> (x # done, err)))"

definition relay_plan :: "relay_conn \<Rightarrow> smtpcfg \<Rightarrow> string \<Rightarrow> string list \<Rightarrow> string \<Rightarrow> relay_step list" where
  "relay_plan C cfg from_addr to msg =
     [if gc_relay_security cfg = ''tls'' then DialTLS else DialPlain, Greet] @
     (if gc_relay_security cfg = ''starttls'' \<and> rl_starttls_offered C then [StartTLS] else []) @
     (if gc_relay_user cfg \<noteq> [] then [Auth (gc_relay_user cfg) (gc_relay_password cfg)] else []) @
     [MailFrom from_addr] @ map RcptTo to @ [DataCmd, Write msg, CloseData, Quit]"

definition relay_smtp :: "relay_conn \<Rightarrow> smtpcfg \<Rightarrow> string \<Rightarrow> string list \<Rightarrow> string \<Rightarrow> relay_step list \<times> string option" where
  "relay_smtp C cfg from_addr to msg = run_relay C (relay_plan C cfg from_addr to msg)"

subsection \<open>The sync of local users\<close>

text \<open>The inserts of one device; a name that is there already is skipped.\<close>

fun insert_sms_users :: "time \<Rightarrow> int \<Rightarrow> local_user list \<Rightarrow> sms_user list \<Rightarrow> sms_user list" where
  "insert_sms_users now dev [] us = us"
| "insert_sms_users now dev (l # ls) us =
     (if lu_two_factor l \<noteq> ''sms'' \<or> \<not> lu_enabled l then insert_sms_users now dev ls us
      else if list_ex (\<lambda>u. su_device u = dev \<and> su_username u = lu_name l) us then insert_sms_users now dev ls us
      else insert_sms_users now dev ls
             (us @ [\<lparr>su_device = dev, su_username = lu_name l,
                     su_mobile = (case normalize_mobile (lu_phone l) of None \<Rightarrow> [] | Some m \<Rightarrow> m), su_seen = now\<rparr>]))"

definition replace_sms_users :: "time \<Rightarrow> int \<Rightarrow> local_user list \<Rightarrow> sms_user list \<Rightarrow> sms_user list" where
  "replace_sms_users now dev ls us = insert_sms_users now dev ls (del_rows (\<lambda>u. su_device u = dev) us)"

fun sync_each :: "'l licapi \<Rightarrow> invenv \<Rightarrow> time \<Rightarrow> device list \<Rightarrow> sms_user list \<Rightarrow> sms_user list \<times> string list" where
  "sync_each L V now [] us = (us, [])"
| "sync_each L V now (d # ds) us =
     (if d_kind d \<noteq> KindFortiGate \<or> \<not> operational L d then sync_each L V now ds us
      else (case as_user_lister (inv_driver V d) of
              None \<Rightarrow> sync_each L V now ds us
            | Some (Inl e) \<Rightarrow>
                (case sync_each L V now ds us of (us', errs) \<Rightarrow> (us', (d_name d @ '': '' @ err_text e) # errs))
            | Some (Inr ls) \<Rightarrow> sync_each L V now ds (replace_sms_users now (d_id d) ls us)))"

definition sync_users ::
  "'l licapi \<Rightarrow> invenv \<Rightarrow> time \<Rightarrow> ierror + device list \<Rightarrow> gateway \<Rightarrow> gateway \<times> string list" where
  "sync_users L V now listed G =
     (case listed of
        Inl e \<Rightarrow> (G, [ierror_text e])
      | Inr ds \<Rightarrow> (case sync_each L V now ds (gw_users G) of (us, errs) \<Rightarrow> (G\<lparr>gw_users := us\<rparr>, errs)))"

definition sms_users :: "inv \<Rightarrow> gateway \<Rightarrow> (sms_user \<times> string) list" where
  "sms_users I G =
     sort_key (\<lambda>(u, n). (to_lower (su_username u), n))
       (List.map_filter (\<lambda>u. map_option (\<lambda>d. (u, d_name d)) (find_row d_id (su_device u) (devices I))) (gw_users G))"

definition smtp_fortigate_lines :: "string \<Rightarrow> int \<Rightarrow> string \<Rightarrow> string list" where
  "smtp_fortigate_lines server port domain =
     [''config system email-server'', ''    set server \"'' @ server @ ''\"'', ''    set port '' @ show_int port,
      ''    set security none'', ''end'', ''config system sms-server'', ''    edit \"TaktaPlus\"'',
      ''        set mail-server \"'' @ domain @ ''\"'', ''    next'', ''end'', ''# For each local user:'',
      ''# config user local'', ''#     edit \"<user>\"'', ''#         set two-factor sms'', ''#         set sms-server custom'',
      ''#         set sms-custom-server \"TaktaPlus\"'', ''#         set sms-phone \"09xxxxxxxxx\"'', ''#     next'', ''# end'']"

definition smtp_fortigate_config :: "string \<Rightarrow> int \<Rightarrow> gateway \<Rightarrow> string" where
  "smtp_fortigate_config server port G =
     join [CHR 0x0A] (smtp_fortigate_lines server (if port = 0 then 25 else port) (gc_domain (gw_cfg G)))"

subsection \<open>The table of users keeps its key\<close>

definition sms_keys :: "sms_user list \<Rightarrow> (int \<times> string) list" where
  "sms_keys us = map (\<lambda>u. (su_device u, su_username u)) us"

lemma insert_sms_users_keys: "distinct (sms_keys us) \<Longrightarrow> distinct (sms_keys (insert_sms_users now dev ls us))"
proof (induction now dev ls us rule: insert_sms_users.induct)
  case (2 now dev l ls us)
  show ?case
  proof (cases "list_ex (\<lambda>u. su_device u = dev \<and> su_username u = lu_name l) us")
    case True
    then show ?thesis using 2 by simp
  next
    case False
    then have "(dev, lu_name l) \<notin> set (sms_keys us)" by (auto simp: sms_keys_def list_ex_iff)
    then have "distinct (sms_keys (us @ [\<lparr>su_device = dev, su_username = lu_name l, su_mobile = m, su_seen = now\<rparr>]))" for m
      using 2(4) by (simp add: sms_keys_def)
    then show ?thesis using 2 False by simp
  qed
qed simp

lemma sync_each_keys: "distinct (sms_keys us) \<Longrightarrow> distinct (sms_keys (fst (sync_each L V now ds us)))"
proof (induction L V now ds us rule: sync_each.induct)
  case (2 L V now d ds us)
  have "distinct (sms_keys (del_rows (\<lambda>u. su_device u = d_id d) us))"
    using "2.prems" unfolding sms_keys_def del_rows_def by (rule distinct_map_filter)
  then have new: "distinct (sms_keys (replace_sms_users now (d_id d) ls us))" for ls
    unfolding replace_sms_users_def by (rule insert_sms_users_keys)
  show ?case using 2 new by (auto split: option.split sum.split prod.split)
qed simp

subsection \<open>Codes within the limits\<close>

datatype smtp_cmd = CmdMail string | CmdRcpt string | CmdReset

fun smtp_command :: "smtp_session \<Rightarrow> smtp_cmd \<Rightarrow> smtp_session" where
  "smtp_command s (CmdMail a) = mail_from a s"
| "smtp_command s (CmdRcpt a) = fst (rcpt a s)"
| "smtp_command s CmdReset = reset_smtp_session s"

definition smtp_session_ok :: "smtp_session \<Rightarrow> bool" where
  "smtp_session_ok s = (list_all (\<lambda>m. normalize_mobile m = Some m) (se_mobiles s) \<and> (se_relay s = [] \<or> gc_relay_host (se_cfg s) \<noteq> []))"

lemma smtp_command_ok: "smtp_session_ok s \<Longrightarrow> smtp_session_ok (smtp_command s c) \<and> se_device (smtp_command s c) = se_device s \<and> se_cfg (smtp_command s c) = se_cfg s"
  by (cases c) (auto simp: smtp_session_ok_def mail_from_def reset_smtp_session_def rcpt_def normalize_mobile_idem split: option.splits)

lemma smtp_commands_ok:
  "smtp_session_ok s \<Longrightarrow> smtp_session_ok (foldl smtp_command s cs) \<and> se_device (foldl smtp_command s cs) = se_device s \<and>
     se_cfg (foldl smtp_command s cs) = se_cfg s"
proof (induction cs arbitrary: s)
  case (Cons c cs)
  then show ?case using smtp_command_ok [of s c] by simp
qed simp

lemma new_session_ok: "new_smtp_session E listed rows t addr G = (G1, Inr s) \<Longrightarrow> smtp_session_ok s"
  by (auto simp: new_smtp_session_def smtp_session_ok_def split: prod.splits option.splits)

text \<open>An entry of the log that a delivery of the gateway may make.\<close>

definition entry_ok :: "gateway \<Rightarrow> int \<Rightarrow> int \<Rightarrow> message \<Rightarrow> bool" where
  "entry_ok G cap dev e =
     (ms_device e = Some dev \<and> ms_purpose e = ''gateway'' \<and>
      (ms_status e = ''sent'' \<longrightarrow> mobile_user (ms_mobile e) G \<noteq> None \<and> otp_usage (gw_view G) \<le> cap))"

definition rate_kept :: "gateway \<Rightarrow> time \<Rightarrow> string \<Rightarrow> gateway \<Rightarrow> bool" where
  "rate_kept G now m G' =
     (int (sent_since m (now - 10 * minute) (ot_messages (gw_otp G'))) \<le>
        max (int (sent_since m (now - 10 * minute) (ot_messages (gw_otp G)))) (op_max_sends (policy_of (gw_otp G))))"

text \<open>Deliveries change nothing but the log.\<close>

definition same_but_log :: "gateway \<Rightarrow> gateway \<Rightarrow> bool" where
  "same_but_log G G' = (\<exists>ms. G' = G\<lparr>gw_otp := (gw_otp G)\<lparr>ot_messages := ms\<rparr>\<rparr>)"

lemma same_but_log_facts:
  assumes "same_but_log G G'"
  shows "mobile_user m G' = mobile_user m G" "otp_usage (gw_view G') = otp_usage (gw_view G)" "policy_of (gw_otp G') = policy_of (gw_otp G)"
    "entry_ok G' cap dev e = entry_ok G cap dev e"
proof -
  obtain ms where G': "G' = G\<lparr>gw_otp := (gw_otp G)\<lparr>ot_messages := ms\<rparr>\<rparr>" using assms unfolding same_but_log_def by blast
  show m: "mobile_user m G' = mobile_user m G" for m by (simp add: G' mobile_user_def split: option.split)
  show u: "otp_usage (gw_view G') = otp_usage (gw_view G)"
    by (simp add: G' gw_view_def otp_usage_def active_named_def [abs_def])
  show "policy_of (gw_otp G') = policy_of (gw_otp G)" by (simp add: G' policy_of_def)
  show "entry_ok G' cap dev e = entry_ok G cap dev e" by (simp add: entry_ok_def m u)
qed

lemma same_but_log_trans: "same_but_log G G1 \<Longrightarrow> same_but_log G1 G2 \<Longrightarrow> same_but_log G G2"
proof -
  assume "same_but_log G G1" "same_but_log G1 G2"
  then obtain ms1 ms2 where "G1 = G\<lparr>gw_otp := (gw_otp G)\<lparr>ot_messages := ms1\<rparr>\<rparr>" "G2 = G1\<lparr>gw_otp := (gw_otp G1)\<lparr>ot_messages := ms2\<rparr>\<rparr>"
    unfolding same_but_log_def by blast
  then have "G2 = G\<lparr>gw_otp := (gw_otp G)\<lparr>ot_messages := ms2\<rparr>\<rparr>" by simp
  then show ?thesis unfolding same_but_log_def by blast
qed

lemma send_sms_entry:
  assumes "send_sms cfg P now mobile code purpose name dev ms = (ms', err)" "normalize_mobile mobile = Some mobile"
  shows "\<exists>e. ms' = ms @ [e] \<and> ms_mobile e = mobile \<and> ms_device e = dev \<and> ms_purpose e = purpose"
  using assms by (auto simp: send_sms_def log_sms_def split: if_splits sum.splits)

lemma sent_since_snoc: "sent_since m t (ms @ [e]) = sent_since m t ms + (if ms_mobile e = m \<and> ms_status e = ''sent'' \<and> ms_at e \<ge> t then 1 else 0)"
  by (simp add: sent_since_def count_rows_def)

lemma deliver_step:
  assumes "deliver I cap P now dev mobile code G = (G', err)" "normalize_mobile mobile = Some mobile" "device_known I dev"
  shows "same_but_log G G' \<and> rate_kept G now m G' \<and>
     (\<exists>e. ot_messages (gw_otp G') = ot_messages (gw_otp G) @ [e] \<and> entry_ok G cap dev e)"
proof -
  let ?ms = "ot_messages (gw_otp G)"
  have put: "set_messages I dev ms G = G\<lparr>gw_otp := (gw_otp G)\<lparr>ot_messages := ms\<rparr>\<rparr>" for ms
    using assms(3) by (simp add: set_messages_def logged_messages_def)
  have refused: "rate_kept G now m (set_messages I dev (log_blocked now mobile ''gateway'' name (Some dev) why ?ms) G) \<and>
      entry_ok G cap dev (last (log_blocked now mobile ''gateway'' name (Some dev) why ?ms)) \<and>
      log_blocked now mobile ''gateway'' name (Some dev) why ?ms = ?ms @ [last (log_blocked now mobile ''gateway'' name (Some dev) why ?ms)]" for name why
    by (simp add: put rate_kept_def log_blocked_def log_sms_def sent_since_snoc entry_ok_def)
  consider (blocked) name why where "G' = set_messages I dev (log_blocked now mobile ''gateway'' name (Some dev) why ?ms) G"
    | (sent) name ms' where "mobile_user mobile G = Some name" "otp_usage (gw_view G) \<le> cap"
        "int (sent_since mobile (now - 10 * minute) ?ms) < op_max_sends (policy_of (gw_otp G))"
        "send_sms (setting default_sms (ot_sms_config (gw_otp G))) P now mobile code ''gateway'' name (Some dev) ?ms = (ms', err)"
        "G' = set_messages I dev ms' G"
    using assms(1) by (auto simp: deliver_def Let_def not_le split: option.splits if_splits prod.splits)
  then show ?thesis
  proof cases
    case blocked
    let ?e = "last (log_blocked now mobile ''gateway'' name (Some dev) why ?ms)"
    have "same_but_log G G'" unfolding blocked put same_but_log_def by blast
    moreover have "ot_messages (gw_otp G') = ?ms @ [?e]" using refused [of name why] by (simp add: blocked put)
    ultimately show ?thesis using refused [of name why] unfolding blocked by blast
  next
    case (sent name ms')
    from send_sms_entry [OF sent(4) assms(2)] obtain e where e: "ms' = ?ms @ [e]" "ms_mobile e = mobile" "ms_device e = Some dev" "ms_purpose e = ''gateway''"
      by blast
    have "entry_ok G cap dev e" using e sent(1,2) by (simp add: entry_ok_def)
    moreover have "rate_kept G now m G'" using e sent(3) by (auto simp: sent(5) put rate_kept_def sent_since_snoc)
    moreover have "same_but_log G G'" unfolding sent(5) put same_but_log_def by blast
    moreover have "ot_messages (gw_otp G') = ?ms @ [e]" using e(1) by (simp add: sent(5) put)
    ultimately show ?thesis by blast
  qed
qed

lemma deliver_all_steps:
  assumes "deliver_all I cap P now dev code ms G = (G', failed)" "list_all (\<lambda>m. normalize_mobile m = Some m) ms" "device_known I dev"
  shows "same_but_log G G' \<and> rate_kept G now m G' \<and>
     (\<exists>new. ot_messages (gw_otp G') = ot_messages (gw_otp G) @ new \<and> list_all (entry_ok G cap dev) new)"
  using assms(1,2)
proof (induction ms arbitrary: G failed)
  case Nil
  then have "G' = G" by simp
  then show ?case by (auto simp: same_but_log_def rate_kept_def intro: exI [of _ "ot_messages (gw_otp G)"])
next
  case (Cons mob ms)
  obtain G1 err rest where step: "deliver I cap P now dev mob code G = (G1, err)" and more: "deliver_all I cap P now dev code ms G1 = (G', rest)"
    using Cons.prems(1) by (auto split: prod.splits)
  have one: "same_but_log G G1 \<and> rate_kept G now m G1 \<and> (\<exists>e. ot_messages (gw_otp G1) = ot_messages (gw_otp G) @ [e] \<and> entry_ok G cap dev e)"
    by (rule deliver_step [OF step _ assms(3)]) (use Cons.prems(2) in simp)
  have all: "same_but_log G1 G' \<and> rate_kept G1 now m G' \<and>
      (\<exists>new. ot_messages (gw_otp G') = ot_messages (gw_otp G1) @ new \<and> list_all (entry_ok G1 cap dev) new)"
    by (rule Cons.IH [OF more]) (use Cons.prems(2) in simp)
  note same = same_but_log_facts [OF conjunct1 [OF one]]
  have "rate_kept G now m G'" using one all same(3) by (auto simp: rate_kept_def)
  moreover have "same_but_log G G'" using one all same_but_log_trans by blast
  moreover obtain e new where "ot_messages (gw_otp G') = ot_messages (gw_otp G) @ (e # new)" "entry_ok G cap dev e" "list_all (entry_ok G1 cap dev) new"
    using one all by auto
  moreover have "entry_ok G1 cap dev = entry_ok G cap dev" using same(4) by blast
  ultimately show ?case by auto
qed

text \<open>
  C11: Whatever a connected device sends, a mail makes the gateway send codes only to mobiles of synced
  FortiGate users or active two-factor users, only while the license has room, and to no mobile more
  often than the policy allows within ten minutes; each attempt is in the log under the device, and
  mail for other domains leaves only when a mail server is configured.
\<close>

theorem gateway_within_limits:
  assumes "new_smtp_session E listed rows t addr G0 = (G1, Inr s0)" and "device_known I (se_device s0)"
    and "data I cap P parse relay now (foldl smtp_command s0 cmds) rd G = (G', relayed, err)"
  shows "device_for E listed rows t addr G0 = (G1, Some (se_device s0)) \<and>
     (\<exists>new. ot_messages (gw_otp G') = ot_messages (gw_otp G) @ new \<and> list_all (entry_ok G cap (se_device s0)) new) \<and>
     rate_kept G now m G' \<and> (relayed \<noteq> None \<longrightarrow> gc_relay_host (se_cfg s0) \<noteq> [])"
proof -
  let ?s = "foldl smtp_command s0 cmds"
  have ok: "smtp_session_ok ?s" "se_device ?s = se_device s0" "se_cfg ?s = se_cfg s0"
    using smtp_commands_ok [OF new_session_ok [OF assms(1)]] by auto
  have dev: "device_for E listed rows t addr G0 = (G1, Some (se_device s0))"
    using assms(1) by (auto simp: new_smtp_session_def split: prod.splits option.splits)
  have relay: "relayed \<noteq> None \<longrightarrow> gc_relay_host (se_cfg s0) \<noteq> []"
    using assms(3) ok by (auto simp: data_def smtp_session_ok_def Let_def split: sum.splits if_splits prod.splits)
  consider "G' = G" | code failed where "deliver_all I cap P now (se_device s0) code (se_mobiles ?s) G = (G', failed)"
    using assms(3) ok(2) by (auto simp: data_def Let_def split: sum.splits if_splits prod.splits)
  then show ?thesis
  proof cases
    case 1
    then show ?thesis using dev relay by (simp add: rate_kept_def)
  next
    case 2
    from deliver_all_steps [OF 2 _ assms(2)] ok(1) dev relay show ?thesis by (auto simp: smtp_session_ok_def)
  qed
qed

subsection \<open>Examples\<close>

definition sample_gateway :: gateway where
  "sample_gateway = \<lparr>gw_otp = sample_otp\<lparr>ot_sms_config := Some (default_sms\<lparr>sc_api_key := ''k'', sc_template := 7\<rparr>)\<rparr>,
     gw_config = None, gw_users = [\<lparr>su_device = 1, su_username = ''ali'', su_mobile = ''09121234567'', su_seen = 0\<rparr>],
     gw_devices = Map.empty, gw_loaded = 0\<rparr>"

definition sample_listed :: "ierror + device list" where
  "sample_listed = list_devices sample_lic sample_env 9 (new_guard ''pk'') sample_inv None []"

abbreviation sample_connect :: "(gateway, smtp_error, smtp_session) outcome" where
  "sample_connect \<equiv> new_smtp_session sample_radenv sample_listed [] (2 * minute) ''10.0.0.1'' sample_gateway"

definition sample_smtp_session :: smtp_session where
  "sample_smtp_session = \<lparr>se_device = 1, se_cfg = default_smtpcfg, se_from = [], se_mobiles = [], se_relay = []\<rparr>"

abbreviation sample_mail :: "gateway \<times> (string list \<times> string) option \<times> smtp_error option" where
  "sample_mail \<equiv> data sample_inv 5 (rw_sms sample_world) (\<lambda>_. None) (\<lambda>_ _ _ _. None) (3 * minute)
     (foldl smtp_command sample_smtp_session [CmdRcpt ''+989121234567@SMS.taktaplus.local'']) (Inr ''code 123456'') sample_gateway"

abbreviation sample_delivery :: "gateway \<times> string list" where
  "sample_delivery \<equiv> deliver_all sample_inv 5 (rw_sms sample_world) (3 * minute) 1 ''123456'' [''09121234567''] sample_gateway"

lemma sample_mail_eq: "sample_mail = (fst sample_delivery, None, if snd sample_delivery = [] then None else Some (SmtpError 550 (join ''; '' (snd sample_delivery))))"
proof -
  have s: "foldl smtp_command sample_smtp_session [CmdRcpt ''+989121234567@SMS.taktaplus.local''] = sample_smtp_session\<lparr>se_mobiles := [''09121234567'']\<rparr>"
    by code_simp
  have "take mail_limit ''code 123456'' = ''code 123456''" by (simp add: mail_limit_def)
  moreover have "parse_code ''code 123456'' = ''123456''" by code_simp
  ultimately show ?thesis unfolding s
    by (simp add: data_def Let_def message_text_def sample_smtp_session_def case_prod_unfold del: deliver_all.simps)
qed

theorem gateway_within_limits_witness:
  "\<exists>G1 G' new. sample_connect = (G1, Inr sample_smtp_session) \<and> sample_mail = (G', None, None) \<and>
     ot_messages (gw_otp G') = ot_messages (gw_otp sample_gateway) @ new \<and> map ms_status new = [''sent''] \<and>
     list_all (entry_ok sample_gateway 5 1) new"
proof -
  have "snd sample_connect = Inr sample_smtp_session" by code_simp
  then obtain G1 where s: "sample_connect = (G1, Inr sample_smtp_session)" by (metis prod.collapse)
  have one: "se_device sample_smtp_session = 1" by (simp add: sample_smtp_session_def)
  have known: "device_known sample_inv (se_device sample_smtp_session)" by code_simp
  have "map_prod (\<lambda>G. map ms_status (ot_messages (gw_otp G))) id sample_delivery = ([''sent''], [])" by code_simp
  then obtain G' where g: "sample_mail = (G', None, None)" and ms: "map ms_status (ot_messages (gw_otp G')) = [''sent'']"
    unfolding sample_mail_eq by (cases sample_delivery) auto
  have none: "ot_messages (gw_otp sample_gateway) = []" by (simp add: sample_gateway_def sample_otp_def)
  from gateway_within_limits [OF s known g] obtain new where
    new: "ot_messages (gw_otp G') = ot_messages (gw_otp sample_gateway) @ new" "list_all (entry_ok sample_gateway 5 1) new"
    unfolding one by blast
  have sent: "map ms_status new = [''sent'']" using ms unfolding new(1) none by simp
  show ?thesis by (intro exI conjI, rule s, rule g, rule new(1), rule sent, rule new(2))
qed

text \<open>
  The body of a mail is searched with its tags: the digits of a color are taken for the code.
\<close>

lemma html_digits_taken:
  "parse_code (message_text (\<lambda>raw. Some \<lparr>pm_subject = ''Token'', pm_media = ''text/html'', pm_parts = [], pm_body = raw\<rparr>)
     ''<font color=#112233>code: 445566</font>'') = ''112233''"
proof -
  have "parse_code (''Token'' @ [CHR 0x0A] @ ''<font color=#112233>code: 445566</font>'') = ''112233''" by code_simp
  then show ?thesis by (simp add: message_text_def part_limit_def)
qed

text \<open>A mail server that does not offer STARTTLS gets the mail in plain text, although \<open>starttls\<close> is set.\<close>

lemma relay_falls_back_to_plain:
  "gc_relay_security cfg = ''starttls'' \<Longrightarrow> gc_relay_user cfg = [] \<Longrightarrow> \<not> rl_starttls_offered C \<Longrightarrow>
     relay_plan C cfg a to msg = [DialPlain, Greet, MailFrom a] @ map RcptTo to @ [DataCmd, Write msg, CloseData, Quit]"
  by (simp add: relay_plan_def)

text \<open>A mail that is relayed and then refused for its code is relayed again when the device tries again.\<close>

lemma relayed_and_refused:
  assumes "se_relay s \<noteq> []" "se_mobiles s \<noteq> []" "relay (se_cfg s) (se_from s) (se_relay s) (take mail_limit raw) = None"
    "parse_code (message_text parse (take mail_limit raw)) = []"
  shows "data I cap P parse relay now s (Inr raw) G = (G, Some (se_relay s, take mail_limit raw), Some (SmtpError 550 ''no code found in the message''))"
  using assms by (simp add: data_def Let_def)

text \<open>Codes for a device that was deleted while it is still in the table of addresses are not counted.\<close>

lemma deleted_device_uncounted: "\<not> device_known I dev \<Longrightarrow> ot_messages (gw_otp (fst (deliver I cap P now dev mobile code G))) = ot_messages (gw_otp G)"
  by (auto simp: deliver_def Let_def set_messages_def logged_messages_def split: option.splits prod.splits)

end
