(* ===== verification/Regex.thy ===== *)
theory Regex
  imports ConfigText
begin

text \<open>
  Regular expressions as Go's package \<open>regexp\<close> matches them, for the expressions that read the output of
  a device: the leftmost match, and among those the one that a backtracking search finds first.

  \<open>matches\<close> lists all matches at a position in the order of that search, each with the texts of its
  groups. A position is the rest of the text and whether it is at the start of a line.
\<close>

datatype re =
    Cls "char \<Rightarrow> bool"
  | Bol
  | Eol
  | Seq re re
  | Alt re re
  | Opt bool re
  | Rep bool re
  | Grp nat re

type_synonym position = "bool \<times> string"
type_synonym groups = "(nat \<times> string) list"

text \<open>The flag of \<open>Opt\<close> and \<open>Rep\<close> is set when the operator is greedy.\<close>

function matches :: "re \<Rightarrow> position \<Rightarrow> (position \<times> groups) list" where
  "matches (Cls P) p = (case snd p of [] \<Rightarrow> [] | c # s \<Rightarrow> if P c then [((c = newline, s), [])] else [])"
| "matches Bol p = (if fst p then [(p, [])] else [])"
| "matches Eol p = (if snd p = [] \<or> hd (snd p) = newline then [(p, [])] else [])"
| "matches (Seq a b) p = concat (map (\<lambda>(q, c). map (\<lambda>(t, d). (t, c @ d)) (matches b q)) (matches a p))"
| "matches (Alt a b) p = matches a p @ matches b p"
| "matches (Opt greedy r) p = (if greedy then matches r p @ [(p, [])] else (p, []) # matches r p)"
| "matches (Rep greedy r) p =
     (let more = concat (map (\<lambda>(q, c). if length (snd q) < length (snd p) then map (\<lambda>(t, d). (t, c @ d)) (matches (Rep greedy r) q) else [])
                          (matches r p))
      in if greedy then more @ [(p, [])] else (p, []) # more)"
| "matches (Grp n r) p = map (\<lambda>(q, c). (q, (n, take (length (snd p) - length (snd q)) (snd p)) # c)) (matches r p)"
  by pat_completeness auto
termination
  by (relation "measures [\<lambda>(r, p). size r, \<lambda>(r, p). length (snd p)]") auto

declare matches.simps(7) [simp del]

text \<open>The leftmost match; a group without a match reads as the empty text.\<close>

fun re_find :: "re \<Rightarrow> bool \<Rightarrow> string \<Rightarrow> (position \<times> groups) option" where
  "re_find r b [] = (case matches r (b, []) of m # _ \<Rightarrow> Some m | [] \<Rightarrow> None)"
| "re_find r b (c # s) = (case matches r (b, c # s) of m # _ \<Rightarrow> Some m | [] \<Rightarrow> re_find r (c = newline) s)"

definition submatch :: "nat \<Rightarrow> groups \<Rightarrow> string" where
  "submatch n c = (case filter (\<lambda>x. fst x = n) c of [] \<Rightarrow> [] | x # xs \<Rightarrow> snd (last (x # xs)))"

definition find_groups :: "re \<Rightarrow> string \<Rightarrow> groups option" where "find_groups r s = map_option snd (re_find r True s)"

text \<open>All matches one after the other, for expressions that match no empty text.\<close>

function re_find_all :: "re \<Rightarrow> position \<Rightarrow> groups list" where
  "re_find_all r p =
     (case re_find r (fst p) (snd p) of
        None \<Rightarrow> []
      | Some (q, c) \<Rightarrow> c # (if length (snd q) < length (snd p) then re_find_all r q else []))"
  by pat_completeness auto
termination by (relation "measure (\<lambda>(r, p). length (snd p))") auto

declare re_find_all.simps [simp del]

subsection \<open>Notation for the expressions of the code\<close>

fun word_re :: "(char \<Rightarrow> char \<Rightarrow> bool) \<Rightarrow> string \<Rightarrow> re" where
  "word_re f [] = Opt True (Cls (\<lambda>_. False))"
| "word_re f [c] = Cls (f c)"
| "word_re f (c # d # s) = Seq (Cls (f c)) (word_re f (d # s))"

text \<open>\<open>(?i)\<close>: letters of either case, within ASCII.\<close>

abbreviation lit :: "string \<Rightarrow> re" where "lit \<equiv> word_re (=)"
abbreviation ilit :: "string \<Rightarrow> re" where "ilit \<equiv> word_re (\<lambda>c d. lower_char c = lower_char d)"
abbreviation plus1 :: "bool \<Rightarrow> re \<Rightarrow> re" where "plus1 g r \<equiv> Seq r (Rep g r)"
abbreviation digits1 :: re where "digits1 \<equiv> plus1 True (Cls is_digit)"
abbreviation spaces0 :: re where "spaces0 \<equiv> Rep True (Cls re_space)"
abbreviation spaces1 :: re where "spaces1 \<equiv> plus1 True (Cls re_space)"
abbreviation any_lazy :: re where "any_lazy \<equiv> Rep False (Cls (\<lambda>c. c \<noteq> newline))"

fun seq_re :: "re list \<Rightarrow> re" where
  "seq_re [] = Opt True (Cls (\<lambda>_. False))"
| "seq_re [r] = r"
| "seq_re (r # q # rs) = Seq r (seq_re (q # rs))"

fun alt_re :: "re list \<Rightarrow> re" where
  "alt_re [] = Cls (\<lambda>_. False)"
| "alt_re [r] = r"
| "alt_re (r # q # rs) = Alt r (alt_re (q # rs))"

subsection \<open>What matches\<close>

text \<open>The texts of an expression, without its assertions.\<close>

inductive has_text :: "re \<Rightarrow> string \<Rightarrow> bool" where
  "P c \<Longrightarrow> has_text (Cls P) [c]"
| "has_text Bol []"
| "has_text Eol []"
| "has_text a s \<Longrightarrow> has_text b t \<Longrightarrow> has_text (Seq a b) (s @ t)"
| "has_text a s \<Longrightarrow> has_text (Alt a b) s"
| "has_text b s \<Longrightarrow> has_text (Alt a b) s"
| "has_text (Opt g r) []"
| "has_text r s \<Longrightarrow> has_text (Opt g r) s"
| "has_text (Rep g r) []"
| "has_text r s \<Longrightarrow> has_text (Rep g r) t \<Longrightarrow> has_text (Rep g r) (s @ t)"
| "has_text r s \<Longrightarrow> has_text (Grp n r) s"

inductive_cases has_text_ClsE: "has_text (Cls P) s"

lemma matches_Rep:
  "m \<in> set (matches (Rep g r) p) \<longleftrightarrow> m = (p, []) \<or>
     (\<exists>q c t d. (q, c) \<in> set (matches r p) \<and> length (snd q) < length (snd p) \<and> (t, d) \<in> set (matches (Rep g r) q) \<and> m = (t, c @ d))"
  by (subst matches.simps(7)) (force simp: Let_def split: if_splits)

lemma matches_sound: "((b, t), c) \<in> set (matches r p) \<Longrightarrow> \<exists>w. snd p = w @ t \<and> has_text r w"
proof (induction r p arbitrary: b t c rule: matches.induct)
  case (4 a r' p)
  then obtain q d e where q: "(q, d) \<in> set (matches a p)" "((b, t), e) \<in> set (matches r' q)" by auto
  obtain b' s where q': "q = (b', s)" by (cases q)
  from 4(1) [of b' s d] q(1) q' obtain w where w: "snd p = w @ s" "has_text a w" by auto
  from 4(2) [OF q(1) refl, of b t e] q(2) q' obtain v where v: "s = v @ t" "has_text r' v" by auto
  from w v have "snd p = (w @ v) @ t" "has_text (Seq a r') (w @ v)" by (auto intro: has_text.intros)
  then show ?case by blast
next
  case (7 g r' p)
  then consider "t = snd p" | q d e where "(q, d) \<in> set (matches r' p)" "length (snd q) < length (snd p)" "((b, t), e) \<in> set (matches (Rep g r') q)"
    by (auto simp: matches_Rep [where m = "((b, t), c)"])
  then show ?case
  proof cases
    case 1
    then show ?thesis by (auto intro: has_text.intros)
  next
    case (2 q d e)
    obtain b' s where q': "q = (b', s)" by (cases q)
    from 7(1) [of b' s d] 2(1) q' obtain w where w: "snd p = w @ s" "has_text r' w" by auto
    from 7(2) [OF 2(1) refl 2(2), of b t e] 2(3) q' obtain v where v: "s = v @ t" "has_text (Rep g r') v" by auto
    from w v have "snd p = (w @ v) @ t" "has_text (Rep g r') (w @ v)" by (auto intro: has_text.intros)
    then show ?thesis by blast
  qed
next
  case (1 P p)
  then show ?case by (cases "snd p") (auto intro: has_text.intros(1) split: if_splits)
next
  case (2 p)
  then show ?case by (auto intro: has_text.intros(2) split: if_splits)
next
  case (3 p)
  then show ?case by (auto intro: has_text.intros(3) split: if_splits)
next
  case (5 a b' p)
  from 5(3) show ?case by (auto dest!: 5(1) 5(2) intro: has_text.intros(5,6))
next
  case (6 g r' p)
  from 6(3) show ?case by (auto dest!: 6(1) 6(2) intro: has_text.intros(7,8) split: if_splits)
next
  case (8 n r' p)
  from 8(2) show ?case by (auto dest!: 8(1) intro: has_text.intros(11))
qed

fun no_assertion :: "re \<Rightarrow> bool" where
  "no_assertion Bol = False"
| "no_assertion Eol = False"
| "no_assertion (Cls P) = True"
| "no_assertion (Seq a b) = (no_assertion a \<and> no_assertion b)"
| "no_assertion (Alt a b) = (no_assertion a \<and> no_assertion b)"
| "no_assertion (Opt g r) = no_assertion r"
| "no_assertion (Rep g r) = no_assertion r"
| "no_assertion (Grp n r) = no_assertion r"

lemma matches_complete: "has_text r w \<Longrightarrow> no_assertion r \<Longrightarrow> \<exists>b' c. ((b', t), c) \<in> set (matches r (b, w @ t))"
proof (induction arbitrary: b t rule: has_text.induct)
  case (4 a s b0 t0)
  from 4(3) [of "t0 @ t" b] 4(5) obtain b1 c1 where one: "((b1, t0 @ t), c1) \<in> set (matches a (b, s @ t0 @ t))" by auto
  from 4(4) [of t b1] 4(5) obtain b2 c2 where "((b2, t), c2) \<in> set (matches b0 (b1, t0 @ t))" by auto
  with one show ?case by force
next
  case (7 g r)
  then show ?case by (auto split: if_splits)
next
  case (8 r s g)
  from 8(2) [of t b] 8(3) obtain b1 c1 where "((b1, t), c1) \<in> set (matches r (b, s @ t))" by auto
  then show ?case by (cases g) auto
next
  case (9 g r)
  have "((b, t), []) \<in> set (matches (Rep g r) (b, t))" by (subst matches_Rep) simp
  then show ?case by auto
next
  case (10 r s g t0)
  from 10(5) have r: "no_assertion r" by simp
  show ?case
  proof (cases "s = []")
    case True
    then show ?thesis using 10 by simp
  next
    case False
    from 10(3) [OF r, of "t0 @ t" b] obtain b1 c1 where one: "((b1, t0 @ t), c1) \<in> set (matches r (b, s @ t0 @ t))" by auto
    from 10(4) 10(5) obtain b2 c2 where two: "((b2, t), c2) \<in> set (matches (Rep g r) (b1, t0 @ t))" by blast
    have "((b2, t), c1 @ c2) \<in> set (matches (Rep g r) (b, s @ t0 @ t))"
      by (subst matches_Rep) (use one two False in force)
    then show ?thesis by auto
  qed
next
  case (11 r s n)
  from 11(2) [of t b] 11(3) obtain b1 c1 where "((b1, t), c1) \<in> set (matches r (b, s @ t))" by auto
  then have "((b1, t), (n, s) # c1) \<in> set (matches (Grp n r) (b, s @ t))" by force
  then show ?case by blast
next
  case (5 a s b0)
  from 5(2) [of t b] 5(3) show ?case by auto
next
  case (6 b0 s a)
  from 6(2) [of t b] 6(3) show ?case by auto
qed auto

text \<open>A search finds something when some part of the text is a text of the expression.\<close>

lemma re_find_iff: "no_assertion r \<Longrightarrow> re_find r b s \<noteq> None \<longleftrightarrow> (\<exists>u w v. s = u @ w @ v \<and> has_text r w)"
proof (induction s arbitrary: b)
  case Nil
  then show ?case using matches_sound [of _ _ _ r "(b, [])"] matches_complete [of r "[]" "[]" b]
    by (cases "matches r (b, [])") fastforce+
next
  case (Cons c s)
  show ?case
  proof (cases "matches r (b, c # s)")
    case (Cons m ms)
    obtain b' t' g where m: "m = ((b', t'), g)" by (cases m) auto
    from matches_sound [of b' t' g r "(b, c # s)"] Cons m obtain w where "c # s = [] @ w @ t'" "has_text r w" by auto
    then have "\<exists>u w v. c # s = u @ w @ v \<and> has_text r w" by blast
    then show ?thesis using Cons by simp
  next
    case Nil
    have "\<not> (\<exists>w v. c # s = w @ v \<and> has_text r w)"
    proof
      assume "\<exists>w v. c # s = w @ v \<and> has_text r w"
      then obtain w v where "c # s = w @ v" "has_text r w" by blast
      with matches_complete [of r w v b] Cons.prems Nil show False by auto
    qed
    then have "(\<exists>u w v. c # s = u @ w @ v \<and> has_text r w) \<longleftrightarrow> (\<exists>u w v. s = u @ w @ v \<and> has_text r w)"
      by (metis append_Cons append_Nil list.sel(3) neq_Nil_conv)
    then show ?thesis using Nil Cons.IH [OF Cons.prems, of "c = newline"] by simp
  qed
qed

end
