(* ===== verification/Vendors.thy ===== *)
theory Vendors
  imports Regex Alerts Scripts Password
begin

text \<open>
  The three transports of a device: the FortiOS and FortiWeb REST interfaces (\<open>fortigate.go\<close>, \<open>fortiweb.go\<close>,
  \<open>httpclient.go\<close>, and the parts of \<open>cli.go\<close> that use them) and the CLI over SSH (\<open>ssh.go\<close>, \<open>cli.go\<close>).

  A device is what it answers: \<open>dlink\<close> has the HTTP answer to a request, and the result of a command and of
  a shell session. JSON is a datatype; the parser of its text and the conversions of numbers are in
  \<open>jsonlib\<close>. An object has a key once, and its entries an order, which a Go map does not have.
\<close>

subsection \<open>JSON\<close>

datatype json = JNull | JBool bool | JNum string | JStr string | JArr "json list" | JObj "(string \<times> json) list"

text \<open>\<open>js_mismatch\<close> is the message for a value of another type; \<open>js_date\<close> tries the layouts of an expiry date.\<close>

record jsonlib =
  js_parse :: "string \<Rightarrow> string + json"
  js_mismatch :: string
  js_float :: "string \<Rightarrow> rat option"
  js_show_float :: "rat \<Rightarrow> string"
  js_date :: "string \<Rightarrow> time option"

text \<open>Decoding into a variable of a Go type: a value that is missing or null leaves the zero value.\<close>

fun dec_string :: "json option \<Rightarrow> string option" where
  "dec_string None = Some []"
| "dec_string (Some JNull) = Some []"
| "dec_string (Some (JStr s)) = Some s"
| "dec_string (Some j) = None"

fun dec_bool :: "json option \<Rightarrow> bool option" where
  "dec_bool None = Some False"
| "dec_bool (Some JNull) = Some False"
| "dec_bool (Some (JBool b)) = Some b"
| "dec_bool (Some j) = None"

fun dec_list :: "json option \<Rightarrow> json list option" where
  "dec_list None = Some []"
| "dec_list (Some JNull) = Some []"
| "dec_list (Some (JArr l)) = Some l"
| "dec_list (Some j) = None"

fun dec_obj :: "json option \<Rightarrow> (string \<times> json) list option" where
  "dec_obj None = Some []"
| "dec_obj (Some JNull) = Some []"
| "dec_obj (Some (JObj l)) = Some l"
| "dec_obj (Some j) = None"

text \<open>\<open>num\<close>: a number or a text with one; anything else reads as zero.\<close>

definition num_text :: "jsonlib \<Rightarrow> string \<Rightarrow> rat" where
  "num_text J s =
     (if s = [] \<or> s = ''null'' then 0 else case js_float J (trim_suffix ''%'' s) of None \<Rightarrow> 0 | Some f \<Rightarrow> f)"

fun dec_num :: "jsonlib \<Rightarrow> json option \<Rightarrow> rat" where
  "dec_num J (Some (JNum s)) = num_text J s"
| "dec_num J (Some (JStr s)) = num_text J s"
| "dec_num J _ = 0"

text \<open>A field of a struct matches its key in any case; a key of a map only as it is.\<close>

definition field :: "(string \<times> json) list \<Rightarrow> string \<Rightarrow> json option" where
  "field kvs name = map_option snd (List.find (\<lambda>(k, v). to_lower k = to_lower name) kvs)"

definition all_some :: "('a \<Rightarrow> 'b option) \<Rightarrow> 'a list \<Rightarrow> 'b list option" where
  "all_some f xs = (if list_ex (\<lambda>x. f x = None) xs then None else Some (List.map_filter f xs))"

subsection \<open>HTTP\<close>

text \<open>
  \<open>dl_http\<close>: method, path and the fields of the body give a failure of the connection or a status with what could be read.
  \<open>dl_exec\<close>: a command gives a failure before it runs, or its output with an error and whether that
  is only the command's exit status. \<open>dl_shell\<close>: the lines sent to a shell, in the same way.
\<close>

record dlink =
  dl_http :: "string \<Rightarrow> string \<Rightarrow> (string \<times> string) list option \<Rightarrow> derror + int \<times> string"
  dl_upload :: "string \<Rightarrow> string \<Rightarrow> string \<Rightarrow> derror + int \<times> string"
  dl_exec :: "string \<Rightarrow> derror + string \<times> (bool \<times> derror) option"
  dl_shell :: "string list \<Rightarrow> derror + string \<times> (bool \<times> derror) option"

definition max_answer :: nat where "max_answer = 64 * 2 ^ 20"

definition rest_do :: "dlink \<Rightarrow> string \<Rightarrow> string \<Rightarrow> (string \<times> string) list option \<Rightarrow> derror + string" where
  "rest_do D meth path body =
     (case dl_http D meth path body of
        Inl e \<Rightarrow> Inl e
      | Inr (status, data0) \<Rightarrow>
          (let data = take max_answer data0
           in if status div 100 \<noteq> 2 then Inl (HTTPError status (take 300 data)) else Inr data))"

definition get_json :: "jsonlib \<Rightarrow> dlink \<Rightarrow> (json \<Rightarrow> 'a option) \<Rightarrow> string \<Rightarrow> derror + 'a" where
  "get_json J D dec path =
     (let bad = (\<lambda>m. Inl (Wrapped (''device API '' @ path @ '': unexpected response: '') (PlainError m)))
      in case rest_do D ''GET'' path None of
           Inl e \<Rightarrow> Inl e
         | Inr data \<Rightarrow>
             (case js_parse J data of
                Inl m \<Rightarrow> bad m
              | Inr j \<Rightarrow> (case dec j of None \<Rightarrow> bad (js_mismatch J) | Some x \<Rightarrow> Inr x)))"

text \<open>A certificate is pinned by its hash; \<open>sha\<close> gives the 32 bytes.\<close>

definition hex_digit :: "char \<Rightarrow> nat option" where
  "hex_digit c =
     (let n = of_char c in
      if is_digit c then Some (n - 48) else if 97 \<le> n \<and> n \<le> 102 then Some (n - 87) else if 65 \<le> n \<and> n \<le> 70 then Some (n - 55) else None)"

fun hex_decode :: "string \<Rightarrow> string" where
  "hex_decode (a # b # s) =
     (case (hex_digit a, hex_digit b) of (Some x, Some y) \<Rightarrow> char_of (16 * x + y) # hex_decode s | _ \<Rightarrow> [])"
| "hex_decode _ = []"

definition hex_char :: "nat \<Rightarrow> char" where "hex_char n = (if n < 10 then char_of (48 + n) else char_of (87 + n))"

fun hex_encode :: "string \<Rightarrow> string" where
  "hex_encode [] = []"
| "hex_encode (c # s) = hex_char (of_char c div 16) # hex_char (of_char c mod 16) # hex_encode s"

definition verify_pin :: "(string \<Rightarrow> string) \<Rightarrow> string \<Rightarrow> string list \<Rightarrow> derror option" where
  "verify_pin sha pin certs =
     (let want = hex_decode (filter (\<lambda>c. c \<noteq> CHR '':'') (to_lower pin))
      in case certs of
           [] \<Rightarrow> Some (PlainError ''device presented no certificate'')
         | cert # _ \<Rightarrow> if want \<noteq> sha cert then Some (CertMismatch (hex_encode (sha cert))) else None)"

definition fetch_certificate :: "(string \<Rightarrow> string) \<Rightarrow> derror + string list \<Rightarrow> derror + string" where
  "fetch_certificate sha dial =
     (case dial of
        Inl e \<Rightarrow> Inl e
      | Inr [] \<Rightarrow> Inl (PlainError ''device presented no certificate'')
      | Inr (cert # _) \<Rightarrow> Inr (hex_encode (sha cert)))"

subsection \<open>FortiGate\<close>

text \<open>The envelope of FortiOS: \<open>dec\<close> decodes the results.\<close>

record 'a envelope =
  ev_results :: 'a
  ev_serial_no :: string
  ev_version :: string
  ev_build :: rat

definition dec_envelope :: "jsonlib \<Rightarrow> (json option \<Rightarrow> 'a option) \<Rightarrow> json \<Rightarrow> 'a envelope option" where
  "dec_envelope J dec j =
     (case dec_obj (Some j) of
        None \<Rightarrow> None
      | Some kvs \<Rightarrow>
          (case (dec (field kvs ''results''), dec_string (field kvs ''serial''), dec_string (field kvs ''version''), dec_string (field kvs ''status'')) of
             (Some x, Some s, Some v, Some _) \<Rightarrow>
               Some \<lparr>ev_results = x, ev_serial_no = s, ev_version = v, ev_build = dec_num J (field kvs ''build'')\<rparr>
           | _ \<Rightarrow> None))"

definition dec_struct :: "((string \<Rightarrow> json option) \<Rightarrow> 'a option) \<Rightarrow> json option \<Rightarrow> 'a option" where
  "dec_struct f j = (case dec_obj j of None \<Rightarrow> None | Some kvs \<Rightarrow> f (field kvs))"

text \<open>\<open>objectOrFirst\<close>: an object, or the first of a list of them.\<close>

fun dec_first :: "(json option \<Rightarrow> 'a option) \<Rightarrow> json option \<Rightarrow> 'a option" where
  "dec_first dec (Some (JArr l)) =
     (case all_some (\<lambda>j. dec (Some j)) l of None \<Rightarrow> None | Some [] \<Rightarrow> dec None | Some (x # _) \<Rightarrow> Some x)"
| "dec_first dec j = dec j"

definition gate_get :: "jsonlib \<Rightarrow> dlink \<Rightarrow> (json option \<Rightarrow> 'a option) \<Rightarrow> string \<Rightarrow> derror + 'a envelope" where
  "gate_get J D dec path = get_json J D (dec_envelope J dec) path"

record gate_status =
  gs_model :: string
  gs_number :: string
  gs_hostname :: string

definition dec_gate_status :: "json option \<Rightarrow> gate_status option" where
  "dec_gate_status = dec_struct (\<lambda>f.
     case (dec_string (f ''model''), dec_string (f ''model_name''), dec_string (f ''model_number''), dec_string (f ''hostname'')) of
       (Some m, Some _, Some n, Some h) \<Rightarrow> Some \<lparr>gs_model = m, gs_number = n, gs_hostname = h\<rparr>
     | _ \<Rightarrow> None)"

definition gate_ha_mode :: "jsonlib \<Rightarrow> dlink \<Rightarrow> string" where
  "gate_ha_mode J D =
     (case gate_get J D (dec_first (dec_struct (\<lambda>f. dec_string (f ''mode'')))) ''/api/v2/cmdb/system/ha'' of
        Inl e \<Rightarrow> ''standalone'' | Inr ha \<Rightarrow> if ev_results ha \<noteq> [] then ev_results ha else ''standalone'')"

definition dec_list_of :: "(json option \<Rightarrow> 'a option) \<Rightarrow> json option \<Rightarrow> 'a list option" where
  "dec_list_of dec j = (case dec_list j of None \<Rightarrow> None | Some l \<Rightarrow> all_some (\<lambda>x. dec (Some x)) l)"

definition gate_peers :: "jsonlib \<Rightarrow> dlink \<Rightarrow> string \<Rightarrow> string list" where
  "gate_peers J D serial =
     (case gate_get J D (dec_list_of (dec_struct (\<lambda>f. dec_string (f ''serial_no'')))) ''/api/v2/monitor/system/ha-peer'' of
        Inl e \<Rightarrow> [] | Inr peers \<Rightarrow> filter (\<lambda>s. s \<noteq> [] \<and> s \<noteq> serial) (ev_results peers))"

definition gate_vdoms :: "jsonlib \<Rightarrow> dlink \<Rightarrow> string list" where
  "gate_vdoms J D =
     (case gate_get J D (dec_list_of (dec_struct (\<lambda>f. dec_string (f ''name'')))) ''/api/v2/cmdb/system/vdom'' of
        Inl e \<Rightarrow> [] | Inr v \<Rightarrow> ev_results v)"

definition trim_quotes :: "string \<Rightarrow> string" where
  "trim_quotes s = trim_right (\<lambda>c. c = CHR 0x22 \<or> c = CHR '' '') (trim_left (\<lambda>c. c = CHR 0x22 \<or> c = CHR '' '') s)"

definition gate_managed :: "jsonlib \<Rightarrow> dlink \<Rightarrow> bool" where
  "gate_managed J D =
     (case gate_get J D
             (dec_first (dec_struct (\<lambda>f. case (dec_string (f ''type''), dec_string (f ''fmg'')) of (Some t, Some g) \<Rightarrow> Some (t, g) | _ \<Rightarrow> None)))
             ''/api/v2/cmdb/system/central-management'' of
        Inl e \<Rightarrow> False | Inr cm \<Rightarrow> fst (ev_results cm) = ''fortimanager'' \<and> trim_quotes (snd (ev_results cm)) \<noteq> [])"

text \<open>All but the status is best effort: an API profile may not grant every scope.\<close>

definition gate_probe :: "jsonlib \<Rightarrow> dlink \<Rightarrow> derror + info" where
  "gate_probe J D =
     (case gate_get J D dec_gate_status ''/api/v2/monitor/system/status'' of
        Inl e \<Rightarrow> Inl e
      | Inr st \<Rightarrow>
          (let r = ev_results st; ha = gate_ha_mode J D
           in Inr \<lparr>in_serial = ev_serial_no st,
                in_model = (if gs_model r = [] \<and> gs_number r \<noteq> [] then ''FG'' @ gs_number r else gs_model r),
                in_firmware = trim_prefix ''v'' (ev_version st),
                in_build = (if ev_build st > 0 then show_int (truncated (ev_build st)) else []),
                in_hostname = gs_hostname r, in_ha_mode = ha,
                in_ha_peers = (if ha \<noteq> ''standalone'' then gate_peers J D (ev_serial_no st) else []),
                in_vdoms = gate_vdoms J D, in_fortimanager = gate_managed J D\<rparr>))"

definition dec_usage :: "jsonlib \<Rightarrow> json option \<Rightarrow> (string \<times> rat list) list option" where
  "dec_usage J j =
     (case dec_obj j of
        None \<Rightarrow> None
      | Some kvs \<Rightarrow>
          all_some (\<lambda>(k, v). map_option (Pair k) (dec_list_of (dec_struct (\<lambda>f. Some (dec_num J (f ''current'')))) (Some v))) kvs)"

definition current :: "(string \<times> rat list) list \<Rightarrow> string \<Rightarrow> rat option" where
  "current samples name = (case map_of samples name of Some (x # _) \<Rightarrow> Some x | _ \<Rightarrow> None)"

definition gate_uptime :: "jsonlib \<Rightarrow> dlink \<Rightarrow> int" where
  "gate_uptime J D =
     (case gate_get J D (dec_struct (\<lambda>f. Some (dec_num J (f ''snapshot_utc_time''), dec_num J (f ''utc_last_reboot''))))
             ''/api/v2/monitor/web-ui/state'' of
        Inl e \<Rightarrow> 0
      | Inr ui \<Rightarrow>
          (case ev_results ui of (snap, boot) \<Rightarrow> if boot > 0 \<and> snap > boot then truncated (snap - boot) div 1000 else 0))"

definition dec_iface :: "jsonlib \<Rightarrow> string \<Rightarrow> json option \<Rightarrow> iface option" where
  "dec_iface J key = dec_struct (\<lambda>f.
     case (dec_string (f ''name''), dec_string (f ''alias''), dec_string (f ''ip''), dec_bool (f ''link'')) of
       (Some n, Some a, Some ip, Some up) \<Rightarrow>
         Some \<lparr>if_name = (if n = [] then key else n), if_alias = a,
               if_ip = (if ip = ''0.0.0.0'' then []
                        else if ip \<noteq> [] \<and> dec_num J (f ''mask'') > 0 then ip @ ''/'' @ show_int (truncated (dec_num J (f ''mask''))) else ip),
               if_up = up, if_speed = truncated (dec_num J (f ''speed'')), if_rx = truncated (dec_num J (f ''rx_bytes'')),
               if_tx = truncated (dec_num J (f ''tx_bytes''))\<rparr>
     | _ \<Rightarrow> None)"

definition gate_ifaces :: "jsonlib \<Rightarrow> dlink \<Rightarrow> iface list" where
  "gate_ifaces J D =
     (case gate_get J D
             (\<lambda>j. case dec_obj j of None \<Rightarrow> None | Some kvs \<Rightarrow> all_some (\<lambda>(k, v). dec_iface J k (Some v)) kvs)
             ''/api/v2/monitor/system/interface?scope=global'' of
        Inl e \<Rightarrow> [] | Inr ifs \<Rightarrow> sort_key if_name (ev_results ifs))"

definition gate_health :: "jsonlib \<Rightarrow> dlink \<Rightarrow> derror + health" where
  "gate_health J D =
     (case gate_get J D (dec_usage J) ''/api/v2/monitor/system/resource/usage?interval=1-min&scope=global'' of
        Inl e \<Rightarrow> Inl e
      | Inr samples \<Rightarrow>
          (let cur = current (ev_results samples); val = (\<lambda>name dflt. case cur name of None \<Rightarrow> dflt | Some x \<Rightarrow> x)
           in Inr \<lparr>h_cpu = val ''cpu'' 0, h_mem = val ''mem'' 0, h_disk = val ''disk'' (- 1), h_sessions = truncated (val ''session'' 0),
                   h_uptime = gate_uptime J D, h_interfaces = gate_ifaces J D\<rparr>))"

text \<open>\<open>parseLicenseStatus\<close>: a service has a status, an expiry in seconds and parts with a version.\<close>

definition json_string :: "json option \<Rightarrow> string" where
  "json_string j = (case j of Some (JStr s) \<Rightarrow> s | _ \<Rightarrow> [])"

definition part_version :: "json \<Rightarrow> string" where
  "part_version j = (case dec_struct (\<lambda>f. dec_string (f ''version'')) (Some j) of None \<Rightarrow> [] | Some v \<Rightarrow> v)"

definition service_contract :: "jsonlib \<Rightarrow> string \<Rightarrow> (string \<times> json) list \<Rightarrow> contract list" where
  "service_contract J name svc =
     (let status = json_string (map_of svc ''status''); expires = dec_num J (map_of svc ''expires'')
      in if status \<noteq> [] \<and> name \<noteq> ''vm''
         then [\<lparr>ct_name = name, ct_status = status, ct_expires = (if expires > 0 then Some (truncated expires * second) else None)\<rparr>]
         else [])"

definition service_signatures :: "string \<Rightarrow> (string \<times> json) list \<Rightarrow> signature list" where
  "service_signatures name svc =
     List.map_filter (\<lambda>(sub, j). if part_version j \<noteq> [] then Some \<lparr>sg_name = name @ ''_'' @ sub, sg_version = part_version j\<rparr> else None) svc"

definition parse_license_status :: "jsonlib \<Rightarrow> (string \<times> json) list \<Rightarrow> signature list \<times> contract list" where
  "parse_license_status J services =
     (let svcs = List.map_filter (\<lambda>(name, j). map_option (Pair name) (dec_obj (Some j))) services
      in (sort_key sg_name (concat (map (\<lambda>(name, svc). service_signatures name svc) svcs)),
          sort_key ct_name (concat (map (\<lambda>(name, svc). service_contract J name svc) svcs))))"

definition gate_signatures :: "jsonlib \<Rightarrow> dlink \<Rightarrow> derror + signature list \<times> contract list" where
  "gate_signatures J D =
     (case gate_get J D dec_obj ''/api/v2/monitor/license/status'' of
        Inl e \<Rightarrow> Inl e | Inr lic \<Rightarrow> Inr (parse_license_status J (ev_results lic)))"

text \<open>FortiOS 7.6 only accepts \<open>POST\<close> for a backup.\<close>

definition gate_backup :: "dlink \<Rightarrow> derror + string" where
  "gate_backup D =
     (let r = (case rest_do D ''GET'' ''/api/v2/monitor/system/config/backup?scope=global'' None of
                 Inl (HTTPError status body) \<Rightarrow>
                   if status = 405 \<or> status = 404
                   then rest_do D ''POST'' ''/api/v2/monitor/system/config/backup'' (Some [(''destination'', ''file''), (''scope'', ''global'')])
                   else Inl (HTTPError status body)
               | x \<Rightarrow> x)
      in case r of
           Inl e \<Rightarrow> Inl e
         | Inr data \<Rightarrow>
             if looks_like_config data then Inr data
             else Inl (PlainError ''device API: backup did not return a configuration file''))"

text \<open>Padded base64.\<close>

definition base64 :: "string \<Rightarrow> string" where
  "base64 s = encode64 std64 s @ replicate ((3 - length s mod 3) mod 3) (CHR ''='')"

definition done_or :: "derror + string \<Rightarrow> derror option" where
  "done_or x = (case x of Inl e \<Rightarrow> Some e | Inr _ \<Rightarrow> None)"

definition gate_restore :: "dlink \<Rightarrow> string \<Rightarrow> derror option" where
  "gate_restore D cfg =
     done_or (rest_do D ''POST'' ''/api/v2/monitor/system/config/restore''
       (Some [(''source'', ''upload''), (''scope'', ''global''), (''file_content'', base64 cfg)]))"

definition max_package :: nat where "max_package = 4 * 2 ^ 30"

definition gate_install :: "dlink \<Rightarrow> installer" where
  "gate_install D kind name data =
     (let content = base64 (take max_package data)
      in if kind = ''firmware''
         then done_or (rest_do D ''POST'' ''/api/v2/monitor/system/firmware/upgrade'' (Some [(''source'', ''upload''), (''file_content'', content)]))
         else done_or (rest_do D ''POST'' ''/api/v2/monitor/system/fortiguard/manual-update'' (Some [(''file_content'', content)])))"

definition dec_user :: "json option \<Rightarrow> local_user option" where
  "dec_user = dec_struct (\<lambda>f.
     case (dec_string (f ''name''), dec_string (f ''status''), dec_string (f ''two-factor''), dec_string (f ''sms-phone'')) of
       (Some n, Some s, Some t, Some p) \<Rightarrow> Some \<lparr>lu_name = n, lu_two_factor = t, lu_phone = p, lu_enabled = (s \<noteq> ''disable'')\<rparr>
     | _ \<Rightarrow> None)"

definition gate_users :: "jsonlib \<Rightarrow> dlink \<Rightarrow> derror + local_user list" where
  "gate_users J D = map_sum id ev_results (gate_get J D (dec_list_of dec_user) ''/api/v2/cmdb/user/local'')"

definition forti_gate :: "jsonlib \<Rightarrow> dlink \<Rightarrow> driver" where
  "forti_gate J D =
     FortiGateAPI \<lparr>op_probe = gate_probe J D, op_health = gate_health J D, op_signatures = gate_signatures J D, op_backup = gate_backup D,
         op_restore = gate_restore D\<rparr> (gate_install D) (gate_users J D)"

subsection \<open>FortiWeb\<close>

definition norm_key :: "string \<Rightarrow> string" where "norm_key k = filter (\<lambda>c. c \<notin> {CHR ''_'', CHR ''-'', CHR '' ''}) (to_lower k)"

definition norm_obj :: "json \<Rightarrow> (string \<times> json) list" where
  "norm_obj j = (case j of JObj kvs \<Rightarrow> map (\<lambda>(k, v). (norm_key k, v)) kvs | _ \<Rightarrow> [])"

text \<open>The results, or the first of them, with normal keys; anything else reads as no results.\<close>

definition web_results :: "jsonlib \<Rightarrow> dlink \<Rightarrow> string \<Rightarrow> derror + (string \<times> json) list" where
  "web_results J D path =
     map_sum id (\<lambda>r. case r of Some (JArr (x # _)) \<Rightarrow> norm_obj x | Some j \<Rightarrow> norm_obj j | None \<Rightarrow> [])
       (get_json J D (\<lambda>j. map_option (\<lambda>o'. field o' ''results'') (dec_obj (Some j))) path)"

definition pick_string :: "jsonlib \<Rightarrow> (string \<times> json) list \<Rightarrow> string list \<Rightarrow> string" where
  "pick_string J m names =
     (case first_some (\<lambda>n. case map_of m (norm_key n) of
                             None \<Rightarrow> None
                           | Some j \<Rightarrow> if json_string (Some j) \<noteq> [] then Some (json_string (Some j))
                                       else if dec_num J (Some j) \<noteq> 0 then Some (js_show_float J (dec_num J (Some j))) else None) names of
        None \<Rightarrow> [] | Some s \<Rightarrow> s)"

definition pick_num :: "jsonlib \<Rightarrow> (string \<times> json) list \<Rightarrow> string list \<Rightarrow> rat option" where
  "pick_num J m names = first_some (\<lambda>n. map_option (\<lambda>j. dec_num J (Some j)) (map_of m (norm_key n))) names"

text \<open>\<open>fwVersion\<close>: three numbers, and the build when it follows.\<close>

definition fw_version :: re where
  "fw_version = seq_re [Opt True (lit ''v''),
     Grp 1 (seq_re [digits1, lit ''.'', digits1, lit ''.'', digits1]),
     Opt True (seq_re [lit '','', spaces0, lit ''build'', spaces0, Grp 2 digits1])]"

definition web_probe :: "jsonlib \<Rightarrow> dlink \<Rightarrow> derror + info" where
  "web_probe J D =
     (case web_results J D ''/api/v2.0/system/status.systemstatus'' of
        Inl e \<Rightarrow> Inl e
      | Inr st \<Rightarrow>
          (let (fw, bd) = (case find_groups fw_version (pick_string J st [''firmwareVersion'', ''version'']) of
                             None \<Rightarrow> ([], []) | Some c \<Rightarrow> (submatch 1 c, submatch 2 c));
               ha = to_lower (pick_string J st [''haStatus'', ''haMode''])
           in Inr \<lparr>in_serial = pick_string J st [''serialNumber'', ''serial''], in_model = pick_string J st [''model'', ''productName''],
                in_firmware = fw, in_build = bd, in_hostname = pick_string J st [''hostName'', ''hostname''],
                in_ha_mode = (if ha \<noteq> [] \<and> \<not> contains_str ''standalone'' ha then ha else ''standalone''),
                in_ha_peers = [], in_vdoms = [], in_fortimanager = False\<rparr>))"

definition web_health :: "jsonlib \<Rightarrow> dlink \<Rightarrow> derror + health" where
  "web_health J D =
     (case web_results J D ''/api/v2.0/system/status.monitor'' of
        Inl e \<Rightarrow> Inl e
      | Inr m \<Rightarrow>
          (let val = (\<lambda>names dflt. case pick_num J m names of None \<Rightarrow> dflt | Some x \<Rightarrow> x)
           in Inr \<lparr>h_cpu = val [''cpu'', ''cpuUsage''] 0, h_mem = val [''memory'', ''memoryUsage'', ''mem''] 0,
                h_disk = val [''logDisk'', ''logDiskUsage'', ''disk''] (- 1),
                h_sessions = truncated (val [''tcpConcurrentConnection'', ''connections'', ''sessions''] 0),
                h_uptime = truncated (val [''upTime'', ''uptime''] 0), h_interfaces = []\<rparr>))"

definition web_signature :: "jsonlib \<Rightarrow> string \<Rightarrow> (string \<times> json) list \<Rightarrow> signature list" where
  "web_signature J name m =
     (let v = pick_string J m [''version'', ''signatureVersion''] in if v \<noteq> [] then [\<lparr>sg_name = name, sg_version = v\<rparr>] else [])"

definition web_contract :: "jsonlib \<Rightarrow> string \<Rightarrow> (string \<times> json) list \<Rightarrow> contract list" where
  "web_contract J name m =
     (let s = pick_string J m [''status'', ''licenseStatus'']; e = pick_string J m [''expiryDate'', ''expires'', ''expiration'']
      in if s \<noteq> [] then [\<lparr>ct_name = name, ct_status = to_lower s, ct_expires = (if e \<noteq> [] then js_date J e else None)\<rparr>] else [])"

definition web_signatures :: "jsonlib \<Rightarrow> dlink \<Rightarrow> derror + signature list \<times> contract list" where
  "web_signatures J D =
     (case web_results J D ''/api/v2.0/system/status.licenseinformation'' of
        Inl e \<Rightarrow> Inl e
      | Inr m \<Rightarrow>
          (let objs = List.map_filter (\<lambda>(k, j). map_option (\<lambda>_. (k, norm_obj j)) (dec_obj (Some j))) m
           in Inr (sort_key sg_name (concat (map (\<lambda>(k, o'). web_signature J k o') objs)),
                   sort_key ct_name (concat (map (\<lambda>(k, o'). web_contract J k o') objs)))))"

definition web_upload_path :: string where "web_upload_path = ''/api/v2.0/system/maintenance.manualupdate''"

text \<open>A form with the file, which is cut at the largest package.\<close>

definition web_install :: "dlink \<Rightarrow> string \<Rightarrow> installer" where
  "web_install D path kind name data =
     (if kind = ''firmware'' then Some Unsupported
      else (case dl_upload D path name (take max_package data) of
              Inl e \<Rightarrow> Some e
            | Inr (status, answer) \<Rightarrow> if status div 100 \<noteq> 2 then Some (HTTPError status (take 4096 answer)) else None))"

definition forti_web :: "jsonlib \<Rightarrow> dlink \<Rightarrow> string \<Rightarrow> driver" where
  "forti_web J D path =
     FortiWebAPI \<lparr>op_probe = web_probe J D, op_health = web_health J D, op_signatures = web_signatures J D, op_backup = Inl Unsupported,
         op_restore = (\<lambda>_. Some Unsupported)\<rparr> (web_install D path)"

subsection \<open>The CLI over SSH\<close>

definition quoted :: "string \<Rightarrow> string" where "quoted s = [CHR 0x22] @ s @ [CHR 0x22]"

text \<open>A pinned host key must be the one presented; without a pin any key is taken.\<close>

definition verify_host_key :: "string \<Rightarrow> string \<Rightarrow> derror option" where
  "verify_host_key pinned got =
     (if pinned = [] then None else if got \<noteq> trim_space pinned then Some (HostKeyMismatch got) else None)"

text \<open>A command that only ends with an exit status counts when it wrote something.\<close>

definition ssh_run :: "dlink \<Rightarrow> string \<Rightarrow> derror + string" where
  "ssh_run D cmd =
     (case dl_exec D cmd of
        Inl e \<Rightarrow> Inl e
      | Inr (out, err) \<Rightarrow>
          (let text' = unix_lines out
           in case err of
                Some (status_only, e) \<Rightarrow>
                  if \<not> status_only \<or> out = [] then Inl (Wrapped (''SSH '' @ quoted cmd @ '': '') e)
                  else if contains_str ''Unknown action'' text' \<or> contains_str ''Command fail'' text'
                  then Inl (PlainError (''SSH '' @ quoted cmd @ '': device rejected the command'')) else Inr text'
              | None \<Rightarrow>
                  if contains_str ''Unknown action'' text' \<or> contains_str ''Command fail'' text'
                  then Inl (PlainError (''SSH '' @ quoted cmd @ '': device rejected the command'')) else Inr text'))"

text \<open>The regular expressions of \<open>ssh.go\<close>.\<close>

definition not_space :: re where "not_space = Cls (\<lambda>c. \<not> re_space c)"

definition cli_version :: re where
  "cli_version = seq_re [Bol, Grp 1 (plus1 False not_space), Opt True (Seq (lit ''-'') (Grp 2 (plus1 True not_space))),
     spaces1, lit ''v'', Grp 3 (seq_re [digits1, lit ''.'', digits1, lit ''.'', digits1]), lit '','', spaces0, lit ''build'', Grp 4 digits1]"

definition version_groups :: "string \<Rightarrow> (string \<times> string \<times> string \<times> string) option" where
  "version_groups s =
     map_option (\<lambda>c. (submatch 1 c, submatch 2 c, submatch 3 c, submatch 4 c)) (find_groups cli_version s)"

definition is_letter :: "char \<Rightarrow> bool" where "is_letter c = (let n = (of_char (lower_char c) :: nat) in 97 \<le> n \<and> n \<le> 122)"

definition sig_char :: re where "sig_char = Cls (\<lambda>c. is_word_char c \<or> c = CHR ''-'' \<or> c = CHR '' '')"

definition sig_line :: re where
  "sig_line = seq_re [Bol, spaces0,
     Grp 1 (seq_re [Cls is_letter, Rep False sig_char, alt_re [ilit ''DB'', ilit ''Engine'', ilit ''Definitions'', ilit ''Signature''], Rep False sig_char]),
     spaces0, lit '':'', spaces0, Grp 2 (seq_re [digits1, lit ''.'', digits1])]"

definition percent :: re where "percent = Grp 1 (Seq digits1 (Opt True (Seq (lit ''.'') digits1)))"

definition perf_idle :: re where "perf_idle = seq_re [lit ''CPU states:'', any_lazy, percent, lit ''% idle'']"
definition perf_cpu :: re where "perf_cpu = seq_re [ilit ''CPU'', Opt True (ilit '' usage''), spaces0, lit '':'', spaces0, percent, lit ''%'']"
definition perf_mem :: re where "perf_mem = seq_re [ilit ''Memory'', Opt True (ilit '' usage''), spaces0, lit '':'', any_lazy, percent, lit ''%'']"
definition perf_disk :: re where
  "perf_disk = seq_re [Opt True (ilit ''Log ''), ilit ''Disk'', Opt True (ilit '' usage''), spaces0, lit '':'', any_lazy, percent, lit ''%'']"
definition perf_sessions :: re where "perf_sessions = seq_re [ilit ''Average sessions:'', spaces0, Grp 1 digits1]"

definition span_re :: "nat \<Rightarrow> string \<Rightarrow> bool \<Rightarrow> re" where
  "span_re n unit comma = Opt True (seq_re ([Grp n digits1, ilit ('' '' @ unit), Opt True (ilit ''s'')] @ (if comma then [Opt True (lit '','')] else [])))"

definition perf_uptime :: re where
  "perf_uptime = seq_re [ilit ''Up'', Opt True (lit '' ''), ilit ''time:'', spaces0, span_re 1 ''day'' True, spaces0,
     span_re 2 ''hour'' True, spaces0, span_re 3 ''minute'' False]"

text \<open>\<open>ParseFloat\<close> on digits with a point; no digits read as zero.\<close>

definition decimal :: "string \<Rightarrow> rat" where
  "decimal s = (case cut (CHR ''.'') s of
                  None \<Rightarrow> of_int (digits_val 0 s) | Some (a, b) \<Rightarrow> of_int (digits_val 0 (a @ b)) / 10 ^ length b)"

definition parse_performance :: "string \<Rightarrow> health" where
  "parse_performance out =
     (let val = (\<lambda>r dflt. case find_groups r out of None \<Rightarrow> dflt | Some c \<Rightarrow> decimal (submatch 1 c))
      in \<lparr>h_cpu = (case find_groups perf_idle out of Some c \<Rightarrow> 100 - decimal (submatch 1 c) | None \<Rightarrow> val perf_cpu 0),
          h_mem = val perf_mem 0, h_disk = val perf_disk (- 1), h_sessions = truncated (val perf_sessions 0),
          h_uptime = (case find_groups perf_uptime out of
                        None \<Rightarrow> 0
                      | Some c \<Rightarrow> truncated (decimal (submatch 1 c) * 86400 + decimal (submatch 2 c) * 3600 + decimal (submatch 3 c) * 60)),
          h_interfaces = []\<rparr>)"

definition parse_signature_lines :: "string \<Rightarrow> signature list" where
  "parse_signature_lines out =
     map (\<lambda>c. \<lparr>sg_name = to_lower (join ''_'' (fields_from [] (map (\<lambda>x. if x = CHR ''-'' then CHR '' '' else x) (submatch 1 c)))),
               sg_version = submatch 2 c\<rparr>)
       (re_find_all sig_line (True, out))"

fun from_text :: "string \<Rightarrow> string \<Rightarrow> string option" where
  "from_text p [] = (if p = [] then Some [] else None)"
| "from_text p (c # s) = (if starts_with p (c # s) then Some (c # s) else from_text p s)"

definition ssh_backup :: "dlink \<Rightarrow> derror + string" where
  "ssh_backup D =
     (case ssh_run D ''show full-configuration'' of
        Inl e \<Rightarrow> Inl e
      | Inr out0 \<Rightarrow>
          (let out = (case from_text ''#config-version='' out0 of None \<Rightarrow> out0 | Some s \<Rightarrow> s)
           in if looks_like_config out then Inr out else Inl (PlainError ''SSH backup did not return a configuration'')))"

text \<open>\<open>cliErrorRe\<close>: a line with one of the messages of a rejected command.\<close>

definition cli_error_re :: re where
  "cli_error_re = alt_re
     ([ilit ''Command fail'', ilit ''Unknown action'', ilit ''entry not found'', ilit ''node_check_object fail'', ilit ''value parse error'',
       Seq (ilit ''invalid '') (alt_re [ilit ''value'', ilit ''input'', ilit ''command'']), Seq (ilit ''Return code -'') digits1,
       ilit ''failed to'', ilit ''error:''])"

definition cli_error_line :: "string \<Rightarrow> bool" where "cli_error_line l \<longleftrightarrow> re_find cli_error_re True l \<noteq> None"

definition check_cli_output :: "string \<Rightarrow> derror option" where
  "check_cli_output out =
     (let ls = filter (\<lambda>l. l \<noteq> []) (map trim_space (filter cli_error_line (split_char newline out)))
      in if ls \<noteq> [] then Some (CLIError ls) else None)"

text \<open>The lines of the script, and \<open>exit\<close>.\<close>

definition script_lines :: "string \<Rightarrow> string list" where "script_lines script = split_char newline (unix_lines script) @ [''exit'']"

definition run_script :: "dlink \<Rightarrow> cli" where
  "run_script D script =
     (case dl_shell D (script_lines script) of
        Inl e \<Rightarrow> ([], Some e)
      | Inr (out, err) \<Rightarrow>
          (let text' = unix_lines out
           in case err of
                Some (False, e) \<Rightarrow> (text', Some (Wrapped ''SSH session: '' e))
              | _ \<Rightarrow> (text', check_cli_output text')))"

definition ssh_driver :: "dlink \<Rightarrow> driver" where
  "ssh_driver D =
     SSHDriver
       \<lparr>op_probe = map_sum id (parse_system_status version_groups) (ssh_run D ''get system status''),
        op_health = map_sum id parse_performance (ssh_run D ''get system performance status''),
        op_signatures = map_sum id (\<lambda>out. (parse_signature_lines out, [])) (ssh_run D ''get system status''),
        op_backup = ssh_backup D, op_restore = (\<lambda>_. Some Unsupported)\<rparr>
       (run_script D)"

subsection \<open>The transports of the program\<close>

text \<open>
  \<open>link\<close> is what the device answers to the client that the configuration makes, with the token or the
  credentials and the pins in it.
\<close>

definition vendor_transports :: "jsonlib \<Rightarrow> (config \<Rightarrow> dlink) \<Rightarrow> transports" where
  "vendor_transports J link =
     \<lparr>new_gate = (\<lambda>c. forti_gate J (link c)), new_web = (\<lambda>c. forti_web J (link c) web_upload_path), new_ssh = (\<lambda>c. ssh_driver (link c))\<rparr>"

subsection \<open>What the transports promise\<close>

lemma gate_backup_config: "gate_backup D = Inr cfg \<Longrightarrow> looks_like_config cfg"
  by (auto simp: gate_backup_def Let_def split: sum.splits derror.splits if_splits)

lemma ssh_backup_config: "ssh_backup D = Inr cfg \<Longrightarrow> looks_like_config cfg"
  by (auto simp: ssh_backup_def Let_def split: sum.splits if_splits option.splits)

lemma new_driver_cases:
  "new_driver T c \<in> {NoTransport, new_gate T c, new_web T c, new_ssh T c, Fallback (new_gate T c) (new_ssh T c), Fallback (new_ssh T c) (new_gate T c),
     Fallback (new_web T c) (new_ssh T c), Fallback (new_ssh T c) (new_web T c)}"
  by (simp add: new_driver_def Let_def)


lemma has_text_Seq: "has_text (Seq a b) w \<Longrightarrow> \<exists>s t. w = s @ t \<and> has_text a s \<and> has_text b t"
  by (cases "Seq a b" w rule: has_text.cases) auto

lemma has_text_Cls: "has_text (Cls P) w \<Longrightarrow> \<exists>c. w = [c] \<and> P c"
  by (cases "Cls P" w rule: has_text.cases) auto

lemma has_text_Alt: "has_text (Alt a b) w \<Longrightarrow> has_text a w \<or> has_text b w"
  by (cases "Alt a b" w rule: has_text.cases) auto

lemma word_start: "has_text (word_re f (c # s)) w \<Longrightarrow> \<exists>d t. w = d # t \<and> f c d"
  by (cases s) (fastforce dest!: has_text_Seq has_text_Cls)+

lemma alt_text: "has_text (alt_re rs) w \<Longrightarrow> \<exists>r\<in>set rs. has_text r w"
  by (induction rs rule: alt_re.induct) (auto dest!: has_text_Alt has_text_Cls)

lemma letter_no_space: "lower_char c = lower_char d \<Longrightarrow> is_letter c \<Longrightarrow> \<not> is_space d"
  by (auto simp: is_letter_def is_space_def lower_char_def Let_def split: if_splits)

lemma word_not_blank: "is_letter c \<Longrightarrow> has_text (ilit (c # s)) w \<Longrightarrow> \<exists>d\<in>set w. \<not> is_space d"
  by (drule word_start) (auto dest: letter_no_space)

lemma letters: "is_letter (CHR ''C'')" "is_letter (CHR ''U'')" "is_letter (CHR ''e'')" "is_letter (CHR ''n'')" "is_letter (CHR ''v'')"
  "is_letter (CHR ''i'')" "is_letter (CHR ''R'')" "is_letter (CHR ''f'')"
  by code_simp+

lemma seq_not_blank: "has_text (Seq a b) w \<Longrightarrow> (\<And>v. has_text a v \<Longrightarrow> \<exists>d\<in>set v. \<not> is_space d) \<Longrightarrow> \<exists>d\<in>set w. \<not> is_space d"
  by (fastforce dest: has_text_Seq)

lemma error_not_blank:
  assumes "has_text cli_error_re w"
  shows "\<exists>d\<in>set w. \<not> is_space d"
proof -
  note word = word_not_blank [OF letters(1)] word_not_blank [OF letters(2)] word_not_blank [OF letters(3)] word_not_blank [OF letters(4)]
    word_not_blank [OF letters(5)] word_not_blank [OF letters(6)] word_not_blank [OF letters(7)] word_not_blank [OF letters(8)]
  from alt_text [OF assms [unfolded cli_error_re_def]]
  have "has_text (ilit ''Command fail'') w \<or> has_text (ilit ''Unknown action'') w \<or> has_text (ilit ''entry not found'') w \<or>
    has_text (ilit ''node_check_object fail'') w \<or> has_text (ilit ''value parse error'') w \<or>
    has_text (Seq (ilit ''invalid '') (alt_re [ilit ''value'', ilit ''input'', ilit ''command''])) w \<or>
    has_text (Seq (ilit ''Return code -'') digits1) w \<or> has_text (ilit ''failed to'') w \<or> has_text (ilit ''error:'') w"
    by (simp only: list.set bex_simps simp_thms)
  then show ?thesis
    by (elim disjE) (erule word | erule seq_not_blank, erule word)+
qed

lemma trim_space_blank: "trim_space s = [] \<Longrightarrow> c \<in> set s \<Longrightarrow> is_space c"
proof -
  assume t: "trim_space s = []" and c: "c \<in> set s"
  have "list_all is_space (dropWhile is_space s)"
    using t by (simp add: trim_space_def trim_left_def trim_right_def list_all_iff dropWhile_eq_Nil_conv)
  then show ?thesis using c by (metis (full_types) dropWhile_eq_Nil_conv hd_dropWhile list.pred_set list.set_sel(1))
qed

text \<open>
  C29: A script over SSH is reported as run without errors only when no line of the output has one of
  the messages of a rejected command.
\<close>

theorem rejected_lines_reported:
  assumes "run_script D script = (out, None)" and "l \<in> set (split_char newline out)" and "l = u @ w @ v"
  shows "\<not> has_text cli_error_re w"
proof
  assume w: "has_text cli_error_re w"
  have ls: "check_cli_output out = None"
    using assms(1) by (auto simp: run_script_def Let_def split: sum.splits prod.splits option.splits bool.splits)
  have "no_assertion cli_error_re" by code_simp
  then have "cli_error_line l" using re_find_iff [of cli_error_re True l] assms(3) w unfolding cli_error_line_def by blast
  then have "trim_space l = []" using ls assms(2) by (auto simp: check_cli_output_def Let_def filter_empty_conv split: if_splits)
  then show False using error_not_blank [OF w] trim_space_blank [of l] assms(3) by auto
qed

subsection \<open>Examples\<close>

text \<open>A FortiGate of release 7.6, which wants \<open>POST\<close> for a backup.\<close>

definition sample_config :: string where "sample_config = ''#config-version=FG100F-7.6.0:user=admin'' @ newline # ''config system global''"

definition sample_link :: dlink where
  "sample_link =
     \<lparr>dl_http = (\<lambda>meth path body. if meth = ''POST'' then Inr (200, sample_config) else Inr (405, ''Method Not Allowed'')),
      dl_upload = (\<lambda>_ _ _. Inr (200, [])), dl_exec = (\<lambda>_. Inr (''Command fail. Return code -61'', None)),
      dl_shell = (\<lambda>_. Inr (''ok'', None))\<rparr>"

definition sample_json :: jsonlib where
  "sample_json = \<lparr>js_parse = (\<lambda>_. Inr JNull), js_mismatch = ''cannot unmarshal'', js_float = (\<lambda>_. None), js_show_float = (\<lambda>_. []), js_date = (\<lambda>_. None)\<rparr>"

definition sample_access :: config where
  "sample_access = \<lparr>cf_kind = KindFortiGate, cf_host = ''10.0.0.1'', cf_https_port = 443, cf_ssh_port = 22, cf_order = SSHFirst,
     cf_api_token = ''token'', cf_api_user = [], cf_api_pass = [], cf_pin = [], cf_ssh_user = ''admin'', cf_ssh_password = ''pw'', cf_ssh_key = [],
     cf_ssh_host_key = []\<rparr>"

lemma sample_is_config: "looks_like_config sample_config" by code_simp


theorem rejected_lines_reported_witness:
  "run_script sample_link ''config system global'' = (''ok'', None) \<and> \<not> has_text cli_error_re ''ok''"
proof -
  have run: "run_script sample_link ''config system global'' = (''ok'', None)" by code_simp
  have "''ok'' \<in> set (split_char newline ''ok'')" by code_simp
  from rejected_lines_reported [OF run this, of "[]" "''ok''" "[]"] run show ?thesis by simp
qed

text \<open>A configuration that only mentions a message of the CLI is taken for a rejected command.\<close>

lemma backup_with_message_refused:
  assumes "dl_exec D ''show full-configuration'' = Inr (cfg, None)" and "contains_str ''Command fail'' (unix_lines cfg)"
  shows "\<exists>e. ssh_backup D = Inl e"
  using assms by (simp add: ssh_backup_def ssh_run_def Let_def)

lemma message_in_comment: "looks_like_config (sample_config @ newline # ''set comment \"Command fail on upgrade\"'') \<and>
   contains_str ''Command fail'' (unix_lines (sample_config @ newline # ''set comment \"Command fail on upgrade\"''))"
  by code_simp

end
