(* ===== verification/Api.thy ===== *)
theory Api
  imports Auth FileServer
begin

text \<open>
  The HTTP interface (\<open>internal/api\<close>): the routes with the permission each needs, the guards in front
  of the handlers (\<open>httpx.go\<close>), the audit log (\<open>internal/audit\<close>), and the handlers that sign users in
  (\<open>auth_handlers.go\<close>) and manage them (\<open>admin_handlers.go\<close>).

  The router library finds the first route with the method and the path, a parameter matching any
  segment but an empty last one; what has no route outside \<open>/api/v1\<close> goes to the web panel. A request body is decoded by an argument; JSON answers are values.
\<close>

subsection \<open>Requests, replies and the audit log\<close>

datatype http_method = GET | HEAD | OPTIONS | POST | PUT | DELETE | OtherMethod

text \<open>\<open>OtherMethod\<close> are the other methods that the router knows, \<open>rq_path\<close> the segments of the path, \<open>rq_header\<close> the value of \<open>X-Requested-With\<close>, \<open>rq_length\<close> the declared length of the body and \<open>rq_query\<close> a query value, empty when it is not given.\<close>

record request =
  rq_method :: http_method
  rq_path :: "string list"
  rq_header :: string
  rq_cookie :: "string option"
  rq_remote :: string
  rq_agent :: string
  rq_body :: string
  rq_length :: int
  rq_query :: "string \<Rightarrow> string"

datatype 'a reply = Reply int 'a | Fail int string

record audit_entry =
  au_at :: time
  au_source :: string
  au_actor_id :: "int option"
  au_actor :: string
  au_ip :: string
  au_action :: string
  au_type :: string
  au_object :: string
  au_details :: "(string \<times> string) list"

record panel =
  pn_auth :: authdb
  pn_audit :: "audit_entry list"

definition audit_log :: "audit_entry \<Rightarrow> panel \<Rightarrow> panel" where
  "audit_log e P = P\<lparr>pn_audit := pn_audit P @ [e]\<rparr>"

text \<open>Newest first; entries of the same time in the order of their numbers, the last one first.\<close>

definition audit_list :: "nat \<Rightarrow> panel \<Rightarrow> audit_entry list" where
  "audit_list limit P = take limit (rev (sort_key au_at (pn_audit P)))"

record webenv =
  we_auth :: authenv
  we_net :: netlib
  we_now :: time

definition client_ip :: "webenv \<Rightarrow> request \<Rightarrow> string" where
  "client_ip W r = (case nl_split_host (we_net W) (rq_remote r) of None \<Rightarrow> rq_remote r | Some h \<Rightarrow> h)"

definition audit :: "webenv \<Rightarrow> request \<Rightarrow> session \<Rightarrow> string \<Rightarrow> string \<Rightarrow> string \<Rightarrow> (string \<times> string) list \<Rightarrow> panel \<Rightarrow> panel" where
  "audit W r sess action typ obj details P =
     audit_log \<lparr>au_at = we_now W, au_source = ''panel'', au_actor_id = Some (us_id (se_user sess)), au_actor = us_name (se_user sess),
       au_ip = client_ip W r, au_action = action, au_type = typ, au_object = obj, au_details = details\<rparr> P"

definition max_body :: nat where "max_body = 1048576"

definition decode_json :: "(string \<Rightarrow> 'b option) \<Rightarrow> request \<Rightarrow> 'b option" where
  "decode_json dec r = dec (take max_body (rq_body r))"

definition bad_body :: "'a reply" where "bad_body = Fail 400 ''invalid request body''"
definition internal_error :: "'a reply" where "internal_error = Fail 500 ''internal error''"
definition not_found :: "'a reply" where "not_found = Fail 404 ''not found''"

text \<open>\<open>PathID\<close>: a positive integer, else 404.\<close>

definition path_id :: "string list \<Rightarrow> int option" where
  "path_id ps = (case ps of p # _ \<Rightarrow> (case atoi p of Some i \<Rightarrow> if i \<le> 0 then None else Some i | None \<Rightarrow> None) | [] \<Rightarrow> None)"

subsection \<open>Routes\<close>

datatype access = Anyone | SignedIn | Needs perm

text \<open>\<open>rt_guarded\<close>: the route is in a group with \<open>csrfGuard\<close> and \<open>loadSession\<close>.\<close>

record route =
  rt_method :: http_method
  rt_path :: "string list"
  rt_guarded :: bool
  rt_access :: access
  rt_handler :: string

definition rt :: "access \<Rightarrow> http_method \<Rightarrow> string \<Rightarrow> string \<Rightarrow> route" where
  "rt a m path h = \<lparr>rt_method = m, rt_path = split_char (CHR ''/'') path, rt_guarded = True, rt_access = a, rt_handler = h\<rparr>"

definition open_routes :: "route list" where
  "open_routes = [(rt Anyone GET ''version'' ''version'')\<lparr>rt_guarded := False\<rparr>]"

definition upload_routes :: "route list" where
  "upload_routes =
     [rt (Needs PermPackages) POST ''packages/upload'' ''uploadPackage'',
      rt (Needs PermPackages) POST ''packages/bundle'' ''importBundle'']"

definition account_routes :: "route list" where
  "account_routes =
     [rt Anyone POST ''auth/login'' ''handleLogin'', rt Anyone POST ''auth/mfa'' ''handleMFA'',
      rt Anyone POST ''auth/mfa/setup'' ''handleMFASetup'', rt Anyone POST ''auth/mfa/enable'' ''handleMFAEnable'',
      rt Anyone POST ''auth/logout'' ''handleLogout'', rt SignedIn GET ''me'' ''handleMe'',
      rt (Needs PermAuditRead) GET ''audit'' ''handleAuditList'',
      rt (Needs PermUsersManage) GET ''users'' ''listUsers'', rt (Needs PermUsersManage) POST ''users'' ''createUser'',
      rt (Needs PermUsersManage) PUT ''users/{id}'' ''updateUser'',
      rt (Needs PermUsersManage) POST ''users/{id}/password'' ''setPassword'',
      rt (Needs PermUsersManage) POST ''users/{id}/reset-mfa'' ''resetMFA'',
      rt (Needs PermUsersManage) POST ''users/{id}/unlock'' ''unlockUser'',
      rt (Needs PermLicenseRead) GET ''license'' ''getLicense'',
      rt (Needs PermLicenseManage) POST ''license/activate'' ''activateLicense'',
      rt (Needs PermLicenseManage) POST ''license/request'' ''licenseRequest'',
      rt (Needs PermLicenseManage) POST ''license/upload'' ''uploadLicense'',
      rt (Needs PermLicenseManage) POST ''license/heartbeat'' ''licenseHeartbeat'']"

abbreviation rd :: "http_method \<Rightarrow> string \<Rightarrow> string \<Rightarrow> route" where "rd \<equiv> rt (Needs PermDevicesRead)"

definition device_routes :: "route list" where
  "device_routes =
     [rd GET ''devices'' ''listDevices'', rt (Needs PermDevicesWrite) POST ''devices/discover'' ''discoverDevice'',
      rt (Needs PermDevicesWrite) POST ''devices'' ''createDevice'', rd GET ''devices/{id}'' ''getDevice'',
      rt (Needs PermDevicesWrite) PUT ''devices/{id}'' ''updateDevice'',
      rt (Needs PermDevicesWrite) DELETE ''devices/{id}'' ''deleteDevice'',
      rd POST ''devices/{id}/refresh'' ''refreshDevice'', rd GET ''devices/{id}/metrics'' ''deviceMetrics'',
      rd GET ''groups'' ''listGroups'', rt (Needs PermDevicesWrite) POST ''groups'' ''saveGroup'',
      rt (Needs PermDevicesWrite) PUT ''groups/{id}'' ''saveGroup'', rt (Needs PermDevicesWrite) DELETE ''groups/{id}'' ''deleteGroup'']"

definition alert_routes :: "route list" where
  "alert_routes =
     [rd GET ''alerts'' ''listAlerts'', rd POST ''alerts/{id}/ack'' ''ackAlert'', rd GET ''alert-rules'' ''listRules'',
      rt (Needs PermAlertsManage) POST ''alert-rules'' ''saveRule'', rt (Needs PermAlertsManage) PUT ''alert-rules/{id}'' ''saveRule'',
      rt (Needs PermAlertsManage) DELETE ''alert-rules/{id}'' ''deleteRule'',
      rt (Needs PermAlertsManage) GET ''channels'' ''listChannels'', rt (Needs PermAlertsManage) POST ''channels'' ''saveChannel'',
      rt (Needs PermAlertsManage) PUT ''channels/{id}'' ''saveChannel'',
      rt (Needs PermAlertsManage) DELETE ''channels/{id}'' ''deleteChannel'',
      rt (Needs PermAlertsManage) POST ''channels/{id}/test'' ''testChannel'']"

definition backup_routes :: "route list" where
  "backup_routes =
     [rd GET ''backups'' ''listBackups'', rt (Needs PermBackupsRun) POST ''devices/{id}/backup'' ''runBackup'',
      rd GET ''backups/diff'' ''diffBackups'', rd GET ''backups/{id}/content'' ''backupContent'',
      rt (Needs PermBackupsAdmin) GET ''backups/{id}/download'' ''downloadBackup'',
      rt (Needs PermBackupsAdmin) PUT ''backups/{id}'' ''updateBackup'',
      rt (Needs PermBackupsAdmin) DELETE ''backups/{id}'' ''deleteBackup'',
      rt (Needs PermRestore) GET ''backups/{id}/diff-current'' ''diffCurrent'',
      rt (Needs PermRestore) POST ''backups/{id}/restore'' ''restoreBackup'',
      rd GET ''restores'' ''listRestores'', rd GET ''restores/{id}'' ''getRestore'',
      rd GET ''backup-policies'' ''listPolicies'', rt (Needs PermBackupsAdmin) POST ''backup-policies'' ''savePolicy'',
      rt (Needs PermBackupsAdmin) PUT ''backup-policies/{id}'' ''savePolicy'',
      rt (Needs PermBackupsAdmin) DELETE ''backup-policies/{id}'' ''deletePolicy'']"

definition package_routes :: "route list" where
  "package_routes =
     [rd GET ''packages'' ''listPackages'', rt (Needs PermPackages) PUT ''packages/{id}'' ''updatePackage'',
      rt (Needs PermPackages) DELETE ''packages/{id}'' ''deletePackage'', rd GET ''package-sources'' ''listSources'',
      rt (Needs PermPackages) POST ''package-sources'' ''saveSource'', rt (Needs PermPackages) PUT ''package-sources/{id}'' ''saveSource'',
      rt (Needs PermPackages) DELETE ''package-sources/{id}'' ''deleteSource'',
      rt (Needs PermPackages) POST ''package-sources/{id}/sync'' ''syncSource'']"

definition change_routes :: "route list" where
  "change_routes =
     [rd GET ''changes'' ''listChanges'', rt (Needs PermChangeCreate) POST ''changes'' ''createChange'',
      rd GET ''changes/{id}'' ''getChange'', rt (Needs PermChangeCreate) POST ''changes/{id}/submit'' ''submitChange'',
      rt (Needs PermChangeApprove) POST ''changes/{id}/approve'' ''approveChange'',
      rt (Needs PermChangeApprove) POST ''changes/{id}/reject'' ''rejectChange'',
      rt (Needs PermChangeCreate) POST ''changes/{id}/cancel'' ''cancelChange'',
      rt (Needs PermChangeApprove) POST ''changes/{id}/run-now'' ''runChangeNow'',
      rd GET ''maintenance'' ''listWindows'', rt (Needs PermSettings) POST ''maintenance/windows'' ''saveWindow'',
      rt (Needs PermSettings) PUT ''maintenance/windows/{id}'' ''saveWindow'',
      rt (Needs PermSettings) DELETE ''maintenance/windows/{id}'' ''deleteWindow'',
      rt (Needs PermSettings) POST ''maintenance/policies'' ''setApprovalPolicy'']"

definition script_routes :: "route list" where
  "script_routes =
     [rd GET ''scripts'' ''listScripts'', rt (Needs PermChangeCreate) POST ''scripts'' ''saveScript'',
      rt (Needs PermChangeCreate) PUT ''scripts/{id}'' ''saveScript'', rt (Needs PermChangeCreate) DELETE ''scripts/{id}'' ''deleteScript'',
      rd POST ''scripts/preview'' ''previewScript'', rt (Needs PermChangeCreate) POST ''scripts/{id}/run'' ''runScriptReadOnly'',
      rd GET ''scripts/{id}/runs'' ''scriptRuns'', rt (Needs PermChangeCreate) POST ''variables'' ''setVariable'',
      rt (Needs PermChangeCreate) DELETE ''variables/{id}'' ''deleteVariable'',
      rd GET ''devices/{id}/firmware-path'' ''firmwarePath'']"

abbreviation om :: "http_method \<Rightarrow> string \<Rightarrow> string \<Rightarrow> route" where "om \<equiv> rt (Needs PermOTP)"

definition otp_routes :: "route list" where
  "otp_routes =
     [rd GET ''otp'' ''otpOverview'', rd GET ''otp/users'' ''listOTPUsers'', om POST ''otp/users'' ''saveOTPUser'',
      om PUT ''otp/users/{id}'' ''saveOTPUser'', om DELETE ''otp/users/{id}'' ''deleteOTPUser'',
      om POST ''otp/users/{id}/unlock'' ''unlockOTPUser'', om PUT ''otp/policy'' ''saveOTPPolicy'', om PUT ''otp/sms'' ''saveSMS'',
      om PUT ''otp/ldap'' ''saveLDAP'', om PUT ''otp/radius'' ''saveRadius'', om PUT ''otp/gateway'' ''saveGateway'',
      om POST ''otp/sms/test'' ''smsTest'', om GET ''otp/sms/credit'' ''smsCredit'', rd GET ''otp/log'' ''smsMessages'',
      om GET ''otp/directory'' ''directorySearch'', om POST ''otp/directory/import'' ''directoryImport'',
      rd GET ''otp/radius/clients'' ''radiusClients'', om PUT ''otp/radius/clients/{id}'' ''setRadiusClient'',
      om GET ''otp/fortigate-config'' ''fortigateOTPConfig'', rd GET ''otp/gateway/users'' ''gatewayUsers'',
      om POST ''otp/gateway/sync'' ''gatewaySync'']"

definition routes :: "route list" where
  "routes = open_routes @ upload_routes @ account_routes @ device_routes @ alert_routes @ backup_routes @ package_routes @
     change_routes @ script_routes @ otp_routes"

text \<open>The parameters of a path that a pattern matches.\<close>

fun match_path :: "string list \<Rightarrow> string list \<Rightarrow> string list option" where
  "match_path [] [] = Some []"
| "match_path (p # ps) (s # ss) =
     (if p = ''{id}'' then (if s = [] \<and> ss = [] then None else map_option (Cons s) (match_path ps ss))
      else if p = s then match_path ps ss else None)"
| "match_path _ _ = None"

definition find_route :: "route list \<Rightarrow> http_method \<Rightarrow> string list \<Rightarrow> (route \<times> string list) option" where
  "find_route rts m path = first_some (\<lambda>r. if rt_method r = m then map_option (Pair r) (match_path (rt_path r) path) else None) rts"

subsection \<open>Guards\<close>

definition csrf_ok :: "request \<Rightarrow> bool" where
  "csrf_ok r = (rq_method r \<in> {GET, HEAD, OPTIONS} \<or> rq_header r = ''taktaplus'')"

definition load_session :: "webenv \<Rightarrow> request \<Rightarrow> authdb \<Rightarrow> (authdb, aerror, session option) outcome" where
  "load_session W r db =
     (case rq_cookie r of
        None \<Rightarrow> (db, Inr None)
      | Some token \<Rightarrow>
          if token = [] then (db, Inr None)
          else (case authenticate (we_auth W) (we_now W) token db of
                  (db1, Inr sess) \<Rightarrow> (db1, Inr (Some sess))
                | (db1, Inl e) \<Rightarrow> (db1, if e = NoSession then Inr None else Inl e)))"

definition require_user :: "session option \<Rightarrow> (int \<times> string) option" where
  "require_user so = (case so of None \<Rightarrow> Some (401, ''not signed in'') | Some s \<Rightarrow> if \<not> se_mfa s then Some (401, ''not signed in'') else None)"

definition require_perm :: "perm \<Rightarrow> session option \<Rightarrow> (int \<times> string) option" where
  "require_perm p so =
     (case require_user so of
        Some e \<Rightarrow> Some e
      | None \<Rightarrow> (case so of
                   None \<Rightarrow> Some (403, ''permission denied'')
                 | Some s \<Rightarrow> if \<not> role_can (us_role (se_user s)) p then Some (403, ''permission denied'') else None))"

fun refusal :: "access \<Rightarrow> session option \<Rightarrow> (int \<times> string) option" where
  "refusal Anyone so = None"
| "refusal SignedIn so = require_user so"
| "refusal (Needs p) so = require_perm p so"

text \<open>What becomes of a request: an answer, a handler with its parameters and session, or the web panel.\<close>

datatype dispatched = Refused int string | Handled string "string list" "session option" | Health | WebPanel

definition guarded :: "webenv \<Rightarrow> route \<Rightarrow> string list \<Rightarrow> request \<Rightarrow> authdb \<Rightarrow> authdb \<times> dispatched" where
  "guarded W ro ps r db =
     (if \<not> rt_guarded ro then (db, Handled (rt_handler ro) ps None)
      else if \<not> csrf_ok r then (db, Refused 403 ''missing X-Requested-With header'')
      else (case load_session W r db of
              (db1, Inl e) \<Rightarrow> (db1, Refused 500 ''internal error'')
            | (db1, Inr so) \<Rightarrow>
                (db1, case refusal (rt_access ro) so of Some (code, msg) \<Rightarrow> Refused code msg | None \<Rightarrow> Handled (rt_handler ro) ps so)))"

definition dispatch :: "webenv \<Rightarrow> request \<Rightarrow> authdb \<Rightarrow> authdb \<times> dispatched" where
  "dispatch W r db =
     (if rq_path r = [''healthz''] \<and> rq_method r = GET then (db, Health)
      else if take 2 (rq_path r) = [''api'', ''v1'']
      then (case find_route routes (rq_method r) (drop 2 (rq_path r)) of
              Some (ro, ps) \<Rightarrow> guarded W ro ps r db
            | None \<Rightarrow> (db, if list_ex (\<lambda>ro. match_path (rt_path ro) (drop 2 (rq_path r)) \<noteq> None) routes then Refused 405 []
                           else Refused 404 ''not found''))
      else (db, WebPanel))"

subsection \<open>Signing in\<close>

fun aerror_text :: "aerror \<Rightarrow> string" where
  "aerror_text InvalidCredentials = ''invalid username or password''"
| "aerror_text AccountLocked = ''account temporarily locked; try again later''"
| "aerror_text InvalidCode = ''invalid verification code''"
| "aerror_text NoSession = ''not signed in''"
| "aerror_text UsernameTaken = ''username is already in use''"
| "aerror_text MFASetupState = ''two-factor authentication is not in setup state''"
| "aerror_text UserNotFound = ''user not found''"
| "aerror_text (AuthInput m) = m"
| "aerror_text (HashError e) = pwerror_text e"
| "aerror_text (BoxError m) = m"
| "aerror_text NoRows = ''no rows in result set''"
| "aerror_text DuplicateSession = ''duplicate key value''"

definition next_step :: "session \<Rightarrow> string" where
  "next_step s = (if se_mfa s then ''done'' else if us_totp (se_user s) then ''mfa'' else ''mfa_setup'')"

text \<open>The user as JSON has the permissions of the role with it.\<close>

definition user_json :: "user \<Rightarrow> user \<times> perm list" where "user_json u = (u, perms_of (us_role u))"

definition lift_auth :: "authdb \<times> 'r \<Rightarrow> panel \<Rightarrow> panel \<times> 'r" where
  "lift_auth x P = (P\<lparr>pn_auth := fst x\<rparr>, snd x)"

text \<open>The body of a sign-in is a name and a password; \<open>raw\<close> are the random bytes of the token, which becomes the cookie.\<close>

definition handle_login ::
  "webenv \<Rightarrow> (string \<Rightarrow> (string \<times> string) option) \<Rightarrow> string \<Rightarrow> request \<Rightarrow> panel \<Rightarrow> panel \<times> (string \<times> string \<times> user \<times> perm list) reply" where
  "handle_login W dec raw r P =
     (case decode_json dec r of
        None \<Rightarrow> (P, bad_body)
      | Some (name, pw) \<Rightarrow>
          (case lift_auth (login (we_auth W) (we_now W) raw name pw (client_ip W r) (rq_agent r) (pn_auth P)) P of
             (P1, Inl e) \<Rightarrow>
               if e = InvalidCredentials \<or> e = AccountLocked
               then (audit_log \<lparr>au_at = we_now W, au_source = ''panel'', au_actor_id = None, au_actor = name, au_ip = client_ip W r,
                       au_action = ''login.failed'', au_type = [], au_object = [], au_details = [(''reason'', aerror_text e)]\<rparr> P1,
                     Fail 401 (aerror_text e))
               else (P1, internal_error)
           | (P1, Inr (token, sess)) \<Rightarrow> (P1, Reply 200 (token, next_step sess, user_json (se_user sess)))))"

definition mfa_result :: "webenv \<Rightarrow> request \<Rightarrow> session \<Rightarrow> panel \<times> (aerror + unit) \<Rightarrow> panel \<times> string reply" where
  "mfa_result W r sess x =
     (case snd x of
        Inl e \<Rightarrow> (fst x, if e \<in> {InvalidCode, AccountLocked, MFASetupState} then Fail 401 (aerror_text e) else internal_error)
      | Inr _ \<Rightarrow> (audit W r sess ''login'' ''user'' [] [] (fst x), Reply 200 ''done''))"

definition no_pending :: "'a reply" where "no_pending = Fail 401 ''not signed in''"

definition handle_mfa :: "webenv \<Rightarrow> (string \<Rightarrow> string option) \<Rightarrow> session option \<Rightarrow> request \<Rightarrow> panel \<Rightarrow> panel \<times> string reply" where
  "handle_mfa W dec so r P =
     (case so of
        None \<Rightarrow> (P, no_pending)
      | Some sess \<Rightarrow>
          (case decode_json dec r of
             None \<Rightarrow> (P, bad_body)
           | Some code \<Rightarrow> mfa_result W r sess (lift_auth (verify_mfa (we_auth W) (we_now W) sess code (pn_auth P)) P)))"

definition handle_mfa_setup :: "webenv \<Rightarrow> string \<Rightarrow> session option \<Rightarrow> panel \<Rightarrow> panel \<times> (string \<times> string) reply" where
  "handle_mfa_setup W secret so P =
     (case so of
        None \<Rightarrow> (P, no_pending)
      | Some sess \<Rightarrow>
          (case lift_auth (begin_totp_setup (we_auth W) secret sess (pn_auth P)) P of
             (P1, Inl e) \<Rightarrow> (P1, if e = MFASetupState then Fail 409 (aerror_text e) else internal_error)
           | (P1, Inr x) \<Rightarrow> (P1, Reply 200 x)))"

definition handle_mfa_enable :: "webenv \<Rightarrow> (string \<Rightarrow> string option) \<Rightarrow> session option \<Rightarrow> request \<Rightarrow> panel \<Rightarrow> panel \<times> string reply" where
  "handle_mfa_enable W dec so r P =
     (case so of
        None \<Rightarrow> (P, no_pending)
      | Some sess \<Rightarrow>
          (case decode_json dec r of
             None \<Rightarrow> (P, bad_body)
           | Some code \<Rightarrow> mfa_result W r sess (lift_auth (enable_totp (we_auth W) (we_now W) sess code (pn_auth P)) P)))"

text \<open>The answer clears the cookie.\<close>

definition handle_logout :: "session option \<Rightarrow> panel \<Rightarrow> panel \<times> unit reply" where
  "handle_logout so P =
     (case so of None \<Rightarrow> (P, Reply 204 ()) | Some sess \<Rightarrow> (P\<lparr>pn_auth := logout (se_id sess) (pn_auth P)\<rparr>, Reply 204 ()))"

definition handle_me :: "session \<Rightarrow> (user \<times> perm list) reply" where "handle_me sess = Reply 200 (user_json (se_user sess))"

definition handle_audit_list :: "panel \<Rightarrow> audit_entry list reply" where "handle_audit_list P = Reply 200 (audit_list 200 P)"

text \<open>\<open>reauth\<close>: the password and the code that a sensitive request carries.\<close>

definition reauth :: "webenv \<Rightarrow> session \<Rightarrow> string \<Rightarrow> string \<Rightarrow> panel \<Rightarrow> panel \<times> (int \<times> string) option" where
  "reauth W sess pw code P =
     (case lift_auth (reauthenticate (we_auth W) (we_now W) (us_id (se_user sess)) pw code (pn_auth P)) P of
        (P1, Inr _) \<Rightarrow> (P1, None)
      | (P1, Inl e) \<Rightarrow>
          (P1, Some (if e = InvalidCredentials \<or> e = InvalidCode then (403, ''password or authentication code is not correct'')
                     else if e = AccountLocked then (403, aerror_text e) else (500, ''internal error''))))"

subsection \<open>Managing users\<close>

definition api_list_users :: "webenv \<Rightarrow> panel \<Rightarrow> (urow \<times> bool) list reply" where
  "api_list_users W P = Reply 200 (list_users (we_now W) (pn_auth P))"

record new_user =
  nu_name :: string
  nu_full :: string
  nu_email :: string
  nu_role :: string
  nu_password :: string

definition api_create_user ::
  "webenv \<Rightarrow> (string \<Rightarrow> new_user option) \<Rightarrow> string \<Rightarrow> session \<Rightarrow> request \<Rightarrow> panel \<Rightarrow> panel \<times> (user \<times> perm list) reply" where
  "api_create_user W dec salt sess r P =
     (case decode_json dec r of
        None \<Rightarrow> (P, bad_body)
      | Some n \<Rightarrow>
          (case lift_auth (create_user (we_auth W) (we_now W) salt (nu_name n) (nu_full n) (nu_email n) (nu_role n) (nu_password n) (pn_auth P)) P of
             (P1, Inl e) \<Rightarrow> (P1, Fail 400 (aerror_text e))
           | (P1, Inr u) \<Rightarrow>
               (audit W r sess ''user.create'' ''user'' (us_name u) [(''role'', us_role u)] P1, Reply 201 (user_json u))))"

definition user_result :: "webenv \<Rightarrow> request \<Rightarrow> session \<Rightarrow> string \<Rightarrow> int \<Rightarrow> panel \<times> (aerror + unit) \<Rightarrow> panel \<times> unit reply" where
  "user_result W r sess action i x =
     (case snd x of
        Inl e \<Rightarrow> (fst x, if e = UserNotFound then Fail 404 (aerror_text e) else Fail 400 (aerror_text e))
      | Inr _ \<Rightarrow> (audit W r sess action ''user'' (show_int i) [] (fst x), Reply 204 ()))"

text \<open>The operations on one user: with a body that is decoded, or without one.\<close>

datatype user_op = OpUpdate | OpPassword | OpResetMFA | OpUnlock

fun user_action :: "user_op \<Rightarrow> string" where
  "user_action OpUpdate = ''user.update''"
| "user_action OpPassword = ''user.password''"
| "user_action OpResetMFA = ''user.reset_mfa''"
| "user_action OpUnlock = ''user.unlock''"

record user_codec =
  uc_update :: "string \<Rightarrow> user_update option"
  uc_password :: "string \<Rightarrow> string option"
  uc_salt :: string

fun run_user_op :: "webenv \<Rightarrow> user_codec \<Rightarrow> session \<Rightarrow> request \<Rightarrow> int \<Rightarrow> user_op \<Rightarrow> authdb \<Rightarrow> (authdb \<times> (aerror + unit)) option" where
  "run_user_op W U sess r i OpUpdate db =
     map_option (\<lambda>u. update_user (us_id (se_user sess)) i u db) (decode_json (uc_update U) r)"
| "run_user_op W U sess r i OpPassword db =
     map_option (\<lambda>pw. set_password (we_auth W) (uc_salt U) i pw db) (decode_json (uc_password U) r)"
| "run_user_op W U sess r i OpResetMFA db = Some (reset_mfa i db)"
| "run_user_op W U sess r i OpUnlock db = Some (unlock_user i db, Inr ())"

definition api_user_op ::
  "webenv \<Rightarrow> user_codec \<Rightarrow> session \<Rightarrow> request \<Rightarrow> string list \<Rightarrow> user_op \<Rightarrow> panel \<Rightarrow> panel \<times> unit reply" where
  "api_user_op W U sess r ps oper P =
     (case path_id ps of
        None \<Rightarrow> (P, not_found)
      | Some i \<Rightarrow>
          (case run_user_op W U sess r i oper (pn_auth P) of
             None \<Rightarrow> (P, bad_body)
           | Some x \<Rightarrow> user_result W r sess (user_action oper) i (lift_auth x P)))"

subsection \<open>What reaches a handler\<close>

text \<open>A session as a request carries it: the cookie names a stored session that is neither expired nor idle, of an active user.\<close>

definition carried :: "webenv \<Rightarrow> request \<Rightarrow> authdb \<Rightarrow> session \<Rightarrow> bool" where
  "carried W r db sess =
     (\<exists>token s u. rq_cookie r = Some token \<and> find_row sr_id (hash_token (we_auth W) token) (sessions db) = Some s \<and>
        we_now W \<le> sr_expires s \<and> we_now W - sr_seen s \<le> idle_timeout \<and> u \<in> set (users db) \<and> us_id u = sr_user s \<and> us_active u \<and>
        se_user sess = public_user u \<and> se_mfa sess = sr_mfa s \<and> se_id sess = sr_id s)"

lemma authenticate_carried:
  assumes "authenticate (we_auth W) (we_now W) token db = (db1, Inr sess)" "rq_cookie r = Some token"
  shows "carried W r db sess"
proof -
  obtain s where s: "find_row sr_id (hash_token (we_auth W) token) (sessions db) = Some s"
    using assms(1) by (cases "find_row sr_id (hash_token (we_auth W) token) (sessions db)") (auto simp: authenticate_def Let_def split: if_splits)
  obtain u where u: "session_user s db = Some u"
    using assms(1) s by (cases "session_user s db") (auto simp: authenticate_def Let_def split: if_splits)
  have "u \<in> set (users db)" "us_id u = sr_user s" "us_active u"
    using u by (auto simp: session_user_def find_Some_iff)
  moreover have "we_now W \<le> sr_expires s" "we_now W - sr_seen s \<le> idle_timeout" "se_user sess = public_user u" "se_mfa sess = sr_mfa s"
    "se_id sess = sr_id s"
    using assms(1) s u by (auto simp: authenticate_def Let_def split: if_splits)
  ultimately show ?thesis using s assms(2) unfolding carried_def by blast
qed

lemma load_session_carried: "load_session W r db = (db1, Inr (Some sess)) \<Longrightarrow> carried W r db sess"
  by (auto simp: load_session_def split: option.splits if_splits prod.splits sum.splits intro: authenticate_carried)

definition public_handlers :: "string list" where
  "public_handlers = [''version'', ''handleLogin'', ''handleMFA'', ''handleMFASetup'', ''handleMFAEnable'', ''handleLogout'']"

text \<open>The access that a route asks for is granted.\<close>

fun granted :: "access \<Rightarrow> string \<Rightarrow> session option \<Rightarrow> bool" where
  "granted Anyone h so = (h \<in> set public_handlers)"
| "granted SignedIn h so = (case so of None \<Rightarrow> False | Some s \<Rightarrow> se_mfa s)"
| "granted (Needs p) h so = (case so of None \<Rightarrow> False | Some s \<Rightarrow> se_mfa s \<and> role_can (us_role (se_user s)) p)"

fun_cases refusal_NoneE: "refusal a so = None"

lemma not_refused: "refusal a so = None \<Longrightarrow> (a = Anyone \<longrightarrow> h \<in> set public_handlers) \<Longrightarrow> granted a h so"
  by (erule refusal_NoneE) (auto simp: require_perm_def require_user_def split: option.splits if_splits)

lemma public_routes: "list_all (\<lambda>ro. rt_access ro = Anyone \<longrightarrow> rt_handler ro \<in> set public_handlers) routes"
  by code_simp

lemma unguarded_routes: "list_all (\<lambda>ro. \<not> rt_guarded ro \<longrightarrow> rt_access ro = Anyone \<and> rt_method ro = GET) routes"
  by code_simp

lemma find_route_Some:
  "find_route rts m path = Some (ro, ps) \<Longrightarrow> ro \<in> set rts \<and> rt_method ro = m \<and> match_path (rt_path ro) path = Some ps"
  unfolding find_route_def by (induction rts) (auto split: if_splits option.splits)

lemma guarded_handled:
  assumes "guarded W ro ps r db = (db', Handled h qs so)" "ro \<in> set routes" "rt_method ro = rq_method r"
  shows "h = rt_handler ro \<and> qs = ps \<and> csrf_ok r \<and> granted (rt_access ro) h so \<and> (\<forall>s. so = Some s \<longrightarrow> carried W r db s)"
proof (cases "rt_guarded ro")
  case False
  then have "rt_access ro = Anyone" "rq_method r = GET" using unguarded_routes assms(2,3) by (auto simp: list_all_iff)
  moreover have "rt_handler ro \<in> set public_handlers" using public_routes assms(2) calculation(1) by (auto simp: list_all_iff)
  ultimately show ?thesis using assms(1) False by (auto simp: guarded_def csrf_ok_def)
next
  case True
  have csrf: "csrf_ok r" using assms(1) True by (auto simp: guarded_def split: if_splits)
  obtain so1 where load: "load_session W r db = (db', Inr so1)" and ref: "refusal (rt_access ro) so1 = None"
    and h: "h = rt_handler ro" "qs = ps" "so = so1"
    using assms(1) True csrf by (auto simp: guarded_def split: prod.splits sum.splits option.splits)
  have "granted (rt_access ro) h so"
    unfolding h(3) by (rule not_refused [OF ref]) (use public_routes assms(2) h(1) in \<open>auto simp: list_all_iff\<close>)
  then show ?thesis using csrf h load_session_carried load by auto
qed

lemma dispatch_guarded:
  assumes "dispatch W r db = (db', Handled h ps so)"
  shows "\<exists>ro. ro \<in> set routes \<and> rt_handler ro = h \<and> rt_method ro = rq_method r \<and>
     match_path (rt_path ro) (drop 2 (rq_path r)) = Some ps \<and> csrf_ok r \<and> granted (rt_access ro) h so \<and>
     (\<forall>s. so = Some s \<longrightarrow> carried W r db s)"
proof -
  obtain ro qs where f: "find_route routes (rq_method r) (drop 2 (rq_path r)) = Some (ro, qs)" and g: "guarded W ro qs r db = (db', Handled h ps so)"
    using assms by (auto simp: dispatch_def split: if_splits option.splits)
  note ro = find_route_Some [OF f]
  from guarded_handled [OF g] ro show ?thesis by auto
qed

text \<open>
  C2: A request gets to a handler only by a route of the table with its method: with the header against
  forged requests unless it only reads, and, unless the handler is one of those for signing in, with a
  cookie of a live session that passed the second factor, of an active user whose role grants the
  permission of the route.
\<close>

theorem handlers_guarded:
  assumes "dispatch W r db = (db', Handled h ps so)"
  shows "\<exists>ro. ro \<in> set routes \<and> rt_handler ro = h \<and> rt_method ro = rq_method r \<and>
     match_path (rt_path ro) (drop 2 (rq_path r)) = Some ps \<and>
     (rq_method r \<in> {GET, HEAD, OPTIONS} \<or> rq_header r = ''taktaplus'') \<and>
     (h \<in> set public_handlers \<or> (\<exists>s. so = Some s \<and> carried W r db s \<and> se_mfa s \<and>
        (rt_access ro = SignedIn \<or> (\<exists>p. rt_access ro = Needs p \<and> role_can (us_role (se_user s)) p))))"
proof -
  from dispatch_guarded [OF assms] obtain ro where ro: "ro \<in> set routes" "rt_handler ro = h" "rt_method ro = rq_method r"
    "match_path (rt_path ro) (drop 2 (rq_path r)) = Some ps" "csrf_ok r" "granted (rt_access ro) h so" "\<forall>s. so = Some s \<longrightarrow> carried W r db s"
    by blast
  have "h \<in> set public_handlers \<or> (\<exists>s. so = Some s \<and> carried W r db s \<and> se_mfa s \<and>
        (rt_access ro = SignedIn \<or> (\<exists>p. rt_access ro = Needs p \<and> role_can (us_role (se_user s)) p)))"
    using ro(6,7) by (cases "rt_access ro") (auto split: option.splits)
  then show ?thesis using ro(1-5) unfolding csrf_ok_def by blast
qed

subsection \<open>What each role may do\<close>

definition everyone_may :: "string list" where "everyone_may = [''refreshDevice'', ''ackAlert'', ''previewScript'']"

definition superadmin_only :: "string list" where
  "superadmin_only = [''createUser'', ''updateUser'', ''setPassword'', ''resetMFA'', ''unlockUser'', ''activateLicense'', ''licenseRequest'',
     ''uploadLicense'', ''licenseHeartbeat'', ''saveWindow'', ''deleteWindow'', ''setApprovalPolicy'']"

definition role_may :: "string \<Rightarrow> string \<Rightarrow> bool" where
  "role_may role h =
     (if role = RoleSuperAdmin then True
      else if role = RoleAdmin then h \<notin> set superadmin_only
      else if role = RoleApprover then h \<in> set (everyone_may @ [''approveChange'', ''rejectChange'', ''runChangeNow''])
      else if role = RoleOperator
      then h \<in> set (everyone_may @ [''runBackup'', ''createChange'', ''submitChange'', ''cancelChange'', ''saveScript'', ''deleteScript'',
                                   ''runScriptReadOnly'', ''setVariable'', ''deleteVariable''])
      else role = RoleViewer \<and> h \<in> set everyone_may)"

definition access_role :: "string \<Rightarrow> access \<Rightarrow> bool" where
  "access_role role a = (case a of Needs p \<Rightarrow> role_can role p | _ \<Rightarrow> True)"

lemma role_table:
  "list_all (\<lambda>role. list_all (\<lambda>ro. rt_method ro \<noteq> GET \<longrightarrow> rt_handler ro \<notin> set public_handlers \<longrightarrow>
       (access_role role (rt_access ro) \<longleftrightarrow> role_may role (rt_handler ro))) routes)
     [RoleSuperAdmin, RoleAdmin, RoleApprover, RoleOperator, RoleViewer]"
  by code_simp

lemma known_role: "role_can role p \<Longrightarrow> role \<in> set [RoleSuperAdmin, RoleAdmin, RoleApprover, RoleOperator, RoleViewer]"
  by (auto simp: role_can_def perms_of_def role_perms_def split: if_splits)

lemma writes_need_permission: "list_all (\<lambda>ro. rt_method ro \<noteq> GET \<longrightarrow> rt_handler ro \<in> set public_handlers \<or> (case rt_access ro of Needs p \<Rightarrow> True | _ \<Rightarrow> False)) routes"
  by code_simp

lemma write_allowed:
  assumes "dispatch W r db = (db', Handled h ps so)" and "rq_method r \<noteq> GET" and "h \<notin> set public_handlers"
  shows "\<exists>s. so = Some s \<and> carried W r db s \<and> se_mfa s \<and> role_may (us_role (se_user s)) h"
proof -
  from dispatch_guarded [OF assms(1)] obtain ro where ro: "ro \<in> set routes" "rt_handler ro = h" "rt_method ro = rq_method r"
    "granted (rt_access ro) h so" "\<forall>s. so = Some s \<longrightarrow> carried W r db s" by blast
  have "rt_method ro \<noteq> GET" "rt_handler ro \<notin> set public_handlers" using assms(2,3) ro(2,3) by simp_all
  then obtain p where p: "rt_access ro = Needs p"
    using writes_need_permission ro(1) by (cases "rt_access ro") (fastforce simp: list_all_iff)+
  with ro(4) obtain s where s: "so = Some s" "se_mfa s" "role_can (us_role (se_user s)) p" by (auto split: option.splits)
  have "access_role (us_role (se_user s)) (rt_access ro) \<longleftrightarrow> role_may (us_role (se_user s)) (rt_handler ro)"
    using role_table known_role [OF s(3)] ro(1) \<open>rt_method ro \<noteq> GET\<close> \<open>rt_handler ro \<notin> set public_handlers\<close>
    by (simp only: list_all_iff) blast
  then show ?thesis using s ro(2,5) p by (simp add: access_role_def)
qed

text \<open>
  C5: Beyond signing in, a request that may change something gets to its handler only when the role of
  its user may do that: viewers refresh a device, acknowledge an alert and preview a script, approvers
  also decide changes, operators also run backups and prepare changes and scripts, administrators do
  all but accounts, license, windows and approval policies, which are for superadministrators.
\<close>

theorem roles_separated:
  assumes "dispatch W r db = (db', Handled h ps so)" and "rq_method r \<noteq> GET" and "h \<notin> set public_handlers"
  shows "\<exists>s. so = Some s \<and> carried W r db s \<and> role_may (us_role (se_user s)) h"
  using write_allowed [OF assms] by blast

subsection \<open>Operations on users are audited\<close>

lemma set_password_refused: "set_password E salt i pw db = (db', Inl e) \<Longrightarrow> db' = db"
  by (cases "hash_password (ae_crypto E) salt pw") (auto simp: set_password_def split: if_splits)

lemma run_user_op_refused: "run_user_op W U sess r i oper db = Some (db', Inl e) \<Longrightarrow> db' = db"
  by (cases oper) (auto simp: update_user_def apply_profile_def reset_mfa_def Let_def split: if_splits option.splits dest: set_password_refused)

text \<open>
  C31: An operation on a user that is refused changes neither the accounts nor the log; one that is done
  adds one entry that names who did it, from where, what and to whom.
\<close>

theorem user_operations_audited:
  assumes "api_user_op W U sess r ps oper P = (P', rep)"
  shows "case rep of
      Fail code msg \<Rightarrow> P' = P
    | Reply code u \<Rightarrow>
        (\<exists>i e. path_id ps = Some i \<and> pn_audit P' = pn_audit P @ [e] \<and> au_actor_id e = Some (us_id (se_user sess)) \<and>
           au_actor e = us_name (se_user sess) \<and> au_ip e = client_ip W r \<and> au_at e = we_now W \<and> au_action e = user_action oper \<and>
           au_type e = ''user'' \<and> au_object e = show_int i \<and> run_user_op W U sess r i oper (pn_auth P) = Some (pn_auth P', Inr ()))"
proof (cases "path_id ps")
  case None
  then show ?thesis using assms by (auto simp: api_user_op_def not_found_def)
next
  case (Some i)
  show ?thesis
  proof (cases "run_user_op W U sess r i oper (pn_auth P)")
    case None
    then show ?thesis using assms Some by (auto simp: api_user_op_def bad_body_def)
  next
    case run: (Some x)
    obtain db' res where x: "x = (db', res)" by (cases x)
    have eq: "(P', rep) = user_result W r sess (user_action oper) i (lift_auth x P)" using assms Some run by (simp add: api_user_op_def)
    show ?thesis
    proof (cases res)
      case (Inl e)
      from run_user_op_refused [of W U sess r i oper "pn_auth P" db' e] run x Inl have "db' = pn_auth P" by simp
      then show ?thesis using eq x Inl by (auto simp: user_result_def lift_auth_def)
    next
      case (Inr u)
      then show ?thesis using eq x run Some by (auto simp: user_result_def lift_auth_def audit_def audit_log_def)
    qed
  qed
qed

text \<open>Unlocking a user that does not exist succeeds, and is logged.\<close>

lemma unlock_unknown_succeeds:
  assumes "path_id ps = Some i" "find_row us_id i (users (pn_auth P)) = None"
  shows "\<exists>P'. api_user_op W U sess r ps OpUnlock P = (P', Reply 204 ()) \<and> length (pn_audit P') = Suc (length (pn_audit P)) \<and>
     pn_auth P' = pn_auth P"
proof -
  have "users (unlock_user i (pn_auth P)) = users (pn_auth P)"
    using assms(2) by (auto simp: unlock_user_def set_user_def upd_rows_def find_row_None intro!: map_idI)
  then have "unlock_user i (pn_auth P) = pn_auth P" by (simp add: unlock_user_def set_user_def)
  then show ?thesis using assms(1) by (simp add: api_user_op_def user_result_def lift_auth_def audit_def audit_log_def)
qed

subsection \<open>Examples\<close>

definition sample_web :: webenv where
  "sample_web = \<lparr>we_auth = sample_authenv, we_net = \<lparr>nl_split_host = Some, nl_parse_ip = Some, nl_to4 = (\<lambda>_. None)\<rparr>, we_now = 61 * second\<rparr>"

definition sample_signed_in :: "int \<Rightarrow> authdb" where
  "sample_signed_in i = sample_auth\<lparr>sessions := [sample_session\<lparr>sr_user := i, sr_mfa := True\<rparr>]\<rparr>"

definition sample_http :: "http_method \<Rightarrow> string list \<Rightarrow> request" where
  "sample_http m path = \<lparr>rq_method = m, rq_path = [''api'', ''v1''] @ path, rq_header = ''taktaplus'', rq_cookie = Some ''tok'',
     rq_remote = ''10.0.0.9'', rq_agent = [], rq_body = [], rq_length = 0, rq_query = (\<lambda>_. [])\<rparr>"

lemma sample_load:
  assumes "i = 1 \<or> i = 2"
  shows "\<exists>db' s. load_session sample_web (sample_http m path) (sample_signed_in i) = (db', Inr (Some s)) \<and> se_mfa s \<and>
     us_role (se_user s) = (if i = 1 then RoleSuperAdmin else RoleViewer)"
  using assms
  by (auto simp: load_session_def sample_http_def sample_web_def sample_signed_in_def authenticate_def hash_token_def sample_authenv_def
      sample_crypto_def sample_auth_def find_row_Cons sample_session_def session_user_def sample_root_def sample_viewer_def
      session_ttl_def idle_timeout_def public_user_def user.defs Let_def)

lemma sample_dispatch:
  assumes "i = 1 \<or> i = 2" "find_route routes m path = Some (ro, ps)" "rt_guarded ro" "rt_access ro = Needs p"
  shows "\<exists>db' s. dispatch sample_web (sample_http m path) (sample_signed_in i) =
     (db', if role_can (if i = 1 then RoleSuperAdmin else RoleViewer) p then Handled (rt_handler ro) ps (Some s) else Refused 403 ''permission denied'')"
proof -
  obtain db' s where "load_session sample_web (sample_http m path) (sample_signed_in i) = (db', Inr (Some s))" "se_mfa s"
    "us_role (se_user s) = (if i = 1 then RoleSuperAdmin else RoleViewer)" using sample_load [OF assms(1)] by blast
  moreover have "rq_path (sample_http m path) = ''api'' # ''v1'' # path" "rq_method (sample_http m path) = m" "csrf_ok (sample_http m path)"
    by (simp_all add: sample_http_def csrf_ok_def)
  ultimately show ?thesis
    using assms(2-4) by (simp add: dispatch_def guarded_def require_perm_def require_user_def)
qed

lemma sample_delete: "find_route routes DELETE [''devices'', ''7''] = Some (rt (Needs PermDevicesWrite) DELETE ''devices/{id}'' ''deleteDevice'', [''7''])"
  by code_simp

lemma sample_refresh:
  "find_route routes POST [''devices'', ''7'', ''refresh''] = Some (rt (Needs PermDevicesRead) POST ''devices/{id}/refresh'' ''refreshDevice'', [''7''])"
  by code_simp

lemma sample_roles: "role_can RoleSuperAdmin PermDevicesWrite" "role_can RoleViewer PermDevicesRead" "\<not> role_can RoleViewer PermDevicesWrite"
  by code_simp+

theorem handlers_guarded_witness:
  "\<exists>db' so ro. dispatch sample_web (sample_http DELETE [''devices'', ''7'']) (sample_signed_in 1) = (db', Handled ''deleteDevice'' [''7''] so) \<and>
     ro \<in> set routes \<and> rt_handler ro = ''deleteDevice'' \<and> so \<noteq> None"
proof -
  obtain db' s where d: "dispatch sample_web (sample_http DELETE [''devices'', ''7'']) (sample_signed_in 1) = (db', Handled ''deleteDevice'' [''7''] (Some s))"
    using sample_dispatch [of 1, OF _ sample_delete] sample_roles by (auto simp: rt_def)
  from handlers_guarded [OF d] d show ?thesis by blast
qed

theorem roles_separated_witness:
  "(\<exists>db' s. dispatch sample_web (sample_http POST [''devices'', ''7'', ''refresh'']) (sample_signed_in 2) = (db', Handled ''refreshDevice'' [''7''] (Some s)) \<and>
     role_may (us_role (se_user s)) ''refreshDevice'') \<and>
   snd (dispatch sample_web (sample_http DELETE [''devices'', ''7'']) (sample_signed_in 2)) = Refused 403 ''permission denied''"
proof
  let ?r = "sample_http POST [''devices'', ''7'', ''refresh'']"
  obtain db' s where d: "dispatch sample_web ?r (sample_signed_in 2) = (db', Handled ''refreshDevice'' [''7''] (Some s))"
    using sample_dispatch [of 2, OF _ sample_refresh] sample_roles by (auto simp: rt_def)
  have "rq_method ?r \<noteq> GET" "''refreshDevice'' \<notin> set public_handlers" by (simp_all add: sample_http_def public_handlers_def)
  from roles_separated [OF d this] d
  show "\<exists>db' s. dispatch sample_web ?r (sample_signed_in 2) = (db', Handled ''refreshDevice'' [''7''] (Some s)) \<and>
     role_may (us_role (se_user s)) ''refreshDevice''" by blast
  show "snd (dispatch sample_web (sample_http DELETE [''devices'', ''7'']) (sample_signed_in 2)) = Refused 403 ''permission denied''"
    using sample_dispatch [of 2, OF _ sample_delete] sample_roles by (auto simp: rt_def)
qed

definition sample_codec :: user_codec where
  "sample_codec = \<lparr>uc_update = (\<lambda>_. None), uc_password = Some, uc_salt = ''salt''\<rparr>"

definition sample_admin :: session where
  "sample_admin = \<lparr>se_id = ''sha256:tok'', se_user = public_user sample_root, se_mfa = True, se_expires = session_ttl\<rparr>"

lemma sample_path_id: "path_id [''2''] = Some 2" by code_simp

lemma sample_reset: "\<exists>db'. reset_mfa 2 sample_auth = (db', Inr ())"
  by (simp add: reset_mfa_def sample_auth_def sample_root_def sample_viewer_def find_row_Cons Let_def)

theorem user_operations_audited_witness:
  "\<exists>P' e. api_user_op sample_web sample_codec sample_admin (sample_http POST []) [''2''] OpResetMFA \<lparr>pn_auth = sample_auth, pn_audit = []\<rparr> =
       (P', Reply 204 ()) \<and> pn_audit P' = [e] \<and> au_action e = ''user.reset_mfa'' \<and> au_actor e = ''root'' \<and> au_object e = ''2''"
proof -
  let ?x = "api_user_op sample_web sample_codec sample_admin (sample_http POST []) [''2''] OpResetMFA \<lparr>pn_auth = sample_auth, pn_audit = []\<rparr>"
  obtain P' where x: "?x = (P', Reply 204 ())"
    using sample_reset by (auto simp: api_user_op_def sample_path_id user_result_def lift_auth_def)
  have "show_int 2 = ''2''" by code_simp
  then show ?thesis using user_operations_audited [OF x] x sample_path_id
    by (auto simp: sample_admin_def sample_root_def public_user_def user.defs)
qed

end
