(* ===== verification/Site.thy ===== *)
theory Site
  imports Api Backup Monitor Deploy
begin

text \<open>
  The handlers of the panel's HTTP interface for devices, groups, alerts (\<open>device_handlers.go\<close>) and backups
  (\<open>backup_handlers.go\<close>), and the state they work on: the services behind them and the audit log.

  A handler gets the session that the guards found and the parameters of its path; \<open>codecs\<close> decode the
  bodies. Deleting a device or a group reaches the rows of the other services by the foreign keys of
  the database (\<open>ON DELETE\<close>). Timeouts and cancelled requests are not modelled.
\<close>

subsection \<open>The state of the panel\<close>

record site =
  st_panel :: panel
  st_inv :: inv
  st_mon :: monitor
  st_alerts :: alertdb
  st_bk :: bkdb
  st_chg :: chg
  st_stops :: "int set"
  st_scripts :: scriptdb

record codecs =
  cd_reauth :: "string \<Rightarrow> (string \<times> string) option"
  cd_input :: "string \<Rightarrow> input option"
  cd_group :: "string \<Rightarrow> (string \<times> string) option"
  cd_rule :: "string \<Rightarrow> rule option"
  cd_channel :: "string \<Rightarrow> channel option"
  cd_lock :: "string \<Rightarrow> (bool \<times> string) option"
  cd_backup_policy :: "string \<Rightarrow> bpolicy option"
  cd_change :: "string \<Rightarrow> create_input option"
  cd_action :: "string \<Rightarrow> (string \<Rightarrow> string) option"
  cd_window :: "string \<Rightarrow> window option"
  cd_approval :: "string \<Rightarrow> (int option \<times> int option) option"
  cd_script :: "string \<Rightarrow> script option"
  cd_preview :: "string \<Rightarrow> (string \<times> int \<times> (string \<rightharpoonup> string)) option"
  cd_run :: "string \<Rightarrow> int list option"
  cd_variable :: "string \<Rightarrow> (string \<times> int \<times> string \<times> string) option"
  cd_spec :: "string \<Rightarrow> spec option"
  cd_print_spec :: "spec \<Rightarrow> string"

text \<open>\<open>sv_rnd\<close> is the random part of the name of a backup file; \<open>sv_runners\<close> the other kinds of changes.\<close>

record ('l, 't) siteenv =
  sv_web :: webenv
  sv_alerts :: "'l alertenv"
  sv_bk :: "'l bkenv"
  sv_rnd :: string
  sv_tmpl :: "'t tmpl"
  sv_runners :: "string \<rightharpoonup> preview"
  sv_mf :: mflib
  sv_repo :: repo
  sv_codec :: codecs

abbreviation sv_now :: "('l, 't) siteenv \<Rightarrow> time" where "sv_now E \<equiv> we_now (sv_web E)"
abbreviation sv_lic :: "('l, 't) siteenv \<Rightarrow> 'l licapi" where "sv_lic E \<equiv> av_lic (sv_alerts E)"
abbreviation sv_inv :: "('l, 't) siteenv \<Rightarrow> invenv" where "sv_inv E \<equiv> av_inv (sv_alerts E)"
abbreviation sv_guard :: "('l, 't) siteenv \<Rightarrow> 'l guard" where "sv_guard E \<equiv> av_guard (sv_alerts E)"

text \<open>One inventory, license and clock serve all.\<close>

definition site_bk :: "('l, 't) siteenv \<Rightarrow> 'l bkenv" where
  "site_bk E = (sv_bk E)\<lparr>be_lic := sv_lic E, be_guard := sv_guard E, be_inv := sv_inv E\<rparr>"

definition site_device :: "('l, 't) siteenv \<Rightarrow> site \<Rightarrow> int \<Rightarrow> ierror + device" where
  "site_device E S i = get_device (sv_lic E) (sv_inv E) (sv_now E) (sv_guard E) (st_inv S) i"

subsection \<open>Deleting across tables\<close>

definition drop_device_alerts :: "int \<Rightarrow> alertdb \<Rightarrow> alertdb" where
  "drop_device_alerts i A = A\<lparr>alerts := del_rows (\<lambda>a. al_device a = i) (alerts A), pendings := del_rows (\<lambda>p. pd_device p = i) (pendings A)\<rparr>"

definition drop_runs :: "int \<Rightarrow> scriptdb \<Rightarrow> scriptdb" where
  "drop_runs i D = D\<lparr>sd_runs := del_rows (\<lambda>r. script_run.sn_device r = i) (sd_runs D)\<rparr>"

definition drop_device :: "int \<Rightarrow> site \<Rightarrow> site \<times> (ierror + unit)" where
  "drop_device i S =
     (case delete_device i (st_inv S) of
        (I, Inl e) \<Rightarrow> (S, Inl e)
      | (I, Inr u) \<Rightarrow>
          (S\<lparr>st_inv := I, st_alerts := drop_device_alerts i (st_alerts S), st_bk := Backup.forget_device i (st_bk S),
             st_chg := Changes.forget_device i (st_chg S), st_scripts := drop_runs i (st_scripts S)\<rparr>, Inr u))"

definition drop_group_alerts :: "int \<Rightarrow> alertdb \<Rightarrow> alertdb" where
  "drop_group_alerts g A =
     (let ids = set (map ar_id (filter (\<lambda>r. ar_group r = Some g) (rules A)))
      in A\<lparr>rules := del_rows (\<lambda>r. ar_group r = Some g) (rules A), alerts := del_rows (\<lambda>a. al_rule a \<in> ids) (alerts A),
           pendings := del_rows (\<lambda>p. pd_rule p \<in> ids) (pendings A)\<rparr>)"

definition drop_group_settings :: "int \<Rightarrow> chg \<Rightarrow> chg" where
  "drop_group_settings g C =
     C\<lparr>windows := del_rows (\<lambda>w. w_group w = Some g) (windows C), policies := del_rows (\<lambda>p. po_group p = Some g) (policies C)\<rparr>"

definition drop_group :: "int \<Rightarrow> site \<Rightarrow> site \<times> (ierror + unit)" where
  "drop_group g S =
     (case delete_group g (st_inv S) of
        (I, Inl e) \<Rightarrow> (S, Inl e)
      | (I, Inr u) \<Rightarrow>
          (S\<lparr>st_inv := I, st_alerts := drop_group_alerts g (st_alerts S),
             st_bk := (st_bk S)\<lparr>bpolicies := del_rows (\<lambda>p. bp_group p = Some g) (bpolicies (st_bk S))\<rparr>,
             st_chg := drop_group_settings g (st_chg S)\<rparr>, Inr u))"

subsection \<open>What handlers have in common\<close>

definition optional_id :: "Api.request \<Rightarrow> string \<Rightarrow> int option" where
  "optional_id r name = (case atoi (rq_query r name) of Some v \<Rightarrow> if v \<le> 0 then None else Some v | None \<Rightarrow> None)"

definition site_log ::
  "('l, 't) siteenv \<Rightarrow> Api.request \<Rightarrow> session \<Rightarrow> string \<Rightarrow> string \<Rightarrow> string \<Rightarrow> (string \<times> string) list \<Rightarrow> site \<Rightarrow> site" where
  "site_log E r sess action kind obj details S = S\<lparr>st_panel := Api.audit (sv_web E) r sess action kind obj details (st_panel S)\<rparr>"

type_synonym 'a answer = "site \<times> 'a Api.reply"

text \<open>These work on any state \<open>'s\<close>: the packages and the two-factor users have their own.\<close>

definition with_id :: "string list \<Rightarrow> 's \<Rightarrow> (int \<Rightarrow> 's \<times> 'a Api.reply) \<Rightarrow> 's \<times> 'a Api.reply" where
  "with_id ps S k = (case path_id ps of None \<Rightarrow> (S, not_found) | Some i \<Rightarrow> k i)"

definition with_body :: "(string \<Rightarrow> 'b option) \<Rightarrow> Api.request \<Rightarrow> 's \<Rightarrow> ('b \<Rightarrow> 's \<times> 'a Api.reply) \<Rightarrow> 's \<times> 'a Api.reply" where
  "with_body dec r S k = (case decode_json dec r of None \<Rightarrow> (S, bad_body) | Some b \<Rightarrow> k b)"

text \<open>A \<open>PUT\<close> has its object in the path; a \<open>POST\<close> makes a new one.\<close>

definition with_save_id :: "Api.request \<Rightarrow> string list \<Rightarrow> 's \<Rightarrow> (int \<Rightarrow> 's \<times> 'a Api.reply) \<Rightarrow> 's \<times> 'a Api.reply" where
  "with_save_id r ps S k = (if rq_method r = PUT then with_id ps S k else k 0)"

definition with_reauth ::
  "('l, 't) siteenv \<Rightarrow> session \<Rightarrow> Api.request \<Rightarrow> site \<Rightarrow> (site \<Rightarrow> 'a answer) \<Rightarrow> 'a answer" where
  "with_reauth E sess r S k =
     with_body (cd_reauth (sv_codec E)) r S (\<lambda>(pw, code).
       case reauth (sv_web E) sess pw code (st_panel S) of
         (P, Some (status, msg)) \<Rightarrow> (S\<lparr>st_panel := P\<rparr>, Fail status msg)
       | (P, None) \<Rightarrow> k (S\<lparr>st_panel := P\<rparr>))"

text \<open>The end of most handlers: an error becomes an answer; a success is logged and answered.\<close>

definition finish :: "('e \<Rightarrow> 'b Api.reply) \<Rightarrow> ('a \<Rightarrow> 's \<Rightarrow> 's) \<Rightarrow> ('a \<Rightarrow> 'b Api.reply) \<Rightarrow> 's \<times> ('e + 'a) \<Rightarrow> 's \<times> 'b Api.reply" where
  "finish bad entry good x = (case x of (S, Inl e) \<Rightarrow> (S, bad e) | (S, Inr a) \<Rightarrow> (entry a S, good a))"

text \<open>What these leave, for any predicate on the state.\<close>

lemma id_rule: "Q S \<Longrightarrow> (\<And>i. Q (fst (k i))) \<Longrightarrow> Q (fst (with_id ps S k))"
  by (auto simp: with_id_def split: option.split)

lemma body_rule: "Q S \<Longrightarrow> (\<And>b. Q (fst (k b))) \<Longrightarrow> Q (fst (with_body dec r S k))"
  by (auto simp: with_body_def split: option.split)

lemma save_id_rule: "Q S \<Longrightarrow> (\<And>i. Q (fst (k i))) \<Longrightarrow> Q (fst (with_save_id r ps S k))"
  by (auto simp: with_save_id_def intro: id_rule)

lemma finish_rule:
  "(\<And>e. snd x = Inl e \<Longrightarrow> Q (fst x)) \<Longrightarrow> (\<And>a. snd x = Inr a \<Longrightarrow> Q (entry a (fst x))) \<Longrightarrow> Q (fst (finish bad entry good x))"
  by (auto simp: finish_def split: prod.split sum.split)

lemma finish_silent: "fst (finish bad (\<lambda>_ S. S) good x) = fst x"
  by (simp add: finish_def split: prod.split sum.split)

text \<open>An entry in the name of the user of a session.\<close>

definition entry_of :: "webenv \<Rightarrow> session \<Rightarrow> Api.request \<Rightarrow> audit_entry \<Rightarrow> bool" where
  "entry_of W sess r e \<longleftrightarrow> au_actor e = us_name (se_user sess) \<and> au_ip e = client_ip W r \<and> au_at e = we_now W"

text \<open>
  What a state with an audit log promises of a request: the log only grows, by entries of one user, and
  without an entry nothing else changed. \<open>mine\<close> says whose entry it is, \<open>same\<close> what the log is about.
\<close>

locale journal =
  fixes log_entries :: "'s \<Rightarrow> audit_entry list" and same :: "'s \<Rightarrow> 's \<Rightarrow> bool" and mine :: "audit_entry \<Rightarrow> bool"
  assumes same_refl: "same S S"
begin

definition told :: "'s \<Rightarrow> 's \<Rightarrow> bool" where
  "told S S' \<longleftrightarrow> (\<exists>es. log_entries S' = log_entries S @ es \<and> list_all mine es \<and> (es = [] \<longrightarrow> same S S'))"

lemma told_refl: "told S S" by (simp add: told_def same_refl)

lemma told_quiet: "log_entries S' = log_entries S \<Longrightarrow> same S S' \<Longrightarrow> told S S'" by (simp add: told_def)

lemma told_entry: "log_entries S' = log_entries S @ [e] \<Longrightarrow> mine e \<Longrightarrow> told S S'" by (simp add: told_def)

lemma told_id: "(\<And>i. told S (fst (k i))) \<Longrightarrow> told S (fst (with_id ps S k))"
  by (rule id_rule) (rule told_refl)

lemma told_body: "(\<And>b. told S (fst (k b))) \<Longrightarrow> told S (fst (with_body dec r S k))"
  by (rule body_rule) (rule told_refl)

lemma told_save: "(\<And>i. told S (fst (k i))) \<Longrightarrow> told S (fst (with_save_id r ps S k))"
  by (rule save_id_rule) (rule told_refl)

lemma told_finish:
  assumes "log_entries (fst x) = log_entries S" and "\<And>e. snd x = Inl e \<Longrightarrow> same S (fst x)"
    and "\<And>a S1. \<exists>e. mine e \<and> log_entries (entry a S1) = log_entries S1 @ [e]"
  shows "told S (fst (finish bad entry good x))"
  by (rule finish_rule) (use assms told_entry in \<open>auto intro: told_quiet, metis\<close>)

end

definition on_inv :: "(inv \<Rightarrow> inv \<times> 'r) \<Rightarrow> site \<Rightarrow> site \<times> 'r" where "on_inv f S = (case f (st_inv S) of (I, x) \<Rightarrow> (S\<lparr>st_inv := I\<rparr>, x))"
definition on_alerts :: "(alertdb \<Rightarrow> alertdb \<times> 'r) \<Rightarrow> site \<Rightarrow> site \<times> 'r" where "on_alerts f S = (case f (st_alerts S) of (A, x) \<Rightarrow> (S\<lparr>st_alerts := A\<rparr>, x))"
definition on_bk :: "(bkdb \<Rightarrow> bkdb \<times> 'r) \<Rightarrow> site \<Rightarrow> site \<times> 'r" where "on_bk f S = (case f (st_bk S) of (B, x) \<Rightarrow> (S\<lparr>st_bk := B\<rparr>, x))"

fun service_error :: "ierror \<Rightarrow> 'a Api.reply" where
  "service_error (InvInput m) = Fail 400 (ierror_text (InvInput m))"
| "service_error InvNotFound = not_found"
| "service_error e = internal_error"

fun alert_error :: "alerror \<Rightarrow> 'a Api.reply" where
  "alert_error (AlInput m) = Fail 400 m"
| "alert_error AlNotFound = not_found"
| "alert_error e = internal_error"

definition device_error :: "ierror \<Rightarrow> 'a Api.reply" where
  "device_error e = (case e of InvInput m \<Rightarrow> service_error e | InvNotFound \<Rightarrow> service_error e | _ \<Rightarrow> Fail 502 (ierror_text e))"

fun backup_error :: "bkerror \<Rightarrow> 'a Api.reply" where
  "backup_error (BkInput m) = Fail 400 (bkerror_text (BkInput m))"
| "backup_error BkNotFound = not_found"
| "backup_error BkNotLicensed = Fail 409 (bkerror_text BkNotLicensed)"
| "backup_error BkRestoreRunning = Fail 409 (bkerror_text BkRestoreRunning)"
| "backup_error (BkInventory e) = device_error e"
| "backup_error e = Fail 502 (bkerror_text e)"

subsection \<open>Devices and groups\<close>

definition list_devices_h :: "('l, 't) siteenv \<Rightarrow> Api.request \<Rightarrow> site \<Rightarrow> (device \<times> snapshot option) list answer" where
  "list_devices_h E r S =
     (case list_devices (sv_lic E) (sv_inv E) (sv_now E) (sv_guard E) (st_inv S) (optional_id r ''group'') (rq_query r ''q'') of
        Inl e \<Rightarrow> (S, internal_error)
      | Inr ds \<Rightarrow> (S, Api.Reply 200 (map (\<lambda>d. (d, statuses (st_inv S) (d_id d))) ds)))"

definition discover_h :: "('l, 't) siteenv \<Rightarrow> Api.request \<Rightarrow> site \<Rightarrow> discover_result answer" where
  "discover_h E r S =
     with_body (cd_input (sv_codec E)) r S (\<lambda>inp.
       case discover (sv_lic E) (sv_inv E) (sv_now E) (sv_guard E) (case optional_id r ''id'' of None \<Rightarrow> 0 | Some i \<Rightarrow> i) inp (st_inv S) of
         Inl e \<Rightarrow> (S, device_error e) | Inr res \<Rightarrow> (S, Api.Reply 200 res))"

definition site_refresh :: "('l, 't) siteenv \<Rightarrow> int \<Rightarrow> site \<Rightarrow> site \<times> (ierror + unit)" where
  "site_refresh E i S =
     (case refresh (sv_lic E) (sv_inv E) (sv_now E) (sv_guard E) i (st_mon S, st_inv S) of
        ((m, I), x) \<Rightarrow> (S\<lparr>st_mon := m, st_inv := I\<rparr>, x))"

text \<open>A device whose serial number turns out to be registered is deleted again; any other error leaves it saved.\<close>

definition create_device_h :: "('l, 't) siteenv \<Rightarrow> session \<Rightarrow> Api.request \<Rightarrow> site \<Rightarrow> device answer" where
  "create_device_h E sess r S =
     with_body (cd_input (sv_codec E)) r S (\<lambda>inp.
       case on_inv (create_device (sv_inv E) (sv_now E) inp) S of
         (S1, Inl e) \<Rightarrow> (S1, service_error e)
       | (S1, Inr i) \<Rightarrow>
           (let S2 = site_log E r sess ''device.create'' ''device'' (show_int i)
                       [(''name'', i_name inp), (''host'', i_host inp), (''kind'', i_kind inp)] S1
            in case site_refresh E i S2 of
                 (S3, Inl (InvInput m)) \<Rightarrow> (fst (drop_device i S3), Fail 400 (ierror_text (InvInput m)))
               | (S3, _) \<Rightarrow> (case site_device E S3 i of Inl e \<Rightarrow> (S3, service_error e) | Inr d \<Rightarrow> (S3, Api.Reply 201 d))))"

definition get_device_h :: "('l, 't) siteenv \<Rightarrow> string list \<Rightarrow> site \<Rightarrow> (device \<times> snapshot option) answer" where
  "get_device_h E ps S =
     with_id ps S (\<lambda>i. case site_device E S i of Inl e \<Rightarrow> (S, service_error e) | Inr d \<Rightarrow> (S, Api.Reply 200 (d, status_of i (st_inv S))))"

definition update_device_h :: "('l, 't) siteenv \<Rightarrow> session \<Rightarrow> Api.request \<Rightarrow> string list \<Rightarrow> site \<Rightarrow> unit answer" where
  "update_device_h E sess r ps S =
     with_id ps S (\<lambda>i. with_body (cd_input (sv_codec E)) r S (\<lambda>inp.
       finish service_error
         (\<lambda>_. site_log E r sess ''device.update'' ''device'' (show_int i)
                [(''name'', i_name inp), (''host'', i_host inp), (''credentials_changed'', if i_creds inp = None then ''false'' else ''true'')])
         (Api.Reply 204)
         (on_inv (update_device (sv_lic E) (sv_inv E) (sv_now E) (sv_guard E) i inp) S)))"

definition delete_device_h :: "('l, 't) siteenv \<Rightarrow> session \<Rightarrow> Api.request \<Rightarrow> string list \<Rightarrow> site \<Rightarrow> unit answer" where
  "delete_device_h E sess r ps S0 =
     with_id ps S0 (\<lambda>i. with_reauth E sess r S0 (\<lambda>S.
       case site_device E S i of
         Inl e \<Rightarrow> (S, service_error e)
       | Inr d \<Rightarrow>
           finish service_error
             (\<lambda>_. site_log E r sess ''device.delete'' ''device'' (show_int i) [(''name'', d_name d), (''serial'', d_serial d)])
             (Api.Reply 204) (drop_device i S)))"

definition refresh_device_h :: "('l, 't) siteenv \<Rightarrow> string list \<Rightarrow> site \<Rightarrow> (device \<times> snapshot option) answer" where
  "refresh_device_h E ps S =
     with_id ps S (\<lambda>i. case site_refresh E i S of (S1, Inl e) \<Rightarrow> (S1, device_error e) | (S1, Inr _) \<Rightarrow> get_device_h E ps S1)"

definition device_metrics_h :: "('l, 't) siteenv \<Rightarrow> Api.request \<Rightarrow> string list \<Rightarrow> site \<Rightarrow> metric list answer" where
  "device_metrics_h E r ps S =
     with_id ps S (\<lambda>i.
       let h0 = (case atoi (rq_query r ''hours'') of None \<Rightarrow> 0 | Some n \<Rightarrow> n); h = (if h0 \<le> 0 \<or> 24 * 30 < h0 then 24 else h0)
       in (S, Api.Reply 200 (metrics (sv_now E) i (sv_now E - h * hour) (st_inv S))))"

definition list_groups_h :: "site \<Rightarrow> (Inventory.group \<times> nat) list answer" where "list_groups_h S = (S, Api.Reply 200 (list_groups (st_inv S)))"

definition save_group_h :: "('l, 't) siteenv \<Rightarrow> session \<Rightarrow> Api.request \<Rightarrow> string list \<Rightarrow> site \<Rightarrow> int answer" where
  "save_group_h E sess r ps S =
     with_save_id r ps S (\<lambda>i. with_body (cd_group (sv_codec E)) r S (\<lambda>(name, descr).
       finish service_error (\<lambda>n. site_log E r sess ''group.save'' ''group'' (show_int n) [(''name'', name)]) (Api.Reply 200)
         (on_inv (save_group i name descr) S)))"

definition delete_group_h :: "('l, 't) siteenv \<Rightarrow> session \<Rightarrow> Api.request \<Rightarrow> string list \<Rightarrow> site \<Rightarrow> unit answer" where
  "delete_group_h E sess r ps S =
     with_id ps S (\<lambda>i.
       finish service_error (\<lambda>_. site_log E r sess ''group.delete'' ''group'' (show_int i) []) (Api.Reply 204) (drop_group i S))"

subsection \<open>Alerts, rules and channels\<close>

definition list_alerts_h :: "Api.request \<Rightarrow> site \<Rightarrow> (alert list \<times> nat list) answer" where
  "list_alerts_h r S =
     (S, Api.Reply 200 (list_alerts (st_inv S) (rq_query r ''state'') (case optional_id r ''device'' of None \<Rightarrow> 0 | Some i \<Rightarrow> i)
                      (case atoi (rq_query r ''limit'') of None \<Rightarrow> 0 | Some n \<Rightarrow> n) (st_alerts S),
                    map (\<lambda>s. open_count s (st_alerts S)) [''info'', ''warning'', ''critical'']))"

definition ack_h :: "('l, 't) siteenv \<Rightarrow> session \<Rightarrow> string list \<Rightarrow> site \<Rightarrow> unit answer" where
  "ack_h E sess ps S =
     with_id ps S (\<lambda>i. finish alert_error (\<lambda>_ S. S) (Api.Reply 204) (on_alerts (ack (sv_now E) i (us_name (se_user sess))) S))"

definition list_rules_h :: "site \<Rightarrow> rule list answer" where "list_rules_h S = (S, Api.Reply 200 (list_rules (st_alerts S)))"

text \<open>The body is read before the number in the path.\<close>

definition save_rule_h :: "('l, 't) siteenv \<Rightarrow> session \<Rightarrow> Api.request \<Rightarrow> string list \<Rightarrow> site \<Rightarrow> int answer" where
  "save_rule_h E sess r ps S =
     with_body (cd_rule (sv_codec E)) r S (\<lambda>rule. with_save_id r ps S (\<lambda>i.
       finish alert_error
         (\<lambda>n. site_log E r sess ''alert_rule.save'' ''alert_rule'' (show_int n) [(''name'', ar_name rule), (''kind'', ar_kind rule)])
         (Api.Reply 200) (on_alerts (save_rule (st_inv S) (rule\<lparr>ar_id := i\<rparr>)) S)))"

definition delete_rule_h :: "('l, 't) siteenv \<Rightarrow> session \<Rightarrow> Api.request \<Rightarrow> string list \<Rightarrow> site \<Rightarrow> unit answer" where
  "delete_rule_h E sess r ps S =
     with_id ps S (\<lambda>i.
       finish alert_error (\<lambda>_. site_log E r sess ''alert_rule.delete'' ''alert_rule'' (show_int i) []) (Api.Reply 204)
         (on_alerts (delete_rule i) S))"

definition list_channels_h :: "site \<Rightarrow> channel list answer" where "list_channels_h S = (S, Api.Reply 200 (list_channels (st_alerts S)))"

definition save_channel_h :: "('l, 't) siteenv \<Rightarrow> session \<Rightarrow> Api.request \<Rightarrow> string list \<Rightarrow> site \<Rightarrow> int answer" where
  "save_channel_h E sess r ps S =
     with_body (cd_channel (sv_codec E)) r S (\<lambda>c. with_save_id r ps S (\<lambda>i.
       finish alert_error
         (\<lambda>n. site_log E r sess ''channel.save'' ''channel'' (show_int n) [(''name'', channel.ac_name c), (''kind'', ac_kind c)])
         (Api.Reply 200) (on_alerts (save_channel (sv_alerts E) (c\<lparr>ac_id := i\<rparr>)) S)))"

definition delete_channel_h :: "('l, 't) siteenv \<Rightarrow> session \<Rightarrow> Api.request \<Rightarrow> string list \<Rightarrow> site \<Rightarrow> unit answer" where
  "delete_channel_h E sess r ps S =
     with_id ps S (\<lambda>i.
       finish alert_error (\<lambda>_. site_log E r sess ''channel.delete'' ''channel'' (show_int i) []) (Api.Reply 204)
         (on_alerts (delete_channel i) S))"

definition test_channel_h :: "('l, 't) siteenv \<Rightarrow> string list \<Rightarrow> site \<Rightarrow> unit answer" where
  "test_channel_h E ps S =
     with_id ps S (\<lambda>i.
       (S, case test_channel (sv_alerts E) (sv_now E) i (st_alerts S) of
             None \<Rightarrow> Api.Reply 204 ()
           | Some e \<Rightarrow> if e = AlNotFound then alert_error e else Fail 502 (case e of AlSend m \<Rightarrow> m | _ \<Rightarrow> [])))"

subsection \<open>Backups\<close>

definition list_backups_h :: "Api.request \<Rightarrow> site \<Rightarrow> vbackup list answer" where
  "list_backups_h r S =
     (S, Api.Reply 200 (list_backups (st_inv S) (st_bk S) (case optional_id r ''device'' of None \<Rightarrow> 0 | Some i \<Rightarrow> i)
                      (case atoi (rq_query r ''limit'') of None \<Rightarrow> 0 | Some n \<Rightarrow> n)))"

definition run_backup_h :: "('l, 't) siteenv \<Rightarrow> session \<Rightarrow> Api.request \<Rightarrow> string list \<Rightarrow> site \<Rightarrow> (vbackup \<times> bool) answer" where
  "run_backup_h E sess r ps S =
     with_id ps S (\<lambda>i.
       finish backup_error
         (\<lambda>(b, same). site_log E r sess ''backup.run'' ''device'' (show_int i)
            [(''backup_id'', show_int (bk_id b)), (''unchanged'', if same then ''true'' else ''false'')])
         (Api.Reply 200)
         (on_bk (run_backup (site_bk E) (sv_now E) (sv_rnd E) (st_inv S) i ReasonManual (us_name (se_user sess))) S))"

text \<open>The panel shows a configuration with its secrets masked; the download has them.\<close>

definition backup_content_h :: "('l, 't) siteenv \<Rightarrow> string list \<Rightarrow> site \<Rightarrow> (vbackup \<times> string) answer" where
  "backup_content_h E ps S =
     with_id ps S (\<lambda>i.
       case bk_content (site_bk E) (st_inv S) (st_bk S) i of Inl e \<Rightarrow> (S, backup_error e) | Inr (cfg, b) \<Rightarrow> (S, Api.Reply 200 (b, mask cfg)))"

definition sanitize_filename :: "string \<Rightarrow> string" where
  "sanitize_filename s = map (\<lambda>c. if c = CHR 0x22 \<or> c = CHR 0x5C \<or> c = CHR ''/'' \<or> of_char c < (32 :: nat) then CHR ''_'' else c) s"

text \<open>The answer is the file with its name; \<open>stamp\<close> is the time of the backup as the name has it.\<close>

definition download_backup_h ::
  "('l, 't) siteenv \<Rightarrow> (time \<Rightarrow> string) \<Rightarrow> session \<Rightarrow> Api.request \<Rightarrow> string list \<Rightarrow> site \<Rightarrow> (string \<times> string) answer" where
  "download_backup_h E stamp sess r ps S =
     with_id ps S (\<lambda>i.
       case bk_content (site_bk E) (st_inv S) (st_bk S) i of
         Inl e \<Rightarrow> (S, backup_error e)
       | Inr (cfg, b) \<Rightarrow>
           (site_log E r sess ''backup.download'' ''backup'' (show_int i) [(''device'', bk_device_name b)] S,
            Api.Reply 200 (sanitize_filename (bk_device_name b @ ''-'' @ stamp (bk_at b) @ ''.conf''), cfg)))"

definition diff_backups_h :: "('l, 't) siteenv \<Rightarrow> Api.request \<Rightarrow> site \<Rightarrow> cfgdiff list answer" where
  "diff_backups_h E r S =
     (case (optional_id r ''from'', optional_id r ''to'') of
        (Some a, Some b) \<Rightarrow>
          (S, case diff_backups (site_bk E) (st_inv S) (st_bk S) a b of Inl e \<Rightarrow> backup_error e | Inr ds \<Rightarrow> Api.Reply 200 ds)
      | _ \<Rightarrow> (S, Fail 400 ''from and to are required''))"

definition diff_current_h :: "('l, 't) siteenv \<Rightarrow> string list \<Rightarrow> site \<Rightarrow> cfgdiff list answer" where
  "diff_current_h E ps S =
     with_id ps S (\<lambda>i. (S, case diff_current (site_bk E) (sv_now E) (st_inv S) (st_bk S) i of Inl e \<Rightarrow> backup_error e | Inr ds \<Rightarrow> Api.Reply 200 ds))"

definition update_backup_h :: "('l, 't) siteenv \<Rightarrow> session \<Rightarrow> Api.request \<Rightarrow> string list \<Rightarrow> site \<Rightarrow> unit answer" where
  "update_backup_h E sess r ps S =
     with_id ps S (\<lambda>i. with_body (cd_lock (sv_codec E)) r S (\<lambda>(locked, note').
       finish backup_error
         (\<lambda>_. site_log E r sess ''backup.update'' ''backup'' (show_int i) [(''locked'', if locked then ''true'' else ''false'')])
         (Api.Reply 204) (on_bk (set_lock i locked note') S)))"

definition delete_backup_h :: "('l, 't) siteenv \<Rightarrow> session \<Rightarrow> Api.request \<Rightarrow> string list \<Rightarrow> site \<Rightarrow> unit answer" where
  "delete_backup_h E sess r ps S =
     with_id ps S (\<lambda>i.
       finish backup_error (\<lambda>_. site_log E r sess ''backup.delete'' ''backup'' (show_int i) []) (Api.Reply 204)
         (on_bk (delete_backup (st_inv S) i) S))"

definition restore_backup_h :: "('l, 't) siteenv \<Rightarrow> session \<Rightarrow> Api.request \<Rightarrow> string list \<Rightarrow> site \<Rightarrow> rjob answer" where
  "restore_backup_h E sess r ps S0 =
     with_id ps S0 (\<lambda>i. with_reauth E sess r S0 (\<lambda>S.
       finish backup_error
         (\<lambda>j. site_log E r sess ''backup.restore'' ''device'' (show_int (rj_device j))
                [(''backup_id'', show_int i), (''job_id'', show_int (rj_id j)), (''status'', rj_status j)])
         (Api.Reply 202)
         (on_bk (restore (site_bk E) (sv_now E) (sv_rnd E) (st_inv S) i (us_name (se_user sess))) S)))"

definition list_restores_h :: "Api.request \<Rightarrow> site \<Rightarrow> rjob list answer" where
  "list_restores_h r S = (S, Api.Reply 200 (list_restores (st_inv S) (st_bk S) (case optional_id r ''device'' of None \<Rightarrow> 0 | Some i \<Rightarrow> i)))"

definition get_restore_h :: "string list \<Rightarrow> site \<Rightarrow> rjob answer" where
  "get_restore_h ps S = with_id ps S (\<lambda>i. (S, case get_restore (st_inv S) (st_bk S) i of Inl e \<Rightarrow> backup_error e | Inr j \<Rightarrow> Api.Reply 200 j))"

definition list_policies_h :: "('l, 't) siteenv \<Rightarrow> site \<Rightarrow> vpolicy list answer" where
  "list_policies_h E S = (S, Api.Reply 200 (list_bpolicies (site_bk E) (sv_now E) (st_bk S)))"

definition save_policy_h :: "('l, 't) siteenv \<Rightarrow> session \<Rightarrow> Api.request \<Rightarrow> string list \<Rightarrow> site \<Rightarrow> int answer" where
  "save_policy_h E sess r ps S =
     with_body (cd_backup_policy (sv_codec E)) r S (\<lambda>p. with_save_id r ps S (\<lambda>i.
       finish backup_error
         (\<lambda>n. site_log E r sess ''backup_policy.save'' ''backup_policy'' (show_int n) [(''name'', bp_name p), (''schedule'', bp_schedule p)])
         (Api.Reply 200) (on_bk (save_bpolicy (site_bk E) (sv_now E) (st_inv S) (p\<lparr>bp_id := i\<rparr>)) S)))"

definition delete_policy_h :: "('l, 't) siteenv \<Rightarrow> session \<Rightarrow> Api.request \<Rightarrow> string list \<Rightarrow> site \<Rightarrow> unit answer" where
  "delete_policy_h E sess r ps S =
     with_id ps S (\<lambda>i.
       finish backup_error (\<lambda>_. site_log E r sess ''backup_policy.delete'' ''backup_policy'' (show_int i) []) (Api.Reply 204)
         (on_bk (delete_bpolicy i) S))"

end
