(* ===== verification/SiteChanges.thy ===== *)
theory SiteChanges
  imports Site
begin

text \<open>
  The handlers of the panel for changes, maintenance windows, approval policies, scripts and variables
  (\<open>change_handlers.go\<close>). The workflow writes its own entries: \<open>on_chg\<close> moves the new ones to the audit log.
\<close>

subsection \<open>Changes\<close>

fun change_error :: "cerror \<Rightarrow> 'a Api.reply" where
  "change_error (InvalidInput m) = Fail 400 m"
| "change_error NotFound = not_found"
| "change_error StateError = Fail 409 ''the change is not in a state that allows this''"
| "change_error OwnChange = Fail 409 ''you cannot approve your own change''"
| "change_error (OtherError m) = internal_error"

definition actor_of :: "('l, 't) siteenv \<Rightarrow> session \<Rightarrow> Api.request \<Rightarrow> actor" where
  "actor_of E sess r = \<lparr>ac_user = us_id (se_user sess), actor.ac_name = us_name (se_user sess), ac_ip = client_ip (sv_web E) r\<rparr>"

definition logged_entry :: "time \<Rightarrow> centry \<Rightarrow> audit_entry" where
  "logged_entry now e = \<lparr>au_at = now, au_source = ce_source e, au_actor_id = ce_actor e, au_actor = ce_name e, au_ip = ce_ip e,
     au_action = ce_action e, au_type = ''change'', au_object = show_int (ce_object e), au_details = ce_details e\<rparr>"

definition on_chg :: "('l, 't) siteenv \<Rightarrow> (chg \<Rightarrow> chg \<times> 'r) \<Rightarrow> site \<Rightarrow> site \<times> 'r" where
  "on_chg E f S =
     (case f (st_chg S) of
        (C, x) \<Rightarrow>
          (S\<lparr>st_chg := C,
             st_panel := (st_panel S)\<lparr>pn_audit := pn_audit (st_panel S) @
               map (logged_entry (sv_now E)) (drop (length (chg.audit (st_chg S))) (chg.audit C))\<rparr>\<rparr>, x))"

definition all_statuses :: "cstatus list" where
  "all_statuses = [ChDraft, ChPending, ChApproved, ChRunning, ChSucceeded, ChFailed, ChPartial, ChCancelled, ChRejected]"

definition list_changes_h :: "Api.request \<Rightarrow> site \<Rightarrow> change_view list answer" where
  "list_changes_h r S =
     (S, Api.Reply 200
       (if rq_query r ''status'' = [] then list_changes (rq_query r ''kind'') None (st_chg S)
        else case List.find (\<lambda>c. status_text c = rq_query r ''status'') all_statuses of
               None \<Rightarrow> [] | Some c \<Rightarrow> list_changes (rq_query r ''kind'') (Some c) (st_chg S)))"

definition get_change_h :: "string list \<Rightarrow> site \<Rightarrow> (change_view \<times> target list \<times> approval list) answer" where
  "get_change_h ps S =
     with_id ps S (\<lambda>i.
       (S, case get_change i (st_chg S) of
             Inl e \<Rightarrow> change_error e
           | Inr c \<Rightarrow> Api.Reply 200 (c, targets_of i (st_chg S), approvals_of i (st_chg S))))"

text \<open>A change that names a library script gets its text, so that approvers see what will run.\<close>

definition pinned :: "('l, 't) siteenv \<Rightarrow> site \<Rightarrow> create_input \<Rightarrow> (int \<times> string) + create_input" where
  "pinned E S i =
     (if ci_kind i = ''script''
      then (case cd_spec (sv_codec E) (ci_spec i) of
              None \<Rightarrow> Inl (400, ''invalid script change'')
            | Some sp \<Rightarrow>
                if sp_script sp \<noteq> 0 \<and> sp_body sp = []
                then (case get_script (sp_script sp) (st_scripts S) of
                        Inl e \<Rightarrow> Inl (case change_error e of Fail status m \<Rightarrow> (status, m) | Api.Reply status u \<Rightarrow> (status, u))
                      | Inr sc \<Rightarrow> Inr (i\<lparr>ci_spec := cd_print_spec (sv_codec E) (sp\<lparr>sp_body := sc_body sc\<rparr>)\<rparr>))
                else Inr i)
      else Inr i)"

definition site_runners :: "('l, 't) siteenv \<Rightarrow> site \<Rightarrow> string \<rightharpoonup> preview" where
  "site_runners E S = (sv_runners E)(''script'' \<mapsto> script_preview (sv_tmpl E) (cd_spec (sv_codec E)) (st_scripts S))"

definition create_change_h :: "('l, 't) siteenv \<Rightarrow> session \<Rightarrow> Api.request \<Rightarrow> site \<Rightarrow> change_view answer" where
  "create_change_h E sess r S =
     with_body (cd_change (sv_codec E)) r S (\<lambda>i0.
       case pinned E S i0 of
         Inl (status, m) \<Rightarrow> (S, Fail status m)
       | Inr i \<Rightarrow>
           (case on_chg E (create_change (sv_lic E) (site_device E S) (site_runners E S) (sv_now E) i (actor_of E sess r)) S of
              (S1, Inl e) \<Rightarrow> (S1, change_error e)
            | (S1, Inr n) \<Rightarrow>
                (S1, case get_change n (st_chg S1) of Inl e \<Rightarrow> change_error e | Inr c \<Rightarrow> Api.Reply 201 c)))"

text \<open>The actions on a change; an action without a body has no comment and no reason.\<close>

datatype change_op = OpSubmit | OpDecide bool | OpCancel | OpRunNow

definition run_change_op ::
  "('l, 't) siteenv \<Rightarrow> actor \<Rightarrow> int \<Rightarrow> (string \<Rightarrow> string) \<Rightarrow> change_op \<Rightarrow> site \<Rightarrow> site \<times> (cerror + unit)" where
  "run_change_op E by' i b oper S =
     (case oper of
        OpSubmit \<Rightarrow> on_chg E (submit (sv_now E) i by') S
      | OpDecide ok \<Rightarrow> on_chg E (decide (sv_now E) i by' ok (b ''comment'')) S
      | OpCancel \<Rightarrow>
          (case on_chg E (\<lambda>C. case cancel i by' (C, st_stops S) of ((C', stops), x) \<Rightarrow> (C', (stops, x))) S of
             (S1, (stops, x)) \<Rightarrow> (S1\<lparr>st_stops := stops\<rparr>, x))
      | OpRunNow \<Rightarrow> on_chg E (run_now i by' (b ''reason'')) S)"

definition change_action_h ::
  "('l, 't) siteenv \<Rightarrow> session \<Rightarrow> Api.request \<Rightarrow> string list \<Rightarrow> change_op \<Rightarrow> site \<Rightarrow> (change_view \<times> target list \<times> approval list) answer" where
  "change_action_h E sess r ps oper S =
     with_id ps S (\<lambda>i.
       let act = (\<lambda>b. case run_change_op E (actor_of E sess r) i b oper S of
                        (S1, Inl e) \<Rightarrow> (S1, change_error e) | (S1, Inr _) \<Rightarrow> get_change_h ps S1)
       in if rq_length r = 0 then act (\<lambda>_. []) else with_body (cd_action (sv_codec E)) r S act)"

subsection \<open>Windows and approval policies\<close>

definition group_exists :: "site \<Rightarrow> int \<Rightarrow> bool" where "group_exists S g \<longleftrightarrow> find_row gr_id g (device_groups (st_inv S)) \<noteq> None"

definition list_windows_h :: "site \<Rightarrow> (window list \<times> policy list) answer" where
  "list_windows_h S = (S, Api.Reply 200 (sort_key w_id (windows (st_chg S)), list_policies (st_chg S)))"

definition save_window_h :: "('l, 't) siteenv \<Rightarrow> session \<Rightarrow> Api.request \<Rightarrow> string list \<Rightarrow> site \<Rightarrow> int answer" where
  "save_window_h E sess r ps S =
     with_body (cd_window (sv_codec E)) r S (\<lambda>w. with_save_id r ps S (\<lambda>i.
       finish change_error (\<lambda>n. site_log E r sess ''window.save'' ''window'' (show_int n) [(''name'', w_name w)]) (Api.Reply 200)
         (on_chg E (save_window (group_exists S) (w\<lparr>w_id := i\<rparr>)) S)))"

definition delete_window_h :: "('l, 't) siteenv \<Rightarrow> session \<Rightarrow> Api.request \<Rightarrow> string list \<Rightarrow> site \<Rightarrow> unit answer" where
  "delete_window_h E sess r ps S =
     with_id ps S (\<lambda>i.
       finish change_error (\<lambda>_. site_log E r sess ''window.delete'' ''window'' (show_int i) []) (Api.Reply 204) (on_chg E (delete_window i) S))"

definition show_opt :: "int option \<Rightarrow> string" where "show_opt x = (case x of None \<Rightarrow> ''null'' | Some i \<Rightarrow> show_int i)"

text \<open>No number of approvals removes the policy of a group; the default policy stays.\<close>

definition set_approval_h :: "('l, 't) siteenv \<Rightarrow> session \<Rightarrow> Api.request \<Rightarrow> site \<Rightarrow> unit answer" where
  "set_approval_h E sess r S =
     with_body (cd_approval (sv_codec E)) r S (\<lambda>(g, required).
       case (required, g) of
         (None, None) \<Rightarrow> (S, Fail 400 ''the default policy cannot be removed'')
       | _ \<Rightarrow>
           finish change_error
             (\<lambda>_. site_log E r sess ''approval_policy.set'' ''approval_policy'' [] [(''group_id'', show_opt g), (''required'', show_opt required)])
             (Api.Reply 204)
             (on_chg E (\<lambda>C. case required of
                              None \<Rightarrow> (delete_policy (the g) C, Inr ())
                            | Some n \<Rightarrow> set_policy (group_exists S) g n C) S))"

subsection \<open>Scripts and variables\<close>

definition on_scripts :: "(scriptdb \<Rightarrow> scriptdb \<times> 'r) \<Rightarrow> site \<Rightarrow> site \<times> 'r" where
  "on_scripts f S = (case f (st_scripts S) of (D, x) \<Rightarrow> (S\<lparr>st_scripts := D\<rparr>, x))"

definition list_scripts_h :: "site \<Rightarrow> (script list \<times> variable list) answer" where
  "list_scripts_h S = (S, Api.Reply 200 (list_scripts (st_scripts S), list_variables (st_scripts S)))"

definition save_script_h :: "('l, 't) siteenv \<Rightarrow> session \<Rightarrow> Api.request \<Rightarrow> string list \<Rightarrow> site \<Rightarrow> script option answer" where
  "save_script_h E sess r ps S =
     with_body (cd_script (sv_codec E)) r S (\<lambda>sc. with_save_id r ps S (\<lambda>i.
       case on_scripts (save_script (sv_tmpl E) (sv_now E) (sc\<lparr>sc_id := i\<rparr>) (us_name (se_user sess))) S of
         (S1, Inl e) \<Rightarrow> (S1, change_error e)
       | (S1, Inr n) \<Rightarrow>
           (site_log E r sess ''script.save'' ''script'' (show_int n) [(''name'', sc_name sc)] S1,
            Api.Reply 200 (case get_script n (st_scripts S1) of Inl e \<Rightarrow> None | Inr saved \<Rightarrow> Some saved))))"

definition delete_script_h :: "('l, 't) siteenv \<Rightarrow> session \<Rightarrow> Api.request \<Rightarrow> string list \<Rightarrow> site \<Rightarrow> unit answer" where
  "delete_script_h E sess r ps S =
     with_id ps S (\<lambda>i.
       finish change_error (\<lambda>_. site_log E r sess ''script.delete'' ''script'' (show_int i) []) (Api.Reply 204) (on_scripts (delete_script i) S))"

definition preview_script_h :: "('l, 't) siteenv \<Rightarrow> Api.request \<Rightarrow> site \<Rightarrow> (string \<times> bool) answer" where
  "preview_script_h E r S =
     with_body (cd_preview (sv_codec E)) r S (\<lambda>(body, dev, vars).
       (S, case site_device E S dev of
             Inl e \<Rightarrow> service_error e
           | Inr d \<Rightarrow> (case render (sv_tmpl E) (st_scripts S) body d vars of Inl e \<Rightarrow> change_error e | Inr t \<Rightarrow> Api.Reply 200 (t, is_read_only t))))"

definition run_script_h :: "('l, 't) siteenv \<Rightarrow> session \<Rightarrow> Api.request \<Rightarrow> string list \<Rightarrow> site \<Rightarrow> script_run list answer" where
  "run_script_h E sess r ps S =
     with_id ps S (\<lambda>i. with_body (cd_run (sv_codec E)) r S (\<lambda>devs.
       finish change_error
         (\<lambda>_. site_log E r sess ''script.run_readonly'' ''script'' (show_int i) [(''devices'', show_int (int (length devs)))])
         (Api.Reply 200)
         (on_scripts (\<lambda>D. case run_read_only (sv_lic E) (sv_tmpl E) (site_device E S) (sv_inv E) (sv_now E) i devs (us_name (se_user sess)) D of
                           (D', x, sent) \<Rightarrow> (D', x)) S)))"

definition script_runs_h :: "string list \<Rightarrow> site \<Rightarrow> script_run list answer" where
  "script_runs_h ps S = with_id ps S (\<lambda>i. (S, Api.Reply 200 (script_runs i (st_scripts S))))"

definition set_variable_h :: "('l, 't) siteenv \<Rightarrow> session \<Rightarrow> Api.request \<Rightarrow> site \<Rightarrow> unit answer" where
  "set_variable_h E sess r S =
     with_body (cd_variable (sv_codec E)) r S (\<lambda>(sc, i, name, v).
       finish change_error
         (\<lambda>_. site_log E r sess ''variable.set'' ''variable'' name [(''scope'', sc), (''scope_id'', show_int i)])
         (Api.Reply 204) (on_scripts (set_variable sc i name v) S))"

definition delete_variable_h :: "string list \<Rightarrow> site \<Rightarrow> unit answer" where
  "delete_variable_h ps S = with_id ps S (\<lambda>i. finish change_error (\<lambda>_ S. S) (Api.Reply 204) (on_scripts (delete_variable i) S))"

definition firmware_path_h :: "('l, 't) siteenv \<Rightarrow> Api.request \<Rightarrow> string list \<Rightarrow> site \<Rightarrow> (string \<times> package list) answer" where
  "firmware_path_h E r ps S =
     with_id ps S (\<lambda>i.
       (S, case site_device E S i of
             Inl e \<Rightarrow> service_error e
           | Inr d \<Rightarrow>
               (case firmware_path (sv_mf E) (sv_repo E) d (rq_query r ''version'') of
                  Inl e \<Rightarrow> change_error e | Inr path \<Rightarrow> Api.Reply 200 (d_firmware d, path))))"

end
