(* ===== verification/Requests.thy ===== *)
theory Requests
  imports SiteChanges
begin

text \<open>
  One request to the panel, from the router to the state it leaves: \<open>serve\<close> puts the guards of \<open>Api\<close> before
  the handlers of \<open>Site\<close> and \<open>SiteChanges\<close>. The lemmas follow the settings of the panel through every
  handler: what a request changes in them is in the audit log, and needs the role for it.
\<close>

subsection \<open>Serving a request\<close>

text \<open>The payload of an answer does not matter here.\<close>

definition plain :: "'a answer \<Rightarrow> unit answer" where
  "plain x = (fst x, case snd x of Api.Reply status _ \<Rightarrow> Api.Reply status () | Api.Fail status msg \<Rightarrow> Api.Fail status msg)"

definition device_handlers ::
  "('l, 't) siteenv \<Rightarrow> session \<Rightarrow> Api.request \<Rightarrow> string list \<Rightarrow> site \<Rightarrow> (string \<times> unit answer) list" where
  "device_handlers E sess r ps S =
     [(''listDevices'', plain (list_devices_h E r S)), (''discoverDevice'', plain (discover_h E r S)),
      (''createDevice'', plain (create_device_h E sess r S)), (''getDevice'', plain (get_device_h E ps S)),
      (''updateDevice'', update_device_h E sess r ps S), (''deleteDevice'', delete_device_h E sess r ps S),
      (''refreshDevice'', plain (refresh_device_h E ps S)), (''deviceMetrics'', plain (device_metrics_h E r ps S)), (''listGroups'', plain (list_groups_h S)),
      (''saveGroup'', plain (save_group_h E sess r ps S)), (''deleteGroup'', delete_group_h E sess r ps S),
      (''listAlerts'', plain (list_alerts_h r S)), (''ackAlert'', ack_h E sess ps S), (''listRules'', plain (list_rules_h S)),
      (''saveRule'', plain (save_rule_h E sess r ps S)), (''deleteRule'', delete_rule_h E sess r ps S),
      (''listChannels'', plain (list_channels_h S)), (''saveChannel'', plain (save_channel_h E sess r ps S)),
      (''deleteChannel'', delete_channel_h E sess r ps S), (''testChannel'', test_channel_h E ps S)]"

definition backup_handlers ::
  "('l, 't) siteenv \<Rightarrow> (time \<Rightarrow> string) \<Rightarrow> session \<Rightarrow> Api.request \<Rightarrow> string list \<Rightarrow> site \<Rightarrow> (string \<times> unit answer) list" where
  "backup_handlers E stamp sess r ps S =
     [(''listBackups'', plain (list_backups_h r S)), (''runBackup'', plain (run_backup_h E sess r ps S)),
      (''diffBackups'', plain (diff_backups_h E r S)), (''backupContent'', plain (backup_content_h E ps S)),
      (''downloadBackup'', plain (download_backup_h E stamp sess r ps S)), (''updateBackup'', update_backup_h E sess r ps S),
      (''deleteBackup'', delete_backup_h E sess r ps S), (''diffCurrent'', plain (diff_current_h E ps S)),
      (''restoreBackup'', plain (restore_backup_h E sess r ps S)), (''listRestores'', plain (list_restores_h r S)),
      (''getRestore'', plain (get_restore_h ps S)), (''listPolicies'', plain (list_policies_h E S)),
      (''savePolicy'', plain (save_policy_h E sess r ps S)), (''deletePolicy'', delete_policy_h E sess r ps S)]"

definition change_handlers ::
  "('l, 't) siteenv \<Rightarrow> session \<Rightarrow> Api.request \<Rightarrow> string list \<Rightarrow> site \<Rightarrow> (string \<times> unit answer) list" where
  "change_handlers E sess r ps S =
     [(''listChanges'', plain (list_changes_h r S)), (''createChange'', plain (create_change_h E sess r S)),
      (''getChange'', plain (get_change_h ps S)), (''submitChange'', plain (change_action_h E sess r ps OpSubmit S)),
      (''approveChange'', plain (change_action_h E sess r ps (OpDecide True) S)),
      (''rejectChange'', plain (change_action_h E sess r ps (OpDecide False) S)),
      (''cancelChange'', plain (change_action_h E sess r ps OpCancel S)), (''runChangeNow'', plain (change_action_h E sess r ps OpRunNow S)),
      (''listWindows'', plain (list_windows_h S)), (''saveWindow'', plain (save_window_h E sess r ps S)),
      (''deleteWindow'', delete_window_h E sess r ps S), (''setApprovalPolicy'', set_approval_h E sess r S)]"

definition script_handlers ::
  "('l, 't) siteenv \<Rightarrow> session \<Rightarrow> Api.request \<Rightarrow> string list \<Rightarrow> site \<Rightarrow> (string \<times> unit answer) list" where
  "script_handlers E sess r ps S =
     [(''listScripts'', plain (list_scripts_h S)), (''saveScript'', plain (save_script_h E sess r ps S)),
      (''deleteScript'', delete_script_h E sess r ps S), (''previewScript'', plain (preview_script_h E r S)),
      (''runScriptReadOnly'', plain (run_script_h E sess r ps S)), (''scriptRuns'', plain (script_runs_h ps S)),
      (''setVariable'', set_variable_h E sess r S), (''deleteVariable'', delete_variable_h ps S),
      (''firmwarePath'', plain (firmware_path_h E r ps S))]"

definition site_handlers ::
  "('l, 't) siteenv \<Rightarrow> (time \<Rightarrow> string) \<Rightarrow> session \<Rightarrow> Api.request \<Rightarrow> string list \<Rightarrow> site \<Rightarrow> (string \<times> unit answer) list" where
  "site_handlers E stamp sess r ps S =
     device_handlers E sess r ps S @ backup_handlers E stamp sess r ps S @ change_handlers E sess r ps S @ script_handlers E sess r ps S"

text \<open>\<open>None\<close>: the request is for a handler that is not one of these.\<close>

definition serve :: "('l, 't) siteenv \<Rightarrow> (time \<Rightarrow> string) \<Rightarrow> Api.request \<Rightarrow> site \<Rightarrow> unit answer option" where
  "serve E stamp r S =
     (case dispatch (sv_web E) r (pn_auth (st_panel S)) of
        (db, d) \<Rightarrow>
          (let S1 = S\<lparr>st_panel := (st_panel S)\<lparr>pn_auth := db\<rparr>\<rparr>
           in case d of
                Refused status msg \<Rightarrow> Some (S1, Fail status msg)
              | Handled h ps (Some sess) \<Rightarrow> map_of (site_handlers E stamp sess r ps S1) h
              | _ \<Rightarrow> None))"

subsection \<open>Settings\<close>

text \<open>What users configure: not what devices answer, and not what runs produce.\<close>

definition device_settings :: "drow \<Rightarrow> (int \<times> string \<times> string \<times> string \<times> int \<times> int) \<times> string \<times> int option \<times> string list \<times> string \<times> string \<times> string" where
  "device_settings d = ((d_id d, d_name d, d_kind d, d_host d, d_https_port d, d_ssh_port d), d_order d, d_group d, d_tags d,
     d_sealed d, d_tls_pin d, d_ssh_host_key d)"

record settings =
  cf_devices :: "((int \<times> string \<times> string \<times> string \<times> int \<times> int) \<times> string \<times> int option \<times> string list \<times> string \<times> string \<times> string) list"
  cf_groups :: "Inventory.group list"
  cf_rules :: "rule list"
  cf_channels :: "channel list"
  cf_policies :: "bpolicy list"
  cf_windows :: "window list"
  cf_approvals :: "policy list"
  cf_changes :: "change list"
  cf_decisions :: "approval list"
  cf_scripts :: "script list"
  cf_variables :: "variable list"

definition settings_of :: "site \<Rightarrow> settings" where
  "settings_of S =
     \<lparr>cf_devices = map device_settings (devices (st_inv S)), cf_groups = device_groups (st_inv S), cf_rules = rules (st_alerts S),
      cf_channels = channels (st_alerts S), cf_policies = bpolicies (st_bk S), cf_windows = windows (st_chg S),
      cf_approvals = policies (st_chg S), cf_changes = changes (st_chg S), cf_decisions = approvals (st_chg S),
      cf_scripts = sd_scripts (st_scripts S), cf_variables = sd_vars (st_scripts S)\<rparr>"

definition entry_by :: "('l, 't) siteenv \<Rightarrow> session \<Rightarrow> Api.request \<Rightarrow> audit_entry \<Rightarrow> bool" where
  "entry_by E sess r e \<longleftrightarrow> au_actor e = us_name (se_user sess) \<and> au_ip e = client_ip (sv_web E) r \<and> au_at e = sv_now E"

definition log_of :: "site \<Rightarrow> audit_entry list" where "log_of S = pn_audit (st_panel S)"

text \<open>Nothing is taken from the log, and what changes the settings adds to it in the name of the user.\<close>

definition accounted :: "('l, 't) siteenv \<Rightarrow> session \<Rightarrow> Api.request \<Rightarrow> site \<Rightarrow> site \<Rightarrow> bool" where
  "accounted E sess r S S' \<longleftrightarrow>
     (\<exists>es. log_of S' = log_of S @ es \<and> list_all (entry_by E sess r) es \<and> (es = [] \<longrightarrow> settings_of S' = settings_of S))"

lemma accounted_refl: "accounted E sess r S S" by (simp add: accounted_def)

lemma accounted_quiet: "log_of S' = log_of S \<Longrightarrow> settings_of S' = settings_of S \<Longrightarrow> accounted E sess r S S'"
  by (simp add: accounted_def)

lemma accounted_trans: "accounted E sess r S S1 \<Longrightarrow> log_of S2 = log_of S1 \<Longrightarrow> settings_of S2 = settings_of S1 \<Longrightarrow> accounted E sess r S S2"
  by (simp add: accounted_def)

lemma accounted_after: "log_of S1 = log_of S \<Longrightarrow> settings_of S1 = settings_of S \<Longrightarrow> accounted E sess r S1 S2 \<Longrightarrow> accounted E sess r S S2"
  by (simp add: accounted_def)

lemma accounted_logged: "log_of S1 = log_of S \<Longrightarrow> log_of S2 = log_of (site_log E r sess a k n d S1) \<Longrightarrow> accounted E sess r S S2"
  by (auto simp: accounted_def log_of_def site_log_def Api.audit_def audit_log_def entry_by_def)

text \<open>The combinators, for any predicate on the state they leave.\<close>

lemma fst_plain: "fst (plain x) = fst x" by (simp add: plain_def)

definition signed_in :: "authdb \<Rightarrow> site \<Rightarrow> site" where "signed_in db S = S\<lparr>st_panel := (st_panel S)\<lparr>pn_auth := db\<rparr>\<rparr>"

lemma signed_in_simps [simp]:
  "log_of (signed_in db S) = log_of S" "settings_of (signed_in db S) = settings_of S" "st_inv (signed_in db S) = st_inv S"
  "st_bk (signed_in db S) = st_bk S"
  by (simp_all add: signed_in_def log_of_def settings_of_def)

lemma reauth_rule: "Q S \<Longrightarrow> (\<And>db. Q (signed_in db S)) \<Longrightarrow> (\<And>db. Q (fst (k (signed_in db S)))) \<Longrightarrow> Q (fst (with_reauth E sess r S k))"
  unfolding with_reauth_def
  by (rule body_rule)
    (auto simp: reauth_def lift_auth_def signed_in_def split: prod.splits sum.splits option.splits)

text \<open>An operation of a service that is refused leaves the settings; the log is not its business.\<close>

definition modest :: "site \<Rightarrow> site \<times> ('e + 'a) \<Rightarrow> bool" where
  "modest S x \<longleftrightarrow> log_of (fst x) = log_of S \<and> (case snd x of Inl e \<Rightarrow> settings_of (fst x) = settings_of S | Inr a \<Rightarrow> True)"

lemma accounted_finish:
  assumes "modest S x"
  shows "accounted E sess r S (fst (finish bad (\<lambda>a. site_log E r sess (act a) (kind a) (obj a) (det a)) good x))"
  by (rule finish_rule) (use assms in \<open>auto simp: modest_def intro: accounted_quiet accounted_logged\<close>)

subsection \<open>Operations that are refused\<close>

lemma create_device_refused: "create_device V now i I = (I', Inl e) \<Longrightarrow> I' = I"
  by (auto simp: create_device_def split: sum.splits option.splits)

lemma update_device_refused: "update_device L V now g n i I = (I', Inl e) \<Longrightarrow> I' = I"
  by (auto simp: update_device_def split: sum.splits option.splits)

lemma save_group_refused: "save_group n name d I = (I', Inl e) \<Longrightarrow> I' = I"
  by (auto simp: save_group_def Let_def split: if_splits)

lemma save_rule_refused: "save_rule I ru A = (A', Inl e) \<Longrightarrow> A' = A"
  by (auto simp: save_rule_def split: sum.splits if_splits)

lemma delete_rule_refused: "delete_rule n A = (A', Inl e) \<Longrightarrow> A' = A"
  by (auto simp: delete_rule_def split: if_splits)

lemma save_channel_refused: "save_channel V c A = (A', Inl e) \<Longrightarrow> A' = A"
  by (auto simp: save_channel_def Let_def split: sum.splits if_splits option.splits)

lemma delete_channel_refused: "delete_channel n A = (A', Inl e) \<Longrightarrow> A' = A"
  by (auto simp: delete_channel_def split: if_splits)

lemma save_bpolicy_refused: "save_bpolicy B now I q st = (st', Inl e) \<Longrightarrow> st' = st"
  by (auto simp: save_bpolicy_def Let_def split: option.splits if_splits)

lemma delete_bpolicy_refused: "delete_bpolicy n st = (st', Inl e) \<Longrightarrow> st' = st"
  by (auto simp: delete_bpolicy_def split: if_splits)

lemma save_window_refused: "save_window ge w C = (C', Inl e) \<Longrightarrow> C' = C"
  by (auto simp: save_window_def Let_def split: sum.splits if_splits)

lemma delete_window_refused: "delete_window n C = (C', Inl e) \<Longrightarrow> C' = C"
  by (auto simp: delete_window_def split: if_splits)

lemma set_policy_refused: "set_policy ge g n C = (C', Inl e) \<Longrightarrow> C' = C"
  by (auto simp: set_policy_def split: if_splits)

lemma save_script_refused: "save_script T now sc actor D = (D', Inl e) \<Longrightarrow> D' = D"
  by (auto simp: save_script_def write_script_def Let_def split: sum.splits if_splits)

lemma delete_script_refused: "delete_script n D = (D', Inl e) \<Longrightarrow> D' = D"
  by (auto simp: delete_script_def split: if_splits)

lemma set_variable_refused: "set_variable sc n name v D = (D', Inl e) \<Longrightarrow> D' = D"
  by (auto simp: set_variable_def split: if_splits option.splits scope.splits)

lemmas refused = create_device_refused update_device_refused save_group_refused save_rule_refused delete_rule_refused
  save_channel_refused delete_channel_refused save_bpolicy_refused delete_bpolicy_refused save_window_refused delete_window_refused
  set_policy_refused save_script_refused delete_script_refused set_variable_refused

lemma settings_audit: "chg.audit (fst (save_window ge w C)) = chg.audit C" "chg.audit (fst (delete_window n C)) = chg.audit C"
  "chg.audit (fst (set_policy ge g k C)) = chg.audit C" "chg.audit (delete_policy m C) = chg.audit C"
  by (auto simp: save_window_def delete_window_def set_policy_def delete_policy_def Let_def split: sum.splits)

text \<open>Backups and restores leave the policies.\<close>

lemma bk_remove_policies [simp]: "bpolicies (bk_remove bs st) = bpolicies st"
  by (induction bs arbitrary: st) (auto simp: drop_backup_def Let_def)

lemma retention_policies [simp]: "bpolicies (fst (apply_retention B now I dev st)) = bpolicies st"
  by (auto simp: apply_retention_def split: sum.split)

lemma store_policies: "bpolicies (fst (store_backup B now rnd I d reason actor cfg st)) = bpolicies st"
  by (auto simp: store_backup_def write_file_def insert_backup_def Let_def split: option.split)

lemma run_backup_policies: "bpolicies (fst (run_backup B now rnd I dev reason actor st)) = bpolicies st"
  by (cases rule: run_backup_cases [of B now rnd I dev reason actor st]) (simp_all add: insert_backup_def store_policies)

lemma restore_job_policies: "bpolicies (fst (restore_job B now rnd I d cfg actor i st)) = bpolicies st"
  using run_backup_policies [of B now rnd I "d_id d" ReasonPreRestore actor st]
  by (auto simp: restore_job_def restore_sent_def finish_restore_def set_rjob_def Let_def split: prod.splits sum.splits option.splits)

lemma restore_policies: "bpolicies (fst (restore B now rnd I i actor st)) = bpolicies st"
  by (auto simp: restore_def insert_rjob_def restore_job_policies split: sum.splits prod.splits if_splits)

lemma delete_backup_policies: "bpolicies (fst (delete_backup I i st)) = bpolicies st"
  by (auto simp: delete_backup_def drop_backup_def Let_def split: sum.splits)

lemma set_lock_policies: "bpolicies (fst (set_lock i l n st)) = bpolicies st"
  by (simp add: set_lock_def)

text \<open>What is read from a device is not in the settings.\<close>

lemma settings_upd_rows: "(\<And>d. device_settings (f d) = device_settings d) \<Longrightarrow> map device_settings (upd_rows P f ds) = map device_settings ds"
  by (induction ds) (simp_all add: upd_rows_Cons)

lemma settings_set_device:
  assumes "\<And>d. device_settings (f d) = device_settings d"
  shows "map device_settings (devices (set_device i f I)) = map device_settings (devices I)"
  using settings_upd_rows [OF assms, where P = "\<lambda>d. d_id d = i" and ds = "devices I"] by (simp add: set_device_def)

lemma probed_settings: "device_settings (probed_row now nfo d) = device_settings d" "device_settings (seen_row now d) = device_settings d"
  "device_settings (unreachable_row now e d) = device_settings d"
  by (simp_all add: probed_row_def seen_row_def unreachable_row_def device_settings_def)

definition same_settings :: "inv \<Rightarrow> inv \<Rightarrow> bool" where
  "same_settings I I' \<longleftrightarrow> map device_settings (devices I') = map device_settings (devices I) \<and> device_groups I' = device_groups I"

lemma same_settings_refl: "same_settings I I" by (simp add: same_settings_def)

lemma same_settings_trans: "same_settings I J \<Longrightarrow> same_settings J K \<Longrightarrow> same_settings I K" by (simp add: same_settings_def)

lemma same_settings_device:
  assumes "\<And>d. device_settings (f d) = device_settings d"
  shows "same_settings I (set_device i f I)"
  using settings_set_device [OF assms, where i = i and I = I] by (simp add: same_settings_def)

lemma probe_settings: "same_settings I (fst (probe L V now g i I))"
  by (auto simp: probe_def mark_unreachable_def Let_def same_settings_refl probed_settings split: sum.splits intro!: same_settings_device)

lemma save_health_settings: "same_settings I (fst (save_health now i h I))"
proof -
  have stored: "same_settings I (I\<lparr>device_status := a, device_metrics := b\<rparr>)" for a b by (simp add: same_settings_def)
  have seen: "same_settings J (set_device i (seen_row now) J)" for J by (rule same_settings_device) (simp add: probed_settings)
  show ?thesis unfolding save_health_def by (simp add: same_settings_refl same_settings_trans [OF stored seen])
qed

lemma refresh_health_settings: "same_settings I (fst (refresh_health V now d I))"
  by (auto simp: refresh_health_def mark_unreachable_def save_health_settings probed_settings split: sum.splits intro!: same_settings_device)

lemma refresh_signatures_settings: "same_settings I (fst (refresh_signatures V now d I))"
  by (auto simp: refresh_signatures_def save_signatures_def same_settings_def split: sum.splits prod.splits)

lemma refresh_settings: "same_settings I (snd (fst (refresh L V now g i (m, I))))"
proof (cases "probe L V now g i I")
  case (Pair I1 res)
  have one: "same_settings I I1" using probe_settings [of I L V now g i] Pair by simp
  show ?thesis
  proof (cases res)
    case (Inl e)
    then show ?thesis using Pair one by (simp add: refresh_def)
  next
    case (Inr d)
    have "same_settings I (fst (refresh_health V now d (fst (refresh_signatures V now d I1))))"
      by (rule same_settings_trans [OF same_settings_trans [OF one refresh_signatures_settings] refresh_health_settings])
    then show ?thesis using Pair one Inr by (auto simp: refresh_def Let_def split: prod.splits)
  qed
qed

lemma settings_of_inv: "same_settings (st_inv S) I \<Longrightarrow> settings_of (S\<lparr>st_mon := m, st_inv := I\<rparr>) = settings_of S"
  by (simp add: settings_of_def same_settings_def)

lemma site_refresh_quiet: "log_of (fst (site_refresh E i S)) = log_of S \<and> settings_of (fst (site_refresh E i S)) = settings_of S"
  using refresh_settings [of "st_inv S" "sv_lic E" "sv_inv E" "sv_now E" "sv_guard E" i "st_mon S"]
  by (auto simp: site_refresh_def log_of_def settings_of_inv split: prod.split)

subsection \<open>Operations are modest\<close>

lemma modest_inv: "(\<And>I e. f (st_inv S) = (I, Inl e) \<Longrightarrow> I = st_inv S) \<Longrightarrow> modest S (on_inv f S)"
  by (auto simp: modest_def on_inv_def log_of_def split: prod.split sum.split)

lemma modest_alerts: "(\<And>A e. f (st_alerts S) = (A, Inl e) \<Longrightarrow> A = st_alerts S) \<Longrightarrow> modest S (on_alerts f S)"
  by (auto simp: modest_def on_alerts_def log_of_def split: prod.split sum.split)

lemma modest_scripts: "(\<And>D e. f (st_scripts S) = (D, Inl e) \<Longrightarrow> D = st_scripts S) \<Longrightarrow> modest S (on_scripts f S)"
  by (auto simp: modest_def on_scripts_def log_of_def split: prod.split sum.split)

lemma modest_bk: "(\<And>B e. f (st_bk S) = (B, Inl e) \<Longrightarrow> bpolicies B = bpolicies (st_bk S)) \<Longrightarrow> modest S (on_bk f S)"
  by (auto simp: modest_def on_bk_def log_of_def settings_of_def split: prod.split sum.split)

lemma modest_chg:
  "(\<And>C e. f (st_chg S) = (C, Inl e) \<Longrightarrow> C = st_chg S) \<Longrightarrow> chg.audit (fst (f (st_chg S))) = chg.audit (st_chg S) \<Longrightarrow> modest S (on_chg E f S)"
  by (auto simp: modest_def on_chg_def log_of_def settings_of_def split: prod.splits sum.split)

lemma modest_drop: "modest S (drop_device i S)" "modest S (drop_group i S)"
  by (auto simp: modest_def drop_device_def drop_group_def log_of_def split: prod.split sum.split)

text \<open>The rules of the combinators for \<open>accounted\<close>.\<close>

lemma acc_id: "(\<And>i. accounted E sess r S (fst (k i))) \<Longrightarrow> accounted E sess r S (fst (with_id ps S k))"
  by (rule id_rule) (rule accounted_refl)

lemma acc_body: "(\<And>b. accounted E sess r S (fst (k b))) \<Longrightarrow> accounted E sess r S (fst (with_body dec r S k))"
  by (rule body_rule) (rule accounted_refl)

lemma acc_save: "(\<And>i. accounted E sess r S (fst (k i))) \<Longrightarrow> accounted E sess r S (fst (with_save_id r ps S k))"
  by (rule save_id_rule) (rule accounted_refl)

lemma accounted_signed_in: "accounted E sess r (signed_in db S) S' \<Longrightarrow> accounted E sess r S S'"
  by (rule accounted_after) simp_all

lemma acc_reauth:
  assumes "\<And>db. accounted E sess r (signed_in db S) (fst (k (signed_in db S)))"
  shows "accounted E sess r S (fst (with_reauth E sess r S k))"
  by (rule reauth_rule) (auto simp: accounted_refl intro: accounted_quiet accounted_signed_in assms)

lemma acc_read: "accounted E sess r S (fst (S, x))" by (simp add: accounted_refl)

lemmas acc = acc_id acc_body acc_save accounted_finish

subsection \<open>The handlers and the log\<close>

lemma update_device_accounted: "accounted E sess r S (fst (update_device_h E sess r ps S))"
  unfolding update_device_h_def by (intro acc modest_inv) (rule update_device_refused)

lemma save_group_accounted: "accounted E sess r S (fst (save_group_h E sess r ps S))"
  unfolding save_group_h_def case_prod_unfold by (intro acc modest_inv) (rule save_group_refused)

lemma delete_group_accounted: "accounted E sess r S (fst (delete_group_h E sess r ps S))"
  unfolding delete_group_h_def by (intro acc modest_drop)

lemma delete_device_accounted: "accounted E sess r S (fst (delete_device_h E sess r ps S))"
  unfolding delete_device_h_def
  by (intro acc_id acc_reauth) (auto simp: accounted_refl intro: accounted_finish modest_drop split: sum.split)

lemma save_rule_accounted: "accounted E sess r S (fst (save_rule_h E sess r ps S))"
  unfolding save_rule_h_def by (intro acc modest_alerts) (rule save_rule_refused)

lemma delete_rule_accounted: "accounted E sess r S (fst (delete_rule_h E sess r ps S))"
  unfolding delete_rule_h_def by (intro acc modest_alerts) (rule delete_rule_refused)

lemma save_channel_accounted: "accounted E sess r S (fst (save_channel_h E sess r ps S))"
  unfolding save_channel_h_def by (intro acc modest_alerts) (rule save_channel_refused)

lemma delete_channel_accounted: "accounted E sess r S (fst (delete_channel_h E sess r ps S))"
  unfolding delete_channel_h_def by (intro acc modest_alerts) (rule delete_channel_refused)

lemma run_backup_accounted: "accounted E sess r S (fst (run_backup_h E sess r ps S))"
  unfolding run_backup_h_def case_prod_unfold
  by (intro acc modest_bk) (metis run_backup_policies fst_conv)

lemma update_backup_accounted: "accounted E sess r S (fst (update_backup_h E sess r ps S))"
  unfolding update_backup_h_def case_prod_unfold by (intro acc modest_bk) (metis set_lock_policies fst_conv)

lemma delete_backup_accounted: "accounted E sess r S (fst (delete_backup_h E sess r ps S))"
  unfolding delete_backup_h_def by (intro acc modest_bk) (metis delete_backup_policies fst_conv)

lemma restore_backup_accounted: "accounted E sess r S (fst (restore_backup_h E sess r ps S))"
  unfolding restore_backup_h_def by (intro acc acc_reauth modest_bk) (metis restore_policies fst_conv)

lemma save_policy_accounted: "accounted E sess r S (fst (save_policy_h E sess r ps S))"
  unfolding save_policy_h_def by (intro acc modest_bk) (metis save_bpolicy_refused)

lemma delete_policy_accounted: "accounted E sess r S (fst (delete_policy_h E sess r ps S))"
  unfolding delete_policy_h_def by (intro acc modest_bk) (metis delete_bpolicy_refused)

lemma save_window_accounted: "accounted E sess r S (fst (save_window_h E sess r ps S))"
  unfolding save_window_h_def by (intro acc modest_chg) (rule save_window_refused, assumption, rule settings_audit)

lemma delete_window_accounted: "accounted E sess r S (fst (delete_window_h E sess r ps S))"
  unfolding delete_window_h_def by (intro acc modest_chg) (rule delete_window_refused, assumption, rule settings_audit)

lemma set_approval_accounted: "accounted E sess r S (fst (set_approval_h E sess r S))"
proof -
  have "accounted E sess r S (fst (finish change_error (\<lambda>_. site_log E r sess a k n d) good (on_chg E (set_policy ge g m) S)))"
    for a k n d ge g m and good :: "unit \<Rightarrow> unit Api.reply"
    by (intro accounted_finish modest_chg) (rule set_policy_refused, assumption, rule settings_audit)
  moreover have "accounted E sess r S (fst (finish change_error (\<lambda>_. site_log E r sess a k n d) good
      (on_chg E (\<lambda>C. (delete_policy g C, Inr ())) S)))"
    for a k n d g and good :: "unit \<Rightarrow> unit Api.reply"
    by (intro accounted_finish modest_chg) (simp_all add: settings_audit)
  ultimately show ?thesis unfolding set_approval_h_def by (intro acc_body) (auto simp: accounted_refl split: option.split)
qed

lemma save_script_accounted: "accounted E sess r S (fst (save_script_h E sess r ps S))"
proof -
  have "accounted E sess r S
      (fst (case x of (S1, Inl e) \<Rightarrow> (S1, bad e) | (S1, Inr n) \<Rightarrow> (site_log E r sess a k (obj n) d S1, good S1 n)))"
    if "modest S x" for x :: "site \<times> (cerror + int)" and a k obj d good and bad :: "cerror \<Rightarrow> script option Api.reply"
    using that by (auto simp: modest_def intro: accounted_quiet accounted_logged split: prod.split sum.split)
  note one = this
  show ?thesis
    unfolding save_script_h_def
    by (intro acc one modest_scripts) (rule save_script_refused)
qed

lemma delete_script_accounted: "accounted E sess r S (fst (delete_script_h E sess r ps S))"
  unfolding delete_script_h_def by (intro acc modest_scripts) (rule delete_script_refused)

lemma set_variable_accounted: "accounted E sess r S (fst (set_variable_h E sess r S))"
  unfolding set_variable_h_def case_prod_unfold by (intro acc modest_scripts) (rule set_variable_refused)

lemma run_read_only_refused: "run_read_only L T get V now i devs actor D = (D', Inl e, sent) \<Longrightarrow> D' = D"
  by (auto simp: run_read_only_def Let_def split: sum.splits if_splits)

lemma run_script_accounted: "accounted E sess r S (fst (run_script_h E sess r ps S))"
  unfolding run_script_h_def
  by (intro acc modest_scripts) (auto split: prod.splits dest: run_read_only_refused)

lemma ack_accounted: "accounted E sess r S (fst (ack_h E sess ps S))"
proof -
  have "accounted E sess r S (fst (on_alerts (ack now i u) S))" for now i u
    by (rule accounted_quiet) (simp_all add: on_alerts_def ack_def log_of_def settings_of_def)
  then show ?thesis unfolding ack_h_def by (intro acc_id) (simp only: finish_silent)
qed

lemma download_accounted: "accounted E sess r S (fst (download_backup_h E stamp sess r ps S))"
  unfolding download_backup_h_def
  by (intro acc_id) (auto simp: accounted_refl intro!: accounted_logged split: sum.split prod.split)

lemma refresh_accounted: "accounted E sess r S (fst (refresh_device_h E ps S))"
proof -
  have "accounted E sess r S S1" if "site_refresh E i S = (S1, x)" for i S1 and x :: "ierror + unit"
    using site_refresh_quiet [of E i S] that by (intro accounted_quiet) simp_all
  then show ?thesis
    unfolding refresh_device_h_def get_device_h_def
    by (intro acc_id) (auto simp: with_id_def split: prod.split sum.split option.split)
qed

lemma drop_log: "log_of (fst (drop_device i S)) = log_of S"
  using modest_drop(1) [of S i] by (simp add: modest_def)

lemma refresh_log: "site_refresh E i S = (S', x) \<Longrightarrow> log_of S' = log_of S"
  using site_refresh_quiet [of E i S] by simp

lemma create_device_accounted: "accounted E sess r S (fst (create_device_h E sess r S))"
proof -
  have inv: "S1 = S" if "on_inv (create_device (sv_inv E) (sv_now E) inp) S = (S1, Inl e)" for inp S1 e
    using that by (auto simp: on_inv_def split: prod.splits dest: create_device_refused)
  have log: "log_of S1 = log_of S" if "on_inv f S = (S1, x)" for f S1 and x :: "ierror + int"
    using that by (auto simp: on_inv_def log_of_def split: prod.splits)
  show ?thesis
    unfolding create_device_h_def Let_def
    by (intro acc_body)
      (auto simp: accounted_refl drop_log dest!: inv refresh_log intro: accounted_logged [OF log] split: prod.split sum.split ierror.split)
qed

text \<open>The workflow writes its own entry when it does something, and only then.\<close>

definition tells :: "actor \<Rightarrow> chg \<Rightarrow> chg \<times> ('e + 'a) \<Rightarrow> bool" where
  "tells by' C x \<longleftrightarrow>
     (case snd x of Inl e \<Rightarrow> fst x = C | Inr a \<Rightarrow> \<exists>act i det. chg.audit (fst x) = chg.audit C @ [log_entry by' act i det])"

lemma entry_told: "\<exists>act k det. log_entry by' a i d = log_entry by' act k det" by blast

lemma create_change_tells: "tells by' C (create_change L get runners now i0 by' C)"
  by (auto simp: tells_def create_change_def log_change_def Let_def split: option.split sum.split prod.split)

lemma in_tx_tells: "(\<And>C'. f C = Inr C' \<Longrightarrow> \<exists>act i det. chg.audit C' = chg.audit C @ [log_entry by' act i det]) \<Longrightarrow> tells by' C (in_tx f C)"
  by (auto simp: tells_def in_tx_def split: sum.split)

lemma transition_audit: "transition i to from C = Inr C' \<Longrightarrow> chg.audit C' = chg.audit C"
  by (auto simp: transition_def set_change_def split: if_splits)

lemma submit_tells: "tells by' C (submit now i by' C)"
  unfolding submit_def by (rule in_tx_tells) (auto simp: entry_told log_change_def set_change_def dest!: transition_audit split: sum.splits)

lemma decide_tells: "tells by' C (decide now i by' ok comment C)"
  unfolding decide_def
  by (rule in_tx_tells)
    (auto simp: entry_told decide_tx_def apply_decision_def log_change_def set_change_def add_decision_def dest!: transition_audit
      split: option.splits if_splits sum.splits)

lemma cancel_tells:
  "tells by' C (case cancel i by' (C, stops) of ((C', stops'), x) \<Rightarrow> (C', x))"
  by (auto simp: tells_def cancel_def cancel_tx_def log_change_def set_targets_def dest!: transition_audit
      split: sum.splits option.splits if_splits)

lemma run_now_tells: "tells by' C (run_now i by' reason C)"
  unfolding run_now_def Let_def
  by (auto simp: tells_def in_tx_def log_change_def set_change_def split: sum.split if_splits)

lemma actor_entry: "entry_by E sess r (logged_entry (sv_now E) (log_entry (actor_of E sess r) act i det))"
  by (simp add: entry_by_def logged_entry_def log_entry_def actor_of_def)

lemma on_chg_accounted:
  assumes "tells (actor_of E sess r) (st_chg S) (f (st_chg S))"
  shows "accounted E sess r S (fst (on_chg E f S))"
proof (cases "f (st_chg S)")
  case (Pair C x)
  show ?thesis
  proof (cases x)
    case (Inl e)
    then have "C = st_chg S" using assms Pair by (simp add: tells_def)
    then show ?thesis using Pair by (intro accounted_quiet) (simp_all add: on_chg_def log_of_def settings_of_def)
  next
    case (Inr a)
    then obtain act i det where "chg.audit C = chg.audit (st_chg S) @ [log_entry (actor_of E sess r) act i det]"
      using assms Pair by (auto simp: tells_def)
    then have "log_of (fst (on_chg E f S)) = log_of S @ [logged_entry (sv_now E) (log_entry (actor_of E sess r) act i det)]"
      using Pair by (simp add: on_chg_def log_of_def)
    then show ?thesis by (simp add: accounted_def actor_entry)
  qed
qed

lemma create_change_accounted: "accounted E sess r S (fst (create_change_h E sess r S))"
proof -
  have "accounted E sess r S S1"
    if "on_chg E (create_change L get runners now i (actor_of E sess r)) S = (S1, x)" for L :: "'a licapi" and get runners now i S1 x
    using on_chg_accounted [where f = "create_change L get runners now i (actor_of E sess r)", OF create_change_tells] that
    by (metis fst_conv)
  then show ?thesis
    unfolding create_change_h_def
    by (intro acc_body) (auto simp: accounted_refl split: sum.split prod.split)
qed

lemma change_op_accounted: "accounted E sess r S (fst (run_change_op E (actor_of E sess r) i b oper S))"
proof (cases oper)
  case OpCancel
  let ?f = "\<lambda>C. case cancel i (actor_of E sess r) (C, st_stops S) of ((C', stops), x) \<Rightarrow> (C', x)"
  obtain C stops x where c: "cancel i (actor_of E sess r) (st_chg S, st_stops S) = ((C, stops), x)" by (metis surj_pair)
  have "accounted E sess r S (fst (on_chg E ?f S))" by (rule on_chg_accounted) (rule cancel_tells)
  then have "accounted E sess r S ((fst (on_chg E ?f S))\<lparr>st_stops := stops\<rparr>)"
    by (rule accounted_trans) (simp_all add: log_of_def settings_of_def)
  then show ?thesis using OpCancel c by (simp add: run_change_op_def on_chg_def)
qed (auto simp: run_change_op_def intro: on_chg_accounted submit_tells decide_tells run_now_tells)

lemma change_action_accounted: "accounted E sess r S (fst (change_action_h E sess r ps oper S))"
proof -
  have read: "fst (get_change_h ps S1) = S1" for S1 by (simp add: get_change_h_def with_id_def split: option.split)
  have "accounted E sess r S (fst (case run_change_op E (actor_of E sess r) i b oper S of
      (S1, Inl e) \<Rightarrow> (S1, change_error e) | (S1, Inr _) \<Rightarrow> get_change_h ps S1))" for i b
    using change_op_accounted [of E sess r S i b oper] by (auto simp: read split: prod.split sum.split)
  then show ?thesis unfolding change_action_h_def Let_def by (auto intro!: acc_id acc_body)
qed

lemmas accounted_handlers = update_device_accounted save_group_accounted delete_group_accounted delete_device_accounted
  save_rule_accounted delete_rule_accounted save_channel_accounted delete_channel_accounted run_backup_accounted
  update_backup_accounted delete_backup_accounted restore_backup_accounted save_policy_accounted delete_policy_accounted
  save_window_accounted delete_window_accounted set_approval_accounted save_script_accounted delete_script_accounted
  set_variable_accounted run_script_accounted ack_accounted download_accounted refresh_accounted create_device_accounted
  create_change_accounted change_action_accounted

subsection \<open>The handlers that read\<close>

lemma list_devices_read: "fst (list_devices_h E r S) = S" by (simp add: list_devices_h_def split: sum.split)

lemma discover_read: "fst (discover_h E r S) = S"
  by (simp add: discover_h_def with_body_def split: option.split sum.split)

lemma get_device_read: "fst (get_device_h E ps S) = S" by (simp add: get_device_h_def with_id_def split: option.split sum.split)

lemma backup_content_read: "fst (backup_content_h E ps S) = S"
  by (simp add: backup_content_h_def with_id_def split: option.split sum.split prod.split)

lemma diff_backups_read: "fst (diff_backups_h E r S) = S" by (simp add: diff_backups_h_def split: option.split)

lemma preview_read: "fst (preview_script_h E r S) = S"
  by (simp add: preview_script_h_def with_body_def split: option.split prod.split)

lemma firmware_read: "fst (firmware_path_h E r ps S) = S" by (simp add: firmware_path_h_def with_id_def split: option.split)

lemma simple_reads: "fst (list_groups_h S) = S" "fst (list_alerts_h r S) = S" "fst (list_rules_h S) = S" "fst (list_channels_h S) = S"
  "fst (list_backups_h r S) = S" "fst (list_restores_h r S) = S" "fst (list_policies_h E S) = S" "fst (list_changes_h r S) = S"
  "fst (list_windows_h S) = S" "fst (list_scripts_h S) = S"
  by (simp_all add: list_groups_h_def list_alerts_h_def list_rules_h_def list_channels_h_def list_backups_h_def list_restores_h_def
      list_policies_h_def list_changes_h_def list_windows_h_def list_scripts_h_def)

lemma id_reads: "fst (test_channel_h E ps S) = S" "fst (diff_current_h E ps S) = S" "fst (get_restore_h ps S) = S"
  "fst (get_change_h ps S) = S" "fst (script_runs_h ps S) = S" "fst (device_metrics_h E r ps S) = S"
  by (simp_all add: device_metrics_h_def Let_def test_channel_h_def diff_current_h_def get_restore_h_def get_change_h_def script_runs_h_def with_id_def split: option.split)

lemmas reading_handlers = list_devices_read discover_read get_device_read backup_content_read diff_backups_read preview_read
  firmware_read simple_reads id_reads

text \<open>Every handler, but for one: \<open>deleteVariable\<close> does not write to the log.\<close>

lemma handlers_accounted:
  "list_all (\<lambda>(h, x). h = ''deleteVariable'' \<or> accounted E sess r S (fst x)) (site_handlers E stamp sess r ps S)"
  by (simp add: site_handlers_def device_handlers_def backup_handlers_def change_handlers_def script_handlers_def fst_plain
      accounted_handlers reading_handlers accounted_refl)

subsection \<open>Who may\<close>

definition viewers :: "string list" where
  "viewers = [''listDevices'', ''getDevice'', ''deviceMetrics'', ''listGroups'', ''listAlerts'', ''listRules'', ''listChannels'', ''listBackups'', ''diffBackups'',
     ''backupContent'', ''downloadBackup'', ''diffCurrent'', ''listRestores'', ''getRestore'', ''listPolicies'', ''listChanges'',
     ''getChange'', ''listWindows'', ''listScripts'', ''scriptRuns'', ''firmwarePath'']"

definition other_handlers :: "string list" where
  "other_handlers = public_handlers @ [''handleMe'', ''handleAuditList'', ''listUsers'', ''getLicense'', ''licenseRequest'', ''listPackages'', ''listSources'',
     ''otpOverview'', ''listOTPUsers'', ''smsCredit'', ''smsMessages'', ''directorySearch'', ''radiusClients'', ''fortigateOTPConfig'', ''gatewayUsers'']"

lemma reading_routes: "list_all (\<lambda>ro. rt_method ro = GET \<longrightarrow> rt_handler ro \<in> set viewers \<or> rt_handler ro \<in> set other_handlers) routes"
  by code_simp

lemma download_settings: "settings_of (fst (download_backup_h E stamp sess r ps S)) = settings_of S"
  by (simp add: download_backup_h_def with_id_def site_log_def settings_of_def split: option.split sum.split prod.split)

lemma viewers_read:
  "list_all (\<lambda>(h, x). h \<notin> set other_handlers \<and> (h \<in> set viewers \<longrightarrow> settings_of (fst x) = settings_of S)) (site_handlers E stamp sess r ps S)"
  by (simp add: site_handlers_def device_handlers_def backup_handlers_def change_handlers_def script_handlers_def fst_plain viewers_def
      other_handlers_def public_handlers_def reading_handlers download_settings)

lemma serve_cases:
  assumes "serve E stamp r S = Some x"
  obtains (refused) db d where "dispatch (sv_web E) r (pn_auth (st_panel S)) = (db, d)" "fst x = signed_in db S"
  | (handled) db h ps sess where "dispatch (sv_web E) r (pn_auth (st_panel S)) = (db, Handled h ps (Some sess))"
      "(h, x) \<in> set (site_handlers E stamp sess r ps (signed_in db S))"
  using assms
  by (auto simp: serve_def signed_in_def Let_def split: prod.splits dispatched.splits option.splits dest: map_of_SomeD)

lemma handled_accounted:
  assumes "(h, x) \<in> set (site_handlers E stamp sess r ps S)" and "h \<noteq> ''deleteVariable''"
  shows "accounted E sess r S (fst x)"
  using handlers_accounted [of E sess r S stamp ps] assms by (auto simp: list_all_iff)

text \<open>
  C3: When a request has changed the settings, it came with a live session that passed the second
  factor, of a user whose role may do that, and, but for the deletion of a variable, the audit log is
  what it was and then entries with the name and address of that user.
\<close>

theorem requests_accounted:
  assumes "serve E stamp r S = Some (S', rep)" and "settings_of S' \<noteq> settings_of S"
  shows "\<exists>db h ps sess. dispatch (sv_web E) r (pn_auth (st_panel S)) = (db, Handled h ps (Some sess)) \<and>
     carried (sv_web E) r (pn_auth (st_panel S)) sess \<and> se_mfa sess \<and> role_may (us_role (se_user sess)) h \<and>
     (h = ''deleteVariable'' \<or> (\<exists>es. es \<noteq> [] \<and> log_of S' = log_of S @ es \<and> list_all (entry_by E sess r) es))"
  using assms(1)
proof (cases rule: serve_cases)
  case (refused db d)
  then show ?thesis using assms(2) by simp
next
  case (handled db h ps sess)
  note views = viewers_read [of "signed_in db S" E stamp sess r ps]
  have h: "h \<notin> set other_handlers" "h \<notin> set viewers"
    using views handled(2) assms(2) by (auto simp: list_all_iff)
  then have public: "h \<notin> set public_handlers" by (simp add: other_handlers_def)
  obtain ro where ro: "ro \<in> set routes" "rt_handler ro = h" "rt_method ro = rq_method r"
    using dispatch_guarded [OF handled(1)] by blast
  have "rq_method r \<noteq> GET" using reading_routes ro h by (auto simp: list_all_iff)
  from write_allowed [OF handled(1) this public] have may: "carried (sv_web E) r (pn_auth (st_panel S)) sess"
    "role_may (us_role (se_user sess)) h" "se_mfa sess" by auto
  have "\<exists>es. es \<noteq> [] \<and> log_of S' = log_of S @ es \<and> list_all (entry_by E sess r) es" if "h \<noteq> ''deleteVariable''"
    using handled_accounted [OF handled(2) that] assms(2) by (auto simp: accounted_def)
  then show ?thesis using handled(1) may by blast
qed

text \<open>A variable is deleted without an entry.\<close>

lemma deleted_variable_unlogged: "log_of (fst (delete_variable_h ps S)) = log_of S"
  by (auto simp: delete_variable_h_def with_id_def finish_silent on_scripts_def log_of_def split: option.split prod.split)

text \<open>A device that is refused for its serial number stays in the log as created; that it was deleted is not there.\<close>

lemma duplicate_logged_as_created:
  assumes "decode_json (cd_input (sv_codec E)) r = Some inp" and "on_inv (create_device (sv_inv E) (sv_now E) inp) S = (S1, Inr i)"
    and "snd (site_refresh E i (site_log E r sess ''device.create'' ''device'' (show_int i)
        [(''name'', i_name inp), (''host'', i_host inp), (''kind'', i_kind inp)] S1)) = Inl (InvInput m)"
  shows "\<exists>e. log_of (fst (create_device_h E sess r S)) = log_of S @ [e] \<and> au_action e = ''device.create'' \<and>
    snd (create_device_h E sess r S) = Fail 400 (ierror_text (InvInput m))"
proof -
  let ?S2 = "site_log E r sess ''device.create'' ''device'' (show_int i) [(''name'', i_name inp), (''host'', i_host inp), (''kind'', i_kind inp)] S1"
  obtain S3 where S3: "site_refresh E i ?S2 = (S3, Inl (InvInput m))" using assms(3) by (cases "site_refresh E i ?S2") auto
  have log: "log_of S1 = log_of S" using assms(2) by (auto simp: on_inv_def log_of_def split: prod.splits)
  have "log_of (fst (drop_device i S3)) = log_of ?S2" using drop_log refresh_log [OF S3] by metis
  then show ?thesis
    using assms(1,2) S3 log by (simp add: create_device_h_def with_body_def Let_def site_log_def log_of_def Api.audit_def audit_log_def)
qed

subsection \<open>Examples\<close>

definition sample_codecs :: codecs where
  "sample_codecs = \<lparr>cd_reauth = (\<lambda>_. Some (''correct horse'', totp_code sample_crypto ''secret'' (61 * second))), cd_input = (\<lambda>_. Some sample_input),
     cd_group = (\<lambda>_. None), cd_rule = (\<lambda>_. None), cd_channel = (\<lambda>_. None), cd_lock = (\<lambda>_. None), cd_backup_policy = (\<lambda>_. None),
     cd_change = (\<lambda>_. None), cd_action = (\<lambda>_. None), cd_window = (\<lambda>_. None), cd_approval = (\<lambda>_. None), cd_script = (\<lambda>_. None),
     cd_preview = (\<lambda>_. None), cd_run = (\<lambda>_. None), cd_variable = (\<lambda>_. None), cd_spec = (\<lambda>_. None), cd_print_spec = (\<lambda>_. [])\<rparr>"

definition sample_site_env :: "(string, string) siteenv" where
  "sample_site_env = \<lparr>sv_web = sample_web,
     sv_alerts = \<lparr>av_lic = sample_lic, av_guard = sample_guard, av_inv = sample_env, av_items = (\<lambda>_. []), av_grace_days = (\<lambda>_. 0),
       av_grace = ''grace'', av_expired = ''expired'', av_date = show_int, av_mail_ok = (\<lambda>_. True), av_url = (\<lambda>_. None),
       av_hostport = (\<lambda>_. True), av_quote = (\<lambda>s. s), av_send = (\<lambda>_ _ _. None)\<rparr>,
     sv_bk = sample_bkenv, sv_rnd = ''1'', sv_tmpl = echo_tmpl, sv_runners = sample_runners, sv_mf = sample_mf, sv_repo = sample_repo,
     sv_codec = sample_codecs\<rparr>"

definition sample_site :: site where
  "sample_site = \<lparr>st_panel = \<lparr>pn_auth = sample_signed_in 1, pn_audit = []\<rparr>,
     st_inv = sample_inv\<lparr>device_groups := [\<lparr>gr_id = 7, gr_name = ''edge'', gr_description = []\<rparr>], next_group := 8\<rparr>,
     st_mon = sample_monitor, st_alerts = empty_alerts, st_bk = empty_bk, st_chg = empty_chg, st_stops = {}, st_scripts = sample_scripts\<rparr>"

lemma sample_delete_group:
  "find_route routes DELETE [''groups'', ''7''] = Some (rt (Needs PermDevicesWrite) DELETE ''groups/{id}'' ''deleteGroup'', [''7''])"
  by code_simp

lemma sample_group_id: "path_id [''7''] = Some 7" by code_simp

lemma sample_serve:
  assumes "dispatch (sv_web E) r (pn_auth (st_panel S)) = (db, Handled h ps (Some sess))"
    and "map_of (site_handlers E stamp sess r ps (signed_in db S)) h = Some x"
  shows "serve E stamp r S = Some x"
  using assms by (simp add: serve_def signed_in_def Let_def)

theorem requests_accounted_witness:
  "\<exists>S' rep. serve sample_site_env show_int (sample_http DELETE [''groups'', ''7'']) sample_site = Some (S', rep) \<and>
     cf_groups (settings_of S') = [] \<and>
     (\<exists>db h ps sess. dispatch sample_web (sample_http DELETE [''groups'', ''7'']) (sample_signed_in 1) = (db, Handled h ps (Some sess)) \<and>
        role_may (us_role (se_user sess)) h)"
proof -
  let ?r = "sample_http DELETE [''groups'', ''7'']"
  have env: "sv_web sample_site_env = sample_web" "pn_auth (st_panel sample_site) = sample_signed_in 1"
    by (simp_all add: sample_site_env_def sample_site_def)
  obtain db s where d: "dispatch sample_web ?r (sample_signed_in 1) = (db, Handled ''deleteGroup'' [''7''] (Some s))"
    using sample_dispatch [of 1, OF _ sample_delete_group] sample_roles by (auto simp: rt_def)
  let ?x = "delete_group_h sample_site_env s ?r [''7''] (signed_in db sample_site)"
  have x: "serve sample_site_env show_int ?r sample_site = Some ?x"
    by (rule sample_serve [OF d [folded env]]) (simp add: site_handlers_def device_handlers_def)
  have changed: "cf_groups (settings_of (fst ?x)) = []" "cf_groups (settings_of sample_site) \<noteq> []"
    by (simp_all add: delete_group_h_def with_id_def sample_group_id finish_def drop_group_def delete_group_def sample_site_def
        find_row_Cons del_rows_def signed_in_def site_log_def settings_of_def)
  then have "settings_of (fst ?x) \<noteq> settings_of sample_site" by metis
  with requests_accounted [of sample_site_env show_int ?r sample_site "fst ?x" "snd ?x"] x changed(1) show ?thesis
    unfolding env by (metis prod.collapse)
qed

end
