(* ===== verification/Reauth.thy ===== *)
theory Reauth
  imports Requests
begin

text \<open>
  The requests that need the password and a one-time code again (\<open>reauth\<close> in \<open>backup_handlers.go\<close>): every
  other request leaves all devices in the inventory and starts no restore.
\<close>

subsection \<open>Devices and restores\<close>

definition device_ids :: "site \<Rightarrow> int set" where "device_ids S = d_id ` set (devices (st_inv S))"
definition restore_ids :: "site \<Rightarrow> int set" where "restore_ids S = rj_id ` set (rjobs (st_bk S))"

definition harmless :: "site \<Rightarrow> site \<Rightarrow> bool" where
  "harmless S S' \<longleftrightarrow> device_ids S \<subseteq> device_ids S' \<and> restore_ids S' \<subseteq> restore_ids S"

lemma harmless_same: "st_inv S' = st_inv S \<Longrightarrow> st_bk S' = st_bk S \<Longrightarrow> harmless S S'"
  by (simp add: harmless_def device_ids_def restore_ids_def)

lemma harmless_refl: "harmless S S" by (simp add: harmless_same)

lemma harmless_trans: "harmless S S1 \<Longrightarrow> harmless S1 S2 \<Longrightarrow> harmless S S2"
  unfolding harmless_def by blast

lemma harmless_signed_in: "harmless S (signed_in db S)" by (rule harmless_same) (simp_all add: signed_in_def)

lemma signed_in_ids [simp]: "device_ids (signed_in db S) = device_ids S" "restore_ids (signed_in db S) = restore_ids S"
  by (simp_all add: signed_in_def device_ids_def restore_ids_def)

lemma harmless_log: "harmless S S1 \<Longrightarrow> harmless S (site_log E r sess a k n d S1)"
  by (rule harmless_trans, assumption, rule harmless_same) (simp_all add: site_log_def)

lemma h_id: "(\<And>i. harmless S (fst (k i))) \<Longrightarrow> harmless S (fst (with_id ps S k))"
  by (rule id_rule) (rule harmless_refl)

lemma h_body: "(\<And>b. harmless S (fst (k b))) \<Longrightarrow> harmless S (fst (with_body dec r S k))"
  by (rule body_rule) (rule harmless_refl)

lemma h_save: "(\<And>i. harmless S (fst (k i))) \<Longrightarrow> harmless S (fst (with_save_id r ps S k))"
  by (rule save_id_rule) (rule harmless_refl)

lemma h_finish: "harmless S (fst x) \<Longrightarrow> harmless S (fst (finish bad (\<lambda>a. site_log E r sess (act a) (kind a) (obj a) (det a)) good x))"
  by (rule finish_rule) (auto intro: harmless_log)

lemma h_alerts: "harmless S (fst (on_alerts f S))" by (rule harmless_same) (simp_all add: on_alerts_def split: prod.split)
lemma h_scripts: "harmless S (fst (on_scripts f S))" by (rule harmless_same) (simp_all add: on_scripts_def split: prod.split)
lemma h_chg: "harmless S (fst (on_chg E f S))" by (rule harmless_same) (simp_all add: on_chg_def split: prod.split)

lemma h_inv: "d_id ` set (devices (st_inv S)) \<subseteq> d_id ` set (devices (fst (f (st_inv S)))) \<Longrightarrow> harmless S (fst (on_inv f S))"
  by (auto simp: on_inv_def harmless_def device_ids_def restore_ids_def split: prod.split)

lemma h_bk: "job_states (fst (f (st_bk S))) \<subseteq> job_states (st_bk S) \<Longrightarrow> harmless S (fst (on_bk f S))"
proof -
  assume "job_states (fst (f (st_bk S))) \<subseteq> job_states (st_bk S)"
  then have "fst ` job_states (fst (f (st_bk S))) \<subseteq> fst ` job_states (st_bk S)" by (rule image_mono)
  then show ?thesis
    by (cases "f (st_bk S)") (simp add: on_bk_def harmless_def device_ids_def restore_ids_def job_states_def image_image)
qed

lemmas harmless_rules = h_id h_body h_save h_finish h_alerts h_scripts h_chg

subsection \<open>The harmless handlers\<close>

lemma ids_upd_device: "d_id ` set (upd_rows P (update_row V i c) ds) = d_id ` set ds"
  using update_rows.map_key_upd [of P V i c ds] by (metis set_map)

lemma update_device_harmless: "harmless S (fst (update_device_h E sess r ps S))"
  unfolding update_device_h_def
  by (intro h_id h_body h_finish h_inv) (simp add: update_device_def set_device_def ids_upd_device split: sum.split option.split)

lemma save_group_harmless: "harmless S (fst (save_group_h E sess r ps S))"
  unfolding save_group_h_def case_prod_unfold
  by (intro h_save h_body h_finish h_inv) (simp add: save_group_def Let_def)

lemma ids_ungroup: "d_id ` set (upd_rows P (\<lambda>r. r\<lparr>d_group := None\<rparr>) ds) = d_id ` set ds"
  using ungroup_rows.map_key_upd [of P ds] by (metis set_map)

lemma delete_group_harmless: "harmless S (fst (delete_group_h E sess r ps S))"
  unfolding delete_group_h_def
  by (intro h_id h_finish)
    (simp add: drop_group_def delete_group_def harmless_def device_ids_def restore_ids_def ids_ungroup)

lemma refresh_ids: "device_ids (fst (site_refresh E i S)) = device_ids S" "st_bk (fst (site_refresh E i S)) = st_bk S"
proof -
  have "settings_of (fst (site_refresh E i S)) = settings_of S" using site_refresh_quiet by blast
  then have "map device_settings (devices (st_inv (fst (site_refresh E i S)))) = map device_settings (devices (st_inv S))"
    by (simp add: settings_of_def)
  from arg_cong [OF this, of "map (\<lambda>t. fst (fst t))"]
  have "map d_id (devices (st_inv (fst (site_refresh E i S)))) = map d_id (devices (st_inv S))"
    by (simp add: device_settings_def comp_def)
  then show "device_ids (fst (site_refresh E i S)) = device_ids S" unfolding device_ids_def by (metis set_map)
  show "st_bk (fst (site_refresh E i S)) = st_bk S" by (simp add: site_refresh_def split: prod.split)
qed

lemma refresh_harmless': "harmless S (fst (site_refresh E i S))"
  by (simp add: harmless_def refresh_ids restore_ids_def)

lemma refresh_harmless: "harmless S (fst (refresh_device_h E ps S))"
proof -
  have "harmless S S1" if "site_refresh E i S = (S1, x)" for i S1 and x :: "ierror + unit"
    using refresh_harmless' [of S E i] that by simp
  then show ?thesis
    unfolding refresh_device_h_def get_device_h_def
    by (intro h_id) (auto simp: with_id_def split: prod.split sum.split option.split)
qed

lemma download_harmless: "harmless S (fst (download_backup_h E stamp sess r ps S))"
  unfolding download_backup_h_def
  by (intro h_id) (auto simp: harmless_refl intro!: harmless_log split: sum.split prod.split)

lemma drop_states: "job_states (drop_backup i st) \<subseteq> job_states st"
  by (auto simp: job_states_def drop_backup_def set_upd_rows)

lemma delete_states: "job_states (fst (delete_backup I i st)) \<subseteq> job_states st"
proof -
  have "job_states ((drop_backup j st)\<lparr>bk_files := F\<rparr>) \<subseteq> job_states st" for j F using drop_states [of j st] by (simp add: job_states_def)
  then show ?thesis by (auto simp: delete_backup_def Let_def dest: subsetD [OF drop_states] split: sum.splits if_splits)
qed

lemma backup_harmless:
  "harmless S (fst (run_backup_h E sess r ps S))" "harmless S (fst (update_backup_h E sess r ps S))"
  "harmless S (fst (delete_backup_h E sess r ps S))" "harmless S (fst (save_policy_h E sess r ps S))"
  "harmless S (fst (delete_policy_h E sess r ps S))"
  unfolding run_backup_h_def update_backup_h_def delete_backup_h_def save_policy_h_def delete_policy_h_def case_prod_unfold
      apply (intro h_id h_finish h_bk, rule run_states)
     apply (intro h_id h_body h_finish h_bk, simp add: set_lock_def job_states_def)
    apply (intro h_id h_finish h_bk, rule delete_states)
   apply (intro h_body h_save h_finish h_bk, simp add: save_bpolicy_def job_states_def Let_def split: option.split)
  apply (intro h_id h_finish h_bk, simp add: delete_bpolicy_def job_states_def)
  done

lemma alert_harmless:
  "harmless S (fst (save_rule_h E sess r ps S))" "harmless S (fst (delete_rule_h E sess r ps S))"
  "harmless S (fst (save_channel_h E sess r ps S))" "harmless S (fst (delete_channel_h E sess r ps S))"
  "harmless S (fst (ack_h E sess ps S))"
  unfolding save_rule_h_def delete_rule_h_def save_channel_h_def delete_channel_h_def ack_h_def
  by (intro harmless_rules | simp only: finish_silent)+

lemma change_harmless:
  "harmless S (fst (save_window_h E sess r ps S))" "harmless S (fst (delete_window_h E sess r ps S))"
  "harmless S (fst (delete_script_h E sess r ps S))" "harmless S (fst (run_script_h E sess r ps S))"
  "harmless S (fst (set_variable_h E sess r S))" "harmless S (fst (delete_variable_h ps S))"
  unfolding save_window_h_def delete_window_h_def delete_script_h_def run_script_h_def set_variable_h_def delete_variable_h_def case_prod_unfold
  by (intro harmless_rules | simp only: finish_silent)+

lemma approval_harmless: "harmless S (fst (set_approval_h E sess r S))"
proof -
  have "harmless S (fst (finish change_error (\<lambda>_. site_log E r sess a k n d) good (on_chg E f S)))"
    for a k n d f and good :: "unit \<Rightarrow> unit Api.reply" by (intro h_finish h_chg)
  then show ?thesis unfolding set_approval_h_def by (intro h_body) (auto simp: harmless_refl split: option.split)
qed

lemma on_scriptsD: "on_scripts f S = (S1, x) \<Longrightarrow> harmless S S1" using h_scripts [of S f] by simp
lemma on_chgD: "on_chg E f S = (S1, x) \<Longrightarrow> harmless S S1" using h_chg [of S E f] by simp

lemma save_script_harmless: "harmless S (fst (save_script_h E sess r ps S))"
  unfolding save_script_h_def
  by (intro h_body h_save) (auto dest: on_scriptsD intro: harmless_log split: prod.split sum.split)

lemma create_change_harmless: "harmless S (fst (create_change_h E sess r S))"
  unfolding create_change_h_def
  by (intro h_body) (auto simp: harmless_refl dest: on_chgD split: prod.split sum.split)

lemma change_action_harmless: "harmless S (fst (change_action_h E sess r ps oper S))"
proof -
  have stops: "harmless S (S1\<lparr>st_stops := X\<rparr>)" if "harmless S S1" for S1 X
    using that by (simp add: harmless_def device_ids_def restore_ids_def)
  have op: "harmless S S1" if "run_change_op E a i b oper S = (S1, x)" for a i b S1 x
    using that by (cases oper) (auto simp: run_change_op_def intro: stops dest: on_chgD split: prod.splits)
  have read: "fst (get_change_h ps S1) = S1" for S1 by (rule reading_handlers)
  have "harmless S (fst (case run_change_op E a i b oper S of (S1, Inl e) \<Rightarrow> (S1, change_error e) | (S1, Inr _) \<Rightarrow> get_change_h ps S1))" for a i b
    by (auto simp: read dest: op split: prod.split sum.split)
  then show ?thesis unfolding change_action_h_def Let_def by (auto intro!: h_id h_body)
qed

text \<open>A new device gets a new number, so that deleting it again deletes no other.\<close>

lemma drop_other: "i \<notin> device_ids S \<Longrightarrow> device_ids S \<subseteq> device_ids S3 \<Longrightarrow> device_ids S \<subseteq> device_ids (fst (drop_device i S3))"
proof -
  have "device_ids S3 - {i} \<subseteq> device_ids (fst (drop_device i S3))"
    by (auto simp: drop_device_def delete_device_def device_ids_def del_rows_def split: prod.split)
  then show "i \<notin> device_ids S \<Longrightarrow> device_ids S \<subseteq> device_ids S3 \<Longrightarrow> ?thesis" by blast
qed

lemma drop_restores: "restore_ids (fst (drop_device i S)) \<subseteq> restore_ids S"
  by (auto simp: drop_device_def restore_ids_def Backup.forget_device_def Let_def set_upd_rows split: prod.split sum.split)

lemma created: "create_device V now inp I = (I', Inr i) \<Longrightarrow> i = next_device I \<and> (\<exists>d. devices I' = devices I @ [d])"
  by (auto simp: create_device_def split: sum.splits option.splits)

lemma new_device_id:
  assumes "inv_ok (st_inv S)" and "on_inv (create_device V now inp) S = (S1, Inr i)"
  shows "i \<notin> device_ids S" and "harmless S S1"
proof -
  have create: "create_device V now inp (st_inv S) = (st_inv S1, Inr i)" and S1: "st_bk S1 = st_bk S"
    using assms(2) by (auto simp: on_inv_def split: prod.splits)
  show "i \<notin> device_ids S" using created [OF create] assms(1) by (auto simp: device_ids_def inv_ok_def)
  show "harmless S S1" using created [OF create] S1 by (auto simp: harmless_def device_ids_def restore_ids_def)
qed

lemma create_device_harmless:
  assumes "inv_ok (st_inv S)"
  shows "harmless S (fst (create_device_h E sess r S))"
proof -
  have one: "harmless S (fst (drop_device i S3))" if "on_inv (create_device V now inp) S = (S1, Inr i)" "harmless S S3" for V now inp S1 i S3
    using drop_other new_device_id(1) [OF assms that(1)] that(2) drop_restores [of i S3] by (auto simp: harmless_def)
  have two: "harmless S S3"
    if "on_inv (create_device V now inp) S = (S1, Inr i)" "site_refresh E i (site_log E r sess a k n d S1) = (S3, x)" for V now inp S1 i a k n d S3 x
    using harmless_trans [OF harmless_log [OF new_device_id(2) [OF assms that(1)]] refresh_harmless'] that(2) by (metis fst_conv)
  have three: "harmless S S1" if "on_inv (create_device V now inp) S = (S1, Inl e)" for V now inp S1 e
    using that by (auto simp: on_inv_def harmless_refl dest: create_device_refused split: prod.splits)
  show ?thesis
    unfolding create_device_h_def Let_def
  proof (rule h_body)
    fix inp
    let ?c = "on_inv (create_device (sv_inv E) (sv_now E) inp) S"
    let ?log = "\<lambda>i. site_log E r sess ''device.create'' ''device'' (show_int i) [(''name'', i_name inp), (''host'', i_host inp), (''kind'', i_kind inp)]"
    show "harmless S (fst (case ?c of
        (S1, Inl e) \<Rightarrow> (S1, service_error e)
      | (S1, Inr i) \<Rightarrow>
          (case site_refresh E i (?log i S1) of
             (S3, Inl (InvInput m)) \<Rightarrow> (fst (drop_device i S3), Fail 400 (ierror_text (InvInput m)))
           | (S3, _) \<Rightarrow> (case site_device E S3 i of Inl e \<Rightarrow> (S3, service_error e) | Inr d \<Rightarrow> (S3, Api.Reply 201 d)))))"
    proof (cases ?c)
      case (Pair S1 x)
      show ?thesis
      proof (cases x)
        case (Inl e)
        then show ?thesis using Pair three by simp
      next
        case (Inr i)
        note c = Pair [unfolded Inr]
        obtain S3 y where f: "site_refresh E i (?log i S1) = (S3, y)" by fastforce
        show ?thesis using c f two [OF c f] one [OF c two [OF c f]] by (simp split: sum.split ierror.split)
      qed
    qed
  qed
qed

lemmas harmless_handlers = update_device_harmless save_group_harmless delete_group_harmless refresh_harmless download_harmless
  backup_harmless alert_harmless change_harmless approval_harmless save_script_harmless create_change_harmless
  change_action_harmless create_device_harmless

lemma handlers_harmless:
  assumes "inv_ok (st_inv S)"
  shows "list_all (\<lambda>(h, x). h \<in> {''deleteDevice'', ''restoreBackup''} \<or> harmless S (fst x)) (site_handlers E stamp sess r ps S)"
  by (simp add: site_handlers_def device_handlers_def backup_handlers_def change_handlers_def script_handlers_def fst_plain
      harmless_handlers assms reading_handlers harmless_refl)

subsection \<open>The two that are not\<close>

text \<open>The body has the password and a one-time code of the user of the session, right at this moment.\<close>

definition proven :: "('l, 't) siteenv \<Rightarrow> session \<Rightarrow> Api.request \<Rightarrow> authdb \<Rightarrow> bool" where
  "proven E sess r db \<longleftrightarrow>
     (\<exists>pw code u. decode_json (cd_reauth (sv_codec E)) r = Some (pw, code) \<and> find_row us_id (us_id (se_user sess)) (users db) = Some u \<and>
        \<not> locked_at (us_locked u) (sv_now E) \<and> check_password (ae_crypto (we_auth (sv_web E))) (us_hash u) pw = Inr True \<and>
        code_ok (we_auth (sv_web E)) (sv_now E) code u)"

lemma reauthenticated:
  assumes "reauthenticate A now i pw code db = (db', Inr u)"
  shows "\<exists>r. find_row us_id i (users db) = Some r \<and> \<not> locked_at (us_locked r) now \<and>
    check_password (ae_crypto A) (us_hash r) pw = Inr True \<and> code_ok A now code r"
  using assms check_code_cases(1) [of A now i code db db' u]
  by (auto simp: reauthenticate_def split: option.splits sum.splits if_splits)

lemma with_reauth_proven:
  assumes "\<not> proven E sess r (pn_auth (st_panel S))"
  shows "harmless S (fst (with_reauth E sess r S k))"
proof -
  have "harmless S (fst (case reauth (sv_web E) sess pw code (st_panel S) of
       (P, Some (status, msg)) \<Rightarrow> (S\<lparr>st_panel := P\<rparr>, Fail status msg) | (P, None) \<Rightarrow> k (S\<lparr>st_panel := P\<rparr>)))"
    if "decode_json (cd_reauth (sv_codec E)) r = Some (pw, code)" for pw code
  proof (cases "reauthenticate (we_auth (sv_web E)) (sv_now E) (us_id (se_user sess)) pw code (pn_auth (st_panel S))")
    case (Pair db x)
    have "\<exists>e. x = Inl e" using Pair reauthenticated assms that by (cases x) (auto simp: proven_def)
    then show ?thesis using Pair by (auto simp: reauth_def lift_auth_def intro: harmless_same)
  qed
  then show ?thesis by (auto simp: with_reauth_def with_body_def harmless_refl split: option.split prod.split)
qed

lemma delete_device_proven: "\<not> proven E sess r (pn_auth (st_panel S)) \<Longrightarrow> harmless S (fst (delete_device_h E sess r ps S))"
  unfolding delete_device_h_def by (intro h_id with_reauth_proven)

lemma restore_proven: "\<not> proven E sess r (pn_auth (st_panel S)) \<Longrightarrow> harmless S (fst (restore_backup_h E sess r ps S))"
  unfolding restore_backup_h_def by (intro h_id with_reauth_proven)

lemma handler_names: "list_all (\<lambda>(h, x). (h = ''deleteDevice'' \<longrightarrow> x = delete_device_h E sess r ps S) \<and>
    (h = ''restoreBackup'' \<longrightarrow> x = plain (restore_backup_h E sess r ps S))) (site_handlers E stamp sess r ps S)"
  by (simp add: site_handlers_def device_handlers_def backup_handlers_def change_handlers_def script_handlers_def)

lemma handled_proven:
  assumes "(h, x) \<in> set (site_handlers E stamp sess r ps S)" and "inv_ok (st_inv S)" and "\<not> harmless S (fst x)"
  shows "h \<in> {''deleteDevice'', ''restoreBackup''}" and "proven E sess r (pn_auth (st_panel S))"
proof -
  show h: "h \<in> {''deleteDevice'', ''restoreBackup''}"
    using handlers_harmless [OF assms(2), where E = E and sess = sess and r = r and stamp = stamp and ps = ps] assms(1,3) by (auto simp: list_all_iff)
  have "x = delete_device_h E sess r ps S \<or> x = plain (restore_backup_h E sess r ps S)"
    using handler_names [where E = E and sess = sess and r = r and stamp = stamp and ps = ps and S = S] assms(1) h by (auto simp: list_all_iff)
  then show "proven E sess r (pn_auth (st_panel S))"
    using assms(3) delete_device_proven restore_proven by (metis fst_plain)
qed

text \<open>
  C4: A request takes a device out of the inventory or starts a restore only as the deletion of a device or
  the restore of a backup, with a session that passed the second factor, of a user whose role may do
  that, and with the password and a valid one-time code of that user in the request itself.
\<close>

theorem destruction_needs_reauth:
  assumes "serve E stamp r S = Some (S', rep)" and "inv_ok (st_inv S)"
    and "\<not> device_ids S \<subseteq> device_ids S' \<or> \<not> restore_ids S' \<subseteq> restore_ids S"
  shows "\<exists>db h ps sess. dispatch (sv_web E) r (pn_auth (st_panel S)) = (db, Handled h ps (Some sess)) \<and>
     h \<in> {''deleteDevice'', ''restoreBackup''} \<and> carried (sv_web E) r (pn_auth (st_panel S)) sess \<and> se_mfa sess \<and>
     role_may (us_role (se_user sess)) h \<and> proven E sess r db"
  using assms(1)
proof (cases rule: serve_cases)
  case (refused db d)
  then show ?thesis using assms(3) by simp
next
  case (handled db h ps sess)
  have ok: "inv_ok (st_inv (signed_in db S))" using assms(2) by simp
  have "\<not> harmless (signed_in db S) (fst (S', rep))" using assms(3) by (auto simp: harmless_def)
  note h = handled_proven [OF handled(2) ok this]
  have db: "pn_auth (st_panel (signed_in db S)) = db" by (simp add: signed_in_def)
  obtain ro where ro: "ro \<in> set routes" "rt_handler ro = h" "rt_method ro = rq_method r"
    using dispatch_guarded [OF handled(1)] by blast
  have "list_all (\<lambda>ro. rt_method ro = GET \<longrightarrow> rt_handler ro \<notin> {''deleteDevice'', ''restoreBackup''}) routes" by code_simp
  then have "rq_method r \<noteq> GET" using ro h(1) by (auto simp: list_all_iff)
  moreover have "h \<notin> set public_handlers" using h(1) by (auto simp: public_handlers_def)
  ultimately have "carried (sv_web E) r (pn_auth (st_panel S)) sess \<and> se_mfa sess \<and> role_may (us_role (se_user sess)) h"
    using write_allowed [OF handled(1)] by auto
  then show ?thesis using handled(1) h db by auto
qed

subsection \<open>Example\<close>

lemma sample_delete_device: "find_route routes DELETE [''devices'', ''1''] = Some (rt (Needs PermDevicesWrite) DELETE ''devices/{id}'' ''deleteDevice'', [''1''])"
  by code_simp

lemma sample_device_id: "path_id [''1''] = Some 1" by code_simp

lemma sample_session:
  "\<exists>db s. dispatch sample_web (sample_http DELETE [''devices'', ''1'']) (sample_signed_in 1) = (db, Handled ''deleteDevice'' [''1''] (Some s)) \<and>
     users db = users sample_auth \<and> us_id (se_user s) = 1"
proof -
  let ?r = "sample_http DELETE [''devices'', ''1'']"
  obtain db s where load: "load_session sample_web ?r (sample_signed_in 1) = (db, Inr (Some s))" "se_mfa s"
      "us_role (se_user s) = RoleSuperAdmin" "users db = users sample_auth" "us_id (se_user s) = 1"
    by (auto simp: load_session_def sample_http_def sample_web_def sample_signed_in_def authenticate_def hash_token_def sample_authenv_def
        sample_crypto_def sample_auth_def find_row_Cons sample_session_def session_user_def sample_root_def sample_viewer_def
        session_ttl_def idle_timeout_def public_user_def user.defs Let_def)
  have req: "rq_path ?r = [''api'', ''v1'', ''devices'', ''1'']" "rq_method ?r = DELETE" "csrf_ok ?r" by (simp_all add: sample_http_def csrf_ok_def)
  have "dispatch sample_web ?r (sample_signed_in 1) = (db, Handled ''deleteDevice'' [''1''] (Some s))"
    using load sample_delete_device sample_roles
    by (simp add: dispatch_def guarded_def req rt_def require_perm_def require_user_def)
  then show ?thesis using load(4,5) by blast
qed

lemma sample_code: "code_ok sample_authenv (61 * second) (totp_code sample_crypto ''secret'' (61 * second)) sample_root"
proof -
  let ?c = "totp_code sample_crypto ''secret'' (61 * second)"
  have "verify_totp sample_crypto ''secret'' ?c (61 * second)" by (simp add: verify_steps)
  moreover have "trim_space ?c = ?c" by (rule trim_digits) (simp add: totp_code_def totp_digits_only)
  ultimately show ?thesis by (simp add: code_ok_def sample_root_def sample_authenv_def)
qed

lemma sample_reauth:
  assumes "users db = users sample_auth"
  shows "reauthenticate sample_authenv (61 * second) 1 ''correct horse'' (totp_code sample_crypto ''secret'' (61 * second)) db = (db, Inr ())"
proof -
  have root: "find_row us_id 1 (users db) = Some sample_root" and id1: "us_id sample_root = 1"
    by (simp_all add: assms sample_auth_def find_row_Cons sample_root_def)
  have "check_code sample_authenv (61 * second) 1 (totp_code sample_crypto ''secret'' (61 * second)) db = (db, Inr ())"
    by (rule code_ok_check [OF root id1 sample_code])
  moreover have "check_password (ae_crypto sample_authenv) (us_hash sample_root) ''correct horse'' = Inr True" "us_locked sample_root = None"
    by (simp_all add: sample_authenv_def sample_root_def sample_hash_check)
  ultimately show ?thesis using root by (simp add: reauthenticate_def locked_at_def)
qed

theorem destruction_needs_reauth_witness:
  "\<exists>S' rep. serve sample_site_env show_int (sample_http DELETE [''devices'', ''1'']) sample_site = Some (S', rep) \<and>
     device_ids sample_site = {1} \<and> device_ids S' = {} \<and>
     (\<exists>db h ps sess. dispatch sample_web (sample_http DELETE [''devices'', ''1'']) (sample_signed_in 1) = (db, Handled h ps (Some sess)) \<and>
        proven sample_site_env sess (sample_http DELETE [''devices'', ''1'']) db)"
proof -
  let ?r = "sample_http DELETE [''devices'', ''1'']"
  have env: "sv_web sample_site_env = sample_web" "pn_auth (st_panel sample_site) = sample_signed_in 1"
    by (simp_all add: sample_site_env_def sample_site_def)
  obtain db s where d: "dispatch sample_web ?r (sample_signed_in 1) = (db, Handled ''deleteDevice'' [''1''] (Some s))"
    and db: "users db = users sample_auth" "us_id (se_user s) = 1" using sample_session by blast
  let ?S = "signed_in db sample_site"
  let ?x = "delete_device_h sample_site_env s ?r [''1''] ?S"
  have x: "serve sample_site_env show_int ?r sample_site = Some ?x"
    by (rule sample_serve [OF d [folded env]]) (simp add: site_handlers_def device_handlers_def)
  have ids: "device_ids sample_site = {1}"
    by (simp add: device_ids_def sample_site_def sample_inv_eq new_row_def empty_inv_def)
  let ?code = "totp_code sample_crypto ''secret'' (61 * second)"
  obtain dv where dv: "site_device sample_site_env ?S 1 = Inr dv"
    by (simp add: site_device_def signed_in_def sample_site_def sample_site_env_def sample_inv_eq get_device_def find_row_Cons new_row_def
        scan_def drow.defs)
  obtain S1 where drop: "drop_device 1 ?S = (S1, Inr ())" "device_ids S1 = {}"
    by (simp add: drop_device_def delete_device_def signed_in_def sample_site_def sample_inv_eq new_row_def find_row_Cons del_rows_def
        device_ids_def empty_inv_def)
  have body: "decode_json (cd_reauth (sv_codec sample_site_env)) ?r = Some (''correct horse'', ?code)"
    by (simp add: decode_json_def sample_site_env_def sample_codecs_def)
  have auth: "pn_auth (st_panel ?S) = db" "we_auth sample_web = sample_authenv" "we_now sample_web = 61 * second"
    by (simp_all add: signed_in_def sample_web_def)
  have "reauth sample_web s ''correct horse'' ?code (st_panel ?S) = (st_panel ?S, None)"
    using auth(1) sample_reauth [OF db(1)] by (simp add: reauth_def lift_auth_def auth(2,3) db(2) signed_in_def)
  then have "\<exists>a k n dt. fst ?x = site_log sample_site_env ?r s a k n dt S1"
    by (simp add: delete_device_h_def with_id_def sample_device_id with_reauth_def with_body_def body env dv drop(1) finish_def) blast
  then have gone: "device_ids (fst ?x) = {}" using drop(2) by (auto simp: site_log_def device_ids_def)
  have ok: "inv_ok (st_inv sample_site)"
    by (simp add: sample_site_def sample_inv_eq new_row_def sample_input_def empty_inv_def inv_ok_def unique_on_def group_missing_def)
  show ?thesis
    using destruction_needs_reauth [OF _ ok, of sample_site_env show_int ?r "fst ?x" "snd ?x"] x gone ids unfolding env
    by (metis empty_iff insert_not_empty prod.collapse subset_empty)
qed

end
