(* ===== verification/SitePackages.thy ===== *)
theory SitePackages
  imports Site Sources
begin

text \<open>
  The handlers of the panel for packages, bundles and package sources (\<open>package_handlers.go\<close>), over the
  repository and the sources of \<open>Sources\<close> and the audit log. A sync runs after its request: the state keeps
  the list of syncs that were asked for.
\<close>

subsection \<open>State\<close>

record depot =
  dp_panel :: panel
  dp_pk :: pkdb
  dp_syncs :: "(int \<times> string) list"

text \<open>
  A part of an upload: its form name, file name and content. \<open>pv_parts\<close> is \<open>None\<close> for a request that is not
  multipart; a part that ends early has an error in its content. \<open>pv_tmp\<close> is the error of the temporary file.
\<close>

type_synonym upart = "string \<times> string \<times> reader"

record pkenv =
  pv_web :: webenv
  pv_mf :: mflib
  pv_crypto :: crypto
  pv_src :: srcenv
  pv_parts :: "Api.request \<Rightarrow> upart list option"
  pv_raw :: "string \<Rightarrow> string option"
  pv_meta :: "string \<Rightarrow> pkmeta option"
  pv_source :: "string \<Rightarrow> source option"
  pv_tmp :: "string option"
  pv_zip :: "string \<Rightarrow> zipfile"

type_synonym 'a pkanswer = "depot \<times> 'a Api.reply"

definition dp_log ::
  "pkenv \<Rightarrow> Api.request \<Rightarrow> session \<Rightarrow> string \<Rightarrow> string \<Rightarrow> string \<Rightarrow> (string \<times> string) list \<Rightarrow> depot \<Rightarrow> depot" where
  "dp_log V r sess action kind obj details D = D\<lparr>dp_panel := Api.audit (pv_web V) r sess action kind obj details (dp_panel D)\<rparr>"

definition on_pk :: "(pkdb \<Rightarrow> pkdb \<times> 'r) \<Rightarrow> depot \<Rightarrow> depot \<times> 'r" where
  "on_pk f D = (case f (dp_pk D) of (P, x) \<Rightarrow> (D\<lparr>dp_pk := P\<rparr>, x))"

definition on_repo :: "(repo \<Rightarrow> repo \<times> 'r) \<Rightarrow> depot \<Rightarrow> depot \<times> 'r" where
  "on_repo f = on_pk (\<lambda>P. case f (db_repo P) of (R, x) \<Rightarrow> (P\<lparr>db_repo := R\<rparr>, x))"

fun package_error :: "pkerror \<Rightarrow> 'a Api.reply" where
  "package_error (PkInput m) = Fail 400 m"
| "package_error PkNotFound = not_found"
| "package_error (PkOther m) = internal_error"

subsection \<open>Packages\<close>

definition list_packages_h :: "Api.request \<Rightarrow> depot \<Rightarrow> package list pkanswer" where
  "list_packages_h r D =
     (D, Api.Reply 200 (list_packages (rq_query r ''platform'') (rq_query r ''type'') (rq_query r ''all'' = ''1'') (db_repo (dp_pk D))))"

definition update_package_h :: "pkenv \<Rightarrow> session \<Rightarrow> Api.request \<Rightarrow> string list \<Rightarrow> depot \<Rightarrow> unit pkanswer" where
  "update_package_h V sess r ps D =
     with_id ps D (\<lambda>i. with_body (pv_meta V) r D (\<lambda>m.
       finish package_error
         (\<lambda>_. dp_log V r sess ''package.update'' ''package'' (show_int i) [(''type'', pm_type m), (''version'', pm_version m)])
         (Api.Reply 204) (on_repo (update_package (pv_mf V) (we_now (pv_web V)) i m) D)))"

definition delete_package_h :: "pkenv \<Rightarrow> session \<Rightarrow> Api.request \<Rightarrow> string list \<Rightarrow> depot \<Rightarrow> unit pkanswer" where
  "delete_package_h V sess r ps D =
     with_id ps D (\<lambda>i.
       case get_package i (db_repo (dp_pk D)) of
         Inl e \<Rightarrow> (D, package_error e)
       | Inr p \<Rightarrow>
           finish package_error
             (\<lambda>_. dp_log V r sess ''package.delete'' ''package'' (show_int i) [(''file'', pk_file p), (''sha256'', pk_sha p)])
             (Api.Reply 204) (on_repo (delete_package i) D))"

subsection \<open>Uploads\<close>

text \<open>The first file of an upload, and the last description before it; others are skipped.\<close>

fun file_part :: "(string \<Rightarrow> string option) \<Rightarrow> bool \<Rightarrow> string \<Rightarrow> upart list \<Rightarrow> string + (reader \<times> string \<times> string)" where
  "file_part dec want raw [] = Inl ''no file in the upload''"
| "file_part dec want raw ((form, name, cont) # ps) =
     (if form = ''meta'' \<and> want
      then (case dec (take (64 * 1024) (fst cont)) of
              None \<Rightarrow> Inl ''invalid package description''
            | Some v \<Rightarrow> file_part dec want v ps)
      else if form = ''file'' then Inr (cont, name, raw)
      else file_part dec want raw ps)"

definition with_file :: "pkenv \<Rightarrow> bool \<Rightarrow> Api.request \<Rightarrow> depot \<Rightarrow> (reader \<times> string \<times> string \<Rightarrow> 'a pkanswer) \<Rightarrow> 'a pkanswer" where
  "with_file V want r D k =
     (case pv_parts V r of
        None \<Rightarrow> (D, Fail 400 ''expected a multipart upload'')
      | Some parts \<Rightarrow> (case file_part (pv_raw V) want [] parts of Inl m \<Rightarrow> (D, Fail 400 m) | Inr x \<Rightarrow> k x))"

text \<open>An upload without a description, or with \<open>null\<close>, gets a guessed one.\<close>

definition upload_meta :: "pkenv \<Rightarrow> string \<Rightarrow> pkmeta option option" where
  "upload_meta V raw = (if raw = [] \<or> raw = ''null'' then Some None else map_option Some (pv_meta V raw))"

definition upload_package_h :: "pkenv \<Rightarrow> session \<Rightarrow> Api.request \<Rightarrow> depot \<Rightarrow> package pkanswer" where
  "upload_package_h V sess r D =
     with_file V True r D (\<lambda>(cont, name, raw).
       case upload_meta V raw of
         None \<Rightarrow> (D, Fail 400 ''invalid package description'')
       | Some m \<Rightarrow>
           finish package_error
             (\<lambda>p. dp_log V r sess ''package.upload'' ''package'' (show_int (pk_id p)) [(''file'', pk_file p), (''sha256'', pk_sha p)])
             (Api.Reply 201) (on_repo (upload (pv_mf V) (pv_crypto V) (we_now (pv_web V)) cont name m) D))"

text \<open>\<open>fin\<close> is the time when the import ends.\<close>

definition import_bundle_h :: "pkenv \<Rightarrow> time \<Rightarrow> session \<Rightarrow> Api.request \<Rightarrow> depot \<Rightarrow> sync_run pkanswer" where
  "import_bundle_h V fin sess r D =
     with_file V False r D (\<lambda>(cont, name, raw).
       if pv_tmp V \<noteq> None then (D, internal_error)
       else case snd cont of
         Some e \<Rightarrow> (D, Fail 400 (''upload failed: '' @ e))
       | None \<Rightarrow>
           finish package_error
             (\<lambda>run. dp_log V r sess ''package.bundle'' ''package'' []
                [(''added'', show_int (int (sy_added run))), (''seen'', show_int (int (sy_seen run))), (''status'', sy_status run)])
             (Api.Reply 200)
             (on_pk (import_bundle (pv_mf V) (pv_crypto V) (we_now (pv_web V)) fin (pv_zip V (fst cont)) (us_name (se_user sess))) D))"

subsection \<open>Sources\<close>

definition list_sources_h :: "pkenv \<Rightarrow> depot \<Rightarrow> ((source \<times> time option) list \<times> sync_run list) pkanswer" where
  "list_sources_h V D = (D, Api.Reply 200 (list_sources (pv_src V) (we_now (pv_web V)) (dp_pk D), sync_runs (dp_pk D)))"

definition kind_name :: "skind \<Rightarrow> string" where
  "kind_name k = (case k of KindCentral \<Rightarrow> ''central'' | KindHTTP \<Rightarrow> ''http'' | KindFTP \<Rightarrow> ''ftp'' | KindSFTP \<Rightarrow> ''sftp'' | KindTFTP \<Rightarrow> ''tftp'' | OtherKind s \<Rightarrow> s)"

definition save_source_h :: "pkenv \<Rightarrow> session \<Rightarrow> Api.request \<Rightarrow> string list \<Rightarrow> depot \<Rightarrow> int pkanswer" where
  "save_source_h V sess r ps D =
     with_body (pv_source V) r D (\<lambda>src. with_save_id r ps D (\<lambda>i.
       finish package_error
         (\<lambda>n. dp_log V r sess ''package_source.save'' ''package_source'' (show_int n)
            [(''name'', sr_name src), (''kind'', kind_name (sr_kind src))])
         (Api.Reply 200) (on_pk (save_source (pv_src V) (we_now (pv_web V)) (src\<lparr>sr_id := i\<rparr>)) D)))"

definition delete_source_h :: "pkenv \<Rightarrow> session \<Rightarrow> Api.request \<Rightarrow> string list \<Rightarrow> depot \<Rightarrow> unit pkanswer" where
  "delete_source_h V sess r ps D =
     with_id ps D (\<lambda>i.
       finish package_error (\<lambda>_. dp_log V r sess ''package_source.delete'' ''package_source'' (show_int i) []) (Api.Reply 204)
         (on_pk (delete_source i) D))"

text \<open>The answer does not wait for the sync, and does not say whether there is such a source.\<close>

definition sync_source_h :: "pkenv \<Rightarrow> session \<Rightarrow> Api.request \<Rightarrow> string list \<Rightarrow> depot \<Rightarrow> unit pkanswer" where
  "sync_source_h V sess r ps D =
     with_id ps D (\<lambda>i.
       (dp_log V r sess ''package_source.sync'' ''package_source'' (show_int i) [] (D\<lparr>dp_syncs := dp_syncs D @ [(i, us_name (se_user sess))]\<rparr>),
        Api.Reply 202 ()))"

text \<open>A sync that was asked for, run in the background.\<close>

definition run_asked ::
  "pkenv \<Rightarrow> 'l remote \<Rightarrow> (string \<times> 'l guard) option \<Rightarrow> time \<Rightarrow> time \<Rightarrow> depot \<Rightarrow> depot" where
  "run_asked V N lic now fin D =
     (case dp_syncs D of
        [] \<Rightarrow> D
      | (i, actor) # js \<Rightarrow> D\<lparr>dp_syncs := js, dp_pk := fst (sync (pv_mf V) (pv_crypto V) (pv_src V) N lic now fin i actor (dp_pk D))\<rparr>)"

subsection \<open>What is done is in the log\<close>

definition dp_same :: "depot \<Rightarrow> depot \<Rightarrow> bool" where "dp_same D D' \<longleftrightarrow> dp_pk D' = dp_pk D \<and> dp_syncs D' = dp_syncs D"

abbreviation dp_entries :: "depot \<Rightarrow> audit_entry list" where "dp_entries D \<equiv> pn_audit (dp_panel D)"

interpretation depot_log: journal dp_entries dp_same "entry_of W sess r" for W sess r
  by unfold_locales (simp add: dp_same_def)

lemma dp_entry: "\<exists>e. entry_of (pv_web V) sess r e \<and> dp_entries (dp_log V r sess a k n d D) = dp_entries D @ [e]"
  by (simp add: entry_of_def dp_log_def Api.audit_def audit_log_def)

lemma dp_logged: "dp_panel D1 = dp_panel D \<Longrightarrow> depot_log.told (pv_web V) sess r D (dp_log V r sess a k n d D1)"
proof -
  assume "dp_panel D1 = dp_panel D"
  moreover obtain e where "entry_of (pv_web V) sess r e" "dp_entries (dp_log V r sess a k n d D1) = dp_entries D1 @ [e]" using dp_entry by metis
  ultimately show ?thesis by (metis depot_log.told_entry)
qed

lemma dp_file: "(\<And>x. depot_log.told (pv_web V) sess r D (fst (k x))) \<Longrightarrow> depot_log.told (pv_web V) sess r D (fst (with_file V' want r' D k))"
  by (simp add: with_file_def depot_log.told_refl split: option.split sum.split)

lemma dp_finish:
  assumes "\<And>P e. f (dp_pk D) = (P, Inl e) \<Longrightarrow> P = dp_pk D"
  shows "depot_log.told (pv_web V) sess r D (fst (finish bad (\<lambda>a. dp_log V r sess (act a) (kind a) (obj a) (det a)) good (on_pk f D)))"
  by (rule depot_log.told_finish)
    (use assms dp_entry in \<open>auto simp: on_pk_def dp_same_def split: prod.splits\<close>)

lemma dp_finish_repo:
  assumes "\<And>R e. f (db_repo (dp_pk D)) = (R, Inl e) \<Longrightarrow> R = db_repo (dp_pk D)"
  shows "depot_log.told (pv_web V) sess r D (fst (finish bad (\<lambda>a. dp_log V r sess (act a) (kind a) (obj a) (det a)) good (on_repo f D)))"
  unfolding on_repo_def by (rule dp_finish) (use assms in \<open>auto split: prod.splits\<close>)

lemma update_package_refused: "update_package M now i m R = (R', Inl e) \<Longrightarrow> R' = R"
  by (auto simp: update_package_def split: sum.splits if_splits)

lemma delete_package_refused: "delete_package i R = (R', Inl e) \<Longrightarrow> R' = R"
  by (auto simp: delete_package_def split: sum.splits)

lemma store_file_refused: "store_file K cont want R = (R', Inl e) \<Longrightarrow> R' = R"
  by (auto simp: store_file_def Let_def split: option.splits if_splits)

interpretation replaced: keyed_update pk_sha "replace_row p" for p
  by unfold_locales (simp add: replace_row_def)

lemma upsert_found: "\<exists>p. by_sha (pk_sha p0) (upsert now p0 R) = Inr p \<and> (\<exists>q. get_package (pk_id p) (upsert now p0 R) = Inr q)"
proof -
  have keys: "pk_sha ` set (upd_rows P (replace_row p) rs) = pk_sha ` set rs" for P p rs using replaced.map_key_upd by (metis set_map)
  have "find_row pk_sha (pk_sha p0) (rp_rows (upsert now p0 R)) \<noteq> None"
    by (cases "find_row pk_sha (pk_sha p0) (rp_rows R) = None") (simp_all add: upsert_def Let_def find_row_None keys)
  then obtain p where p: "find_row pk_sha (pk_sha p0) (rp_rows (upsert now p0 R)) = Some p" by blast
  then have "find_row pk_id (pk_id p) (rp_rows (upsert now p0 R)) \<noteq> None"
    by (auto simp: find_row_None dest: find_row_Some)
  then show ?thesis using p by (auto simp: by_sha_def get_package_def)
qed

lemma upload_refused:
  assumes "upload M K now cont f0 m0 R = (R', Inl e)"
  shows "R' = R"
proof (cases "validate_meta M now (case m0 of None \<Rightarrow> guess now (file_base (trim_space f0)) | Some m \<Rightarrow> m)")
  case (Inl m)
  then show ?thesis using assms by (simp add: upload_def Let_def split: if_splits)
next
  case (Inr m)
  let ?f = "file_base (trim_space f0)"
  obtain R1 x where store: "store_file K cont [] R = (R1, x)" by fastforce
  show ?thesis
  proof (cases x)
    case (Inl e')
    then show ?thesis using assms Inr store store_file_refused [of K cont "[]" R R1 e'] by (simp add: upload_def Let_def split: if_splits)
  next
    case sha: (Inr y)
    obtain sha sz where y: "y = (sha, sz)" by fastforce
    let ?p = "new_package sha ?f sz m None ''upload'' False"
    have "pk_sha ?p = sha" by (simp add: new_package_def)
    then obtain p q where "by_sha sha (upsert now ?p R1) = Inr p" "get_package (pk_id p) (upsert now ?p R1) = Inr q"
      using upsert_found [of ?p now R1] by metis
    then show ?thesis using assms Inr store sha y by (simp add: upload_def Let_def split: if_splits)
  qed
qed

lemma save_source_refused: "save_source E now s P = (P', Inl e) \<Longrightarrow> P' = P"
  by (auto simp: save_source_def write_source_def Let_def split: sum.splits if_splits)

lemma delete_source_refused: "delete_source i P = (P', Inl e) \<Longrightarrow> P' = P"
  by (auto simp: delete_source_def split: if_splits)

lemma import_bundle_refused: "import_bundle M K now fin z actor P = (P', Inl e) \<Longrightarrow> P' = P"
  by (auto simp: import_bundle_def Let_def split: option.splits sum.splits)

text \<open>A request that changes packages or sources, or asks for a sync, is in the log with the user; the log loses nothing.\<close>

lemma package_requests_accounted:
  "depot_log.told (pv_web V) sess r D (fst (update_package_h V sess r ps D))" "depot_log.told (pv_web V) sess r D (fst (delete_package_h V sess r ps D))"
  "depot_log.told (pv_web V) sess r D (fst (upload_package_h V sess r D))" "depot_log.told (pv_web V) sess r D (fst (import_bundle_h V fin sess r D))"
  "depot_log.told (pv_web V) sess r D (fst (save_source_h V sess r ps D))" "depot_log.told (pv_web V) sess r D (fst (delete_source_h V sess r ps D))"
  "depot_log.told (pv_web V) sess r D (fst (sync_source_h V sess r ps D))"
proof -
  show "depot_log.told (pv_web V) sess r D (fst (update_package_h V sess r ps D))"
    unfolding update_package_h_def by (intro depot_log.told_id depot_log.told_body dp_finish_repo) (rule update_package_refused)
  show "depot_log.told (pv_web V) sess r D (fst (delete_package_h V sess r ps D))"
    unfolding delete_package_h_def
    by (intro depot_log.told_id) (auto simp: depot_log.told_refl intro!: dp_finish_repo dest: delete_package_refused split: sum.split)
  show "depot_log.told (pv_web V) sess r D (fst (upload_package_h V sess r D))"
    unfolding upload_package_h_def
    by (intro dp_file) (auto simp: depot_log.told_refl intro!: dp_finish_repo dest: upload_refused split: option.split prod.split)
  show "depot_log.told (pv_web V) sess r D (fst (import_bundle_h V fin sess r D))"
    unfolding import_bundle_h_def
    by (intro dp_file) (auto simp: depot_log.told_refl intro!: dp_finish dest: import_bundle_refused split: option.split prod.split)
  show "depot_log.told (pv_web V) sess r D (fst (save_source_h V sess r ps D))"
    unfolding save_source_h_def by (intro depot_log.told_body depot_log.told_save dp_finish) (rule save_source_refused)
  show "depot_log.told (pv_web V) sess r D (fst (delete_source_h V sess r ps D))"
    unfolding delete_source_h_def by (intro depot_log.told_id dp_finish) (rule delete_source_refused)
  show "depot_log.told (pv_web V) sess r D (fst (sync_source_h V sess r ps D))"
    unfolding sync_source_h_def by (intro depot_log.told_id) (simp add: dp_logged)
qed

text \<open>A sync of a source that does not exist is accepted and logged.\<close>

lemma unknown_sync_accepted:
  "snd (sync_source_h V sess r [''99''] D) = Api.Reply 202 () \<and> pn_audit (dp_panel (fst (sync_source_h V sess r [''99''] D))) \<noteq> pn_audit (dp_panel D)"
proof -
  have "path_id [''99''] = Some 99" by code_simp
  then show ?thesis by (simp add: sync_source_h_def with_id_def dp_log_def Api.audit_def audit_log_def)
qed

end
