(* ===== verification/SiteUsers.thy ===== *)
theory SiteUsers
  imports Site SmtpGateway
begin

text \<open>
  The handlers of the panel for two-factor users, SMS, the directory, the RADIUS clients and the SMTP gateway
  (\<open>otp_handlers.go\<close>), over the users of \<open>Otp\<close>, the server of \<open>Radius\<close>, the gateway of \<open>SmtpGateway\<close> and
  the audit log.
\<close>

subsection \<open>State\<close>

text \<open>
  The users and the messages are one database: the server has it (\<open>rs_otp\<close>), and the gateway works on a
  view of it. The table of the SMS users of the FortiGates is \<open>gw_users\<close>; the license counts them.
\<close>

record desk =
  od_panel :: panel
  od_inv :: inv
  od_rad :: radsrv
  od_gw :: gateway

record deskcodecs =
  oc_user :: "string \<Rightarrow> ouser_input option"
  oc_policy :: "string \<Rightarrow> otp_policy option"
  oc_sms :: "string \<Rightarrow> smscfg option"
  oc_ldap :: "string \<Rightarrow> ldapcfg option"
  oc_radius :: "string \<Rightarrow> radcfg option"
  oc_gateway :: "string \<Rightarrow> smtpcfg option"
  oc_mobile :: "string \<Rightarrow> string option"
  oc_import :: "string \<Rightarrow> (string list \<times> string) option"
  oc_client :: "string \<Rightarrow> (bool \<times> string \<times> bool) option"

text \<open>\<open>ov_rnd\<close>: the random bytes of a new client's secret and of a rotated one.\<close>

record 'l deskenv =
  ov_web :: webenv
  ov_lic :: "'l licapi"
  ov_guard :: "'l guard"
  ov_inv :: invenv
  ov_rad :: radenv
  ov_enc :: "string \<Rightarrow> string"
  ov_rnd :: "string \<times> string"
  ov_salt :: string
  ov_sms :: provider
  ov_dir :: ldapconn
  ov_listen :: "string \<times> string"
  ov_codec :: deskcodecs

type_synonym 'a oanswer = "desk \<times> 'a Api.reply"

abbreviation ov_now :: "'l deskenv \<Rightarrow> time" where "ov_now E \<equiv> we_now (ov_web E)"
abbreviation ov_crypto :: "'l deskenv \<Rightarrow> crypto" where "ov_crypto E \<equiv> ae_crypto (we_auth (ov_web E))"
abbreviation od_otp :: "desk \<Rightarrow> otpdb" where "od_otp U \<equiv> rs_otp (od_rad U)"

definition ov_cap :: "'l deskenv \<Rightarrow> int" where "ov_cap E = otp_capacity (ov_lic E) (ov_now E) (Some (ov_guard E))"

definition od_log ::
  "'l deskenv \<Rightarrow> Api.request \<Rightarrow> session \<Rightarrow> string \<Rightarrow> string \<Rightarrow> string \<Rightarrow> (string \<times> string) list \<Rightarrow> desk \<Rightarrow> desk" where
  "od_log E r sess action kind obj details U = U\<lparr>od_panel := Api.audit (ov_web E) r sess action kind obj details (od_panel U)\<rparr>"

definition on_otp :: "(otpdb \<Rightarrow> otpdb \<times> 'r) \<Rightarrow> desk \<Rightarrow> desk \<times> 'r" where
  "on_otp f U = (case f (od_otp U) of (D, x) \<Rightarrow> (U\<lparr>od_rad := (od_rad U)\<lparr>rs_otp := D\<rparr>\<rparr>, x))"

definition on_rad :: "(radsrv \<Rightarrow> radsrv \<times> 'r) \<Rightarrow> desk \<Rightarrow> desk \<times> 'r" where
  "on_rad f U = (case f (od_rad U) of (R, x) \<Rightarrow> (U\<lparr>od_rad := R\<rparr>, x))"

definition on_gw :: "(gateway \<Rightarrow> gateway \<times> 'r) \<Rightarrow> desk \<Rightarrow> desk \<times> 'r" where
  "on_gw f U = (case f (od_gw U) of (G, x) \<Rightarrow> (U\<lparr>od_gw := G\<rparr>, x))"

text \<open>
  The errors of \<open>otp\<close>, \<open>sms\<close>, \<open>radiussrv\<close> and \<open>smtpgw\<close>. That SMS is not configured is an error of its own
  (\<open>ErrNotConfigured\<close>), here the one with its text; every other error of \<open>sms\<close> is an internal one.
\<close>

fun otp_error :: "oerror \<Rightarrow> 'a Api.reply" where
  "otp_error (OtpInput m) = Fail 400 m"
| "otp_error OtpCapacity = Fail 409 (oerror_text OtpCapacity)"
| "otp_error OtpRateLimited = Fail 409 (oerror_text OtpRateLimited)"
| "otp_error (OtpSms m) = (if m = not_configured then Fail 409 m else internal_error)"
| "otp_error OtpNotFound = not_found"
| "otp_error e = internal_error"

fun rad_error :: "raderror \<Rightarrow> 'a Api.reply" where
  "rad_error (RadInput m) = Fail 400 m"
| "rad_error e = internal_error"

subsection \<open>Users\<close>

text \<open>What the overview shows of the settings has its secrets replaced.\<close>

record overview =
  vw_capacity :: int
  vw_used :: int
  vw_policy :: otp_policy
  vw_sms :: smscfg
  vw_sms_configured :: bool
  vw_ldap :: ldapcfg
  vw_radius :: radcfg
  vw_gateway :: smtpcfg
  vw_stats :: "nat \<times> nat \<times> nat"
  vw_listen :: "string \<times> string"

definition sms_config :: "desk \<Rightarrow> smscfg" where "sms_config U = setting default_sms (ot_sms_config (od_otp U))"

definition overview_h :: "'l deskenv \<Rightarrow> desk \<Rightarrow> overview oanswer" where
  "overview_h E U =
     (U, Api.Reply 200 \<lparr>vw_capacity = ov_cap E, vw_used = otp_usage (od_otp U), vw_policy = policy_of (od_otp U),
           vw_sms = sms_redacted (sms_config U), vw_sms_configured = sms_configured (sms_config U),
           vw_ldap = ldap_redacted (ldap_of (od_otp U)), vw_radius = rad_config (od_rad U),
           vw_gateway = smtp_redacted (gw_cfg (od_gw U)), vw_stats = sms_stats (ov_now E) (ot_messages (od_otp U)),
           vw_listen = ov_listen E\<rparr>)"

definition list_users_h :: "desk \<Rightarrow> ouser list oanswer" where "list_users_h U = (U, Api.Reply 200 (list_ousers (od_otp U)))"

definition show_bool :: "bool \<Rightarrow> string" where "show_bool b = (if b then ''true'' else ''false'')"

definition save_user_h :: "'l deskenv \<Rightarrow> session \<Rightarrow> Api.request \<Rightarrow> string list \<Rightarrow> desk \<Rightarrow> ouser option oanswer" where
  "save_user_h E sess r ps U =
     with_body (oc_user (ov_codec E)) r U (\<lambda>i.
       if rq_method r = PUT
       then with_id ps U (\<lambda>n.
              finish otp_error
                (\<lambda>_. od_log E r sess ''otp_user.update'' ''otp_user'' (show_int n)
                       [(''username'', oi_username i), (''active'', show_bool (oi_active i))])
                (\<lambda>_. Api.Reply 204 None) (on_otp (update_ouser (ov_crypto E) (ov_cap E) (ov_salt E) n i) U))
       else finish otp_error
              (\<lambda>u. od_log E r sess ''otp_user.create'' ''otp_user'' (show_int (ou_id u))
                     [(''username'', ou_username u), (''source'', ou_source u)])
              (\<lambda>u. Api.Reply 201 (Some u)) (on_otp (create_ouser (ov_crypto E) (ov_cap E) (ov_now E) (ov_salt E) i) U))"

definition user_action_h ::
  "'l deskenv \<Rightarrow> session \<Rightarrow> Api.request \<Rightarrow> string list \<Rightarrow> (int \<Rightarrow> otpdb \<Rightarrow> (otpdb, oerror, unit) outcome) \<Rightarrow> string \<Rightarrow> desk \<Rightarrow> unit oanswer" where
  "user_action_h E sess r ps act name U =
     with_id ps U (\<lambda>i. finish otp_error (\<lambda>_. od_log E r sess name ''otp_user'' (show_int i) []) (Api.Reply 204) (on_otp (act i) U))"

definition delete_user_h :: "'l deskenv \<Rightarrow> session \<Rightarrow> Api.request \<Rightarrow> string list \<Rightarrow> desk \<Rightarrow> unit oanswer" where
  "delete_user_h E sess r ps = user_action_h E sess r ps delete_ouser ''otp_user.delete''"

definition unlock_user_h :: "'l deskenv \<Rightarrow> session \<Rightarrow> Api.request \<Rightarrow> string list \<Rightarrow> desk \<Rightarrow> unit oanswer" where
  "unlock_user_h E sess r ps = user_action_h E sess r ps unlock_ouser ''otp_user.unlock''"

subsection \<open>Settings\<close>

definition save_setting ::
  "'l deskenv \<Rightarrow> session \<Rightarrow> Api.request \<Rightarrow> string \<Rightarrow> (string \<Rightarrow> 'v option) \<Rightarrow> ('e \<Rightarrow> unit Api.reply) \<Rightarrow> ('v \<Rightarrow> desk \<Rightarrow> desk \<times> ('e + unit)) \<Rightarrow>
     desk \<Rightarrow> unit oanswer" where
  "save_setting E sess r name dec bad save U =
     with_body dec r U (\<lambda>v. finish bad (\<lambda>_. od_log E r sess (''setting.'' @ name) ''setting'' name []) (Api.Reply 204) (save v U))"

definition save_policy_setting :: "'l deskenv \<Rightarrow> session \<Rightarrow> Api.request \<Rightarrow> desk \<Rightarrow> unit oanswer" where
  "save_policy_setting E sess r = save_setting E sess r ''otp_policy'' (oc_policy (ov_codec E)) otp_error (\<lambda>p. on_otp (Otp.save_policy p))"

definition save_sms_setting :: "'l deskenv \<Rightarrow> session \<Rightarrow> Api.request \<Rightarrow> desk \<Rightarrow> unit oanswer" where
  "save_sms_setting E sess r = save_setting E sess r ''sms'' (oc_sms (ov_codec E)) otp_error (\<lambda>c. on_otp (save_sms c))"

definition save_ldap_setting :: "'l deskenv \<Rightarrow> session \<Rightarrow> Api.request \<Rightarrow> desk \<Rightarrow> unit oanswer" where
  "save_ldap_setting E sess r = save_setting E sess r ''ldap'' (oc_ldap (ov_codec E)) otp_error (\<lambda>c. on_otp (save_ldap c))"

definition save_radius_setting :: "'l deskenv \<Rightarrow> session \<Rightarrow> Api.request \<Rightarrow> desk \<Rightarrow> unit oanswer" where
  "save_radius_setting E sess r =
     save_setting E sess r ''radius'' (oc_radius (ov_codec E)) rad_error (\<lambda>c. on_rad (\<lambda>R. (save_radcfg c R, Inr ())))"

definition save_gateway_setting :: "'l deskenv \<Rightarrow> session \<Rightarrow> Api.request \<Rightarrow> desk \<Rightarrow> unit oanswer" where
  "save_gateway_setting E sess r = save_setting E sess r ''smtpgw'' (oc_gateway (ov_codec E)) (Fail 400) (\<lambda>c. on_gw (save_gw_config c))"

subsection \<open>SMS\<close>

definition sms_test_h :: "'l deskenv \<Rightarrow> session \<Rightarrow> Api.request \<Rightarrow> desk \<Rightarrow> unit oanswer" where
  "sms_test_h E sess r U =
     with_body (oc_mobile (ov_codec E)) r U (\<lambda>mobile.
       case send_sms (sms_config U) (ov_sms E) (ov_now E) mobile ''123456'' ''test'' (us_name (se_user sess)) None (ot_messages (od_otp U)) of
         (ms, err) \<Rightarrow>
           (fst (on_otp (\<lambda>D. (D\<lparr>ot_messages := ms\<rparr>, ())) U),
            case err of None \<Rightarrow> Api.Reply 204 () | Some e \<Rightarrow> if e = not_configured then otp_error (OtpSms e) else Fail 502 e))"

definition sms_credit_h :: "'l deskenv \<Rightarrow> desk \<Rightarrow> rat oanswer" where
  "sms_credit_h E U =
     (U, case sms_credit (sms_config U) (ov_sms E) of
           Inr c \<Rightarrow> Api.Reply 200 c
         | Inl e \<Rightarrow> if e = not_configured then otp_error (OtpSms e) else Fail 502 e)"

definition sms_messages_h :: "desk \<Rightarrow> (message list \<times> otp_event list) oanswer" where
  "sms_messages_h U = (U, Api.Reply 200 (messages 300 (ot_messages (od_otp U)), otp_events_list 300 (od_otp U)))"

subsection \<open>The directory\<close>

definition directory_search_h :: "'l deskenv \<Rightarrow> desk \<Rightarrow> dir_user list oanswer" where
  "directory_search_h E U = (U, case search_directory (ov_dir E) (od_otp U) of Inl e \<Rightarrow> Fail 502 e | Inr ds \<Rightarrow> Api.Reply 200 ds)"

definition directory_import_h :: "'l deskenv \<Rightarrow> session \<Rightarrow> Api.request \<Rightarrow> desk \<Rightarrow> nat oanswer" where
  "directory_import_h E sess r U =
     with_body (oc_import (ov_codec E)) r U (\<lambda>(names, grp).
       finish otp_error (\<lambda>n. od_log E r sess ''otp_user.import'' ''otp_user'' [] [(''count'', show_int (int n))]) (Api.Reply 200)
         (on_otp (import_directory (ov_crypto E) (ov_dir E) (ov_cap E) (ov_now E) names grp) U))"

subsection \<open>RADIUS clients\<close>

definition radius_clients_h :: "'l deskenv \<Rightarrow> desk \<Rightarrow> radclient list oanswer" where
  "radius_clients_h E U = (U, case list_clients (ov_rad E) (od_inv U) (od_rad U) of Inl e \<Rightarrow> internal_error | Inr cs \<Rightarrow> Api.Reply 200 cs)"

definition set_radius_client_h :: "'l deskenv \<Rightarrow> session \<Rightarrow> Api.request \<Rightarrow> string list \<Rightarrow> desk \<Rightarrow> unit oanswer" where
  "set_radius_client_h E sess r ps U =
     with_id ps U (\<lambda>i. with_body (oc_client (ov_codec E)) r U (\<lambda>(enabled, source, rotate').
       finish rad_error
         (\<lambda>_. od_log E r sess ''radius_client.set'' ''device'' (show_int i) [(''enabled'', show_bool enabled), (''rotate'', show_bool rotate')])
         (Api.Reply 204)
         (on_rad (\<lambda>R. case set_client (ov_rad E) (ov_enc E) (fst (ov_rnd E)) (od_inv U) i enabled source R of
                        (R1, Inl e) \<Rightarrow> (R1, Inl e)
                      | (R1, Inr _) \<Rightarrow> (if rotate' then rotate_secret (ov_rad E) (ov_enc E) (snd (ov_rnd E)) i R1 else R1, Inr ())) U)))"

definition fortigate_config_h :: "'l deskenv \<Rightarrow> Api.request \<Rightarrow> desk \<Rightarrow> string oanswer" where
  "fortigate_config_h E r U =
     (let ip = rq_query r ''server''; num = (\<lambda>name. case atoi (rq_query r name) of None \<Rightarrow> 0 | Some n \<Rightarrow> n)
      in (U, if ip = [] then Fail 400 ''server address is required''
             else if rq_query r ''mode'' = ''gateway'' then Api.Reply 200 (smtp_fortigate_config ip (num ''port'') (od_gw U))
             else (case rad_fortigate_config (ov_rad E) (od_inv U) (num ''device'') ip (rq_query r ''group'') (od_rad U) of
                     Inl e \<Rightarrow> rad_error e | Inr t \<Rightarrow> Api.Reply 200 t)))"

subsection \<open>The gateway\<close>

definition gateway_users_h :: "desk \<Rightarrow> (sms_user \<times> string) list oanswer" where
  "gateway_users_h U = (U, Api.Reply 200 (sms_users (od_inv U) (od_gw U)))"

text \<open>The devices that answered are stored also when another one failed.\<close>

definition gateway_sync_h :: "'l deskenv \<Rightarrow> desk \<Rightarrow> (sms_user \<times> string) list oanswer" where
  "gateway_sync_h E U =
     (case sync_users (ov_lic E) (ov_inv E) (ov_now E)
             (list_devices (ov_lic E) (ov_inv E) (ov_now E) (ov_guard E) (od_inv U) None []) (od_gw U) of
        (G, errs) \<Rightarrow>
          (let U1 = U\<lparr>od_gw := G, od_rad := (od_rad U)\<lparr>rs_otp := (od_otp U)\<lparr>ot_fortigate := map (\<lambda>u. (su_device u, su_username u)) (gw_users G)\<rparr>\<rparr>\<rparr>
           in if errs \<noteq> [] then (U1, Fail 502 (join [CHR 0x0A] errs)) else gateway_users_h U1))"

subsection \<open>Secrets stay in\<close>

text \<open>The overview has no key and no password.\<close>

lemma overview_hides_secrets:
  "\<exists>v. snd (overview_h E U) = Api.Reply 200 v \<and> sc_api_key (vw_sms v) \<in> {[], stars} \<and> lc_bind_password (vw_ldap v) \<in> {[], stars} \<and>
     gc_relay_password (vw_gateway v) \<in> {[], stars}"
  by (simp add: overview_h_def sms_redacted_def ldap_redacted_def smtp_redacted_def)

subsection \<open>What is done is in the log\<close>

definition rad_same :: "radsrv \<Rightarrow> radsrv \<Rightarrow> bool" where
  "rad_same R R' \<longleftrightarrow> rs_otp R' = rs_otp R \<and> rs_config R' = rs_config R \<and> rs_rows R' = rs_rows R"

definition od_same :: "desk \<Rightarrow> desk \<Rightarrow> bool" where
  "od_same U U' \<longleftrightarrow> rad_same (od_rad U) (od_rad U') \<and> od_gw U' = od_gw U"

lemma rad_same_refl: "rad_same R R" by (simp add: rad_same_def)

abbreviation od_entries :: "desk \<Rightarrow> audit_entry list" where "od_entries U \<equiv> pn_audit (od_panel U)"

interpretation desk_log: journal od_entries od_same "entry_of W sess r" for W sess r
  by unfold_locales (simp add: od_same_def rad_same_refl)

lemma od_entry: "\<exists>e. entry_of (ov_web E) sess r e \<and> od_entries (od_log E r sess a k n d U) = od_entries U @ [e]"
  by (simp add: entry_of_def od_log_def Api.audit_def audit_log_def)

lemma od_finish_otp:
  assumes "\<And>D e. f (od_otp U) = (D, Inl e) \<Longrightarrow> D = od_otp U"
  shows "desk_log.told (ov_web E) sess r U (fst (finish bad (\<lambda>a. od_log E r sess (act a) (kind a) (obj a) (det a)) good (on_otp f U)))"
  by (rule desk_log.told_finish) (use assms od_entry in \<open>auto simp: on_otp_def od_same_def rad_same_refl split: prod.splits\<close>)

lemma od_finish_rad:
  assumes "\<And>R e. f (od_rad U) = (R, Inl e) \<Longrightarrow> rad_same (od_rad U) R"
  shows "desk_log.told (ov_web E) sess r U (fst (finish bad (\<lambda>a. od_log E r sess (act a) (kind a) (obj a) (det a)) good (on_rad f U)))"
  by (rule desk_log.told_finish) (use assms od_entry in \<open>auto simp: on_rad_def od_same_def split: prod.splits\<close>)

lemma od_finish_gw:
  assumes "\<And>G e. f (od_gw U) = (G, Inl e) \<Longrightarrow> G = od_gw U"
  shows "desk_log.told (ov_web E) sess r U (fst (finish bad (\<lambda>a. od_log E r sess (act a) (kind a) (obj a) (det a)) good (on_gw f U)))"
  by (rule desk_log.told_finish) (use assms od_entry in \<open>auto simp: on_gw_def od_same_def rad_same_refl split: prod.splits\<close>)

lemma create_ouser_refused: "create_ouser K cap now salt i D = (D', Inl e) \<Longrightarrow> D' = D"
  by (auto simp: create_ouser_def insert_ouser_def Let_def split: sum.splits option.splits if_splits)

lemma update_ouser_refused: "update_ouser K cap salt n i D = (D', Inl e) \<Longrightarrow> D' = D"
  by (auto simp: update_ouser_def write_ouser_def Let_def split: sum.splits option.splits if_splits)

lemma set_client_refused:
  "snd (set_client V enc rnd I dev enabled src R) = Inl e \<Longrightarrow> rad_same R (fst (set_client V enc rnd I dev enabled src R))"
  by (auto simp: rad_same_def set_client_def rad_invalidate_def Let_def split: if_splits)

text \<open>
  A request that changes users, settings or clients is in the log with the user who sent it. The import of
  the directory is not among them, nor the test message, nor the sync of the gateway.
\<close>

lemma desk_requests_accounted:
  "desk_log.told (ov_web E) sess r U (fst (save_user_h E sess r ps U))" "desk_log.told (ov_web E) sess r U (fst (delete_user_h E sess r ps U))"
  "desk_log.told (ov_web E) sess r U (fst (unlock_user_h E sess r ps U))" "desk_log.told (ov_web E) sess r U (fst (save_policy_setting E sess r U))"
  "desk_log.told (ov_web E) sess r U (fst (save_sms_setting E sess r U))" "desk_log.told (ov_web E) sess r U (fst (save_ldap_setting E sess r U))"
  "desk_log.told (ov_web E) sess r U (fst (save_radius_setting E sess r U))" "desk_log.told (ov_web E) sess r U (fst (save_gateway_setting E sess r U))"
  "desk_log.told (ov_web E) sess r U (fst (set_radius_client_h E sess r ps U))"
proof -
  note bodies = desk_log.told_id desk_log.told_body
  show "desk_log.told (ov_web E) sess r U (fst (save_user_h E sess r ps U))"
    unfolding save_user_h_def
    by (intro desk_log.told_body) (auto intro!: desk_log.told_id od_finish_otp dest: update_ouser_refused create_ouser_refused)
  show "desk_log.told (ov_web E) sess r U (fst (delete_user_h E sess r ps U))"
    unfolding delete_user_h_def user_action_h_def by (intro bodies od_finish_otp) (auto simp: delete_ouser_def split: if_splits)
  show "desk_log.told (ov_web E) sess r U (fst (unlock_user_h E sess r ps U))"
    unfolding unlock_user_h_def user_action_h_def by (intro bodies od_finish_otp) (auto simp: unlock_ouser_def split: if_splits)
  show "desk_log.told (ov_web E) sess r U (fst (save_policy_setting E sess r U))"
    unfolding save_policy_setting_def save_setting_def by (intro bodies od_finish_otp) (auto simp: Otp.save_policy_def split: option.splits)
  show "desk_log.told (ov_web E) sess r U (fst (save_sms_setting E sess r U))"
    unfolding save_sms_setting_def save_setting_def by (intro bodies od_finish_otp) (auto simp: save_sms_def split: sum.splits)
  show "desk_log.told (ov_web E) sess r U (fst (save_ldap_setting E sess r U))"
    unfolding save_ldap_setting_def save_setting_def by (intro bodies od_finish_otp) (auto simp: save_ldap_def split: sum.splits)
  show "desk_log.told (ov_web E) sess r U (fst (save_radius_setting E sess r U))"
    unfolding save_radius_setting_def save_setting_def by (intro bodies od_finish_rad) simp
  show "desk_log.told (ov_web E) sess r U (fst (save_gateway_setting E sess r U))"
    unfolding save_gateway_setting_def save_setting_def by (intro bodies od_finish_gw) (auto simp: save_gw_config_def split: sum.splits)
  show "desk_log.told (ov_web E) sess r U (fst (set_radius_client_h E sess r ps U))"
    unfolding set_radius_client_h_def case_prod_unfold
    by (intro bodies od_finish_rad) (auto intro: set_client_refused split: prod.splits sum.splits if_splits)
qed

text \<open>
  A template number below zero is an error of the server and not of the input, since \<open>sms\<close> has no
  error for input.
\<close>

lemma bad_template_is_internal:
  assumes "oc_sms (ov_codec E) (take max_body (rq_body r)) = Some c" and "sc_template c < 0"
  shows "snd (save_sms_setting E sess r U) = internal_error"
  using assms
  by (simp add: save_sms_setting_def save_setting_def with_body_def decode_json_def on_otp_def save_sms_def save_sms_config_def Let_def
      finish_def not_configured_def)

text \<open>An import that fails on the way keeps the users it has made, and the log does not have them.\<close>

lemma import_keeps_part:
  "case create_all sample_crypto 9 0 ''vpn'' (map (\<lambda>n. \<lparr>du_username = n, du_name = n, du_mobile = ''09121234567'', du_exists = False, du_valid = True\<rparr>)
          [''neda'', ''Neda'']) sample_otp of
     (D, Inl e) \<Rightarrow> map ou_username (ot_users D) = [''reza'', ''neda''] | (D, Inr u) \<Rightarrow> False"
  by code_simp

end
