(* ===== verification/SiteLicense.thy ===== *)
theory SiteLicense
  imports Site
begin

text \<open>
  The handlers of the panel for the license (\<open>admin_handlers.go\<close>), over the manager of \<open>License\<close> and the audit
  log.
\<close>

subsection \<open>State\<close>

record 'l office =
  lo_panel :: panel
  lo_manager :: "'l manager"

text \<open>
  What the license format says of a license beyond \<open>licapi\<close>: its devices (serial, platform, expiry), its
  two-factor packs (users, expiry, end of the last day), the days of grace and other fields. \<open>lv_add_days\<close> is
  \<open>AddDate\<close>.
\<close>

record 'l licview =
  lv_devices :: "'l \<Rightarrow> (string \<times> string \<times> string) list"
  lv_packs :: "'l \<Rightarrow> (int \<times> string \<times> time) list"
  lv_grace_days :: "'l \<Rightarrow> int"
  lv_add_days :: "int \<Rightarrow> time \<Rightarrow> time"
  lv_fields :: "'l \<Rightarrow> (string \<times> string) list"
  lv_active :: string
  lv_grace :: string
  lv_expired :: string

record 'l officeenv =
  lv_web :: webenv
  lv_lic :: "'l licapi"
  lv_view :: "'l licview"
  lv_req :: reqenv
  lv_usage :: "string + string list"
  lv_activate :: "string \<Rightarrow> string \<Rightarrow> string License.reply"
  lv_beat :: "string \<Rightarrow> string \<Rightarrow> (string \<times> string) License.reply"
  lv_msg :: "lerror \<Rightarrow> string"
  lv_id :: string
  lv_key :: "string \<Rightarrow> string option"
  lv_text :: "string \<Rightarrow> string option"

type_synonym ('l, 'a) lanswer = "'l office \<times> 'a Api.reply"

definition lo_log ::
  "'l officeenv \<Rightarrow> Api.request \<Rightarrow> session \<Rightarrow> string \<Rightarrow> string \<Rightarrow> (string \<times> string) list \<Rightarrow> 'l office \<Rightarrow> 'l office" where
  "lo_log E r sess action obj details M = M\<lparr>lo_panel := Api.audit (lv_web E) r sess action ''license'' obj details (lo_panel M)\<rparr>"

definition on_manager :: "('l manager \<Rightarrow> 'l manager \<times> 'r) \<Rightarrow> 'l office \<Rightarrow> 'l office \<times> 'r" where
  "on_manager f M = (case f (lo_manager M) of (m, x) \<Rightarrow> (M\<lparr>lo_manager := m\<rparr>, x))"

fun license_error :: "'l officeenv \<Rightarrow> lerror \<Rightarrow> 'a Api.reply" where
  "license_error E (ServerError code m) = Fail 502 (''license server: '' @ m)"
| "license_error E NoServer = Fail 409 (lv_msg E NoServer)"
| "license_error E NoLicense = Fail 409 (lv_msg E NoLicense)"
| "license_error E e = Fail 400 (lv_msg E e)"

subsection \<open>The license as it is shown\<close>

datatype litem = DeviceItem string string string string | PackItem int string string

record lshown =
  ls_fields :: "(string \<times> string) list"
  ls_items :: "litem list"
  ls_online :: bool
  ls_capacity :: int

record lstate =
  lt_installed_at :: "time option"
  lt_heartbeat_at :: "time option"
  lt_heartbeat_status :: string
  lt_error :: string

definition manager_state :: "'l manager \<Rightarrow> lstate" where
  "manager_state m = \<lparr>lt_installed_at = m_installed_at m, lt_heartbeat_at = m_heartbeat_at m, lt_heartbeat_status = m_heartbeat_status m,
     lt_error = m_last_error m\<rparr>"

record lpage =
  lp_id :: string
  lp_online_configured :: bool
  lp_rolled_back :: bool
  lp_state :: lstate
  lp_license :: "lshown option"

definition pack_status :: "'l officeenv \<Rightarrow> 'l \<Rightarrow> time \<Rightarrow> time \<Rightarrow> string" where
  "pack_status E lic now end_of_day =
     (if now < end_of_day then lv_active (lv_view E)
      else if now < lv_add_days (lv_view E) (lv_grace_days (lv_view E) lic) end_of_day then lv_grace (lv_view E)
      else lv_expired (lv_view E))"

definition shown_license :: "'l officeenv \<Rightarrow> 'l manager \<Rightarrow> 'l \<Rightarrow> lshown" where
  "shown_license E m lic =
     (let now = guard_now (m_guard m) (we_now (lv_web E))
      in \<lparr>ls_fields = lv_fields (lv_view E) lic,
          ls_items =
            map (\<lambda>(serial, platform, expires). DeviceItem serial platform expires (lic_device_status (lv_lic E) lic serial now)) (lv_devices (lv_view E) lic) @
            map (\<lambda>(users, expires, end_of_day). PackItem users expires (pack_status E lic now end_of_day)) (lv_packs (lv_view E) lic),
          ls_online = (online (lv_lic E) lic \<noteq> None), ls_capacity = lic_otp_capacity (lv_lic E) lic now\<rparr>)"

definition get_license_h :: "'l officeenv \<Rightarrow> 'l office \<Rightarrow> ('l, lpage) lanswer" where
  "get_license_h E M =
     (let m = lo_manager M
      in (M, Api.Reply 200 \<lparr>lp_id = lv_id E, lp_online_configured = (m_server m \<noteq> []),
             lp_rolled_back = clock_rolled_back (m_guard m) (we_now (lv_web E)), lp_state = manager_state m,
             lp_license = (case guard_license (m_guard m) of Inl e \<Rightarrow> None | Inr lic \<Rightarrow> Some (shown_license E m lic))\<rparr>))"

subsection \<open>Changing it\<close>

text \<open>An installation answers with the page.\<close>

definition shown_after :: "'l officeenv \<Rightarrow> ('l \<Rightarrow> 'l office \<Rightarrow> 'l office) \<Rightarrow> 'l office \<times> (lerror + 'l) \<Rightarrow> ('l, lpage) lanswer" where
  "shown_after E entry x =
     (case x of (M, Inl e) \<Rightarrow> (M, license_error E e) | (M, Inr lic) \<Rightarrow> get_license_h E (entry lic M))"

definition activate_license_h :: "'l officeenv \<Rightarrow> session \<Rightarrow> Api.request \<Rightarrow> 'l office \<Rightarrow> ('l, lpage) lanswer" where
  "activate_license_h E sess r M =
     with_body (lv_key E) r M (\<lambda>key.
       shown_after E (\<lambda>lic. lo_log E r sess ''license.activate'' (license_id (lv_lic E) lic) [(''method'', ''online'')])
         (on_manager (activate_online (lv_lic E) (lv_req E) (lv_usage E) (lv_activate E) (we_now (lv_web E)) key) M))"

text \<open>The request file for the license server, with a newline.\<close>

definition license_request_h :: "'l officeenv \<Rightarrow> session \<Rightarrow> Api.request \<Rightarrow> 'l office \<Rightarrow> ('l, string) lanswer" where
  "license_request_h E sess r M =
     with_body (lv_key E) r M (\<lambda>key.
       finish (license_error E) (\<lambda>_. lo_log E r sess ''license.request'' [] []) (\<lambda>token. Api.Reply 200 (token @ [CHR 0x0A]))
         (M, offline_request (lv_lic E) (lv_req E) (lv_usage E) (we_now (lv_web E)) key (lo_manager M)))"

definition upload_license_h :: "'l officeenv \<Rightarrow> session \<Rightarrow> Api.request \<Rightarrow> 'l office \<Rightarrow> ('l, lpage) lanswer" where
  "upload_license_h E sess r M =
     with_body (lv_text E) r M (\<lambda>token.
       shown_after E (\<lambda>lic. lo_log E r sess ''license.upload'' (license_id (lv_lic E) lic) [])
         (on_manager (manager_install (lv_lic E) (we_now (lv_web E)) token) M))"

text \<open>A heartbeat that is asked for has no entry in the log, also when its answer takes the license away.\<close>

definition license_heartbeat_h :: "'l officeenv \<Rightarrow> 'l office \<Rightarrow> ('l, lpage) lanswer" where
  "license_heartbeat_h E M =
     (case heartbeat (lv_lic E) (lv_req E) (lv_msg E) (lv_usage E) (lv_beat E) (we_now (lv_web E)) (lo_manager M) of
        (m, status, err) \<Rightarrow>
          (let M1 = M\<lparr>lo_manager := m\<rparr> in case err of Some e \<Rightarrow> (M1, license_error E e) | None \<Rightarrow> get_license_h E M1))"

subsection \<open>What is done is in the log\<close>

definition lo_same :: "'l office \<Rightarrow> 'l office \<Rightarrow> bool" where "lo_same M M' \<longleftrightarrow> lo_manager M' = lo_manager M"

abbreviation lo_entries :: "'l office \<Rightarrow> audit_entry list" where "lo_entries M \<equiv> pn_audit (lo_panel M)"

interpretation office_log: journal lo_entries lo_same "entry_of W sess r" for W sess r
  by unfold_locales (simp add: lo_same_def)

lemma install_refused: "manager_install L clk token m = (m', Inl e) \<Longrightarrow> m' = m"
  by (auto simp: manager_install_def guard_install_def Let_def split: sum.splits option.splits if_splits prod.splits)

lemma activate_refused: "activate_online L R u net clk key m = (m', Inl e) \<Longrightarrow> m' = m"
  by (auto simp: activate_online_def dest: install_refused split: sum.splits if_splits)

lemma get_license_read: "fst (get_license_h E M) = M" by (simp add: get_license_h_def Let_def)

lemma lo_entry: "\<exists>e. entry_of (lv_web E) sess r e \<and> lo_entries (lo_log E r sess a n d M) = lo_entries M @ [e]"
  by (simp add: entry_of_def lo_log_def Api.audit_def audit_log_def)

lemma shown_after_told:
  assumes "\<And>m e. f (lo_manager M) = (m, Inl e) \<Longrightarrow> m = lo_manager M"
  shows "office_log.told (lv_web E) sess r M (fst (shown_after E (\<lambda>lic. lo_log E r sess (act lic) (obj lic) (det lic)) (on_manager f M)))"
proof (cases "f (lo_manager M)")
  case (Pair m x)
  show ?thesis
  proof (cases x)
    case (Inl e)
    then have "m = lo_manager M" using assms Pair by simp
    then show ?thesis using Pair Inl by (simp add: shown_after_def on_manager_def office_log.told_refl)
  next
    case (Inr lic)
    obtain e where e: "entry_of (lv_web E) sess r e"
      "lo_entries (lo_log E r sess (act lic) (obj lic) (det lic) (M\<lparr>lo_manager := m\<rparr>)) = lo_entries (M\<lparr>lo_manager := m\<rparr>) @ [e]"
      using lo_entry by blast
    have "fst (shown_after E (\<lambda>lic. lo_log E r sess (act lic) (obj lic) (det lic)) (on_manager f M)) =
        lo_log E r sess (act lic) (obj lic) (det lic) (M\<lparr>lo_manager := m\<rparr>)"
      using Pair Inr by (simp add: shown_after_def on_manager_def get_license_read)
    then show ?thesis using e by (intro office_log.told_entry) simp_all
  qed
qed

text \<open>An installation or a request file that is made has an entry with the user; what is refused changes nothing.\<close>

lemma license_requests_told:
  "office_log.told (lv_web E) sess r M (fst (activate_license_h E sess r M))" "office_log.told (lv_web E) sess r M (fst (upload_license_h E sess r M))"
  "office_log.told (lv_web E) sess r M (fst (license_request_h E sess r M))"
proof -
  show "office_log.told (lv_web E) sess r M (fst (activate_license_h E sess r M))"
    unfolding activate_license_h_def by (intro office_log.told_body shown_after_told) (rule activate_refused)
  show "office_log.told (lv_web E) sess r M (fst (upload_license_h E sess r M))"
    unfolding upload_license_h_def by (intro office_log.told_body shown_after_told) (rule install_refused)
  show "office_log.told (lv_web E) sess r M (fst (license_request_h E sess r M))"
    unfolding license_request_h_def
    by (intro office_log.told_body office_log.told_finish) (use lo_entry in \<open>auto simp: lo_same_def\<close>)
qed

lemma heartbeat_unlogged: "lo_entries (fst (license_heartbeat_h E M)) = lo_entries M"
  by (simp add: license_heartbeat_h_def Let_def get_license_h_def split: prod.split option.split)

end
