(* ===== verification/Spec2Isabelle.thy ===== *)
theory Spec2Isabelle
  imports License Engine Auth FileServer Otp Backup Alerts Monitor Radius Sources Scripts Deploy SmtpGateway Vendors Reauth SitePackages SiteUsers SiteLicense
begin

text \<open>
  TaktaPlus: the panel that manages FortiGate and FortiWeb devices (the Go program under \<open>src/\<close>).

  The program. \<open>cmd/taktaplus\<close> wires a set of services around one PostgreSQL database: accounts and sessions
  (\<open>internal/auth\<close>), the license (\<open>internal/license\<close>), the device inventory with its transports
  (\<open>internal/inventory\<close>, \<open>internal/device\<close>), monitoring and alerts (\<open>internal/monitor\<close>, \<open>internal/alerts\<close>),
  backups and restores (\<open>internal/backup\<close>), changes with approval, windows and a staged engine
  (\<open>internal/changes\<close>), the kinds of changes (\<open>internal/scripts\<close>, \<open>internal/deploy\<close>), the package repository
  and its sources (\<open>internal/packages\<close>), the file server that devices pull from (\<open>internal/fileserver\<close>), and
  two-factor sign-in for the users of the devices by RADIUS, SMS and an email gateway (\<open>internal/otp\<close>,
  \<open>internal/sms\<close>, \<open>internal/radiussrv\<close>, \<open>internal/smtpgw\<close>). \<open>internal/api\<close> puts an HTTP interface with
  permissions and an audit log in front of them.

  How it is modelled. A table is a list of rows (records with the columns), a service is a record of its
  tables and of what it keeps in memory, and an operation is a function from the state to the new state
  and an error or a result (\<open>outcome\<close> in \<open>Prelude\<close>); a transaction that fails returns the state it started
  from, and constraints of the schema (unique indexes, foreign keys, \<open>ON DELETE\<close>) are written out where
  the code or a property depends on them. The clock, random bytes and the answers of the network are
  arguments. Strings are byte strings, times are nanoseconds, amounts and percentages rationals, identifiers
  \<open>int\<close>; one-time codes and counters keep their width (\<open>Password\<close>). Concurrency is explicit where it matters:
  the engine is a step relation of its goroutines (\<open>Engine\<close>), the monitor's polls are started and finished in any
  order (\<open>Monitor\<close>), and histories are closures of step relations (\<open>auth_step\<close>, \<open>inv_step\<close>, \<open>chg_step\<close>,
  \<open>eng_step\<close>, \<open>bk_step\<close>, \<open>fs_step\<close>, \<open>pk_step\<close> and others) with the operations in any order.

  Parameters. What is not code of the repository is a record of functions that the definitions take: the license
  format (\<open>licapi\<close>), Argon2 and HMAC (\<open>crypto\<close>), the secret box, cron and template engines, the manifest library
  (\<open>mflib\<close>), JSON decoders (\<open>codecs\<close> and others), address parsing (\<open>netlib\<close>), LDAP, RADIUS and SMTP libraries,
  and the transports of a device (\<open>transports\<close>). What a theorem needs of them is a premise of the theorem
  (for instance that the box opens what it sealed, or that comparing versions is an order), and
  its witness instantiates them with concrete functions (\<open>sample_...\<close>).

  The theories, with the code they model and what their lemmas show:

  \<^item> \<open>Prelude\<close>: time units, string operations of Go's library, loops with early return, tables. Locales
    that several components share: \<open>Lockout\<close> has the contract of accounts that lock after wrong guesses, with
    the bound on guesses proved once and interpreted for panel users (\<open>Auth\<close>) and two-factor users (\<open>Otp\<close>).
  \<^item> \<open>Password\<close> (\<open>auth/password.go\<close>, \<open>totp.go\<close>): encoded hashes round-trip, base64, one-time codes within a window.
  \<^item> \<open>Auth\<close> (\<open>auth/roles.go\<close>, \<open>service.go\<close>, \<open>users.go\<close>): well-formed reachable states, no session passes without its
    second factor, guesses are limited, a superadministrator stays.
  \<^item> \<open>License\<close> (\<open>license/guard.go\<close>, \<open>manager.go\<close>): the guard's clock never runs back; what installs.
  \<^item> \<open>Device\<close>, \<open>Inventory\<close> (\<open>device/driver.go\<close>, \<open>cli.go\<close>, \<open>inventory/*.go\<close>): choice of transports, the device tables and
    their constraints, secrets kept on update.
  \<^item> \<open>Alerts\<close>, \<open>Monitor\<close> (\<open>alerts/*.go\<close>, \<open>monitor/monitor.go\<close>): an alert is open exactly when its condition has held
    long enough; polls exclude each other and miss no device.
  \<^item> \<open>ConfigText\<close>, \<open>Backup\<close> (\<open>backup/*.go\<close>): comparison of configurations is complete on their flat form; stored
    backups stay readable, retention refines its specification, a restore first saves what it replaces, one restore
    per device, the watcher ends.
  \<^item> \<open>Windows\<close>, \<open>Changes\<close>, \<open>Engine\<close> (\<open>changes/*.go\<close>): windows and their next start, the states of a change, no change
    is approved without enough other users, limits, canaries and termination of an execution, one running target
    per device.
  \<^item> \<open>Scripts\<close> (\<open>scripts/scripts.go\<close>): read-only runs send only reading commands; variables of the narrowest scope win.
  \<^item> \<open>Packages\<close>, \<open>Sources\<close> (\<open>packages/*.go\<close>): files stored by content, signed sources are mirrored and only what a key
    signed is marked as verified.
  \<^item> \<open>FileServer\<close>, \<open>Deploy\<close> (\<open>fileserver/*.go\<close>, \<open>deploy/*.go\<close>): only granted files are served; the firmware path is
    shortest, a finished upgrade is at its target, signature deployments send what fits.
  \<^item> \<open>Sms\<close>, \<open>Otp\<close>, \<open>Radius\<close>, \<open>SmtpGateway\<close> (\<open>sms\<close>, \<open>settings\<close>, \<open>otp\<close>, \<open>radiussrv\<close>, \<open>smtpgw\<close>): licensed capacity, a
    challenge counts once, every accept had its first factor, a mail sends codes within the limits.
  \<^item> \<open>Regex\<close>, \<open>Vendors\<close> (\<open>device/httpclient.go\<close>, \<open>fortigate.go\<close>, \<open>fortiweb.go\<close>, \<open>ssh.go\<close>, \<open>cli.go\<close>): a matcher for the patterns of the code,
    proved sound and complete for their languages; the requests to the devices, the decoding of what they answer and of CLI
    output: a backup is the text of a configuration, and a rejected line of a script is reported.
  \<^item> \<open>Api\<close> (\<open>api/server.go\<close>, \<open>httpx.go\<close>, \<open>auth_handlers.go\<close>, \<open>admin_handlers.go\<close>, \<open>audit/audit.go\<close>): the routes and their guards, sign-in,
    users; no handler is reached without its permission.
  \<^item> \<open>Site\<close>, \<open>SiteChanges\<close> (\<open>api/device_handlers.go\<close>, \<open>backup_handlers.go\<close>, \<open>change_handlers.go\<close>): the handlers over the services above, in
    combinators for what they have in common (\<open>with_id\<close>, \<open>with_body\<close>, \<open>with_reauth\<close>, \<open>finish\<close>), and the deletions that cross
    services. \<open>Requests\<close> puts the guards before them (\<open>serve\<close>) and shows that every change of settings is in the audit log
    of a user who may make it; \<open>Reauth\<close> shows that only with password and code a device goes or a restore starts.
  \<^item> \<open>SitePackages\<close>, \<open>SiteUsers\<close>, \<open>SiteLicense\<close> (\<open>api/package_handlers.go\<close>, \<open>otp_handlers.go\<close>, \<open>admin_handlers.go\<close>): the other handlers, each over
    the state of its services; the locale \<open>journal\<close> of \<open>Site\<close> has the laws of a state with an audit log.
  Bounds and fuel. A loop that waits for a device takes the list of what each round will find
  (\<open>watch_loop\<close> in \<open>Backup\<close>, \<open>wait_for\<close> in \<open>Deploy\<close>) and returns \<open>None\<close> when the list is too short; the
  theorems say that the rounds until the limit (\<open>bo_reboot_limit\<close>, \<open>dp_reboot_limit\<close>) are enough, since each takes
  at least the interval of polling. Verification after an upload reads \<open>dp_tries\<close> answers, as the code. A body is cut at
  \<open>max_body\<close> bytes, a mail at its limit, a list at the code's \<open>LIMIT\<close>. The upgrade search ends since it visits a
  version once; an execution ends since every step lowers the measure of \<open>run_step_measure\<close>.

  Not modelled: failures of the database itself other than its constraints, timeouts and cancelled requests; the machine
  fingerprint and key generation (\<open>license/identity.go\<close>), start-up and wiring (\<open>cmd/taktaplus\<close>, \<open>config\<close>, \<open>buildinfo\<close>,
  \<open>tlscert\<close>, \<open>store\<close>) and the background loops, whose bodies are modelled; the connections to devices (TCP, TLS and
  SSH handshakes), which are parameters of the transports; the secret box, whose cipher is a parameter; test doubles; the web panel.
  The location of maintenance windows has a fixed offset from UTC, and what differs only in the case of
  characters outside ASCII is not distinguished.
\<close>

end
